(* ===== verification/Go_Prelude.thy ===== *)
theory Go_Prelude
  imports "HOL-Library.Word" "HOL-Library.AList" "HOL-Library.Multiset"
begin

text \<open>
  What the components share: the Go types and standard-library functions the
  sources use (64-bit integers with wrap-around, times, byte strings, maps), the
  result type of fallible functions, and the lemma collections their proofs draw on.

  \<^item> \<open>int\<close>/\<open>int64\<close> values are HOL integers; every arithmetic operation that could
    leave the 64-bit range is written with \<open>wrap64\<close>, so wrap-around is part of the model.
  \<^item> a \<open>time.Time\<close> is the number of nanoseconds since the Unix epoch; Go's zero time
    (January 1, year 1) is \<open>zero_time\<close>. Locations are not modelled, so \<open>.UTC()\<close> is
    the identity. \<open>Sub\<close> saturates at the \<open>Duration\<close> range, as Go's does.
  \<^item> a string is a list of bytes. \<open>trim_space\<close> removes the UTF-8 encodings of every
    Unicode white-space code point; \<open>to_upper\<close> and \<open>to_lower\<close> map ASCII letters only
    (the model is faithful on strings whose letters are ASCII).
  \<^item> a Go map that is iterated is an association list without duplicate keys, whose order
    stands for the order one iteration happens to take.
\<close>

subsection \<open>Collections of facts\<close>

named_theorems go_ok \<open>inversion of results: when is a guarded result a success\<close>
named_theorems go_arith \<open>64-bit arithmetic\<close>

subsection \<open>Results\<close>

abbreviation Err :: "'e \<Rightarrow> 'e + 'a" where "Err \<equiv> Inl"
abbreviation Ok :: "'a \<Rightarrow> 'e + 'a" where "Ok \<equiv> Inr"

definition is_ok :: "'e + 'a \<Rightarrow> bool" where
  "is_ok r = (case r of Err _ \<Rightarrow> False | Ok _ \<Rightarrow> True)"

lemma is_ok_simps [simp]: "\<not> is_ok (Err e)" "is_ok (Ok x)"
  by (simp_all add: is_ok_def)

lemma is_ok_iff: "is_ok r \<longleftrightarrow> (\<exists>x. r = Ok x)"
  by (cases r) simp_all

lemma if_err_ok [go_ok]: "((if b then Err e else r) = Ok x) \<longleftrightarrow> (\<not> b \<and> r = Ok x)"
  by simp

lemma case_err_ok [go_ok]:
  "((case r of Err e \<Rightarrow> Err (f e) | Ok x \<Rightarrow> g x) = Ok y) \<longleftrightarrow> (\<exists>x. r = Ok x \<and> g x = Ok y)"
  by (cases r) simp_all

lemma case_option_err_ok [go_ok]:
  "((case m of None \<Rightarrow> Err e | Some x \<Rightarrow> g x) = Ok y) \<longleftrightarrow> (\<exists>x. m = Some x \<and> g x = Ok y)"
  by (cases m) simp_all

subsection \<open>64-bit integers\<close>

definition max_int64 :: int where "max_int64 = 2 ^ 63 - 1"
definition min_int64 :: int where "min_int64 = - (2 ^ 63)"

definition in_int64 :: "int \<Rightarrow> bool" where
  "in_int64 x \<longleftrightarrow> min_int64 \<le> x \<and> x \<le> max_int64"

definition wrap64 :: "int \<Rightarrow> int" where
  "wrap64 x = (x + 2 ^ 63) mod 2 ^ 64 - 2 ^ 63"

abbreviation add64 :: "int \<Rightarrow> int \<Rightarrow> int" where "add64 a b \<equiv> wrap64 (a + b)"
abbreviation sub64 :: "int \<Rightarrow> int \<Rightarrow> int" where "sub64 a b \<equiv> wrap64 (a - b)"
abbreviation mul64 :: "int \<Rightarrow> int \<Rightarrow> int" where "mul64 a b \<equiv> wrap64 (a * b)"

lemma max_int64_val [simp]: "max_int64 = 9223372036854775807"
  by (simp add: max_int64_def)

lemma min_int64_val [simp]: "min_int64 = - 9223372036854775808"
  by (simp add: min_int64_def)

lemma in_int64_iff [go_arith]:
  "in_int64 x \<longleftrightarrow> - 9223372036854775808 \<le> x \<and> x \<le> 9223372036854775807"
  by (simp add: in_int64_def)

lemma wrap64_id [simp]: "in_int64 x \<Longrightarrow> wrap64 x = x"
  by (simp add: in_int64_iff wrap64_def)

lemma wrap64_range: "in_int64 (wrap64 x)"
proof -
  have "0 \<le> (x + 2 ^ 63) mod 2 ^ 64" "(x + 2 ^ 63) mod 2 ^ 64 < (2 ^ 64 :: int)"
    by simp_all
  then show ?thesis by (simp add: in_int64_iff wrap64_def)
qed

lemma wrap64_idem [simp]: "wrap64 (wrap64 x) = wrap64 x"
  by (simp add: wrap64_range)

text \<open>\<open>wrap64\<close> is reading a 64-bit machine word as a signed number.\<close>

lemma wrap64_sint: "wrap64 x = sint (word_of_int x :: 64 word)"
proof -
  have "sint (word_of_int x :: 64 word) = signed_take_bit 63 x"
    by (simp add: signed_of_int)
  then show ?thesis
    by (simp add: wrap64_def signed_take_bit_eq_take_bit_shift take_bit_eq_mod)
qed

lemma wrap64_add_left [simp]: "wrap64 (wrap64 a + b) = wrap64 (a + b)"
proof -
  have "wrap64 (wrap64 a + b) = ((a + 2 ^ 63) mod 2 ^ 64 + b) mod 2 ^ 64 - 2 ^ 63"
    by (simp add: wrap64_def)
  also have "\<dots> = (a + 2 ^ 63 + b) mod 2 ^ 64 - 2 ^ 63"
    by (simp only: mod_add_left_eq)
  also have "\<dots> = wrap64 (a + b)"
    by (simp add: wrap64_def algebra_simps)
  finally show ?thesis .
qed

lemma wrap64_add_right [simp]: "wrap64 (a + wrap64 b) = wrap64 (a + b)"
  using wrap64_add_left [of b a] by (simp add: add.commute)

lemma wrap64_over: "max_int64 < x \<Longrightarrow> x \<le> max_int64 + 2 ^ 64 \<Longrightarrow> wrap64 x = x - 2 ^ 64"
proof -
  assume "max_int64 < x" "x \<le> max_int64 + 2 ^ 64"
  then have "(x + 2 ^ 63 - 2 ^ 64) mod 2 ^ 64 = x + 2 ^ 63 - 2 ^ 64"
    by (intro mod_pos_pos_trivial) simp_all
  moreover have "(x + 2 ^ 63 - 2 ^ 64) mod 2 ^ 64 = (x + 2 ^ 63) mod (2 ^ 64 :: int)"
    by (rule minus_mod_self2)
  ultimately show ?thesis by (simp add: wrap64_def)
qed

lemma wrap64_of_nonneg:
  "0 \<le> x \<Longrightarrow> x \<le> max_int64 \<Longrightarrow> wrap64 x = x"
  by (simp add: in_int64_iff)

text \<open>Go's integer division truncates towards zero.\<close>

definition quot :: "int \<Rightarrow> int \<Rightarrow> int" where
  "quot a b = sgn a * sgn b * (\<bar>a\<bar> div \<bar>b\<bar>)"

definition rem :: "int \<Rightarrow> int \<Rightarrow> int" where
  "rem a b = a - b * quot a b"

lemma quot_nonneg [simp]: "0 \<le> a \<Longrightarrow> 0 < b \<Longrightarrow> quot a b = a div b"
  by (cases "a = 0") (simp_all add: quot_def)

lemma rem_nonneg [simp]: "0 \<le> a \<Longrightarrow> 0 < b \<Longrightarrow> rem a b = a mod b"
  by (simp add: rem_def minus_mult_div_eq_mod)

subsection \<open>Times and durations\<close>

type_synonym gotime = int
type_synonym duration = int

definition zero_time :: gotime where "zero_time = - 62135596800 * 10 ^ 9"
definition time_is_zero :: "gotime \<Rightarrow> bool" where "time_is_zero t \<longleftrightarrow> t = zero_time"
definition time_second :: duration where "time_second = 10 ^ 9"
definition time_hour :: duration where "time_hour = 3600 * 10 ^ 9"

text \<open>
  \<open>time.Unix(s, 0)\<close>: the seconds are kept as an \<open>int64\<close> counted from the year 1, so the
  addition of the offset wraps for seconds close to the end of the range.
\<close>
definition unix_to_internal :: int where "unix_to_internal = 62135596800"
definition time_unix :: "int \<Rightarrow> gotime" where
  "time_unix s = (wrap64 (s + unix_to_internal) - unix_to_internal) * 10 ^ 9"

lemma time_unix_exact:
  "0 \<le> s \<Longrightarrow> s \<le> max_int64 - unix_to_internal \<Longrightarrow> time_unix s = s * 10 ^ 9"
  by (simp add: time_unix_def unix_to_internal_def in_int64_iff)

text \<open>\<open>t.Sub(u)\<close> saturates at the range of \<open>Duration\<close>.\<close>
definition time_sub :: "gotime \<Rightarrow> gotime \<Rightarrow> duration" where
  "time_sub t u = max min_int64 (min max_int64 (t - u))"

text \<open>\<open>if now.IsZero() { now = clock() }\<close>\<close>
definition or_now :: "gotime \<Rightarrow> gotime \<Rightarrow> gotime" where
  "or_now clock now = (if time_is_zero now then clock else now)"

lemma or_now_nonzero [simp]: "\<not> time_is_zero now \<Longrightarrow> or_now clock now = now"
  by (simp add: or_now_def)

lemma time_sub_exact: "in_int64 (t - u) \<Longrightarrow> time_sub t u = t - u"
  by (simp add: time_sub_def in_int64_iff)

lemma time_sub_le_iff:
  "d < max_int64 \<Longrightarrow> min_int64 \<le> d \<Longrightarrow> time_sub t u \<le> d \<longleftrightarrow> t - u \<le> d"
  by (auto simp: time_sub_def)

subsection \<open>Identifiers\<close>

text \<open>A \<open>uuid.UUID\<close> is 16 bytes; \<open>uuid.Nil\<close> is all zero. \<open>uuid.New()\<close> is an argument.\<close>

type_synonym uuid = "128 word"
definition uuid_nil :: uuid where "uuid_nil = 0"

subsection \<open>Byte strings\<close>

text \<open>The UTF-8 encodings of the white-space code points.\<close>

definition white_space :: "string list" where
  "white_space =
     [[CHR 0x09], [CHR 0x0A], [CHR 0x0B], [CHR 0x0C], [CHR 0x0D], [CHR 0x20],
      [CHR 0xC2, CHR 0x85], [CHR 0xC2, CHR 0xA0], [CHR 0xE1, CHR 0x9A, CHR 0x80],
      [CHR 0xE2, CHR 0x80, CHR 0x80], [CHR 0xE2, CHR 0x80, CHR 0x81],
      [CHR 0xE2, CHR 0x80, CHR 0x82], [CHR 0xE2, CHR 0x80, CHR 0x83],
      [CHR 0xE2, CHR 0x80, CHR 0x84], [CHR 0xE2, CHR 0x80, CHR 0x85],
      [CHR 0xE2, CHR 0x80, CHR 0x86], [CHR 0xE2, CHR 0x80, CHR 0x87],
      [CHR 0xE2, CHR 0x80, CHR 0x88], [CHR 0xE2, CHR 0x80, CHR 0x89],
      [CHR 0xE2, CHR 0x80, CHR 0x8A], [CHR 0xE2, CHR 0x80, CHR 0xA8],
      [CHR 0xE2, CHR 0x80, CHR 0xA9], [CHR 0xE2, CHR 0x80, CHR 0xAF],
      [CHR 0xE2, CHR 0x81, CHR 0x9F], [CHR 0xE3, CHR 0x80, CHR 0x80]]"

text \<open>\<open>strip_by ws s\<close> removes words of \<open>ws\<close> from the front of \<open>s\<close> as long as there is one.\<close>

definition starts_with :: "string \<Rightarrow> string \<Rightarrow> bool" where
  "starts_with s w \<longleftrightarrow> w \<noteq> [] \<and> take (length w) s = w"

function strip_by :: "string list \<Rightarrow> string \<Rightarrow> string" where
  "strip_by ws s =
     (case find (starts_with s) ws of
        None \<Rightarrow> s
      | Some w \<Rightarrow> strip_by ws (drop (length w) s))"
  by pat_completeness auto
termination
proof (relation "measure (\<lambda>(ws, s). length s)")
  fix ws s w assume "find (starts_with s) ws = Some w"
  then have "starts_with s w" by (auto simp: find_Some_iff)
  then have "w \<noteq> []" "s \<noteq> []" by (auto simp: starts_with_def)
  then show "((ws, drop (length w) s), ws, s) \<in> measure (\<lambda>(ws, s). length s)" by simp
qed simp

declare strip_by.simps [simp del]

definition trim_space :: "string \<Rightarrow> string" where
  "trim_space s =
     rev (strip_by (map rev white_space) (rev (strip_by white_space s)))"

lemma strip_by_suffix: "\<exists>p. s = p @ strip_by ws s"
proof (induction ws s rule: strip_by.induct)
  case (1 ws s)
  show ?case
  proof (cases "find (starts_with s) ws")
    case None
    then show ?thesis by (simp add: strip_by.simps [of ws s])
  next
    case (Some w)
    with "1.IH" obtain p where "drop (length w) s = p @ strip_by ws (drop (length w) s)"
      by blast
    then have "s = (take (length w) s @ p) @ strip_by ws (drop (length w) s)"
      by (metis append.assoc append_take_drop_id)
    then have "s = (take (length w) s @ p) @ strip_by ws s"
      using Some by (simp add: strip_by.simps [of ws s])
    then show ?thesis by blast
  qed
qed

lemma strip_by_stuck: "find (starts_with (strip_by ws s)) ws = None"
proof (induction ws s rule: strip_by.induct)
  case (1 ws s)
  then show ?case
    by (cases "find (starts_with s) ws") (simp_all add: strip_by.simps [of ws s])
qed

lemma strip_by_id: "find (starts_with s) ws = None \<Longrightarrow> strip_by ws s = s"
  by (simp add: strip_by.simps [of ws s])

lemma starts_with_append: "starts_with p w \<Longrightarrow> starts_with (p @ q) w"
proof -
  assume s: "starts_with p w"
  then have "length (take (length w) p) = length w" by (simp add: starts_with_def)
  then have "length w \<le> length p" by simp
  with s show ?thesis by (simp add: starts_with_def)
qed

lemma find_starts_with_append:
  "find (starts_with (p @ q)) ws = None \<Longrightarrow> find (starts_with p) ws = None"
  by (auto simp: find_None_iff dest: starts_with_append)

lemma trim_space_idem [simp]: "trim_space (trim_space s) = trim_space s"
proof -
  let ?l = "strip_by white_space s" and ?R = "map rev white_space"
  obtain p where p: "rev ?l = p @ strip_by ?R (rev ?l)" using strip_by_suffix by blast
  then have l: "?l = trim_space s @ rev p"
    by (metis rev_append rev_swap trim_space_def)
  have "find (starts_with ?l) white_space = None" by (rule strip_by_stuck)
  then have "find (starts_with (trim_space s)) white_space = None"
    by (subst (asm) l) (rule find_starts_with_append)
  then have 1: "strip_by white_space (trim_space s) = trim_space s" by (rule strip_by_id)
  have "strip_by ?R (strip_by ?R (rev ?l)) = strip_by ?R (rev ?l)"
    by (rule strip_by_id) (rule strip_by_stuck)
  then show ?thesis by (subst trim_space_def, subst 1) (simp add: trim_space_def)
qed

lemma trim_space_Nil [simp]: "trim_space [] = []"
proof -
  have "strip_by ws [] = []" for ws
    by (rule strip_by_id) (auto simp: find_None_iff starts_with_def)
  then show ?thesis by (simp add: trim_space_def)
qed

text \<open>A string of printable ASCII bytes has nothing to trim.\<close>

definition printable :: "string \<Rightarrow> bool" where
  "printable s \<longleftrightarrow> (\<forall>c \<in> set s. 33 \<le> (of_char c :: nat) \<and> (of_char c :: nat) < 127)"

lemma starts_with_hd: "starts_with s w \<Longrightarrow> hd w \<in> set s"
  unfolding starts_with_def by (metis in_set_takeD list.set_sel(1))

lemma printable_no_space:
  assumes "printable s"
  shows "find (starts_with s) white_space = None" "find (starts_with (rev s)) (map rev white_space) = None"
proof -
  have w: "list_all (\<lambda>w. w \<noteq> [] \<and> \<not> (33 \<le> (of_char (hd w) :: nat) \<and> (of_char (hd w) :: nat) < 127)
      \<and> \<not> (33 \<le> (of_char (last w) :: nat) \<and> (of_char (last w) :: nat) < 127)) white_space"
    by code_simp
  show "find (starts_with s) white_space = None"
    using w assms by (auto simp: find_None_iff list_all_iff printable_def dest!: starts_with_hd)
  show "find (starts_with (rev s)) (map rev white_space) = None"
    using w assms by (auto simp: find_None_iff list_all_iff printable_def hd_rev dest!: starts_with_hd)
qed

lemma trim_space_printable: "printable s \<Longrightarrow> trim_space s = s"
  unfolding trim_space_def
  by (simp add: strip_by_id printable_no_space)

text \<open>ASCII case mapping.\<close>

definition upper_char :: "char \<Rightarrow> char" where
  "upper_char c = (let n = of_char c :: nat in if 97 \<le> n \<and> n \<le> 122 then char_of (n - 32) else c)"

definition lower_char :: "char \<Rightarrow> char" where
  "lower_char c = (let n = of_char c :: nat in if 65 \<le> n \<and> n \<le> 90 then char_of (n + 32) else c)"

lemma lower_char_code [code]:
  "lower_char (Char b0 b1 b2 b3 b4 b5 b6 b7) =
     (if b6 \<and> \<not> b5 \<and> \<not> b7 \<and> (b0 \<or> b1 \<or> b2 \<or> b3 \<or> b4) \<and> \<not> (b3 \<and> b4 \<and> (b2 \<or> b0 \<and> b1))
      then Char b0 b1 b2 b3 b4 True b6 b7 else Char b0 b1 b2 b3 b4 b5 b6 b7)"
  by (cases b0; cases b1; cases b2; cases b3; cases b4; cases b5; cases b6; cases b7) (simp_all add: lower_char_def char_of_def bit_0)

definition to_upper :: "string \<Rightarrow> string" where "to_upper = map upper_char"
definition to_lower :: "string \<Rightarrow> string" where "to_lower = map lower_char"

lemma upper_char_idem [simp]: "upper_char (upper_char c) = upper_char c"
  by (auto simp: upper_char_def Let_def)

lemma lower_char_idem [simp]: "lower_char (lower_char c) = lower_char c"
  by (auto simp: lower_char_def Let_def)

lemma to_upper_idem [simp]: "to_upper (to_upper s) = to_upper s"
  by (simp add: to_upper_def)

lemma to_lower_idem [simp]: "to_lower (to_lower s) = to_lower s"
  by (simp add: to_lower_def)

lemma to_upper_Nil [simp]: "to_upper [] = []"
  by (simp add: to_upper_def)

lemma to_lower_Nil_iff [simp]: "to_lower s = [] \<longleftrightarrow> s = []"
  by (simp add: to_lower_def)

lemma to_upper_Nil_iff [simp]: "to_upper s = [] \<longleftrightarrow> s = []"
  by (simp add: to_upper_def)

text \<open>\<open>strings.Contains\<close>\<close>

fun contains_str :: "string \<Rightarrow> string \<Rightarrow> bool" where
  "contains_str [] w = (w = [])"
| "contains_str (c # s) w = (take (length w) (c # s) = w \<or> contains_str s w)"

fun prefix_of :: "string \<Rightarrow> string \<Rightarrow> bool" where
  "prefix_of [] s = True"
| "prefix_of (a # w) [] = False"
| "prefix_of (a # w) (b # s) = (a = b \<and> prefix_of w s)"

lemma prefix_of_take: "prefix_of w s \<longleftrightarrow> take (length w) s = w"
  by (induction w s rule: prefix_of.induct) auto

lemma contains_str_code [code]:
  "contains_str [] w = (w = [])"
  "contains_str (c # s) w = (prefix_of w (c # s) \<or> contains_str s w)"
  by (simp_all add: prefix_of_take)

text \<open>\<open>strings.Split(s, sep)\<close> for a one-byte separator, and \<open>strings.Join\<close>.\<close>

fun split_on :: "char \<Rightarrow> string \<Rightarrow> string list" where
  "split_on c [] = [[]]"
| "split_on c (x # xs) =
     (if x = c then [] # split_on c xs
      else (case split_on c xs of [] \<Rightarrow> [[x]] | w # ws \<Rightarrow> (x # w) # ws))"

fun join_with :: "string \<Rightarrow> string list \<Rightarrow> string" where
  "join_with sep [] = []"
| "join_with sep [w] = w"
| "join_with sep (w # ws) = w @ sep @ join_with sep ws"

lemma split_on_nonempty [simp]: "split_on c s \<noteq> []"
  by (cases s) (auto split: list.splits)

lemma split_on_no_sep: "c \<notin> set w \<Longrightarrow> split_on c w = [w]"
  by (induction w) auto

lemma split_on_append: "c \<notin> set w \<Longrightarrow> split_on c (w @ c # s) = w # split_on c s"
  by (induction w) auto

lemma split_join:
  "ws \<noteq> [] \<Longrightarrow> \<forall>w \<in> set ws. c \<notin> set w \<Longrightarrow> split_on c (join_with [c] ws) = ws"
  by (induction "[c]" ws rule: join_with.induct) (auto simp: split_on_no_sep split_on_append)

lemma join_split: "join_with [c] (split_on c s) = s"
proof (induction s)
  case (Cons x xs)
  obtain w ws where ws: "split_on c xs = w # ws" by (cases "split_on c xs") auto
  with Cons show ?case by (cases ws) auto
qed simp

text \<open>\<open>strconv.FormatInt(n, 10)\<close> and \<open>strconv.ParseInt(s, 10, 64)\<close>.\<close>

definition digit_char :: "nat \<Rightarrow> char" where "digit_char d = char_of (48 + d)"
definition is_digit :: "char \<Rightarrow> bool" where
  "is_digit c \<longleftrightarrow> 48 \<le> (of_char c :: nat) \<and> (of_char c :: nat) \<le> 57"
definition digit_val :: "char \<Rightarrow> nat" where "digit_val c = of_char c - 48"

fun format_nat :: "nat \<Rightarrow> string" where
  "format_nat n = (if n < 10 then [digit_char n] else format_nat (n div 10) @ [digit_char (n mod 10)])"

declare format_nat.simps [simp del]

definition format_int :: "int \<Rightarrow> string" where
  "format_int n = (if n < 0 then CHR ''-'' # format_nat (nat (- n)) else format_nat (nat n))"

definition digits_val :: "string \<Rightarrow> nat" where
  "digits_val s = foldl (\<lambda>v c. 10 * v + digit_val c) 0 s"

definition parse_int64 :: "string \<Rightarrow> int option" where
  "parse_int64 s =
     (let neg = (s \<noteq> [] \<and> hd s = CHR ''-'');
          ds = (if s \<noteq> [] \<and> (hd s = CHR ''-'' \<or> hd s = CHR ''+'') then tl s else s);
          v = (if neg then - int (digits_val ds) else int (digits_val ds))
      in if ds = [] \<or> \<not> list_all is_digit ds \<or> \<not> in_int64 v then None else Some v)"

lemma is_digit_digit_char [simp]: "d < 10 \<Longrightarrow> is_digit (digit_char d)"
  by (simp add: is_digit_def digit_char_def)

lemma digit_val_digit_char [simp]: "d < 10 \<Longrightarrow> digit_val (digit_char d) = d"
  by (simp add: digit_val_def digit_char_def)

lemma is_digit_distinct [simp]:
  "\<not> is_digit CHR ''-''" "\<not> is_digit CHR ''+''" "\<not> is_digit CHR ''.''" "\<not> is_digit CHR '',''"
  "\<not> is_digit CHR ''=''"
  by (simp_all add: is_digit_def)

lemma format_nat_digits: "list_all is_digit (format_nat n) \<and> format_nat n \<noteq> []"
proof (induction n rule: format_nat.induct)
  case (1 n)
  then show ?case by (cases "n < 10") (simp_all add: format_nat.simps [of n])
qed

lemma format_nat_val [simp]: "digits_val (format_nat n) = n"
proof (induction n rule: format_nat.induct)
  case (1 n)
  then show ?case by (cases "n < 10") (simp_all add: format_nat.simps [of n] digits_val_def)
qed

lemma format_nat_inj [simp]: "format_nat m = format_nat n \<longleftrightarrow> m = n"
  by (metis format_nat_val)

lemma format_nat_not_Nil [simp]: "format_nat n \<noteq> []"
  using format_nat_digits by blast

lemma format_nat_hd: "is_digit (hd (format_nat n))"
  using format_nat_digits [of n] by (cases "format_nat n") auto

lemma format_nat_not_in: "\<not> is_digit c \<Longrightarrow> c \<notin> set (format_nat n)"
  using format_nat_digits [of n] by (auto simp: list_all_iff)

lemma format_int_not_in: "\<not> is_digit c \<Longrightarrow> c \<noteq> CHR ''-'' \<Longrightarrow> c \<notin> set (format_int n)"
  by (simp add: format_int_def format_nat_not_in)

lemma parse_format_int [simp]: "in_int64 n \<Longrightarrow> parse_int64 (format_int n) = Some n"
proof -
  assume n: "in_int64 n"
  have "hd (format_nat m) \<noteq> CHR ''-'' \<and> hd (format_nat m) \<noteq> CHR ''+''" for m
    using format_nat_hd [of m] by auto
  with n show ?thesis
    using format_nat_digits by (auto simp: parse_int64_def format_int_def Let_def)
qed

lemma format_int_inj [simp]: "format_int m = format_int n \<longleftrightarrow> m = n"
proof
  assume eq: "format_int m = format_int n"
  have "hd (format_nat k) \<noteq> CHR ''-''" for k
    using format_nat_hd [of k] by auto
  then have "(m < 0) = (n < 0)"
    using eq by (metis format_int_def list.sel(1))
  with eq show "m = n" by (auto simp: format_int_def split: if_splits)
qed simp

text \<open>\<open>strings.SplitN(s, sep, 2)\<close> for a one-byte separator: the parts around the first one.\<close>

definition split2 :: "char \<Rightarrow> string \<Rightarrow> (string \<times> string) option" where
  "split2 c s =
     (case dropWhile (\<lambda>x. x \<noteq> c) s of
        [] \<Rightarrow> None
      | _ # rest \<Rightarrow> Some (takeWhile (\<lambda>x. x \<noteq> c) s, rest))"

lemma split2_append [simp]: "c \<notin> set w \<Longrightarrow> split2 c (w @ c # s) = Some (w, s)"
proof -
  assume w: "c \<notin> set w"
  then have "\<forall>x \<in> set w. x \<noteq> c" by auto
  then have "dropWhile (\<lambda>x. x \<noteq> c) (w @ c # s) = c # s"
      and "takeWhile (\<lambda>x. x \<noteq> c) (w @ c # s) = w"
    by (simp_all add: dropWhile_append3 takeWhile_tail takeWhile_append2)
  then show ?thesis by (simp add: split2_def)
qed

subsection \<open>Slices and pages\<close>

text \<open>\<open>xs[a:b]\<close>; out of range it panics, which is \<open>None\<close>.\<close>

definition go_slice :: "'a list \<Rightarrow> int \<Rightarrow> int \<Rightarrow> 'a list option" where
  "go_slice xs a b =
     (if 0 \<le> a \<and> a \<le> b \<and> b \<le> int (length xs)
      then Some (take (nat (b - a)) (drop (nat a) xs)) else None)"

text \<open>
  The pagination idiom of the repositories: \<open>start := (page - 1) * perPage\<close>, both ends
  clamped to the length, then a slice.
\<close>

definition page_slice :: "int \<Rightarrow> int \<Rightarrow> 'a list \<Rightarrow> 'a list option" where
  "page_slice page perPage xs =
     (let total = int (length xs);
          start0 = mul64 (sub64 page 1) perPage;
          start = (if total < start0 then total else start0);
          end0 = add64 start perPage;
          end' = (if total < end0 then total else end0)
      in go_slice xs start end')"

definition page_exact :: "int \<Rightarrow> int \<Rightarrow> 'a list \<Rightarrow> bool" where
  "page_exact page perPage xs \<longleftrightarrow>
     1 \<le> page \<and> 1 \<le> perPage \<and> page * perPage \<le> max_int64
     \<and> int (length xs) + perPage \<le> max_int64 \<and> page \<le> max_int64"

lemma page_slice_exact:
  assumes "page_exact page perPage xs"
  shows "page_slice page perPage xs =
    Some (take (nat perPage) (drop (nat (page - 1) * nat perPage) xs))"
proof -
  have nn: "0 \<le> (page - 1) * perPage" "(page - 1) * perPage \<le> page * perPage"
    using assms by (simp_all add: page_exact_def mult_right_mono)
  have w: "mul64 (sub64 page 1) perPage = (page - 1) * perPage"
  proof -
    have "sub64 page 1 = page - 1"
      using assms by (intro wrap64_id) (simp add: page_exact_def in_int64_iff)
    moreover have "wrap64 ((page - 1) * perPage) = (page - 1) * perPage"
    proof (rule wrap64_of_nonneg [OF nn(1)])
      show "(page - 1) * perPage \<le> max_int64"
        using nn(2) assms unfolding page_exact_def by linarith
    qed
    ultimately show ?thesis by simp
  qed
  have n: "nat ((page - 1) * perPage) = nat (page - 1) * nat perPage"
    using assms by (simp add: page_exact_def nat_mult_distrib)
  show ?thesis
  proof (cases "int (length xs) < (page - 1) * perPage")
    case True
    then have "length xs \<le> nat (page - 1) * nat perPage" using n by linarith
    with True w assms show ?thesis
      by (simp add: page_slice_def go_slice_def page_exact_def in_int64_iff)
  next
    case False
    have e: "wrap64 ((page - 1) * perPage + perPage) = (page - 1) * perPage + perPage"
    proof (rule wrap64_of_nonneg)
      show "0 \<le> (page - 1) * perPage + perPage" using nn assms unfolding page_exact_def by linarith
      show "(page - 1) * perPage + perPage \<le> max_int64"
        using False assms unfolding page_exact_def by linarith
    qed
    have p: "0 \<le> perPage" using assms by (simp add: page_exact_def)
    show ?thesis
      unfolding page_slice_def Let_def w using False nn(1) p n
      by (auto simp: e go_slice_def min_def)
  qed
qed

lemma concat_chunks:
  "concat (map (\<lambda>p. take n (drop (p * n) xs)) [0..<k]) = take (k * n) xs"
proof (induction k)
  case (Suc k)
  have "take (k * n) xs @ take n (drop (k * n) xs) = take (k * n + n) xs"
    by (rule take_add [symmetric])
  with Suc show ?case by (simp add: add.commute)
qed simp

text \<open>Sorting by a key that tells the elements apart forgets the order they came in.\<close>

lemma sort_key_mset_unique:
  assumes "mset xs = mset ys" and "inj_on f (set ys)"
  shows "sort_key f xs = sort_key f ys"
proof (rule properties_for_sort_key)
  show "mset (sort_key f ys) = mset xs" using assms by simp
  show "sorted (map f (sort_key f ys))" by simp
  fix k assume k: "k \<in> set (sort_key f ys)"
  have s: "set xs = set ys" using assms(1) by (metis set_mset_mset)
  have one: "filter (\<lambda>x. f k = f x) zs = replicate (count (mset zs) k) k" if "set zs = set ys" for zs
  proof -
    have "filter (\<lambda>x. f k = f x) zs = filter (\<lambda>x. k = x) zs"
      using assms(2) k that by (intro filter_cong) (auto simp: inj_on_def)
    also have "\<dots> = replicate (count (mset zs) k) k"
      by (induction zs) auto
    finally show ?thesis .
  qed
  show "filter (\<lambda>x. f k = f x) (sort_key f ys) = filter (\<lambda>x. f k = f x) xs"
    using one [of "sort_key f ys"] one [of xs] s assms(1) by simp
qed

subsection \<open>Maps\<close>

type_synonym ('k, 'v) gomap = "('k \<times> 'v) list"

definition mget :: "('k, 'v) gomap \<Rightarrow> 'k \<Rightarrow> 'v option" where "mget = map_of"
definition mput :: "'k \<Rightarrow> 'v \<Rightarrow> ('k, 'v) gomap \<Rightarrow> ('k, 'v) gomap" where "mput = AList.update"
definition mdel :: "'k \<Rightarrow> ('k, 'v) gomap \<Rightarrow> ('k, 'v) gomap" where "mdel = AList.delete"
definition mvalues :: "('k, 'v) gomap \<Rightarrow> 'v list" where "mvalues = map snd"
definition mkeys :: "('k, 'v) gomap \<Rightarrow> 'k list" where "mkeys = map fst"
definition mwf :: "('k, 'v) gomap \<Rightarrow> bool" where "mwf m \<longleftrightarrow> distinct (map fst m)"

lemma mget_Nil [simp]: "mget [] k = None"
  by (simp add: mget_def)

lemma mget_mput [simp]: "mget (mput k v m) k' = (if k' = k then Some v else mget m k')"
  by (simp add: mget_def mput_def update_conv')

lemma mget_mdel [simp]: "mget (mdel k m) k' = (if k' = k then None else mget m k')"
  by (simp add: mget_def mdel_def delete_conv')

lemma mwf_Nil [simp]: "mwf []"
  by (simp add: mwf_def)

lemma mwf_mput [simp]: "mwf m \<Longrightarrow> mwf (mput k v m)"
  by (simp add: mwf_def mput_def distinct_update)

lemma mwf_mdel [simp]: "mwf m \<Longrightarrow> mwf (mdel k m)"
  by (simp add: mwf_def mdel_def distinct_delete)

lemma mget_Some_in: "mget m k = Some v \<Longrightarrow> (k, v) \<in> set m"
  by (simp add: mget_def map_of_SomeD)

lemma in_mget: "mwf m \<Longrightarrow> (k, v) \<in> set m \<Longrightarrow> mget m k = Some v"
  by (simp add: mget_def mwf_def)

lemma in_mvalues_iff: "mwf m \<Longrightarrow> v \<in> set (mvalues m) \<longleftrightarrow> (\<exists>k. mget m k = Some v)"
  unfolding mvalues_def by (force dest: mget_Some_in intro: in_mget)

lemma in_mkeys_iff: "k \<in> set (mkeys m) \<longleftrightarrow> mget m k \<noteq> None"
  by (simp add: mkeys_def mget_def map_of_eq_None_iff)

lemma in_keys_mget: "mwf m \<Longrightarrow> (k, v) \<in> set m \<longleftrightarrow> mget m k = Some v"
  by (auto intro: in_mget dest: mget_Some_in)

text \<open>
  Maps of maps: \<open>m[k][j]\<close> reads a missing row as empty, and \<open>m[k][j] = v\<close> after
  \<open>if m[k] == nil\<close> \<open>{ m[k] = make(...) }\<close> is \<open>nput\<close>.
\<close>

type_synonym ('k, 'j, 'v) gomap2 = "('k, ('j, 'v) gomap) gomap"

definition nrows :: "('k, 'j, 'v) gomap2 \<Rightarrow> 'k \<Rightarrow> ('j, 'v) gomap" where
  "nrows m k = (case mget m k of None \<Rightarrow> [] | Some rows \<Rightarrow> rows)"

definition nget :: "('k, 'j, 'v) gomap2 \<Rightarrow> 'k \<Rightarrow> 'j \<Rightarrow> 'v option" where
  "nget m k j = mget (nrows m k) j"

definition nput :: "'k \<Rightarrow> 'j \<Rightarrow> 'v \<Rightarrow> ('k, 'j, 'v) gomap2 \<Rightarrow> ('k, 'j, 'v) gomap2" where
  "nput k j v m = mput k (mput j v (nrows m k)) m"

definition nwf :: "('k, 'j, 'v) gomap2 \<Rightarrow> bool" where
  "nwf m \<longleftrightarrow> mwf m \<and> (\<forall>k. mwf (nrows m k))"

lemma nrows_Nil [simp]: "nrows [] k = []"
  by (simp add: nrows_def)

lemma nrows_nput [simp]:
  "nrows (nput k j v m) k' = (if k' = k then mput j v (nrows m k) else nrows m k')"
  by (simp add: nrows_def nput_def)

lemma nget_nput [simp]: "nget (nput k j v m) k' j' = (if k' = k \<and> j' = j then Some v else nget m k' j')"
  by (simp add: nget_def)

lemma nget_Nil [simp]: "nget [] k j = None"
  by (simp add: nget_def)

lemma nwf_Nil [simp]: "nwf []"
  by (simp add: nwf_def)

lemma nwf_nput [simp]: "nwf m \<Longrightarrow> nwf (nput k j v m)"
  by (simp add: nwf_def nput_def [symmetric]) (simp add: nput_def)

lemma nrows_mwf: "nwf m \<Longrightarrow> mwf (nrows m k)"
  by (simp add: nwf_def)

lemma nvalues_iff: "nwf m \<Longrightarrow> v \<in> set (mvalues (nrows m k)) \<longleftrightarrow> (\<exists>j. nget m k j = Some v)"
  by (simp add: nget_def in_mvalues_iff nrows_mwf)

end
