(* ===== verification/Lifecycle.thy ===== *)
theory Lifecycle
  imports Go_Prelude
begin

text \<open>
  The contract of the data-driven state machines. Five packages of the repository keep
  their lifecycle in a transition table and reject every pair that is not in it
  (\<open>internal/domain/order/status.go\<close>, \<open>internal/domain/membership/state.go\<close>,
  \<open>internal/domain/digital/state.go\<close>, \<open>internal/billing/state.go\<close>,
  \<open>internal/marketplace/state.go\<close>). Each of them interprets the locales below
  on its own table in its own theory.
\<close>

subsection \<open>Runs of a table\<close>

fun run_table :: "('s \<Rightarrow> 't \<Rightarrow> 's option) \<Rightarrow> 's \<Rightarrow> 't list \<Rightarrow> 's option" where
  "run_table nxt s [] = Some s"
| "run_table nxt s (t # ts) =
     (case nxt s t of None \<Rightarrow> None | Some s' \<Rightarrow> run_table nxt s' ts)"

lemma run_table_append:
  "run_table nxt s (ts @ us) =
     (case run_table nxt s ts of None \<Rightarrow> None | Some s' \<Rightarrow> run_table nxt s' us)"
  by (induction ts arbitrary: s) (auto split: option.splits)

subsection \<open>Transition tables\<close>

text \<open>
  The tables are maps from a state to the moves out of it. \<open>table_next\<close> is the lookup and
  \<open>table_triples\<close> the listing of all triples; each package writes both out in its own
  functions, which these two abstract.
\<close>

type_synonym ('s, 't) table = "('s, ('t, 's) gomap) gomap"

definition table_next :: "('s, 't) table \<Rightarrow> 's \<Rightarrow> 't \<Rightarrow> 's option" where
  "table_next tbl s t = (case mget tbl s of None \<Rightarrow> None | Some moves \<Rightarrow> mget moves t)"

definition table_triples :: "('s, 't) table \<Rightarrow> ('s \<times> 't \<times> 's) list" where
  "table_triples tbl = concat (map (\<lambda>(s, moves). map (\<lambda>(t, d). (s, t, d)) moves) tbl)"

definition table_wf :: "('s, 't) table \<Rightarrow> bool" where
  "table_wf tbl \<longleftrightarrow> mwf tbl \<and> (\<forall>moves \<in> set (mvalues tbl). mwf moves \<and> moves \<noteq> [])"

lemma table_triples_iff:
  assumes "table_wf tbl"
  shows "(s, t, d) \<in> set (table_triples tbl) \<longleftrightarrow> table_next tbl s t = Some d"
proof
  assume "(s, t, d) \<in> set (table_triples tbl)"
  then obtain moves where m: "(s, moves) \<in> set tbl" "(t, d) \<in> set moves"
    by (auto simp: table_triples_def)
  then have "mwf moves" using assms by (force simp: table_wf_def mvalues_def)
  with m assms show "table_next tbl s t = Some d"
    by (simp add: table_next_def table_wf_def in_mget)
next
  assume "table_next tbl s t = Some d"
  then obtain moves where "mget tbl s = Some moves" "mget moves t = Some d"
    by (auto simp: table_next_def split: option.splits)
  then have "(s, moves) \<in> set tbl" "(t, d) \<in> set moves"
    by (auto dest: mget_Some_in)
  then show "(s, t, d) \<in> set (table_triples tbl)"
    by (force simp: table_triples_def)
qed

lemma table_terminal_iff:
  assumes "table_wf tbl"
  shows "mget tbl s = None \<longleftrightarrow> (\<forall>t. table_next tbl s t = None)"
proof
  show "mget tbl s = None \<Longrightarrow> \<forall>t. table_next tbl s t = None"
    by (simp add: table_next_def)
  assume stuck: "\<forall>t. table_next tbl s t = None"
  show "mget tbl s = None"
  proof (rule ccontr)
    assume "mget tbl s \<noteq> None"
    then obtain moves where m: "mget tbl s = Some moves" by auto
    then have "(s, moves) \<in> set tbl" by (rule mget_Some_in)
    with assms have "moves \<noteq> []" by (force simp: table_wf_def mvalues_def)
    then have "mget moves (fst (hd moves)) \<noteq> None"
      by (cases moves) (auto simp: mget_def)
    with m stuck show False by (simp add: table_next_def)
  qed
qed

subsection \<open>Terminal states\<close>

locale lifecycle =
  fixes nxt :: "'s \<Rightarrow> 't \<Rightarrow> 's option"
    and terminal :: "'s \<Rightarrow> bool"
  assumes terminal_iff: "terminal s \<longleftrightarrow> (\<forall>t. nxt s t = None)"
begin

lemma terminal_stays: "terminal s \<Longrightarrow> run_table nxt s ts = Some s' \<Longrightarrow> ts = [] \<and> s' = s"
  by (cases ts) (auto simp: terminal_iff)

lemma step_from_live: "nxt s t = Some s' \<Longrightarrow> \<not> terminal s"
  by (auto simp: terminal_iff)

lemma terminal_only_last:
  assumes "run_table nxt s (ts @ us) = Some s'" and "run_table nxt s ts = Some d" and "terminal d"
  shows "us = [] \<and> s' = d"
  using assms by (auto simp: run_table_append dest: terminal_stays)

end

subsection \<open>Machines that can always be abandoned\<close>

locale abandonable = lifecycle +
  fixes quit :: "'t"
  assumes quit_ends: "\<not> terminal s \<Longrightarrow> \<exists>d. nxt s quit = Some d \<and> terminal d"
begin

lemma reaches_terminal: "\<exists>us d. run_table nxt s us = Some d \<and> terminal d \<and> set us \<subseteq> {quit}"
proof (cases "terminal s")
  case True
  then have "run_table nxt s [] = Some s \<and> terminal s \<and> set [] \<subseteq> {quit}" by simp
  then show ?thesis by blast
next
  case False
  then obtain d where "nxt s quit = Some d" "terminal d" using quit_ends by blast
  then have "run_table nxt s [quit] = Some d \<and> terminal d \<and> set [quit] \<subseteq> {quit}" by simp
  then show ?thesis by blast
qed

end

subsection \<open>Machines that only move forward\<close>

locale acyclic = lifecycle +
  fixes rank :: "'s \<Rightarrow> nat"
  assumes rank_mono: "nxt s t = Some s' \<Longrightarrow> rank s < rank s'"
begin

lemma run_bounded: "run_table nxt s ts = Some s' \<Longrightarrow> rank s + length ts \<le> rank s'"
proof (induction ts arbitrary: s)
  case (Cons t ts)
  then obtain u where "nxt s t = Some u" "run_table nxt u ts = Some s'"
    by (auto split: option.splits)
  with Cons.IH [of u] rank_mono [of s t u] show ?case by simp
qed simp

lemma never_returns: "run_table nxt s ts = Some s \<Longrightarrow> ts = []"
  using run_bounded by fastforce

end

end
