(* ===== verification/Catalog.thy ===== *)
theory Catalog
  imports Go_Prelude
begin

text \<open>
  The catalogue bounded context, \<open>internal/domain/catalog\<close>: money in minor units of a
  supported currency (\<open>money.go\<close>), product status (\<open>status.go\<close>) and products
  (\<open>product.go\<close>), with the slug rule. The regular expression \<open>[^a-z0-9-]+\<close> of
  \<open>generateSlug\<close> is a filter on bytes. Clock and fresh identifier are arguments.
\<close>

subsection \<open>Money\<close>

datatype catalog_error =
    ErrNegativeAmount
  | ErrInvalidCurrency
  | ErrMissingSKU
  | ErrMissingTitle
  | ErrDescriptionTooLarge
  | ErrInvalidProductStatus

record money =
  amount :: int
  currency :: string

definition supportedCurrencies :: "string list" where
  "supportedCurrencies = [''AUD'', ''USD'', ''GBP'', ''EUR'']"

text \<open>The zero value \<open>Money{}\<close>.\<close>
definition money_zero :: money where "money_zero = \<lparr>amount = 0, currency = ''''\<rparr>"

definition newMoney :: "int \<Rightarrow> string \<Rightarrow> catalog_error + money" where
  "newMoney a cur =
     (if a < 0 then Err ErrNegativeAmount
      else let c = to_upper (trim_space cur) in
        if c \<notin> set supportedCurrencies then Err ErrInvalidCurrency
        else Ok \<lparr>amount = a, currency = c\<rparr>)"

definition zeroAUD :: money where "zeroAUD = \<lparr>amount = 0, currency = ''AUD''\<rparr>"

definition money_is_zero :: "money \<Rightarrow> bool" where "money_is_zero m \<longleftrightarrow> amount m = 0"

text \<open>What every value built by \<open>NewMoney\<close> or \<open>ZeroAUD\<close> satisfies.\<close>

definition money_wf :: "money \<Rightarrow> bool" where
  "money_wf m \<longleftrightarrow> 0 \<le> amount m \<and> currency m \<in> set supportedCurrencies"

lemma newMoney_Ok [go_ok]:
  "newMoney a cur = Ok m \<longleftrightarrow>
     0 \<le> a \<and> to_upper (trim_space cur) \<in> set supportedCurrencies
     \<and> m = \<lparr>amount = a, currency = to_upper (trim_space cur)\<rparr>"
  by (auto simp: newMoney_def Let_def)

lemma newMoney_wf: "newMoney a cur = Ok m \<Longrightarrow> money_wf m"
  by (auto simp: go_ok money_wf_def)

lemma zeroAUD_wf [simp]: "money_wf zeroAUD"
  by (simp add: money_wf_def zeroAUD_def supportedCurrencies_def)

text \<open>A supported code is its own normal form, so money built again from its parts is itself.\<close>

lemma trim_supported: "c \<in> set supportedCurrencies \<Longrightarrow> to_upper (trim_space c) = c"
proof -
  have "list_all (\<lambda>c. to_upper (trim_space c) = c) supportedCurrencies" by code_simp
  then show "c \<in> set supportedCurrencies \<Longrightarrow> to_upper (trim_space c) = c"
    by (simp add: list_all_iff)
qed

lemma newMoney_again: "money_wf m \<Longrightarrow> 0 \<le> a \<Longrightarrow> newMoney a (currency m) = Ok (m\<lparr>amount := a\<rparr>)"
  by (simp add: go_ok trim_supported money_wf_def)

subsection \<open>Product status\<close>

datatype product_status = StatusDraft | StatusActive | StatusArchived

fun product_status_string :: "product_status \<Rightarrow> string" where
  "product_status_string StatusDraft = ''draft''"
| "product_status_string StatusActive = ''active''"
| "product_status_string StatusArchived = ''archived''"

definition parseProductStatus :: "string \<Rightarrow> catalog_error + product_status" where
  "parseProductStatus s =
     (if s = ''draft'' then Ok StatusDraft
      else if s = ''active'' then Ok StatusActive
      else if s = ''archived'' then Ok StatusArchived
      else Err ErrInvalidProductStatus)"

definition isPublishable :: "product_status \<Rightarrow> bool" where
  "isPublishable s \<longleftrightarrow> s = StatusActive"

lemma parseProductStatus_string: "parseProductStatus (product_status_string s) = Ok s"
  by (cases s) (simp_all add: parseProductStatus_def)

subsection \<open>Products\<close>

definition maxDescriptionRunes :: int where "maxDescriptionRunes = 5000"

record category =
  cat_id :: uuid
  cat_name :: string
  cat_slug :: string

record image =
  img_url :: string
  img_alt :: string
  img_sort_order :: int

record product_input =
  pin_sku :: string
  pin_title :: string
  pin_slug :: string
  pin_description :: string
  pin_price :: money
  pin_stock :: int
  pin_status :: "product_status option"
  pin_images :: "image list"
  pin_categories :: "category list"

record product =
  prod_id :: uuid
  prod_sku :: string
  prod_title :: string
  prod_slug :: string
  prod_description :: string
  prod_price :: money
  prod_stock :: int
  prod_status :: product_status
  prod_images :: "image list"
  prod_categories :: "category list"
  prod_createdAt :: gotime
  prod_updatedAt :: gotime

definition slug_char :: "char \<Rightarrow> bool" where
  "slug_char c \<longleftrightarrow> (let n = of_char c :: nat in
     97 \<le> n \<and> n \<le> 122 \<or> 48 \<le> n \<and> n \<le> 57 \<or> c = CHR ''-'')"

definition trim_dashes :: "string \<Rightarrow> string" where
  "trim_dashes s = rev (dropWhile (\<lambda>c. c = CHR ''-'') (rev (dropWhile (\<lambda>c. c = CHR ''-'') s)))"

definition generateSlug :: "string \<Rightarrow> string" where
  "generateSlug title =
     (let s = to_lower title;
          s = map (\<lambda>c. if c = CHR '' '' then CHR ''-'' else c) s;
          s = filter slug_char s
      in trim_dashes s)"

text \<open>
  \<open>utf8.RuneCountInString\<close>: on valid UTF-8, the number of bytes that are not
  continuation bytes.
\<close>

definition rune_count :: "string \<Rightarrow> int" where
  "rune_count s = int (length (filter (\<lambda>c. let n = of_char c :: nat in n < 128 \<or> 192 \<le> n) s))"

fun lead_byte :: "char \<Rightarrow> bool" where
  "lead_byte (Char b0 b1 b2 b3 b4 b5 b6 b7) = (b7 \<longrightarrow> b6)"

lemma lead_byte_iff: "lead_byte c \<longleftrightarrow> (of_char c :: nat) < 128 \<or> 192 \<le> (of_char c :: nat)"
proof (cases c)
  case (Char b0 b1 b2 b3 b4 b5 b6 b7)
  then show ?thesis by (cases b0; cases b1; cases b2; cases b3; cases b4; cases b5; cases b6; cases b7) simp_all
qed

lemma rune_count_code [code]: "rune_count s = int (length (filter lead_byte s))"
proof -
  have "lead_byte = (\<lambda>c. (of_char c :: nat) < 128 \<or> 192 \<le> (of_char c :: nat))" by (rule ext) (rule lead_byte_iff)
  then show ?thesis by (simp add: rune_count_def Let_def)
qed

definition newProduct :: "uuid \<Rightarrow> gotime \<Rightarrow> product_input \<Rightarrow> catalog_error + product" where
  "newProduct fresh now inp =
     (let sku = to_upper (trim_space (pin_sku inp)) in
      if sku = [] then Err ErrMissingSKU
      else let title = trim_space (pin_title inp) in
      if title = [] then Err ErrMissingTitle
      else let description = trim_space (pin_description inp) in
      if rune_count description > maxDescriptionRunes then Err ErrDescriptionTooLarge
      else let slug0 = trim_space (pin_slug inp);
               slug = (if slug0 = [] then generateSlug title else slug0);
               status = (case pin_status inp of None \<Rightarrow> StatusDraft | Some st \<Rightarrow> st)
      in Ok \<lparr>prod_id = fresh, prod_sku = sku, prod_title = title, prod_slug = slug,
             prod_description = description, prod_price = pin_price inp,
             prod_stock = pin_stock inp, prod_status = status,
             prod_images = pin_images inp, prod_categories = pin_categories inp,
             prod_createdAt = now, prod_updatedAt = now\<rparr>)"

definition withImages :: "product \<Rightarrow> image list \<Rightarrow> product" where
  "withImages p imgs = p\<lparr>prod_images := imgs\<rparr>"

lemma trim_dashes_set: "set (trim_dashes s) \<subseteq> set s"
  unfolding trim_dashes_def by (auto dest!: set_dropWhileD)

lemma trim_dashes_last: "trim_dashes s \<noteq> [] \<Longrightarrow> last (trim_dashes s) \<noteq> CHR ''-''"
  unfolding trim_dashes_def
  using hd_dropWhile [of "\<lambda>c. c = CHR ''-''" "rev (dropWhile (\<lambda>c. c = CHR ''-'') s)"]
  by (simp add: last_rev)

lemma trim_dashes_hd:
  assumes "trim_dashes s \<noteq> []"
  shows "hd (trim_dashes s) \<noteq> CHR ''-''"
proof -
  let ?l = "dropWhile (\<lambda>c. c = CHR ''-'') s"
  let ?t = "takeWhile (\<lambda>c. c = CHR ''-'') (rev ?l)"
  have "rev ?l = ?t @ rev (trim_dashes s)"
    unfolding trim_dashes_def by simp
  then have l: "?l = trim_dashes s @ rev ?t" by (metis rev_append rev_rev_ident)
  with assms have "?l \<noteq> []" "hd (trim_dashes s) = hd ?l"
    by (metis append_is_Nil_conv, metis hd_append2)
  then show ?thesis using hd_dropWhile [of "\<lambda>c. c = CHR ''-''" s] by simp
qed

text \<open>A generated slug is URL-safe: only lower-case letters, digits and dashes, and no
  dash at either end, whatever the title.\<close>

theorem generateSlug_safe:
  "list_all slug_char (generateSlug title)
   \<and> (generateSlug title = [] \<or>
      hd (generateSlug title) \<noteq> CHR ''-'' \<and> last (generateSlug title) \<noteq> CHR ''-'')"
proof -
  let ?s = "filter slug_char (map (\<lambda>c. if c = CHR '' '' then CHR ''-'' else c) (to_lower title))"
  have g: "generateSlug title = trim_dashes ?s" by (simp add: generateSlug_def)
  have "set (trim_dashes ?s) \<subseteq> Collect slug_char"
    using trim_dashes_set [of ?s] by auto
  then show ?thesis
    using trim_dashes_hd [of ?s] trim_dashes_last [of ?s] by (auto simp: g list_all_iff)
qed

end
