(* ===== verification/Orders.thy ===== *)
theory Orders
  imports Lifecycle Catalog
begin

text \<open>
  The order bounded context, \<open>internal/domain/order\<close>: the status machine
  (\<open>status.go\<close>), orders (\<open>order.go\<close>) and carts (\<open>cart.go\<close>). Amounts are 64-bit, so the
  line totals and the subtotal wrap as the code's do. \<open>net/mail.ParseAddress\<close> is the
  argument \<open>parse\<close> (the address it finds, or None), \<open>uuid.New\<close> and \<open>time.Now\<close>
  are the arguments \<open>fresh\<close> and \<open>now\<close>.
\<close>

subsection \<open>Status\<close>

datatype order_status =
    StatusPending | StatusPaid | StatusFulfilled | StatusShipped
  | StatusCompleted | StatusFailed | StatusCancelled

datatype order_error =
    ErrInvalidStatus
  | ErrInvalidStatusTransition
  | ErrInvalidCustomerEmail
  | ErrOrderRequiresItems
  | ErrInvalidQuantity
  | ErrMissingShippingField
  | ErrCurrencyMismatch
  | ErrMissingItemIdentity
  | ErrMissingSessionID
  | ErrOrderMoney catalog_error

fun order_status_string :: "order_status \<Rightarrow> string" where
  "order_status_string StatusPending = ''pending''"
| "order_status_string StatusPaid = ''paid''"
| "order_status_string StatusFulfilled = ''fulfilled''"
| "order_status_string StatusShipped = ''shipped''"
| "order_status_string StatusCompleted = ''completed''"
| "order_status_string StatusFailed = ''failed''"
| "order_status_string StatusCancelled = ''cancelled''"

definition parseOrderStatus :: "string \<Rightarrow> order_error + order_status" where
  "parseOrderStatus s =
     (if s = ''pending'' then Ok StatusPending
      else if s = ''paid'' then Ok StatusPaid
      else if s = ''fulfilled'' then Ok StatusFulfilled
      else if s = ''shipped'' then Ok StatusShipped
      else if s = ''completed'' then Ok StatusCompleted
      else if s = ''failed'' then Ok StatusFailed
      else if s = ''cancelled'' then Ok StatusCancelled
      else Err ErrInvalidStatus)"

definition canTransition :: "order_status \<Rightarrow> order_status \<Rightarrow> bool" where
  "canTransition f t \<longleftrightarrow>
     f = t \<or>
     (case f of
        StatusPending \<Rightarrow> t = StatusPaid \<or> t = StatusCancelled \<or> t = StatusFailed
      | StatusPaid \<Rightarrow> t = StatusFulfilled \<or> t = StatusCancelled \<or> t = StatusFailed
      | StatusFulfilled \<Rightarrow> t = StatusShipped \<or> t = StatusFailed
      | StatusShipped \<Rightarrow> t = StatusCompleted
      | _ \<Rightarrow> False)"

lemma parseOrderStatus_string: "parseOrderStatus (order_status_string s) = Ok s"
  by (cases s) (simp_all add: parseOrderStatus_def)

subsection \<open>Items\<close>

text \<open>\<open>OrderItemInput\<close> and \<open>CartItemInput\<close> have the same fields, as have \<open>OrderItem\<close> and \<open>CartItem\<close>.\<close>

record item_input =
  iin_productID :: uuid
  iin_sku :: string
  iin_title :: string
  iin_quantity :: int
  iin_unitPrice :: money

record order_item =
  it_productID :: uuid
  it_sku :: string
  it_title :: string
  it_quantity :: int
  it_unitPrice :: money
  it_lineTotal :: money

type_synonym cart_item_input = item_input
type_synonym cart_item = order_item

record totals =
  tot_subtotal :: money
  tot_shipping :: money
  tot_total :: money

definition reconstructOrderItem :: "item_input \<Rightarrow> money \<Rightarrow> order_item" where
  "reconstructOrderItem inp lineTotal =
     \<lparr>it_productID = iin_productID inp, it_sku = to_upper (trim_space (iin_sku inp)),
      it_title = trim_space (iin_title inp), it_quantity = iin_quantity inp,
      it_unitPrice = iin_unitPrice inp, it_lineTotal = lineTotal\<rparr>"

definition newOrderItem :: "item_input \<Rightarrow> order_error + order_item" where
  "newOrderItem inp =
     (if iin_productID inp = uuid_nil \<or> trim_space (iin_sku inp) = [] \<or> trim_space (iin_title inp) = []
      then Err ErrMissingItemIdentity
      else if iin_quantity inp \<le> 0 then Err ErrInvalidQuantity
      else case newMoney (mul64 (amount (iin_unitPrice inp)) (iin_quantity inp))
                         (currency (iin_unitPrice inp)) of
        Err e \<Rightarrow> Err (ErrOrderMoney e)
      | Ok lineTotal \<Rightarrow> Ok (reconstructOrderItem inp lineTotal))"

text \<open>
  The loop of \<open>buildOrderItems\<close>: the currency found so far (empty before the first item),
  the running subtotal and the items built.
\<close>

fun order_items_loop ::
  "item_input list \<Rightarrow> string \<Rightarrow> int \<Rightarrow> order_item list \<Rightarrow>
   order_error + (string \<times> int \<times> order_item list)" where
  "order_items_loop [] cur subtotal items = Ok (cur, subtotal, items)"
| "order_items_loop (inp # rest) cur subtotal items =
     (case newOrderItem inp of
        Err e \<Rightarrow> Err e
      | Ok item \<Rightarrow>
          let cur' = (if cur = [] then currency (it_unitPrice item) else cur) in
          if currency (it_unitPrice item) \<noteq> cur' then Err ErrCurrencyMismatch
          else order_items_loop rest cur' (add64 subtotal (amount (it_lineTotal item)))
                 (items @ [item]))"

text \<open>\<open>m, _ := catalog.NewMoney(a, c)\<close>: the error is dropped, its value is \<open>Money{}\<close>.\<close>

definition money_or_zero :: "int \<Rightarrow> string \<Rightarrow> money" where
  "money_or_zero a c = (case newMoney a c of Err _ \<Rightarrow> money_zero | Ok m \<Rightarrow> m)"

definition buildOrderItems ::
  "item_input list \<Rightarrow> money \<Rightarrow> order_error + (order_item list \<times> totals)" where
  "buildOrderItems inputs shipping =
     (if inputs = [] then Err ErrOrderRequiresItems
      else case order_items_loop inputs [] 0 [] of
        Err e \<Rightarrow> Err e
      | Ok (cur, subtotalAmount, items) \<Rightarrow>
          (case (if money_is_zero shipping then newMoney 0 cur else Ok shipping) of
             Err e \<Rightarrow> Err (ErrOrderMoney e)
           | Ok shipping' \<Rightarrow>
               if currency shipping' \<noteq> cur then Err ErrCurrencyMismatch
               else Ok (items,
                 \<lparr>tot_subtotal = money_or_zero subtotalAmount cur,
                  tot_shipping = shipping',
                  tot_total = money_or_zero (add64 subtotalAmount (amount shipping')) cur\<rparr>)))"

subsection \<open>Orders\<close>

record shipping_address =
  sa_name :: string
  sa_line1 :: string
  sa_line2 :: string
  sa_city :: string
  sa_region :: string
  sa_postalCode :: string
  sa_country :: string

record order_input =
  oin_customerEmail :: string
  oin_items :: "item_input list"
  oin_shippingAddress :: shipping_address
  oin_shipping :: money

record order =
  ord_id :: uuid
  ord_customerEmail :: string
  ord_items :: "order_item list"
  ord_status :: order_status
  ord_totals :: totals
  ord_shippingAddress :: shipping_address
  ord_createdAt :: gotime
  ord_updatedAt :: gotime

definition normaliseEmail :: "(string \<Rightarrow> string option) \<Rightarrow> string \<Rightarrow> order_error + string" where
  "normaliseEmail parse v =
     (let email = to_lower (trim_space v) in
      if parse email \<noteq> Some email \<or> CHR ''@'' \<notin> set email then Err ErrInvalidCustomerEmail
      else Ok email)"

definition normaliseShippingAddress :: "shipping_address \<Rightarrow> shipping_address" where
  "normaliseShippingAddress a =
     \<lparr>sa_name = trim_space (sa_name a), sa_line1 = trim_space (sa_line1 a),
      sa_line2 = trim_space (sa_line2 a), sa_city = trim_space (sa_city a),
      sa_region = trim_space (sa_region a), sa_postalCode = trim_space (sa_postalCode a),
      sa_country = to_upper (trim_space (sa_country a))\<rparr>"

definition address_complete :: "shipping_address \<Rightarrow> bool" where
  "address_complete a \<longleftrightarrow>
     sa_name a \<noteq> [] \<and> sa_line1 a \<noteq> [] \<and> sa_city a \<noteq> [] \<and> sa_postalCode a \<noteq> [] \<and> sa_country a \<noteq> []"

definition validateShippingAddress :: "shipping_address \<Rightarrow> order_error + unit" where
  "validateShippingAddress a =
     (if \<not> address_complete (normaliseShippingAddress a) then Err ErrMissingShippingField else Ok ())"

definition newOrder ::
  "(string \<Rightarrow> string option) \<Rightarrow> uuid \<Rightarrow> gotime \<Rightarrow> order_input \<Rightarrow> order_error + order" where
  "newOrder parse fresh now inp =
     (case normaliseEmail parse (oin_customerEmail inp) of
        Err e \<Rightarrow> Err e
      | Ok email \<Rightarrow>
          (case validateShippingAddress (oin_shippingAddress inp) of
             Err e \<Rightarrow> Err e
           | Ok _ \<Rightarrow>
               (case buildOrderItems (oin_items inp) (oin_shipping inp) of
                  Err e \<Rightarrow> Err e
                | Ok (items, totals) \<Rightarrow>
                    Ok \<lparr>ord_id = fresh, ord_customerEmail = email, ord_items = items,
                        ord_status = StatusPending, ord_totals = totals,
                        ord_shippingAddress = normaliseShippingAddress (oin_shippingAddress inp),
                        ord_createdAt = now, ord_updatedAt = now\<rparr>)))"

definition advanceStatus :: "gotime \<Rightarrow> order \<Rightarrow> order_status \<Rightarrow> order_error + order" where
  "advanceStatus now o' next' =
     (if \<not> canTransition (ord_status o') next' then Err ErrInvalidStatusTransition
      else Ok (o'\<lparr>ord_status := next', ord_updatedAt := now\<rparr>))"

subsection \<open>Carts\<close>

record cart =
  cart_sessionID :: string
  cart_items :: "cart_item list"
  cart_totals :: totals
  cart_updatedAt :: gotime

definition zero_totals :: totals where
  "zero_totals = \<lparr>tot_subtotal = zeroAUD, tot_shipping = zeroAUD, tot_total = zeroAUD\<rparr>"

definition newCart :: "gotime \<Rightarrow> string \<Rightarrow> order_error + cart" where
  "newCart now sid =
     (let sid' = trim_space sid in
      if sid' = [] then Err ErrMissingSessionID
      else Ok \<lparr>cart_sessionID = sid', cart_items = [], cart_totals = zero_totals,
               cart_updatedAt = now\<rparr>)"

definition reconstructCartItem :: "cart_item_input \<Rightarrow> money \<Rightarrow> cart_item" where
  "reconstructCartItem inp lineTotal =
     \<lparr>it_productID = iin_productID inp, it_sku = to_upper (trim_space (iin_sku inp)),
      it_title = trim_space (iin_title inp), it_quantity = iin_quantity inp,
      it_unitPrice = iin_unitPrice inp, it_lineTotal = lineTotal\<rparr>"

definition newCartItem :: "cart_item_input \<Rightarrow> order_error + cart_item" where
  "newCartItem inp =
     (if iin_productID inp = uuid_nil \<or> trim_space (iin_sku inp) = [] \<or> trim_space (iin_title inp) = []
      then Err ErrMissingItemIdentity
      else if iin_quantity inp \<le> 0 then Err ErrInvalidQuantity
      else case newMoney (mul64 (amount (iin_unitPrice inp)) (iin_quantity inp))
                         (currency (iin_unitPrice inp)) of
        Err e \<Rightarrow> Err (ErrOrderMoney e)
      | Ok lineTotal \<Rightarrow> Ok (reconstructCartItem inp lineTotal))"

fun cart_items_loop ::
  "cart_item_input list \<Rightarrow> string \<Rightarrow> int \<Rightarrow> cart_item list \<Rightarrow>
   order_error + (string \<times> int \<times> cart_item list)" where
  "cart_items_loop [] cur subtotal items = Ok (cur, subtotal, items)"
| "cart_items_loop (inp # rest) cur subtotal items =
     (case newCartItem inp of
        Err e \<Rightarrow> Err e
      | Ok item \<Rightarrow>
          let cur' = (if cur = [] then currency (it_unitPrice item) else cur) in
          if currency (it_unitPrice item) \<noteq> cur' then Err ErrCurrencyMismatch
          else cart_items_loop rest cur' (add64 subtotal (amount (it_lineTotal item)))
                 (items @ [item]))"

definition buildCartItems :: "cart_item_input list \<Rightarrow> order_error + (cart_item list \<times> totals)" where
  "buildCartItems inputs =
     (case cart_items_loop inputs [] 0 [] of
        Err e \<Rightarrow> Err e
      | Ok (cur, subtotalAmount, items) \<Rightarrow>
          Ok (items, \<lparr>tot_subtotal = money_or_zero subtotalAmount cur,
                      tot_shipping = money_or_zero 0 cur,
                      tot_total = money_or_zero subtotalAmount cur\<rparr>))"

text \<open>\<open>ReplaceItems\<close> mutates the cart; on an error the cart is left as it was.\<close>

definition replaceItems :: "gotime \<Rightarrow> cart \<Rightarrow> cart_item_input list \<Rightarrow> cart \<times> (order_error + unit)" where
  "replaceItems now c inputs =
     (if inputs = [] then
        (c\<lparr>cart_items := [], cart_totals := zero_totals, cart_updatedAt := now\<rparr>, Ok ())
      else case buildCartItems inputs of
        Err e \<Rightarrow> (c, Err e)
      | Ok (items, totals) \<Rightarrow>
          (c\<lparr>cart_items := items, cart_totals := totals, cart_updatedAt := now\<rparr>, Ok ()))"

definition cart_isEmpty :: "cart \<Rightarrow> bool" where
  "cart_isEmpty c \<longleftrightarrow> cart_items c = []"

subsection \<open>The status machine\<close>

text \<open>The table without its no-op entries, with the rank every move increases.\<close>

definition order_step :: "order_status \<Rightarrow> order_status \<Rightarrow> order_status option" where
  "order_step s t = (if s \<noteq> t \<and> canTransition s t then Some t else None)"

definition order_terminal :: "order_status \<Rightarrow> bool" where
  "order_terminal s \<longleftrightarrow> s \<in> {StatusCompleted, StatusFailed, StatusCancelled}"

fun order_rank :: "order_status \<Rightarrow> nat" where
  "order_rank StatusPending = 0"
| "order_rank StatusPaid = 1"
| "order_rank StatusFulfilled = 2"
| "order_rank StatusShipped = 3"
| "order_rank StatusCompleted = 4"
| "order_rank StatusFailed = 5"
| "order_rank StatusCancelled = 5"

interpretation ol: acyclic order_step order_terminal order_rank
proof
  show "order_terminal s \<longleftrightarrow> (\<forall>t. order_step s t = None)" for s
    by (cases s)
      (auto simp: order_terminal_def order_step_def canTransition_def)
  show "order_step s t = Some s' \<Longrightarrow> order_rank s < order_rank s'" for s t s'
    by (cases s; cases t) (auto simp: order_step_def canTransition_def)
qed

text \<open>A sequence of \<open>AdvanceStatus\<close> calls that stops at the first error.\<close>

fun advance_all :: "order \<Rightarrow> (gotime \<times> order_status) list \<Rightarrow> order_error + order" where
  "advance_all ord [] = Ok ord"
| "advance_all ord ((now, s) # rest) =
     (case advanceStatus now ord s of Err e \<Rightarrow> Err e | Ok ord' \<Rightarrow> advance_all ord' rest)"

fun order_moves :: "order_status \<Rightarrow> order_status list \<Rightarrow> order_status list" where
  "order_moves s [] = []"
| "order_moves s (t # ts) = (if t = s then order_moves s ts else t # order_moves t ts)"

lemma advanceStatus_Ok [go_ok]:
  "advanceStatus now ord s = Ok ord' \<longleftrightarrow>
     canTransition (ord_status ord) s \<and> ord' = ord\<lparr>ord_status := s, ord_updatedAt := now\<rparr>"
  by (auto simp: advanceStatus_def)

lemma advance_all_run:
  "advance_all ord ts = Ok ord' \<Longrightarrow>
   run_table order_step (ord_status ord) (order_moves (ord_status ord) (map snd ts))
     = Some (ord_status ord')"
  by (induction ord ts rule: advance_all.induct)
     (auto simp: go_ok order_step_def split: sum.splits)

lemma order_moves_Nil: "order_moves s ts = [] \<Longrightarrow> \<forall>t \<in> set ts. t = s"
  by (induction s ts rule: order_moves.induct) (auto split: if_splits)

lemma advance_all_frame:
  "advance_all ord ts = Ok ord' \<Longrightarrow>
   ord_items ord' = ord_items ord \<and> ord_totals ord' = ord_totals ord \<and> ord_id ord' = ord_id ord"
  by (induction ord ts rule: advance_all.induct) (auto simp: go_ok split: sum.splits)

lemma order_only_moves_forward_parts:
  assumes "advance_all ord ts = Ok ord'"
  shows "order_rank (ord_status ord) \<le> order_rank (ord_status ord')"
    and "order_terminal (ord_status ord) \<longrightarrow> ord_status ord' = ord_status ord"
    and "ord_status ord' = ord_status ord \<longrightarrow> (\<forall>t \<in> set ts. snd t = ord_status ord)"
    and "ord_items ord' = ord_items ord \<and> ord_totals ord' = ord_totals ord"
proof -
  note run = advance_all_run [OF assms]
  show "order_rank (ord_status ord) \<le> order_rank (ord_status ord')"
    using ol.run_bounded [OF run] by simp
  show "order_terminal (ord_status ord) \<longrightarrow> ord_status ord' = ord_status ord"
    using ol.terminal_stays [OF _ run] by blast
  show "ord_status ord' = ord_status ord \<longrightarrow> (\<forall>t \<in> set ts. snd t = ord_status ord)"
    using ol.never_returns run order_moves_Nil by fastforce
  show "ord_items ord' = ord_items ord \<and> ord_totals ord' = ord_totals ord"
    using advance_all_frame [OF assms] by simp
qed

text \<open>Whatever sequence of status updates an order accepts, it only moves forward: the
  rank of its status never drops, a completed, failed or cancelled order keeps its status,
  coming back to the same status means nothing but no-ops happened, and the items and
  totals are those it was created with.\<close>

theorem order_only_moves_forward:
  assumes "advance_all ord ts = Ok ord'"
  shows "order_rank (ord_status ord) \<le> order_rank (ord_status ord')
    \<and> (order_terminal (ord_status ord) \<longrightarrow> ord_status ord' = ord_status ord)
    \<and> (ord_status ord' = ord_status ord \<longrightarrow> (\<forall>t \<in> set ts. snd t = ord_status ord))
    \<and> ord_items ord' = ord_items ord \<and> ord_totals ord' = ord_totals ord"
  using order_only_moves_forward_parts [OF assms] by blast

subsection \<open>Totals\<close>

definition line_sum :: "item_input list \<Rightarrow> int" where
  "line_sum inputs = (\<Sum>i \<leftarrow> inputs. amount (iin_unitPrice i) * iin_quantity i)"

lemma newOrderItem_Ok [go_ok]:
  "newOrderItem inp = Ok it \<longleftrightarrow>
     iin_productID inp \<noteq> uuid_nil \<and> trim_space (iin_sku inp) \<noteq> [] \<and> trim_space (iin_title inp) \<noteq> []
     \<and> 0 < iin_quantity inp
     \<and> (\<exists>m. newMoney (mul64 (amount (iin_unitPrice inp)) (iin_quantity inp))
               (currency (iin_unitPrice inp)) = Ok m
          \<and> it = reconstructOrderItem inp m)"
  unfolding newOrderItem_def by (auto split: sum.splits)

lemma newOrderItem_amount:
  "newOrderItem inp = Ok it \<Longrightarrow>
     amount (it_lineTotal it) = wrap64 (amount (iin_unitPrice inp) * iin_quantity inp)
     \<and> it_unitPrice it = iin_unitPrice inp"
  by (auto simp: go_ok reconstructOrderItem_def)

lemma order_items_loop_Ok:
  assumes "order_items_loop inputs cur sub items = Ok (cur', sub', items')"
  shows "\<exists>built. items' = items @ built
           \<and> list_all2 (\<lambda>i it. newOrderItem i = Ok it) inputs built
           \<and> (\<forall>i \<in> set inputs. currency (iin_unitPrice i) = cur')
           \<and> (cur \<noteq> [] \<longrightarrow> cur' = cur)
           \<and> (inputs \<noteq> [] \<longrightarrow> sub' = wrap64 (sub + line_sum inputs))"
  using assms
proof (induction inputs cur sub items rule: order_items_loop.induct)
  case (2 inp rest cur sub items)
  let ?c = "if cur = [] then currency (iin_unitPrice inp) else cur"
  from "2.prems" obtain it where it: "newOrderItem inp = Ok it"
    by (cases "newOrderItem inp") simp_all
  note am = newOrderItem_amount [OF it]
  from it "2.prems" am have cur: "currency (iin_unitPrice inp) = ?c"
    by (simp only: order_items_loop.simps sum.case Let_def) (meson sum.distinct)
  with it "2.prems" am have rest:
    "order_items_loop rest ?c (add64 sub (amount (it_lineTotal it))) (items @ [it])
       = Ok (cur', sub', items')"
    by (simp only: order_items_loop.simps sum.case Let_def refl not_True_eq_False if_False)
  have "currency (iin_unitPrice inp) \<noteq> []"
    using it by (auto simp: go_ok supportedCurrencies_def)
  with cur have ne: "?c \<noteq> []" by (metis (full_types))
  from "2.IH" [OF it refl] cur rest am obtain built where built:
      "items' = (items @ [it]) @ built" "list_all2 (\<lambda>i it. newOrderItem i = Ok it) rest built"
      "\<forall>i \<in> set rest. currency (iin_unitPrice i) = cur'" "cur' = ?c"
      "rest \<noteq> [] \<longrightarrow> sub' = wrap64 (add64 sub (amount (it_lineTotal it)) + line_sum rest)"
    using ne by (auto split: if_splits)
  have "sub' = wrap64 (sub + line_sum (inp # rest))"
    using built(5) rest am by (cases "rest = []") (auto simp: line_sum_def add.assoc)
  moreover have "cur \<noteq> [] \<longrightarrow> cur' = cur" using built(4) by auto
  ultimately show ?case
    using built it cur by (intro exI [of _ "it # built"]) auto
qed simp

lemma line_sum_nonneg:
  "\<forall>i \<in> set inputs. money_wf (iin_unitPrice i) \<and> 0 < iin_quantity i \<Longrightarrow> 0 \<le> line_sum inputs"
  unfolding line_sum_def by (intro sum_list_nonneg) (auto simp: money_wf_def)

lemma money_or_zero_Ok: "newMoney a c = Ok m \<Longrightarrow> money_or_zero a c = m"
  by (simp add: money_or_zero_def)

lemma newMoney_supported:
  "0 \<le> a \<Longrightarrow> c \<in> set supportedCurrencies \<Longrightarrow> newMoney a c = Ok \<lparr>amount = a, currency = c\<rparr>"
  by (simp add: go_ok trim_supported)

lemma newMoney_zero_supported:
  "c \<in> set supportedCurrencies \<Longrightarrow> newMoney 0 c = Ok \<lparr>amount = 0, currency = c\<rparr>"
  by (simp add: newMoney_supported)

lemma buildOrderItems_parts:
  assumes "buildOrderItems inputs shipping = Ok (items, t)"
    and "\<forall>i \<in> set inputs. money_wf (iin_unitPrice i)"
  obtains cur where
    "inputs \<noteq> []" "cur \<in> set supportedCurrencies"
    "order_items_loop inputs [] 0 [] = Ok (cur, wrap64 (line_sum inputs), items)"
    "list_all2 (\<lambda>i it. newOrderItem i = Ok it) inputs items"
    "\<forall>i \<in> set inputs. currency (iin_unitPrice i) = cur"
    "t = \<lparr>tot_subtotal = money_or_zero (wrap64 (line_sum inputs)) cur,
          tot_shipping = \<lparr>amount = amount shipping, currency = cur\<rparr>,
          tot_total = money_or_zero (wrap64 (line_sum inputs + amount shipping)) cur\<rparr>"
proof -
  from assms(1) obtain cur sub items' where
    ne: "inputs \<noteq> []" and loop: "order_items_loop inputs [] 0 [] = Ok (cur, sub, items')"
    by (auto simp: buildOrderItems_def split: if_splits sum.splits)
  from order_items_loop_Ok [OF loop] ne have
    l: "list_all2 (\<lambda>i it. newOrderItem i = Ok it) inputs items'"
       "\<forall>i \<in> set inputs. currency (iin_unitPrice i) = cur" "sub = wrap64 (line_sum inputs)"
    by auto
  with ne assms(2) have cur: "cur \<in> set supportedCurrencies"
    by (cases inputs) (auto simp: money_wf_def)
  from assms(1) ne loop cur l(3) have "items = items'"
    "t = \<lparr>tot_subtotal = money_or_zero sub cur,
          tot_shipping = \<lparr>amount = amount shipping, currency = cur\<rparr>,
          tot_total = money_or_zero (wrap64 (line_sum inputs + amount shipping)) cur\<rparr>"
    by (auto simp: buildOrderItems_def newMoney_zero_supported money_is_zero_def
             split: if_splits sum.splits)
  with ne cur loop l that show ?thesis by simp
qed

lemma newOrder_totals_exact_parts:
  assumes "newOrder parse fresh now inp = Ok ord"
    and "\<forall>i \<in> set (oin_items inp). money_wf (iin_unitPrice i)"
    and "money_wf (oin_shipping inp)"
    and "line_sum (oin_items inp) + amount (oin_shipping inp) \<le> max_int64"
  shows "amount (tot_subtotal (ord_totals ord)) = line_sum (oin_items inp)"
    and "amount (tot_total (ord_totals ord))
           = line_sum (oin_items inp) + amount (oin_shipping inp)"
    and "\<forall>it \<in> set (ord_items ord).
           currency (it_unitPrice it) = currency (tot_total (ord_totals ord))"
    and "length (ord_items ord) = length (oin_items inp) \<and> ord_status ord = StatusPending"
proof -
  from assms(1) obtain items t where
    b: "buildOrderItems (oin_items inp) (oin_shipping inp) = Ok (items, t)"
    and ord: "ord_items ord = items" "ord_totals ord = t" "ord_status ord = StatusPending"
    by (auto simp: newOrder_def go_ok split: sum.splits prod.splits)
  from buildOrderItems_parts [OF b assms(2)] obtain cur where p:
    "cur \<in> set supportedCurrencies"
    "list_all2 (\<lambda>i it. newOrderItem i = Ok it) (oin_items inp) items"
    "\<forall>i \<in> set (oin_items inp). currency (iin_unitPrice i) = cur"
    "t = \<lparr>tot_subtotal = money_or_zero (wrap64 (line_sum (oin_items inp))) cur,
          tot_shipping = \<lparr>amount = amount (oin_shipping inp), currency = cur\<rparr>,
          tot_total = money_or_zero (wrap64 (line_sum (oin_items inp) + amount (oin_shipping inp))) cur\<rparr>"
    by metis
  have q: "\<forall>i \<in> set (oin_items inp). 0 < iin_quantity i"
    using p(2) by (auto simp: list_all2_conv_all_nth in_set_conv_nth go_ok)
  have s: "0 \<le> line_sum (oin_items inp)" "0 \<le> amount (oin_shipping inp)"
    using q assms(2,3) line_sum_nonneg by (auto simp: money_wf_def)
  with assms(4) have w: "wrap64 (line_sum (oin_items inp)) = line_sum (oin_items inp)"
    "wrap64 (line_sum (oin_items inp) + amount (oin_shipping inp))
       = line_sum (oin_items inp) + amount (oin_shipping inp)"
    by (simp_all add: wrap64_of_nonneg)
  note m = money_or_zero_Ok [OF newMoney_supported [OF _ p(1)]]
  show "amount (tot_subtotal (ord_totals ord)) = line_sum (oin_items inp)"
    using p(4) ord s w m by simp
  show "amount (tot_total (ord_totals ord)) = line_sum (oin_items inp) + amount (oin_shipping inp)"
    using p(4) ord s w m by simp
  show "\<forall>it \<in> set (ord_items ord).
          currency (it_unitPrice it) = currency (tot_total (ord_totals ord))"
  proof
    fix it assume "it \<in> set (ord_items ord)"
    then obtain n where n: "n < length items" "it = items ! n"
      using ord(1) by (auto simp: in_set_conv_nth)
    let ?i = "oin_items inp ! n"
    have i: "newOrderItem ?i = Ok it" "?i \<in> set (oin_items inp)"
      using p(2) n by (auto simp: list_all2_conv_all_nth)
    then have "currency (it_unitPrice it) = cur"
      using p(3) newOrderItem_amount [OF i(1)] by simp
    then show "currency (it_unitPrice it) = currency (tot_total (ord_totals ord))"
      using p(4) ord(2) s w m by simp
  qed
  show "length (ord_items ord) = length (oin_items inp) \<and> ord_status ord = StatusPending"
    using p(2) ord by (simp add: list_all2_lengthD)
qed

text \<open>C35: The totals of an order are exact. When every unit price and the shipping charge
  are money values of the catalogue and the exact sum fits in 64 bits, an accepted order
  costs the sum of price times quantity plus shipping, in one currency, and starts pending.\<close>

theorem newOrder_totals_exact:
  assumes "newOrder parse fresh now inp = Ok ord"
    and "\<forall>i \<in> set (oin_items inp). money_wf (iin_unitPrice i)"
    and "money_wf (oin_shipping inp)"
    and "line_sum (oin_items inp) + amount (oin_shipping inp) \<le> max_int64"
  shows "amount (tot_subtotal (ord_totals ord)) = line_sum (oin_items inp)
    \<and> amount (tot_total (ord_totals ord)) = line_sum (oin_items inp) + amount (oin_shipping inp)
    \<and> (\<forall>it \<in> set (ord_items ord).
         currency (it_unitPrice it) = currency (tot_total (ord_totals ord)))
    \<and> length (ord_items ord) = length (oin_items inp) \<and> ord_status ord = StatusPending"
  using newOrder_totals_exact_parts [OF assms] by blast

definition sample_item :: "int \<Rightarrow> int \<Rightarrow> item_input" where
  "sample_item price qty =
     \<lparr>iin_productID = 7, iin_sku = ''sku-1'', iin_title = ''Mug'', iin_quantity = qty,
      iin_unitPrice = \<lparr>amount = price, currency = ''AUD''\<rparr>\<rparr>"

definition sample_address :: shipping_address where
  "sample_address = \<lparr>sa_name = ''A'', sa_line1 = ''B'', sa_line2 = [], sa_city = ''C'',
     sa_region = [], sa_postalCode = ''3000'', sa_country = ''au''\<rparr>"

definition sample_order :: order_input where
  "sample_order = \<lparr>oin_customerEmail = ''a@b.c'', oin_items = [sample_item 250 2, sample_item 100 3],
     oin_shippingAddress = sample_address, oin_shipping = \<lparr>amount = 995, currency = ''AUD''\<rparr>\<rparr>"

lemma sample_order_ok: "is_ok (newOrder Some 1 0 sample_order)"
  by code_simp

theorem order_only_moves_forward_witness:
  "\<exists>ord ord'. newOrder Some 1 0 sample_order = Ok ord
     \<and> advance_all ord [(5, StatusPaid), (9, StatusPaid)] = Ok ord'
     \<and> order_rank (ord_status ord) \<le> order_rank (ord_status ord')"
proof -
  have "case newOrder Some 1 0 sample_order of Err _ \<Rightarrow> False
    | Ok ord \<Rightarrow> is_ok (advance_all ord [(5, StatusPaid), (9, StatusPaid)])"
    by code_simp
  then obtain ord ord' where o: "newOrder Some 1 0 sample_order = Ok ord"
      and "advance_all ord [(5, StatusPaid), (9, StatusPaid)] = Ok ord'"
    by (auto simp: is_ok_iff split: sum.splits)
  with order_only_moves_forward [OF this(2)] show ?thesis by blast
qed

theorem newOrder_totals_exact_witness:
  "\<exists>ord. newOrder Some 1 0 sample_order = Ok ord
     \<and> amount (tot_total (ord_totals ord)) = 1795"
proof -
  obtain ord where ord: "newOrder Some 1 0 sample_order = Ok ord"
    using sample_order_ok by (auto simp: is_ok_iff)
  have "amount (tot_total (ord_totals ord))
          = line_sum (oin_items sample_order) + amount (oin_shipping sample_order)"
    by (rule newOrder_totals_exact [OF ord, THEN conjunct2, THEN conjunct1])
       (auto simp: sample_order_def sample_item_def money_wf_def supportedCurrencies_def line_sum_def)
  then show ?thesis using ord by (auto simp: sample_order_def sample_item_def line_sum_def)
qed

lemma order_item_overflow_undercharges_parts:
  assumes "iin_productID inp \<noteq> uuid_nil" "trim_space (iin_sku inp) \<noteq> []"
    and "trim_space (iin_title inp) \<noteq> []" "0 < iin_quantity inp" "money_wf (iin_unitPrice inp)"
  shows "is_ok (newOrderItem inp) \<longleftrightarrow> 0 \<le> wrap64 (amount (iin_unitPrice inp) * iin_quantity inp)"
    and "newOrderItem inp = Ok it \<Longrightarrow> max_int64 < amount (iin_unitPrice inp) * iin_quantity inp \<Longrightarrow>
         amount (it_lineTotal it) < amount (iin_unitPrice inp) * iin_quantity inp"
proof -
  show "is_ok (newOrderItem inp) \<longleftrightarrow> 0 \<le> wrap64 (amount (iin_unitPrice inp) * iin_quantity inp)"
    using assms by (auto simp: is_ok_iff go_ok money_wf_def trim_supported)
  assume "newOrderItem inp = Ok it" "max_int64 < amount (iin_unitPrice inp) * iin_quantity inp"
  moreover have "wrap64 x \<le> max_int64" for x
    using wrap64_range [of x] by (simp add: in_int64_def)
  ultimately show "amount (it_lineTotal it) < amount (iin_unitPrice inp) * iin_quantity inp"
    using newOrderItem_amount by (metis le_less_trans)
qed

text \<open>The line total is computed modulo 2^64. An item with a complete identity and a
  positive quantity is accepted exactly when the wrapped product of price and quantity is
  not negative, and whenever the exact product is out of range and the item is accepted, the
  customer is charged less than price times quantity.\<close>

theorem order_item_overflow_undercharges:
  assumes "iin_productID inp \<noteq> uuid_nil" "trim_space (iin_sku inp) \<noteq> []"
    and "trim_space (iin_title inp) \<noteq> []" "0 < iin_quantity inp" "money_wf (iin_unitPrice inp)"
  shows "(is_ok (newOrderItem inp) \<longleftrightarrow> 0 \<le> wrap64 (amount (iin_unitPrice inp) * iin_quantity inp))
    \<and> (newOrderItem inp = Ok it \<and> max_int64 < amount (iin_unitPrice inp) * iin_quantity inp \<longrightarrow>
       amount (it_lineTotal it) < amount (iin_unitPrice inp) * iin_quantity inp)"
  using order_item_overflow_undercharges_parts [OF assms] by blast

theorem order_item_overflow_witness:
  "\<exists>it. newOrderItem (sample_item 100 184467440737095517) = Ok it
     \<and> amount (it_lineTotal it) < 100 * 184467440737095517"
proof -
  let ?i = "sample_item 100 184467440737095517"
  have "is_ok (newOrderItem ?i)" by code_simp
  then obtain it where it: "newOrderItem ?i = Ok it" by (auto simp: is_ok_iff)
  have "trim_space (iin_sku ?i) \<noteq> []" "trim_space (iin_title ?i) \<noteq> []" by code_simp+
  then have "newOrderItem ?i = Ok it \<and> max_int64 < amount (iin_unitPrice ?i) * iin_quantity ?i \<longrightarrow>
      amount (it_lineTotal it) < amount (iin_unitPrice ?i) * iin_quantity ?i"
    by (intro order_item_overflow_undercharges [THEN conjunct2])
       (simp_all add: sample_item_def uuid_nil_def money_wf_def supportedCurrencies_def)
  then show ?thesis using it by (simp add: sample_item_def)
qed

subsection \<open>Carts\<close>

lemma reconstructCartItem_eq: "reconstructCartItem = reconstructOrderItem"
  by (simp add: fun_eq_iff reconstructCartItem_def reconstructOrderItem_def)

lemma newCartItem_eq: "newCartItem = newOrderItem"
  unfolding newCartItem_def newOrderItem_def reconstructCartItem_eq by (rule refl)

lemma cart_items_loop_eq: "cart_items_loop = order_items_loop"
proof (intro ext)
  fix inputs cur sub items
  show "cart_items_loop inputs cur sub items = order_items_loop inputs cur sub items"
    by (induction inputs cur sub items rule: order_items_loop.induct)
       (auto simp: newCartItem_eq Let_def split: sum.splits)
qed

text \<open>Checking a cart out changes nothing: for items priced with catalogue money, the
  cart builder accepts the same items with the same totals as the order builder does when
  no shipping is charged, and rejects them with the same error.\<close>

theorem cart_checkout_agrees:
  assumes "inputs \<noteq> []" and "\<forall>i \<in> set inputs. money_wf (iin_unitPrice i)"
  shows "buildCartItems inputs = buildOrderItems inputs zeroAUD"
proof (cases "order_items_loop inputs [] 0 []")
  case (Inl e)
  then show ?thesis using assms(1)
    by (simp add: buildCartItems_def buildOrderItems_def cart_items_loop_eq)
next
  case (Inr r)
  obtain cur sub items where r: "r = (cur, sub, items)" by (cases r) auto
  note l = order_items_loop_Ok [OF Inr [unfolded r]]
  from l assms have "\<forall>i \<in> set inputs. currency (iin_unitPrice i) = cur"
    and "sub = wrap64 (line_sum inputs)" by auto
  moreover from this assms have "cur \<in> set supportedCurrencies"
    by (cases inputs) (auto simp: money_wf_def)
  ultimately show ?thesis using assms(1) Inr r
    by (simp add: buildCartItems_def buildOrderItems_def cart_items_loop_eq zeroAUD_def
          money_is_zero_def newMoney_zero_supported money_or_zero_def)
qed

theorem cart_checkout_agrees_witness:
  "buildCartItems [sample_item 250 2] = buildOrderItems [sample_item 250 2] zeroAUD"
  by (rule cart_checkout_agrees)
     (simp_all add: sample_item_def money_wf_def supportedCurrencies_def)

text \<open>Replacing the items of a cart is all or nothing: on an error the cart is
  unchanged, otherwise it holds exactly the new items with the totals built from them, and
  its session never changes.\<close>

theorem replaceItems_atomic:
  "(case replaceItems now c inputs of
      (c', Err e) \<Rightarrow> c' = c \<and> inputs \<noteq> [] \<and> buildCartItems inputs = Err e
    | (c', Ok _) \<Rightarrow> cart_sessionID c' = cart_sessionID c \<and> cart_updatedAt c' = now
        \<and> (if inputs = [] then cart_isEmpty c' \<and> cart_totals c' = zero_totals
           else buildCartItems inputs = Ok (cart_items c', cart_totals c')))"
  by (auto simp: replaceItems_def cart_isEmpty_def split: sum.splits prod.splits)

end
