(* ===== verification/Membership.thy ===== *)
theory Membership
  imports Lifecycle Catalog
begin

text \<open>
  The membership bounded context, \<open>internal/domain/membership\<close>: billing cycles
  (\<open>billing_cycle.go\<close>), members (\<open>member.go\<close>), plans (\<open>plan.go\<close>), the subscription state
  machine (\<open>state.go\<close>) and the subscription aggregate (\<open>subscription.go\<close>). A
  \<open>BillingCycle\<close> is the typed string it is in the code, because plans keep the value they
  were given. Clock readings, fresh identifiers and the address parser are arguments.
\<close>

datatype membership_error =
    ErrInvalidBillingCycle
  | ErrMemberEmailRequired
  | ErrMemberEmailInvalid
  | ErrPlanNameRequired
  | ErrPlanCurrencyRequired
  | ErrPlanPriceNotPositive
  | ErrTenantRequired
  | ErrInvalidState
  | ErrInvalidTransition
  | ErrInvalidTransitionName
  | ErrMemberRequired
  | ErrSubscriptionPlanFK
  | ErrTrialEndsBeforeStart
  | ErrPlanTenantMismatch

subsection \<open>Billing cycles\<close>

type_synonym billing_cycle = string

definition billingCycles :: "billing_cycle list" where
  "billingCycles = [''monthly'', ''quarterly'', ''annual'']"

definition parseBillingCycle :: "string \<Rightarrow> membership_error + billing_cycle" where
  "parseBillingCycle v =
     (let normalised = to_lower (trim_space v) in
      if normalised \<in> set billingCycles then Ok normalised else Err ErrInvalidBillingCycle)"

definition cycle_duration :: "billing_cycle \<Rightarrow> duration" where
  "cycle_duration b =
     (if b = ''monthly'' then 30 * 24 * time_hour
      else if b = ''quarterly'' then 90 * 24 * time_hour
      else if b = ''annual'' then 365 * 24 * time_hour
      else 0)"

lemma cycle_duration_nonneg [simp]: "0 \<le> cycle_duration b"
  by (simp add: cycle_duration_def time_hour_def)

lemma cycle_duration_pos_iff: "0 < cycle_duration b \<longleftrightarrow> b \<in> set billingCycles"
  by (auto simp: cycle_duration_def billingCycles_def time_hour_def)

subsection \<open>Members\<close>

record member =
  mbr_id :: uuid
  mbr_tenantID :: string
  mbr_email :: string
  mbr_joinedAt :: gotime
  mbr_updatedAt :: gotime

definition normaliseMemberEmail ::
  "(string \<Rightarrow> string option) \<Rightarrow> string \<Rightarrow> membership_error + string" where
  "normaliseMemberEmail parse v =
     (let email = to_lower (trim_space v) in
      if email = [] then Err ErrMemberEmailRequired
      else if parse email \<noteq> Some email \<or> CHR ''@'' \<notin> set email then Err ErrMemberEmailInvalid
      else Ok email)"

definition newMember ::
  "(string \<Rightarrow> string option) \<Rightarrow> uuid \<Rightarrow> gotime \<Rightarrow> string \<Rightarrow> string \<Rightarrow> membership_error + member" where
  "newMember parse fresh now tenant email =
     (let tenantID = trim_space tenant in
      if tenantID = [] then Err ErrTenantRequired
      else case normaliseMemberEmail parse email of
        Err e \<Rightarrow> Err e
      | Ok email' \<Rightarrow>
          Ok \<lparr>mbr_id = fresh, mbr_tenantID = tenantID, mbr_email = email',
              mbr_joinedAt = now, mbr_updatedAt = now\<rparr>)"

subsection \<open>Plans\<close>

record plan_input =
  pli_tenantID :: string
  pli_name :: string
  pli_description :: string
  pli_billingCycle :: billing_cycle
  pli_price :: money
  pli_benefits :: "string list"
  pli_stripePriceID :: string

record membership_plan =
  pl_id :: uuid
  pl_tenantID :: string
  pl_name :: string
  pl_description :: string
  pl_billingCycle :: billing_cycle
  pl_price :: money
  pl_benefits :: "string list"
  pl_stripePriceID :: string
  pl_createdAt :: gotime
  pl_updatedAt :: gotime

definition newMembershipPlan ::
  "uuid \<Rightarrow> gotime \<Rightarrow> plan_input \<Rightarrow> membership_error + membership_plan" where
  "newMembershipPlan fresh now inp =
     (let tenantID = trim_space (pli_tenantID inp) in
      if tenantID = [] then Err ErrTenantRequired
      else let name = trim_space (pli_name inp) in
      if name = [] then Err ErrPlanNameRequired
      else case parseBillingCycle (pli_billingCycle inp) of
        Err e \<Rightarrow> Err e
      | Ok _ \<Rightarrow>
          if currency (pli_price inp) = [] then Err ErrPlanCurrencyRequired
          else if amount (pli_price inp) \<le> 0 then Err ErrPlanPriceNotPositive
          else Ok \<lparr>pl_id = fresh, pl_tenantID = tenantID, pl_name = name,
                   pl_description = trim_space (pli_description inp),
                   pl_billingCycle = pli_billingCycle inp, pl_price = pli_price inp,
                   pl_benefits = pli_benefits inp,
                   pl_stripePriceID = trim_space (pli_stripePriceID inp),
                   pl_createdAt = now, pl_updatedAt = now\<rparr>)"

definition plan_rename :: "gotime \<Rightarrow> membership_plan \<Rightarrow> string \<Rightarrow> membership_error + membership_plan" where
  "plan_rename now p name =
     (let trimmed = trim_space name in
      if trimmed = [] then Err ErrPlanNameRequired
      else if trimmed = pl_name p then Ok p
      else Ok (p\<lparr>pl_name := trimmed, pl_updatedAt := now\<rparr>))"

definition setStripePriceID :: "gotime \<Rightarrow> membership_plan \<Rightarrow> string \<Rightarrow> membership_plan" where
  "setStripePriceID now p sid = p\<lparr>pl_stripePriceID := trim_space sid, pl_updatedAt := now\<rparr>"

subsection \<open>The state machine\<close>

datatype mstate = StateTrial | StateActive | StatePaused | StateCancelled | StateExpired

datatype mtransition =
    TransitionActivate | TransitionPause | TransitionResume
  | TransitionCancel | TransitionExpire | TransitionRenew

definition membership_table :: "(mstate, mtransition) table" where
  "membership_table =
     [(StateTrial,
        [(TransitionActivate, StateActive), (TransitionCancel, StateCancelled),
         (TransitionExpire, StateExpired)]),
      (StateActive,
        [(TransitionPause, StatePaused), (TransitionRenew, StateActive),
         (TransitionCancel, StateCancelled), (TransitionExpire, StateExpired)]),
      (StatePaused,
        [(TransitionResume, StateActive), (TransitionCancel, StateCancelled)])]"

fun mstate_string :: "mstate \<Rightarrow> string" where
  "mstate_string StateTrial = ''trial''"
| "mstate_string StateActive = ''active''"
| "mstate_string StatePaused = ''paused''"
| "mstate_string StateCancelled = ''cancelled''"
| "mstate_string StateExpired = ''expired''"

definition parseMState :: "string \<Rightarrow> membership_error + mstate" where
  "parseMState v =
     (if v = ''trial'' then Ok StateTrial
      else if v = ''active'' then Ok StateActive
      else if v = ''paused'' then Ok StatePaused
      else if v = ''cancelled'' then Ok StateCancelled
      else if v = ''expired'' then Ok StateExpired
      else Err ErrInvalidState)"

definition mstate_isTerminal :: "mstate \<Rightarrow> bool" where
  "mstate_isTerminal s \<longleftrightarrow> mget membership_table s = None"

definition parseMTransition :: "string \<Rightarrow> membership_error + mtransition" where
  "parseMTransition v =
     (if v = ''activate'' then Ok TransitionActivate
      else if v = ''pause'' then Ok TransitionPause
      else if v = ''resume'' then Ok TransitionResume
      else if v = ''cancel'' then Ok TransitionCancel
      else if v = ''expire'' then Ok TransitionExpire
      else if v = ''renew'' then Ok TransitionRenew
      else Err ErrInvalidTransitionName)"

definition nextMState :: "mstate \<Rightarrow> mtransition \<Rightarrow> membership_error + mstate" where
  "nextMState s t =
     (case mget membership_table s of
        None \<Rightarrow> Err ErrInvalidTransition
      | Some moves \<Rightarrow>
          (case mget moves t of None \<Rightarrow> Err ErrInvalidTransition | Some d \<Rightarrow> Ok d))"

definition allMTransitions :: "(mstate \<times> mtransition \<times> mstate) list" where
  "allMTransitions =
     concat (map (\<lambda>(s, moves). map (\<lambda>(t, d). (s, t, d)) moves) membership_table)"

subsection \<open>Subscriptions\<close>

record subscription_input =
  sin_tenantID :: string
  sin_memberID :: uuid
  sin_planID :: uuid
  sin_trialDays :: int
  sin_now :: gotime

record msubscription =
  ms_id :: uuid
  ms_tenantID :: string
  ms_memberID :: uuid
  ms_planID :: uuid
  ms_state :: mstate
  ms_currentPeriodStart :: gotime
  ms_currentPeriodEnd :: gotime
  ms_trialEndsAt :: gotime
  ms_stripeSubscriptionID :: string
  ms_cancelledAt :: "gotime option"
  ms_createdAt :: gotime
  ms_updatedAt :: gotime

definition newMSubscription ::
  "uuid \<Rightarrow> gotime \<Rightarrow> subscription_input \<Rightarrow> membership_plan \<Rightarrow> membership_error + msubscription" where
  "newMSubscription fresh clock inp plan =
     (let tenantID = trim_space (sin_tenantID inp) in
      if tenantID = [] then Err ErrTenantRequired
      else if sin_memberID inp = uuid_nil then Err ErrMemberRequired
      else if sin_planID inp = uuid_nil then Err ErrSubscriptionPlanFK
      else if pl_tenantID plan \<noteq> tenantID then Err ErrPlanTenantMismatch
      else
        let now = or_now clock (sin_now inp);
            trialDays = (if sin_trialDays inp < 0 then 0 else sin_trialDays inp);
            trialEnds = now + mul64 (mul64 trialDays 24) time_hour
        in if trialEnds < now then Err ErrTrialEndsBeforeStart
        else
          let periodEnd = (if trialDays = 0 then now + cycle_duration (pl_billingCycle plan)
                           else trialEnds)
          in Ok \<lparr>ms_id = fresh, ms_tenantID = tenantID, ms_memberID = sin_memberID inp,
                 ms_planID = sin_planID inp, ms_state = StateTrial,
                 ms_currentPeriodStart = now, ms_currentPeriodEnd = periodEnd,
                 ms_trialEndsAt = trialEnds, ms_stripeSubscriptionID = [],
                 ms_cancelledAt = None, ms_createdAt = now, ms_updatedAt = now\<rparr>)"

text \<open>The switch of \<open>Apply\<close>: what a transition does to the period and the cancellation.\<close>

fun msub_effect :: "gotime \<Rightarrow> membership_plan \<Rightarrow> mtransition \<Rightarrow> msubscription \<Rightarrow> msubscription" where
  "msub_effect now plan TransitionActivate s =
     s\<lparr>ms_currentPeriodStart := now,
       ms_currentPeriodEnd := now + cycle_duration (pl_billingCycle plan)\<rparr>"
| "msub_effect now plan TransitionRenew s =
     s\<lparr>ms_currentPeriodStart := ms_currentPeriodEnd s,
       ms_currentPeriodEnd := ms_currentPeriodEnd s + cycle_duration (pl_billingCycle plan)\<rparr>"
| "msub_effect now plan TransitionPause s = s"
| "msub_effect now plan TransitionResume s =
     s\<lparr>ms_currentPeriodStart := now,
       ms_currentPeriodEnd := now + time_sub (ms_currentPeriodEnd s) (ms_currentPeriodStart s)\<rparr>"
| "msub_effect now plan TransitionCancel s = s\<lparr>ms_cancelledAt := Some now\<rparr>"
| "msub_effect now plan TransitionExpire s = s"

definition msub_apply ::
  "gotime \<Rightarrow> msubscription \<Rightarrow> mtransition \<Rightarrow> membership_plan \<Rightarrow> gotime \<Rightarrow>
   membership_error + msubscription" where
  "msub_apply clock s t plan now0 =
     (let now = or_now clock now0 in
      case nextMState (ms_state s) t of
        Err e \<Rightarrow> Err e
      | Ok target \<Rightarrow> Ok (msub_effect now plan t (s\<lparr>ms_state := target, ms_updatedAt := now\<rparr>)))"

definition linkStripeSubscription :: "gotime \<Rightarrow> msubscription \<Rightarrow> string \<Rightarrow> msubscription" where
  "linkStripeSubscription now s sid =
     s\<lparr>ms_stripeSubscriptionID := trim_space sid, ms_updatedAt := now\<rparr>"

subsection \<open>Properties of the state machine\<close>

lemma membership_table_wf: "table_wf membership_table"
  by (simp add: table_wf_def membership_table_def mwf_def mvalues_def)

definition mstep :: "mstate \<Rightarrow> mtransition \<Rightarrow> mstate option" where
  "mstep = table_next membership_table"

lemma nextMState_Ok [go_ok]: "nextMState s t = Ok d \<longleftrightarrow> mstep s t = Some d"
  by (auto simp: nextMState_def mstep_def table_next_def split: option.splits)

interpretation ml: abandonable mstep mstate_isTerminal TransitionCancel
proof
  show "mstate_isTerminal s \<longleftrightarrow> (\<forall>t. mstep s t = None)" for s
    using table_terminal_iff [OF membership_table_wf] by (simp add: mstate_isTerminal_def mstep_def)
  show "\<not> mstate_isTerminal s \<Longrightarrow> \<exists>d. mstep s TransitionCancel = Some d \<and> mstate_isTerminal d" for s
    by (cases s) (simp_all add: mstate_isTerminal_def mstep_def table_next_def membership_table_def mget_def)
qed

lemma parseMState_string: "parseMState (mstate_string s) = Ok s"
  by (cases s) (simp_all add: parseMState_def)

lemma allMTransitions_triples: "allMTransitions = table_triples membership_table"
  by (simp add: allMTransitions_def table_triples_def)

lemma membership_table_complete_parts:
  "(s, t, d) \<in> set allMTransitions \<longleftrightarrow> nextMState s t = Ok d"
  "mstate_isTerminal s \<longleftrightarrow> s \<in> {StateCancelled, StateExpired}"
proof -
  show "(s, t, d) \<in> set allMTransitions \<longleftrightarrow> nextMState s t = Ok d"
    by (simp add: allMTransitions_triples table_triples_iff [OF membership_table_wf]
          nextMState_Ok mstep_def)
  show "mstate_isTerminal s \<longleftrightarrow> s \<in> {StateCancelled, StateExpired}"
    by (cases s) (simp_all add: mstate_isTerminal_def membership_table_def mget_def)
qed

text \<open>The published list of membership transitions is the state machine: a triple is in
  the list exactly when the lookup that guards every subscription accepts it, and the
  terminal states are exactly cancelled and expired.\<close>

theorem membership_table_complete:
  "((s, t, d) \<in> set allMTransitions \<longleftrightarrow> nextMState s t = Ok d)
   \<and> (mstate_isTerminal s \<longleftrightarrow> s \<in> {StateCancelled, StateExpired})"
  using membership_table_complete_parts by blast

subsection \<open>Subscription histories\<close>

text \<open>A history: the transitions applied, each with the plan and the time it was called with.\<close>

fun msub_history ::
  "gotime \<Rightarrow> msubscription \<Rightarrow> (mtransition \<times> membership_plan \<times> gotime) list \<Rightarrow>
   membership_error + msubscription" where
  "msub_history clock s [] = Ok s"
| "msub_history clock s ((t, plan, now) # rest) =
     (case msub_apply clock s t plan now of
        Err e \<Rightarrow> Err e | Ok s' \<Rightarrow> msub_history clock s' rest)"

text \<open>The period never ends before it starts, and a cancellation time is recorded exactly in
  the cancelled state.\<close>

definition msub_inv :: "msubscription \<Rightarrow> bool" where
  "msub_inv s \<longleftrightarrow>
     ms_currentPeriodStart s \<le> ms_currentPeriodEnd s
     \<and> (ms_cancelledAt s \<noteq> None \<longleftrightarrow> ms_state s = StateCancelled)"

lemma msub_apply_Ok:
  "msub_apply clock s t plan now0 = Ok s' \<longleftrightarrow>
     (\<exists>d. mstep (ms_state s) t = Some d
        \<and> s' = msub_effect (or_now clock now0) plan t
                 (s\<lparr>ms_state := d, ms_updatedAt := or_now clock now0\<rparr>))"
  unfolding msub_apply_def Let_def case_err_ok nextMState_Ok by auto

lemma msub_apply_state: "msub_apply clock s t plan now = Ok s' \<Longrightarrow> mstep (ms_state s) t = Some (ms_state s')"
  by (cases t) (auto simp: msub_apply_Ok)

lemma msub_apply_frame:
  "msub_apply clock s t plan now = Ok s' \<Longrightarrow>
     ms_id s' = ms_id s \<and> ms_tenantID s' = ms_tenantID s \<and> ms_memberID s' = ms_memberID s
     \<and> ms_planID s' = ms_planID s \<and> ms_trialEndsAt s' = ms_trialEndsAt s
     \<and> ms_updatedAt s' = or_now clock now"
  by (cases t) (auto simp: msub_apply_Ok)

lemma mstep_to_cancelled:
  "mstep s t = Some d \<Longrightarrow> (d = StateCancelled \<longleftrightarrow> t = TransitionCancel) \<and> s \<noteq> StateCancelled"
  by (cases s; cases t) (auto simp: mstep_def table_next_def membership_table_def mget_def)

lemma time_sub_nonneg: "u \<le> t \<Longrightarrow> 0 \<le> time_sub t u"
  by (simp add: time_sub_def)

lemma msub_apply_inv:
  assumes ok: "msub_apply clock s t plan now = Ok s'" and inv: "msub_inv s"
  shows "msub_inv s'"
proof -
  note st = mstep_to_cancelled [OF msub_apply_state [OF ok]]
  from ok inv have "ms_currentPeriodStart s' \<le> ms_currentPeriodEnd s'"
    by (cases t) (auto simp: msub_apply_Ok msub_inv_def time_sub_nonneg)
  moreover from ok st inv have "ms_cancelledAt s' \<noteq> None \<longleftrightarrow> ms_state s' = StateCancelled"
    by (cases t) (auto simp: msub_apply_Ok msub_inv_def)
  ultimately show ?thesis by (simp add: msub_inv_def)
qed

lemma msub_history_run:
  "msub_history clock s ts = Ok s' \<Longrightarrow> run_table mstep (ms_state s) (map fst ts) = Some (ms_state s')"
  by (induction clock s ts rule: msub_history.induct)
     (auto simp: msub_apply_state split: sum.splits)

lemma msub_history_inv: "msub_history clock s ts = Ok s' \<Longrightarrow> msub_inv s \<Longrightarrow> msub_inv s'"
  by (induction clock s ts rule: msub_history.induct)
     (auto intro: msub_apply_inv split: sum.splits)

lemma newMSubscription_inv: "newMSubscription fresh clock inp plan = Ok s \<Longrightarrow> msub_inv s"
  by (auto simp: newMSubscription_def Let_def msub_inv_def split: if_splits)

lemma subscription_history_safe_parts:
  assumes "newMSubscription fresh clock0 inp plan0 = Ok s0"
    and "msub_history clock s0 ts = Ok s"
  shows "ms_currentPeriodStart s \<le> ms_currentPeriodEnd s"
    and "ms_cancelledAt s \<noteq> None \<longleftrightarrow> ms_state s = StateCancelled"
    and "mstate_isTerminal (ms_state s) \<longrightarrow> \<not> is_ok (msub_apply clock s t plan now)"
proof -
  have "msub_inv s"
    using assms newMSubscription_inv msub_history_inv by blast
  then show "ms_currentPeriodStart s \<le> ms_currentPeriodEnd s"
    and "ms_cancelledAt s \<noteq> None \<longleftrightarrow> ms_state s = StateCancelled"
    by (simp_all add: msub_inv_def)
  show "mstate_isTerminal (ms_state s) \<longrightarrow> \<not> is_ok (msub_apply clock s t plan now)"
    using msub_apply_state ml.step_from_live by (fastforce simp: is_ok_iff)
qed

text \<open>Every history of a subscription keeps it well formed. From creation on, whatever
  transitions are applied at whatever times and with whatever plans, the billing period never
  ends before it starts, a cancellation time is recorded exactly when the subscription is
  cancelled, and nothing can be applied to a cancelled or expired subscription.\<close>

theorem subscription_history_safe:
  assumes "newMSubscription fresh clock0 inp plan0 = Ok s0"
    and "msub_history clock s0 ts = Ok s"
  shows "ms_currentPeriodStart s \<le> ms_currentPeriodEnd s
    \<and> (ms_cancelledAt s \<noteq> None \<longleftrightarrow> ms_state s = StateCancelled)
    \<and> (mstate_isTerminal (ms_state s) \<longrightarrow> (\<forall>t plan now. \<not> is_ok (msub_apply clock s t plan now)))"
  using subscription_history_safe_parts [OF assms] by blast

definition sample_plan :: membership_plan where
  "sample_plan = \<lparr>pl_id = 3, pl_tenantID = ''acme'', pl_name = ''Gold'', pl_description = [],
     pl_billingCycle = ''monthly'', pl_price = \<lparr>amount = 900, currency = ''AUD''\<rparr>,
     pl_benefits = [], pl_stripePriceID = [], pl_createdAt = 0, pl_updatedAt = 0\<rparr>"

definition sample_sub_input :: "int \<Rightarrow> subscription_input" where
  "sample_sub_input days = \<lparr>sin_tenantID = ''acme'', sin_memberID = 5, sin_planID = 3,
     sin_trialDays = days, sin_now = 1000\<rparr>"

definition sample_history :: "(mtransition \<times> membership_plan \<times> gotime) list" where
  "sample_history = [(TransitionActivate, sample_plan, 2000), (TransitionPause, sample_plan, 3000),
     (TransitionResume, sample_plan, 4000), (TransitionCancel, sample_plan, 5000)]"

lemma sample_history_ok:
  "case newMSubscription 1 0 (sample_sub_input 14) sample_plan of
     Err _ \<Rightarrow> False
   | Ok s0 \<Rightarrow> (case msub_history 0 s0 sample_history of
                Err _ \<Rightarrow> False | Ok s \<Rightarrow> ms_state s = StateCancelled)"
  by code_simp

theorem subscription_history_safe_witness:
  "\<exists>s0 s. newMSubscription 1 0 (sample_sub_input 14) sample_plan = Ok s0
      \<and> msub_history 0 s0 sample_history = Ok s \<and> ms_cancelledAt s \<noteq> None"
proof -
  obtain s0 s where s: "newMSubscription 1 0 (sample_sub_input 14) sample_plan = Ok s0"
      "msub_history 0 s0 sample_history = Ok s" "ms_state s = StateCancelled"
    using sample_history_ok by (auto split: sum.splits)
  with subscription_history_safe [OF s(1,2)] show ?thesis by blast
qed

subsection \<open>Pausing\<close>

lemma resume_keeps_period_length_parts:
  assumes "msub_apply clock s TransitionPause plan1 t1 = Ok s1"
    and "msub_apply clock s1 TransitionResume plan2 t2 = Ok s2"
    and "in_int64 (ms_currentPeriodEnd s - ms_currentPeriodStart s)"
  shows "ms_currentPeriodEnd s2 - ms_currentPeriodStart s2
           = ms_currentPeriodEnd s - ms_currentPeriodStart s"
    and "ms_currentPeriodStart s2 = or_now clock t2 \<and> ms_state s2 = ms_state s"
proof -
  from assms(1) have s1: "ms_currentPeriodEnd s1 = ms_currentPeriodEnd s"
    "ms_currentPeriodStart s1 = ms_currentPeriodStart s"
    by (auto simp: msub_apply_Ok)
  with assms show "ms_currentPeriodEnd s2 - ms_currentPeriodStart s2
      = ms_currentPeriodEnd s - ms_currentPeriodStart s"
    by (auto simp: msub_apply_Ok time_sub_exact)
  have "mstep (ms_state s) TransitionPause = Some (ms_state s1)"
    "mstep (ms_state s1) TransitionResume = Some (ms_state s2)"
    using assms(1,2) msub_apply_state by blast+
  then have "ms_state s2 = ms_state s"
    by (cases "ms_state s"; cases "ms_state s1")
       (auto simp: mstep_def table_next_def membership_table_def mget_def)
  moreover have "ms_currentPeriodStart s2 = or_now clock t2"
    using assms(2) by (auto simp: msub_apply_Ok)
  ultimately show "ms_currentPeriodStart s2 = or_now clock t2 \<and> ms_state s2 = ms_state s" by simp
qed

text \<open>Pausing does not cost the customer paid time: resuming a paused subscription
  starts a period now that is exactly as long as the period that was interrupted, wherever
  the pause and the resume fall (as long as the period fits in a Go duration).\<close>

theorem resume_keeps_period_length:
  assumes "msub_apply clock s TransitionPause plan1 t1 = Ok s1"
    and "msub_apply clock s1 TransitionResume plan2 t2 = Ok s2"
    and "in_int64 (ms_currentPeriodEnd s - ms_currentPeriodStart s)"
  shows "ms_currentPeriodEnd s2 - ms_currentPeriodStart s2
           = ms_currentPeriodEnd s - ms_currentPeriodStart s
    \<and> ms_currentPeriodStart s2 = or_now clock t2 \<and> ms_state s2 = ms_state s"
  using resume_keeps_period_length_parts [OF assms] by blast

definition sample_active :: msubscription where
  "sample_active = \<lparr>ms_id = 1, ms_tenantID = ''acme'', ms_memberID = 5, ms_planID = 3,
     ms_state = StateActive, ms_currentPeriodStart = 2000, ms_currentPeriodEnd = 9000,
     ms_trialEndsAt = 2000, ms_stripeSubscriptionID = [], ms_cancelledAt = None,
     ms_createdAt = 1000, ms_updatedAt = 2000\<rparr>"

lemma sample_pause_ok:
  "case msub_apply 0 sample_active TransitionPause sample_plan 3000 of
     Err _ \<Rightarrow> False
   | Ok s1 \<Rightarrow> is_ok (msub_apply 0 s1 TransitionResume sample_plan 8000)"
  by code_simp

theorem resume_keeps_period_length_witness:
  "\<exists>s1 s2. msub_apply 0 sample_active TransitionPause sample_plan 3000 = Ok s1
     \<and> msub_apply 0 s1 TransitionResume sample_plan 8000 = Ok s2
     \<and> ms_currentPeriodEnd s2 - ms_currentPeriodStart s2 = 7000"
proof -
  obtain s1 s2 where s: "msub_apply 0 sample_active TransitionPause sample_plan 3000 = Ok s1"
      "msub_apply 0 s1 TransitionResume sample_plan 8000 = Ok s2"
    using sample_pause_ok by (auto simp: is_ok_iff split: sum.splits)
  have "in_int64 (ms_currentPeriodEnd sample_active - ms_currentPeriodStart sample_active)"
    by (simp add: sample_active_def in_int64_iff)
  from resume_keeps_period_length [OF s this] s show ?thesis
    by (auto simp: sample_active_def)
qed

subsection \<open>Trials and billing cycles\<close>

definition sub_request_ok :: "subscription_input \<Rightarrow> membership_plan \<Rightarrow> bool" where
  "sub_request_ok inp plan \<longleftrightarrow>
     trim_space (sin_tenantID inp) \<noteq> [] \<and> sin_memberID inp \<noteq> uuid_nil
     \<and> sin_planID inp \<noteq> uuid_nil \<and> pl_tenantID plan = trim_space (sin_tenantID inp)"

lemma newMSubscription_request:
  "sub_request_ok inp plan \<Longrightarrow>
   newMSubscription fresh clock inp plan =
     (let now = or_now clock (sin_now inp);
          trialDays = max 0 (sin_trialDays inp);
          trialEnds = now + mul64 (mul64 trialDays 24) time_hour
      in if trialEnds < now then Err ErrTrialEndsBeforeStart
      else Ok \<lparr>ms_id = fresh, ms_tenantID = trim_space (sin_tenantID inp),
             ms_memberID = sin_memberID inp, ms_planID = sin_planID inp, ms_state = StateTrial,
             ms_currentPeriodStart = now,
             ms_currentPeriodEnd =
               (if trialDays = 0 then now + cycle_duration (pl_billingCycle plan) else trialEnds),
             ms_trialEndsAt = trialEnds, ms_stripeSubscriptionID = [], ms_cancelledAt = None,
             ms_createdAt = now, ms_updatedAt = now\<rparr>)"
  by (simp add: newMSubscription_def sub_request_ok_def Let_def max_def not_less)

lemma trial_days_exact_parts:
  assumes "sub_request_ok inp plan" and "sin_trialDays inp \<le> 106751"
  obtains s where "newMSubscription fresh clock inp plan = Ok s"
    and "ms_trialEndsAt s = ms_createdAt s + max 0 (sin_trialDays inp) * (24 * time_hour)"
    and "ms_currentPeriodEnd s =
           (if sin_trialDays inp \<le> 0 then ms_createdAt s + cycle_duration (pl_billingCycle plan)
            else ms_trialEndsAt s)"
    and "ms_state s = StateTrial"
proof -
  let ?d = "max 0 (sin_trialDays inp)"
  have "mul64 (mul64 d 24) time_hour = d * (24 * time_hour)" if "0 \<le> d" "d \<le> 106751" for d
    using that by (simp add: time_hour_def in_int64_iff)
  then have w: "mul64 (mul64 ?d 24) time_hour = ?d * (24 * time_hour)"
    using assms(2) by simp
  have nn: "0 \<le> ?d * (24 * time_hour)" by (simp add: time_hour_def)
  have z: "(?d = 0) = (sin_trialDays inp \<le> 0)" by auto
  from newMSubscription_request [OF assms(1), of fresh clock] that show thesis
    unfolding Let_def w using nn z by (simp add: not_less)
qed

text \<open>A trial of up to 106751 days (the most a Go duration holds) is honoured to the
  nanosecond: a complete request is accepted, the trial ends exactly that many days after
  creation, and the first period runs to the end of the trial, or for one billing cycle when
  there is none.\<close>

theorem trial_days_exact:
  assumes "sub_request_ok inp plan" and "sin_trialDays inp \<le> 106751"
  shows "\<exists>s. newMSubscription fresh clock inp plan = Ok s
    \<and> ms_trialEndsAt s = ms_createdAt s + max 0 (sin_trialDays inp) * (24 * time_hour)
    \<and> ms_currentPeriodEnd s =
        (if sin_trialDays inp \<le> 0 then ms_createdAt s + cycle_duration (pl_billingCycle plan)
         else ms_trialEndsAt s)
    \<and> ms_state s = StateTrial"
  by (rule trial_days_exact_parts [OF assms, of fresh clock]) blast

theorem trial_days_exact_witness:
  "\<exists>s. newMSubscription 1 0 (sample_sub_input 14) sample_plan = Ok s
     \<and> ms_trialEndsAt s = ms_createdAt s + 14 * (24 * time_hour)"
proof -
  have "trim_space ''acme'' = ''acme''" by code_simp
  then have ok: "sub_request_ok (sample_sub_input 14) sample_plan"
    by (simp add: sub_request_ok_def sample_sub_input_def sample_plan_def uuid_nil_def)
  have "sin_trialDays (sample_sub_input 14) \<le> 106751" by (simp add: sample_sub_input_def)
  from trial_days_exact [OF ok this, of 1 0] show ?thesis
    by (metis max_def sample_sub_input_def subscription_input.select_convs(4) zero_le_numeral)
qed

lemma trial_days_overflow_parts:
  assumes "sub_request_ok inp plan"
  shows "106752 \<le> sin_trialDays inp \<Longrightarrow> sin_trialDays inp \<le> 213503 \<Longrightarrow>
           newMSubscription fresh clock inp plan = Err ErrTrialEndsBeforeStart"
    and "sin_trialDays inp = 213504 \<Longrightarrow>
           \<exists>s. newMSubscription fresh clock inp plan = Ok s
             \<and> ms_trialEndsAt s - ms_createdAt s = 1526290448384"
proof -
  assume b: "106752 \<le> sin_trialDays inp" "sin_trialDays inp \<le> 213503"
  let ?d = "sin_trialDays inp"
  have d: "max 0 ?d = ?d" "mul64 ?d 24 = ?d * 24"
    using b by (auto simp: in_int64_iff)
  have "mul64 (?d * 24) time_hour = ?d * 24 * time_hour - 2 ^ 64"
    using b by (intro wrap64_over) (auto simp: time_hour_def)
  then have "mul64 (?d * 24) time_hour < 0"
    using b by (simp add: time_hour_def)
  then show "newMSubscription fresh clock inp plan = Err ErrTrialEndsBeforeStart"
    by (simp add: newMSubscription_request [OF assms] d)
next
  assume d: "sin_trialDays inp = 213504"
  have "mul64 (mul64 213504 24) time_hour = 1526290448384"
    by (simp add: wrap64_def time_hour_def)
  then show "\<exists>s. newMSubscription fresh clock inp plan = Ok s
      \<and> ms_trialEndsAt s - ms_createdAt s = 1526290448384"
    by (simp add: newMSubscription_request [OF assms] d Let_def)
qed

text \<open>Beyond that bound the duration arithmetic wraps around. Every complete request for
  106752 to 213503 trial days is rejected as a trial that ends before it starts, and one for
  213504 days (584 years) is accepted with a trial of 1526 seconds.\<close>

theorem trial_days_overflow:
  assumes "sub_request_ok inp plan"
  shows "(106752 \<le> sin_trialDays inp \<and> sin_trialDays inp \<le> 213503 \<longrightarrow>
           newMSubscription fresh clock inp plan = Err ErrTrialEndsBeforeStart)
    \<and> (sin_trialDays inp = 213504 \<longrightarrow>
         (\<exists>s. newMSubscription fresh clock inp plan = Ok s
            \<and> ms_trialEndsAt s - ms_createdAt s = 1526290448384))"
  using trial_days_overflow_parts [OF assms] by blast

theorem trial_days_overflow_witness:
  "newMSubscription 1 0 (sample_sub_input 110000) sample_plan = Err ErrTrialEndsBeforeStart"
proof -
  have "trim_space ''acme'' = ''acme''" by code_simp
  then have "sub_request_ok (sample_sub_input 110000) sample_plan"
    by (simp add: sub_request_ok_def sample_sub_input_def sample_plan_def uuid_nil_def)
  from trial_days_overflow [OF this, of 1 0] show ?thesis by (simp add: sample_sub_input_def)
qed

lemma plan_cycle_not_normalised_parts:
  assumes "newMembershipPlan fresh now inp = Ok p"
  shows "0 < cycle_duration (pl_billingCycle p) \<longleftrightarrow> pli_billingCycle inp \<in> set billingCycles"
    and "pli_billingCycle inp \<notin> set billingCycles \<Longrightarrow>
         msub_apply clock s TransitionActivate p t = Ok s' \<Longrightarrow>
         ms_currentPeriodEnd s' = ms_currentPeriodStart s'"
proof -
  have p: "pl_billingCycle p = pli_billingCycle inp"
    using assms by (auto simp: newMembershipPlan_def Let_def split: if_splits sum.splits)
  then show "0 < cycle_duration (pl_billingCycle p) \<longleftrightarrow> pli_billingCycle inp \<in> set billingCycles"
    by (simp add: cycle_duration_pos_iff)
  assume "pli_billingCycle inp \<notin> set billingCycles" "msub_apply clock s TransitionActivate p t = Ok s'"
  moreover from this(1) have "cycle_duration (pl_billingCycle p) = 0"
    using p by (simp add: cycle_duration_def billingCycles_def)
  ultimately show "ms_currentPeriodEnd s' = ms_currentPeriodStart s'"
    by (auto simp: msub_apply_Ok)
qed

text \<open>A plan keeps the billing cycle as it was spelled, although it was checked in its
  normal form: the plan accepted for the cycle "Monthly" has a period of length zero. An accepted plan
  bills for a positive period exactly when the cycle was given in canonical spelling;
  otherwise activating a subscription on it starts a period that is already over.\<close>

theorem plan_cycle_not_normalised:
  assumes "newMembershipPlan fresh now inp = Ok p"
  shows "(0 < cycle_duration (pl_billingCycle p) \<longleftrightarrow> pli_billingCycle inp \<in> set billingCycles)
    \<and> (pli_billingCycle inp \<notin> set billingCycles \<and> msub_apply clock s TransitionActivate p t = Ok s' \<longrightarrow>
       ms_currentPeriodEnd s' = ms_currentPeriodStart s')"
  using plan_cycle_not_normalised_parts [OF assms] by blast

definition capital_plan_input :: plan_input where
  "capital_plan_input = \<lparr>pli_tenantID = ''acme'', pli_name = ''Gold'', pli_description = [],
     pli_billingCycle = ''Monthly'', pli_price = \<lparr>amount = 900, currency = ''AUD''\<rparr>,
     pli_benefits = [], pli_stripePriceID = []\<rparr>"

theorem plan_cycle_not_normalised_witness:
  "\<exists>p. newMembershipPlan 1 0 capital_plan_input = Ok p \<and> \<not> 0 < cycle_duration (pl_billingCycle p)"
proof -
  have "is_ok (newMembershipPlan 1 0 capital_plan_input)" by code_simp
  then obtain p where p: "newMembershipPlan 1 0 capital_plan_input = Ok p"
    by (auto simp: is_ok_iff)
  from plan_cycle_not_normalised [OF p, THEN conjunct1] p show ?thesis
    by (auto simp: capital_plan_input_def billingCycles_def)
qed

end
