(* ===== verification/Digital.thy ===== *)
theory Digital
  imports Lifecycle
begin

text \<open>
  The digital goods bounded context, \<open>internal/domain/digital\<close>: access grants
  (\<open>access_grant.go\<close>), products (\<open>digital_product.go\<close>), download tokens
  (\<open>download_token.go\<close>), licences and their state machine (\<open>license.go\<close>, \<open>state.go\<close>)
  and licence keys (\<open>license_key.go\<close>). HMAC-SHA256 is the argument \<open>mac\<close> (secret,
  message), of which the code relies only on the length of the digest; base32 is written
  out. The random source of the key generator is its result: an error, or the filled buffer.
\<close>

datatype digital_error =
    ErrTenantRequired | ErrSKURequired | ErrNameRequired | ErrFilePathRequired
  | ErrInvalidFileSize | ErrInvalidVersion | ErrLicenseRevoked | ErrLicenseExpired
  | ErrInvalidLicense | ErrTokenExpired | ErrMaxUsesExceeded | ErrInvalidLicenseKey
  | ErrTenantMismatch | ErrInvalidSource | ErrCustomerRequired | ErrProductRequired
  | ErrLicenseKeyRequired | ErrAccessGrantSourceRequired | ErrAccessGrantLicenceRequired
  | ErrMaxActivationsNegative | ErrExpiresBeforeIssued | ErrTokenLicenceRequired
  | ErrDownloadSignatureRequired | ErrDownloadInvalidExpiry | ErrDownloadInvalidUsesAllowed
  | ErrInvalidState | ErrInvalidTransition | ErrInvalidTransitionName
  | ErrSecretTooShort | ErrKeyEntropy | ErrKeyUnderflow

subsection \<open>Access grants\<close>

type_synonym grant_source = string

definition sourcePurchase :: grant_source where "sourcePurchase = ''purchase''"
definition sourceGift :: grant_source where "sourceGift = ''gift''"
definition sourceAdmin :: grant_source where "sourceAdmin = ''admin''"

definition parseSource :: "string \<Rightarrow> digital_error + grant_source" where
  "parseSource v =
     (if v = sourcePurchase \<or> v = sourceGift \<or> v = sourceAdmin then Ok v else Err ErrInvalidSource)"

record access_grant_input =
  agi_tenantID :: string
  agi_customerID :: uuid
  agi_productID :: uuid
  agi_licenseID :: uuid
  agi_source :: grant_source
  agi_now :: gotime

record access_grant =
  ag_id :: uuid
  ag_tenantID :: string
  ag_customerID :: uuid
  ag_productID :: uuid
  ag_licenseID :: uuid
  ag_grantedAt :: gotime
  ag_source :: grant_source

definition newAccessGrant :: "uuid \<Rightarrow> gotime \<Rightarrow> access_grant_input \<Rightarrow> digital_error + access_grant" where
  "newAccessGrant fresh clock inp =
     (let tenantID = trim_space (agi_tenantID inp) in
      if tenantID = [] then Err ErrTenantRequired
      else if agi_customerID inp = uuid_nil then Err ErrCustomerRequired
      else if agi_productID inp = uuid_nil then Err ErrProductRequired
      else if agi_licenseID inp = uuid_nil then Err ErrAccessGrantLicenceRequired
      else if agi_source inp = [] then Err ErrAccessGrantSourceRequired
      else case parseSource (agi_source inp) of
        Err e \<Rightarrow> Err e
      | Ok _ \<Rightarrow>
          Ok \<lparr>ag_id = fresh, ag_tenantID = tenantID, ag_customerID = agi_customerID inp,
              ag_productID = agi_productID inp, ag_licenseID = agi_licenseID inp,
              ag_grantedAt = or_now clock (agi_now inp), ag_source = agi_source inp\<rparr>)"

subsection \<open>Products\<close>

record digital_product_input =
  dpi_tenantID :: string
  dpi_sku :: string
  dpi_name :: string
  dpi_description :: string
  dpi_filePath :: string
  dpi_fileSize :: int
  dpi_contentType :: string
  dpi_checksum :: string
  dpi_version :: string
  dpi_now :: gotime

record digital_product =
  dp_id :: uuid
  dp_tenantID :: string
  dp_sku :: string
  dp_name :: string
  dp_description :: string
  dp_filePath :: string
  dp_fileSize :: int
  dp_contentType :: string
  dp_checksum :: string
  dp_version :: string
  dp_createdAt :: gotime
  dp_updatedAt :: gotime

definition newDigitalProduct ::
  "uuid \<Rightarrow> gotime \<Rightarrow> digital_product_input \<Rightarrow> digital_error + digital_product" where
  "newDigitalProduct fresh clock inp =
     (let tenantID = trim_space (dpi_tenantID inp) in
      if tenantID = [] then Err ErrTenantRequired
      else let sku = trim_space (dpi_sku inp) in
      if sku = [] then Err ErrSKURequired
      else let name = trim_space (dpi_name inp) in
      if name = [] then Err ErrNameRequired
      else let filePath = trim_space (dpi_filePath inp) in
      if filePath = [] then Err ErrFilePathRequired
      else if dpi_fileSize inp \<le> 0 then Err ErrInvalidFileSize
      else let version = trim_space (dpi_version inp) in
      if version = [] then Err ErrInvalidVersion
      else let now = or_now clock (dpi_now inp) in
        Ok \<lparr>dp_id = fresh, dp_tenantID = tenantID, dp_sku = sku, dp_name = name,
            dp_description = trim_space (dpi_description inp), dp_filePath = filePath,
            dp_fileSize = dpi_fileSize inp, dp_contentType = trim_space (dpi_contentType inp),
            dp_checksum = trim_space (dpi_checksum inp), dp_version = version,
            dp_createdAt = now, dp_updatedAt = now\<rparr>)"

text \<open>\<open>if v := strings.TrimSpace(new); v != "" { field = v }\<close>\<close>
definition keep_unless_blank :: "string \<Rightarrow> string \<Rightarrow> string" where
  "keep_unless_blank new old = (let v = trim_space new in if v \<noteq> [] then v else old)"

definition dp_update ::
  "gotime \<Rightarrow> digital_product \<Rightarrow> digital_product_input \<Rightarrow> gotime \<Rightarrow> digital_product" where
  "dp_update clock p inp now =
     p\<lparr>dp_name := keep_unless_blank (dpi_name inp) (dp_name p),
       dp_description := keep_unless_blank (dpi_description inp) (dp_description p),
       dp_filePath := keep_unless_blank (dpi_filePath inp) (dp_filePath p),
       dp_fileSize := (if 0 < dpi_fileSize inp then dpi_fileSize inp else dp_fileSize p),
       dp_contentType := keep_unless_blank (dpi_contentType inp) (dp_contentType p),
       dp_checksum := keep_unless_blank (dpi_checksum inp) (dp_checksum p),
       dp_version := keep_unless_blank (dpi_version inp) (dp_version p),
       dp_updatedAt := or_now clock now\<rparr>"

subsection \<open>Download tokens\<close>

record download_token_input =
  dti_tenantID :: string
  dti_licenseID :: uuid
  dti_signature :: string
  dti_expiresAt :: gotime
  dti_usesAllowed :: int
  dti_now :: gotime

record download_token =
  dt_id :: uuid
  dt_tenantID :: string
  dt_licenseID :: uuid
  dt_signature :: string
  dt_expiresAt :: gotime
  dt_usesAllowed :: int
  dt_usesSoFar :: int
  dt_createdAt :: gotime
  dt_lastIssuedAt :: gotime

definition newDownloadToken ::
  "uuid \<Rightarrow> gotime \<Rightarrow> download_token_input \<Rightarrow> digital_error + download_token" where
  "newDownloadToken fresh clock inp =
     (let tenantID = trim_space (dti_tenantID inp) in
      if tenantID = [] then Err ErrTenantRequired
      else if dti_licenseID inp = uuid_nil then Err ErrTokenLicenceRequired
      else let signature = trim_space (dti_signature inp) in
      if signature = [] then Err ErrDownloadSignatureRequired
      else let now = or_now clock (dti_now inp); expiresAt = dti_expiresAt inp in
      if time_is_zero expiresAt \<or> \<not> now < expiresAt then Err ErrDownloadInvalidExpiry
      else if dti_usesAllowed inp \<le> 0 then Err ErrDownloadInvalidUsesAllowed
      else Ok \<lparr>dt_id = fresh, dt_tenantID = tenantID, dt_licenseID = dti_licenseID inp,
               dt_signature = signature, dt_expiresAt = expiresAt,
               dt_usesAllowed = dti_usesAllowed inp, dt_usesSoFar = 0,
               dt_createdAt = now, dt_lastIssuedAt = now\<rparr>)"

definition checkUsable :: "download_token \<Rightarrow> gotime \<Rightarrow> digital_error + unit" where
  "checkUsable t now =
     (if \<not> now < dt_expiresAt t then Err ErrTokenExpired
      else if dt_usesAllowed t \<le> dt_usesSoFar t then Err ErrMaxUsesExceeded
      else Ok ())"

definition markUsed :: "gotime \<Rightarrow> download_token \<Rightarrow> gotime \<Rightarrow> digital_error + download_token" where
  "markUsed clock t now =
     (case checkUsable t now of
        Err e \<Rightarrow> Err e
      | Ok _ \<Rightarrow> Ok (t\<lparr>dt_usesSoFar := add64 (dt_usesSoFar t) 1,
                       dt_lastIssuedAt := or_now clock now\<rparr>))"

subsection \<open>The licence state machine\<close>

datatype lstate = StateActive | StateRevoked | StateExpired
datatype ltransition = TransitionRevoke | TransitionExpire

definition licence_table :: "(lstate, ltransition) table" where
  "licence_table =
     [(StateActive, [(TransitionRevoke, StateRevoked), (TransitionExpire, StateExpired)])]"

definition parseLState :: "string \<Rightarrow> digital_error + lstate" where
  "parseLState v =
     (if v = ''active'' then Ok StateActive
      else if v = ''revoked'' then Ok StateRevoked
      else if v = ''expired'' then Ok StateExpired
      else Err ErrInvalidState)"

fun lstate_string :: "lstate \<Rightarrow> string" where
  "lstate_string StateActive = ''active''"
| "lstate_string StateRevoked = ''revoked''"
| "lstate_string StateExpired = ''expired''"

definition lstate_isTerminal :: "lstate \<Rightarrow> bool" where
  "lstate_isTerminal s \<longleftrightarrow> mget licence_table s = None"

definition parseLTransition :: "string \<Rightarrow> digital_error + ltransition" where
  "parseLTransition v =
     (if v = ''revoke'' then Ok TransitionRevoke
      else if v = ''expire'' then Ok TransitionExpire
      else Err ErrInvalidTransitionName)"

definition nextLState :: "lstate \<Rightarrow> ltransition \<Rightarrow> digital_error + lstate" where
  "nextLState s t =
     (case mget licence_table s of
        None \<Rightarrow> Err ErrInvalidTransition
      | Some moves \<Rightarrow>
          (case mget moves t of None \<Rightarrow> Err ErrInvalidTransition | Some d \<Rightarrow> Ok d))"

definition allLTransitions :: "(lstate \<times> ltransition \<times> lstate) list" where
  "allLTransitions =
     concat (map (\<lambda>(s, moves). map (\<lambda>(t, d). (s, t, d)) moves) licence_table)"

subsection \<open>Licences\<close>

record license_input =
  lin_tenantID :: string
  lin_productID :: uuid
  lin_customerID :: uuid
  lin_key :: string
  lin_maxActivations :: int
  lin_expiresAt :: gotime
  lin_now :: gotime

record license =
  lic_id :: uuid
  lic_tenantID :: string
  lic_productID :: uuid
  lic_customerID :: uuid
  lic_key :: string
  lic_state :: lstate
  lic_issuedAt :: gotime
  lic_expiresAt :: gotime
  lic_maxActivations :: int
  lic_updatedAt :: gotime

definition newLicense :: "uuid \<Rightarrow> gotime \<Rightarrow> license_input \<Rightarrow> digital_error + license" where
  "newLicense fresh clock inp =
     (let tenantID = trim_space (lin_tenantID inp) in
      if tenantID = [] then Err ErrTenantRequired
      else if lin_productID inp = uuid_nil then Err ErrProductRequired
      else if lin_customerID inp = uuid_nil then Err ErrCustomerRequired
      else let key = trim_space (lin_key inp) in
      if key = [] then Err ErrLicenseKeyRequired
      else if lin_maxActivations inp < 0 then Err ErrMaxActivationsNegative
      else let now = or_now clock (lin_now inp); expiresAt = lin_expiresAt inp in
      if \<not> time_is_zero expiresAt \<and> \<not> now < expiresAt then Err ErrExpiresBeforeIssued
      else Ok \<lparr>lic_id = fresh, lic_tenantID = tenantID, lic_productID = lin_productID inp,
               lic_customerID = lin_customerID inp, lic_key = key, lic_state = StateActive,
               lic_issuedAt = now, lic_expiresAt = expiresAt,
               lic_maxActivations = lin_maxActivations inp, lic_updatedAt = now\<rparr>)"

definition license_apply :: "gotime \<Rightarrow> license \<Rightarrow> ltransition \<Rightarrow> gotime \<Rightarrow> digital_error + license" where
  "license_apply clock l t now =
     (case nextLState (lic_state l) t of
        Err e \<Rightarrow> Err e
      | Ok target \<Rightarrow> Ok (l\<lparr>lic_state := target, lic_updatedAt := or_now clock now\<rparr>))"

definition checkActive :: "license \<Rightarrow> gotime \<Rightarrow> digital_error + unit" where
  "checkActive l now =
     (case lic_state l of
        StateRevoked \<Rightarrow> Err ErrLicenseRevoked
      | StateExpired \<Rightarrow> Err ErrLicenseExpired
      | StateActive \<Rightarrow>
          if \<not> time_is_zero (lic_expiresAt l) \<and> \<not> now < lic_expiresAt l then Err ErrLicenseExpired
          else Ok ())"

subsection \<open>Base32\<close>

definition byte_bits :: "char \<Rightarrow> bool list" where
  "byte_bits c = map (\<lambda>i. odd ((of_char c :: nat) div 2 ^ i)) [7, 6, 5, 4, 3, 2, 1, 0]"

fun bits_value :: "bool list \<Rightarrow> nat" where
  "bits_value [] = 0"
| "bits_value (b # bs) = (if b then 2 ^ length bs else 0) + bits_value bs"

definition base32_alphabet :: string where
  "base32_alphabet = ''ABCDEFGHIJKLMNOPQRSTUVWXYZ234567''"

definition base32_char :: "bool list \<Rightarrow> char" where
  "base32_char bs = base32_alphabet ! bits_value (take 5 (bs @ replicate 4 False))"

text \<open>\<open>base32.StdEncoding.WithPadding(NoPadding)\<close>: groups of five bits, the last filled with zeros.\<close>

fun base32_bits :: "bool list \<Rightarrow> string" where
  "base32_bits [] = []"
| "base32_bits (b # bs) = base32_char (take 5 (b # bs)) # base32_bits (drop 4 bs)"

definition base32_encode :: "string \<Rightarrow> string" where
  "base32_encode s = base32_bits (concat (map byte_bits s))"

subsection \<open>Licence keys\<close>

definition licenseKeyParts :: nat where "licenseKeyParts = 5"
definition licenseKeyGroupSize :: nat where "licenseKeyGroupSize = 5"
definition licenseKeyChecksumSize :: nat where "licenseKeyChecksumSize = 8"

type_synonym mac = "string \<Rightarrow> string \<Rightarrow> string"

text \<open>The generator holds the secret; \<open>NewHMACLicenseKeyGenerator\<close> rejects a short one.\<close>

definition newHMACLicenseKeyGenerator :: "string \<Rightarrow> digital_error + string" where
  "newHMACLicenseKeyGenerator secret =
     (if length secret < 32 then Err ErrSecretTooShort else Ok secret)"

definition key_checksum :: "mac \<Rightarrow> string \<Rightarrow> string \<Rightarrow> string \<Rightarrow> string" where
  "key_checksum mac secret tenantID payload =
     (let encoded = base32_encode (mac secret (tenantID @ CHR 0x1f # payload)) in
      if length encoded < licenseKeyChecksumSize then encoded
      else take licenseKeyChecksumSize encoded)"

fun key_groups :: "nat \<Rightarrow> string \<Rightarrow> string list" where
  "key_groups 0 s = []"
| "key_groups (Suc n) s = take licenseKeyGroupSize s # key_groups n (drop licenseKeyGroupSize s)"

text \<open>
  \<open>rnd n\<close> is what the random source leaves in a buffer of \<open>n\<close> bytes, or None when it fails.
\<close>

definition key_generate ::
  "mac \<Rightarrow> string \<Rightarrow> (nat \<Rightarrow> string option) \<Rightarrow> string \<Rightarrow> digital_error + string" where
  "key_generate mac secret rnd tenantID =
     (if trim_space tenantID = [] then Err ErrTenantRequired
      else let groups = licenseKeyParts - 1; need = groups * licenseKeyGroupSize in
      case rnd need of
        None \<Rightarrow> Err ErrKeyEntropy
      | Some rawBytes \<Rightarrow>
          let encoded = base32_encode rawBytes in
          if length encoded < need then Err ErrKeyUnderflow
          else let parts = key_groups groups (take need encoded);
                   payload = join_with ''-'' parts;
                   checksum = key_checksum mac secret tenantID payload
               in Ok (join_with ''-'' (parts @ [checksum])))"

definition key_validate :: "mac \<Rightarrow> string \<Rightarrow> string \<Rightarrow> string \<Rightarrow> digital_error + unit" where
  "key_validate mac secret tenant key =
     (let tenantID = trim_space tenant in
      if tenantID = [] then Err ErrTenantRequired
      else let parts = split_on (CHR ''-'') (trim_space key) in
      if length parts \<noteq> licenseKeyParts then Err ErrInvalidLicenseKey
      else if \<exists>p \<in> set (take (licenseKeyParts - 1) parts). length p \<noteq> licenseKeyGroupSize
      then Err ErrInvalidLicenseKey
      else if length (parts ! (licenseKeyParts - 1)) \<noteq> licenseKeyChecksumSize
      then Err ErrInvalidLicenseKey
      else let payload = join_with ''-'' (take (licenseKeyParts - 1) parts);
               got = parts ! (licenseKeyParts - 1);
               want = key_checksum mac secret tenantID payload
           in if got \<noteq> want then Err ErrInvalidLicense else Ok ())"

subsection \<open>Properties of licence keys\<close>

lemma bits_value_bound: "bits_value bs < 2 ^ length bs"
  by (induction bs) auto

lemma base32_char_in: "base32_char bs \<in> set base32_alphabet"
proof -
  have "bits_value (take 5 (bs @ replicate 4 False)) < 2 ^ length (take 5 (bs @ replicate 4 False))"
    by (rule bits_value_bound)
  also have "\<dots> \<le> (2 :: nat) ^ 5" by (intro power_increasing) auto
  also have "\<dots> = length base32_alphabet" by (simp add: base32_alphabet_def)
  finally show ?thesis by (simp add: base32_char_def)
qed

lemma base32_bits_set: "set (base32_bits bs) \<subseteq> set base32_alphabet"
  by (induction bs rule: base32_bits.induct) (auto simp: base32_char_in)

lemma base32_bits_length: "length (base32_bits bs) = (length bs + 4) div 5"
proof (induction bs rule: base32_bits.induct)
  case (2 b bs)
  then show ?case by (cases "4 \<le> length bs") (simp_all add: div_if [of "Suc (length bs + 4)"] le_div_geq)
qed simp

lemma base32_encode_set: "set (base32_encode s) \<subseteq> set base32_alphabet"
  by (simp add: base32_encode_def base32_bits_set)

lemma base32_encode_length: "length (base32_encode s) = (8 * length s + 4) div 5"
  by (simp add: base32_encode_def base32_bits_length length_concat byte_bits_def comp_def
        sum_list_triv mult.commute)

lemma alphabet_printable: "set s \<subseteq> insert (CHR ''-'') (set base32_alphabet) \<Longrightarrow> printable s"
proof -
  have "list_all (\<lambda>c. 33 \<le> (of_char c :: nat) \<and> (of_char c :: nat) < 127) (CHR ''-'' # base32_alphabet)"
    by code_simp
  then show "set s \<subseteq> insert (CHR ''-'') (set base32_alphabet) \<Longrightarrow> printable s"
    by (auto simp: printable_def list_all_iff)
qed

lemma alphabet_no_dash: "CHR ''-'' \<notin> set base32_alphabet"
  by (simp add: base32_alphabet_def)

lemma key_groups_props:
  "n * licenseKeyGroupSize \<le> length s \<Longrightarrow>
     length (key_groups n s) = n \<and> (\<forall>p \<in> set (key_groups n s). length p = licenseKeyGroupSize \<and> set p \<subseteq> set s)"
proof (induction n arbitrary: s)
  case (Suc n)
  let ?d = "drop licenseKeyGroupSize s"
  have "length (key_groups n ?d) = n
      \<and> (\<forall>p \<in> set (key_groups n ?d). length p = licenseKeyGroupSize \<and> set p \<subseteq> set ?d)"
    using Suc.prems by (intro Suc.IH) simp
  moreover have "set ?d \<subseteq> set s" "set (take licenseKeyGroupSize s) \<subseteq> set s"
    by (rule set_drop_subset, rule set_take_subset)
  ultimately show ?case using Suc.prems by auto
qed simp

lemma join_with_set: "set (join_with [c] ws) \<subseteq> insert c (\<Union> (set ` set ws))"
  by (induction "[c]" ws rule: join_with.induct) auto

lemma key_checksum_props:
  assumes "\<forall>k m. length (mac k m) = 32"
  shows "length (key_checksum mac secret t p) = licenseKeyChecksumSize"
    and "set (key_checksum mac secret t p) \<subseteq> set base32_alphabet"
proof -
  show "length (key_checksum mac secret t p) = licenseKeyChecksumSize"
    using assms by (simp add: key_checksum_def Let_def base32_encode_length licenseKeyChecksumSize_def)
  show "set (key_checksum mac secret t p) \<subseteq> set base32_alphabet"
    using base32_encode_set by (auto simp: key_checksum_def Let_def dest: in_set_takeD)
qed

lemma key_generate_parts:
  assumes "key_generate mac secret rnd tenantID = Ok key"
  obtains parts where "length parts = 4"
    "\<forall>p \<in> set parts. length p = licenseKeyGroupSize \<and> set p \<subseteq> set base32_alphabet"
    "key = join_with ''-'' (parts @ [key_checksum mac secret tenantID (join_with ''-'' parts)])"
proof -
  from assms obtain raw where raw: "rnd 20 = Some raw" "20 \<le> length (base32_encode raw)"
    and key: "key = (let parts = key_groups 4 (take 20 (base32_encode raw)) in
       join_with ''-'' (parts @ [key_checksum mac secret tenantID (join_with ''-'' parts)]))"
    by (auto simp: key_generate_def Let_def licenseKeyParts_def licenseKeyGroupSize_def
             split: if_splits option.splits)
  let ?parts = "key_groups 4 (take 20 (base32_encode raw))"
  have "length ?parts = 4 \<and>
      (\<forall>p \<in> set ?parts. length p = licenseKeyGroupSize \<and> set p \<subseteq> set (take 20 (base32_encode raw)))"
    using raw by (intro key_groups_props) (simp add: licenseKeyGroupSize_def)
  moreover have "set (take 20 (base32_encode raw)) \<subseteq> set base32_alphabet"
    using base32_encode_set by (auto dest: in_set_takeD)
  ultimately show thesis using key that [of ?parts] by (fastforce simp: Let_def)
qed

lemma key_validate_generated:
  assumes mac: "\<forall>k m. length (mac k m) = 32"
    and gen: "key_generate mac secret rnd tenantID = Ok key"
  obtains payload where
    "\<And>tenant. trim_space tenant \<noteq> [] \<Longrightarrow>
       key_validate mac secret tenant key =
         (if key_checksum mac secret tenantID payload \<noteq> key_checksum mac secret (trim_space tenant) payload
          then Err ErrInvalidLicense else Ok ())"
proof -
  from key_generate_parts [OF gen] obtain parts where p: "length parts = 4"
    "\<forall>p \<in> set parts. length p = licenseKeyGroupSize \<and> set p \<subseteq> set base32_alphabet"
    and key: "key = join_with ''-'' (parts @ [key_checksum mac secret tenantID (join_with ''-'' parts)])"
    by blast
  let ?cs = "key_checksum mac secret tenantID (join_with ''-'' parts)"
  note cs = key_checksum_props [OF mac, of secret tenantID "join_with ''-'' parts"]
  have "set key \<subseteq> insert (CHR ''-'') (set base32_alphabet)"
    unfolding key by (rule subset_trans [OF join_with_set]) (use p(2) cs(2) in auto)
  then have trim: "trim_space key = key" by (intro trim_space_printable alphabet_printable)
  have "split_on (CHR ''-'') key = parts @ [?cs]"
    unfolding key using p(2) cs(2) alphabet_no_dash by (intro split_join) auto
  then have "key_validate mac secret tenant key =
      (if ?cs \<noteq> key_checksum mac secret (trim_space tenant) (join_with ''-'' parts)
       then Err ErrInvalidLicense else Ok ())" if "trim_space tenant \<noteq> []" for tenant
    using that p cs(1)
    by (simp add: key_validate_def Let_def trim licenseKeyParts_def nth_append del: split_on.simps)
  then show thesis using that by blast
qed

text \<open>Licence keys round-trip. Every key the generator mints for a tenant whose id has no
  surrounding white space is accepted for that tenant, whatever the secret, the random bytes
  and the keyed hash (of 32-byte digests).\<close>

theorem licence_key_roundtrip:
  assumes "\<forall>k m. length (mac k m) = 32"
    and "key_generate mac secret rnd tenantID = Ok key"
    and "trim_space tenantID = tenantID"
  shows "key_validate mac secret tenantID key = Ok ()"
proof -
  have "tenantID \<noteq> []" using assms(2) by (auto simp: key_generate_def)
  with key_validate_generated [OF assms(1,2)] assms(3) show ?thesis by metis
qed

text \<open>A stand-in for the keyed hash in the examples: 32 bytes that start with the message.\<close>

definition sample_mac :: mac where
  "sample_mac k m = take 32 (m @ k @ replicate 32 (CHR ''x''))"

lemma sample_mac_length: "\<forall>k m. length (sample_mac k m) = 32"
  by (auto simp: sample_mac_def min_def)

theorem licence_key_roundtrip_witness:
  "\<exists>key. key_generate sample_mac ''s'' (\<lambda>n. Some (replicate n (CHR ''r''))) ''acme'' = Ok key
     \<and> key_validate sample_mac ''s'' ''acme'' key = Ok ()"
proof -
  have "is_ok (key_generate sample_mac ''s'' (\<lambda>n. Some (replicate n (CHR ''r''))) ''acme'')"
    by code_simp
  then obtain key where
    key: "key_generate sample_mac ''s'' (\<lambda>n. Some (replicate n (CHR ''r''))) ''acme'' = Ok key"
    by (auto simp: is_ok_iff)
  have "trim_space ''acme'' = ''acme''" by code_simp
  from licence_key_roundtrip [OF sample_mac_length key this] key show ?thesis by blast
qed

text \<open>Validation trims the tenant id and generation does not. A key is accepted for a
  (non-blank) tenant exactly when the checksum made from the id the key was generated with
  equals the one made from the trimmed id it is checked with; so a key minted for an id with
  surrounding white space is refused for that same id unless the two checksums collide, and
  a key minted for one tenant is refused for another unless they collide.\<close>

theorem licence_key_accepted_iff:
  assumes "\<forall>k m. length (mac k m) = 32"
    and "key_generate mac secret rnd tenantID = Ok key"
  shows "\<exists>payload. \<forall>tenant. trim_space tenant \<noteq> [] \<longrightarrow>
           (key_validate mac secret tenant key = Ok () \<longleftrightarrow>
            key_checksum mac secret tenantID payload = key_checksum mac secret (trim_space tenant) payload)"
  using key_validate_generated [OF assms] by (metis sum.distinct(1))

lemma padded_tenant_key:
  "case key_generate sample_mac ''s'' (\<lambda>n. Some (replicate n (CHR ''r''))) '' acme'' of
     Err _ \<Rightarrow> False
   | Ok key \<Rightarrow> key_validate sample_mac ''s'' '' acme'' key = Err ErrInvalidLicense"
  by code_simp

theorem licence_key_accepted_iff_witness:
  "\<exists>key payload. key_generate sample_mac ''s'' (\<lambda>n. Some (replicate n (CHR ''r''))) '' acme'' = Ok key
     \<and> key_validate sample_mac ''s'' '' acme'' key = Err ErrInvalidLicense
     \<and> key_checksum sample_mac ''s'' '' acme'' payload \<noteq> key_checksum sample_mac ''s'' ''acme'' payload"
proof -
  obtain key where
    key: "key_generate sample_mac ''s'' (\<lambda>n. Some (replicate n (CHR ''r''))) '' acme'' = Ok key"
      "key_validate sample_mac ''s'' '' acme'' key = Err ErrInvalidLicense"
    using padded_tenant_key by (auto split: sum.splits)
  have t: "trim_space '' acme'' = ''acme''" by code_simp
  from licence_key_accepted_iff [OF sample_mac_length key(1)] obtain payload where
    "\<forall>tenant. trim_space tenant \<noteq> [] \<longrightarrow>
       (key_validate sample_mac ''s'' tenant key = Ok () \<longleftrightarrow>
        key_checksum sample_mac ''s'' '' acme'' payload
          = key_checksum sample_mac ''s'' (trim_space tenant) payload)" by blast
  then have "key_validate sample_mac ''s'' '' acme'' key = Ok () \<longleftrightarrow>
      key_checksum sample_mac ''s'' '' acme'' payload = key_checksum sample_mac ''s'' ''acme'' payload"
    using t by (metis list.discI)
  with key show ?thesis by auto
qed

subsection \<open>Properties of download tokens\<close>

text \<open>
  A token handed back at the given times: each attempt either succeeds and uses the token
  once, or fails and leaves it as it was. The booleans say which attempts succeeded.
\<close>

fun redeem_all :: "gotime \<Rightarrow> download_token \<Rightarrow> gotime list \<Rightarrow> download_token \<times> bool list" where
  "redeem_all clock t [] = (t, [])"
| "redeem_all clock t (now # rest) =
     (case markUsed clock t now of
        Err _ \<Rightarrow> (let (t', rs) = redeem_all clock t rest in (t', False # rs))
      | Ok t1 \<Rightarrow> (let (t', rs) = redeem_all clock t1 rest in (t', True # rs)))"

lemma checkUsable_Ok [go_ok]:
  "checkUsable t now = Ok u \<longleftrightarrow> now < dt_expiresAt t \<and> dt_usesSoFar t < dt_usesAllowed t"
  by (auto simp: checkUsable_def)

lemma markUsed_Ok:
  "markUsed clock t now = Ok t' \<longleftrightarrow>
     now < dt_expiresAt t \<and> dt_usesSoFar t < dt_usesAllowed t
     \<and> t' = t\<lparr>dt_usesSoFar := add64 (dt_usesSoFar t) 1, dt_lastIssuedAt := or_now clock now\<rparr>"
  unfolding markUsed_def case_err_ok checkUsable_Ok by auto

lemma redeem_all_count:
  assumes "0 \<le> dt_usesSoFar t" "dt_usesSoFar t \<le> dt_usesAllowed t" "dt_usesAllowed t \<le> max_int64"
  shows "length (filter id (snd (redeem_all clock t ts)))
           = min (length (filter (\<lambda>n. n < dt_expiresAt t) ts)) (nat (dt_usesAllowed t - dt_usesSoFar t))"
  using assms
proof (induction clock t ts rule: redeem_all.induct)
  case (2 clock t now rest)
  show ?case
  proof (cases "markUsed clock t now")
    case (Inl e)
    then have "\<not> (now < dt_expiresAt t \<and> dt_usesSoFar t < dt_usesAllowed t)"
      using markUsed_Ok [of clock t now] by auto
    with "2.IH"(1) [OF Inl] "2.prems" Inl show ?thesis
      by (cases "now < dt_expiresAt t") (auto split: prod.splits)
  next
    case (Inr t1)
    then have t1: "now < dt_expiresAt t" "dt_usesSoFar t < dt_usesAllowed t"
      "dt_usesSoFar t1 = dt_usesSoFar t + 1" "dt_usesAllowed t1 = dt_usesAllowed t"
      "dt_expiresAt t1 = dt_expiresAt t"
      using "2.prems" by (auto simp: markUsed_Ok wrap64_of_nonneg)
    with "2.IH"(2) [OF Inr] "2.prems" Inr show ?thesis
      by (auto split: prod.splits)
  qed
qed simp

text \<open>A download token is worth exactly the downloads it was issued for. However often and
  in whatever order it is handed back, the number of successful redemptions is the smaller of
  the allowance and the number of attempts made before it expired.\<close>

theorem download_token_uses_exact:
  assumes "newDownloadToken fresh clock inp = Ok t" and "dti_usesAllowed inp \<le> max_int64"
  shows "length (filter id (snd (redeem_all clock t ts)))
           = min (length (filter (\<lambda>n. n < dti_expiresAt inp) ts)) (nat (dti_usesAllowed inp))"
proof -
  from assms(1) have "dt_usesSoFar t = 0" "dt_usesAllowed t = dti_usesAllowed inp"
    "dt_expiresAt t = dti_expiresAt inp" "0 < dti_usesAllowed inp"
    by (auto simp: newDownloadToken_def Let_def split: if_splits)
  with redeem_all_count [of t clock ts] assms(2) show ?thesis by simp
qed

definition sample_token_input :: download_token_input where
  "sample_token_input = \<lparr>dti_tenantID = ''acme'', dti_licenseID = 4, dti_signature = ''sig'',
     dti_expiresAt = 100, dti_usesAllowed = 2, dti_now = 10\<rparr>"

theorem download_token_uses_exact_witness:
  "\<exists>t. newDownloadToken 1 0 sample_token_input = Ok t
     \<and> length (filter id (snd (redeem_all 0 t [20, 120, 30, 40]))) = 2"
proof -
  have "is_ok (newDownloadToken 1 0 sample_token_input)" by code_simp
  then obtain t where t: "newDownloadToken 1 0 sample_token_input = Ok t" by (auto simp: is_ok_iff)
  have "dti_usesAllowed sample_token_input \<le> max_int64" by (simp add: sample_token_input_def)
  from download_token_uses_exact [OF t this, of "[20, 120, 30, 40]"] t show ?thesis
    by (auto simp: sample_token_input_def)
qed

subsection \<open>Properties of licences\<close>

lemma licence_table_wf: "table_wf licence_table"
  by (simp add: table_wf_def licence_table_def mwf_def mvalues_def)

definition lstep :: "lstate \<Rightarrow> ltransition \<Rightarrow> lstate option" where
  "lstep = table_next licence_table"

lemma nextLState_Ok [go_ok]: "nextLState s t = Ok d \<longleftrightarrow> lstep s t = Some d"
  by (auto simp: nextLState_def lstep_def table_next_def split: option.splits)

lemma lstep_cases: "lstep s t = Some d \<Longrightarrow> s = StateActive \<and> d \<noteq> StateActive"
  by (cases s; cases t) (auto simp: lstep_def table_next_def licence_table_def mget_def)

interpretation dl: abandonable lstep lstate_isTerminal TransitionRevoke
proof
  show "lstate_isTerminal s \<longleftrightarrow> (\<forall>t. lstep s t = None)" for s
    using table_terminal_iff [OF licence_table_wf] by (simp add: lstate_isTerminal_def lstep_def)
  show "\<not> lstate_isTerminal s \<Longrightarrow> \<exists>d. lstep s TransitionRevoke = Some d \<and> lstate_isTerminal d" for s
    by (cases s) (simp_all add: lstate_isTerminal_def lstep_def table_next_def licence_table_def mget_def)
qed

interpretation dla: acyclic lstep lstate_isTerminal "\<lambda>s. if s = StateActive then 0 else 1"
  by unfold_locales (auto dest: lstep_cases)

lemma license_apply_Ok:
  "license_apply clock l t now = Ok l' \<longleftrightarrow>
     (\<exists>d. lstep (lic_state l) t = Some d \<and> l' = l\<lparr>lic_state := d, lic_updatedAt := or_now clock now\<rparr>)"
  unfolding license_apply_def case_err_ok nextLState_Ok by auto

lemma checkActive_Ok:
  "checkActive l now = Ok u \<longleftrightarrow>
     lic_state l = StateActive \<and> (time_is_zero (lic_expiresAt l) \<or> now < lic_expiresAt l)"
  by (auto simp: checkActive_def split: lstate.splits)

fun license_history :: "gotime \<Rightarrow> license \<Rightarrow> (ltransition \<times> gotime) list \<Rightarrow> digital_error + license" where
  "license_history clock l [] = Ok l"
| "license_history clock l ((t, now) # rest) =
     (case license_apply clock l t now of Err e \<Rightarrow> Err e | Ok l' \<Rightarrow> license_history clock l' rest)"

lemma license_history_run:
  "license_history clock l ts = Ok l' \<Longrightarrow>
     run_table lstep (lic_state l) (map fst ts) = Some (lic_state l')
     \<and> lic_expiresAt l' = lic_expiresAt l \<and> lic_key l' = lic_key l"
  by (induction clock l ts rule: license_history.induct)
     (auto simp: license_apply_Ok split: sum.splits)

lemma licence_refusal_is_final_parts:
  assumes "license_history clock l ts = Ok l'"
  shows "checkActive l now \<noteq> Ok () \<Longrightarrow> now \<le> now' \<Longrightarrow> checkActive l' now' \<noteq> Ok ()"
    and "length ts \<le> 1"
proof -
  note run = license_history_run [OF assms]
  have b: "(if lic_state l = StateActive then 0 else 1) + length (map fst ts)
      \<le> (if lic_state l' = StateActive then 0 else (1 :: nat))"
    using dla.run_bounded run by blast
  then show "length ts \<le> 1" by (simp split: if_splits)
  assume "checkActive l now \<noteq> Ok ()" "now \<le> now'"
  with run b show "checkActive l' now' \<noteq> Ok ()"
    by (auto simp: checkActive_Ok split: if_splits)
qed

text \<open>A licence that has been refused is refused for good: if a licence may not be used at
  some time, then at no later time, and after no further accepted transitions, may it be used
  again; and at most one transition is ever accepted.\<close>

theorem licence_refusal_is_final:
  assumes "license_history clock l ts = Ok l'"
  shows "(checkActive l now \<noteq> Ok () \<and> now \<le> now' \<longrightarrow> checkActive l' now' \<noteq> Ok ()) \<and> length ts \<le> 1"
  using licence_refusal_is_final_parts [OF assms] by blast

definition sample_license :: license where
  "sample_license = \<lparr>lic_id = 1, lic_tenantID = ''acme'', lic_productID = 2, lic_customerID = 3,
     lic_key = ''k'', lic_state = StateActive, lic_issuedAt = 0, lic_expiresAt = 50,
     lic_maxActivations = 0, lic_updatedAt = 0\<rparr>"

theorem licence_refusal_is_final_witness:
  "\<exists>l'. license_history 0 sample_license [(TransitionRevoke, 60)] = Ok l'
     \<and> checkActive l' 70 \<noteq> Ok ()"
proof -
  have "is_ok (license_history 0 sample_license [(TransitionRevoke, 60)])" by code_simp
  then obtain l' where l': "license_history 0 sample_license [(TransitionRevoke, 60)] = Ok l'"
    by (auto simp: is_ok_iff)
  have "checkActive sample_license 60 \<noteq> Ok ()"
    by (simp add: checkActive_Ok sample_license_def time_is_zero_def zero_time_def)
  with licence_refusal_is_final [OF l', of 60 70] l' show ?thesis by auto
qed

end
