(* ===== verification/DigitalService.thy ===== *)
theory DigitalService
  imports Digital
begin

text \<open>
  The digital goods service, \<open>internal/digital/service.go\<close>, over its three repository ports
  (\<open>internal/port/digital.go\<close>), and the in-memory repositories of
  \<open>internal/adapter/inmemory/digital_repo.go\<close>. \<open>cx\<close> says whether the context of the call is
  cancelled. \<open>uuid.New()\<close>, \<open>UUID.String()\<close> (\<open>ustr\<close>), the licence key generator and the
  download token issuer are parameters; \<open>now\<close> is the reading of the service's clock, \<open>wall\<close>
  that of \<open>time.Now()\<close>. Repositories store the values themselves: the record types of the
  code and the Reconstruct functions copy field by field. \<open>it\<close> is the order in which a map
  delivers its rows.
\<close>

datatype digital_service_error =
    DomainError digital_error
  | ErrDigitalProductNotFound
  | ErrLicenseNotFound
  | ErrAccessGrantNotFound
  | ErrContext
  | ErrLicenseKey digital_error
  | ErrIssuerNotConfigured
  | ErrIssuer string
  | ErrSliceBounds

subsection \<open>Ports\<close>

record digital_product_list =
  dpl_Products :: "digital_product list"
  dpl_Total :: int

record license_list =
  ll_Licenses :: "license list"
  ll_Total :: int

record grant_list =
  gl_Grants :: "access_grant list"
  gl_Total :: int

record 'p product_port =
  pp_create :: "bool \<Rightarrow> string \<Rightarrow> digital_product \<Rightarrow> 'p \<Rightarrow> 'p \<times> (digital_service_error + unit)"
  pp_update :: "bool \<Rightarrow> string \<Rightarrow> digital_product \<Rightarrow> 'p \<Rightarrow> 'p \<times> (digital_service_error + unit)"
  pp_get :: "bool \<Rightarrow> string \<Rightarrow> uuid \<Rightarrow> 'p \<Rightarrow> digital_service_error + digital_product"
  pp_list :: "bool \<Rightarrow> string \<Rightarrow> int \<Rightarrow> int \<Rightarrow> 'p \<Rightarrow> digital_service_error + digital_product_list"
  pp_delete :: "bool \<Rightarrow> string \<Rightarrow> uuid \<Rightarrow> 'p \<Rightarrow> 'p \<times> (digital_service_error + unit)"

record 'l license_port =
  lp_create :: "bool \<Rightarrow> string \<Rightarrow> license \<Rightarrow> 'l \<Rightarrow> 'l \<times> (digital_service_error + unit)"
  lp_get :: "bool \<Rightarrow> string \<Rightarrow> uuid \<Rightarrow> 'l \<Rightarrow> digital_service_error + license"
  lp_list :: "bool \<Rightarrow> string \<Rightarrow> int \<Rightarrow> int \<Rightarrow> 'l \<Rightarrow> digital_service_error + license_list"
  lp_listByCustomer :: "bool \<Rightarrow> string \<Rightarrow> uuid \<Rightarrow> int \<Rightarrow> int \<Rightarrow> 'l \<Rightarrow> digital_service_error + license_list"
  lp_saveState :: "bool \<Rightarrow> string \<Rightarrow> license \<Rightarrow> 'l \<Rightarrow> 'l \<times> (digital_service_error + unit)"

record 'g grant_port =
  gp_upsert :: "bool \<Rightarrow> string \<Rightarrow> access_grant \<Rightarrow> 'g \<Rightarrow> 'g \<times> (digital_service_error + unit)"
  gp_get :: "bool \<Rightarrow> string \<Rightarrow> uuid \<Rightarrow> 'g \<Rightarrow> digital_service_error + access_grant"
  gp_listByCustomer :: "bool \<Rightarrow> string \<Rightarrow> uuid \<Rightarrow> int \<Rightarrow> int \<Rightarrow> 'g \<Rightarrow> digital_service_error + grant_list"
  gp_getByCustomerProduct :: "bool \<Rightarrow> string \<Rightarrow> uuid \<Rightarrow> uuid \<Rightarrow> 'g \<Rightarrow> digital_service_error + access_grant"

subsection \<open>The in-memory repositories\<close>

text \<open>The clamping of the page arguments that the three listings share.\<close>

definition digital_page :: "int \<Rightarrow> int \<Rightarrow> 'a list \<Rightarrow> 'a list option" where
  "digital_page page perPage xs =
     page_slice (if page < 1 then 1 else page) (if perPage < 1 then 20 else perPage) xs"

type_synonym product_store = "(string, uuid, digital_product) gomap2"
type_synonym license_store = "(string, uuid, license) gomap2"
type_synonym grant_store = "(string, string, access_grant) gomap2"

definition mem_product_create ::
  "bool \<Rightarrow> string \<Rightarrow> digital_product \<Rightarrow> product_store \<Rightarrow> product_store \<times> (digital_service_error + unit)" where
  "mem_product_create cx tenantID p r =
     (if cx then (r, Err ErrContext) else (nput tenantID (dp_id p) p r, Ok ()))"

definition mem_product_update ::
  "bool \<Rightarrow> string \<Rightarrow> digital_product \<Rightarrow> product_store \<Rightarrow> product_store \<times> (digital_service_error + unit)" where
  "mem_product_update cx tenantID p r =
     (if cx then (r, Err ErrContext)
      else if mget r tenantID = None then (r, Err ErrDigitalProductNotFound)
      else if nget r tenantID (dp_id p) = None then (r, Err ErrDigitalProductNotFound)
      else (nput tenantID (dp_id p) p r, Ok ()))"

definition mem_product_get ::
  "bool \<Rightarrow> string \<Rightarrow> uuid \<Rightarrow> product_store \<Rightarrow> digital_service_error + digital_product" where
  "mem_product_get cx tenantID pid r =
     (if cx then Err ErrContext
      else case nget r tenantID pid of None \<Rightarrow> Err ErrDigitalProductNotFound | Some p \<Rightarrow> Ok p)"

definition mem_product_list ::
  "(digital_product list \<Rightarrow> digital_product list) \<Rightarrow> bool \<Rightarrow> string \<Rightarrow> int \<Rightarrow> int \<Rightarrow> product_store \<Rightarrow>
   digital_service_error + digital_product_list" where
  "mem_product_list it cx tenantID page perPage r =
     (if cx then Err ErrContext
      else let products = sort_key dp_createdAt (it (mvalues (nrows r tenantID))) in
      case digital_page page perPage products of
        None \<Rightarrow> Err ErrSliceBounds
      | Some rows \<Rightarrow> Ok \<lparr>dpl_Products = rows, dpl_Total = int (length products)\<rparr>)"

definition mem_product_delete ::
  "bool \<Rightarrow> string \<Rightarrow> uuid \<Rightarrow> product_store \<Rightarrow> product_store \<times> (digital_service_error + unit)" where
  "mem_product_delete cx tenantID pid r =
     (if cx then (r, Err ErrContext)
      else if mget r tenantID = None then (r, Err ErrDigitalProductNotFound)
      else if nget r tenantID pid = None then (r, Err ErrDigitalProductNotFound)
      else (mput tenantID (mdel pid (nrows r tenantID)) r, Ok ()))"

definition mem_license_create ::
  "bool \<Rightarrow> string \<Rightarrow> license \<Rightarrow> license_store \<Rightarrow> license_store \<times> (digital_service_error + unit)" where
  "mem_license_create cx tenantID l r =
     (if cx then (r, Err ErrContext) else (nput tenantID (lic_id l) l r, Ok ()))"

definition mem_license_get ::
  "bool \<Rightarrow> string \<Rightarrow> uuid \<Rightarrow> license_store \<Rightarrow> digital_service_error + license" where
  "mem_license_get cx tenantID lid r =
     (if cx then Err ErrContext
      else case nget r tenantID lid of None \<Rightarrow> Err ErrLicenseNotFound | Some l \<Rightarrow> Ok l)"

definition paginateLicenses ::
  "(license list \<Rightarrow> license list) \<Rightarrow> (uuid, license) gomap \<Rightarrow> int \<Rightarrow> int \<Rightarrow>
   digital_service_error + license_list" where
  "paginateLicenses it rows page perPage =
     (let licenses = sort_key lic_issuedAt (it (mvalues rows)) in
      case digital_page page perPage licenses of
        None \<Rightarrow> Err ErrSliceBounds
      | Some ls \<Rightarrow> Ok \<lparr>ll_Licenses = ls, ll_Total = int (length licenses)\<rparr>)"

definition mem_license_list ::
  "(license list \<Rightarrow> license list) \<Rightarrow> bool \<Rightarrow> string \<Rightarrow> int \<Rightarrow> int \<Rightarrow> license_store \<Rightarrow>
   digital_service_error + license_list" where
  "mem_license_list it cx tenantID page perPage r =
     (if cx then Err ErrContext else paginateLicenses it (nrows r tenantID) page perPage)"

definition mem_license_listByCustomer ::
  "(license list \<Rightarrow> license list) \<Rightarrow> bool \<Rightarrow> string \<Rightarrow> uuid \<Rightarrow> int \<Rightarrow> int \<Rightarrow> license_store \<Rightarrow>
   digital_service_error + license_list" where
  "mem_license_listByCustomer it cx tenantID customerID page perPage r =
     (if cx then Err ErrContext
      else let filtered = filter (\<lambda>(lid, l). lic_customerID l = customerID) (nrows r tenantID)
           in paginateLicenses it filtered page perPage)"

definition mem_license_saveState ::
  "bool \<Rightarrow> string \<Rightarrow> license \<Rightarrow> license_store \<Rightarrow> license_store \<times> (digital_service_error + unit)" where
  "mem_license_saveState cx tenantID l r =
     (if cx then (r, Err ErrContext)
      else case mget r tenantID of
        None \<Rightarrow> (r, Err ErrLicenseNotFound)
      | Some rows \<Rightarrow>
          if mget rows (lic_id l) = None then (r, Err ErrLicenseNotFound)
          else (mput tenantID (mput (lic_id l) l rows) r, Ok ()))"

definition grantKey :: "(uuid \<Rightarrow> string) \<Rightarrow> uuid \<Rightarrow> uuid \<Rightarrow> string" where
  "grantKey ustr customerID productID = ustr customerID @ '':'' @ ustr productID"

definition mem_grant_upsert ::
  "(uuid \<Rightarrow> string) \<Rightarrow> bool \<Rightarrow> string \<Rightarrow> access_grant \<Rightarrow> grant_store \<Rightarrow>
   grant_store \<times> (digital_service_error + unit)" where
  "mem_grant_upsert ustr cx tenantID g r =
     (if cx then (r, Err ErrContext)
      else (nput tenantID (grantKey ustr (ag_customerID g) (ag_productID g)) g r, Ok ()))"

definition mem_grant_get ::
  "(access_grant list \<Rightarrow> access_grant list) \<Rightarrow> bool \<Rightarrow> string \<Rightarrow> uuid \<Rightarrow> grant_store \<Rightarrow>
   digital_service_error + access_grant" where
  "mem_grant_get it cx tenantID gid r =
     (if cx then Err ErrContext
      else case find (\<lambda>g. ag_id g = gid) (it (mvalues (nrows r tenantID))) of
        None \<Rightarrow> Err ErrAccessGrantNotFound
      | Some g \<Rightarrow> Ok g)"

definition mem_grant_listByCustomer ::
  "(access_grant list \<Rightarrow> access_grant list) \<Rightarrow> bool \<Rightarrow> string \<Rightarrow> uuid \<Rightarrow> int \<Rightarrow> int \<Rightarrow> grant_store \<Rightarrow>
   digital_service_error + grant_list" where
  "mem_grant_listByCustomer it cx tenantID customerID page perPage r =
     (if cx then Err ErrContext
      else let grants = sort_key ag_grantedAt
             (filter (\<lambda>g. ag_customerID g = customerID) (it (mvalues (nrows r tenantID)))) in
      case digital_page page perPage grants of
        None \<Rightarrow> Err ErrSliceBounds
      | Some gs \<Rightarrow> Ok \<lparr>gl_Grants = gs, gl_Total = int (length grants)\<rparr>)"

definition mem_grant_getByCustomerProduct ::
  "(uuid \<Rightarrow> string) \<Rightarrow> bool \<Rightarrow> string \<Rightarrow> uuid \<Rightarrow> uuid \<Rightarrow> grant_store \<Rightarrow>
   digital_service_error + access_grant" where
  "mem_grant_getByCustomerProduct ustr cx tenantID customerID productID r =
     (if cx then Err ErrContext
      else case nget r tenantID (grantKey ustr customerID productID) of
        None \<Rightarrow> Err ErrAccessGrantNotFound
      | Some g \<Rightarrow> Ok g)"

definition mem_products :: "(digital_product list \<Rightarrow> digital_product list) \<Rightarrow> product_store product_port" where
  "mem_products it = \<lparr>pp_create = mem_product_create, pp_update = mem_product_update,
     pp_get = mem_product_get, pp_list = mem_product_list it, pp_delete = mem_product_delete\<rparr>"

definition mem_licenses :: "(license list \<Rightarrow> license list) \<Rightarrow> license_store license_port" where
  "mem_licenses it = \<lparr>lp_create = mem_license_create, lp_get = mem_license_get,
     lp_list = mem_license_list it, lp_listByCustomer = mem_license_listByCustomer it,
     lp_saveState = mem_license_saveState\<rparr>"

definition mem_grants ::
  "(uuid \<Rightarrow> string) \<Rightarrow> (access_grant list \<Rightarrow> access_grant list) \<Rightarrow> grant_store grant_port" where
  "mem_grants ustr it = \<lparr>gp_upsert = mem_grant_upsert ustr, gp_get = mem_grant_get it,
     gp_listByCustomer = mem_grant_listByCustomer it,
     gp_getByCustomerProduct = mem_grant_getByCustomerProduct ustr\<rparr>"

subsection \<open>The service\<close>

definition DigitalPayloadVersion :: int where "DigitalPayloadVersion = 1"

record digital_payload =
  dy_Version :: int
  dy_TenantID :: string
  dy_ProductID :: string
  dy_ProductSKU :: string
  dy_LicenseID :: string
  dy_CustomerID :: string
  dy_State :: string
  dy_Source :: string

record digital_event =
  de_Type :: string
  de_Payload :: digital_payload
  de_Timestamp :: gotime
  de_Source :: string

definition licenseActivated :: string where "licenseActivated = ''license.activated''"
definition licenseRevoked :: string where "licenseRevoked = ''license.revoked''"
definition digitalPurchased :: string where "digitalPurchased = ''digital.purchased''"
definition digitalDownloaded :: string where "digitalDownloaded = ''digital.downloaded''"

definition isDigitalEvent :: "string \<Rightarrow> bool" where
  "isDigitalEvent t \<longleftrightarrow> t \<in> {''digital.product.created'', ''digital.product.updated'',
     ''digital.product.deleted'', ''digital.purchased'', ''digital.downloaded'',
     ''license.activated'', ''license.revoked'', ''license.expired''}"

definition validate_payload :: "digital_payload \<Rightarrow> bool" where
  "validate_payload p \<longleftrightarrow> dy_Version p \<noteq> 0 \<and> dy_TenantID p \<noteq> []
     \<and> \<not> (dy_ProductID p = [] \<and> dy_LicenseID p = [])"

definition newDigitalEvent ::
  "gotime \<Rightarrow> string \<Rightarrow> string \<Rightarrow> gotime \<Rightarrow> digital_payload \<Rightarrow> digital_event option" where
  "newDigitalEvent wall eventType source occurredAt payload0 =
     (if \<not> isDigitalEvent eventType then None
      else let payload = (if dy_Version payload0 = 0 then payload0\<lparr>dy_Version := DigitalPayloadVersion\<rparr>
                          else payload0) in
      if \<not> validate_payload payload then None
      else Some \<lparr>de_Type = eventType, de_Payload = payload, de_Timestamp = or_now wall occurredAt,
                 de_Source = (if source = [] then ''mc-api.digital'' else source)\<rparr>)"

record issue_download_request =
  idr_TenantID :: string
  idr_LicenseID :: uuid
  idr_ProductID :: uuid
  idr_IssuedAt :: gotime
  idr_TTL :: duration
  idr_UsesAllowed :: int

record issue_download_response =
  ids_URL :: string
  ids_Token :: download_token

record ('p, 'l, 'g) digital_service =
  ds_products :: "'p product_port"
  ds_licenses :: "'l license_port"
  ds_grants :: "'g grant_port"
  ds_keys :: "string \<Rightarrow> string \<Rightarrow> digital_error + string"
  ds_issuer :: "(issue_download_request \<Rightarrow> string + issue_download_response) option"
  ds_publisher :: bool
  ds_source :: string
  ds_ustr :: "uuid \<Rightarrow> string"

record ('p, 'l, 'g) digital_state =
  dst_products :: 'p
  dst_licenses :: 'l
  dst_grants :: 'g
  dst_published :: "digital_event list"

record issue_license_request =
  ilr_TenantID :: string
  ilr_CustomerID :: uuid
  ilr_ProductID :: uuid
  ilr_Source :: grant_source
  ilr_MaxActivations :: int
  ilr_ExpiresAt :: gotime

record issue_license_result =
  ilt_License :: license
  ilt_Grant :: access_grant
  ilt_Product :: digital_product

definition ds_publish ::
  "('p, 'l, 'g) digital_service \<Rightarrow> gotime \<Rightarrow> string \<Rightarrow> license \<Rightarrow> digital_product \<Rightarrow> grant_source \<Rightarrow>
   gotime \<Rightarrow> ('p, 'l, 'g) digital_state \<Rightarrow> ('p, 'l, 'g) digital_state" where
  "ds_publish s wall eventType l product source now st =
     (if \<not> ds_publisher s then st
      else case newDigitalEvent wall eventType (ds_source s) now
             \<lparr>dy_Version = DigitalPayloadVersion, dy_TenantID = lic_tenantID l,
              dy_ProductID = ds_ustr s (dp_id product), dy_ProductSKU = dp_sku product,
              dy_LicenseID = ds_ustr s (lic_id l), dy_CustomerID = ds_ustr s (lic_customerID l),
              dy_State = lstate_string (lic_state l), dy_Source = source\<rparr> of
        None \<Rightarrow> st
      | Some evt \<Rightarrow> st\<lparr>dst_published := dst_published st @ [evt]\<rparr>)"

text \<open>\<open>fresh1\<close> and \<open>fresh2\<close> are the identifiers drawn for the licence and the grant.\<close>

definition issueLicense ::
  "('p, 'l, 'g) digital_service \<Rightarrow> bool \<Rightarrow> gotime \<Rightarrow> gotime \<Rightarrow> uuid \<Rightarrow> uuid \<Rightarrow> issue_license_request \<Rightarrow>
   ('p, 'l, 'g) digital_state \<Rightarrow>
   ('p, 'l, 'g) digital_state \<times> (digital_service_error + issue_license_result)" where
  "issueLicense s cx wall now fresh1 fresh2 req st =
     (if ilr_TenantID req = [] then (st, Err (DomainError ErrTenantRequired))
      else case pp_get (ds_products s) cx (ilr_TenantID req) (ilr_ProductID req) (dst_products st) of
        Err e \<Rightarrow> (st, Err e)
      | Ok product \<Rightarrow>
      (case ds_keys s (ilr_TenantID req) (dp_sku product @ '':'' @ ds_ustr s (ilr_CustomerID req)) of
        Err e \<Rightarrow> (st, Err (ErrLicenseKey e))
      | Ok key \<Rightarrow>
      (case newLicense fresh1 wall
              \<lparr>lin_tenantID = ilr_TenantID req, lin_productID = dp_id product,
               lin_customerID = ilr_CustomerID req, lin_key = key,
               lin_maxActivations = ilr_MaxActivations req, lin_expiresAt = ilr_ExpiresAt req,
               lin_now = now\<rparr> of
        Err e \<Rightarrow> (st, Err (DomainError e))
      | Ok l \<Rightarrow>
      (case lp_create (ds_licenses s) cx (ilr_TenantID req) l (dst_licenses st) of
        (ls, Err e) \<Rightarrow> (st\<lparr>dst_licenses := ls\<rparr>, Err e)
      | (ls, Ok _) \<Rightarrow>
      (let st1 = st\<lparr>dst_licenses := ls\<rparr>;
           source = (if ilr_Source req = [] then sourceAdmin else ilr_Source req) in
       case newAccessGrant fresh2 wall
              \<lparr>agi_tenantID = ilr_TenantID req, agi_customerID = ilr_CustomerID req,
               agi_productID = dp_id product, agi_licenseID = lic_id l, agi_source = source,
               agi_now = now\<rparr> of
        Err e \<Rightarrow> (st1, Err (DomainError e))
      | Ok grant \<Rightarrow>
      (case gp_upsert (ds_grants s) cx (ilr_TenantID req) grant (dst_grants st1) of
        (gs, Err e) \<Rightarrow> (st1\<lparr>dst_grants := gs\<rparr>, Err e)
      | (gs, Ok _) \<Rightarrow>
          let st2 = ds_publish s wall licenseActivated l product (ag_source grant) now (st1\<lparr>dst_grants := gs\<rparr>);
              st3 = (if source = sourcePurchase
                     then ds_publish s wall digitalPurchased l product source now st2 else st2)
          in (st3, Ok \<lparr>ilt_License = l, ilt_Grant = grant, ilt_Product = product\<rparr>)))))))"

definition revokeLicense ::
  "('p, 'l, 'g) digital_service \<Rightarrow> bool \<Rightarrow> gotime \<Rightarrow> gotime \<Rightarrow> string \<Rightarrow> uuid \<Rightarrow>
   ('p, 'l, 'g) digital_state \<Rightarrow> ('p, 'l, 'g) digital_state \<times> (digital_service_error + license)" where
  "revokeLicense s cx wall now tenantID licenseID st =
     (if tenantID = [] then (st, Err (DomainError ErrTenantRequired))
      else case lp_get (ds_licenses s) cx tenantID licenseID (dst_licenses st) of
        Err e \<Rightarrow> (st, Err e)
      | Ok l0 \<Rightarrow>
      (case license_apply wall l0 TransitionRevoke now of
        Err e \<Rightarrow> (st, Err (DomainError e))
      | Ok l \<Rightarrow>
      (case lp_saveState (ds_licenses s) cx tenantID l (dst_licenses st) of
        (ls, Err e) \<Rightarrow> (st\<lparr>dst_licenses := ls\<rparr>, Err e)
      | (ls, Ok _) \<Rightarrow>
          let st1 = st\<lparr>dst_licenses := ls\<rparr> in
          (case pp_get (ds_products s) cx tenantID (lic_productID l) (dst_products st1) of
             Err _ \<Rightarrow> (st1, Ok l)
           | Ok product \<Rightarrow> (ds_publish s wall licenseRevoked l product [] now st1, Ok l)))))"

definition issueDownload ::
  "('p, 'l, 'g) digital_service \<Rightarrow> bool \<Rightarrow> gotime \<Rightarrow> gotime \<Rightarrow> string \<Rightarrow> uuid \<Rightarrow> uuid \<Rightarrow> duration \<Rightarrow> int \<Rightarrow>
   ('p, 'l, 'g) digital_state \<Rightarrow>
   ('p, 'l, 'g) digital_state \<times> (digital_service_error + (issue_download_response \<times> license))" where
  "issueDownload s cx wall now tenantID licenseID customerID ttl usesAllowed st =
     (if tenantID = [] then (st, Err (DomainError ErrTenantRequired))
      else case ds_issuer s of
        None \<Rightarrow> (st, Err ErrIssuerNotConfigured)
      | Some issue \<Rightarrow>
      (case lp_get (ds_licenses s) cx tenantID licenseID (dst_licenses st) of
        Err e \<Rightarrow> (st, Err e)
      | Ok l \<Rightarrow>
      if customerID \<noteq> uuid_nil \<and> lic_customerID l \<noteq> customerID
      then (st, Err (DomainError ErrTenantMismatch))
      else (case checkActive l now of
        Err e \<Rightarrow> (st, Err (DomainError e))
      | Ok _ \<Rightarrow>
      (case issue \<lparr>idr_TenantID = tenantID, idr_LicenseID = lic_id l, idr_ProductID = lic_productID l,
                   idr_IssuedAt = now, idr_TTL = ttl, idr_UsesAllowed = usesAllowed\<rparr> of
        Err e \<Rightarrow> (st, Err (ErrIssuer e))
      | Ok res \<Rightarrow>
          (case pp_get (ds_products s) cx tenantID (lic_productID l) (dst_products st) of
             Err _ \<Rightarrow> (st, Ok (res, l))
           | Ok product \<Rightarrow> (ds_publish s wall digitalDownloaded l product [] now st, Ok (res, l)))))))"

text \<open>The loop of \<open>GrantAccess\<close>; \<open>fresh\<close> lists the identifiers drawn for each product.\<close>

fun grant_loop ::
  "('p, 'l, 'g) digital_service \<Rightarrow> bool \<Rightarrow> gotime \<Rightarrow> gotime \<Rightarrow> string \<Rightarrow> uuid \<Rightarrow> grant_source \<Rightarrow>
   (uuid \<times> uuid \<times> uuid) list \<Rightarrow> license list \<Rightarrow> access_grant list \<Rightarrow> ('p, 'l, 'g) digital_state \<Rightarrow>
   ('p, 'l, 'g) digital_state \<times> (digital_service_error + (license list \<times> access_grant list))" where
  "grant_loop s cx wall now tenantID customerID source [] ls gs st = (st, Ok (ls, gs))"
| "grant_loop s cx wall now tenantID customerID source ((pid, f1, f2) # pids) ls gs st =
     (case issueLicense s cx wall now f1 f2
             \<lparr>ilr_TenantID = tenantID, ilr_CustomerID = customerID, ilr_ProductID = pid,
              ilr_Source = source, ilr_MaxActivations = 0, ilr_ExpiresAt = zero_time\<rparr> st of
        (st1, Err e) \<Rightarrow> (st1, Err e)
      | (st1, Ok res) \<Rightarrow>
          grant_loop s cx wall now tenantID customerID source pids
            (ls @ [ilt_License res]) (gs @ [ilt_Grant res]) st1)"

definition grantAccess ::
  "('p, 'l, 'g) digital_service \<Rightarrow> bool \<Rightarrow> gotime \<Rightarrow> gotime \<Rightarrow> string \<Rightarrow> uuid \<Rightarrow> (uuid \<times> uuid \<times> uuid) list \<Rightarrow>
   grant_source \<Rightarrow> ('p, 'l, 'g) digital_state \<Rightarrow>
   ('p, 'l, 'g) digital_state \<times> (digital_service_error + (license list \<times> access_grant list))" where
  "grantAccess s cx wall now tenantID customerID pids source0 st =
     (if tenantID = [] then (st, Err (DomainError ErrTenantRequired))
      else let source = (if source0 = [] then sourcePurchase else source0) in
        grant_loop s cx wall now tenantID customerID source pids [] [] st)"

subsection \<open>The contracts of the repositories\<close>

locale license_repo =
  fixes lport :: "'l license_port"
    and lview :: "'l \<Rightarrow> (string \<times> uuid \<rightharpoonup> license)"
  assumes lp_get_law: "lp_get lport cx t i r =
      (if cx then Err ErrContext
       else case lview r (t, i) of None \<Rightarrow> Err ErrLicenseNotFound | Some l \<Rightarrow> Ok l)"
    and lp_create_law: "\<exists>r'. lp_create lport cx t l r = (if cx then (r, Err ErrContext) else (r', Ok ()))
      \<and> lview r' = (lview r)((t, lic_id l) \<mapsto> l)"
    and lp_save_law: "lview r (t, lic_id l) \<noteq> None \<Longrightarrow>
      \<exists>r'. lp_saveState lport cx t l r = (if cx then (r, Err ErrContext) else (r', Ok ()))
      \<and> lview r' = (lview r)((t, lic_id l) \<mapsto> l)"
    and lp_save_missing_law: "lview r (t, lic_id l) = None \<Longrightarrow>
      lp_saveState lport cx t l r = (r, Err (if cx then ErrContext else ErrLicenseNotFound))"
begin

lemma create_then_get:
  "lp_create lport False t l r = (r', res) \<Longrightarrow> res = Ok () \<and> lp_get lport False t (lic_id l) r' = Ok l"
  using lp_create_law [of False t l r] by (auto simp: lp_get_law)

end

locale grant_repo =
  fixes gport :: "'g grant_port"
    and gview :: "'g \<Rightarrow> (string \<times> 'k \<rightharpoonup> access_grant)"
    and gkey :: "uuid \<Rightarrow> uuid \<Rightarrow> 'k"
  assumes gp_get_law: "gp_getByCustomerProduct gport cx t c p r =
      (if cx then Err ErrContext
       else case gview r (t, gkey c p) of None \<Rightarrow> Err ErrAccessGrantNotFound | Some g \<Rightarrow> Ok g)"
    and gp_upsert_law: "\<exists>r'. gp_upsert gport cx t g r = (if cx then (r, Err ErrContext) else (r', Ok ()))
      \<and> gview r' = (gview r)((t, gkey (ag_customerID g) (ag_productID g)) \<mapsto> g)"
begin

lemma upsert_then_get:
  "gp_upsert gport False t g r = (r', res) \<Longrightarrow>
     res = Ok () \<and> gp_getByCustomerProduct gport False t (ag_customerID g) (ag_productID g) r' = Ok g"
  using gp_upsert_law [of False t g r] by (auto simp: gp_get_law)

end

locale product_repo =
  fixes pport :: "'p product_port"
    and pview :: "'p \<Rightarrow> (string \<times> uuid \<rightharpoonup> digital_product)"
  assumes pp_get_law: "pp_get pport cx t i r =
      (if cx then Err ErrContext
       else case pview r (t, i) of None \<Rightarrow> Err ErrDigitalProductNotFound | Some p \<Rightarrow> Ok p)"
    and pp_create_law: "\<exists>r'. pp_create pport cx t p r = (if cx then (r, Err ErrContext) else (r', Ok ()))
      \<and> pview r' = (pview r)((t, dp_id p) \<mapsto> p)"
    and pp_update_law: "\<exists>r'. pp_update pport cx t p r =
        (if cx then (r, Err ErrContext)
         else if pview r (t, dp_id p) = None then (r, Err ErrDigitalProductNotFound) else (r', Ok ()))
      \<and> pview r' = (pview r)((t, dp_id p) \<mapsto> p)"
    and pp_delete_law: "\<exists>r'. pp_delete pport cx t i r =
        (if cx then (r, Err ErrContext)
         else if pview r (t, i) = None then (r, Err ErrDigitalProductNotFound) else (r', Ok ()))
      \<and> pview r' = (pview r)((t, i) := None)"
begin

lemma delete_then_get:
  "pp_delete pport False t i r = (r', Ok ()) \<Longrightarrow>
     pp_get pport False t i r' = Err ErrDigitalProductNotFound"
  using pp_delete_law [of False t i r] by (auto simp: pp_get_law split: if_splits)

end

locale digital_repos =
  license_repo lport lview + grant_repo gport gview gkey + product_repo pport pview
  for lport :: "'l license_port" and lview and gport :: "'g grant_port"
    and gview :: "'g \<Rightarrow> (string \<times> 'k \<rightharpoonup> access_grant)" and gkey
    and pport :: "'p product_port" and pview

subsection \<open>The in-memory repositories keep them\<close>

definition nested_view :: "('k, 'j, 'v) gomap2 \<Rightarrow> ('k \<times> 'j \<rightharpoonup> 'v)" where
  "nested_view m = (\<lambda>(k, j). nget m k j)"

lemma nested_view_nput [simp]: "nested_view (nput k j v m) = (nested_view m)((k, j) \<mapsto> v)"
  by (auto simp: nested_view_def fun_eq_iff)

lemma nested_view_mdel [simp]: "nested_view (mput k (mdel j (nrows m k)) m) = (nested_view m)((k, j) := None)"
  by (auto simp: nested_view_def nget_def nrows_def fun_eq_iff)

lemma mem_license_saveState_nput:
  "mem_license_saveState cx t l r =
     (if cx then (r, Err ErrContext)
      else if nested_view r (t, lic_id l) = None then (r, Err ErrLicenseNotFound)
      else (nput t (lic_id l) l r, Ok ()))"
  by (simp add: mem_license_saveState_def nested_view_def nput_def nget_def nrows_def split: option.split)

interpretation mdr: digital_repos "mem_licenses it1" nested_view "mem_grants ustr it2" nested_view
  "grantKey ustr" "mem_products it3" nested_view
proof
  fix cx :: bool and t :: string and i c p :: uuid
    and l :: license and lr :: license_store and g :: access_grant and gr :: grant_store
    and d :: digital_product and pr :: product_store
  show "lp_get (mem_licenses it1) cx t i lr =
      (if cx then Err ErrContext
       else case nested_view lr (t, i) of None \<Rightarrow> Err ErrLicenseNotFound | Some l \<Rightarrow> Ok l)"
    by (simp add: mem_licenses_def mem_license_get_def nested_view_def)
  show "\<exists>r'. lp_create (mem_licenses it1) cx t l lr = (if cx then (lr, Err ErrContext) else (r', Ok ()))
      \<and> nested_view r' = (nested_view lr)((t, lic_id l) \<mapsto> l)"
    by (rule exI [of _ "nput t (lic_id l) l lr"]) (simp add: mem_licenses_def mem_license_create_def)
  show "nested_view lr (t, lic_id l) \<noteq> None \<Longrightarrow>
      \<exists>r'. lp_saveState (mem_licenses it1) cx t l lr = (if cx then (lr, Err ErrContext) else (r', Ok ()))
      \<and> nested_view r' = (nested_view lr)((t, lic_id l) \<mapsto> l)"
    by (rule exI [of _ "nput t (lic_id l) l lr"]) (auto simp: mem_licenses_def mem_license_saveState_nput)
  show "nested_view lr (t, lic_id l) = None \<Longrightarrow>
      lp_saveState (mem_licenses it1) cx t l lr = (lr, Err (if cx then ErrContext else ErrLicenseNotFound))"
    by (simp add: mem_licenses_def mem_license_saveState_nput)
  show "gp_getByCustomerProduct (mem_grants ustr it2) cx t c p gr =
      (if cx then Err ErrContext
       else case nested_view gr (t, grantKey ustr c p) of None \<Rightarrow> Err ErrAccessGrantNotFound | Some g \<Rightarrow> Ok g)"
    by (simp add: mem_grants_def mem_grant_getByCustomerProduct_def nested_view_def)
  show "\<exists>r'. gp_upsert (mem_grants ustr it2) cx t g gr = (if cx then (gr, Err ErrContext) else (r', Ok ()))
      \<and> nested_view r' = (nested_view gr)((t, grantKey ustr (ag_customerID g) (ag_productID g)) \<mapsto> g)"
    by (rule exI [of _ "nput t (grantKey ustr (ag_customerID g) (ag_productID g)) g gr"])
       (simp add: mem_grants_def mem_grant_upsert_def)
  show "pp_get (mem_products it3) cx t i pr =
      (if cx then Err ErrContext
       else case nested_view pr (t, i) of None \<Rightarrow> Err ErrDigitalProductNotFound | Some p \<Rightarrow> Ok p)"
    by (simp add: mem_products_def mem_product_get_def nested_view_def)
  show "\<exists>r'. pp_create (mem_products it3) cx t d pr = (if cx then (pr, Err ErrContext) else (r', Ok ()))
      \<and> nested_view r' = (nested_view pr)((t, dp_id d) \<mapsto> d)"
    by (rule exI [of _ "nput t (dp_id d) d pr"]) (simp add: mem_products_def mem_product_create_def)
  have row: "nget pr t j = None" if "mget pr t = None" for j
    using that by (simp add: nget_def nrows_def)
  show "\<exists>r'. pp_update (mem_products it3) cx t d pr =
        (if cx then (pr, Err ErrContext)
         else if nested_view pr (t, dp_id d) = None then (pr, Err ErrDigitalProductNotFound) else (r', Ok ()))
      \<and> nested_view r' = (nested_view pr)((t, dp_id d) \<mapsto> d)"
    by (rule exI [of _ "nput t (dp_id d) d pr"])
       (auto simp: mem_products_def mem_product_update_def nested_view_def [of pr] row)
  show "\<exists>r'. pp_delete (mem_products it3) cx t i pr =
        (if cx then (pr, Err ErrContext)
         else if nested_view pr (t, i) = None then (pr, Err ErrDigitalProductNotFound) else (r', Ok ()))
      \<and> nested_view r' = (nested_view pr)((t, i) := None)"
    by (rule exI [of _ "mput t (mdel i (nrows pr t)) pr"])
       (auto simp: mem_products_def mem_product_delete_def nested_view_def [of pr] row)
qed

subsection \<open>What the service does to repositories that keep the contracts\<close>

lemma newLicense_Ok_fields:
  assumes "newLicense fresh wall inp = Ok l"
  shows "lic_id l = fresh \<and> lic_tenantID l = trim_space (lin_tenantID inp) \<and> lic_tenantID l \<noteq> []
    \<and> lic_productID l = lin_productID inp \<and> lin_productID inp \<noteq> uuid_nil
    \<and> lic_customerID l = lin_customerID inp \<and> lin_customerID inp \<noteq> uuid_nil
    \<and> lic_key l = trim_space (lin_key inp) \<and> lic_state l = StateActive
    \<and> lic_expiresAt l = lin_expiresAt inp \<and> lic_issuedAt l = or_now wall (lin_now inp)
    \<and> (time_is_zero (lin_expiresAt inp) \<or> or_now wall (lin_now inp) < lin_expiresAt inp)"
  using assms unfolding newLicense_def Let_def by (auto split: if_splits)

lemma newAccessGrant_outcome:
  assumes "trim_space (agi_tenantID inp) \<noteq> []" and "agi_customerID inp \<noteq> uuid_nil"
    and "agi_productID inp \<noteq> uuid_nil" and "agi_licenseID inp \<noteq> uuid_nil" and "agi_source inp \<noteq> []"
  shows "newAccessGrant fresh wall inp =
    (case parseSource (agi_source inp) of
       Err e \<Rightarrow> Err e
     | Ok _ \<Rightarrow> Ok \<lparr>ag_id = fresh, ag_tenantID = trim_space (agi_tenantID inp),
         ag_customerID = agi_customerID inp, ag_productID = agi_productID inp,
         ag_licenseID = agi_licenseID inp, ag_grantedAt = or_now wall (agi_now inp),
         ag_source = agi_source inp\<rparr>)"
  using assms unfolding newAccessGrant_def Let_def by simp

lemma ds_publish_stores [simp]:
  "dst_products (ds_publish s wall ev l p src now st) = dst_products st"
  "dst_licenses (ds_publish s wall ev l p src now st) = dst_licenses st"
  "dst_grants (ds_publish s wall ev l p src now st) = dst_grants st"
  by (simp_all add: ds_publish_def split: option.split)

definition request_source :: "issue_license_request \<Rightarrow> grant_source" where
  "request_source req = (if ilr_Source req = [] then sourceAdmin else ilr_Source req)"

definition keyed :: "(string \<times> uuid \<rightharpoonup> license) \<Rightarrow> bool" where
  "keyed v \<longleftrightarrow> (\<forall>t i l. v (t, i) = Some l \<longrightarrow> lic_id l = i)"

lemma keyed_upd: "keyed v \<Longrightarrow> lic_id l = i \<Longrightarrow> keyed (v((t, i) \<mapsto> l))"
  by (auto simp: keyed_def split: if_splits)

lemma keyed_id: "keyed v \<Longrightarrow> v (t, i) = Some l \<Longrightarrow> lic_id l = i"
  by (simp add: keyed_def)

text \<open>The operations of the service on licences, and histories of them.\<close>

datatype dig_op =
    OpIssue uuid uuid issue_license_request
  | OpRevoke string uuid
  | OpDownload string uuid uuid duration int

fun dig_exec ::
  "('p, 'l, 'g) digital_service \<Rightarrow> bool \<Rightarrow> gotime \<Rightarrow> gotime \<Rightarrow> dig_op \<Rightarrow>
   ('p, 'l, 'g) digital_state \<Rightarrow> ('p, 'l, 'g) digital_state" where
  "dig_exec s cx wall now (OpIssue f1 f2 req) st = fst (issueLicense s cx wall now f1 f2 req st)"
| "dig_exec s cx wall now (OpRevoke t i) st = fst (revokeLicense s cx wall now t i st)"
| "dig_exec s cx wall now (OpDownload t i c ttl uses) st = fst (issueDownload s cx wall now t i c ttl uses st)"

fun dig_history ::
  "('p, 'l, 'g) digital_service \<Rightarrow> gotime \<Rightarrow> (bool \<times> gotime \<times> dig_op) list \<Rightarrow>
   ('p, 'l, 'g) digital_state \<Rightarrow> ('p, 'l, 'g) digital_state" where
  "dig_history s wall [] st = st"
| "dig_history s wall ((cx, now, c) # cs) st = dig_history s wall cs (dig_exec s cx wall now c st)"

text \<open>The identifiers an operation draws are not nil and not already in use as \<open>i\<close>.\<close>

fun fresh_for :: "uuid \<Rightarrow> dig_op \<Rightarrow> bool" where
  "fresh_for i (OpIssue f1 f2 req) \<longleftrightarrow> f1 \<noteq> uuid_nil \<and> f1 \<noteq> i"
| "fresh_for i _ \<longleftrightarrow> True"

lemma issueDownload_licenses:
  "dst_licenses (fst (issueDownload s cx wall now t i c ttl uses st)) = dst_licenses st"
  unfolding issueDownload_def by (simp split: option.split sum.split)

context digital_repos
begin

lemma lp_create_cases:
  "lp_create lport cx t l r = (ls, res) \<Longrightarrow>
     (if cx then ls = r \<and> res = Err ErrContext
      else res = Ok () \<and> lview ls = (lview r)((t, lic_id l) \<mapsto> l))"
  using lp_create_law [of cx t l r] by (auto split: if_splits)

lemma gp_upsert_cases:
  "gp_upsert gport cx t g r = (gs, res) \<Longrightarrow>
     (if cx then gs = r \<and> res = Err ErrContext
      else res = Ok () \<and> gview gs = (gview r)((t, gkey (ag_customerID g) (ag_productID g)) \<mapsto> g))"
  using gp_upsert_law [of cx t g r] by (auto split: if_splits)

text \<open>
  The outcomes of issuing a licence: nothing happened; the licence was stored but the source
  was unknown, so that there is no grant; or licence and grant are stored.
\<close>

lemma issue_outcomes:
  assumes "ds_licenses s = lport" "ds_grants s = gport" "ds_products s = pport"
    and "f1 \<noteq> uuid_nil"
    and "issueLicense s cx wall now f1 f2 req st = (st', res)"
  shows "(\<exists>e. res = Err e \<and> st' = st)
    \<or> (\<exists>e l. res = Err e \<and> \<not> is_ok (parseSource (request_source req)) \<and> lic_id l = f1
         \<and> lic_state l = StateActive \<and> dst_grants st' = dst_grants st
         \<and> lview (dst_licenses st') = (lview (dst_licenses st))((ilr_TenantID req, f1) \<mapsto> l))
    \<or> (\<exists>rs l g p. res = Ok rs \<and> rs = \<lparr>ilt_License = l, ilt_Grant = g, ilt_Product = p\<rparr> \<and> \<not> cx
         \<and> pview (dst_products st) (ilr_TenantID req, ilr_ProductID req) = Some p
         \<and> lic_id l = f1 \<and> lic_state l = StateActive \<and> lic_tenantID l = trim_space (ilr_TenantID req)
         \<and> lic_productID l = dp_id p \<and> lic_customerID l = ilr_CustomerID req
         \<and> lic_expiresAt l = ilr_ExpiresAt req
         \<and> (time_is_zero (ilr_ExpiresAt req) \<or> or_now wall now < ilr_ExpiresAt req)
         \<and> (\<exists>key. ds_keys s (ilr_TenantID req) (dp_sku p @ '':'' @ ds_ustr s (ilr_CustomerID req)) = Ok key
              \<and> lic_key l = trim_space key)
         \<and> ag_licenseID g = f1 \<and> ag_customerID g = ilr_CustomerID req \<and> ag_productID g = dp_id p
         \<and> ag_source g = request_source req
         \<and> lview (dst_licenses st') = (lview (dst_licenses st))((ilr_TenantID req, f1) \<mapsto> l)
         \<and> gview (dst_grants st') = (gview (dst_grants st))((ilr_TenantID req,
              gkey (ilr_CustomerID req) (dp_id p)) \<mapsto> g)
         \<and> dst_products st' = dst_products st)"
proof (cases "ilr_TenantID req = []")
  case True
  then show ?thesis using assms(5) by (intro disjI1) (auto simp: issueLicense_def)
next
  case t: False
  show ?thesis
  proof (cases "pp_get pport cx (ilr_TenantID req) (ilr_ProductID req) (dst_products st)")
    case (Inl e)
    then show ?thesis using assms(3,5) t by (intro disjI1) (auto simp: issueLicense_def)
  next
    case p: (Inr p)
    then have pv: "\<not> cx" "pview (dst_products st) (ilr_TenantID req, ilr_ProductID req) = Some p"
      by (auto simp: pp_get_law split: if_splits option.splits)
    let ?key = "ds_keys s (ilr_TenantID req) (dp_sku p @ '':'' @ ds_ustr s (ilr_CustomerID req))"
    show ?thesis
    proof (cases ?key)
      case (Inl e)
      then show ?thesis using assms(3,5) t p by (intro disjI1) (auto simp: issueLicense_def)
    next
      case key: (Inr key)
      let ?inp = "\<lparr>lin_tenantID = ilr_TenantID req, lin_productID = dp_id p,
               lin_customerID = ilr_CustomerID req, lin_key = key,
               lin_maxActivations = ilr_MaxActivations req, lin_expiresAt = ilr_ExpiresAt req,
               lin_now = now\<rparr>"
      show ?thesis
      proof (cases "newLicense f1 wall ?inp")
        case (Inl e)
        then show ?thesis using assms(3,5) t p key by (intro disjI1) (auto simp: issueLicense_def)
      next
        case l: (Inr l)
        note lf = newLicense_Ok_fields [OF l, simplified]
        obtain ls lres where c: "lp_create lport cx (ilr_TenantID req) l (dst_licenses st) = (ls, lres)"
          by fastforce
        then have lv: "lres = Ok ()" "lview ls = (lview (dst_licenses st))((ilr_TenantID req, f1) \<mapsto> l)"
          using lp_create_cases [OF c] pv(1) lf by auto
        let ?ginp = "\<lparr>agi_tenantID = ilr_TenantID req, agi_customerID = ilr_CustomerID req,
               agi_productID = dp_id p, agi_licenseID = lic_id l, agi_source = request_source req,
               agi_now = now\<rparr>"
        have src: "request_source req \<noteq> []" by (simp add: request_source_def sourceAdmin_def)
        have ng: "newAccessGrant f2 wall ?ginp = (case parseSource (request_source req) of Err e \<Rightarrow> Err e
           | Ok _ \<Rightarrow> Ok \<lparr>ag_id = f2, ag_tenantID = trim_space (ilr_TenantID req),
              ag_customerID = ilr_CustomerID req, ag_productID = dp_id p,
              ag_licenseID = f1, ag_grantedAt = or_now wall now, ag_source = request_source req\<rparr>)"
          using newAccessGrant_outcome [of ?ginp f2 wall] lf assms(4) src by (auto split: sum.split)
        show ?thesis
        proof (cases "parseSource (request_source req)")
          case (Inl e)
          then have "newAccessGrant f2 wall ?ginp = Err e" using ng by simp
          then have "(st', res) = (st\<lparr>dst_licenses := ls\<rparr>, Err (DomainError e))"
            using assms(1,3,5) t p key l c lv(1)
            unfolding issueLicense_def Let_def request_source_def [symmetric] by simp
          then show ?thesis using Inl lf lv(2) by auto
        next
          case (Inr u)
          let ?g = "\<lparr>ag_id = f2, ag_tenantID = trim_space (ilr_TenantID req),
              ag_customerID = ilr_CustomerID req, ag_productID = dp_id p,
              ag_licenseID = f1, ag_grantedAt = or_now wall now, ag_source = request_source req\<rparr>"
          have g: "newAccessGrant f2 wall ?ginp = Ok ?g" using ng Inr by simp
          obtain gs gres where u: "gp_upsert gport cx (ilr_TenantID req) ?g (dst_grants st) = (gs, gres)"
            by fastforce
          have gv: "gres = Ok ()" "gview gs = (gview (dst_grants st))((ilr_TenantID req,
              gkey (ilr_CustomerID req) (dp_id p)) \<mapsto> ?g)"
            using gp_upsert_cases [OF u] pv(1) by auto
          have r: "res = Ok \<lparr>ilt_License = l, ilt_Grant = ?g, ilt_Product = p\<rparr>"
            "dst_licenses st' = ls" "dst_grants st' = gs" "dst_products st' = dst_products st"
            using assms(1-3,5) t p key l c lv(1) g u gv(1)
            unfolding issueLicense_def Let_def request_source_def [symmetric] by auto
          show ?thesis
            using r lf lv(2) gv(2) pv key by (intro disjI2 exI [of _ "\<lparr>ilt_License = l, ilt_Grant = ?g, ilt_Product = p\<rparr>"]
                exI [of _ l] exI [of _ ?g] exI [of _ p]) simp
        qed
      qed
    qed
  qed
qed

lemma revoke_outcomes:
  assumes "ds_licenses s = lport" and "keyed (lview (dst_licenses st))"
    and "revokeLicense s cx wall now t i st = (st', res)"
  shows "(\<exists>e. res = Err e \<and> st' = st)
    \<or> (\<exists>l0 l. res = Ok l \<and> lview (dst_licenses st) (t, i) = Some l0 \<and> lic_state l0 = StateActive
         \<and> l = l0\<lparr>lic_state := StateRevoked, lic_updatedAt := or_now wall now\<rparr>
         \<and> lview (dst_licenses st') = (lview (dst_licenses st))((t, i) \<mapsto> l))"
proof (cases "t = [] \<or> cx \<or> lview (dst_licenses st) (t, i) = None")
  case True
  then show ?thesis
    using assms(1,3) by (intro disjI1) (auto simp: revokeLicense_def lp_get_law split: if_splits)
next
  case False
  then obtain l0 where l0: "lview (dst_licenses st) (t, i) = Some l0" "\<not> cx" "t \<noteq> []" by auto
  have lid: "lic_id l0 = i" using assms(2) l0(1) by (simp add: keyed_def)
  have get: "lp_get (ds_licenses s) cx t i (dst_licenses st) = Ok l0"
    using assms(1) l0 by (simp add: lp_get_law)
  show ?thesis
  proof (cases "lic_state l0 = StateActive")
    case True
    let ?l = "l0\<lparr>lic_state := StateRevoked, lic_updatedAt := or_now wall now\<rparr>"
    have app: "license_apply wall l0 TransitionRevoke now = Ok ?l"
      using True by (simp add: license_apply_def nextLState_def licence_table_def mget_def)
    obtain r' where r': "lp_saveState lport cx t ?l (dst_licenses st) = (r', Ok ())"
        "lview r' = (lview (dst_licenses st))((t, i) \<mapsto> ?l)"
      using lp_save_law [of "dst_licenses st" t ?l cx] l0 lid by auto
    have "res = Ok ?l" "dst_licenses st' = r'"
      using assms(1,3) l0(3) get app r'(1) unfolding revokeLicense_def Let_def
      by (auto split: sum.splits)
    then show ?thesis using l0 True r'(2) by blast
  next
    case False
    then have "license_apply wall l0 TransitionRevoke now = Err ErrInvalidTransition"
      by (cases "lic_state l0") (simp_all add: license_apply_def nextLState_def licence_table_def mget_def)
    then show ?thesis using assms(1,3) l0(3) get by (intro disjI1) (auto simp: revokeLicense_def)
  qed
qed

lemma exec_keeps_dead:
  assumes "ds_licenses s = lport" "ds_grants s = gport" "ds_products s = pport"
    and "keyed (lview (dst_licenses st))" and "lview (dst_licenses st) (t, i) = Some l"
    and "lic_state l \<noteq> StateActive" and "fresh_for i c"
  shows "keyed (lview (dst_licenses (dig_exec s cx wall now c st)))
    \<and> lview (dst_licenses (dig_exec s cx wall now c st)) (t, i) = Some l"
proof (cases c)
  case (OpIssue f1 f2 req)
  obtain st' res where r: "issueLicense s cx wall now f1 f2 req st = (st', res)" by fastforce
  have f: "f1 \<noteq> uuid_nil" "f1 \<noteq> i" using OpIssue assms(7) by simp_all
  from issue_outcomes [OF assms(1-3) f(1) r]
  have "st' = st \<or> (\<exists>l'. lic_id l' = f1 \<and>
      lview (dst_licenses st') = (lview (dst_licenses st))((ilr_TenantID req, f1) \<mapsto> l'))" by blast
  then show ?thesis using OpIssue r f(2) assms(4,5) by (auto simp: keyed_upd)
next
  case (OpRevoke t' i')
  obtain st' res where r: "revokeLicense s cx wall now t' i' st = (st', res)" by fastforce
  from revoke_outcomes [OF assms(1,4) r] show ?thesis
  proof (elim disjE exE conjE)
    fix l0 l' assume x: "lview (dst_licenses st) (t', i') = Some l0" "lic_state l0 = StateActive"
      "l' = l0\<lparr>lic_state := StateRevoked, lic_updatedAt := or_now wall now\<rparr>"
      "lview (dst_licenses st') = (lview (dst_licenses st))((t', i') \<mapsto> l')"
    then have "(t', i') \<noteq> (t, i)" using assms(5,6) by auto
    moreover have "lic_id l' = i'" using x keyed_id [OF assms(4)] by simp
    ultimately show ?thesis using OpRevoke r x(4) assms(4,5) by (auto simp: keyed_upd)
  qed (use OpRevoke r assms(4,5) in auto)
next
  case (OpDownload t' i' c' ttl uses)
  then show ?thesis using assms(4,5) by (simp add: issueDownload_licenses)
qed

lemma history_keeps_dead:
  assumes "ds_licenses s = lport" "ds_grants s = gport" "ds_products s = pport"
    and "keyed (lview (dst_licenses st))" and "lview (dst_licenses st) (t, i) = Some l"
    and "lic_state l \<noteq> StateActive" and "\<forall>(cx, now, c) \<in> set cs. fresh_for i c"
  shows "lview (dst_licenses (dig_history s wall cs st)) (t, i) = Some l"
  using assms
proof (induction s wall cs st rule: dig_history.induct)
  case (2 s wall cx now c cs st)
  have "fresh_for i c" using "2.prems"(7) by simp
  from exec_keeps_dead [OF "2.prems"(1-6) this, of cx wall now] show ?case
    using "2.IH" "2.prems" by simp
qed simp

lemma download_refused:
  assumes "ds_licenses s = lport" and "lview (dst_licenses st) (t, i) = Some l"
    and "checkActive l now \<noteq> Ok ()"
  shows "\<exists>e. issueDownload s cx wall now t i c ttl uses st = (st, Err e)"
proof -
  obtain e where e: "checkActive l now = Err e" using assms(3) by (cases "checkActive l now") auto
  then show ?thesis
    using assms(1,2) by (auto simp: issueDownload_def lp_get_law split: option.split)
qed

end

subsection \<open>Properties of the service on the in-memory repositories\<close>

lemma mem_license_get_Ok:
  "mem_license_get cx t i r = Ok l \<longleftrightarrow> \<not> cx \<and> nested_view r (t, i) = Some l"
  by (simp add: mem_license_get_def nested_view_def split: option.split)

text \<open>C30: Revoking a licence is final. Once \<open>RevokeLicense\<close> has succeeded, then after any
  history of further licences issued, licences revoked and downloads requested, in any
  tenant, every download request for that licence, by any customer and at any time, is
  refused and changes nothing.\<close>

theorem revoked_license_never_downloads:
  assumes "ds_licenses s = mem_licenses it1" "ds_grants s = mem_grants ustr it2" "ds_products s = mem_products it3"
    and "keyed (nested_view (dst_licenses st))"
    and "revokeLicense s cx wall now t i st = (st1, Ok l)"
    and "\<forall>(cx, now, c) \<in> set cs. fresh_for i c"
  shows "\<exists>e. issueDownload s cx' wall now' t i c ttl uses (dig_history s wall cs st1)
    = (dig_history s wall cs st1, Err e)"
proof -
  from mdr.revoke_outcomes [OF assms(1,4,5)]
  have l: "lic_state l = StateRevoked" and v: "nested_view (dst_licenses st1) (t, i) = Some l"
    and k: "keyed (nested_view (dst_licenses st1))"
    using assms(4) by (auto simp: keyed_upd keyed_id)
  have "nested_view (dst_licenses (dig_history s wall cs st1)) (t, i) = Some l"
    by (rule mdr.history_keeps_dead [OF assms(1-3) k v _ assms(6)]) (simp add: l)
  then show ?thesis
    using mdr.download_refused [OF assms(1), of "dig_history s wall cs st1" t i l now'] l
    by (simp add: checkActive_def)
qed

definition sample_product :: digital_product where
  "sample_product = \<lparr>dp_id = 2, dp_tenantID = ''acme'', dp_sku = ''EBOOK'', dp_name = ''Book'',
     dp_description = [], dp_filePath = ''f'', dp_fileSize = 9, dp_contentType = [],
     dp_checksum = [], dp_version = ''1'', dp_createdAt = 0, dp_updatedAt = 0\<rparr>"

definition sample_ustr :: "uuid \<Rightarrow> string" where
  "sample_ustr u = replicate (unat u) (CHR ''x'')"

definition sample_digital_service :: "(product_store, license_store, grant_store) digital_service" where
  "sample_digital_service = \<lparr>ds_products = mem_products (\<lambda>xs. xs), ds_licenses = mem_licenses (\<lambda>xs. xs),
     ds_grants = mem_grants sample_ustr (\<lambda>xs. xs), ds_keys = (\<lambda>t seed. Ok ''KEY''),
     ds_issuer = Some (\<lambda>r. Err ''down''), ds_publisher = True, ds_source = [], ds_ustr = sample_ustr\<rparr>"

definition sample_digital_state :: "(product_store, license_store, grant_store) digital_state" where
  "sample_digital_state = \<lparr>dst_products = nput ''acme'' 2 sample_product [],
     dst_licenses = nput ''acme'' 1 sample_license [], dst_grants = [], dst_published = []\<rparr>"

lemma sample_digital_service_ports:
  "ds_licenses sample_digital_service = mem_licenses (\<lambda>xs. xs)"
  "ds_grants sample_digital_service = mem_grants sample_ustr (\<lambda>xs. xs)"
  "ds_products sample_digital_service = mem_products (\<lambda>xs. xs)"
  by (simp_all add: sample_digital_service_def)

lemma sample_digital_keyed: "keyed (nested_view (dst_licenses sample_digital_state))"
  by (simp add: sample_digital_state_def sample_license_def keyed_def) (simp add: nested_view_def)

theorem revoked_license_never_downloads_witness:
  "\<exists>st1 l e. revokeLicense sample_digital_service False 0 60 ''acme'' 1 sample_digital_state = (st1, Ok l)
     \<and> snd (issueDownload sample_digital_service False 0 70 ''acme'' 1 3 60 1 st1) = Err e"
proof -
  have ok: "is_ok (snd (revokeLicense sample_digital_service False 0 60 ''acme'' 1 sample_digital_state))"
    by code_simp
  obtain st1 res where r: "revokeLicense sample_digital_service False 0 60 ''acme'' 1 sample_digital_state = (st1, res)"
    by fastforce
  with ok obtain l where "res = Ok l" by (auto simp: is_ok_iff)
  with r have r': "revokeLicense sample_digital_service False 0 60 ''acme'' 1 sample_digital_state = (st1, Ok l)"
    by simp
  from revoked_license_never_downloads [OF sample_digital_service_ports sample_digital_keyed r', of "[]" False 70 3 60 1]
  obtain e where "issueDownload sample_digital_service False 0 70 ''acme'' 1 3 60 1 st1 = (st1, Err e)" by auto
  with r' show ?thesis by (intro exI [of _ st1] exI [of _ l] exI [of _ e]) simp
qed

text \<open>A successful \<open>IssueLicense\<close> delivers: the licence is stored under its tenant, active
  and usable at the time of issue, for the customer and the product that was looked up, with
  the key the generator made; and the access grant that the customer is found by points at
  it. Nothing else in the licence store changes.\<close>

theorem issueLicense_delivers:
  assumes "ds_licenses s = mem_licenses it1" "ds_grants s = mem_grants ustr it2" "ds_products s = mem_products it3"
    and "f1 \<noteq> uuid_nil" and "\<not> time_is_zero now"
    and "issueLicense s cx wall now f1 f2 req st = (st', Ok res)"
  shows "mem_license_get False (ilr_TenantID req) f1 (dst_licenses st') = Ok (ilt_License res)
    \<and> checkActive (ilt_License res) now = Ok ()
    \<and> lic_customerID (ilt_License res) = ilr_CustomerID req
    \<and> mem_product_get False (ilr_TenantID req) (ilr_ProductID req) (dst_products st) = Ok (ilt_Product res)
    \<and> lic_productID (ilt_License res) = dp_id (ilt_Product res)
    \<and> mem_grant_getByCustomerProduct ustr False (ilr_TenantID req) (ilr_CustomerID req)
         (dp_id (ilt_Product res)) (dst_grants st') = Ok (ilt_Grant res)
    \<and> ag_licenseID (ilt_Grant res) = f1
    \<and> (\<forall>t i. (t, i) \<noteq> (ilr_TenantID req, f1) \<longrightarrow>
         mem_license_get False t i (dst_licenses st') = mem_license_get False t i (dst_licenses st))"
proof -
  from mdr.issue_outcomes [OF assms(1-4,6)]
  obtain l g p where r: "res = \<lparr>ilt_License = l, ilt_Grant = g, ilt_Product = p\<rparr>"
    "nested_view (dst_products st) (ilr_TenantID req, ilr_ProductID req) = Some p"
    "lic_state l = StateActive" "lic_productID l = dp_id p" "lic_customerID l = ilr_CustomerID req"
    "lic_expiresAt l = ilr_ExpiresAt req"
    "time_is_zero (ilr_ExpiresAt req) \<or> or_now wall now < ilr_ExpiresAt req"
    "ag_licenseID g = f1"
    "nested_view (dst_licenses st') = (nested_view (dst_licenses st))((ilr_TenantID req, f1) \<mapsto> l)"
    "nested_view (dst_grants st') = (nested_view (dst_grants st))((ilr_TenantID req,
        grantKey ustr (ilr_CustomerID req) (dp_id p)) \<mapsto> g)"
    by auto
  have "checkActive l now = Ok ()" using r(3,6,7) assms(5) by (simp add: checkActive_def)
  moreover have "mem_license_get False t i (dst_licenses st') = mem_license_get False t i (dst_licenses st)"
    if "(t, i) \<noteq> (ilr_TenantID req, f1)" for t i
    using fun_cong [OF r(9), of "(t, i)"] that by (auto simp: mem_license_get_def nested_view_def)
  moreover have "mem_product_get False (ilr_TenantID req) (ilr_ProductID req) (dst_products st) = Ok p"
    using r(2) by (simp add: mem_product_get_def nested_view_def)
  moreover have "mem_grant_getByCustomerProduct ustr False (ilr_TenantID req) (ilr_CustomerID req)
         (dp_id p) (dst_grants st') = Ok g"
    using fun_cong [OF r(10), of "(ilr_TenantID req, grantKey ustr (ilr_CustomerID req) (dp_id p))"]
    by (simp add: mem_grant_getByCustomerProduct_def nested_view_def)
  moreover have "mem_license_get False (ilr_TenantID req) f1 (dst_licenses st') = Ok l"
    using r(9) by (simp add: mem_license_get_Ok)
  ultimately show ?thesis using r(1,4,5,8) by simp
qed

definition sample_request :: "grant_source \<Rightarrow> issue_license_request" where
  "sample_request src = \<lparr>ilr_TenantID = ''acme'', ilr_CustomerID = 3, ilr_ProductID = 2,
     ilr_Source = src, ilr_MaxActivations = 0, ilr_ExpiresAt = zero_time\<rparr>"

theorem issueLicense_delivers_witness:
  "\<exists>st' res. issueLicense sample_digital_service False 0 60 7 8 (sample_request ''purchase'') sample_digital_state
      = (st', Ok res) \<and> mem_license_get False ''acme'' 7 (dst_licenses st') = Ok (ilt_License res)"
proof -
  have ok: "is_ok (snd (issueLicense sample_digital_service False 0 60 7 8 (sample_request ''purchase'')
      sample_digital_state))" by code_simp
  obtain st' r where r: "issueLicense sample_digital_service False 0 60 7 8 (sample_request ''purchase'')
      sample_digital_state = (st', r)" by fastforce
  with ok obtain res where "r = Ok res" by (auto simp: is_ok_iff)
  with r have r': "issueLicense sample_digital_service False 0 60 7 8 (sample_request ''purchase'')
      sample_digital_state = (st', Ok res)" by simp
  from issueLicense_delivers [OF sample_digital_service_ports _ _ r'] r' show ?thesis
    by (auto simp: uuid_nil_def time_is_zero_def zero_time_def sample_request_def)
qed

text \<open>\<open>IssueLicense\<close> fails cleanly in every case but one: if it reports an error, no store
  and no event has changed, unless the source of the request is not one the domain knows. That
  is only found out after the licence has been stored: then an active licence stays behind
  that has no access grant.\<close>

theorem issueLicense_failure:
  assumes "ds_licenses s = mem_licenses it1" "ds_grants s = mem_grants ustr it2" "ds_products s = mem_products it3"
    and "f1 \<noteq> uuid_nil" and "issueLicense s cx wall now f1 f2 req st = (st', Err e)"
  shows "st' = st \<or> \<not> is_ok (parseSource (request_source req)) \<and> dst_grants st' = dst_grants st
    \<and> (\<exists>l. mem_license_get False (ilr_TenantID req) f1 (dst_licenses st') = Ok l \<and> lic_state l = StateActive)"
  using mdr.issue_outcomes [OF assms(1-5)] by (auto simp: mem_license_get_Ok)

theorem issueLicense_failure_witness:
  "\<exists>st' e l. issueLicense sample_digital_service False 0 60 7 8 (sample_request ''refund'') sample_digital_state
      = (st', Err e) \<and> mem_license_get False ''acme'' 7 (dst_licenses st') = Ok l \<and> dst_grants st' = []"
proof -
  have no: "\<not> is_ok (snd (issueLicense sample_digital_service False 0 60 7 8 (sample_request ''refund'')
      sample_digital_state))"
    and stored: "is_ok (mem_license_get False ''acme'' 7 (dst_licenses (fst (issueLicense sample_digital_service
        False 0 60 7 8 (sample_request ''refund'') sample_digital_state))))"
    and old: "\<not> is_ok (mem_license_get False ''acme'' 7 (dst_licenses sample_digital_state))"
    by code_simp+
  obtain st' r where r: "issueLicense sample_digital_service False 0 60 7 8 (sample_request ''refund'')
      sample_digital_state = (st', r)" by fastforce
  with no obtain e where "r = Err e" by (cases r) auto
  with r have r': "issueLicense sample_digital_service False 0 60 7 8 (sample_request ''refund'')
      sample_digital_state = (st', Err e)" by simp
  have "st' \<noteq> sample_digital_state" using stored old r' by auto
  with issueLicense_failure [OF sample_digital_service_ports _ r'] r' show ?thesis
    by (auto simp: uuid_nil_def sample_request_def sample_digital_state_def)
qed

end

