(* ===== verification/Billing.thy ===== *)
theory Billing
  imports Lifecycle "HOL-Library.List_Lexorder" "HOL-Library.Char_ord"
begin

text \<open>
  The data of the billing bounded context, \<open>internal/billing\<close>: the subscription state
  machine (\<open>state.go\<close>), the subscription and invoice values (\<open>subscription.go\<close>), the
  in-memory repository and plan catalogue (\<open>inmemory.go\<close>), and the repository port
  (\<open>service.go\<close>) as a locale, interpreted on the in-memory repository.

  A \<open>State\<close> is a typed string: \<open>StateOther\<close> stands for every string that is not one of
  the five constants, the empty string included; \<open>bstate_of\<close> is the conversion from string. The repository's read methods return the
  value only, its write methods the new repository and the error. \<open>sort.Slice\<close> is not
  stable and the rows come from a map, so listing takes the order \<open>it\<close> in which the rows
  happen to arrive as an argument.
\<close>

datatype billing_error =
    ErrSubscriptionNotFound
  | ErrInvoiceNotFound
  | ErrInvalidTransition
  | ErrInvalidTransitionName
  | ErrInvalidState
  | ErrInvalidInvoiceStatus
  | ErrTenantRequired
  | ErrPlanNotFound
  | ErrSubscriptionAlreadyExists
  | ErrStripeEventIDRequired
  | ErrSliceBounds

subsection \<open>The state machine\<close>

datatype bstate =
  StateTrialing | StateActive | StatePastDue | StatePaused | StateCanceled | StateOther string

datatype btransition =
    TransitionActivate | TransitionMarkPastDue | TransitionRecover
  | TransitionPause | TransitionResume | TransitionCancel

definition bstate_of :: "string \<Rightarrow> bstate" where
  "bstate_of v =
     (if v = ''trialing'' then StateTrialing
      else if v = ''active'' then StateActive
      else if v = ''past_due'' then StatePastDue
      else if v = ''paused'' then StatePaused
      else if v = ''canceled'' then StateCanceled
      else StateOther v)"

fun bstate_string :: "bstate \<Rightarrow> string" where
  "bstate_string StateTrialing = ''trialing''"
| "bstate_string StateActive = ''active''"
| "bstate_string StatePastDue = ''past_due''"
| "bstate_string StatePaused = ''paused''"
| "bstate_string StateCanceled = ''canceled''"
| "bstate_string (StateOther v) = v"

definition billing_table :: "(bstate, btransition) table" where
  "billing_table =
     [(StateTrialing, [(TransitionActivate, StateActive), (TransitionCancel, StateCanceled)]),
      (StateActive, [(TransitionMarkPastDue, StatePastDue), (TransitionPause, StatePaused),
                     (TransitionCancel, StateCanceled)]),
      (StatePastDue, [(TransitionRecover, StateActive), (TransitionCancel, StateCanceled)]),
      (StatePaused, [(TransitionResume, StateActive), (TransitionCancel, StateCanceled)])]"

definition bstate_isTerminal :: "bstate \<Rightarrow> bool" where
  "bstate_isTerminal s \<longleftrightarrow> mget billing_table s = None"

fun canonical_bstate :: "bstate \<Rightarrow> bool" where
  "canonical_bstate (StateOther _) \<longleftrightarrow> False"
| "canonical_bstate _ \<longleftrightarrow> True"

definition parseBState :: "string \<Rightarrow> billing_error + bstate" where
  "parseBState v =
     (case bstate_of v of
        StateOther _ \<Rightarrow> Err ErrInvalidState
      | s \<Rightarrow> Ok s)"

definition parseBTransition :: "string \<Rightarrow> billing_error + btransition" where
  "parseBTransition v =
     (if v = ''activate'' then Ok TransitionActivate
      else if v = ''mark_past_due'' then Ok TransitionMarkPastDue
      else if v = ''recover'' then Ok TransitionRecover
      else if v = ''pause'' then Ok TransitionPause
      else if v = ''resume'' then Ok TransitionResume
      else if v = ''cancel'' then Ok TransitionCancel
      else Err ErrInvalidTransitionName)"

definition nextBState :: "bstate \<Rightarrow> btransition \<Rightarrow> billing_error + bstate" where
  "nextBState from t =
     (case mget billing_table from of
        None \<Rightarrow> Err ErrInvalidTransition
      | Some moves \<Rightarrow>
          (case mget moves t of
             None \<Rightarrow> Err ErrInvalidTransition
           | Some to' \<Rightarrow> Ok to'))"

definition allBTransitions :: "(bstate \<times> btransition \<times> bstate) list" where
  "allBTransitions =
     concat (map (\<lambda>(from, moves). map (\<lambda>(t, to'). (from, t, to')) moves) billing_table)"

definition bstep :: "bstate \<Rightarrow> btransition \<Rightarrow> bstate option" where
  "bstep = table_next billing_table"

lemma billing_table_wf: "table_wf billing_table"
  by (simp add: table_wf_def billing_table_def mwf_def mvalues_def)

lemma nextBState_Ok [go_ok]: "nextBState s t = Ok d \<longleftrightarrow> bstep s t = Some d"
  by (auto simp: nextBState_def bstep_def table_next_def split: option.splits)

lemma nextBState_Err: "nextBState s t = Err e \<longleftrightarrow> bstep s t = None \<and> e = ErrInvalidTransition"
  by (auto simp: nextBState_def bstep_def table_next_def split: option.splits)

lemma bstate_isTerminal_iff:
  "bstate_isTerminal s \<longleftrightarrow> s = StateCanceled \<or> \<not> canonical_bstate s"
  by (cases s) (simp_all add: bstate_isTerminal_def billing_table_def mget_def)

interpretation bl: abandonable bstep bstate_isTerminal TransitionCancel
proof
  show "bstate_isTerminal s \<longleftrightarrow> (\<forall>t. bstep s t = None)" for s
    using table_terminal_iff [OF billing_table_wf] by (simp add: bstate_isTerminal_def bstep_def)
  show "\<not> bstate_isTerminal s \<Longrightarrow> \<exists>d. bstep s TransitionCancel = Some d \<and> bstate_isTerminal d" for s
    by (cases s) (simp_all add: bstate_isTerminal_def bstep_def table_next_def billing_table_def mget_def)
qed

lemma bstate_of_string: "bstate_of (bstate_string s) = s \<or> (\<exists>v. s = StateOther v)"
  by (cases s) (simp_all add: bstate_of_def)

lemma bstate_of_other: "bstate_of v = StateOther w \<Longrightarrow> w = v"
  by (auto simp: bstate_of_def split: if_splits)

lemma parseBState_Ok: "parseBState v = Ok s \<longleftrightarrow> bstate_of v = s \<and> canonical_bstate s"
  unfolding parseBState_def by (cases "bstate_of v") auto

lemma bstep_canonical: "bstep s t = Some d \<Longrightarrow> canonical_bstate s \<and> canonical_bstate d"
  by (cases s; cases t) (auto simp: bstep_def table_next_def billing_table_def mget_def)

subsection \<open>Subscriptions and invoices\<close>

record bsub =
  bs_ID :: string
  bs_TenantID :: string
  bs_PlanID :: string
  bs_State :: bstate
  bs_StripeSubscriptionID :: string
  bs_StripeCustomerID :: string
  bs_CurrentPeriodStart :: gotime
  bs_CurrentPeriodEnd :: gotime
  bs_CancelAtPeriodEnd :: bool
  bs_CreatedAt :: gotime
  bs_UpdatedAt :: gotime

definition zero_bsub :: bsub where
  "zero_bsub = \<lparr>bs_ID = [], bs_TenantID = [], bs_PlanID = [], bs_State = StateOther [],
     bs_StripeSubscriptionID = [], bs_StripeCustomerID = [], bs_CurrentPeriodStart = zero_time,
     bs_CurrentPeriodEnd = zero_time, bs_CancelAtPeriodEnd = False,
     bs_CreatedAt = zero_time, bs_UpdatedAt = zero_time\<rparr>"

record bsub_input =
  bi_ID :: string
  bi_TenantID :: string
  bi_PlanID :: string
  bi_StripeSubscriptionID :: string
  bi_StripeCustomerID :: string
  bi_State :: string
  bi_CurrentPeriodStart :: gotime
  bi_CurrentPeriodEnd :: gotime
  bi_Now :: gotime

definition newBSubscription :: "gotime \<Rightarrow> bsub_input \<Rightarrow> billing_error + bsub" where
  "newBSubscription clock inp =
     (if trim_space (bi_ID inp) = [] then Err ErrSubscriptionNotFound
      else if trim_space (bi_TenantID inp) = [] then Err ErrTenantRequired
      else if trim_space (bi_PlanID inp) = [] then Err ErrPlanNotFound
      else let state = (if bi_State inp = [] then bstate_string StateTrialing else bi_State inp) in
      case parseBState state of
        Err e \<Rightarrow> Err e
      | Ok _ \<Rightarrow>
          let now = or_now clock (bi_Now inp) in
          Ok \<lparr>bs_ID = bi_ID inp, bs_TenantID = bi_TenantID inp, bs_PlanID = bi_PlanID inp,
              bs_State = bstate_of state,
              bs_StripeSubscriptionID = trim_space (bi_StripeSubscriptionID inp),
              bs_StripeCustomerID = trim_space (bi_StripeCustomerID inp),
              bs_CurrentPeriodStart = bi_CurrentPeriodStart inp,
              bs_CurrentPeriodEnd = bi_CurrentPeriodEnd inp,
              bs_CancelAtPeriodEnd = False, bs_CreatedAt = now, bs_UpdatedAt = now\<rparr>)"

definition bsub_apply :: "gotime \<Rightarrow> bsub \<Rightarrow> btransition \<Rightarrow> gotime \<Rightarrow> billing_error + bsub" where
  "bsub_apply clock s t now =
     (case nextBState (bs_State s) t of
        Err e \<Rightarrow> Err e
      | Ok target \<Rightarrow> Ok (s\<lparr>bs_State := target, bs_UpdatedAt := or_now clock now\<rparr>))"

datatype invoice_status =
  InvoiceOpen | InvoicePaid | InvoiceVoid | InvoiceUncollectible | InvoiceOther string

definition parseInvoiceStatus :: "string \<Rightarrow> billing_error + invoice_status" where
  "parseInvoiceStatus v =
     (if v = ''open'' then Ok InvoiceOpen
      else if v = ''paid'' then Ok InvoicePaid
      else if v = ''void'' then Ok InvoiceVoid
      else if v = ''uncollectible'' then Ok InvoiceUncollectible
      else Err ErrInvalidInvoiceStatus)"

record invoice =
  inv_ID :: string
  inv_TenantID :: string
  inv_SubscriptionID :: string
  inv_Amount :: int
  inv_Currency :: string
  inv_Status :: invoice_status
  inv_PeriodStart :: gotime
  inv_PeriodEnd :: gotime
  inv_CreatedAt :: gotime
  inv_UpdatedAt :: gotime

lemma newBSubscription_Ok [go_ok]:
  "newBSubscription clock inp = Ok s \<longleftrightarrow>
     trim_space (bi_ID inp) \<noteq> [] \<and> trim_space (bi_TenantID inp) \<noteq> []
     \<and> trim_space (bi_PlanID inp) \<noteq> []
     \<and> (let state = (if bi_State inp = [] then bstate_string StateTrialing else bi_State inp);
            now = or_now clock (bi_Now inp) in
        is_ok (parseBState state)
        \<and> s = \<lparr>bs_ID = bi_ID inp, bs_TenantID = bi_TenantID inp, bs_PlanID = bi_PlanID inp,
              bs_State = bstate_of state,
              bs_StripeSubscriptionID = trim_space (bi_StripeSubscriptionID inp),
              bs_StripeCustomerID = trim_space (bi_StripeCustomerID inp),
              bs_CurrentPeriodStart = bi_CurrentPeriodStart inp,
              bs_CurrentPeriodEnd = bi_CurrentPeriodEnd inp,
              bs_CancelAtPeriodEnd = False, bs_CreatedAt = now, bs_UpdatedAt = now\<rparr>)"
  unfolding newBSubscription_def Let_def is_ok_iff by (auto split: sum.splits)

lemma bsub_apply_Ok [go_ok]:
  "bsub_apply clock s t now = Ok s' \<longleftrightarrow>
     (\<exists>d. bstep (bs_State s) t = Some d
        \<and> s' = s\<lparr>bs_State := d, bs_UpdatedAt := or_now clock now\<rparr>)"
  unfolding bsub_apply_def by (auto simp: go_ok split: sum.splits)

subsection \<open>The repository port\<close>

record subscription_list =
  sl_Subscriptions :: "bsub list"
  sl_Total :: int

record invoice_list =
  il_Invoices :: "invoice list"
  il_Total :: int

record 'r billing_repository =
  br_createSubscription :: "bsub \<Rightarrow> 'r \<Rightarrow> 'r \<times> (billing_error + unit)"
  br_getSubscription :: "string \<Rightarrow> string \<Rightarrow> 'r \<Rightarrow> billing_error + bsub"
  br_getSubscriptionByStripeID :: "string \<Rightarrow> string \<Rightarrow> 'r \<Rightarrow> billing_error + bsub"
  br_listSubscriptions :: "string \<Rightarrow> int \<Rightarrow> int \<Rightarrow> 'r \<Rightarrow> billing_error + subscription_list"
  br_saveSubscription :: "bsub \<Rightarrow> 'r \<Rightarrow> 'r \<times> (billing_error + unit)"
  br_upsertInvoice :: "invoice \<Rightarrow> 'r \<Rightarrow> 'r \<times> (billing_error + unit)"
  br_getInvoice :: "string \<Rightarrow> string \<Rightarrow> 'r \<Rightarrow> billing_error + invoice"
  br_listInvoices :: "string \<Rightarrow> int \<Rightarrow> int \<Rightarrow> 'r \<Rightarrow> billing_error + invoice_list"
  br_stripeEventSeen :: "string \<Rightarrow> 'r \<Rightarrow> billing_error + bool"
  br_stripeEventRecord :: "string \<Rightarrow> string \<Rightarrow> gotime \<Rightarrow> 'r \<Rightarrow> 'r \<times> (billing_error + unit)"

subsection \<open>The in-memory repository\<close>

record stripe_event_row =
  se_EventID :: string
  se_EventType :: string
  se_OccurredAt :: gotime

record billing_mem =
  bm_subs :: "(string, string, bsub) gomap2"
  bm_subStripe :: "(string, string, string) gomap2"
  bm_invoices :: "(string, string, invoice) gomap2"
  bm_events :: "(string, stripe_event_row) gomap"

definition newInMemoryRepository :: billing_mem where
  "newInMemoryRepository = \<lparr>bm_subs = [], bm_subStripe = [], bm_invoices = [], bm_events = []\<rparr>"

definition index_stripe :: "bsub \<Rightarrow> billing_mem \<Rightarrow> billing_mem" where
  "index_stripe sub r =
     (if bs_StripeSubscriptionID sub \<noteq> []
      then r\<lparr>bm_subStripe := nput (bs_TenantID sub) (bs_StripeSubscriptionID sub) (bs_ID sub) (bm_subStripe r)\<rparr>
      else r)"

definition mem_createSubscription :: "bsub \<Rightarrow> billing_mem \<Rightarrow> billing_mem \<times> (billing_error + unit)" where
  "mem_createSubscription sub r =
     (if bs_TenantID sub = [] then (r, Err ErrTenantRequired)
      else if nget (bm_subs r) (bs_TenantID sub) (bs_ID sub) \<noteq> None
      then (r, Err ErrSubscriptionAlreadyExists)
      else (index_stripe sub (r\<lparr>bm_subs := nput (bs_TenantID sub) (bs_ID sub) sub (bm_subs r)\<rparr>), Ok ()))"

definition mem_getSubscription :: "string \<Rightarrow> string \<Rightarrow> billing_mem \<Rightarrow> billing_error + bsub" where
  "mem_getSubscription tenantID sid r =
     (if tenantID = [] then Err ErrTenantRequired
      else case mget (bm_subs r) tenantID of
        None \<Rightarrow> Err ErrSubscriptionNotFound
      | Some rows \<Rightarrow>
          (case mget rows sid of
             None \<Rightarrow> Err ErrSubscriptionNotFound
           | Some sub \<Rightarrow> Ok sub))"

definition mem_getSubscriptionByStripeID ::
  "string \<Rightarrow> string \<Rightarrow> billing_mem \<Rightarrow> billing_error + bsub" where
  "mem_getSubscriptionByStripeID tenantID stripeID r =
     (if tenantID = [] then Err ErrTenantRequired
      else case mget (bm_subStripe r) tenantID of
        None \<Rightarrow> Err ErrSubscriptionNotFound
      | Some rows \<Rightarrow>
          (case mget rows stripeID of
             None \<Rightarrow> Err ErrSubscriptionNotFound
           | Some sid \<Rightarrow>
               Ok (case nget (bm_subs r) tenantID sid of None \<Rightarrow> zero_bsub | Some sub \<Rightarrow> sub)))"

definition normalizePagination :: "int \<Rightarrow> int \<Rightarrow> int \<times> int" where
  "normalizePagination page perPage =
     (let page = (if page < 1 then 1 else page);
          perPage = (if perPage < 1 then 20 else perPage);
          perPage = (if perPage > 100 then 100 else perPage)
      in (page, perPage))"

definition mem_listSubscriptions ::
  "(bsub list \<Rightarrow> bsub list) \<Rightarrow> string \<Rightarrow> int \<Rightarrow> int \<Rightarrow> billing_mem \<Rightarrow> billing_error + subscription_list" where
  "mem_listSubscriptions it tenantID page perPage r =
     (if tenantID = [] then Err ErrTenantRequired
      else let out = sort_key (\<lambda>s. - bs_CreatedAt s) (it (mvalues (nrows (bm_subs r) tenantID)));
               (page', perPage') = normalizePagination page perPage
           in case page_slice page' perPage' out of
                None \<Rightarrow> Err ErrSliceBounds
              | Some rows \<Rightarrow> Ok \<lparr>sl_Subscriptions = rows, sl_Total = int (length out)\<rparr>)"

definition mem_saveSubscription :: "bsub \<Rightarrow> billing_mem \<Rightarrow> billing_mem \<times> (billing_error + unit)" where
  "mem_saveSubscription sub r =
     (if bs_TenantID sub = [] then (r, Err ErrTenantRequired)
      else case mget (bm_subs r) (bs_TenantID sub) of
        None \<Rightarrow> (r, Err ErrSubscriptionNotFound)
      | Some rows \<Rightarrow>
          if mget rows (bs_ID sub) = None then (r, Err ErrSubscriptionNotFound)
          else (index_stripe sub
                  (r\<lparr>bm_subs := mput (bs_TenantID sub) (mput (bs_ID sub) sub rows) (bm_subs r)\<rparr>), Ok ()))"

definition mem_upsertInvoice :: "invoice \<Rightarrow> billing_mem \<Rightarrow> billing_mem \<times> (billing_error + unit)" where
  "mem_upsertInvoice v r =
     (if inv_TenantID v = [] then (r, Err ErrTenantRequired)
      else let v' = (case nget (bm_invoices r) (inv_TenantID v) (inv_ID v) of
                         None \<Rightarrow> v
                       | Some existing \<Rightarrow>
                           if \<not> time_is_zero (inv_CreatedAt existing)
                           then v\<lparr>inv_CreatedAt := inv_CreatedAt existing\<rparr> else v)
           in (r\<lparr>bm_invoices := nput (inv_TenantID v) (inv_ID v) v' (bm_invoices r)\<rparr>, Ok ()))"

definition mem_getInvoice :: "string \<Rightarrow> string \<Rightarrow> billing_mem \<Rightarrow> billing_error + invoice" where
  "mem_getInvoice tenantID sid r =
     (if tenantID = [] then Err ErrTenantRequired
      else case mget (bm_invoices r) tenantID of
        None \<Rightarrow> Err ErrInvoiceNotFound
      | Some rows \<Rightarrow>
          (case mget rows sid of
             None \<Rightarrow> Err ErrInvoiceNotFound
           | Some v \<Rightarrow> Ok v))"

definition mem_listInvoices ::
  "(invoice list \<Rightarrow> invoice list) \<Rightarrow> string \<Rightarrow> int \<Rightarrow> int \<Rightarrow> billing_mem \<Rightarrow> billing_error + invoice_list" where
  "mem_listInvoices it tenantID page perPage r =
     (if tenantID = [] then Err ErrTenantRequired
      else let out = sort_key (\<lambda>i. - inv_CreatedAt i) (it (mvalues (nrows (bm_invoices r) tenantID)));
               (page', perPage') = normalizePagination page perPage
           in case page_slice page' perPage' out of
                None \<Rightarrow> Err ErrSliceBounds
              | Some rows \<Rightarrow> Ok \<lparr>il_Invoices = rows, il_Total = int (length out)\<rparr>)"

definition mem_stripeEventSeen :: "string \<Rightarrow> billing_mem \<Rightarrow> billing_error + bool" where
  "mem_stripeEventSeen eventID r = Ok (mget (bm_events r) eventID \<noteq> None)"

definition mem_stripeEventRecord ::
  "string \<Rightarrow> string \<Rightarrow> gotime \<Rightarrow> billing_mem \<Rightarrow> billing_mem \<times> (billing_error + unit)" where
  "mem_stripeEventRecord eventID eventType occurredAt r =
     (if eventID = [] then (r, Err ErrStripeEventIDRequired)
      else (r\<lparr>bm_events := mput eventID
                \<lparr>se_EventID = eventID, se_EventType = eventType, se_OccurredAt = occurredAt\<rparr>
                (bm_events r)\<rparr>, Ok ()))"

definition inmemory_repository ::
  "(bsub list \<Rightarrow> bsub list) \<Rightarrow> (invoice list \<Rightarrow> invoice list) \<Rightarrow> billing_mem billing_repository" where
  "inmemory_repository its iti = \<lparr>br_createSubscription = mem_createSubscription,
     br_getSubscription = mem_getSubscription,
     br_getSubscriptionByStripeID = mem_getSubscriptionByStripeID,
     br_listSubscriptions = mem_listSubscriptions its,
     br_saveSubscription = mem_saveSubscription,
     br_upsertInvoice = mem_upsertInvoice, br_getInvoice = mem_getInvoice,
     br_listInvoices = mem_listInvoices iti,
     br_stripeEventSeen = mem_stripeEventSeen, br_stripeEventRecord = mem_stripeEventRecord\<rparr>"

subsection \<open>The contract of the repository\<close>

text \<open>
  What a client may rely on, stated over three views of the repository: the subscription
  under a tenant and an id, the id a Stripe id leads to, and the invoice under a tenant and
  an id. Keys carry the tenant, so every law also says that no other tenant is touched.
\<close>

definition stripe_update :: "bsub \<Rightarrow> (string \<times> string \<rightharpoonup> string) \<Rightarrow> (string \<times> string \<rightharpoonup> string)" where
  "stripe_update s m =
     (if bs_StripeSubscriptionID s = [] then m
      else m((bs_TenantID s, bs_StripeSubscriptionID s) \<mapsto> bs_ID s))"

definition keep_created :: "invoice option \<Rightarrow> invoice \<Rightarrow> invoice" where
  "keep_created old v =
     (case old of
        None \<Rightarrow> v
      | Some o' \<Rightarrow> if time_is_zero (inv_CreatedAt o') then v
                   else v\<lparr>inv_CreatedAt := inv_CreatedAt o'\<rparr>)"

locale billing_repo =
  fixes repo :: "'r billing_repository"
    and wf :: "'r \<Rightarrow> bool"
    and subs :: "'r \<Rightarrow> (string \<times> string \<rightharpoonup> bsub)"
    and stripe :: "'r \<Rightarrow> (string \<times> string \<rightharpoonup> string)"
    and invs :: "'r \<Rightarrow> (string \<times> string \<rightharpoonup> invoice)"
    and events :: "'r \<Rightarrow> string set"
  assumes key_law: "wf r \<Longrightarrow> subs r (t, i) = Some s \<Longrightarrow> bs_TenantID s = t \<and> bs_ID s = i \<and> t \<noteq> []"
    and index_law: "wf r \<Longrightarrow> stripe r (t, k) = Some i \<Longrightarrow> \<exists>s. subs r (t, i) = Some s"
    and get_law: "wf r \<Longrightarrow> br_getSubscription repo t i r =
          (if t = [] then Err ErrTenantRequired
           else case subs r (t, i) of None \<Rightarrow> Err ErrSubscriptionNotFound | Some s \<Rightarrow> Ok s)"
    and get_stripe_law: "wf r \<Longrightarrow> br_getSubscriptionByStripeID repo t k r =
          (if t = [] then Err ErrTenantRequired
           else case stripe r (t, k) of None \<Rightarrow> Err ErrSubscriptionNotFound
                | Some i \<Rightarrow> Ok (the (subs r (t, i))))"
    and create_law: "wf r \<Longrightarrow> bs_TenantID s \<noteq> [] \<Longrightarrow> subs r (bs_TenantID s, bs_ID s) = None \<Longrightarrow>
          \<exists>r'. wf r' \<and> br_createSubscription repo s r = (r', Ok ())
          \<and> subs r' = (subs r)((bs_TenantID s, bs_ID s) \<mapsto> s)
          \<and> stripe r' = stripe_update s (stripe r) \<and> invs r' = invs r \<and> events r' = events r"
    and create_refused_law: "wf r \<Longrightarrow> bs_TenantID s = [] \<or> subs r (bs_TenantID s, bs_ID s) \<noteq> None \<Longrightarrow>
          br_createSubscription repo s r =
            (r, Err (if bs_TenantID s = [] then ErrTenantRequired else ErrSubscriptionAlreadyExists))"
    and save_law: "wf r \<Longrightarrow> subs r (bs_TenantID s, bs_ID s) \<noteq> None \<Longrightarrow>
          \<exists>r'. wf r' \<and> br_saveSubscription repo s r = (r', Ok ())
          \<and> subs r' = (subs r)((bs_TenantID s, bs_ID s) \<mapsto> s)
          \<and> stripe r' = stripe_update s (stripe r) \<and> invs r' = invs r \<and> events r' = events r"
    and save_missing_law: "wf r \<Longrightarrow> subs r (bs_TenantID s, bs_ID s) = None \<Longrightarrow>
          br_saveSubscription repo s r =
            (r, Err (if bs_TenantID s = [] then ErrTenantRequired else ErrSubscriptionNotFound))"
    and invoice_law: "wf r \<Longrightarrow> inv_TenantID v \<noteq> [] \<Longrightarrow>
          \<exists>r'. wf r' \<and> br_upsertInvoice repo v r = (r', Ok ())
          \<and> invs r' = (invs r)((inv_TenantID v, inv_ID v) \<mapsto>
                keep_created (invs r (inv_TenantID v, inv_ID v)) v)
          \<and> subs r' = subs r \<and> stripe r' = stripe r \<and> events r' = events r"
    and invoice_missing_law: "wf r \<Longrightarrow> inv_TenantID v = [] \<Longrightarrow>
          br_upsertInvoice repo v r = (r, Err ErrTenantRequired)"
    and get_invoice_law: "wf r \<Longrightarrow> br_getInvoice repo t i r =
          (if t = [] then Err ErrTenantRequired
           else case invs r (t, i) of None \<Rightarrow> Err ErrInvoiceNotFound | Some v \<Rightarrow> Ok v)"
    and seen_law: "wf r \<Longrightarrow> br_stripeEventSeen repo e r = Ok (e \<in> events r)"
    and record_law: "wf r \<Longrightarrow> e \<noteq> [] \<Longrightarrow>
          \<exists>r'. wf r' \<and> br_stripeEventRecord repo e ty at r = (r', Ok ()) \<and> events r' = insert e (events r)
          \<and> subs r' = subs r \<and> stripe r' = stripe r \<and> invs r' = invs r"
begin

lemma save_get:
  assumes "wf r" and "subs r (bs_TenantID s, bs_ID s) \<noteq> None"
  shows "\<exists>r'. br_saveSubscription repo s r = (r', Ok ())
    \<and> br_getSubscription repo (bs_TenantID s) (bs_ID s) r' = Ok s"
proof -
  obtain s0 where "subs r (bs_TenantID s, bs_ID s) = Some s0" using assms(2) by auto
  then have "bs_TenantID s \<noteq> []" using key_law assms(1) by blast
  then show ?thesis using save_law [OF assms] get_law by fastforce
qed

end

subsection \<open>The in-memory repository keeps the contract\<close>

definition mem_sub_view :: "billing_mem \<Rightarrow> (string \<times> string \<rightharpoonup> bsub)" where
  "mem_sub_view r = (\<lambda>(t, i). nget (bm_subs r) t i)"

definition mem_stripe_view :: "billing_mem \<Rightarrow> (string \<times> string \<rightharpoonup> string)" where
  "mem_stripe_view r = (\<lambda>(t, k). nget (bm_subStripe r) t k)"

definition mem_invoice_view :: "billing_mem \<Rightarrow> (string \<times> string \<rightharpoonup> invoice)" where
  "mem_invoice_view r = (\<lambda>(t, i). nget (bm_invoices r) t i)"

definition mem_events_view :: "billing_mem \<Rightarrow> string set" where
  "mem_events_view r = {e. mget (bm_events r) e \<noteq> None}"

definition billing_mem_wf :: "billing_mem \<Rightarrow> bool" where
  "billing_mem_wf r \<longleftrightarrow>
     nwf (bm_subs r) \<and> nwf (bm_invoices r)
     \<and> (\<forall>t i s. mem_sub_view r (t, i) = Some s \<longrightarrow> bs_TenantID s = t \<and> bs_ID s = i \<and> t \<noteq> [])
     \<and> (\<forall>t k i. mem_stripe_view r (t, k) = Some i \<longrightarrow> mem_sub_view r (t, i) \<noteq> None)
     \<and> (\<forall>t i v. mem_invoice_view r (t, i) = Some v \<longrightarrow> inv_TenantID v = t \<and> inv_ID v = i \<and> t \<noteq> [])"

lemma billing_mem_wf_new: "billing_mem_wf newInMemoryRepository"
  by (simp add: billing_mem_wf_def newInMemoryRepository_def mem_sub_view_def mem_stripe_view_def
      mem_invoice_view_def)

lemma mget_nget: "(case mget m t of None \<Rightarrow> x | Some rows \<Rightarrow> (case mget rows i of None \<Rightarrow> x | Some s \<Rightarrow> f s))
    = (case nget m t i of None \<Rightarrow> x | Some s \<Rightarrow> f s)"
  by (simp add: nget_def nrows_def split: option.split)

lemma mem_getSubscription_view:
  "mem_getSubscription t i r =
     (if t = [] then Err ErrTenantRequired
      else case mem_sub_view r (t, i) of None \<Rightarrow> Err ErrSubscriptionNotFound | Some s \<Rightarrow> Ok s)"
  by (simp add: mem_getSubscription_def mem_sub_view_def mget_nget)

lemma mem_getSubscriptionByStripeID_view:
  "mem_getSubscriptionByStripeID t k r =
     (if t = [] then Err ErrTenantRequired
      else case mem_stripe_view r (t, k) of None \<Rightarrow> Err ErrSubscriptionNotFound
           | Some i \<Rightarrow> Ok (case mem_sub_view r (t, i) of None \<Rightarrow> zero_bsub | Some s \<Rightarrow> s))"
  by (simp add: mem_getSubscriptionByStripeID_def mem_stripe_view_def mget_nget)
     (simp add: mem_sub_view_def split: option.split)

lemma mem_getInvoice_view:
  "mem_getInvoice t i r =
     (if t = [] then Err ErrTenantRequired
      else case mem_invoice_view r (t, i) of None \<Rightarrow> Err ErrInvoiceNotFound | Some v \<Rightarrow> Ok v)"
  by (simp add: mem_getInvoice_def mem_invoice_view_def mget_nget)

definition store_sub :: "bsub \<Rightarrow> billing_mem \<Rightarrow> billing_mem" where
  "store_sub s r =
     index_stripe s (r\<lparr>bm_subs := nput (bs_TenantID s) (bs_ID s) s (bm_subs r)\<rparr>)"

lemma mem_createSubscription_store:
  "mem_createSubscription s r =
     (if bs_TenantID s = [] then (r, Err ErrTenantRequired)
      else if mem_sub_view r (bs_TenantID s, bs_ID s) \<noteq> None then (r, Err ErrSubscriptionAlreadyExists)
      else (store_sub s r, Ok ()))"
  by (simp add: mem_createSubscription_def store_sub_def mem_sub_view_def)

lemma mem_saveSubscription_store:
  "mem_saveSubscription s r =
     (if bs_TenantID s = [] then (r, Err ErrTenantRequired)
      else if mem_sub_view r (bs_TenantID s, bs_ID s) = None then (r, Err ErrSubscriptionNotFound)
      else (store_sub s r, Ok ()))"
  by (simp add: mem_saveSubscription_def store_sub_def mem_sub_view_def nput_def nget_def nrows_def
      split: option.split)

lemma store_sub_views:
  "mem_sub_view (store_sub s r) = (mem_sub_view r)((bs_TenantID s, bs_ID s) \<mapsto> s)"
  "mem_stripe_view (store_sub s r) = stripe_update s (mem_stripe_view r)"
  "mem_invoice_view (store_sub s r) = mem_invoice_view r"
  "mem_events_view (store_sub s r) = mem_events_view r"
  by (auto simp: mem_events_view_def store_sub_def index_stripe_def mem_sub_view_def mem_stripe_view_def
      mem_invoice_view_def stripe_update_def fun_eq_iff)

lemma store_sub_wf:
  assumes "billing_mem_wf r" and "bs_TenantID s \<noteq> []"
  shows "billing_mem_wf (store_sub s r)"
proof -
  have "nwf (bm_subs (store_sub s r)) \<and> nwf (bm_invoices (store_sub s r))"
    using assms(1) by (simp add: store_sub_def index_stripe_def billing_mem_wf_def)
  then show ?thesis
    using assms by (auto simp: billing_mem_wf_def store_sub_views stripe_update_def)
qed

definition store_invoice :: "invoice \<Rightarrow> billing_mem \<Rightarrow> billing_mem" where
  "store_invoice v r =
     r\<lparr>bm_invoices := nput (inv_TenantID v) (inv_ID v)
         (keep_created (mem_invoice_view r (inv_TenantID v, inv_ID v)) v) (bm_invoices r)\<rparr>"

lemma mem_upsertInvoice_store:
  "mem_upsertInvoice v r =
     (if inv_TenantID v = [] then (r, Err ErrTenantRequired) else (store_invoice v r, Ok ()))"
  by (simp add: mem_upsertInvoice_def store_invoice_def keep_created_def mem_invoice_view_def
      split: option.split)

lemma keep_created_key [simp]:
  "inv_TenantID (keep_created old v) = inv_TenantID v" "inv_ID (keep_created old v) = inv_ID v"
  by (simp_all add: keep_created_def split: option.split)

lemma store_invoice_views:
  "mem_invoice_view (store_invoice v r) = (mem_invoice_view r)((inv_TenantID v, inv_ID v) \<mapsto>
      keep_created (mem_invoice_view r (inv_TenantID v, inv_ID v)) v)"
  "mem_sub_view (store_invoice v r) = mem_sub_view r"
  "mem_stripe_view (store_invoice v r) = mem_stripe_view r"
  "mem_events_view (store_invoice v r) = mem_events_view r"
  by (auto simp: mem_events_view_def store_invoice_def mem_sub_view_def mem_stripe_view_def mem_invoice_view_def fun_eq_iff)

lemma store_invoice_wf:
  assumes "billing_mem_wf r" and "inv_TenantID v \<noteq> []"
  shows "billing_mem_wf (store_invoice v r)"
proof -
  have "nwf (bm_subs (store_invoice v r)) \<and> nwf (bm_invoices (store_invoice v r))"
    using assms(1) by (simp add: store_invoice_def billing_mem_wf_def)
  then show ?thesis
    using assms by (auto simp: billing_mem_wf_def store_invoice_views)
qed

interpretation bmr: billing_repo "inmemory_repository its iti" billing_mem_wf
  mem_sub_view mem_stripe_view mem_invoice_view mem_events_view
proof
  fix r :: billing_mem and s :: bsub and v :: invoice and t k i e ty :: string and at :: gotime
  assume wf: "billing_mem_wf r"
  show "mem_sub_view r (t, i) = Some s \<Longrightarrow> bs_TenantID s = t \<and> bs_ID s = i \<and> t \<noteq> []"
    and index: "mem_stripe_view r (t, k) = Some i \<Longrightarrow> \<exists>s. mem_sub_view r (t, i) = Some s"
    using wf by (auto simp: billing_mem_wf_def)
  show "br_getSubscription (inmemory_repository its iti) t i r =
      (if t = [] then Err ErrTenantRequired
       else case mem_sub_view r (t, i) of None \<Rightarrow> Err ErrSubscriptionNotFound | Some s \<Rightarrow> Ok s)"
    by (simp add: inmemory_repository_def mem_getSubscription_view)
  show "br_getSubscriptionByStripeID (inmemory_repository its iti) t k r =
      (if t = [] then Err ErrTenantRequired
       else case mem_stripe_view r (t, k) of None \<Rightarrow> Err ErrSubscriptionNotFound
            | Some i \<Rightarrow> Ok (the (mem_sub_view r (t, i))))"
  proof -
    have "(case mem_sub_view r (t, j) of None \<Rightarrow> zero_bsub | Some s \<Rightarrow> s) = the (mem_sub_view r (t, j))"
      if "mem_stripe_view r (t, k) = Some j" for j
      using wf that by (fastforce simp: billing_mem_wf_def)
    then show ?thesis
      by (simp add: inmemory_repository_def mem_getSubscriptionByStripeID_view split: option.split)
  qed
  show "bs_TenantID s \<noteq> [] \<Longrightarrow> mem_sub_view r (bs_TenantID s, bs_ID s) = None \<Longrightarrow>
      \<exists>r'. billing_mem_wf r' \<and> br_createSubscription (inmemory_repository its iti) s r = (r', Ok ())
        \<and> mem_sub_view r' = (mem_sub_view r)((bs_TenantID s, bs_ID s) \<mapsto> s)
        \<and> mem_stripe_view r' = stripe_update s (mem_stripe_view r)
        \<and> mem_invoice_view r' = mem_invoice_view r \<and> mem_events_view r' = mem_events_view r"
    using store_sub_wf [OF wf] store_sub_views
    by (auto simp: inmemory_repository_def mem_createSubscription_store)
  show "bs_TenantID s = [] \<or> mem_sub_view r (bs_TenantID s, bs_ID s) \<noteq> None \<Longrightarrow>
      br_createSubscription (inmemory_repository its iti) s r =
        (r, Err (if bs_TenantID s = [] then ErrTenantRequired else ErrSubscriptionAlreadyExists))"
    by (auto simp: inmemory_repository_def mem_createSubscription_store)
  show "mem_sub_view r (bs_TenantID s, bs_ID s) \<noteq> None \<Longrightarrow>
      \<exists>r'. billing_mem_wf r' \<and> br_saveSubscription (inmemory_repository its iti) s r = (r', Ok ())
        \<and> mem_sub_view r' = (mem_sub_view r)((bs_TenantID s, bs_ID s) \<mapsto> s)
        \<and> mem_stripe_view r' = stripe_update s (mem_stripe_view r)
        \<and> mem_invoice_view r' = mem_invoice_view r \<and> mem_events_view r' = mem_events_view r"
  proof -
    assume s: "mem_sub_view r (bs_TenantID s, bs_ID s) \<noteq> None"
    then have t: "bs_TenantID s \<noteq> []" using wf by (auto simp: billing_mem_wf_def)
    with s have "br_saveSubscription (inmemory_repository its iti) s r = (store_sub s r, Ok ())"
      by (simp add: inmemory_repository_def mem_saveSubscription_store)
    then show ?thesis using store_sub_wf [OF wf t] store_sub_views [of s r] by blast
  qed
  show "mem_sub_view r (bs_TenantID s, bs_ID s) = None \<Longrightarrow>
      br_saveSubscription (inmemory_repository its iti) s r =
        (r, Err (if bs_TenantID s = [] then ErrTenantRequired else ErrSubscriptionNotFound))"
    by (simp add: inmemory_repository_def mem_saveSubscription_store)
  show "inv_TenantID v \<noteq> [] \<Longrightarrow>
      \<exists>r'. billing_mem_wf r' \<and> br_upsertInvoice (inmemory_repository its iti) v r = (r', Ok ())
        \<and> mem_invoice_view r' = (mem_invoice_view r)((inv_TenantID v, inv_ID v) \<mapsto>
              keep_created (mem_invoice_view r (inv_TenantID v, inv_ID v)) v)
        \<and> mem_sub_view r' = mem_sub_view r \<and> mem_stripe_view r' = mem_stripe_view r
        \<and> mem_events_view r' = mem_events_view r"
    using store_invoice_wf [OF wf] store_invoice_views
    by (auto simp: inmemory_repository_def mem_upsertInvoice_store)
  show "inv_TenantID v = [] \<Longrightarrow>
      br_upsertInvoice (inmemory_repository its iti) v r = (r, Err ErrTenantRequired)"
    by (simp add: inmemory_repository_def mem_upsertInvoice_store)
  show "br_getInvoice (inmemory_repository its iti) t i r =
      (if t = [] then Err ErrTenantRequired
       else case mem_invoice_view r (t, i) of None \<Rightarrow> Err ErrInvoiceNotFound | Some v \<Rightarrow> Ok v)"
    by (simp add: inmemory_repository_def mem_getInvoice_view)
  show "br_stripeEventSeen (inmemory_repository its iti) e r = Ok (e \<in> mem_events_view r)"
    by (simp add: inmemory_repository_def mem_stripeEventSeen_def mem_events_view_def)
  show "e \<noteq> [] \<Longrightarrow> \<exists>r'. billing_mem_wf r'
      \<and> br_stripeEventRecord (inmemory_repository its iti) e ty at r = (r', Ok ())
      \<and> mem_events_view r' = insert e (mem_events_view r)
      \<and> mem_sub_view r' = mem_sub_view r \<and> mem_stripe_view r' = mem_stripe_view r
      \<and> mem_invoice_view r' = mem_invoice_view r"
    using wf by (auto simp: inmemory_repository_def mem_stripeEventRecord_def mem_events_view_def
        billing_mem_wf_def mem_sub_view_def mem_stripe_view_def mem_invoice_view_def)
qed

subsection \<open>Plans\<close>

record bplan =
  bp_ID :: string
  bp_Name :: string
  bp_Description :: string
  bp_StripePriceID :: string
  bp_APIRatePerMinute :: int
  bp_StorageBytes :: int
  bp_AgentRunsPerDay :: int
  bp_PluginCount :: int
  bp_PriceAmountMinor :: int
  bp_PriceCurrency :: string
  bp_BillingIntervalDays :: int

definition defaultSeedPlans :: "bplan list" where
  "defaultSeedPlans =
     [\<lparr>bp_ID = ''free'', bp_Name = ''Free'', bp_Description = ''Hobby tier with strict limits.'',
       bp_StripePriceID = [], bp_APIRatePerMinute = 60, bp_StorageBytes = 50 * 1024 * 1024,
       bp_AgentRunsPerDay = 20, bp_PluginCount = 3, bp_PriceAmountMinor = 0,
       bp_PriceCurrency = ''AUD'', bp_BillingIntervalDays = 30\<rparr>,
      \<lparr>bp_ID = ''starter'', bp_Name = ''Starter'', bp_Description = ''Solo founder tier.'',
       bp_StripePriceID = ''price_starter'', bp_APIRatePerMinute = 300,
       bp_StorageBytes = 2 * 1024 * 1024 * 1024, bp_AgentRunsPerDay = 500, bp_PluginCount = 15,
       bp_PriceAmountMinor = 1900, bp_PriceCurrency = ''AUD'', bp_BillingIntervalDays = 30\<rparr>,
      \<lparr>bp_ID = ''pro'', bp_Name = ''Pro'', bp_Description = ''Growing team tier.'',
       bp_StripePriceID = ''price_pro'', bp_APIRatePerMinute = 1200,
       bp_StorageBytes = 20 * 1024 * 1024 * 1024, bp_AgentRunsPerDay = 5000, bp_PluginCount = 50,
       bp_PriceAmountMinor = 7900, bp_PriceCurrency = ''AUD'', bp_BillingIntervalDays = 30\<rparr>]"

type_synonym static_plan_catalog = "(string, bplan) gomap"

definition newStaticPlanCatalog :: "bplan list \<Rightarrow> static_plan_catalog" where
  "newStaticPlanCatalog plans =
     foldl (\<lambda>by p. mput (bp_ID p) p by) [] (if plans = [] then defaultSeedPlans else plans)"

definition catalog_get :: "static_plan_catalog \<Rightarrow> string \<Rightarrow> billing_error + bplan" where
  "catalog_get c planID = (case mget c planID of None \<Rightarrow> Err ErrPlanNotFound | Some p \<Rightarrow> Ok p)"

definition catalog_list :: "static_plan_catalog \<Rightarrow> bplan list" where
  "catalog_list c = map (\<lambda>pid. the (mget c pid)) (sort (mkeys c))"

subsection \<open>Pages\<close>

lemma normalizePagination_range:
  "normalizePagination page perPage = (p, n) \<Longrightarrow> 1 \<le> p \<and> 1 \<le> n \<and> n \<le> 100"
  by (auto simp: normalizePagination_def Let_def split: if_splits)

lemma normalizePagination_id: "1 \<le> page \<Longrightarrow> 1 \<le> n \<Longrightarrow> n \<le> 100 \<Longrightarrow> normalizePagination page n = (page, n)"
  by (simp add: normalizePagination_def)

lemma listed_rows:
  assumes "mset (it (mvalues (nrows (bm_subs r) t))) = mset (mvalues (nrows (bm_subs r) t))"
    and "inj_on bs_CreatedAt (set (mvalues (nrows (bm_subs r) t)))"
  shows "sort_key (\<lambda>s. - bs_CreatedAt s) (it (mvalues (nrows (bm_subs r) t)))
       = sort_key (\<lambda>s. - bs_CreatedAt s) (mvalues (nrows (bm_subs r) t))"
  using assms by (intro sort_key_mset_unique) (auto simp: inj_on_def)

lemma mem_listSubscriptions_exact:
  assumes "t \<noteq> []" and "1 \<le> p" and "1 \<le> n" and "n \<le> 100" and "p \<le> 2 ^ 56"
    and "length (mvalues (nrows (bm_subs r) t)) \<le> 2 ^ 56"
    and "mset (it (mvalues (nrows (bm_subs r) t))) = mset (mvalues (nrows (bm_subs r) t))"
    and "inj_on bs_CreatedAt (set (mvalues (nrows (bm_subs r) t)))"
  shows "mem_listSubscriptions it t p n r =
    (let out = sort_key (\<lambda>s. - bs_CreatedAt s) (mvalues (nrows (bm_subs r) t)) in
     Ok \<lparr>sl_Subscriptions = take (nat n) (drop (nat (p - 1) * nat n) out), sl_Total = int (length out)\<rparr>)"
proof -
  let ?out = "sort_key (\<lambda>s. - bs_CreatedAt s) (mvalues (nrows (bm_subs r) t))"
  have "p * n \<le> 2 ^ 56 * 100" using assms by (intro mult_mono) auto
  moreover have "int (length ?out) \<le> 2 ^ 56" using assms(6) by simp
  ultimately have "page_exact p n ?out"
    using assms by (simp add: page_exact_def)
  from page_slice_exact [OF this] show ?thesis
    using assms by (simp add: mem_listSubscriptions_def normalizePagination_id listed_rows Let_def)
qed

text \<open>Paging through the subscriptions of a tenant shows each of them exactly once,
  newest first: if the creation times are different, the pages 1 to k put together are the
  first \<open>k * perPage\<close> rows of one sorted list of the tenant's subscriptions, whatever order
  the map delivers the rows in for each of the calls.\<close>

theorem subscription_pages_partition:
  assumes "t \<noteq> []" and "1 \<le> n" and "n \<le> 100" and "k \<le> 2 ^ 56"
    and "length (mvalues (nrows (bm_subs r) t)) \<le> 2 ^ 56"
    and "\<forall>p. mset (it p (mvalues (nrows (bm_subs r) t))) = mset (mvalues (nrows (bm_subs r) t))"
    and "inj_on bs_CreatedAt (set (mvalues (nrows (bm_subs r) t)))"
  shows "\<exists>out. mset out = mset (mvalues (nrows (bm_subs r) t))
    \<and> sorted (map (\<lambda>s. - bs_CreatedAt s) out)
    \<and> concat (map (\<lambda>p. case mem_listSubscriptions (it p) t (int p + 1) n r of
          Err _ \<Rightarrow> [] | Ok l \<Rightarrow> sl_Subscriptions l) [0..<k]) = take (k * nat n) out"
proof -
  let ?out = "sort_key (\<lambda>s. - bs_CreatedAt s) (mvalues (nrows (bm_subs r) t))"
  have "map (\<lambda>p. case mem_listSubscriptions (it p) t (int p + 1) n r of
          Err _ \<Rightarrow> [] | Ok l \<Rightarrow> sl_Subscriptions l) [0..<k]
      = map (\<lambda>p. take (nat n) (drop (p * nat n) ?out)) [0..<k]"
  proof (rule map_cong [OF refl])
    fix p assume "p \<in> set [0..<k]"
    then have "int p + 1 \<le> 2 ^ 56" using assms(4) by simp
    then show "(case mem_listSubscriptions (it p) t (int p + 1) n r of
          Err _ \<Rightarrow> [] | Ok l \<Rightarrow> sl_Subscriptions l) = take (nat n) (drop (p * nat n) ?out)"
      using mem_listSubscriptions_exact [of t "int p + 1" n r "it p"] assms
      by (simp add: Let_def)
  qed
  then have "concat (map (\<lambda>p. case mem_listSubscriptions (it p) t (int p + 1) n r of
          Err _ \<Rightarrow> [] | Ok l \<Rightarrow> sl_Subscriptions l) [0..<k]) = take (k * nat n) ?out"
    by (simp only: concat_chunks)
  then show ?thesis by (intro exI [of _ ?out]) simp
qed

definition sample_sub :: "string \<Rightarrow> gotime \<Rightarrow> bsub" where
  "sample_sub i at = zero_bsub\<lparr>bs_ID := i, bs_TenantID := ''acme'', bs_PlanID := ''free'',
     bs_State := StateActive, bs_StripeSubscriptionID := ''st_'' @ i, bs_CreatedAt := at\<rparr>"

definition sample_repo :: "gotime \<Rightarrow> gotime \<Rightarrow> billing_mem" where
  "sample_repo t1 t2 = store_sub (sample_sub ''b'' t2) (store_sub (sample_sub ''a'' t1) newInMemoryRepository)"

lemma sample_rows:
  "mvalues (nrows (bm_subs (sample_repo t1 t2)) ''acme'') = [sample_sub ''a'' t1, sample_sub ''b'' t2]"
  by (simp add: sample_repo_def store_sub_def index_stripe_def sample_sub_def newInMemoryRepository_def
      mput_def mvalues_def)

theorem subscription_pages_partition_witness:
  "\<exists>out. mset out = {# sample_sub ''a'' 5, sample_sub ''b'' 9 #}
     \<and> sorted (map (\<lambda>s. - bs_CreatedAt s) out)
     \<and> concat (map (\<lambda>p. case mem_listSubscriptions (if p = 0 then rev else id) ''acme'' (int p + 1) 1
          (sample_repo 5 9) of Err _ \<Rightarrow> [] | Ok l \<Rightarrow> sl_Subscriptions l) [0..<2]) = out"
proof -
  have "\<exists>out. mset out = mset (mvalues (nrows (bm_subs (sample_repo 5 9)) ''acme''))
      \<and> sorted (map (\<lambda>s. - bs_CreatedAt s) out)
      \<and> concat (map (\<lambda>p. case mem_listSubscriptions (if p = 0 then rev else id) ''acme'' (int p + 1) 1
          (sample_repo 5 9) of Err _ \<Rightarrow> [] | Ok l \<Rightarrow> sl_Subscriptions l) [0..<2]) = take (2 * nat 1) out"
    by (rule subscription_pages_partition) (auto simp: sample_rows sample_sub_def inj_on_def)
  then obtain out where o1: "mset out = {# sample_sub ''a'' 5, sample_sub ''b'' 9 #}"
    and o2: "sorted (map (\<lambda>s. - bs_CreatedAt s) out)"
    and o3: "concat (map (\<lambda>p. case mem_listSubscriptions (if p = 0 then rev else id) ''acme'' (int p + 1) 1
          (sample_repo 5 9) of Err _ \<Rightarrow> [] | Ok l \<Rightarrow> sl_Subscriptions l) [0..<2]) = take (2 * nat 1) out"
    by (auto simp: sample_rows)
  have "length out = 2" using arg_cong [OF o1, of size] by simp
  then have "take (2 * nat 1) out = out" by simp
  with o1 o2 o3 show ?thesis by auto
qed

text \<open>The creation times must differ for that: two subscriptions created in the same
  instant can both be reported on page 1 and never on page 2, because each call sorts the
  rows from the map's own random order with a sort that is not stable.\<close>

theorem subscription_pages_can_repeat:
  "\<exists>it1 it2. (\<forall>xs. mset (it1 xs) = mset xs) \<and> (\<forall>xs. mset (it2 xs) = mset xs)
     \<and> mem_listSubscriptions it1 ''acme'' 1 1 (sample_repo 5 5)
         = Ok \<lparr>sl_Subscriptions = [sample_sub ''a'' 5], sl_Total = 2\<rparr>
     \<and> mem_listSubscriptions it2 ''acme'' 2 1 (sample_repo 5 5)
         = Ok \<lparr>sl_Subscriptions = [sample_sub ''a'' 5], sl_Total = 2\<rparr>"
proof -
  have "mem_listSubscriptions (\<lambda>xs. xs) ''acme'' 1 1 (sample_repo 5 5)
         = Ok \<lparr>sl_Subscriptions = [sample_sub ''a'' 5], sl_Total = 2\<rparr>"
    and "mem_listSubscriptions rev ''acme'' 2 1 (sample_repo 5 5)
         = Ok \<lparr>sl_Subscriptions = [sample_sub ''a'' 5], sl_Total = 2\<rparr>"
    by (simp_all add: mem_listSubscriptions_def sample_rows normalizePagination_def page_slice_def
        go_slice_def sample_sub_def in_int64_iff)
  then show ?thesis by (intro exI [of _ "\<lambda>xs. xs"] exI [of _ rev]) simp
qed

text \<open>A listing fails exactly on the page numbers whose row offset overflows to a negative
  number: there the slice expression panics instead of returning an empty page. The first
  such page with 100 rows per page is 92233720368547760.\<close>

theorem subscription_listing_panics_iff:
  assumes "t \<noteq> []" and "mset (it (mvalues (nrows (bm_subs r) t))) = mset (mvalues (nrows (bm_subs r) t))"
    and "length (mvalues (nrows (bm_subs r) t)) \<le> 2 ^ 56"
  shows "is_ok (mem_listSubscriptions it t page perPage r) \<longleftrightarrow>
    0 \<le> (case normalizePagination page perPage of (p, n) \<Rightarrow> wrap64 (wrap64 (p - 1) * n))"
proof -
  obtain p n where pn: "normalizePagination page perPage = (p, n)" by fastforce
  note range = normalizePagination_range [OF pn]
  let ?out = "sort_key (\<lambda>s. - bs_CreatedAt s) (it (mvalues (nrows (bm_subs r) t)))"
  have len: "length ?out \<le> 2 ^ 56" using assms(2,3) by (metis length_sort size_mset)
  define start where "start = wrap64 (wrap64 (p - 1) * n)"
  define a where "a = (if int (length ?out) < start then int (length ?out) else start)"
  have a: "min_int64 \<le> a \<and> a \<le> 2 ^ 56"
    using wrap64_range [of "wrap64 (p - 1) * n"] len by (simp add: a_def start_def in_int64_iff)
  then have "wrap64 (a + n) = a + n" using range by (simp add: in_int64_iff)
  then have "page_slice p n ?out = go_slice ?out a (min (int (length ?out)) (a + n))"
    unfolding page_slice_def Let_def start_def [symmetric] a_def [symmetric] by (simp add: min_def)
  then have "page_slice p n ?out = None \<longleftrightarrow> a < 0"
    using range by (auto simp: go_slice_def a_def)
  then have "page_slice p n ?out = None \<longleftrightarrow> start < 0" by (auto simp: a_def)
  then show ?thesis
    using assms(1) by (auto simp: mem_listSubscriptions_def pn start_def is_ok_def Let_def split: option.split)
qed

theorem subscription_listing_panics_witness:
  "is_ok (mem_listSubscriptions (\<lambda>xs. xs) ''acme'' 92233720368547759 100 (sample_repo 5 9))
   \<and> \<not> is_ok (mem_listSubscriptions (\<lambda>xs. xs) ''acme'' 92233720368547760 100 (sample_repo 5 9))"
  using subscription_listing_panics_iff [of "''acme''" "\<lambda>xs. xs" "sample_repo 5 9" 92233720368547759 100]
    subscription_listing_panics_iff [of "''acme''" "\<lambda>xs. xs" "sample_repo 5 9" 92233720368547760 100]
  by (simp add: sample_rows normalizePagination_def in_int64_iff) (simp add: wrap64_def)

end
