(* ===== verification/BillingService.thy ===== *)
theory BillingService
  imports Billing
begin

text \<open>
  The billing service (\<open>internal/billing/service.go\<close>) and the Stripe dispatcher
  (\<open>internal/billing/dispatcher.go\<close>) over the repository port. The state of a call is the
  repository and the events handed to the publisher so far (the publisher's error is
  dropped by the code). \<open>now\<close> is the reading of the service's clock and \<open>wall\<close> that of
  \<open>time.Now()\<close>; a call reads each of them as one value. JSON decoding is a parameter: one
  function per type that is decoded, \<open>None\<close> where \<open>json.Unmarshal\<close> reports an error.
\<close>

subsection \<open>Events\<close>

definition BillingPayloadVersion :: int where "BillingPayloadVersion = 1"

record billing_payload =
  py_Version :: int
  py_TenantID :: string
  py_SubscriptionID :: string
  py_PlanID :: string
  py_StripeSubscriptionID :: string
  py_State :: string

record billing_event =
  be_Type :: string
  be_Source :: string
  be_OccurredAt :: gotime
  be_Payload :: billing_payload

subsection \<open>The service\<close>

record 'r billing_service =
  svc_repo :: "'r billing_repository"
  svc_plans :: "string \<Rightarrow> billing_error + bplan"
  svc_pub :: bool

record 'r billing_state =
  st_repo :: 'r
  st_published :: "billing_event list"

definition svc_publish ::
  "'r billing_service \<Rightarrow> gotime \<Rightarrow> string \<Rightarrow> bsub \<Rightarrow> string \<Rightarrow> 'r billing_state \<Rightarrow> 'r billing_state" where
  "svc_publish svc now eventType sub source st =
     (if \<not> svc_pub svc \<or> eventType = [] then st
      else st\<lparr>st_published := st_published st @
        [\<lparr>be_Type = eventType, be_Source = source, be_OccurredAt = now,
          be_Payload = \<lparr>py_Version = BillingPayloadVersion, py_TenantID = bs_TenantID sub,
            py_SubscriptionID = bs_ID sub, py_PlanID = bs_PlanID sub,
            py_StripeSubscriptionID = bs_StripeSubscriptionID sub,
            py_State = bstate_string (bs_State sub)\<rparr>\<rparr>]\<rparr>)"

definition svc_createSubscription ::
  "'r billing_service \<Rightarrow> gotime \<Rightarrow> gotime \<Rightarrow> bsub_input \<Rightarrow> 'r billing_state \<Rightarrow>
   'r billing_state \<times> (billing_error + bsub)" where
  "svc_createSubscription svc wall now inp0 st =
     (case svc_plans svc (bi_PlanID inp0) of
        Err e \<Rightarrow> (st, Err e)
      | Ok _ \<Rightarrow>
          let inp = (if time_is_zero (bi_Now inp0) then inp0\<lparr>bi_Now := now\<rparr> else inp0) in
          case newBSubscription wall inp of
            Err e \<Rightarrow> (st, Err e)
          | Ok sub \<Rightarrow>
              (case br_createSubscription (svc_repo svc) sub (st_repo st) of
                 (r, Err e) \<Rightarrow> (st\<lparr>st_repo := r\<rparr>, Err e)
               | (r, Ok _) \<Rightarrow>
                   (svc_publish svc now ''subscription.created'' sub [] (st\<lparr>st_repo := r\<rparr>), Ok sub)))"

definition svc_getSubscription ::
  "'r billing_service \<Rightarrow> string \<Rightarrow> string \<Rightarrow> 'r billing_state \<Rightarrow> billing_error + bsub" where
  "svc_getSubscription svc tenantID sid st =
     (if tenantID = [] then Err ErrTenantRequired
      else br_getSubscription (svc_repo svc) tenantID sid (st_repo st))"

definition svc_listSubscriptions ::
  "'r billing_service \<Rightarrow> string \<Rightarrow> int \<Rightarrow> int \<Rightarrow> 'r billing_state \<Rightarrow> billing_error + subscription_list" where
  "svc_listSubscriptions svc tenantID page perPage st =
     (if tenantID = [] then Err ErrTenantRequired
      else br_listSubscriptions (svc_repo svc) tenantID page perPage (st_repo st))"

definition svc_transition ::
  "'r billing_service \<Rightarrow> gotime \<Rightarrow> gotime \<Rightarrow> string \<Rightarrow> string \<Rightarrow> btransition \<Rightarrow> string \<Rightarrow>
   'r billing_state \<Rightarrow> 'r billing_state \<times> (billing_error + bsub)" where
  "svc_transition svc wall now tenantID sid t eventType st =
     (if tenantID = [] then (st, Err ErrTenantRequired)
      else case br_getSubscription (svc_repo svc) tenantID sid (st_repo st) of
        Err e \<Rightarrow> (st, Err e)
      | Ok sub \<Rightarrow>
          (case bsub_apply wall sub t now of
             Err e \<Rightarrow> (st, Err e)
           | Ok updated \<Rightarrow>
               (case br_saveSubscription (svc_repo svc) updated (st_repo st) of
                  (r, Err e) \<Rightarrow> (st\<lparr>st_repo := r\<rparr>, Err e)
                | (r, Ok _) \<Rightarrow>
                    (svc_publish svc now eventType updated [] (st\<lparr>st_repo := r\<rparr>), Ok updated))))"

definition svc_cancel ::
  "'r billing_service \<Rightarrow> gotime \<Rightarrow> gotime \<Rightarrow> string \<Rightarrow> string \<Rightarrow> 'r billing_state \<Rightarrow>
   'r billing_state \<times> (billing_error + bsub)" where
  "svc_cancel svc wall now tenantID sid =
     svc_transition svc wall now tenantID sid TransitionCancel ''subscription.canceled''"

definition svc_pause ::
  "'r billing_service \<Rightarrow> gotime \<Rightarrow> gotime \<Rightarrow> string \<Rightarrow> string \<Rightarrow> 'r billing_state \<Rightarrow>
   'r billing_state \<times> (billing_error + bsub)" where
  "svc_pause svc wall now tenantID sid =
     svc_transition svc wall now tenantID sid TransitionPause ''subscription.updated''"

definition svc_resume ::
  "'r billing_service \<Rightarrow> gotime \<Rightarrow> gotime \<Rightarrow> string \<Rightarrow> string \<Rightarrow> 'r billing_state \<Rightarrow>
   'r billing_state \<times> (billing_error + bsub)" where
  "svc_resume svc wall now tenantID sid =
     svc_transition svc wall now tenantID sid TransitionResume ''subscription.updated''"

definition svc_activate ::
  "'r billing_service \<Rightarrow> gotime \<Rightarrow> gotime \<Rightarrow> string \<Rightarrow> string \<Rightarrow> 'r billing_state \<Rightarrow>
   'r billing_state \<times> (billing_error + bsub)" where
  "svc_activate svc wall now tenantID sid st =
     (case br_getSubscription (svc_repo svc) tenantID sid (st_repo st) of
        Err e \<Rightarrow> (st, Err e)
      | Ok sub \<Rightarrow>
          let t = (if bs_State sub = StatePastDue then TransitionRecover else TransitionActivate)
          in svc_transition svc wall now tenantID sid t ''subscription.updated'' st)"

definition svc_markPastDue ::
  "'r billing_service \<Rightarrow> gotime \<Rightarrow> gotime \<Rightarrow> string \<Rightarrow> string \<Rightarrow> 'r billing_state \<Rightarrow>
   'r billing_state \<times> (billing_error + bsub)" where
  "svc_markPastDue svc wall now tenantID sid =
     svc_transition svc wall now tenantID sid TransitionMarkPastDue ''subscription.updated''"

definition stripe_fields :: "gotime \<Rightarrow> bsub_input \<Rightarrow> bsub \<Rightarrow> bsub" where
  "stripe_fields now inp existing =
     (let updated = existing;
          updated = (if bi_State inp \<noteq> [] then updated\<lparr>bs_State := bstate_of (bi_State inp)\<rparr> else updated);
          updated = (if \<not> time_is_zero (bi_CurrentPeriodEnd inp)
                     then updated\<lparr>bs_CurrentPeriodEnd := bi_CurrentPeriodEnd inp\<rparr> else updated);
          updated = (if \<not> time_is_zero (bi_CurrentPeriodStart inp)
                     then updated\<lparr>bs_CurrentPeriodStart := bi_CurrentPeriodStart inp\<rparr> else updated)
      in updated\<lparr>bs_UpdatedAt := now\<rparr>)"

definition svc_upsertFromStripe ::
  "'r billing_service \<Rightarrow> gotime \<Rightarrow> gotime \<Rightarrow> bsub_input \<Rightarrow> string \<Rightarrow> 'r billing_state \<Rightarrow>
   'r billing_state \<times> (billing_error + bsub)" where
  "svc_upsertFromStripe svc wall now inp0 eventType st =
     (let inp = (if time_is_zero (bi_Now inp0) then inp0\<lparr>bi_Now := now\<rparr> else inp0) in
      case br_getSubscriptionByStripeID (svc_repo svc) (bi_TenantID inp) (bi_StripeSubscriptionID inp)
             (st_repo st) of
        Ok existing \<Rightarrow>
          (let updated = stripe_fields now inp existing in
           case br_saveSubscription (svc_repo svc) updated (st_repo st) of
             (r, Err e) \<Rightarrow> (st\<lparr>st_repo := r\<rparr>, Err e)
           | (r, Ok _) \<Rightarrow>
               (svc_publish svc now eventType updated ''stripe'' (st\<lparr>st_repo := r\<rparr>), Ok updated))
      | Err e \<Rightarrow>
          if e \<noteq> ErrSubscriptionNotFound then (st, Err e)
          else (case newBSubscription wall inp of
             Err e \<Rightarrow> (st, Err e)
           | Ok sub \<Rightarrow>
               (case br_createSubscription (svc_repo svc) sub (st_repo st) of
                  (r, Err e) \<Rightarrow> (st\<lparr>st_repo := r\<rparr>, Err e)
                | (r, Ok _) \<Rightarrow>
                    (svc_publish svc now eventType sub ''stripe'' (st\<lparr>st_repo := r\<rparr>), Ok sub))))"

definition svc_upsertInvoice ::
  "'r billing_service \<Rightarrow> gotime \<Rightarrow> invoice \<Rightarrow> string \<Rightarrow> 'r billing_state \<Rightarrow>
   'r billing_state \<times> (billing_error + invoice)" where
  "svc_upsertInvoice svc now v0 eventType st =
     (if inv_TenantID v0 = [] then (st, Err ErrTenantRequired)
      else let v1 = (if inv_Status v0 = InvoiceOther [] then v0\<lparr>inv_Status := InvoiceOpen\<rparr> else v0);
               v2 = (if time_is_zero (inv_CreatedAt v1) then v1\<lparr>inv_CreatedAt := now\<rparr> else v1);
               v = v2\<lparr>inv_UpdatedAt := now\<rparr>
           in case br_upsertInvoice (svc_repo svc) v (st_repo st) of
                (r, Err e) \<Rightarrow> (st\<lparr>st_repo := r\<rparr>, Err e)
              | (r, Ok _) \<Rightarrow>
                  (svc_publish svc now eventType
                     (zero_bsub\<lparr>bs_TenantID := inv_TenantID v, bs_ID := inv_SubscriptionID v\<rparr>)
                     ''stripe'' (st\<lparr>st_repo := r\<rparr>), Ok v))"

definition svc_listInvoices ::
  "'r billing_service \<Rightarrow> string \<Rightarrow> int \<Rightarrow> int \<Rightarrow> 'r billing_state \<Rightarrow> billing_error + invoice_list" where
  "svc_listInvoices svc tenantID page perPage st =
     (if tenantID = [] then Err ErrTenantRequired
      else br_listInvoices (svc_repo svc) tenantID page perPage (st_repo st))"

definition svc_getInvoice ::
  "'r billing_service \<Rightarrow> string \<Rightarrow> string \<Rightarrow> 'r billing_state \<Rightarrow> billing_error + invoice" where
  "svc_getInvoice svc tenantID iid st =
     (if tenantID = [] then Err ErrTenantRequired
      else br_getInvoice (svc_repo svc) tenantID iid (st_repo st))"

subsection \<open>The dispatcher\<close>

datatype dispatch_error =
    DispatcherNotConfigured
  | DecodeEvent
  | EventMissingID
  | DecodeData
  | DecodeSubscription
  | SubscriptionMissingID
  | SubscriptionMissingTenant
  | DecodeInvoice
  | InvoiceMissingID
  | ServiceError billing_error

record stripe_envelope =
  env_ID :: string
  env_Type :: string
  env_Created :: int
  env_Data :: string

record stripe_subscription_object =
  sso_ID :: string
  sso_Status :: string
  sso_Customer :: string
  sso_CurrentPeriodStart :: int
  sso_CurrentPeriodEnd :: int
  sso_TenantID :: string
  sso_PlanID :: string
  sso_CancelAtPeriodEnd :: bool

record stripe_invoice_object =
  sio_ID :: string
  sio_Subscription :: string
  sio_Customer :: string
  sio_AmountDue :: int
  sio_AmountPaid :: int
  sio_Currency :: string
  sio_Status :: string
  sio_PeriodStart :: int
  sio_PeriodEnd :: int
  sio_TenantID :: string
  sio_PlanID :: string

record stripe_json =
  js_head :: "string \<Rightarrow> (string \<times> string) option"
  js_envelope :: "string \<Rightarrow> stripe_envelope option"
  js_data :: "string \<Rightarrow> string option"
  js_subscription :: "string \<Rightarrow> stripe_subscription_object option"
  js_invoice :: "string \<Rightarrow> stripe_invoice_object option"

definition stripeSubscriptionCreated :: string where
  "stripeSubscriptionCreated = ''customer.subscription.created''"
definition stripeSubscriptionUpdated :: string where
  "stripeSubscriptionUpdated = ''customer.subscription.updated''"
definition stripeSubscriptionDeleted :: string where
  "stripeSubscriptionDeleted = ''customer.subscription.deleted''"
definition stripeInvoicePaymentSucceeded :: string where
  "stripeInvoicePaymentSucceeded = ''invoice.payment_succeeded''"
definition stripeInvoicePaymentFailed :: string where
  "stripeInvoicePaymentFailed = ''invoice.payment_failed''"

definition mapStripeStatus :: "string \<Rightarrow> bstate" where
  "mapStripeStatus status =
     (if status = ''trialing'' then StateTrialing
      else if status = ''active'' then StateActive
      else if status \<in> {''past_due'', ''unpaid''} then StatePastDue
      else if status = ''paused'' then StatePaused
      else if status \<in> {''canceled'', ''incomplete_expired''} then StateCanceled
      else StateActive)"

definition decodeStripeSubscription ::
  "stripe_json \<Rightarrow> string \<Rightarrow> dispatch_error + stripe_subscription_object" where
  "decodeStripeSubscription js data =
     (case js_data js data of
        None \<Rightarrow> Err DecodeData
      | Some object \<Rightarrow>
          (case js_subscription js object of
             None \<Rightarrow> Err DecodeSubscription
           | Some sub \<Rightarrow> if sso_ID sub = [] then Err SubscriptionMissingID else Ok sub))"

definition decodeStripeInvoiceFromEvent :: "stripe_json \<Rightarrow> string \<Rightarrow> dispatch_error + invoice" where
  "decodeStripeInvoiceFromEvent js data =
     (case js_data js data of
        None \<Rightarrow> Err DecodeData
      | Some object \<Rightarrow>
          (case js_invoice js object of
             None \<Rightarrow> Err DecodeInvoice
           | Some v \<Rightarrow>
               if sio_ID v = [] then Err InvoiceMissingID
               else Ok \<lparr>inv_ID = sio_ID v, inv_TenantID = sio_TenantID v,
                        inv_SubscriptionID = sio_Subscription v, inv_Amount = sio_AmountDue v,
                        inv_Currency = sio_Currency v, inv_Status = InvoiceOpen,
                        inv_PeriodStart = time_unix (sio_PeriodStart v),
                        inv_PeriodEnd = time_unix (sio_PeriodEnd v),
                        inv_CreatedAt = zero_time, inv_UpdatedAt = zero_time\<rparr>))"

definition as_service_error :: "'r \<times> (billing_error + 'a) \<Rightarrow> 'r \<times> (dispatch_error + unit)" where
  "as_service_error res =
     (case res of (st, Err e) \<Rightarrow> (st, Err (ServiceError e)) | (st, Ok _) \<Rightarrow> (st, Ok ()))"

definition handleSubscriptionUpsert ::
  "stripe_json \<Rightarrow> 'r billing_service \<Rightarrow> gotime \<Rightarrow> gotime \<Rightarrow> stripe_envelope \<Rightarrow> 'r billing_state \<Rightarrow>
   'r billing_state \<times> (dispatch_error + unit)" where
  "handleSubscriptionUpsert js svc wall now env st =
     (case decodeStripeSubscription js (env_Data env) of
        Err e \<Rightarrow> (st, Err e)
      | Ok sub \<Rightarrow>
          let inp = \<lparr>bi_ID = sso_ID sub, bi_TenantID = sso_TenantID sub, bi_PlanID = sso_PlanID sub,
                     bi_StripeSubscriptionID = sso_ID sub, bi_StripeCustomerID = sso_Customer sub,
                     bi_State = bstate_string (mapStripeStatus (sso_Status sub)),
                     bi_CurrentPeriodStart = time_unix (sso_CurrentPeriodStart sub),
                     bi_CurrentPeriodEnd = time_unix (sso_CurrentPeriodEnd sub),
                     bi_Now = zero_time\<rparr>
          in if bi_TenantID inp = [] then (st, Err SubscriptionMissingTenant)
             else as_service_error (svc_upsertFromStripe svc wall now inp
               (if env_Type env = stripeSubscriptionCreated then ''subscription.created''
                else ''subscription.updated'') st))"

definition handleSubscriptionDeleted ::
  "stripe_json \<Rightarrow> 'r billing_service \<Rightarrow> gotime \<Rightarrow> gotime \<Rightarrow> stripe_envelope \<Rightarrow> 'r billing_state \<Rightarrow>
   'r billing_state \<times> (dispatch_error + unit)" where
  "handleSubscriptionDeleted js svc wall now env st =
     (case decodeStripeSubscription js (env_Data env) of
        Err e \<Rightarrow> (st, Err e)
      | Ok sub \<Rightarrow>
          if sso_TenantID sub = [] then (st, Err SubscriptionMissingTenant)
          else case br_getSubscriptionByStripeID (svc_repo svc) (sso_TenantID sub) (sso_ID sub) (st_repo st) of
            Err e \<Rightarrow> (st, if e = ErrSubscriptionNotFound then Ok () else Err (ServiceError e))
          | Ok existing \<Rightarrow>
              as_service_error (svc_cancel svc wall now (bs_TenantID existing) (bs_ID existing) st))"

definition handleInvoicePaid ::
  "stripe_json \<Rightarrow> 'r billing_service \<Rightarrow> gotime \<Rightarrow> gotime \<Rightarrow> stripe_envelope \<Rightarrow> 'r billing_state \<Rightarrow>
   'r billing_state \<times> (dispatch_error + unit)" where
  "handleInvoicePaid js svc wall now env st =
     (case decodeStripeInvoiceFromEvent js (env_Data env) of
        Err e \<Rightarrow> (st, Err e)
      | Ok v0 \<Rightarrow>
          let v = v0\<lparr>inv_Status := InvoicePaid\<rparr> in
          case svc_upsertInvoice svc now v ''invoice.paid'' st of
            (st1, Err e) \<Rightarrow> (st1, Err (ServiceError e))
          | (st1, Ok _) \<Rightarrow>
              if inv_SubscriptionID v = [] then (st1, Ok ())
              else case br_getSubscriptionByStripeID (svc_repo svc) (inv_TenantID v)
                          (inv_SubscriptionID v) (st_repo st1) of
                Err _ \<Rightarrow> (st1, Ok ())
              | Ok existing \<Rightarrow>
                  if bs_State existing = StatePastDue
                  then (fst (svc_transition svc wall now (bs_TenantID existing) (bs_ID existing)
                          TransitionRecover ''subscription.updated'' st1), Ok ())
                  else (st1, Ok ()))"

definition handleInvoiceFailed ::
  "stripe_json \<Rightarrow> 'r billing_service \<Rightarrow> gotime \<Rightarrow> gotime \<Rightarrow> stripe_envelope \<Rightarrow> 'r billing_state \<Rightarrow>
   'r billing_state \<times> (dispatch_error + unit)" where
  "handleInvoiceFailed js svc wall now env st =
     (case decodeStripeInvoiceFromEvent js (env_Data env) of
        Err e \<Rightarrow> (st, Err e)
      | Ok v0 \<Rightarrow>
          let v = v0\<lparr>inv_Status := InvoiceUncollectible\<rparr> in
          case svc_upsertInvoice svc now v ''invoice.failed'' st of
            (st1, Err e) \<Rightarrow> (st1, Err (ServiceError e))
          | (st1, Ok _) \<Rightarrow>
              if inv_SubscriptionID v = [] then (st1, Ok ())
              else case br_getSubscriptionByStripeID (svc_repo svc) (inv_TenantID v)
                          (inv_SubscriptionID v) (st_repo st1) of
                Err _ \<Rightarrow> (st1, Ok ())
              | Ok existing \<Rightarrow>
                  if bs_State existing = StateActive \<or> bs_State existing = StateTrialing
                  then (fst (svc_transition svc wall now (bs_TenantID existing) (bs_ID existing)
                          TransitionMarkPastDue ''subscription.updated'' st1), Ok ())
                  else (st1, Ok ()))"

definition dispatch_env ::
  "stripe_json \<Rightarrow> 'r billing_service \<Rightarrow> gotime \<Rightarrow> gotime \<Rightarrow> stripe_envelope \<Rightarrow> 'r billing_state \<Rightarrow>
   'r billing_state \<times> (dispatch_error + unit)" where
  "dispatch_env js svc wall now env st =
     (if env_Type env = stripeSubscriptionCreated \<or> env_Type env = stripeSubscriptionUpdated
      then handleSubscriptionUpsert js svc wall now env st
      else if env_Type env = stripeSubscriptionDeleted
      then handleSubscriptionDeleted js svc wall now env st
      else if env_Type env = stripeInvoicePaymentSucceeded then handleInvoicePaid js svc wall now env st
      else if env_Type env = stripeInvoicePaymentFailed then handleInvoiceFailed js svc wall now env st
      else (st, Ok ()))"

text \<open>\<open>Dispatch\<close> returns the event id beside the error; its caller ignores the id.\<close>

definition dispatch ::
  "stripe_json \<Rightarrow> 'r billing_service option \<Rightarrow> gotime \<Rightarrow> gotime \<Rightarrow> string \<Rightarrow> 'r billing_state \<Rightarrow>
   'r billing_state \<times> string \<times> (dispatch_error + unit)" where
  "dispatch js svc' wall now payload st =
     (case svc' of
        None \<Rightarrow> (st, [], Err DispatcherNotConfigured)
      | Some svc \<Rightarrow>
          (case js_envelope js payload of
             None \<Rightarrow> (st, [], Err DecodeEvent)
           | Some env \<Rightarrow>
               if env_ID env = [] then (st, [], Err EventMissingID)
               else (case dispatch_env js svc wall now env st of (st', r) \<Rightarrow> (st', env_ID env, r))))"

subsection \<open>What the service does to a repository that keeps the contract\<close>

lemma svc_publish_repo [simp]: "st_repo (svc_publish svc now ev sub src st) = st_repo st"
  by (simp add: svc_publish_def)

definition moved :: "gotime \<Rightarrow> bstate \<Rightarrow> bsub \<Rightarrow> bsub" where
  "moved at d s = s\<lparr>bs_State := d, bs_UpdatedAt := at\<rparr>"

lemma moved_simps [simp]:
  "bs_TenantID (moved at d s) = bs_TenantID s" "bs_ID (moved at d s) = bs_ID s"
  "bs_State (moved at d s) = d" "bs_StripeSubscriptionID (moved at d s) = bs_StripeSubscriptionID s"
  "bs_PlanID (moved at d s) = bs_PlanID s"
  by (simp_all add: moved_def)

text \<open>The calls of the service that can change its state, and histories of them.\<close>

datatype bcall =
    CallCreate bsub_input
  | CallCancel string string
  | CallPause string string
  | CallResume string string
  | CallActivate string string
  | CallMarkPastDue string string
  | CallInvoice invoice string
  | CallStripe bsub_input string

fun svc_exec ::
  "'r billing_service \<Rightarrow> gotime \<Rightarrow> gotime \<Rightarrow> bcall \<Rightarrow> 'r billing_state \<Rightarrow> 'r billing_state" where
  "svc_exec svc wall now (CallCreate inp) st = fst (svc_createSubscription svc wall now inp st)"
| "svc_exec svc wall now (CallCancel t i) st = fst (svc_cancel svc wall now t i st)"
| "svc_exec svc wall now (CallPause t i) st = fst (svc_pause svc wall now t i st)"
| "svc_exec svc wall now (CallResume t i) st = fst (svc_resume svc wall now t i st)"
| "svc_exec svc wall now (CallActivate t i) st = fst (svc_activate svc wall now t i st)"
| "svc_exec svc wall now (CallMarkPastDue t i) st = fst (svc_markPastDue svc wall now t i st)"
| "svc_exec svc wall now (CallInvoice v ev) st = fst (svc_upsertInvoice svc now v ev st)"
| "svc_exec svc wall now (CallStripe inp ev) st = fst (svc_upsertFromStripe svc wall now inp ev st)"

fun svc_history ::
  "'r billing_service \<Rightarrow> gotime \<Rightarrow> (gotime \<times> bcall) list \<Rightarrow> 'r billing_state \<Rightarrow> 'r billing_state" where
  "svc_history svc wall [] st = st"
| "svc_history svc wall ((now, c) # cs) st = svc_history svc wall cs (svc_exec svc wall now c st)"

text \<open>Which event a write of a subscription leaves, and the last one about a subscription.\<close>

definition event_of :: "gotime \<Rightarrow> string \<Rightarrow> bsub \<Rightarrow> string \<Rightarrow> billing_event" where
  "event_of now eventType sub source =
     \<lparr>be_Type = eventType, be_Source = source, be_OccurredAt = now,
      be_Payload = \<lparr>py_Version = BillingPayloadVersion, py_TenantID = bs_TenantID sub,
        py_SubscriptionID = bs_ID sub, py_PlanID = bs_PlanID sub,
        py_StripeSubscriptionID = bs_StripeSubscriptionID sub,
        py_State = bstate_string (bs_State sub)\<rparr>\<rparr>"

definition sub_event_types :: "string set" where
  "sub_event_types = {''subscription.created'', ''subscription.updated'', ''subscription.canceled''}"

definition about :: "string \<times> string \<Rightarrow> billing_event \<Rightarrow> bool" where
  "about k e \<longleftrightarrow> be_Type e \<in> sub_event_types
     \<and> (py_TenantID (be_Payload e), py_SubscriptionID (be_Payload e)) = k"

definition announced :: "string \<times> string \<Rightarrow> billing_event list \<Rightarrow> string option" where
  "announced k log =
     (case filter (about k) log of [] \<Rightarrow> None | es \<Rightarrow> Some (py_State (be_Payload (last es))))"

fun call_announces :: "bcall \<Rightarrow> bool" where
  "call_announces (CallInvoice v ev) \<longleftrightarrow> ev \<notin> sub_event_types"
| "call_announces (CallStripe inp ev) \<longleftrightarrow> ev \<in> sub_event_types"
| "call_announces _ \<longleftrightarrow> True"

fun call_is_stripe :: "bcall \<Rightarrow> bool" where
  "call_is_stripe (CallStripe inp ev) \<longleftrightarrow> True"
| "call_is_stripe _ \<longleftrightarrow> False"

lemma svc_publish_log:
  "st_published (svc_publish svc now ev sub src st) =
     st_published st @ (if svc_pub svc \<and> ev \<noteq> [] then [event_of now ev sub src] else [])"
  by (simp add: svc_publish_def event_of_def)

lemma announced_snoc:
  "announced k (log @ [e]) = (if about k e then Some (py_State (be_Payload e)) else announced k log)"
  by (cases "filter (about k) log") (simp_all add: announced_def)

lemma about_event_of [simp]:
  "about k (event_of now ev s src) \<longleftrightarrow> ev \<in> sub_event_types \<and> k = (bs_TenantID s, bs_ID s)"
  by (auto simp: about_def event_of_def)

lemma announced_event_of:
  "announced k (log @ [event_of now ev s src]) =
     (if ev \<in> sub_event_types \<and> k = (bs_TenantID s, bs_ID s) then Some (bstate_string (bs_State s))
      else announced k log)"
  by (simp add: announced_snoc) (simp add: event_of_def)

text \<open>
  A write of the subscription \<open>s\<close>: it is stored under its key and announced. \<open>legal_write\<close>
  adds where the value comes from: it is new, or its state is one step of the table away
  from that of the value it replaces and nothing else but the time of the update changes.
\<close>

definition wrote ::
  "bool \<Rightarrow> (string \<times> string \<rightharpoonup> bsub) \<Rightarrow> billing_event list \<Rightarrow>
   (string \<times> string \<rightharpoonup> bsub) \<Rightarrow> billing_event list \<Rightarrow> bsub \<Rightarrow> bool" where
  "wrote pub m log m' log' s \<longleftrightarrow>
     m' = m((bs_TenantID s, bs_ID s) \<mapsto> s)
     \<and> (\<exists>now ev src. log' = log @ (if pub \<and> ev \<noteq> [] then [event_of now ev s src] else [])
          \<and> ev \<in> sub_event_types)"

definition legal_write :: "(string \<times> string \<rightharpoonup> bsub) \<Rightarrow> bsub \<Rightarrow> bool" where
  "legal_write m s \<longleftrightarrow>
     (case m (bs_TenantID s, bs_ID s) of
        None \<Rightarrow> canonical_bstate (bs_State s)
      | Some s0 \<Rightarrow> \<exists>tr d at. bstep (bs_State s0) tr = Some d \<and> s = moved at d s0)"

context billing_repo
begin

lemma save_existing:
  assumes "wf r" and "subs r (t, i) = Some s0" and "bs_TenantID s = t" and "bs_ID s = i"
  shows "\<exists>r'. wf r' \<and> br_saveSubscription repo s r = (r', Ok ())
    \<and> subs r' = (subs r)((t, i) \<mapsto> s) \<and> stripe r' = stripe_update s (stripe r)
    \<and> invs r' = invs r \<and> events r' = events r"
  using save_law [of r s] assms by auto

lemma transition_ok:
  assumes "wf (st_repo st)" and "svc_repo svc = repo"
    and "subs (st_repo st) (t, i) = Some s" and "bstep (bs_State s) tr = Some d"
  shows "\<exists>r'. wf r' \<and> svc_transition svc wall now t i tr ev st =
      (svc_publish svc now ev (moved (or_now wall now) d s) [] (st\<lparr>st_repo := r'\<rparr>),
       Ok (moved (or_now wall now) d s))
    \<and> subs r' = (subs (st_repo st))((t, i) \<mapsto> moved (or_now wall now) d s)
    \<and> stripe r' = stripe_update s (stripe (st_repo st))
    \<and> invs r' = invs (st_repo st) \<and> events r' = events (st_repo st)"
proof -
  have key: "bs_TenantID s = t" "bs_ID s = i" "t \<noteq> []"
    using key_law [OF assms(1,3)] by auto
  have get: "br_getSubscription (svc_repo svc) t i (st_repo st) = Ok s"
    using get_law [OF assms(1)] assms(2,3) key by simp
  have app: "bsub_apply wall s tr now = Ok (moved (or_now wall now) d s)"
    using assms(4) by (simp add: bsub_apply_Ok moved_def)
  obtain r' where r': "wf r'"
      "br_saveSubscription repo (moved (or_now wall now) d s) (st_repo st) = (r', Ok ())"
      "subs r' = (subs (st_repo st))((t, i) \<mapsto> moved (or_now wall now) d s)"
      "stripe r' = stripe_update (moved (or_now wall now) d s) (stripe (st_repo st))"
      "invs r' = invs (st_repo st)" "events r' = events (st_repo st)"
    using save_existing [OF assms(1,3), of "moved (or_now wall now) d s"] key by auto
  have "svc_transition svc wall now t i tr ev st =
      (svc_publish svc now ev (moved (or_now wall now) d s) [] (st\<lparr>st_repo := r'\<rparr>),
       Ok (moved (or_now wall now) d s))"
    using key(3) get app r'(2) assms(2) by (simp add: svc_transition_def)
  moreover have "stripe r' = stripe_update s (stripe (st_repo st))"
    using r'(4) by (simp add: stripe_update_def)
  ultimately show ?thesis using r' by blast
qed

lemma transition_refused:
  assumes "wf (st_repo st)" and "svc_repo svc = repo"
    and "\<And>s d. subs (st_repo st) (t, i) = Some s \<Longrightarrow> bstep (bs_State s) tr \<noteq> Some d"
  shows "\<exists>e. svc_transition svc wall now t i tr ev st = (st, Err e)"
proof (cases "t = []")
  case False
  note get = get_law [OF assms(1), of t i]
  show ?thesis
  proof (cases "subs (st_repo st) (t, i)")
    case None
    with get False assms(2) show ?thesis by (simp add: svc_transition_def)
  next
    case (Some s)
    with assms(3) have "bstep (bs_State s) tr = None" by (cases "bstep (bs_State s) tr") auto
    then have "nextBState (bs_State s) tr = Err ErrInvalidTransition" by (simp add: nextBState_Err)
    then have "bsub_apply wall s tr now = Err ErrInvalidTransition" by (simp add: bsub_apply_def)
    with get False Some assms(2) show ?thesis by (simp add: svc_transition_def)
  qed
qed (simp add: svc_transition_def)

lemma activate_is_transition:
  assumes "wf (st_repo st)" and "svc_repo svc = repo"
  shows "(\<exists>tr. svc_activate svc wall now t i st
             = svc_transition svc wall now t i tr ''subscription.updated'' st)
       \<or> (\<exists>e. svc_activate svc wall now t i st = (st, Err e))"
proof (cases "br_getSubscription (svc_repo svc) t i (st_repo st)")
  case (Inl e)
  then have "svc_activate svc wall now t i st = (st, Err e)" by (simp add: svc_activate_def)
  then show ?thesis by blast
next
  case (Inr s)
  then have "svc_activate svc wall now t i st = svc_transition svc wall now t i
      (if bs_State s = StatePastDue then TransitionRecover else TransitionActivate)
      ''subscription.updated'' st"
    by (simp add: svc_activate_def)
  then show ?thesis by blast
qed

lemma invoice_stored:
  assumes "wf (st_repo st)" and "svc_repo svc = repo" and "inv_TenantID v \<noteq> []"
  shows "\<exists>r' v' sub. wf r' \<and> svc_upsertInvoice svc now v ev st
        = (svc_publish svc now ev sub ''stripe'' (st\<lparr>st_repo := r'\<rparr>), Ok v')
    \<and> bs_TenantID sub = inv_TenantID v \<and> bs_ID sub = inv_SubscriptionID v
    \<and> v' = v\<lparr>inv_Status := (if inv_Status v = InvoiceOther [] then InvoiceOpen else inv_Status v),
             inv_CreatedAt := or_now now (inv_CreatedAt v), inv_UpdatedAt := now\<rparr>
    \<and> invs r' = (invs (st_repo st))((inv_TenantID v, inv_ID v) \<mapsto>
         keep_created (invs (st_repo st) (inv_TenantID v, inv_ID v)) v')
    \<and> subs r' = subs (st_repo st) \<and> stripe r' = stripe (st_repo st)
    \<and> events r' = events (st_repo st)"
proof -
  let ?v = "v\<lparr>inv_Status := (if inv_Status v = InvoiceOther [] then InvoiceOpen else inv_Status v),
             inv_CreatedAt := or_now now (inv_CreatedAt v), inv_UpdatedAt := now\<rparr>"
  let ?sub = "zero_bsub\<lparr>bs_TenantID := inv_TenantID v, bs_ID := inv_SubscriptionID v\<rparr>"
  obtain r' where r': "wf r'" "br_upsertInvoice repo ?v (st_repo st) = (r', Ok ())"
    "invs r' = (invs (st_repo st))((inv_TenantID v, inv_ID v) \<mapsto>
         keep_created (invs (st_repo st) (inv_TenantID v, inv_ID v)) ?v)"
    "subs r' = subs (st_repo st)" "stripe r' = stripe (st_repo st)" "events r' = events (st_repo st)"
    using invoice_law [OF assms(1), of ?v] assms(3) by auto
  have v: "(let v1 = (if inv_Status v = InvoiceOther [] then v\<lparr>inv_Status := InvoiceOpen\<rparr> else v);
               v2 = (if time_is_zero (inv_CreatedAt v1) then v1\<lparr>inv_CreatedAt := now\<rparr> else v1)
           in v2\<lparr>inv_UpdatedAt := now\<rparr>) = ?v"
    by (simp add: or_now_def Let_def)
  have "svc_upsertInvoice svc now v ev st
        = (svc_publish svc now ev ?sub ''stripe'' (st\<lparr>st_repo := r'\<rparr>), Ok ?v)"
    using assms(2,3) r'(2) unfolding svc_upsertInvoice_def v [unfolded Let_def, symmetric]
    by (simp add: Let_def)
  with r' show ?thesis by (intro exI [of _ r'] exI [of _ ?v] exI [of _ ?sub]) simp
qed

lemma transition_effect:
  assumes "wf (st_repo st)" and "svc_repo svc = repo" and "ev \<in> sub_event_types"
    and "st' = fst (svc_transition svc wall now t i tr ev st)"
  shows "wf (st_repo st') \<and> invs (st_repo st') = invs (st_repo st)
    \<and> events (st_repo st') = events (st_repo st)
    \<and> (st' = st \<or> (\<exists>s. bs_TenantID s = t \<and> bs_ID s = i
        \<and> wrote (svc_pub svc) (subs (st_repo st)) (st_published st) (subs (st_repo st')) (st_published st') s
        \<and> legal_write (subs (st_repo st)) s))"
proof (cases "\<exists>s d. subs (st_repo st) (t, i) = Some s \<and> bstep (bs_State s) tr = Some d")
  case True
  then obtain s d where s: "subs (st_repo st) (t, i) = Some s" and d: "bstep (bs_State s) tr = Some d"
    by blast
  let ?s = "moved (or_now wall now) d s"
  have key: "bs_TenantID s = t" "bs_ID s = i" using key_law [OF assms(1) s] by auto
  obtain r' where r': "wf r'" "svc_transition svc wall now t i tr ev st =
        (svc_publish svc now ev ?s [] (st\<lparr>st_repo := r'\<rparr>), Ok ?s)"
      "subs r' = (subs (st_repo st))((t, i) \<mapsto> ?s)"
      "invs r' = invs (st_repo st)" "events r' = events (st_repo st)"
    using transition_ok [OF assms(1,2) s d] by blast
  have st': "st' = svc_publish svc now ev ?s [] (st\<lparr>st_repo := r'\<rparr>)" using assms(4) r'(2) by simp
  have "wrote (svc_pub svc) (subs (st_repo st)) (st_published st) (subs (st_repo st')) (st_published st') ?s"
    unfolding wrote_def st' svc_publish_log using assms(3) key r'(3) by auto
  moreover have "legal_write (subs (st_repo st)) ?s"
    using s d key unfolding legal_write_def by auto
  ultimately show ?thesis using r' st' key by (intro conjI disjI2 exI [of _ ?s]) simp_all
next
  case False
  then have "\<exists>e. svc_transition svc wall now t i tr ev st = (st, Err e)"
    by (intro transition_refused [OF assms(1,2)]) blast
  then show ?thesis using assms(1,4) by auto
qed

lemma create_effect:
  assumes "wf (st_repo st)" and "svc_repo svc = repo" and "ev \<in> sub_event_types"
    and "newBSubscription wall inp = Ok s"
  shows "\<exists>r' res. br_createSubscription (svc_repo svc) s (st_repo st) = (r', res) \<and> wf r'
    \<and> invs r' = invs (st_repo st) \<and> events r' = events (st_repo st)
    \<and> (case res of Err _ \<Rightarrow> r' = st_repo st
       | Ok _ \<Rightarrow> subs r' = (subs (st_repo st))((bs_TenantID s, bs_ID s) \<mapsto> s)
            \<and> legal_write (subs (st_repo st)) s)"
proof (cases "bs_TenantID s = [] \<or> subs (st_repo st) (bs_TenantID s, bs_ID s) \<noteq> None")
  case True
  then show ?thesis using create_refused_law [OF assms(1)] assms(1,2) by simp
next
  case False
  then obtain r' where r': "wf r'" "br_createSubscription repo s (st_repo st) = (r', Ok ())"
    "subs r' = (subs (st_repo st))((bs_TenantID s, bs_ID s) \<mapsto> s)"
    "invs r' = invs (st_repo st)" "events r' = events (st_repo st)"
    using create_law [OF assms(1)] by blast
  have "canonical_bstate (bs_State s)"
    using assms(4) by (auto simp: newBSubscription_Ok Let_def is_ok_iff parseBState_Ok split: if_splits)
  then show ?thesis using r' False assms(2) by (simp add: legal_write_def)
qed

lemma createSubscription_effect:
  assumes "wf (st_repo st)" and "svc_repo svc = repo"
    and "st' = fst (svc_createSubscription svc wall now inp0 st)"
  shows "wf (st_repo st') \<and> invs (st_repo st') = invs (st_repo st)
    \<and> events (st_repo st') = events (st_repo st)
    \<and> (st' = st \<or> (\<exists>s. wrote (svc_pub svc) (subs (st_repo st)) (st_published st)
            (subs (st_repo st')) (st_published st') s \<and> legal_write (subs (st_repo st)) s))"
proof (cases "svc_plans svc (bi_PlanID inp0)")
  case (Inl e)
  then show ?thesis using assms(1,3) by (simp add: svc_createSubscription_def)
next
  case plan: (Inr p)
  define inp where "inp = (if time_is_zero (bi_Now inp0) then inp0\<lparr>bi_Now := now\<rparr> else inp0)"
  have ev: "''subscription.created'' \<in> sub_event_types" by (simp add: sub_event_types_def)
  show ?thesis
  proof (cases "newBSubscription wall inp")
    case (Inl e)
    then show ?thesis using assms(1,3) plan by (simp add: svc_createSubscription_def inp_def Let_def)
  next
    case (Inr s)
    obtain r' res where r': "br_createSubscription (svc_repo svc) s (st_repo st) = (r', res)" "wf r'"
      "invs r' = invs (st_repo st)" "events r' = events (st_repo st)"
      "case res of Err _ \<Rightarrow> r' = st_repo st
       | Ok _ \<Rightarrow> subs r' = (subs (st_repo st))((bs_TenantID s, bs_ID s) \<mapsto> s)
            \<and> legal_write (subs (st_repo st)) s"
      using create_effect [OF assms(1,2) ev Inr] by blast
    show ?thesis
    proof (cases res)
      case err: (Inl e)
      then have "st' = st\<lparr>st_repo := r'\<rparr>"
        using assms(3) plan Inr r'(1) by (simp add: svc_createSubscription_def inp_def Let_def)
      with err r' show ?thesis by simp
    next
      case ok: (Inr u)
      then have st': "st' = svc_publish svc now ''subscription.created'' s [] (st\<lparr>st_repo := r'\<rparr>)"
        using assms(3) plan Inr r'(1) by (simp add: svc_createSubscription_def inp_def Let_def)
      have "wrote (svc_pub svc) (subs (st_repo st)) (st_published st)
              (subs (st_repo st')) (st_published st') s"
        unfolding wrote_def st' svc_publish_log using ok r'(5) ev by auto
      with st' ok r' show ?thesis by (intro conjI disjI2 exI [of _ s]) simp_all
    qed
  qed
qed

lemma stripe_fields_key [simp]:
  "bs_TenantID (stripe_fields now inp s) = bs_TenantID s" "bs_ID (stripe_fields now inp s) = bs_ID s"
  "bs_PlanID (stripe_fields now inp s) = bs_PlanID s"
  "bs_StripeSubscriptionID (stripe_fields now inp s) = bs_StripeSubscriptionID s"
  by (simp_all add: stripe_fields_def Let_def)

lemma upsert_known:
  assumes "wf (st_repo st)" and "svc_repo svc = repo"
    and "stripe (st_repo st) (bi_TenantID inp, bi_StripeSubscriptionID inp) = Some i"
  shows "\<exists>s r' inp'. subs (st_repo st) (bi_TenantID inp, i) = Some s \<and> wf r'
    \<and> svc_upsertFromStripe svc wall now inp ev st
        = (svc_publish svc now ev (stripe_fields now inp' s) ''stripe'' (st\<lparr>st_repo := r'\<rparr>),
           Ok (stripe_fields now inp' s))
    \<and> bi_State inp' = bi_State inp
    \<and> subs r' = (subs (st_repo st))((bi_TenantID inp, i) \<mapsto> stripe_fields now inp' s)
    \<and> invs r' = invs (st_repo st) \<and> events r' = events (st_repo st)"
proof -
  define inp' where "inp' = (if time_is_zero (bi_Now inp) then inp\<lparr>bi_Now := now\<rparr> else inp)"
  have inp': "bi_TenantID inp' = bi_TenantID inp" "bi_State inp' = bi_State inp"
    "bi_StripeSubscriptionID inp' = bi_StripeSubscriptionID inp"
    by (simp_all add: inp'_def)
  obtain s where s: "subs (st_repo st) (bi_TenantID inp, i) = Some s"
    using index_law [OF assms(1,3)] by blast
  have key: "bs_TenantID s = bi_TenantID inp" "bs_ID s = i" "bi_TenantID inp \<noteq> []"
    using key_law [OF assms(1) s] by auto
  have get: "br_getSubscriptionByStripeID (svc_repo svc) (bi_TenantID inp') (bi_StripeSubscriptionID inp')
      (st_repo st) = Ok s"
    using get_stripe_law [OF assms(1)] assms(2,3) s key(3) inp' by simp
  obtain r' where r': "wf r'"
      "br_saveSubscription repo (stripe_fields now inp' s) (st_repo st) = (r', Ok ())"
      "subs r' = (subs (st_repo st))((bi_TenantID inp, i) \<mapsto> stripe_fields now inp' s)"
      "invs r' = invs (st_repo st)" "events r' = events (st_repo st)"
    using save_existing [OF assms(1) s, of "stripe_fields now inp' s"] key by auto
  have "svc_upsertFromStripe svc wall now inp ev st
        = (svc_publish svc now ev (stripe_fields now inp' s) ''stripe'' (st\<lparr>st_repo := r'\<rparr>),
           Ok (stripe_fields now inp' s))"
    using get r'(2) assms(2) unfolding svc_upsertFromStripe_def Let_def inp'_def [symmetric] by simp
  with s r' inp'(2) show ?thesis by blast
qed

lemma upsert_unknown:
  assumes "wf (st_repo st)" and "svc_repo svc = repo" and "ev \<in> sub_event_types"
    and "stripe (st_repo st) (bi_TenantID inp0, bi_StripeSubscriptionID inp0) = None"
    and "st' = fst (svc_upsertFromStripe svc wall now inp0 ev st)"
  shows "wf (st_repo st') \<and> invs (st_repo st') = invs (st_repo st)
    \<and> events (st_repo st') = events (st_repo st)
    \<and> (st' = st \<or> (\<exists>s. bs_TenantID s = bi_TenantID inp0
          \<and> wrote (svc_pub svc) (subs (st_repo st)) (st_published st)
            (subs (st_repo st')) (st_published st') s \<and> legal_write (subs (st_repo st)) s))"
proof -
  define inp where "inp = (if time_is_zero (bi_Now inp0) then inp0\<lparr>bi_Now := now\<rparr> else inp0)"
  have inp: "bi_TenantID inp = bi_TenantID inp0" "bi_StripeSubscriptionID inp = bi_StripeSubscriptionID inp0"
    by (simp_all add: inp_def)
  show ?thesis
  proof (cases "bi_TenantID inp0 = []")
    case True
    then have "st' = st"
      using assms(2,5) get_stripe_law [OF assms(1)] inp
      unfolding svc_upsertFromStripe_def Let_def inp_def [symmetric] by simp
    then show ?thesis using assms(1) by simp
  next
    case False
    then have get: "br_getSubscriptionByStripeID (svc_repo svc) (bi_TenantID inp)
        (bi_StripeSubscriptionID inp) (st_repo st) = Err ErrSubscriptionNotFound"
      using get_stripe_law [OF assms(1)] assms(2,4) inp by simp
    show ?thesis
    proof (cases "newBSubscription wall inp")
      case (Inl e)
      then have "st' = st"
        using get assms(5) unfolding svc_upsertFromStripe_def Let_def inp_def [symmetric] by simp
      then show ?thesis using assms(1) by simp
    next
      case (Inr s)
      obtain r' res where r': "br_createSubscription (svc_repo svc) s (st_repo st) = (r', res)" "wf r'"
        "invs r' = invs (st_repo st)" "events r' = events (st_repo st)"
        "case res of Err _ \<Rightarrow> r' = st_repo st
         | Ok _ \<Rightarrow> subs r' = (subs (st_repo st))((bs_TenantID s, bs_ID s) \<mapsto> s)
              \<and> legal_write (subs (st_repo st)) s"
        using create_effect [OF assms(1,2,3) Inr] by blast
      show ?thesis
      proof (cases res)
        case err: (Inl e)
        then have "st' = st\<lparr>st_repo := r'\<rparr>"
          using assms(5) get Inr r'(1) unfolding svc_upsertFromStripe_def Let_def inp_def [symmetric] by simp
        with err r' show ?thesis by simp
      next
        case ok: (Inr u)
        then have st': "st' = svc_publish svc now ev s ''stripe'' (st\<lparr>st_repo := r'\<rparr>)"
          using assms(5) get Inr r'(1) unfolding svc_upsertFromStripe_def Let_def inp_def [symmetric] by simp
        have "bs_TenantID s = bi_TenantID inp0" using Inr inp by (auto simp: newBSubscription_Ok Let_def)
        moreover have "wrote (svc_pub svc) (subs (st_repo st)) (st_published st)
                (subs (st_repo st')) (st_published st') s"
          unfolding wrote_def st' svc_publish_log using ok r'(5) assms(3) by auto
        ultimately show ?thesis using st' ok r' by (intro conjI disjI2 exI [of _ s]) simp_all
      qed
    qed
  qed
qed

lemma upsert_effect:
  assumes "wf (st_repo st)" and "svc_repo svc = repo" and "ev \<in> sub_event_types"
    and "st' = fst (svc_upsertFromStripe svc wall now inp ev st)"
  shows "wf (st_repo st') \<and> invs (st_repo st') = invs (st_repo st)
    \<and> events (st_repo st') = events (st_repo st)
    \<and> (st' = st \<or> (\<exists>s. bs_TenantID s = bi_TenantID inp
          \<and> wrote (svc_pub svc) (subs (st_repo st)) (st_published st)
            (subs (st_repo st')) (st_published st') s))"
proof (cases "stripe (st_repo st) (bi_TenantID inp, bi_StripeSubscriptionID inp)")
  case None
  from upsert_unknown [OF assms(1,2,3) None assms(4)] show ?thesis by blast
next
  case (Some i)
  obtain s r' inp' where s: "subs (st_repo st) (bi_TenantID inp, i) = Some s"
    and r': "wf r'" "svc_upsertFromStripe svc wall now inp ev st
        = (svc_publish svc now ev (stripe_fields now inp' s) ''stripe'' (st\<lparr>st_repo := r'\<rparr>),
           Ok (stripe_fields now inp' s))"
      "subs r' = (subs (st_repo st))((bi_TenantID inp, i) \<mapsto> stripe_fields now inp' s)"
      "invs r' = invs (st_repo st)" "events r' = events (st_repo st)"
    using upsert_known [OF assms(1,2) Some] by blast
  let ?s = "stripe_fields now inp' s"
  have key: "bs_TenantID s = bi_TenantID inp" "bs_ID s = i" using key_law [OF assms(1) s] by auto
  have st': "st' = svc_publish svc now ev ?s ''stripe'' (st\<lparr>st_repo := r'\<rparr>)"
    using assms(4) r'(2) by simp
  have "wrote (svc_pub svc) (subs (st_repo st)) (st_published st) (subs (st_repo st')) (st_published st') ?s"
    unfolding wrote_def st' svc_publish_log using assms(3) key r'(3) by auto
  then show ?thesis using st' r' key by (intro conjI disjI2 exI [of _ ?s]) simp_all
qed

lemma invoice_effect:
  assumes "wf (st_repo st)" and "svc_repo svc = repo" and "ev \<notin> sub_event_types"
    and "st' = fst (svc_upsertInvoice svc now v ev st)"
  shows "wf (st_repo st') \<and> subs (st_repo st') = subs (st_repo st)
    \<and> stripe (st_repo st') = stripe (st_repo st) \<and> events (st_repo st') = events (st_repo st)
    \<and> (\<forall>k. announced k (st_published st') = announced k (st_published st))"
proof (cases "inv_TenantID v = []")
  case True
  then show ?thesis using assms(1,4) by (simp add: svc_upsertInvoice_def)
next
  case False
  obtain r' v' sub where r': "wf r'" "svc_upsertInvoice svc now v ev st
        = (svc_publish svc now ev sub ''stripe'' (st\<lparr>st_repo := r'\<rparr>), Ok v')"
      "subs r' = subs (st_repo st)" "stripe r' = stripe (st_repo st)" "events r' = events (st_repo st)"
    using invoice_stored [OF assms(1,2) False] by metis
  then have "st' = svc_publish svc now ev sub ''stripe'' (st\<lparr>st_repo := r'\<rparr>)" using assms(4) by simp
  then show ?thesis using r' assms(3) by (simp add: svc_publish_log announced_event_of)
qed

lemma exec_effect:
  assumes "wf (st_repo st)" and "svc_repo svc = repo" and "call_announces c"
    and "st' = svc_exec svc wall now c st"
  shows "wf (st_repo st')
    \<and> (subs (st_repo st') = subs (st_repo st)
         \<and> (\<forall>k. announced k (st_published st') = announced k (st_published st))
       \<or> (\<exists>s. wrote (svc_pub svc) (subs (st_repo st)) (st_published st)
            (subs (st_repo st')) (st_published st') s
          \<and> (call_is_stripe c \<or> legal_write (subs (st_repo st)) s)))"
proof -
  have ev: "''subscription.updated'' \<in> sub_event_types" "''subscription.canceled'' \<in> sub_event_types"
    by (simp_all add: sub_event_types_def)
  have moves: "wf (st_repo st')
    \<and> (subs (st_repo st') = subs (st_repo st)
         \<and> (\<forall>k. announced k (st_published st') = announced k (st_published st))
       \<or> (\<exists>s. wrote (svc_pub svc) (subs (st_repo st)) (st_published st)
            (subs (st_repo st')) (st_published st') s
          \<and> (b \<or> legal_write (subs (st_repo st)) s)))"
    if "st' = fst (svc_transition svc wall now t i tr e st)" "e \<in> sub_event_types" for t i tr e b
    using transition_effect [OF assms(1,2) that(2,1)] by blast
  show ?thesis
  proof (cases c)
    case (CallCreate inp)
    then show ?thesis using createSubscription_effect [OF assms(1,2), of st' wall now inp] assms(4) by auto
  next
    case (CallActivate t i)
    then have st': "st' = fst (svc_activate svc wall now t i st)" using assms(4) by simp
    from activate_is_transition [OF assms(1,2), of wall now t i] show ?thesis
    proof (elim disjE exE)
      fix tr assume "svc_activate svc wall now t i st
          = svc_transition svc wall now t i tr ''subscription.updated'' st"
      then show ?thesis using moves [OF _ ev(1)] st' by simp
    next
      fix e assume "svc_activate svc wall now t i st = (st, Err e)"
      then show ?thesis using st' assms(1) by simp
    qed
  next
    case (CallInvoice v e)
    then show ?thesis using invoice_effect [OF assms(1,2), of e st' now v] assms(3,4) by simp
  next
    case (CallStripe inp e)
    then show ?thesis using upsert_effect [OF assms(1,2), of e st' wall now inp] assms(3,4) by auto
  next
    case (CallCancel t i)
    then have "st' = fst (svc_transition svc wall now t i TransitionCancel ''subscription.canceled'' st)"
      using assms(4) by (simp add: svc_cancel_def)
    from moves [OF this ev(2), of "call_is_stripe c"] show ?thesis .
  next
    case (CallPause t i)
    then have "st' = fst (svc_transition svc wall now t i TransitionPause ''subscription.updated'' st)"
      using assms(4) by (simp add: svc_pause_def)
    from moves [OF this ev(1), of "call_is_stripe c"] show ?thesis .
  next
    case (CallResume t i)
    then have "st' = fst (svc_transition svc wall now t i TransitionResume ''subscription.updated'' st)"
      using assms(4) by (simp add: svc_resume_def)
    from moves [OF this ev(1), of "call_is_stripe c"] show ?thesis .
  next
    case (CallMarkPastDue t i)
    then have "st' = fst (svc_transition svc wall now t i TransitionMarkPastDue ''subscription.updated'' st)"
      using assms(4) by (simp add: svc_markPastDue_def)
    from moves [OF this ev(1), of "call_is_stripe c"] show ?thesis .
  qed
qed

definition log_agrees :: "bool \<Rightarrow> 'r billing_state \<Rightarrow> bool" where
  "log_agrees pub st \<longleftrightarrow> pub \<longrightarrow>
     (\<forall>k. announced k (st_published st) = map_option (bstate_string \<circ> bs_State) (subs (st_repo st) k))"

lemma wrote_agrees:
  assumes "wrote pub (subs (st_repo st)) (st_published st) (subs (st_repo st')) (st_published st') s"
    and "log_agrees pub st"
  shows "log_agrees pub st'"
proof -
  have ne: "[] \<notin> sub_event_types" by (simp add: sub_event_types_def)
  then show ?thesis
    using assms by (auto simp: log_agrees_def wrote_def announced_event_of)
qed

lemma history_agrees:
  assumes "wf (st_repo st)" and "svc_repo svc = repo" and "\<forall>c \<in> set cs. call_announces (snd c)"
    and "log_agrees (svc_pub svc) st"
  shows "wf (st_repo (svc_history svc wall cs st)) \<and> log_agrees (svc_pub svc) (svc_history svc wall cs st)"
  using assms
proof (induction svc wall cs st rule: svc_history.induct)
  case (2 svc wall now c cs st)
  let ?st = "svc_exec svc wall now c st"
  have "call_announces c" using "2.prems"(3) by simp
  note eff = exec_effect [OF "2.prems"(1,2) this refl, of wall now]
  have "wf (st_repo ?st) \<and> log_agrees (svc_pub svc) ?st"
  proof (cases "subs (st_repo ?st) = subs (st_repo st)
         \<and> (\<forall>k. announced k (st_published ?st) = announced k (st_published st))")
    case True
    then show ?thesis using eff "2.prems"(4) by (simp add: log_agrees_def)
  next
    case False
    then obtain s where "wrote (svc_pub svc) (subs (st_repo st)) (st_published st)
        (subs (st_repo ?st)) (st_published ?st) s" using eff by blast
    from wrote_agrees [OF this "2.prems"(4)] show ?thesis using eff by blast
  qed
  then show ?case using "2.IH" "2.prems" by simp
qed simp

lemma legal_write_run:
  assumes "legal_write m s'" and "m (bs_TenantID s', bs_ID s') = Some s0"
  shows "\<exists>tr. bstep (bs_State s0) tr = Some (bs_State s')
    \<and> bs_PlanID s' = bs_PlanID s0 \<and> bs_StripeSubscriptionID s' = bs_StripeSubscriptionID s0"
  using assms by (auto simp: legal_write_def)

lemma history_follows_table:
  assumes "wf (st_repo st)" and "svc_repo svc = repo"
    and "\<forall>c \<in> set cs. call_announces (snd c) \<and> \<not> call_is_stripe (snd c)"
    and "subs (st_repo st) k = Some s"
  shows "\<exists>s' ts. subs (st_repo (svc_history svc wall cs st)) k = Some s'
    \<and> run_table bstep (bs_State s) ts = Some (bs_State s')
    \<and> bs_PlanID s' = bs_PlanID s \<and> bs_StripeSubscriptionID s' = bs_StripeSubscriptionID s"
  using assms
proof (induction svc wall cs st arbitrary: s rule: svc_history.induct)
  case (1 svc wall st)
  then show ?case by (auto intro: exI [of _ "[]"])
next
  case (2 svc wall now c cs st)
  let ?st = "svc_exec svc wall now c st"
  have ok: "call_announces c" "\<not> call_is_stripe c" using "2.prems"(3) by simp_all
  note eff = exec_effect [OF "2.prems"(1,2) ok(1) refl, of wall now]
  have "\<exists>s1 ts1. subs (st_repo ?st) k = Some s1 \<and> run_table bstep (bs_State s) ts1 = Some (bs_State s1)
      \<and> bs_PlanID s1 = bs_PlanID s \<and> bs_StripeSubscriptionID s1 = bs_StripeSubscriptionID s"
  proof (cases "subs (st_repo ?st) k = Some s")
    case True
    then show ?thesis by (auto intro: exI [of _ "[]"])
  next
    case False
    then obtain s1 where s1: "wrote (svc_pub svc) (subs (st_repo st)) (st_published st)
        (subs (st_repo ?st)) (st_published ?st) s1" "legal_write (subs (st_repo st)) s1"
      using eff ok(2) "2.prems"(4) by auto
    then have k: "k = (bs_TenantID s1, bs_ID s1)" "subs (st_repo ?st) k = Some s1"
      using False "2.prems"(4) by (auto simp: wrote_def split: if_splits)
    then obtain tr where "bstep (bs_State s) tr = Some (bs_State s1)"
        "bs_PlanID s1 = bs_PlanID s" "bs_StripeSubscriptionID s1 = bs_StripeSubscriptionID s"
      using legal_write_run [OF s1(2)] "2.prems"(4) by auto
    then show ?thesis using k(2) by (intro exI [of _ s1] exI [of _ "[tr]"]) simp
  qed
  then obtain s1 ts1 where s1: "subs (st_repo ?st) k = Some s1"
      "run_table bstep (bs_State s) ts1 = Some (bs_State s1)"
      "bs_PlanID s1 = bs_PlanID s" "bs_StripeSubscriptionID s1 = bs_StripeSubscriptionID s" by blast
  obtain s' ts where s': "subs (st_repo (svc_history svc wall cs ?st)) k = Some s'"
      "run_table bstep (bs_State s1) ts = Some (bs_State s')"
      "bs_PlanID s' = bs_PlanID s1" "bs_StripeSubscriptionID s' = bs_StripeSubscriptionID s1"
    using "2.IH" [OF _ "2.prems"(2) _ s1(1)] eff "2.prems"(3) by auto
  have "run_table bstep (bs_State s) (ts1 @ ts) = Some (bs_State s')"
    using s1(2) s'(2) by (simp add: run_table_append)
  with s1 s' show ?case by auto
qed

end

subsection \<open>Properties of the service on the in-memory repository\<close>

definition empty_state :: "billing_mem billing_state" where
  "empty_state = \<lparr>st_repo = newInMemoryRepository, st_published = []\<rparr>"

lemma mem_getSubscription_Ok [go_ok]:
  "mem_getSubscription t i r = Ok s \<longleftrightarrow> t \<noteq> [] \<and> mem_sub_view r (t, i) = Some s"
  by (simp add: mem_getSubscription_view split: option.split)

lemma wf_history:
  assumes "svc_repo svc = inmemory_repository its iti"
    and "\<forall>c \<in> set cs. call_announces (snd c)" and "billing_mem_wf (st_repo st)"
  shows "billing_mem_wf (st_repo (svc_history svc wall cs st))"
  using assms(3,1,2)
proof (induction svc wall cs st rule: svc_history.induct)
  case (2 svc wall now c cs st)
  then have "call_announces c" by simp
  from bmr.exec_effect [OF "2.prems"(1,2) this refl] show ?case using 2 by simp
qed simp

text \<open>C28: The event log is faithful. With a publisher configured, after any history of service
  calls starting from an empty repository, the last subscription event published for a tenant
  and an id carries exactly the state that is stored under them, and a subscription has an
  event exactly when it exists.\<close>

theorem billing_events_tell_state:
  assumes "svc_repo svc = inmemory_repository its iti" and "svc_pub svc"
    and "\<forall>c \<in> set cs. call_announces (snd c)" and "t \<noteq> []"
  shows "announced (t, i) (st_published (svc_history svc wall cs empty_state)) =
    (case mem_getSubscription t i (st_repo (svc_history svc wall cs empty_state)) of
       Err _ \<Rightarrow> None | Ok s \<Rightarrow> Some (bstate_string (bs_State s)))"
proof -
  have "billing_mem_wf (st_repo empty_state)" by (simp add: empty_state_def billing_mem_wf_new)
  moreover have "bmr.log_agrees (svc_pub svc) empty_state"
    by (simp add: bmr.log_agrees_def empty_state_def announced_def mem_sub_view_def
        newInMemoryRepository_def split: prod.split)
  ultimately have "bmr.log_agrees (svc_pub svc) (svc_history svc wall cs empty_state)"
    using bmr.history_agrees [of empty_state svc its iti cs wall] assms(1,3) by blast
  then show ?thesis
    using assms(2,4) by (simp add: bmr.log_agrees_def mem_getSubscription_view split: option.split)
qed

definition sample_service :: "billing_mem billing_service" where
  "sample_service = \<lparr>svc_repo = inmemory_repository (\<lambda>xs. xs) (\<lambda>xs. xs),
     svc_plans = catalog_get (newStaticPlanCatalog []), svc_pub = True\<rparr>"

definition sample_input :: "string \<Rightarrow> bsub_input" where
  "sample_input state = \<lparr>bi_ID = ''sub_1'', bi_TenantID = ''acme'', bi_PlanID = ''pro'',
     bi_StripeSubscriptionID = ''sub_1'', bi_StripeCustomerID = ''cus_1'', bi_State = state,
     bi_CurrentPeriodStart = 0, bi_CurrentPeriodEnd = 100, bi_Now = zero_time\<rparr>"

theorem billing_events_tell_state_witness:
  "announced (''acme'', ''sub_1'') (st_published (svc_history sample_service 0
      [(10, CallCreate (sample_input [])), (20, CallActivate ''acme'' ''sub_1''),
       (30, CallPause ''acme'' ''sub_1'')] empty_state)) = Some ''paused''"
proof -
  let ?cs = "[(10, CallCreate (sample_input [])), (20, CallActivate ''acme'' ''sub_1''),
       (30, CallPause ''acme'' ''sub_1'')]"
  have "case mem_getSubscription ''acme'' ''sub_1'' (st_repo (svc_history sample_service 0 ?cs empty_state))
      of Err _ \<Rightarrow> False | Ok s \<Rightarrow> bstate_string (bs_State s) = ''paused''"
    by code_simp
  then have "(case mem_getSubscription ''acme'' ''sub_1'' (st_repo (svc_history sample_service 0 ?cs empty_state))
      of Err _ \<Rightarrow> None | Ok s \<Rightarrow> Some (bstate_string (bs_State s))) = Some ''paused''"
    by (simp split: sum.splits)
  then show ?thesis
    by (subst billing_events_tell_state [where its = "\<lambda>xs. xs" and iti = "\<lambda>xs. xs"])
       (simp_all add: sample_service_def)
qed

lemma svc_transition_exact_parts:
  assumes "svc_repo svc = inmemory_repository its iti" and "billing_mem_wf (st_repo st)"
    and "svc_transition svc wall now t i tr ev st = (st', res)"
  shows "is_ok res \<longleftrightarrow> (\<exists>s d. mem_getSubscription t i (st_repo st) = Ok s \<and> bstep (bs_State s) tr = Some d)"
    and "\<not> is_ok res \<Longrightarrow> st' = st"
    and "res = Ok s' \<Longrightarrow> mem_getSubscription t i (st_repo st') = Ok s'"
    and "(t', i') \<noteq> (t, i) \<Longrightarrow>
      mem_getSubscription t' i' (st_repo st') = mem_getSubscription t' i' (st_repo st)"
proof -
  let ?can = "\<exists>s d. mem_sub_view (st_repo st) (t, i) = Some s \<and> bstep (bs_State s) tr = Some d"
  have t: "t \<noteq> []" if "mem_sub_view (st_repo st) (t, i) = Some s" for s
    using assms(2) that by (auto simp: billing_mem_wf_def)
  have *: "(is_ok res \<longleftrightarrow> ?can) \<and> (\<not> is_ok res \<longrightarrow> st' = st)
      \<and> (res = Ok s' \<longrightarrow> mem_getSubscription t i (st_repo st') = Ok s')
      \<and> ((t', i') \<noteq> (t, i) \<longrightarrow>
          mem_getSubscription t' i' (st_repo st') = mem_getSubscription t' i' (st_repo st))"
  proof (cases ?can)
    case True
    then obtain s d where s: "mem_sub_view (st_repo st) (t, i) = Some s" and d: "bstep (bs_State s) tr = Some d"
      by blast
    obtain r' where "svc_transition svc wall now t i tr ev st =
      (svc_publish svc now ev (moved (or_now wall now) d s) [] (st\<lparr>st_repo := r'\<rparr>),
       Ok (moved (or_now wall now) d s))"
      and v: "mem_sub_view r' = (mem_sub_view (st_repo st))((t, i) \<mapsto> moved (or_now wall now) d s)"
      using bmr.transition_ok [OF assms(2,1) s d] by blast
    then have r: "st' = svc_publish svc now ev (moved (or_now wall now) d s) [] (st\<lparr>st_repo := r'\<rparr>)"
        "res = Ok (moved (or_now wall now) d s)"
      using assms(3) by simp_all
    then show ?thesis using True v t [OF s] by (auto simp: mem_getSubscription_view)
  next
    case False
    then obtain e where "svc_transition svc wall now t i tr ev st = (st, Err e)"
      using bmr.transition_refused [OF assms(2,1), of t i tr wall now ev] by blast
    then show ?thesis using False assms(3) by auto
  qed
  then show "is_ok res \<longleftrightarrow> (\<exists>s d. mem_getSubscription t i (st_repo st) = Ok s \<and> bstep (bs_State s) tr = Some d)"
    using t by (auto simp: mem_getSubscription_Ok)
  from * show "\<not> is_ok res \<Longrightarrow> st' = st" and "res = Ok s' \<Longrightarrow> mem_getSubscription t i (st_repo st') = Ok s'"
    and "(t', i') \<noteq> (t, i) \<Longrightarrow>
      mem_getSubscription t' i' (st_repo st') = mem_getSubscription t' i' (st_repo st)"
    by blast+
qed

text \<open>A transition requested of the service succeeds exactly when the subscription exists
  and the table allows the move. If it fails, repository and event log are as before; if it
  succeeds, the returned value is what is stored, and no other subscription of this or any
  other tenant is touched.\<close>

theorem svc_transition_exact:
  assumes "svc_repo svc = inmemory_repository its iti" and "billing_mem_wf (st_repo st)"
    and "svc_transition svc wall now t i tr ev st = (st', res)"
  shows "(is_ok res \<longleftrightarrow> (\<exists>s d. mem_getSubscription t i (st_repo st) = Ok s \<and> nextBState (bs_State s) tr = Ok d))
    \<and> (\<not> is_ok res \<longrightarrow> st' = st)
    \<and> (\<forall>s'. res = Ok s' \<longrightarrow> mem_getSubscription t i (st_repo st') = Ok s')
    \<and> (\<forall>t' i'. (t', i') \<noteq> (t, i) \<longrightarrow>
         mem_getSubscription t' i' (st_repo st') = mem_getSubscription t' i' (st_repo st))"
  using svc_transition_exact_parts [OF assms] unfolding nextBState_Ok by blast

definition sample_state :: "bstate \<Rightarrow> billing_mem billing_state" where
  "sample_state b = \<lparr>st_repo = store_sub ((sample_sub ''a'' 5)\<lparr>bs_State := b\<rparr>) newInMemoryRepository,
     st_published = []\<rparr>"

lemma sample_state_wf: "billing_mem_wf (st_repo (sample_state b))"
  by (simp add: sample_state_def store_sub_wf billing_mem_wf_new sample_sub_def)

lemma sample_state_view:
  "mem_sub_view (st_repo (sample_state b)) (''acme'', ''a'') = Some ((sample_sub ''a'' 5)\<lparr>bs_State := b\<rparr>)"
  "mem_stripe_view (st_repo (sample_state b)) (''acme'', ''st_a'') = Some ''a''"
  by (simp_all add: sample_state_def store_sub_views sample_sub_def stripe_update_def)

theorem svc_transition_exact_witness:
  "\<exists>st' e. svc_transition sample_service 0 50 ''acme'' ''a'' TransitionResume ''subscription.updated''
      (sample_state StateActive) = (st', Err e) \<and> st' = sample_state StateActive"
proof -
  obtain st' res where r: "svc_transition sample_service 0 50 ''acme'' ''a'' TransitionResume
      ''subscription.updated'' (sample_state StateActive) = (st', res)" by fastforce
  have "svc_repo sample_service = inmemory_repository (\<lambda>xs. xs) (\<lambda>xs. xs)"
    by (simp add: sample_service_def)
  note * = svc_transition_exact [OF this sample_state_wf r]
  have "nextBState StateActive TransitionResume = Err ErrInvalidTransition" by code_simp
  then have "\<not> is_ok res"
    using * by (auto simp: mem_getSubscription_Ok sample_state_view)
  with * r show ?thesis by (cases res) auto
qed

text \<open>C29: As long as Stripe does not overrule it, a subscription changes its state only along
  the transition table: after any history of the other service calls it is still there, with
  the plan and the Stripe id it had, in a state that the table reaches from the old one; a
  canceled subscription is still canceled.\<close>

theorem billing_follows_table:
  assumes "svc_repo svc = inmemory_repository its iti" and "billing_mem_wf (st_repo st)"
    and "\<forall>c \<in> set cs. call_announces (snd c) \<and> \<not> call_is_stripe (snd c)"
    and "mem_getSubscription t i (st_repo st) = Ok s"
  shows "\<exists>s' ts. mem_getSubscription t i (st_repo (svc_history svc wall cs st)) = Ok s'
    \<and> run_table bstep (bs_State s) ts = Some (bs_State s')
    \<and> bs_PlanID s' = bs_PlanID s \<and> bs_StripeSubscriptionID s' = bs_StripeSubscriptionID s
    \<and> (bs_State s = StateCanceled \<longrightarrow> bs_State s' = StateCanceled)"
proof -
  have t: "t \<noteq> []" and v: "mem_sub_view (st_repo st) (t, i) = Some s"
    using assms(4) by (simp_all add: mem_getSubscription_Ok)
  obtain s' ts where s': "mem_sub_view (st_repo (svc_history svc wall cs st)) (t, i) = Some s'"
      "run_table bstep (bs_State s) ts = Some (bs_State s')"
      "bs_PlanID s' = bs_PlanID s" "bs_StripeSubscriptionID s' = bs_StripeSubscriptionID s"
    using bmr.history_follows_table [OF assms(2,1,3) v] by blast
  have "bstate_isTerminal StateCanceled" by (simp add: bstate_isTerminal_iff)
  then have "bs_State s = StateCanceled \<longrightarrow> bs_State s' = StateCanceled"
    using bl.terminal_stays s'(2) by auto
  with s' t show ?thesis by (intro exI [of _ s'] exI [of _ ts]) (simp add: mem_getSubscription_Ok)
qed

theorem billing_follows_table_witness:
  "\<exists>s'. mem_getSubscription ''acme'' ''a'' (st_repo (svc_history sample_service 0
      [(1, CallResume ''acme'' ''a''), (2, CallActivate ''acme'' ''a'')] (sample_state StateCanceled))) = Ok s'
     \<and> bs_State s' = StateCanceled"
proof -
  have "mem_getSubscription ''acme'' ''a'' (st_repo (sample_state StateCanceled))
      = Ok ((sample_sub ''a'' 5)\<lparr>bs_State := StateCanceled\<rparr>)"
    by (simp add: mem_getSubscription_Ok sample_state_view)
  from billing_follows_table [OF _ sample_state_wf _ this, of sample_service "\<lambda>xs. xs" "\<lambda>xs. xs"
      "[(1, CallResume ''acme'' ''a''), (2, CallActivate ''acme'' ''a'')]" 0]
  show ?thesis by (auto simp: sample_service_def)
qed

text \<open>A Stripe subscription event overrules the table: whatever state a known
  subscription is in, canceled included, it ends up in the state the event names, without
  an error. So the terminal state of the table is not terminal for the service.\<close>

theorem stripe_update_overrules_table:
  assumes "svc_repo svc = inmemory_repository its iti" and "billing_mem_wf (st_repo st)"
    and "mem_getSubscriptionByStripeID (bi_TenantID inp) (bi_StripeSubscriptionID inp) (st_repo st) = Ok s"
    and "bi_State inp \<noteq> []"
  shows "\<exists>st' s'. svc_upsertFromStripe svc wall now inp ev st = (st', Ok s')
    \<and> mem_getSubscription (bi_TenantID inp) (bs_ID s) (st_repo st') = Ok s'
    \<and> bs_State s' = bstate_of (bi_State inp)"
proof -
  have t: "bi_TenantID inp \<noteq> []" and "mem_stripe_view (st_repo st) (bi_TenantID inp, bi_StripeSubscriptionID inp) \<noteq> None"
    using assms(3) by (auto simp: mem_getSubscriptionByStripeID_view split: if_splits option.splits)
  then obtain i where i: "mem_stripe_view (st_repo st) (bi_TenantID inp, bi_StripeSubscriptionID inp) = Some i"
    by auto
  obtain s0 r' inp' where u: "mem_sub_view (st_repo st) (bi_TenantID inp, i) = Some s0"
    "svc_upsertFromStripe svc wall now inp ev st
        = (svc_publish svc now ev (stripe_fields now inp' s0) ''stripe'' (st\<lparr>st_repo := r'\<rparr>),
           Ok (stripe_fields now inp' s0))"
    "bi_State inp' = bi_State inp"
    "mem_sub_view r' = (mem_sub_view (st_repo st))((bi_TenantID inp, i) \<mapsto> stripe_fields now inp' s0)"
    using bmr.upsert_known [OF assms(2,1) i] by blast
  have "s = s0" using assms(3) i u(1) t by (simp add: mem_getSubscriptionByStripeID_view)
  moreover have "bs_ID s0 = i" using assms(2) u(1) by (auto simp: billing_mem_wf_def)
  ultimately show ?thesis
    using u t assms(4) by (simp add: mem_getSubscription_Ok) (simp add: stripe_fields_def Let_def)
qed

theorem stripe_update_overrules_table_witness:
  "\<exists>st' s'. svc_upsertFromStripe sample_service 0 50
       ((sample_input ''active'')\<lparr>bi_StripeSubscriptionID := ''st_a''\<rparr>) ''subscription.updated''
       (sample_state StateCanceled) = (st', Ok s') \<and> bs_State s' = StateActive"
proof -
  let ?inp = "(sample_input ''active'')\<lparr>bi_StripeSubscriptionID := ''st_a''\<rparr>"
  have "mem_getSubscriptionByStripeID (bi_TenantID ?inp) (bi_StripeSubscriptionID ?inp)
      (st_repo (sample_state StateCanceled)) = Ok ((sample_sub ''a'' 5)\<lparr>bs_State := StateCanceled\<rparr>)"
    by (simp add: sample_input_def mem_getSubscriptionByStripeID_view sample_state_view)
  from stripe_update_overrules_table [OF _ sample_state_wf this, of sample_service "\<lambda>xs. xs" "\<lambda>xs. xs"
      0 50 "''subscription.updated''"]
  show ?thesis by (auto simp: sample_service_def sample_input_def bstate_of_def)
qed

lemma mark_past_due:
  assumes "svc_repo svc = inmemory_repository its iti" and "billing_mem_wf (st_repo st)"
    and "mem_sub_view (st_repo st) (t, i) = Some s"
  shows "\<exists>s'. mem_sub_view (st_repo (fst (svc_transition svc wall now t i TransitionMarkPastDue ev st))) (t, i) = Some s'
    \<and> bs_State s' = (if bs_State s = StateActive then StatePastDue else bs_State s)
    \<and> mem_invoice_view (st_repo (fst (svc_transition svc wall now t i TransitionMarkPastDue ev st)))
        = mem_invoice_view (st_repo st)"
proof -
  have b: "bstep b TransitionMarkPastDue = (if b = StateActive then Some StatePastDue else None)" for b
    by (cases b) (simp_all add: bstep_def table_next_def billing_table_def mget_def)
  show ?thesis
  proof (cases "bs_State s = StateActive")
    case True
    then have "bstep (bs_State s) TransitionMarkPastDue = Some StatePastDue" by (simp add: b)
    from bmr.transition_ok [OF assms(2,1,3) this, of wall now ev] True show ?thesis by auto
  next
    case False
    then have "\<exists>e. svc_transition svc wall now t i TransitionMarkPastDue ev st = (st, Err e)"
      using assms(3) by (intro bmr.transition_refused [OF assms(2,1)]) (auto simp: b)
    then show ?thesis using False assms(3) by auto
  qed
qed

text \<open>A failed payment moves a subscription to past due exactly when it was active. The
  handler also tries it for a trial, but the table has no such move and the error is
  dropped: the webhook reports success, the invoice is stored as uncollectible, and the trial
  goes on unchanged.\<close>

theorem failed_payment_effect:
  assumes "svc_repo svc = inmemory_repository its iti" and "billing_mem_wf (st_repo st)"
    and "decodeStripeInvoiceFromEvent js (env_Data env) = Ok v" and "inv_SubscriptionID v \<noteq> []"
    and "mem_getSubscriptionByStripeID (inv_TenantID v) (inv_SubscriptionID v) (st_repo st) = Ok s"
  shows "\<exists>st' s' v'. handleInvoiceFailed js svc wall now env st = (st', Ok ())
    \<and> mem_getSubscription (inv_TenantID v) (bs_ID s) (st_repo st') = Ok s'
    \<and> bs_State s' = (if bs_State s = StateActive then StatePastDue else bs_State s)
    \<and> mem_getInvoice (inv_TenantID v) (inv_ID v) (st_repo st') = Ok v'
    \<and> inv_Status v' = InvoiceUncollectible"
proof -
  have t: "inv_TenantID v \<noteq> []"
    and "mem_stripe_view (st_repo st) (inv_TenantID v, inv_SubscriptionID v) \<noteq> None"
    using assms(5) by (auto simp: mem_getSubscriptionByStripeID_view split: if_splits option.splits)
  then obtain i where i: "mem_stripe_view (st_repo st) (inv_TenantID v, inv_SubscriptionID v) = Some i"
    by auto
  obtain s0 where "mem_sub_view (st_repo st) (inv_TenantID v, i) = Some s0"
    using bmr.index_law [OF assms(2) i] by blast
  then have s: "mem_sub_view (st_repo st) (inv_TenantID v, i) = Some s"
    using assms(5) i t by (simp add: mem_getSubscriptionByStripeID_view)
  have key: "bs_TenantID s = inv_TenantID v" "bs_ID s = i" using assms(2) s by (auto simp: billing_mem_wf_def)
  let ?v = "v\<lparr>inv_Status := InvoiceUncollectible\<rparr>"
  obtain r1 v1 sub where r1: "billing_mem_wf r1" "svc_upsertInvoice svc now ?v ''invoice.failed'' st
        = (svc_publish svc now ''invoice.failed'' sub ''stripe'' (st\<lparr>st_repo := r1\<rparr>), Ok v1)"
      "inv_Status v1 = InvoiceUncollectible"
      "mem_invoice_view r1 = (mem_invoice_view (st_repo st))((inv_TenantID v, inv_ID v) \<mapsto>
         keep_created (mem_invoice_view (st_repo st) (inv_TenantID v, inv_ID v)) v1)"
      "mem_sub_view r1 = mem_sub_view (st_repo st)" "mem_stripe_view r1 = mem_stripe_view (st_repo st)"
    using bmr.invoice_stored [OF assms(2,1), of ?v now "''invoice.failed''"] t by auto
  let ?st1 = "svc_publish svc now ''invoice.failed'' sub ''stripe'' (st\<lparr>st_repo := r1\<rparr>)"
  define v' where "v' = keep_created (mem_invoice_view (st_repo st) (inv_TenantID v, inv_ID v)) v1"
  have v': "inv_Status v' = InvoiceUncollectible"
    using r1(3) by (simp add: v'_def keep_created_def split: option.split)
  have get: "br_getSubscriptionByStripeID (svc_repo svc) (inv_TenantID v) (inv_SubscriptionID v) (st_repo ?st1) = Ok s"
    using assms(1) t i s r1(5,6) by (simp add: inmemory_repository_def mem_getSubscriptionByStripeID_view)
  define mv where "mv = fst (svc_transition svc wall now (inv_TenantID v) i TransitionMarkPastDue
      ''subscription.updated'' ?st1)"
  have h: "handleInvoiceFailed js svc wall now env st =
      (if bs_State s = StateActive \<or> bs_State s = StateTrialing then mv else ?st1, Ok ())"
    using assms(3,4) r1(2) get key by (simp add: handleInvoiceFailed_def mv_def Let_def)
  have s1: "mem_sub_view (st_repo ?st1) (inv_TenantID v, i) = Some s" using s r1(5) by simp
  have wf1: "billing_mem_wf (st_repo ?st1)" using r1(1) by simp
  obtain s' where s': "mem_sub_view (st_repo mv) (inv_TenantID v, i) = Some s'"
      "bs_State s' = (if bs_State s = StateActive then StatePastDue else bs_State s)"
      "mem_invoice_view (st_repo mv) = mem_invoice_view (st_repo ?st1)"
    using mark_past_due [OF assms(1) wf1 s1] unfolding mv_def by blast
  have ok: "mem_getInvoice (inv_TenantID v) (inv_ID v) (st_repo ?st1) = Ok v'"
      "mem_getInvoice (inv_TenantID v) (inv_ID v) (st_repo mv) = Ok v'"
    using r1(4) t s'(3) by (simp_all add: mem_getInvoice_view v'_def)
  show ?thesis
  proof (cases "bs_State s = StateActive \<or> bs_State s = StateTrialing")
    case True
    then show ?thesis using h s' key ok(2) v' t
      by (intro exI [of _ mv] exI [of _ s'] exI [of _ v']) (simp add: mem_getSubscription_Ok)
  next
    case False
    then show ?thesis using h s1 key ok(1) v' t
      by (intro exI [of _ ?st1] exI [of _ s] exI [of _ v']) (simp add: mem_getSubscription_Ok)
  qed
qed

definition sample_decoders :: stripe_json where
  "sample_decoders = \<lparr>
     js_head = (\<lambda>b. Some (''evt_1'', b)),
     js_envelope = (\<lambda>b. Some \<lparr>env_ID = ''evt_1'', env_Type = b, env_Created = 0, env_Data = b\<rparr>),
     js_data = Some,
     js_subscription = (\<lambda>b. None),
     js_invoice = (\<lambda>b. Some \<lparr>sio_ID = ''in_1'', sio_Subscription = ''st_a'', sio_Customer = [],
       sio_AmountDue = 7900, sio_AmountPaid = 0, sio_Currency = ''aud'', sio_Status = ''open'',
       sio_PeriodStart = 0, sio_PeriodEnd = 0, sio_TenantID = ''acme'', sio_PlanID = ''pro''\<rparr>)\<rparr>"

definition sample_envelope :: stripe_envelope where
  "sample_envelope = \<lparr>env_ID = ''evt_1'', env_Type = stripeInvoicePaymentFailed, env_Created = 0, env_Data = []\<rparr>"

theorem failed_payment_effect_witness:
  "\<exists>st' s'. handleInvoiceFailed sample_decoders sample_service 0 50 sample_envelope
      (sample_state StateTrialing) = (st', Ok ())
    \<and> mem_getSubscription ''acme'' ''a'' (st_repo st') = Ok s' \<and> bs_State s' = StateTrialing"
proof -
  obtain v where v: "decodeStripeInvoiceFromEvent sample_decoders (env_Data sample_envelope) = Ok v"
      "inv_TenantID v = ''acme''" "inv_SubscriptionID v = ''st_a''"
    by (simp add: decodeStripeInvoiceFromEvent_def sample_decoders_def)
  have "mem_getSubscriptionByStripeID (inv_TenantID v) (inv_SubscriptionID v)
      (st_repo (sample_state StateTrialing)) = Ok ((sample_sub ''a'' 5)\<lparr>bs_State := StateTrialing\<rparr>)"
    by (simp add: v mem_getSubscriptionByStripeID_view sample_state_view)
  from failed_payment_effect [OF _ sample_state_wf v(1) _ this, of sample_service "\<lambda>xs. xs" "\<lambda>xs. xs" 0 50]
  show ?thesis by (auto simp: v sample_service_def sample_sub_def)
qed

end

