(* ===== verification/StripeWebhook.thy ===== *)
theory StripeWebhook
  imports BillingService
begin

text \<open>
  The Stripe webhook endpoint: signature verification (\<open>internal/billing/webhook.go\<close>) and
  the HTTP handler in front of the dispatcher (\<open>cmd/mc-api/stripe_webhook_handlers.go\<close>).
  HMAC-SHA256 is a parameter that maps a secret and a message to the hex digest;
  \<open>subtle.ConstantTimeCompare\<close> is equality. A response is its status code and its message;
  reading the body is an argument, \<open>None\<close> where it fails.
\<close>

subsection \<open>Signatures\<close>

definition MinWebhookSecretBytes :: nat where "MinWebhookSecretBytes = 32"
definition DefaultWebhookTolerance :: duration where "DefaultWebhookTolerance = 5 * 60 * time_second"

datatype webhook_error =
    ErrSecretTooShort
  | ErrMissingSignature
  | ErrSignatureMalformed
  | ErrSignatureMismatch
  | ErrEventTooOld

record webhook_verifier =
  wv_secret :: string
  wv_tolerance :: duration

definition newWebhookVerifier :: "string \<Rightarrow> duration \<Rightarrow> webhook_error + webhook_verifier" where
  "newWebhookVerifier secret tolerance =
     (if length secret < MinWebhookSecretBytes then Err ErrSecretTooShort
      else Ok \<lparr>wv_secret = secret,
               wv_tolerance = (if tolerance \<le> 0 then DefaultWebhookTolerance else tolerance)\<rparr>)"

fun parse_segments :: "string list \<Rightarrow> int \<Rightarrow> string list \<Rightarrow> webhook_error + (int \<times> string list)" where
  "parse_segments [] timestamp signatures = Ok (timestamp, signatures)"
| "parse_segments (part # parts) timestamp signatures =
     (case split2 (CHR ''='') (trim_space part) of
        None \<Rightarrow> Err ErrSignatureMalformed
      | Some (k, v) \<Rightarrow>
          if k = ''t'' then
            (case parse_int64 v of
               None \<Rightarrow> Err ErrSignatureMalformed
             | Some ts \<Rightarrow> parse_segments parts ts signatures)
          else if k = ''v1'' then parse_segments parts timestamp (signatures @ [v])
          else parse_segments parts timestamp signatures)"

definition parseStripeSignatureHeader :: "string \<Rightarrow> webhook_error + (int \<times> string list)" where
  "parseStripeSignatureHeader header =
     (let parts = split_on (CHR '','') header in
      if length parts < 2 then Err ErrSignatureMalformed
      else case parse_segments parts (-1) [] of
        Err e \<Rightarrow> Err e
      | Ok (timestamp, signatures) \<Rightarrow>
          if timestamp < 0 then Err ErrSignatureMalformed
          else if signatures = [] then Err ErrSignatureMalformed
          else Ok (timestamp, signatures))"

definition signed_message :: "int \<Rightarrow> string \<Rightarrow> string" where
  "signed_message timestamp payload = format_int timestamp @ ''.'' @ payload"

definition computeStripeSignature ::
  "(string \<Rightarrow> string \<Rightarrow> string) \<Rightarrow> string \<Rightarrow> int \<Rightarrow> string \<Rightarrow> string" where
  "computeStripeSignature hmac secret timestamp payload = hmac secret (signed_message timestamp payload)"

definition webhook_verify ::
  "(string \<Rightarrow> string \<Rightarrow> string) \<Rightarrow> webhook_verifier \<Rightarrow> gotime \<Rightarrow> string \<Rightarrow> string \<Rightarrow> webhook_error + unit" where
  "webhook_verify hmac v now signatureHeader payload =
     (let header = trim_space signatureHeader in
      if header = [] then Err ErrMissingSignature
      else case parseStripeSignatureHeader header of
        Err e \<Rightarrow> Err e
      | Ok (timestamp, signatures) \<Rightarrow>
          if time_sub now (time_unix timestamp) > wv_tolerance v then Err ErrEventTooOld
          else let want = computeStripeSignature hmac (wv_secret v) timestamp payload in
          if list_ex (\<lambda>sig. sig = want) signatures then Ok () else Err ErrSignatureMismatch)"

subsection \<open>The endpoint\<close>

definition stripeWebhookMaxBody :: nat where "stripeWebhookMaxBody = 1048576"

datatype process_error =
    HeadDecode
  | HeadMissingID
  | RepositoryError billing_error
  | DispatchError dispatch_error

definition processStripeWebhook ::
  "stripe_json \<Rightarrow> 'r billing_service \<Rightarrow> gotime \<Rightarrow> gotime \<Rightarrow> string \<Rightarrow> 'r billing_state \<Rightarrow>
   'r billing_state \<times> (process_error + string)" where
  "processStripeWebhook js svc wall now body st =
     (case js_head js body of
        None \<Rightarrow> (st, Err HeadDecode)
      | Some (eid, ty) \<Rightarrow>
          if eid = [] then (st, Err HeadMissingID)
          else case br_stripeEventSeen (svc_repo svc) eid (st_repo st) of
            Err e \<Rightarrow> (st, Err (RepositoryError e))
          | Ok True \<Rightarrow> (st, Ok eid)
          | Ok False \<Rightarrow>
              (case dispatch js (Some svc) wall now body st of
                 (st1, _, Err e) \<Rightarrow> (st1, Err (DispatchError e))
               | (st1, _, Ok _) \<Rightarrow>
                   (case br_stripeEventRecord (svc_repo svc) eid ty wall (st_repo st1) of
                      (r, Err e) \<Rightarrow> (st1\<lparr>st_repo := r\<rparr>, Err (RepositoryError e))
                    | (r, Ok _) \<Rightarrow> (st1\<lparr>st_repo := r\<rparr>, Ok eid))))"

definition respondToWebhookVerifyError :: "webhook_error \<Rightarrow> int \<times> string" where
  "respondToWebhookVerifyError e =
     (if e \<in> {ErrMissingSignature, ErrSignatureMalformed} then (400, ''signature_invalid'')
      else if e \<in> {ErrSignatureMismatch, ErrEventTooOld} then (401, ''signature_invalid'')
      else (400, ''signature_invalid''))"

definition stripeWebhookHandler ::
  "(string \<Rightarrow> string \<Rightarrow> string) \<Rightarrow> stripe_json \<Rightarrow> webhook_verifier option \<Rightarrow> 'r billing_service option \<Rightarrow>
   gotime \<Rightarrow> gotime \<Rightarrow> string \<Rightarrow> string \<Rightarrow> string option \<Rightarrow> 'r billing_state \<Rightarrow>
   'r billing_state \<times> (int \<times> string)" where
  "stripeWebhookHandler hmac js verifier dispatcher wall now meth signatureHeader body' st =
     (case (verifier, dispatcher) of
        (Some v, Some svc) \<Rightarrow>
          if meth \<noteq> ''POST'' then (st, (405, ''method_not_allowed''))
          else let signature = trim_space signatureHeader in
          (case body' of
             None \<Rightarrow> (st, (400, ''read_body_failed''))
           | Some full \<Rightarrow>
               let body = take (stripeWebhookMaxBody + 1) full in
               if length body > stripeWebhookMaxBody then (st, (413, ''body_too_large''))
               else case webhook_verify hmac v now signature body of
                 Err e \<Rightarrow> (st, respondToWebhookVerifyError e)
               | Ok _ \<Rightarrow>
                   (case processStripeWebhook js svc wall now body st of
                      (st', Err _) \<Rightarrow> (st', (500, ''internal_error''))
                    | (st', Ok _) \<Rightarrow> (st', (200, ''ok''))))
      | _ \<Rightarrow> (st, (503, ''stripe_webhook_unconfigured'')))"

subsection \<open>Verification\<close>

lemma signed_message_inj:
  "signed_message t p = signed_message t' p' \<longleftrightarrow> t = t' \<and> p = p'"
proof
  have no: "CHR ''.'' \<notin> set (format_int k)" for k by (simp add: format_int_not_in)
  assume "signed_message t p = signed_message t' p'"
  then have "split2 (CHR ''.'') (format_int t @ CHR ''.'' # p) = split2 (CHR ''.'') (format_int t' @ CHR ''.'' # p')"
    by (simp add: signed_message_def)
  then show "t = t' \<and> p = p'" by (simp add: no)
qed simp

lemma parseStripeSignatureHeader_nonneg:
  "parseStripeSignatureHeader h = Ok (ts, sigs) \<Longrightarrow> 0 \<le> ts \<and> sigs \<noteq> []"
  by (auto simp: parseStripeSignatureHeader_def Let_def split: if_splits sum.splits prod.splits)

lemma webhook_verify_Ok:
  "webhook_verify hmac v now h p = Ok () \<longleftrightarrow>
     (\<exists>ts sigs. parseStripeSignatureHeader (trim_space h) = Ok (ts, sigs) \<and> trim_space h \<noteq> []
        \<and> time_sub now (time_unix ts) \<le> wv_tolerance v
        \<and> hmac (wv_secret v) (signed_message ts p) \<in> set sigs)"
  unfolding webhook_verify_def Let_def computeStripeSignature_def
  by (auto simp: list_ex_iff split: sum.splits if_splits)

text \<open>A signature speaks for one timestamp and one body. If one header is accepted with
  two bodies, then the bodies are the same, or two different signed messages have MACs that
  both stand in the header; and every accepted header is no older than the tolerance at the
  time it is accepted.\<close>

theorem webhook_signature_binds_body:
  assumes "webhook_verify hmac v now h p = Ok ()" and "webhook_verify hmac v now' h p' = Ok ()"
  shows "\<exists>ts sigs. parseStripeSignatureHeader (trim_space h) = Ok (ts, sigs) \<and> 0 \<le> ts
    \<and> time_sub now (time_unix ts) \<le> wv_tolerance v \<and> time_sub now' (time_unix ts) \<le> wv_tolerance v
    \<and> (p = p' \<or> signed_message ts p \<noteq> signed_message ts p'
         \<and> {hmac (wv_secret v) (signed_message ts p), hmac (wv_secret v) (signed_message ts p')} \<subseteq> set sigs)"
proof -
  obtain ts sigs where h: "parseStripeSignatureHeader (trim_space h) = Ok (ts, sigs)"
      "time_sub now (time_unix ts) \<le> wv_tolerance v" "hmac (wv_secret v) (signed_message ts p) \<in> set sigs"
    using assms(1) by (auto simp: webhook_verify_Ok)
  moreover have "time_sub now' (time_unix ts) \<le> wv_tolerance v"
      "hmac (wv_secret v) (signed_message ts p') \<in> set sigs"
    using assms(2) h(1) by (auto simp: webhook_verify_Ok)
  ultimately show ?thesis
    using parseStripeSignatureHeader_nonneg [OF h(1)] signed_message_inj by auto
qed

definition sample_mac :: "string \<Rightarrow> string \<Rightarrow> string" where
  "sample_mac secret msg = ''ab12''"

definition sample_verifier :: webhook_verifier where
  "sample_verifier = \<lparr>wv_secret = replicate 32 (CHR ''s''), wv_tolerance = DefaultWebhookTolerance\<rparr>"

theorem webhook_signature_binds_body_witness:
  "\<exists>ts sigs. parseStripeSignatureHeader (trim_space ''t=100,v1=ab12'') = Ok (ts, sigs)
     \<and> time_sub (101 * 10 ^ 9) (time_unix ts) \<le> wv_tolerance sample_verifier"
proof -
  have "webhook_verify sample_mac sample_verifier (101 * 10 ^ 9) ''t=100,v1=ab12'' ''x'' = Ok ()"
    and "webhook_verify sample_mac sample_verifier (101 * 10 ^ 9) ''t=100,v1=ab12'' ''y'' = Ok ()"
    by code_simp+
  from webhook_signature_binds_body [OF this] show ?thesis by blast
qed

definition signature_header :: "int \<Rightarrow> string \<Rightarrow> string" where
  "signature_header ts sig = ''t='' @ format_int ts @ '',v1='' @ sig"

lemma printable_append [simp]: "printable (a @ b) \<longleftrightarrow> printable a \<and> printable b"
  by (auto simp: printable_def)

lemma printable_Cons [simp]:
  "printable (c # s) \<longleftrightarrow> 33 \<le> (of_char c :: nat) \<and> (of_char c :: nat) < 127 \<and> printable s"
  by (auto simp: printable_def)

lemma printable_Nil [simp]: "printable []"
  by (simp add: printable_def)

lemma printable_format_int: "printable (format_int n)"
proof -
  have "printable (format_nat m)" for m
    using format_nat_digits [of m] by (auto simp: printable_def list_all_iff is_digit_def)
  then show ?thesis by (simp add: format_int_def)
qed

lemma parse_signature_header:
  assumes "0 \<le> ts" and "ts \<le> max_int64" and "printable sig" and "CHR '','' \<notin> set sig"
  shows "parseStripeSignatureHeader (signature_header ts sig) = Ok (ts, [sig])"
proof -
  have c: "CHR '','' \<notin> set (''t='' @ format_int ts)" by (simp add: format_int_not_in)
  have "split_on (CHR '','') (signature_header ts sig) = [''t='' @ format_int ts, ''v1='' @ sig]"
    using split_on_append [OF c, of "''v1='' @ sig"] assms(4) split_on_no_sep [of "CHR '',''" "''v1='' @ sig"]
    by (simp add: signature_header_def)
  moreover have "trim_space (''t='' @ format_int ts) = ''t='' @ format_int ts"
    by (rule trim_space_printable) (simp add: printable_format_int)
  moreover have "trim_space (''v1='' @ sig) = ''v1='' @ sig"
    by (rule trim_space_printable) (simp add: assms(3))
  moreover have "split2 (CHR ''='') (''t='' @ format_int ts) = Some (''t'', format_int ts)"
    using split2_append [of "CHR ''=''" "''t''" "format_int ts"] by simp
  moreover have "split2 (CHR ''='') (''v1='' @ sig) = Some (''v1'', sig)"
    using split2_append [of "CHR ''=''" "''v1''" sig] by simp
  ultimately show ?thesis
    using assms(1,2) by (simp add: parseStripeSignatureHeader_def in_int64_iff)
qed

text \<open>The header a genuine sender builds, \<open>t=TIMESTAMP,v1=MAC\<close> in decimal and hex, is
  accepted for its body exactly as long as the timestamp is not older than the tolerance; a
  timestamp in the future is always accepted.\<close>

theorem genuine_signature_accepted_iff:
  assumes "0 \<le> ts" and "ts \<le> max_int64 - unix_to_internal"
    and "mac = hmac (wv_secret v) (signed_message ts p)" and "printable mac" and "CHR '','' \<notin> set mac"
    and "0 < wv_tolerance v" and "wv_tolerance v < max_int64"
  shows "webhook_verify hmac v now (signature_header ts mac) p = Ok ()
    \<longleftrightarrow> now - ts * 10 ^ 9 \<le> wv_tolerance v"
proof -
  have "trim_space (signature_header ts mac) = signature_header ts mac"
    using assms(4) by (intro trim_space_printable) (simp add: signature_header_def printable_format_int)
  moreover have "signature_header ts mac \<noteq> []" by (simp add: signature_header_def)
  moreover have "parseStripeSignatureHeader (signature_header ts mac) = Ok (ts, [mac])"
    using assms by (intro parse_signature_header) (simp_all add: unix_to_internal_def)
  moreover have "time_sub now (time_unix ts) \<le> wv_tolerance v \<longleftrightarrow> now - ts * 10 ^ 9 \<le> wv_tolerance v"
    using assms(1,2,6,7) by (simp add: time_unix_exact time_sub_le_iff)
  ultimately show ?thesis using assms(3) by (simp add: webhook_verify_Ok)
qed

theorem genuine_signature_accepted_witness:
  "webhook_verify sample_mac sample_verifier (400 * 10 ^ 9) (signature_header 100 ''ab12'') ''x'' = Ok ()
   \<and> webhook_verify sample_mac sample_verifier (401 * 10 ^ 9) (signature_header 100 ''ab12'') ''x'' \<noteq> Ok ()"
proof -
  have "webhook_verify sample_mac sample_verifier now (signature_header 100 ''ab12'') ''x'' = Ok ()
      \<longleftrightarrow> now - 100 * 10 ^ 9 \<le> wv_tolerance sample_verifier" for now
    by (rule genuine_signature_accepted_iff)
       (simp_all add: sample_mac_def sample_verifier_def DefaultWebhookTolerance_def time_second_def
          unix_to_internal_def)
  then show ?thesis by (simp add: sample_verifier_def DefaultWebhookTolerance_def time_second_def)
qed

subsection \<open>What an event can touch\<close>

definition event_tenant :: "stripe_json \<Rightarrow> stripe_envelope \<Rightarrow> string" where
  "event_tenant js env =
     (if env_Type env \<in> {stripeInvoicePaymentSucceeded, stripeInvoicePaymentFailed}
      then (case decodeStripeInvoiceFromEvent js (env_Data env) of Err _ \<Rightarrow> [] | Ok v \<Rightarrow> inv_TenantID v)
      else (case decodeStripeSubscription js (env_Data env) of Err _ \<Rightarrow> [] | Ok s \<Rightarrow> sso_TenantID s))"

context billing_repo
begin

definition keeps :: "string \<Rightarrow> 'r billing_state \<Rightarrow> 'r billing_state \<Rightarrow> bool" where
  "keeps t st st' \<longleftrightarrow> wf (st_repo st') \<and> events (st_repo st') = events (st_repo st)
     \<and> (\<forall>t' i. t' \<noteq> t \<longrightarrow> subs (st_repo st') (t', i) = subs (st_repo st) (t', i)
          \<and> invs (st_repo st') (t', i) = invs (st_repo st) (t', i))"

lemma keeps_refl: "wf (st_repo st) \<Longrightarrow> keeps t st st"
  by (simp add: keeps_def)

lemma keeps_trans: "keeps t st st1 \<Longrightarrow> keeps t st1 st2 \<Longrightarrow> keeps t st st2"
  by (simp add: keeps_def)

lemma transition_keeps:
  assumes "wf (st_repo st)" and "svc_repo svc = repo" and "ev \<in> sub_event_types"
  shows "keeps t st (fst (svc_transition svc wall now t i tr ev st))"
  using transition_effect [OF assms refl, of wall now t i tr] assms(1)
  by (auto simp: keeps_def wrote_def)

lemma upsert_keeps:
  assumes "wf (st_repo st)" and "svc_repo svc = repo" and "ev \<in> sub_event_types"
  shows "keeps (bi_TenantID inp) st (fst (svc_upsertFromStripe svc wall now inp ev st))"
  using upsert_effect [OF assms refl, of wall now inp] assms(1)
  by (auto simp: keeps_def wrote_def)

lemma invoice_keeps:
  assumes "wf (st_repo st)" and "svc_repo svc = repo"
  shows "keeps (inv_TenantID v) st (fst (svc_upsertInvoice svc now v ev st))"
proof (cases "inv_TenantID v = []")
  case True
  then show ?thesis using assms(1) by (simp add: svc_upsertInvoice_def keeps_refl)
next
  case False
  from invoice_stored [OF assms False, of now ev] show ?thesis
    unfolding keeps_def by (elim exE conjE) simp
qed

lemma by_stripe_tenant:
  assumes "wf r" and "br_getSubscriptionByStripeID repo t k r = Ok s"
  shows "bs_TenantID s = t"
proof -
  obtain i where i: "stripe r (t, k) = Some i" "s = the (subs r (t, i))"
    using get_stripe_law [OF assms(1), of t k] assms(2) by (auto split: if_splits option.splits)
  obtain s' where s': "subs r (t, i) = Some s'" using index_law [OF assms(1) i(1)] by blast
  from key_law [OF assms(1) s'] i(2) s' show ?thesis by simp
qed

lemma fst_as_service_error [simp]: "fst (as_service_error res) = fst res"
  by (simp add: as_service_error_def split: prod.split sum.split)

lemma keeps_wf: "keeps t st st' \<Longrightarrow> wf (st_repo st')"
  by (simp add: keeps_def)

lemma sub_upsert_keeps:
  assumes "wf (st_repo st)" and "svc_repo svc = repo"
    and "decodeStripeSubscription js (env_Data env) = Ok sub"
  shows "keeps (sso_TenantID sub) st (fst (handleSubscriptionUpsert js svc wall now env st))"
proof -
  let ?inp = "\<lparr>bi_ID = sso_ID sub, bi_TenantID = sso_TenantID sub,
      bi_PlanID = sso_PlanID sub, bi_StripeSubscriptionID = sso_ID sub,
      bi_StripeCustomerID = sso_Customer sub, bi_State = bstate_string (mapStripeStatus (sso_Status sub)),
      bi_CurrentPeriodStart = time_unix (sso_CurrentPeriodStart sub),
      bi_CurrentPeriodEnd = time_unix (sso_CurrentPeriodEnd sub), bi_Now = zero_time\<rparr>"
  have "keeps (sso_TenantID sub) st (fst (svc_upsertFromStripe svc wall now ?inp ev st))"
    if "ev \<in> sub_event_types" for ev
    using upsert_keeps [OF assms(1,2) that, where inp = ?inp and wall = wall and now = now] by simp
  moreover have "''subscription.created'' \<in> sub_event_types" "''subscription.updated'' \<in> sub_event_types"
    by (simp_all add: sub_event_types_def)
  ultimately show ?thesis
    unfolding handleSubscriptionUpsert_def Let_def using assms(3) keeps_refl [OF assms(1)] by simp
qed

lemma sub_deleted_keeps:
  assumes "wf (st_repo st)" and "svc_repo svc = repo"
    and "decodeStripeSubscription js (env_Data env) = Ok sub"
  shows "keeps (sso_TenantID sub) st (fst (handleSubscriptionDeleted js svc wall now env st))"
proof (cases "br_getSubscriptionByStripeID (svc_repo svc) (sso_TenantID sub) (sso_ID sub) (st_repo st)")
  case (Inl e)
  then show ?thesis using assms(1,3) by (simp add: handleSubscriptionDeleted_def keeps_refl)
next
  case (Inr s)
  have ev: "''subscription.canceled'' \<in> sub_event_types" by (simp add: sub_event_types_def)
  have "bs_TenantID s = sso_TenantID sub" using by_stripe_tenant [OF assms(1)] Inr assms(2) by simp
  then show ?thesis
    using Inr assms(1,3) transition_keeps [OF assms(1,2) ev, where wall = wall and now = now
        and t = "sso_TenantID sub" and i = "bs_ID s" and tr = TransitionCancel]
    by (simp add: handleSubscriptionDeleted_def keeps_refl svc_cancel_def)
qed

lemma invoice_then_move_keeps:
  assumes "wf (st_repo st)" and "svc_repo svc = repo"
    and "svc_upsertInvoice svc now v ev st = (st1, res)"
    and "br_getSubscriptionByStripeID (svc_repo svc) (inv_TenantID v) k (st_repo st1) = Ok s"
  shows "keeps (inv_TenantID v) st (fst (svc_transition svc wall now (bs_TenantID s) (bs_ID s) tr
    ''subscription.updated'' st1))"
proof -
  have k1: "keeps (inv_TenantID v) st st1" using invoice_keeps [OF assms(1,2), of v now ev] assms(3) by simp
  have ev: "''subscription.updated'' \<in> sub_event_types" by (simp add: sub_event_types_def)
  have "bs_TenantID s = inv_TenantID v"
    using by_stripe_tenant [OF keeps_wf [OF k1]] assms(2,4) by simp
  then show ?thesis
    using keeps_trans [OF k1 transition_keeps [OF keeps_wf [OF k1] assms(2) ev]] by simp
qed

lemma invoice_paid_keeps:
  assumes "wf (st_repo st)" and "svc_repo svc = repo"
    and "decodeStripeInvoiceFromEvent js (env_Data env) = Ok v"
  shows "keeps (inv_TenantID v) st (fst (handleInvoicePaid js svc wall now env st))"
proof -
  let ?v = "v\<lparr>inv_Status := InvoicePaid\<rparr>"
  obtain st1 res where u: "svc_upsertInvoice svc now ?v ''invoice.paid'' st = (st1, res)" by fastforce
  have k1: "keeps (inv_TenantID v) st st1"
    using invoice_keeps [OF assms(1,2), of ?v now "''invoice.paid''"] u by simp
  have k2: "keeps (inv_TenantID v) st (fst (svc_transition svc wall now (bs_TenantID s) (bs_ID s)
        TransitionRecover ''subscription.updated'' st1))"
    if "br_getSubscriptionByStripeID (svc_repo svc) (inv_TenantID v) (inv_SubscriptionID v) (st_repo st1) = Ok s" for s
    using invoice_then_move_keeps [OF assms(1,2) u, of "inv_SubscriptionID v" s wall TransitionRecover] that by simp
  show ?thesis
    unfolding handleInvoicePaid_def Let_def using assms(3) u k1 k2
    by (simp split: sum.split)
qed

lemma invoice_failed_keeps:
  assumes "wf (st_repo st)" and "svc_repo svc = repo"
    and "decodeStripeInvoiceFromEvent js (env_Data env) = Ok v"
  shows "keeps (inv_TenantID v) st (fst (handleInvoiceFailed js svc wall now env st))"
proof -
  let ?v = "v\<lparr>inv_Status := InvoiceUncollectible\<rparr>"
  obtain st1 res where u: "svc_upsertInvoice svc now ?v ''invoice.failed'' st = (st1, res)" by fastforce
  have k1: "keeps (inv_TenantID v) st st1"
    using invoice_keeps [OF assms(1,2), of ?v now "''invoice.failed''"] u by simp
  have k2: "keeps (inv_TenantID v) st (fst (svc_transition svc wall now (bs_TenantID s) (bs_ID s)
        TransitionMarkPastDue ''subscription.updated'' st1))"
    if "br_getSubscriptionByStripeID (svc_repo svc) (inv_TenantID v) (inv_SubscriptionID v) (st_repo st1) = Ok s" for s
    using invoice_then_move_keeps [OF assms(1,2) u, of "inv_SubscriptionID v" s wall TransitionMarkPastDue] that by simp
  show ?thesis
    unfolding handleInvoiceFailed_def Let_def using assms(3) u k1 k2
    by (simp split: sum.split)
qed

lemma dispatch_env_keeps:
  assumes "wf (st_repo st)" and "svc_repo svc = repo"
  shows "keeps (event_tenant js env) st (fst (dispatch_env js svc wall now env st))"
proof -
  have distinct: "stripeInvoicePaymentSucceeded \<noteq> stripeSubscriptionCreated"
    "stripeInvoicePaymentSucceeded \<noteq> stripeSubscriptionUpdated" "stripeInvoicePaymentSucceeded \<noteq> stripeSubscriptionDeleted"
    "stripeInvoicePaymentFailed \<noteq> stripeSubscriptionCreated" "stripeInvoicePaymentFailed \<noteq> stripeSubscriptionUpdated"
    "stripeInvoicePaymentFailed \<noteq> stripeSubscriptionDeleted"
    by (simp_all add: stripeInvoicePaymentSucceeded_def stripeSubscriptionCreated_def
        stripeSubscriptionUpdated_def stripeSubscriptionDeleted_def stripeInvoicePaymentFailed_def)
  note refl' = keeps_refl [OF assms(1)]
  have sub: "keeps (case decodeStripeSubscription js (env_Data env) of Err _ \<Rightarrow> [] | Ok s \<Rightarrow> sso_TenantID s) st
      (fst (handleSubscriptionUpsert js svc wall now env st))"
    "keeps (case decodeStripeSubscription js (env_Data env) of Err _ \<Rightarrow> [] | Ok s \<Rightarrow> sso_TenantID s) st
      (fst (handleSubscriptionDeleted js svc wall now env st))"
    using sub_upsert_keeps [OF assms] sub_deleted_keeps [OF assms] refl'
    by (cases "decodeStripeSubscription js (env_Data env)";
        simp add: handleSubscriptionUpsert_def handleSubscriptionDeleted_def)+
  have inv: "keeps (case decodeStripeInvoiceFromEvent js (env_Data env) of Err _ \<Rightarrow> [] | Ok v \<Rightarrow> inv_TenantID v) st
      (fst (handleInvoicePaid js svc wall now env st))"
    "keeps (case decodeStripeInvoiceFromEvent js (env_Data env) of Err _ \<Rightarrow> [] | Ok v \<Rightarrow> inv_TenantID v) st
      (fst (handleInvoiceFailed js svc wall now env st))"
    using invoice_paid_keeps [OF assms] invoice_failed_keeps [OF assms] refl'
    by (cases "decodeStripeInvoiceFromEvent js (env_Data env)";
        simp add: handleInvoicePaid_def handleInvoiceFailed_def)+
  show ?thesis
    using sub inv refl' distinct by (simp add: dispatch_env_def event_tenant_def)
qed

lemma dispatch_keeps_wf:
  assumes "wf (st_repo st)" and "svc_repo svc = repo" and "dispatch js (Some svc) wall now body st = (st1, eid, res)"
  shows "wf (st_repo st1) \<and> events (st_repo st1) = events (st_repo st)"
proof (cases "js_envelope js body")
  case None
  then show ?thesis using assms(1,3) by (auto simp: dispatch_def)
next
  case (Some env)
  have "keeps (event_tenant js env) st (fst (dispatch_env js svc wall now env st))"
    by (rule dispatch_env_keeps [OF assms(1,2)])
  then show ?thesis using Some assms(1,3) by (auto simp: dispatch_def keeps_def split: if_splits prod.splits)
qed

lemma process_spec:
  assumes "wf (st_repo st)" and "svc_repo svc = repo" and "processStripeWebhook js svc wall now body st = (st1, res)"
  shows "wf (st_repo st1)
    \<and> (case res of
         Err e \<Rightarrow> events (st_repo st1) = events (st_repo st)
       | Ok eid \<Rightarrow> (\<exists>ty. js_head js body = Some (eid, ty)) \<and> eid \<noteq> []
           \<and> events (st_repo st1) = insert eid (events (st_repo st))
           \<and> (eid \<in> events (st_repo st) \<longrightarrow> st1 = st))"
proof (cases "js_head js body")
  case None
  then show ?thesis using assms(1,3) by (auto simp: processStripeWebhook_def)
next
  case (Some h)
  obtain eid ty where h: "h = (eid, ty)" by fastforce
  show ?thesis
  proof (cases "eid = [] \<or> eid \<in> events (st_repo st)")
    case True
    have "processStripeWebhook js svc wall now body st =
        (st, if eid = [] then Err HeadMissingID else Ok eid)"
      using Some h assms(2) seen_law [OF assms(1), of eid] True
      by (auto simp: processStripeWebhook_def split: bool.split)
    then show ?thesis using assms(1,3) True Some h by (auto split: if_splits)
  next
    case False
    obtain st2 x r where d: "dispatch js (Some svc) wall now body st = (st2, x, r)" by (metis prod_cases3)
    have w: "wf (st_repo st2)" "events (st_repo st2) = events (st_repo st)"
      using dispatch_keeps_wf [OF assms(1,2) d] by auto
    have seen: "br_stripeEventSeen (svc_repo svc) eid (st_repo st) = Ok False"
      using False seen_law [OF assms(1)] assms(2) by simp
    show ?thesis
    proof (cases r)
      case (Inl e)
      then have "processStripeWebhook js svc wall now body st = (st2, Err (DispatchError e))"
        using Some h False seen d by (simp add: processStripeWebhook_def)
      then show ?thesis using w assms(3) by auto
    next
      case (Inr u)
      obtain r' where r': "wf r'" "br_stripeEventRecord repo eid ty wall (st_repo st2) = (r', Ok ())"
          "events r' = insert eid (events (st_repo st2))"
        using record_law [OF w(1)] False by blast
      then have "processStripeWebhook js svc wall now body st = (st2\<lparr>st_repo := r'\<rparr>, Ok eid)"
        using Inr Some h False seen d assms(2) by (simp add: processStripeWebhook_def)
      then show ?thesis using r' w Some h False assms(3) by auto
    qed
  qed
qed

end

subsection \<open>Properties of the endpoint\<close>



text \<open>C32: An event stays inside its tenant: dispatching it leaves every subscription and every
  invoice of every tenant other than the one named in its metadata as it was.\<close>

theorem webhook_tenant_isolation:
  assumes "svc_repo svc = inmemory_repository its iti" and "billing_mem_wf (st_repo st)"
    and "t \<noteq> event_tenant js env"
  shows "mem_getSubscription t i (st_repo (fst (dispatch_env js svc wall now env st)))
       = mem_getSubscription t i (st_repo st)
    \<and> mem_getInvoice t i (st_repo (fst (dispatch_env js svc wall now env st)))
       = mem_getInvoice t i (st_repo st)"
  using bmr.dispatch_env_keeps [OF assms(2,1), of js env wall now] assms(3)
  by (simp add: bmr.keeps_def mem_getSubscription_view mem_getInvoice_view)

theorem webhook_tenant_isolation_witness:
  "mem_getInvoice ''other'' ''in_1'' (st_repo (fst (dispatch_env sample_decoders sample_service 0 50
      sample_envelope (sample_state StateActive)))) = Err ErrInvoiceNotFound"
proof -
  have "''other'' \<noteq> event_tenant sample_decoders sample_envelope" by code_simp
  from webhook_tenant_isolation [OF _ sample_state_wf [of StateActive] this, of sample_service "\<lambda>xs. xs"
      "\<lambda>xs. xs" "''in_1''" 0 50]
  have "mem_getInvoice ''other'' ''in_1'' (st_repo (fst (dispatch_env sample_decoders sample_service 0 50
      sample_envelope (sample_state StateActive)))) = mem_getInvoice ''other'' ''in_1'' (st_repo (sample_state StateActive))"
    by (simp add: sample_service_def)
  also have "\<dots> = Err ErrInvoiceNotFound"
    by (simp add: mem_getInvoice_view sample_state_def store_sub_views)
       (simp add: mem_invoice_view_def newInMemoryRepository_def)
  finally show ?thesis .
qed

text \<open>C2: Only a signed request changes anything. If the endpoint leaves a different
  repository or event log behind, then it was a POST of at most a megabyte whose signature
  header verifies for exactly that body with the configured secret; and every request that is
  refused for its signature is answered with 400 or 401.\<close>

theorem webhook_only_signed_requests:
  assumes "stripeWebhookHandler hmac js verifier dispatcher wall now meth header body st = (st', status, msg)"
  shows "(st' \<noteq> st \<longrightarrow> (\<exists>v b. verifier = Some v \<and> body = Some b \<and> meth = ''POST''
        \<and> length b \<le> stripeWebhookMaxBody \<and> webhook_verify hmac v now header b = Ok ()))
    \<and> (\<forall>v b svc. verifier = Some v \<and> dispatcher = Some svc \<and> body = Some b \<and> meth = ''POST''
          \<and> length b \<le> stripeWebhookMaxBody \<and> webhook_verify hmac v now header b \<noteq> Ok ()
        \<longrightarrow> status \<in> {400, 401} \<and> st' = st)"
proof -
  have trim: "webhook_verify hmac v now (trim_space header) b = webhook_verify hmac v now header b" for v b
    by (simp add: webhook_verify_def)
  have err: "fst (respondToWebhookVerifyError e) \<in> {400, 401}" for e
    by (simp add: respondToWebhookVerifyError_def)
  have small: "take (stripeWebhookMaxBody + 1) b = b" if "length b \<le> stripeWebhookMaxBody" for b :: string
    using that by simp
  show ?thesis
  proof (cases "\<exists>v svc b. verifier = Some v \<and> dispatcher = Some svc \<and> body = Some b \<and> meth = ''POST''
      \<and> length b \<le> stripeWebhookMaxBody")
    case True
    then obtain v svc b where c: "verifier = Some v" "dispatcher = Some svc" "body = Some b" "meth = ''POST''"
      "length b \<le> stripeWebhookMaxBody" by blast
    show ?thesis
    proof (cases "webhook_verify hmac v now header b")
      case (Inl e)
      have "(st', status, msg) = (st, respondToWebhookVerifyError e)"
        using assms c(5) Inl small [OF c(5)] unfolding c stripeWebhookHandler_def Let_def by (simp add: trim)
      then have "st' = st" "status = fst (respondToWebhookVerifyError e)" by (simp_all add: prod_eq_iff)
      then show ?thesis using err [of e] by (simp add: c)
    next
      case (Inr u)
      then show ?thesis using c by auto
    qed
  next
    case False
    have "st' = st"
    proof (rule ccontr)
      assume ne: "st' \<noteq> st"
      then obtain v svc where vs: "verifier = Some v" "dispatcher = Some svc"
        using assms by (cases verifier; cases dispatcher) (simp_all add: stripeWebhookHandler_def)
      then have p: "meth = ''POST''"
        using assms ne by (cases "meth = ''POST''") (simp_all add: stripeWebhookHandler_def)
      then obtain b where b: "body = Some b"
        using assms ne vs by (cases body) (simp_all add: stripeWebhookHandler_def)
      then have "length b \<le> stripeWebhookMaxBody"
        using assms ne vs p by (cases "length b \<le> stripeWebhookMaxBody") (simp_all add: stripeWebhookHandler_def)
      with False vs p b show False by blast
    qed
    then show ?thesis using False by blast
  qed
qed

theorem webhook_only_signed_requests_witness:
  "\<exists>st' status msg. stripeWebhookHandler sample_mac sample_decoders (Some sample_verifier) (Some sample_service)
      0 (101 * 10 ^ 9) ''POST'' ''t=100,v1=forged'' (Some ''x'') (sample_state StateActive) = (st', status, msg)
    \<and> status \<in> {400, 401} \<and> st' = sample_state StateActive"
proof -
  obtain st' status msg where r: "stripeWebhookHandler sample_mac sample_decoders (Some sample_verifier)
      (Some sample_service) 0 (101 * 10 ^ 9) ''POST'' ''t=100,v1=forged'' (Some ''x'') (sample_state StateActive)
      = (st', status, msg)" by (metis prod_cases3)
  have "webhook_verify sample_mac sample_verifier (101 * 10 ^ 9) ''t=100,v1=forged'' ''x'' = Err ErrSignatureMismatch"
    by code_simp
  then have "Some sample_verifier = Some sample_verifier \<and> Some sample_service = Some sample_service
      \<and> Some ''x'' = Some ''x'' \<and> ''POST'' = ''POST'' \<and> length ''x'' \<le> stripeWebhookMaxBody
      \<and> webhook_verify sample_mac sample_verifier (101 * 10 ^ 9) ''t=100,v1=forged'' ''x'' \<noteq> Ok ()"
    by (simp add: stripeWebhookMaxBody_def)
  with webhook_only_signed_requests [OF r] have "status \<in> {400, 401} \<and> st' = sample_state StateActive"
    by blast
  with r show ?thesis by blast
qed

end
