(* ===== verification/Costcalc.thy ===== *)
theory Costcalc
  imports Go_Prelude
begin

text \<open>
  Cost accounting for model calls, \<open>internal/costcalc/costcalc.go\<close>: the price table, the
  overflow-checked cost in cents, and the two alert predicates. \<open>cost_spec\<close> is the exact
  price the arithmetic is checked against.
\<close>

record price =
  pr_InputCentsPerMTok :: int
  pr_OutputCentsPerMTok :: int

type_synonym price_table = "(string, price) gomap"

definition defaultTable :: price_table where
  "defaultTable =
     [(''MiniMax-M3'', \<lparr>pr_InputCentsPerMTok = 165, pr_OutputCentsPerMTok = 660\<rparr>),
      (''qwen3.8-27b-local'', \<lparr>pr_InputCentsPerMTok = 0, pr_OutputCentsPerMTok = 0\<rparr>)]"

datatype cost_error = ErrUnknownModel | ErrNegativeTokens | ErrNegativePrice | ErrOverflow

definition centsPerMTok :: int where "centsPerMTok = 1000000"

definition mulCheck :: "int \<Rightarrow> int \<Rightarrow> cost_error + int" where
  "mulCheck a b =
     (if a = 0 \<or> b = 0 then Ok 0
      else let absA = (if a < 0 then wrap64 (- a) else a);
               absB = (if b < 0 then wrap64 (- b) else b)
           in if absA > quot max_int64 absB then Err ErrOverflow else Ok (mul64 a b))"

definition addCheck :: "int \<Rightarrow> int \<Rightarrow> cost_error + int" where
  "addCheck a b =
     (if b > 0 \<and> a > sub64 max_int64 b then Err ErrOverflow
      else if b < 0 \<and> a < sub64 min_int64 b then Err ErrOverflow
      else Ok (add64 a b))"

definition table_cost :: "price_table \<Rightarrow> string \<Rightarrow> int \<Rightarrow> int \<Rightarrow> cost_error + int" where
  "table_cost t model tokensIn tokensOut =
     (case mget t model of
        None \<Rightarrow> Err ErrUnknownModel
      | Some p \<Rightarrow>
          if tokensIn < 0 \<or> tokensOut < 0 then Err ErrNegativeTokens
          else if pr_InputCentsPerMTok p < 0 \<or> pr_OutputCentsPerMTok p < 0 then Err ErrNegativePrice
          else case mulCheck tokensIn (pr_InputCentsPerMTok p) of
            Err e \<Rightarrow> Err e
          | Ok prodIn \<Rightarrow>
              (case mulCheck tokensOut (pr_OutputCentsPerMTok p) of
                 Err e \<Rightarrow> Err e
               | Ok prodOut \<Rightarrow>
                   (case addCheck prodIn prodOut of
                      Err e \<Rightarrow> Err e
                    | Ok s \<Rightarrow>
                        if s = 0 then Ok 0
                        else let q = quot s centsPerMTok
                             in Ok (if rem s centsPerMTok \<noteq> 0 then add64 q 1 else q))))"

definition overDailyThreshold :: "int \<Rightarrow> int \<Rightarrow> bool" where
  "overDailyThreshold spentCents thresholdCents \<longleftrightarrow> 0 < thresholdCents \<and> spentCents \<ge> thresholdCents"

definition retryStorm :: "gotime list \<Rightarrow> duration \<Rightarrow> int \<Rightarrow> bool" where
  "retryStorm attempts window limit =
     (if window \<le> 0 \<or> limit \<le> 0 then False
      else let n = length attempts in
      if int n < limit then False
      else let sorted' = sort attempts in
      list_ex (\<lambda>i. time_sub (sorted' ! (i + nat limit - 1)) (sorted' ! i) \<le> window)
        [0..<n - nat limit + 1])"

subsection \<open>The checked arithmetic is exact\<close>

lemma le_div_iff_int: "0 < b \<Longrightarrow> a \<le> m div b \<longleftrightarrow> a * b \<le> (m :: int)"
proof
  assume b: "0 < b" and "a \<le> m div b"
  then have "a * b \<le> m div b * b" by (simp add: mult_right_mono)
  also have "\<dots> \<le> m" using b by (metis div_mult_mod_eq le_add_same_cancel1 pos_mod_sign)
  finally show "a * b \<le> m" .
next
  assume b: "0 < b" and "a * b \<le> m"
  then have "a * b div b \<le> m div b" by (intro zdiv_mono1)
  with b show "a \<le> m div b" by simp
qed

lemma mulCheck_exact:
  assumes "0 \<le> a" and "0 \<le> b" and "a \<le> max_int64" and "b \<le> max_int64"
  shows "mulCheck a b = (if a * b \<le> max_int64 then Ok (a * b) else Err ErrOverflow)"
proof (cases "a = 0 \<or> b = 0")
  case False
  then have b: "0 < b" and a: "0 < a" using assms by auto
  have "a > max_int64 div b \<longleftrightarrow> a * b > max_int64"
    using le_div_iff_int [OF b, of a max_int64] by linarith
  moreover have "quot max_int64 b = max_int64 div b" using b by simp
  moreover have "0 \<le> a * b" using a b by simp
  ultimately show ?thesis
    using False a b by (simp add: mulCheck_def Let_def wrap64_of_nonneg not_le del: max_int64_val)
qed (auto simp: mulCheck_def)

lemma addCheck_exact:
  assumes "0 \<le> a" and "0 \<le> b" and "a \<le> max_int64" and "b \<le> max_int64"
  shows "addCheck a b = (if a + b \<le> max_int64 then Ok (a + b) else Err ErrOverflow)"
proof -
  have "sub64 max_int64 b = max_int64 - b" using assms by (intro wrap64_id) (simp add: in_int64_iff)
  then show ?thesis using assms by (auto simp: addCheck_def wrap64_of_nonneg)
qed

definition cost_spec :: "price \<Rightarrow> int \<Rightarrow> int \<Rightarrow> int" where
  "cost_spec p tokensIn tokensOut =
     tokensIn * pr_InputCentsPerMTok p + tokensOut * pr_OutputCentsPerMTok p"

text \<open>A cost is never wrong: with token counts and prices that are not negative, the result
  is the exact sum of products in cents per million, rounded up to the next whole cent, if
  both products and their sum fit in 64 bits, and the overflow error otherwise; a cost is
  never negative and is zero only when nothing is charged.\<close>

theorem table_cost_exact:
  assumes "mget t model = Some p" and "0 \<le> tokensIn" and "0 \<le> tokensOut"
    and "tokensIn \<le> max_int64" and "tokensOut \<le> max_int64"
    and "0 \<le> pr_InputCentsPerMTok p" and "0 \<le> pr_OutputCentsPerMTok p"
    and "pr_InputCentsPerMTok p \<le> max_int64" and "pr_OutputCentsPerMTok p \<le> max_int64"
  shows "table_cost t model tokensIn tokensOut =
    (if cost_spec p tokensIn tokensOut \<le> max_int64
     then Ok (- ((- cost_spec p tokensIn tokensOut) div centsPerMTok))
     else Err ErrOverflow)"
proof -
  let ?a = "tokensIn * pr_InputCentsPerMTok p" and ?b = "tokensOut * pr_OutputCentsPerMTok p"
  have ab: "0 \<le> ?a" "0 \<le> ?b" using assms by simp_all
  have m: "mulCheck tokensIn (pr_InputCentsPerMTok p) = (if ?a \<le> max_int64 then Ok ?a else Err ErrOverflow)"
    "mulCheck tokensOut (pr_OutputCentsPerMTok p) = (if ?b \<le> max_int64 then Ok ?b else Err ErrOverflow)"
    using assms by (simp_all only: mulCheck_exact)
  show ?thesis
  proof (cases "cost_spec p tokensIn tokensOut \<le> max_int64")
    case True
    then have le: "?a \<le> max_int64" "?b \<le> max_int64" "?a + ?b \<le> max_int64"
      using ab by (simp_all add: cost_spec_def)
    have a: "addCheck ?a ?b = Ok (?a + ?b)"
      using addCheck_exact [OF ab le(1,2)] le(3) by simp
    have up: "(if n mod centsPerMTok \<noteq> 0 then wrap64 (n div centsPerMTok + 1) else n div centsPerMTok)
        = - ((- n) div centsPerMTok)" if "0 \<le> n" "n \<le> max_int64" for n
    proof -
      have "wrap64 (n div centsPerMTok + 1) = n div centsPerMTok + 1"
        using that by (intro wrap64_id) (simp add: in_int64_iff centsPerMTok_def)
      then show ?thesis by (simp add: zdiv_zminus1_eq_if centsPerMTok_def)
    qed
    have "0 < centsPerMTok" by (simp add: centsPerMTok_def)
    then show ?thesis
      using assms(1-3,6,7) True m le a up [of "?a + ?b"] ab
      unfolding table_cost_def cost_spec_def by (auto simp: Let_def centsPerMTok_def)
  next
    case False
    have "mulCheck tokensIn (pr_InputCentsPerMTok p) = Ok ?a \<and> mulCheck tokensOut (pr_OutputCentsPerMTok p) = Ok ?b
        \<Longrightarrow> addCheck ?a ?b = Err ErrOverflow"
      using addCheck_exact [OF ab] False m by (auto simp: cost_spec_def split: if_splits)
    then show ?thesis
      using assms(1-3,6,7) False m unfolding table_cost_def by (auto split: if_splits)
  qed
qed

theorem table_cost_exact_witness:
  "table_cost defaultTable ''MiniMax-M3'' 34000 1200 = Ok 7"
proof -
  have "mget defaultTable ''MiniMax-M3'' = Some \<lparr>pr_InputCentsPerMTok = 165, pr_OutputCentsPerMTok = 660\<rparr>"
    by (simp add: defaultTable_def mget_def)
  from table_cost_exact [OF this, of 34000 1200] show ?thesis
    by (simp add: cost_spec_def centsPerMTok_def)
qed

subsection \<open>Retry storms\<close>

text \<open>Attempts form a storm if \<open>limit\<close> of them, counted with repetition, lie within the window.\<close>

definition storm_spec :: "gotime list \<Rightarrow> duration \<Rightarrow> int \<Rightarrow> bool" where
  "storm_spec attempts window limit \<longleftrightarrow>
     (\<exists>burst. burst \<subseteq># mset attempts \<and> int (size burst) = limit
        \<and> (\<forall>x \<in># burst. \<forall>y \<in># burst. x - y \<le> window))"

lemma burst_of_slice:
  assumes "sorted xs" and "i + k \<le> length xs" and "0 < k" and "xs ! (i + k - 1) - xs ! i \<le> (w :: int)"
  shows "\<exists>burst. burst \<subseteq># mset xs \<and> size burst = k \<and> (\<forall>x \<in># burst. \<forall>y \<in># burst. x - y \<le> w)"
proof (intro exI conjI ballI)
  let ?b = "take k (drop i xs)"
  have "mset (take k (drop i xs)) \<subseteq># mset (drop i xs)"
    by (metis append_take_drop_id mset_append mset_subset_eq_add_left)
  also have "mset (drop i xs) \<subseteq># mset xs"
    by (metis append_take_drop_id mset_append mset_subset_eq_add_right)
  finally show "mset ?b \<subseteq># mset xs" .
  show "size (mset ?b) = k" using assms(2) by simp
  fix x y assume "x \<in># mset ?b" "y \<in># mset ?b"
  then obtain a b where "a < k" "b < k" and xy: "x = xs ! (i + a)" "y = xs ! (i + b)"
    using assms(2) by (auto simp: in_set_conv_nth)
  then have "x \<le> xs ! (i + k - 1)" "xs ! i \<le> y"
    using assms(1-3) by (auto intro!: sorted_nth_mono)
  with assms(4) show "x - y \<le> w" by simp
qed

lemma sorted_split:
  "sorted xs \<Longrightarrow> xs = filter (\<lambda>x. x < lo) xs @ filter (\<lambda>x. \<not> x < lo) (xs :: int list)"
proof (induction xs)
  case (Cons a xs)
  show ?case
  proof (cases "a < lo")
    case False
    with Cons.prems have "\<forall>x \<in> set xs. \<not> x < lo" by auto
    then have "filter (\<lambda>x. x < lo) xs = []" "filter (\<lambda>x. \<not> x < lo) xs = xs"
      by (auto simp: filter_empty_conv filter_id_conv)
    with False show ?thesis by simp
  qed (use Cons in simp)
qed simp

lemma slice_of_burst:
  assumes "sorted xs" and "burst \<subseteq># mset xs" and "0 < size burst"
    and "\<forall>x \<in># burst. \<forall>y \<in># burst. x - y \<le> (w :: int)"
  shows "\<exists>i. i + size burst \<le> length xs \<and> xs ! (i + size burst - 1) - xs ! i \<le> w"
proof -
  define lo where "lo = Min (set_mset burst)"
  have ne: "set_mset burst \<noteq> {}" using assms(3) by auto
  then have lo: "lo \<in># burst" "\<forall>x \<in># burst. lo \<le> x" by (auto simp: lo_def)
  define below where "below = filter (\<lambda>x. x < lo) xs"
  define from' where "from' = filter (\<lambda>x. \<not> x < lo) xs"
  have split: "xs = below @ from'"
    using assms(1) unfolding below_def from'_def by (rule sorted_split)
  have "burst \<subseteq># mset (filter (\<lambda>x. lo \<le> x \<and> x \<le> lo + w) xs)"
  proof -
    have "burst = filter_mset (\<lambda>x. lo \<le> x \<and> x \<le> lo + w) burst"
      using lo assms(4) by (intro filter_mset_eq_conv [THEN iffD2, symmetric]) (auto simp: algebra_simps)
    also have "\<dots> \<subseteq># filter_mset (\<lambda>x. lo \<le> x \<and> x \<le> lo + w) (mset xs)"
      using assms(2) by (rule multiset_filter_mono)
    finally show ?thesis by (simp add: mset_filter)
  qed
  then have "size burst \<le> length (filter (\<lambda>x. lo \<le> x \<and> x \<le> lo + w) xs)"
    by (metis size_mset size_mset_mono)
  also have "\<dots> = length (filter (\<lambda>x. x \<le> lo + w) from')"
    unfolding from'_def by (simp add: filter_filter) (metis (mono_tags, lifting) linorder_not_le)
  finally have len: "size burst \<le> length (filter (\<lambda>x. x \<le> lo + w) from')" .
  have s: "sorted from'" using assms(1) split by (metis sorted_append)
  have fl: "filter (\<lambda>x. x \<le> lo + w) ys = takeWhile (\<lambda>x. x \<le> lo + w) ys" if "sorted ys" for ys
    using that by (induction ys) (auto simp: filter_empty_conv takeWhile_eq_Nil_iff, force dest: hd_in_set)
  then have k: "size burst \<le> length (takeWhile (\<lambda>x. x \<le> lo + w) from')" using len s by simp
  then have k': "size burst \<le> length from'" using length_takeWhile_le le_trans by blast
  have hi: "from' ! (size burst - 1) \<le> lo + w"
    using k assms(3) by (metis diff_less le_trans less_le_trans nth_mem set_takeWhileD takeWhile_nth zero_less_one)
  moreover have lo0: "lo \<le> from' ! 0"
  proof -
    have "from' ! 0 \<in> set from'" using k' assms(3) by (intro nth_mem) linarith
    then show ?thesis by (simp add: from'_def)
  qed
  moreover have "xs ! (length below + size burst - 1) - xs ! (length below) \<le> w"
  proof -
    have "xs ! (length below + (size burst - 1)) = from' ! (size burst - 1)" "xs ! length below = from' ! 0"
      by (subst split, simp add: nth_append)+
    moreover have "length below + size burst - 1 = length below + (size burst - 1)" using assms(3) by linarith
    ultimately show ?thesis using hi lo0 by simp
  qed
  moreover have "length below + size burst \<le> length xs" using split k' by (metis add_le_cancel_left length_append)
  ultimately show ?thesis by blast
qed

text \<open>The retry-storm alert is exact: it fires exactly when the window and the limit are
  switched on and some \<open>limit\<close> of the attempts, in whatever order they were recorded, lie
  within one span of the window's length, both ends included.\<close>

theorem retryStorm_exact:
  assumes "window < max_int64"
  shows "retryStorm attempts window limit \<longleftrightarrow>
    0 < window \<and> 0 < limit \<and> storm_spec attempts window limit"
proof (cases "0 < window \<and> 0 < limit")
  case False
  then show ?thesis by (auto simp: retryStorm_def)
next
  case True
  let ?xs = "sort attempts" and ?k = "nat limit"
  have sub: "time_sub x y \<le> window \<longleftrightarrow> x - y \<le> window" for x y
    using assms True by (simp add: time_sub_le_iff)
  have iff: "retryStorm attempts window limit \<longleftrightarrow>
      (\<exists>i. i + ?k \<le> length ?xs \<and> ?xs ! (i + ?k - 1) - ?xs ! i \<le> window)"
  proof (cases "int (length attempts) < limit")
    case True
    then have "\<not> i + ?k \<le> length ?xs" for i by auto
    with True show ?thesis by (simp add: retryStorm_def)
  next
    case False
    then have e: "set [0..<length attempts - ?k + 1] = {i. i + ?k \<le> length ?xs}" by auto
    show ?thesis
      using False True unfolding retryStorm_def Let_def list_ex_iff e sub by simp
  qed
  have "(\<exists>i. i + ?k \<le> length ?xs \<and> ?xs ! (i + ?k - 1) - ?xs ! i \<le> window)
      \<longleftrightarrow> storm_spec attempts window limit"
  proof
    assume "\<exists>i. i + ?k \<le> length ?xs \<and> ?xs ! (i + ?k - 1) - ?xs ! i \<le> window"
    then obtain i where "i + ?k \<le> length ?xs" "?xs ! (i + ?k - 1) - ?xs ! i \<le> window" by blast
    then have "\<exists>burst. burst \<subseteq># mset ?xs \<and> size burst = ?k \<and> (\<forall>x \<in># burst. \<forall>y \<in># burst. x - y \<le> window)"
      using True by (intro burst_of_slice) simp_all
    then show "storm_spec attempts window limit" using True by (auto simp: storm_spec_def)
  next
    assume "storm_spec attempts window limit"
    then obtain burst where b: "burst \<subseteq># mset ?xs" "size burst = ?k"
        "\<forall>x \<in># burst. \<forall>y \<in># burst. x - y \<le> window"
      by (auto simp: storm_spec_def)
    then show "\<exists>i. i + ?k \<le> length ?xs \<and> ?xs ! (i + ?k - 1) - ?xs ! i \<le> window"
      using slice_of_burst [of ?xs burst window] True by simp
  qed
  with iff True show ?thesis by simp
qed

theorem retryStorm_exact_witness:
  "storm_spec [40, 0, 20, 500] 60 3 \<and> \<not> storm_spec [0, 30, 61] 60 3"
proof -
  have "retryStorm [40, 0, 20, 500] 60 3" "\<not> retryStorm [0, 30, 61] 60 3" by code_simp+
  then show ?thesis using retryStorm_exact [of 60] by simp
qed

end
