(* ===== verification/Resilience.thy ===== *)
theory Resilience
  imports Go_Prelude "HOL-Library.List_Lexorder" "HOL-Library.Char_ord"
begin

text \<open>
  The circuit breaker and its registry, \<open>internal/resilience/circuit_breaker.go\<close>. Logging is
  left out; the metric sink is the list of the two counters' increments. \<open>Do\<close> runs the
  wrapped call without holding the lock, so it is two operations, \<open>cb_begin\<close> and
  \<open>cb_end\<close>, and several calls can be in flight: \<open>cb_step\<close> is the step relation of a
  breaker under any interleaving of them. The counters of the breaker are not bounded here
  (they would have to count past \<open>2 ^ 63\<close> to wrap).
\<close>

subsection \<open>The breaker\<close>

datatype cb_phase = StateClosed | StateOpen | StateHalfOpen

datatype cb_metric = IncOpen string | IncHalfOpen string

record cb_config =
  cfg_Name :: string
  cfg_FailureThreshold :: int
  cfg_SuccessThreshold :: int
  cfg_CooldownDuration :: duration
  cfg_Metrics :: bool

record breaker =
  cb_name :: string
  cb_state :: cb_phase
  cb_consecutiveFails :: int
  cb_halfOpenSuccs :: int
  cb_failureThreshold :: int
  cb_successThreshold :: int
  cb_cooldownDuration :: duration
  cb_lastFailureAt :: gotime
  cb_hasMetrics :: bool
  cb_metrics :: "cb_metric list"

definition newCircuitBreaker :: "cb_config \<Rightarrow> breaker" where
  "newCircuitBreaker cfg =
     \<lparr>cb_name = cfg_Name cfg, cb_state = StateClosed, cb_consecutiveFails = 0, cb_halfOpenSuccs = 0,
      cb_failureThreshold = (if cfg_FailureThreshold cfg \<le> 0 then 5 else cfg_FailureThreshold cfg),
      cb_successThreshold = (if cfg_SuccessThreshold cfg \<le> 0 then 2 else cfg_SuccessThreshold cfg),
      cb_cooldownDuration =
        (if cfg_CooldownDuration cfg \<le> 0 then 30 * time_second else cfg_CooldownDuration cfg),
      cb_lastFailureAt = zero_time, cb_hasMetrics = cfg_Metrics cfg, cb_metrics = []\<rparr>"

definition emitTransition :: "cb_phase \<Rightarrow> breaker \<Rightarrow> breaker" where
  "emitTransition s cb =
     (if \<not> cb_hasMetrics cb then cb
      else case s of
        StateOpen \<Rightarrow> cb\<lparr>cb_metrics := cb_metrics cb @ [IncOpen (cb_name cb)]\<rparr>
      | StateHalfOpen \<Rightarrow> cb\<lparr>cb_metrics := cb_metrics cb @ [IncHalfOpen (cb_name cb)]\<rparr>
      | StateClosed \<Rightarrow> cb)"

definition cb_transition :: "cb_phase \<Rightarrow> breaker \<Rightarrow> breaker" where
  "cb_transition to' cb = emitTransition to' (cb\<lparr>cb_state := to'\<rparr>)"

definition resolveState :: "gotime \<Rightarrow> breaker \<Rightarrow> breaker" where
  "resolveState now cb =
     (if cb_state cb = StateOpen then
        if time_sub now (cb_lastFailureAt cb) \<ge> cb_cooldownDuration cb
        then (cb_transition StateHalfOpen cb)\<lparr>cb_halfOpenSuccs := 0\<rparr> else cb
      else cb)"

definition recordResult :: "gotime \<Rightarrow> bool \<Rightarrow> breaker \<Rightarrow> breaker" where
  "recordResult now ok cb0 =
     (if ok then
        let cb = cb0\<lparr>cb_consecutiveFails := 0\<rparr> in
        if cb_state cb = StateHalfOpen then
          let cb = cb\<lparr>cb_halfOpenSuccs := cb_halfOpenSuccs cb + 1\<rparr> in
          if cb_halfOpenSuccs cb \<ge> cb_successThreshold cb then cb_transition StateClosed cb else cb
        else cb
      else
        let cb = cb0\<lparr>cb_consecutiveFails := cb_consecutiveFails cb0 + 1, cb_lastFailureAt := now\<rparr> in
        if cb_state cb = StateHalfOpen then cb_transition StateOpen cb
        else if cb_consecutiveFails cb \<ge> cb_failureThreshold cb then cb_transition StateOpen cb
        else cb)"

datatype 'e do_result = ErrCircuitOpen | CtxErr 'e | FnResult "'e option"

text \<open>The part of \<open>Do\<close> before the call (\<open>None\<close>: let the call run) and the part after it.\<close>

definition cb_begin :: "'e option \<Rightarrow> gotime \<Rightarrow> breaker \<Rightarrow> breaker \<times> 'e do_result option" where
  "cb_begin ctx now cb =
     (case ctx of
        Some e \<Rightarrow> (cb, Some (CtxErr e))
      | None \<Rightarrow>
          let cb' = resolveState now cb in
          if cb_state cb' = StateOpen then (cb', Some ErrCircuitOpen) else (cb', None))"

definition cb_end :: "gotime \<Rightarrow> 'e option \<Rightarrow> breaker \<Rightarrow> breaker \<times> 'e do_result" where
  "cb_end now err cb = (recordResult now (err = None) cb, FnResult err)"

definition cb_Do :: "'e option \<Rightarrow> gotime \<Rightarrow> gotime \<Rightarrow> 'e option \<Rightarrow> breaker \<Rightarrow> breaker \<times> 'e do_result" where
  "cb_Do ctx now now' err cb =
     (case cb_begin ctx now cb of
        (cb', Some r) \<Rightarrow> (cb', r)
      | (cb', None) \<Rightarrow> cb_end now' err cb')"

definition cb_State :: "gotime \<Rightarrow> breaker \<Rightarrow> breaker \<times> cb_phase" where
  "cb_State now cb = (let cb' = resolveState now cb in (cb', cb_state cb'))"

subsection \<open>The registry\<close>

record health_report =
  rh_Total :: int
  rh_Closed :: int
  rh_Open :: int
  rh_HalfOpen :: int

type_synonym registry = "(string, breaker) gomap"

definition registry_get :: "string \<Rightarrow> cb_config \<Rightarrow> registry \<Rightarrow> registry \<times> breaker" where
  "registry_get name cfg r =
     (case mget r name of
        Some cb \<Rightarrow> (r, cb)
      | None \<Rightarrow> let cb = newCircuitBreaker (cfg\<lparr>cfg_Name := name\<rparr>) in (mput name cb r, cb))"

fun health_loop :: "gotime \<Rightarrow> registry \<Rightarrow> health_report \<Rightarrow> registry \<times> health_report" where
  "health_loop now [] h = ([], h)"
| "health_loop now ((n, cb) # r) h =
     (case cb_State now cb of
        (cb', s) \<Rightarrow>
          let h' = (case s of
                      StateClosed \<Rightarrow> h\<lparr>rh_Closed := rh_Closed h + 1\<rparr>
                    | StateOpen \<Rightarrow> h\<lparr>rh_Open := rh_Open h + 1\<rparr>
                    | StateHalfOpen \<Rightarrow> h\<lparr>rh_HalfOpen := rh_HalfOpen h + 1\<rparr>);
              (r', h'') = health_loop now r h'
          in ((n, cb') # r', h''))"

definition registry_health :: "gotime \<Rightarrow> registry \<Rightarrow> registry \<times> health_report" where
  "registry_health now r =
     health_loop now r \<lparr>rh_Total = int (length r), rh_Closed = 0, rh_Open = 0, rh_HalfOpen = 0\<rparr>"

definition registry_names :: "registry \<Rightarrow> string list" where
  "registry_names r = sort (mkeys r)"

subsection \<open>Interleavings\<close>

text \<open>
  A system state is the breaker, the number of calls in flight and the outcomes of the
  calls completed so far, newest first. A call begins only if the breaker lets it.
\<close>

type_synonym cb_system = "breaker \<times> nat \<times> bool list"

inductive cb_step :: "cb_system \<Rightarrow> cb_system \<Rightarrow> bool" where
  admit: "cb_begin None now cb = (cb', None :: unit do_result option) \<Longrightarrow>
    cb_step (cb, n, h) (cb', Suc n, h)"
| refuse: "cb_begin None now cb = (cb', Some (r :: unit do_result)) \<Longrightarrow> cb_step (cb, n, h) (cb', n, h)"
| finish: "cb_end now err cb = (cb', r :: unit do_result) \<Longrightarrow>
    cb_step (cb, Suc n, h) (cb', n, (err = None) # h)"
| query: "cb_State now cb = (cb', s) \<Longrightarrow> cb_step (cb, n, h) (cb', n, h)"

inductive cb_reach :: "cb_config \<Rightarrow> cb_system \<Rightarrow> bool" for cfg where
  start: "cb_reach cfg (newCircuitBreaker cfg, 0, [])"
| step: "cb_reach cfg s \<Longrightarrow> cb_step s s' \<Longrightarrow> cb_reach cfg s'"

inductive_cases cb_stepE: "cb_step (cb, n, h) s'"

definition trailing_failures :: "bool list \<Rightarrow> int" where
  "trailing_failures h = int (length (takeWhile (\<lambda>ok. \<not> ok) h))"

definition breaker_inv :: "cb_config \<Rightarrow> breaker \<Rightarrow> bool list \<Rightarrow> bool" where
  "breaker_inv cfg cb h \<longleftrightarrow>
     cb_failureThreshold cb = cb_failureThreshold (newCircuitBreaker cfg)
     \<and> cb_successThreshold cb = cb_successThreshold (newCircuitBreaker cfg)
     \<and> cb_cooldownDuration cb = cb_cooldownDuration (newCircuitBreaker cfg)
     \<and> cb_consecutiveFails cb = trailing_failures h
     \<and> (cb_state cb = StateClosed \<longrightarrow> cb_consecutiveFails cb < cb_failureThreshold cb)
     \<and> (cb_state cb = StateHalfOpen \<longrightarrow>
          0 \<le> cb_halfOpenSuccs cb \<and> cb_halfOpenSuccs cb < cb_successThreshold cb)
     \<and> (cb_state cb \<noteq> StateClosed \<longrightarrow> False \<in> set h)"

lemma emitTransition_simps [simp]:
  "cb_state (emitTransition s cb) = cb_state cb"
  "cb_consecutiveFails (emitTransition s cb) = cb_consecutiveFails cb"
  "cb_halfOpenSuccs (emitTransition s cb) = cb_halfOpenSuccs cb"
  "cb_failureThreshold (emitTransition s cb) = cb_failureThreshold cb"
  "cb_successThreshold (emitTransition s cb) = cb_successThreshold cb"
  "cb_cooldownDuration (emitTransition s cb) = cb_cooldownDuration cb"
  "cb_lastFailureAt (emitTransition s cb) = cb_lastFailureAt cb"
  by (simp_all add: emitTransition_def split: cb_phase.split)

lemma cb_transition_simps [simp]:
  "cb_state (cb_transition s cb) = s"
  "cb_consecutiveFails (cb_transition s cb) = cb_consecutiveFails cb"
  "cb_halfOpenSuccs (cb_transition s cb) = cb_halfOpenSuccs cb"
  "cb_failureThreshold (cb_transition s cb) = cb_failureThreshold cb"
  "cb_successThreshold (cb_transition s cb) = cb_successThreshold cb"
  "cb_cooldownDuration (cb_transition s cb) = cb_cooldownDuration cb"
  "cb_lastFailureAt (cb_transition s cb) = cb_lastFailureAt cb"
  by (simp_all add: cb_transition_def)

lemma thresholds_pos:
  "0 < cb_failureThreshold (newCircuitBreaker cfg)" "0 < cb_successThreshold (newCircuitBreaker cfg)"
  "0 < cb_cooldownDuration (newCircuitBreaker cfg)"
  by (simp_all add: newCircuitBreaker_def time_second_def)

lemma trailing_failures_Cons [simp]:
  "trailing_failures (ok # h) = (if ok then 0 else trailing_failures h + 1)"
  by (simp add: trailing_failures_def)

lemma resolve_inv: "breaker_inv cfg cb h \<Longrightarrow> breaker_inv cfg (resolveState now cb) h"
  using thresholds_pos [of cfg] by (auto simp: breaker_inv_def resolveState_def)

lemma record_inv: "breaker_inv cfg cb h \<Longrightarrow> breaker_inv cfg (recordResult now ok cb) (ok # h)"
  using thresholds_pos [of cfg]
  by (cases ok; cases "cb_state cb") (simp_all add: breaker_inv_def recordResult_def Let_def)

lemma step_inv: "cb_step (cb, n, h) (cb', n', h') \<Longrightarrow> breaker_inv cfg cb h \<Longrightarrow> breaker_inv cfg cb' h'"
  by (erule cb_stepE)
     (auto simp: cb_begin_def cb_end_def cb_State_def Let_def resolve_inv record_inv split: if_splits)

lemma reach_inv: "cb_reach cfg (cb, n, h) \<Longrightarrow> breaker_inv cfg cb h"
proof (induction "(cb, n, h)" arbitrary: cb n h rule: cb_reach.induct)
  case start
  then show ?case using thresholds_pos [of cfg]
    by (simp add: breaker_inv_def newCircuitBreaker_def trailing_failures_def)
next
  case (step s)
  then show ?case by (cases s) (auto intro: step_inv)
qed

text \<open>C36: Under every interleaving of calls and queries, the breaker's counter is the number
  of failures since the last success, over all completed calls; while the breaker is closed
  that number is below the failure threshold, so the threshold-th failure in a row always
  leaves it open or half open; and it is never anything but closed before the first failure.\<close>

theorem breaker_closed_means_healthy:
  assumes "cb_reach cfg (cb, n, h)"
  shows "cb_consecutiveFails cb = trailing_failures h
    \<and> (cb_state cb = StateClosed \<longrightarrow> trailing_failures h < cb_failureThreshold (newCircuitBreaker cfg))
    \<and> (cb_state cb \<noteq> StateClosed \<longrightarrow> False \<in> set h)"
  using reach_inv [OF assms] by (auto simp: breaker_inv_def)

definition sample_config :: cb_config where
  "sample_config = \<lparr>cfg_Name = ''x'', cfg_FailureThreshold = 2, cfg_SuccessThreshold = 1,
     cfg_CooldownDuration = 10, cfg_Metrics = True\<rparr>"

lemma begin_closed: "cb_state cb = StateClosed \<Longrightarrow> cb_begin None now cb = (cb, None)"
  by (simp add: cb_begin_def resolveState_def)

definition sample_tripped :: breaker where
  "sample_tripped = recordResult 2 False (recordResult 1 False (newCircuitBreaker sample_config))"

lemma sample_tripped_reach: "cb_reach sample_config (sample_tripped, 1, [False, False])"
proof -
  let ?c0 = "newCircuitBreaker sample_config"
  have c0: "cb_state ?c0 = StateClosed" by (simp add: newCircuitBreaker_def)
  have admit': "cb_step (?c0, n, h) (?c0, Suc n, h)" for n h
    by (rule cb_step.admit [OF begin_closed [OF c0]])
  have fail: "cb_step (cb, Suc n, h) (recordResult now False cb, n, False # h)" for cb n h now
    using cb_step.finish [of now "Some ()" cb "recordResult now False cb" "FnResult (Some ())" n h]
    by (simp add: cb_end_def)
  have "cb_reach sample_config (?c0, Suc (Suc (Suc 0)), [])"
    by (rule cb_reach.step [OF _ admit'])+ (rule cb_reach.start)
  then show ?thesis
    using cb_reach.step [OF cb_reach.step [OF _ fail [where now = 1]] fail [where now = 2]]
    by (simp add: sample_tripped_def)
qed

theorem breaker_closed_means_healthy_witness:
  "cb_reach sample_config (sample_tripped, 1, [False, False]) \<and> cb_state sample_tripped \<noteq> StateClosed"
proof -
  have "\<not> trailing_failures [False, False] < cb_failureThreshold (newCircuitBreaker sample_config)"
    by (simp add: trailing_failures_def newCircuitBreaker_def sample_config_def)
  with breaker_closed_means_healthy [OF sample_tripped_reach] sample_tripped_reach show ?thesis by blast
qed

subsection \<open>Tripping and recovering\<close>

fun cb_calls :: "(gotime \<times> gotime \<times> 'e option) list \<Rightarrow> breaker \<Rightarrow> breaker" where
  "cb_calls [] cb = cb"
| "cb_calls ((now, now', err) # cs) cb = cb_calls cs (fst (cb_Do None now now' err cb))"

definition cooled :: "gotime \<Rightarrow> breaker \<Rightarrow> bool" where
  "cooled now cb \<longleftrightarrow> cb_cooldownDuration cb \<le> now - cb_lastFailureAt cb"

text \<open>How many more successes a breaker needs.\<close>

definition missing :: "breaker \<Rightarrow> int" where
  "missing cb =
     (case cb_state cb of
        StateClosed \<Rightarrow> 0
      | StateOpen \<Rightarrow> cb_successThreshold cb
      | StateHalfOpen \<Rightarrow> cb_successThreshold cb - cb_halfOpenSuccs cb)"

lemma success_progress:
  assumes "breaker_inv cfg cb h" and "cooled now cb" and "cb_cooldownDuration cb \<le> max_int64"
    and "cb' = fst (cb_Do None now now' (None :: 'e option) cb)"
  shows "(\<exists>h'. breaker_inv cfg cb' h') \<and> missing cb' \<le> max 0 (missing cb - 1)
    \<and> cb_lastFailureAt cb' = cb_lastFailureAt cb \<and> cb_cooldownDuration cb' = cb_cooldownDuration cb"
proof -
  have sub: "cb_cooldownDuration cb \<le> time_sub now (cb_lastFailureAt cb)"
    using assms(2,3) by (simp add: cooled_def time_sub_def)
  then have ne: "cb_state (resolveState now cb) \<noteq> StateOpen" by (simp add: resolveState_def)
  then have cb': "cb' = recordResult now' True (resolveState now cb)"
    using assms(4) by (simp add: cb_Do_def cb_begin_def cb_end_def Let_def)
  have "breaker_inv cfg cb' (True # h)"
    unfolding cb' by (rule record_inv [OF resolve_inv [OF assms(1)]])
  moreover have "missing cb' \<le> max 0 (missing cb - 1)"
    using assms(1) sub thresholds_pos [of cfg] unfolding cb'
    by (cases "cb_state cb") (simp_all add: missing_def recordResult_def resolveState_def Let_def breaker_inv_def)
  moreover have "cb_lastFailureAt cb' = cb_lastFailureAt cb \<and> cb_cooldownDuration cb' = cb_cooldownDuration cb"
    unfolding cb' by (simp add: recordResult_def resolveState_def Let_def)
  ultimately show ?thesis by blast
qed

lemma successes_progress:
  assumes "breaker_inv cfg cb h" and "\<forall>(now, now', err) \<in> set cs. cooled now cb \<and> err = None"
    and "cb_cooldownDuration cb \<le> max_int64"
  shows "(\<exists>h'. breaker_inv cfg (cb_calls cs cb) h') \<and> missing (cb_calls cs cb) \<le> max 0 (missing cb - int (length cs))"
  using assms
proof (induction cs cb arbitrary: h rule: cb_calls.induct)
  case (1 cb)
  then show ?case by auto
next
  case (2 now now' err cs cb)
  let ?cb = "fst (cb_Do None now now' err cb)"
  have e: "err = None" "cooled now cb" using "2.prems"(2) by auto
  obtain h' where s: "breaker_inv cfg ?cb h'" "missing ?cb \<le> max 0 (missing cb - 1)"
      "cb_lastFailureAt ?cb = cb_lastFailureAt cb" "cb_cooldownDuration ?cb = cb_cooldownDuration cb"
    using success_progress [OF "2.prems"(1) e(2) "2.prems"(3), of ?cb now'] e(1) by auto
  have "\<forall>(now, now', err) \<in> set cs. cooled now ?cb \<and> err = None"
    using "2.prems"(2) s(3,4) by (auto simp: cooled_def)
  then show ?case using "2.IH" [OF s(1)] s(2,4) "2.prems"(3) by auto
qed

text \<open>The breaker recovers. Whatever interleaving of calls it has been through, once the
  cooldown has passed since its last recorded failure, as many successful calls in a row as
  the success threshold says close it; while the cooldown has not passed, an open breaker
  refuses every call without running it and stays as it is.\<close>

theorem breaker_recovers:
  assumes "cb_reach cfg (cb, n, h)" and "cfg_CooldownDuration cfg \<le> max_int64"
  shows "(\<forall>cs :: (gotime \<times> gotime \<times> 'e option) list.
      (\<forall>(now, now', err) \<in> set cs. cooled now cb \<and> err = None)
        \<and> cb_successThreshold (newCircuitBreaker cfg) \<le> int (length cs)
      \<longrightarrow> cb_state (cb_calls cs cb) = StateClosed)
    \<and> (\<forall>now. cb_state cb = StateOpen \<and> \<not> cooled now cb \<longrightarrow>
        cb_begin (None :: 'e option) now cb = (cb, Some ErrCircuitOpen))"
proof (intro conjI allI impI)
  note inv = reach_inv [OF assms(1)]
  have cd: "cb_cooldownDuration cb \<le> max_int64"
    using inv assms(2) by (simp add: breaker_inv_def newCircuitBreaker_def time_second_def)
  fix cs :: "(gotime \<times> gotime \<times> 'e option) list"
  assume cs: "(\<forall>(now, now', err) \<in> set cs. cooled now cb \<and> err = None)
        \<and> cb_successThreshold (newCircuitBreaker cfg) \<le> int (length cs)"
  have "missing cb \<le> cb_successThreshold (newCircuitBreaker cfg)"
    using inv thresholds_pos [of cfg] by (cases "cb_state cb") (simp_all add: missing_def breaker_inv_def)
  then obtain h' where m: "missing (cb_calls cs cb) \<le> 0" "breaker_inv cfg (cb_calls cs cb) h'"
    using successes_progress [OF inv _ cd, of cs] cs by fastforce
  then show "cb_state (cb_calls cs cb) = StateClosed"
    using thresholds_pos [of cfg]
    by (cases "cb_state (cb_calls cs cb)") (simp_all add: missing_def breaker_inv_def)
next
  fix now assume o: "cb_state cb = StateOpen \<and> \<not> cooled now cb"
  have "cb_cooldownDuration cb \<le> max_int64" "0 < cb_cooldownDuration cb"
    using reach_inv [OF assms(1)] assms(2) thresholds_pos [of cfg]
    by (simp_all add: breaker_inv_def newCircuitBreaker_def time_second_def)
  then have "\<not> time_sub now (cb_lastFailureAt cb) \<ge> cb_cooldownDuration cb"
    using o by (auto simp: cooled_def time_sub_def)
  then show "cb_begin (None :: 'e option) now cb = (cb, Some ErrCircuitOpen)"
    using o by (simp add: cb_begin_def resolveState_def)
qed

theorem breaker_recovers_witness:
  "cb_state (cb_calls [(100, 101, None :: unit option)] (newCircuitBreaker sample_config)) = StateClosed"
proof -
  have "(\<forall>(now, now', err) \<in> set [(100, 101, None :: unit option)].
        cooled now (newCircuitBreaker sample_config) \<and> err = None)
      \<and> cb_successThreshold (newCircuitBreaker sample_config) \<le> int (length [(100, 101, None :: unit option)])"
    by (simp add: cooled_def newCircuitBreaker_def sample_config_def zero_time_def)
  moreover have "cfg_CooldownDuration sample_config \<le> max_int64" by (simp add: sample_config_def)
  ultimately show ?thesis using breaker_recovers [OF cb_reach.start, of sample_config] by blast
qed

text \<open>A call that was admitted before the breaker opened and fails afterwards pushes the
  retry time back: the open breaker takes its completion for a new last failure, and, once
  the threshold is passed, counts a second opening in the metric without having closed.\<close>

theorem late_failure_reopens:
  assumes "cb_reach cfg (cb, Suc n, h)" and "cb_state cb = StateOpen" and "cb_hasMetrics cb"
    and "cb_failureThreshold cb \<le> cb_consecutiveFails cb + 1"
  shows "cb_step (cb, Suc n, h) (fst (cb_end now (Some ()) cb), n, False # h)
    \<and> cb_state (fst (cb_end now (Some ()) cb)) = StateOpen
    \<and> cb_lastFailureAt (fst (cb_end now (Some ()) cb)) = now
    \<and> cb_metrics (fst (cb_end now (Some ()) cb)) = cb_metrics cb @ [IncOpen (cb_name cb)]"
proof -
  have "cb_step (cb, Suc n, h) (fst (cb_end now (Some ()) cb), n, (Some () = None) # h)"
    by (rule cb_step.finish [of _ "Some ()"]) (simp add: cb_end_def)
  moreover have "cb_metrics (fst (cb_end now (Some ()) cb)) = cb_metrics cb @ [IncOpen (cb_name cb)]"
    using assms by (simp add: cb_end_def recordResult_def Let_def cb_transition_def emitTransition_def)
  ultimately show ?thesis
    using assms by (simp add: cb_end_def recordResult_def Let_def)
qed

theorem late_failure_reopens_witness:
  "cb_metrics sample_tripped = [IncOpen ''x'']
   \<and> cb_metrics (fst (cb_end 50 (Some ()) sample_tripped)) = [IncOpen ''x'', IncOpen ''x'']"
proof -
  have t: "cb_state sample_tripped = StateOpen" "cb_hasMetrics sample_tripped"
      "cb_failureThreshold sample_tripped \<le> cb_consecutiveFails sample_tripped + 1"
      "cb_metrics sample_tripped = [IncOpen ''x'']" "cb_name sample_tripped = ''x''"
    by code_simp+
  have "cb_reach sample_config (sample_tripped, Suc 0, [False, False])"
    using sample_tripped_reach by simp
  from late_failure_reopens [OF this t(1-3), of 50] t(4,5) show ?thesis by simp
qed

lemma health_loop_counts:
  "health_loop now r h = (r', h') \<Longrightarrow>
     rh_Closed h' = rh_Closed h + int (length (filter (\<lambda>(n, cb). snd (cb_State now cb) = StateClosed) r))
   \<and> rh_Open h' = rh_Open h + int (length (filter (\<lambda>(n, cb). snd (cb_State now cb) = StateOpen) r))
   \<and> rh_HalfOpen h' = rh_HalfOpen h + int (length (filter (\<lambda>(n, cb). snd (cb_State now cb) = StateHalfOpen) r))
   \<and> rh_Total h' = rh_Total h"
proof (induction now r h arbitrary: r' h' rule: health_loop.induct)
  case (2 now n cb r h)
  obtain cb' s where c: "cb_State now cb = (cb', s)" by fastforce
  show ?case using "2.prems" "2.IH" [OF c [symmetric] refl] c
    by (cases s) (auto split: prod.splits)
qed simp

lemma state_filters_partition:
  "int (length (filter (\<lambda>(n, cb). f cb = StateClosed) r))
   + int (length (filter (\<lambda>(n, cb). f cb = StateOpen) r))
   + int (length (filter (\<lambda>(n, cb). f cb = StateHalfOpen) r)) = int (length r)"
proof (induction r)
  case (Cons p r)
  then show ?case by (cases p; cases "f (snd p)") simp_all
qed simp

text \<open>The registry keeps one breaker per name: asking for a name again gives the breaker
  that the first request configured and changes nothing, no other name is touched, and the
  health report counts every breaker exactly once, in the state a query would report.\<close>

theorem registry_consistent:
  assumes "registry_get name cfg r = (r1, cb)" and "registry_health now r1 = (r2, h)"
  shows "registry_get name cfg' r1 = (r1, cb)
    \<and> (\<forall>name'. name' \<noteq> name \<longrightarrow> mget r1 name' = mget r name')
    \<and> rh_Total h = rh_Closed h + rh_Open h + rh_HalfOpen h
    \<and> rh_Open h = int (length (filter (\<lambda>(n, cb). snd (cb_State now cb) = StateOpen) r1))"
proof -
  have "registry_get name cfg' r1 = (r1, cb) \<and> (\<forall>name'. name' \<noteq> name \<longrightarrow> mget r1 name' = mget r name')"
    using assms(1) by (auto simp: registry_get_def Let_def split: option.splits)
  moreover have "rh_Total h = rh_Closed h + rh_Open h + rh_HalfOpen h
      \<and> rh_Open h = int (length (filter (\<lambda>(n, cb). snd (cb_State now cb) = StateOpen) r1))"
    using health_loop_counts [OF assms(2) [unfolded registry_health_def]]
      state_filters_partition [of "\<lambda>cb. snd (cb_State now cb)" r1] by simp
  ultimately show ?thesis by blast
qed

theorem registry_consistent_witness:
  "\<exists>r1 cb. registry_get ''x'' sample_config [] = (r1, cb) \<and> registry_get ''x'' sample_config r1 = (r1, cb)"
proof -
  obtain r1 cb where g: "registry_get ''x'' sample_config [] = (r1, cb)" by fastforce
  obtain r2 h where "registry_health 0 r1 = (r2, h)" by fastforce
  from registry_consistent [OF g this] g show ?thesis by blast
qed

end
