(* ===== verification/Go_Encoding.thy ===== *)
theory Go_Encoding
  imports Go_Prelude "HOL-Library.Char_ord" "HOL-Library.List_Lexorder"
begin

text \<open>
  Encodings of the standard library that several components use: UTF-8 as
  \<open>unicode/utf8.DecodeRune\<close> reads it, \<open>encoding/hex\<close>, and \<open>encoding/json.Marshal\<close> of strings
  and of a \<open>map[string]string\<close> (keys sorted, HTML-safe escapes). The lemmas show which inputs
  the JSON encoding keeps apart: it is injective on valid UTF-8 and maps every invalid byte to
  the same escape.
\<close>

subsection \<open>UTF-8\<close>

abbreviation byte :: "char \<Rightarrow> nat" where "byte c \<equiv> of_char c"

definition cont :: "char \<Rightarrow> bool" where "cont c \<longleftrightarrow> 0x80 \<le> byte c \<and> byte c \<le> 0xBF"

text \<open>The number of bytes of the rune at the front, \<open>0\<close> where \<open>DecodeRune\<close> reports an error.\<close>

definition rune_size :: "char \<Rightarrow> nat" where
  "rune_size a =
     (let n = byte a in
      if n < 0x80 then 1 else if n < 0xC2 then 0 else if n < 0xE0 then 2
      else if n < 0xF0 then 3 else if n < 0xF5 then 4 else 0)"

definition second_ok :: "char \<Rightarrow> char \<Rightarrow> bool" where
  "second_ok a b \<longleftrightarrow>
     (if byte a = 0xE0 then 0xA0 \<le> byte b else if byte a = 0xED then byte b \<le> 0x9F
      else if byte a = 0xF0 then 0x90 \<le> byte b else if byte a = 0xF4 then byte b \<le> 0x8F else True)"

definition utf8_len :: "string \<Rightarrow> nat" where
  "utf8_len s =
     (case s of
        [] \<Rightarrow> 0
      | a # r \<Rightarrow>
          if rune_size a \<le> 1 then rune_size a
          else if length s < rune_size a then 0
          else if second_ok a (hd r) \<and> list_all cont (take (rune_size a - 1) r) then rune_size a
          else 0)"

lemma utf8_len_le: "utf8_len s \<le> length s"
  by (cases s) (auto simp: utf8_len_def)

lemma utf8_len_append: "0 < utf8_len s \<Longrightarrow> utf8_len (s @ t) = utf8_len s"
proof (cases s)
  case (Cons a r)
  assume "0 < utf8_len s"
  moreover have "hd (r @ t) = hd r" if "1 < rune_size a" "rune_size a \<le> Suc (length r)"
    using that by (cases r) auto
  ultimately show ?thesis using Cons by (auto simp: utf8_len_def split: if_splits)
qed (simp add: utf8_len_def)

lemma utf8_len_take: "0 < utf8_len s \<Longrightarrow> utf8_len (take (utf8_len s) s @ t) = utf8_len s"
proof (cases s)
  case (Cons a r)
  assume l: "0 < utf8_len s"
  show ?thesis
  proof (cases "rune_size a \<le> 1")
    case True
    with l Cons have "utf8_len s = 1" "rune_size a = 1" by (simp_all add: utf8_len_def)
    then show ?thesis using Cons by (simp add: utf8_len_def)
  next
    case False
    with l Cons have n: "utf8_len s = rune_size a" "rune_size a \<le> Suc (length r)"
      "second_ok a (hd r)" "list_all cont (take (rune_size a - 1) r)"
      by (auto simp: utf8_len_def split: if_splits)
    from False have "2 \<le> rune_size a" by simp
    then obtain k where "rune_size a = 2 + k" using le_Suc_ex by blast
    then have k: "rune_size a = Suc (Suc k)" by simp
    obtain b r' where r: "r = b # r'" using n(2) k by (cases r) auto
    have t: "take (utf8_len s) s @ t = a # b # take k r' @ t" using n(1) k Cons r by simp
    have "k \<le> length r'" "second_ok a b" "cont b" "list_all cont (take k r')"
      using n(2,3,4) k r by simp_all
    then have "utf8_len (a # b # take k r' @ t) = rune_size a"
      using k by (simp add: utf8_len_def)
    then show ?thesis using t n(1) by simp
  qed
qed (simp add: utf8_len_def)

lemma utf8_len_ascii: "byte c < 0x80 \<Longrightarrow> utf8_len (c # s) = 1"
  by (simp add: utf8_len_def rune_size_def)

function valid_utf8 :: "string \<Rightarrow> bool" where
  "valid_utf8 s =
     (if s = [] then True else if utf8_len s = 0 then False else valid_utf8 (drop (utf8_len s) s))"
  by pat_completeness auto
termination
proof (relation "measure length")
  fix s :: string assume "s \<noteq> []" "utf8_len s \<noteq> 0"
  then show "(drop (utf8_len s) s, s) \<in> measure length" by simp
qed simp

declare valid_utf8.simps [simp del]

lemma valid_utf8_Nil [simp]: "valid_utf8 []" by (subst valid_utf8.simps) simp

lemma valid_utf8_step:
  "s \<noteq> [] \<Longrightarrow> valid_utf8 s \<longleftrightarrow> 0 < utf8_len s \<and> valid_utf8 (drop (utf8_len s) s)"
  by (subst valid_utf8.simps) simp

lemma valid_utf8_ascii: "list_all (\<lambda>c. byte c < 0x80) s \<Longrightarrow> valid_utf8 s"
proof (induction s)
  case (Cons c s)
  then show ?case by (subst valid_utf8.simps) (simp add: utf8_len_ascii)
qed simp

subsection \<open>Hexadecimal\<close>

definition hex_digit :: "nat \<Rightarrow> char" where
  "hex_digit n = char_of (if n < 10 then 48 + n else 87 + n)"

fun hex_encode :: "string \<Rightarrow> string" where
  "hex_encode [] = []"
| "hex_encode (c # s) = hex_digit (byte c div 16) # hex_digit (byte c mod 16) # hex_encode s"

definition hex_val :: "char \<Rightarrow> nat" where
  "hex_val c = (if byte c < 58 then byte c - 48 else byte c - 87)"

lemma hex_val_digit [simp]: "n < 16 \<Longrightarrow> hex_val (hex_digit n) = n"
  by (simp add: hex_val_def hex_digit_def)

lemma hex_digit_inj: "m < 16 \<Longrightarrow> n < 16 \<Longrightarrow> hex_digit m = hex_digit n \<longleftrightarrow> m = n"
  by (metis hex_val_digit)

lemma byte_less [simp]: "byte c < 256"
  by (metis nat_of_char_less_256)

lemma byte_inj: "byte c = byte d \<longleftrightarrow> c = d"
  by (metis char_of_char)

lemma hex_encode_inj: "hex_encode s = hex_encode t \<longleftrightarrow> s = t"
proof (induction s arbitrary: t)
  case Nil then show ?case by (cases t) auto
next
  case (Cons c s)
  show ?case
  proof (cases t)
    case (Cons d t')
    have lt: "byte x div 16 < 16" for x :: char
      using byte_less [of x] by (simp add: less_mult_imp_div_less)
    have "(byte c div 16 = byte d div 16 \<and> byte c mod 16 = byte d mod 16) \<longleftrightarrow> c = d"
      by (metis byte_inj div_mult_mod_eq)
    then show ?thesis using Cons Cons.IH lt by (auto simp: hex_digit_inj)
  qed simp
qed

subsection \<open>JSON strings\<close>

text \<open>The escapes of \<open>json.Marshal\<close>, which also escapes \<open><\<close>, \<open>>\<close> and \<open>&\<close>.\<close>

definition json_ascii :: "char \<Rightarrow> string" where
  "json_ascii c =
     (if c = CHR 0x22 \<or> c = CHR 0x5C then [CHR 0x5C, c]
      else if c = CHR 0x08 then [CHR 0x5C, CHR ''b'']
      else if c = CHR 0x0C then [CHR 0x5C, CHR ''f'']
      else if c = CHR 0x0A then [CHR 0x5C, CHR ''n'']
      else if c = CHR 0x0D then [CHR 0x5C, CHR ''r'']
      else if c = CHR 0x09 then [CHR 0x5C, CHR ''t'']
      else if byte c < 0x20 \<or> c \<in> {CHR ''<'', CHR ''>'', CHR ''&''}
      then [CHR 0x5C, CHR ''u'', CHR ''0'', CHR ''0'', hex_digit (byte c div 16), hex_digit (byte c mod 16)]
      else [c])"

definition json_rune :: "string \<Rightarrow> string" where
  "json_rune r =
     (if length r = 1 then json_ascii (hd r)
      else if r = [CHR 0xE2, CHR 0x80, CHR 0xA8] then CHR 0x5C # ''u2028''
      else if r = [CHR 0xE2, CHR 0x80, CHR 0xA9] then CHR 0x5C # ''u2029''
      else r)"

function json_escape :: "string \<Rightarrow> string" where
  "json_escape s =
     (if s = [] then []
      else if utf8_len s = 0 then (CHR 0x5C # ''ufffd'') @ json_escape (tl s)
      else json_rune (take (utf8_len s) s) @ json_escape (drop (utf8_len s) s))"
  by pat_completeness auto
termination
proof (relation "measure length")
  fix s :: string assume "s \<noteq> []" "utf8_len s \<noteq> 0"
  then show "(drop (utf8_len s) s, s) \<in> measure length" by simp
next
  fix s :: string assume "s \<noteq> []"
  then show "(tl s, s) \<in> measure length" by (cases s) auto
qed simp

declare json_escape.simps [simp del]

text \<open>Most bytes stand for themselves; evaluation takes them one by one.\<close>

definition plain_char :: "char \<Rightarrow> bool" where
  "plain_char c \<longleftrightarrow>
     (case c of Char b0 b1 b2 b3 b4 b5 b6 b7 \<Rightarrow> \<not> b7 \<and> (b5 \<or> b6))
     \<and> c \<noteq> CHR 0x22 \<and> c \<noteq> CHR 0x5C \<and> c \<noteq> CHR ''<'' \<and> c \<noteq> CHR ''>'' \<and> c \<noteq> CHR ''&''"

lemma plain_char_byte: "plain_char c \<Longrightarrow> 0x20 \<le> byte c \<and> byte c < 0x80"
proof (cases c)
  case (Char b0 b1 b2 b3 b4 b5 b6 b7)
  assume "plain_char c"
  then have "\<not> b7" "b5 \<or> b6" by (simp_all add: plain_char_def Char)
  then show ?thesis unfolding Char
    by (cases b0; cases b1; cases b2; cases b3; cases b4; cases b5; cases b6) simp_all
qed

lemma json_escape_plain: "plain_char c \<Longrightarrow> json_escape (c # s) = c # json_escape s"
proof -
  assume p: "plain_char c"
  then have b: "0x20 \<le> byte c" "byte c < 0x80" using plain_char_byte by simp_all
  then have "c \<noteq> CHR 0x08 \<and> c \<noteq> CHR 0x0C \<and> c \<noteq> CHR 0x0A \<and> c \<noteq> CHR 0x0D \<and> c \<noteq> CHR 0x09" by auto
  then have "json_ascii c = [c]" using p b by (simp add: json_ascii_def plain_char_def)
  then show ?thesis using b by (subst json_escape.simps) (simp add: utf8_len_ascii json_rune_def)
qed

lemma json_escape_code [code]:
  "json_escape s =
     (case s of
        [] \<Rightarrow> []
      | c # r \<Rightarrow>
          if plain_char c then c # json_escape r
          else if utf8_len s = 0 then (CHR 0x5C # ''ufffd'') @ json_escape (tl s)
          else json_rune (take (utf8_len s) s) @ json_escape (drop (utf8_len s) s))"
proof (cases s)
  case (Cons c r)
  then show ?thesis
    by (cases "plain_char c") (simp add: json_escape_plain, subst json_escape.simps, simp)
qed (simp add: json_escape.simps)

definition json_string :: "string \<Rightarrow> string" where
  "json_string s = CHR 0x22 # json_escape s @ [CHR 0x22]"

text \<open>\<open>json.Marshal\<close> of a non-nil \<open>map[string]string\<close>: the keys in byte order.\<close>

definition json_pair :: "string \<times> string \<Rightarrow> string" where
  "json_pair kv = json_string (fst kv) @ CHR '':'' # json_string (snd kv)"

definition json_map :: "(string, string) gomap \<Rightarrow> string" where
  "json_map m = CHR 0x7B # join_with '','' (map json_pair (sort_key fst m)) @ [CHR 0x7D]"

subsection \<open>Reading an encoded string back\<close>

text \<open>The rune that the front of an encoded string stands for, and the rest.\<close>

definition json_unescape :: "string \<Rightarrow> string \<times> string" where
  "json_unescape y =
     (case y of
        [] \<Rightarrow> ([], [])
      | a # r \<Rightarrow>
          if a \<noteq> CHR 0x5C then (take (utf8_len y) y, drop (utf8_len y) y)
          else case r of
            [] \<Rightarrow> ([], [])
          | b # q \<Rightarrow>
              if b = CHR ''u'' then
                (if take 4 q = ''2028'' then ([CHR 0xE2, CHR 0x80, CHR 0xA8], drop 4 q)
                 else if take 4 q = ''2029'' then ([CHR 0xE2, CHR 0x80, CHR 0xA9], drop 4 q)
                 else ([char_of (16 * hex_val (q ! 2) + hex_val (q ! 3))], drop 4 q))
              else ([if b = CHR ''b'' then CHR 0x08 else if b = CHR ''f'' then CHR 0x0C
                     else if b = CHR ''n'' then CHR 0x0A else if b = CHR ''r'' then CHR 0x0D
                     else if b = CHR ''t'' then CHR 0x09 else b], q))"

lemma unescape_ascii:
  assumes "byte c < 0x80"
  shows "json_unescape (json_ascii c @ x) = ([c], x)"
proof -
  have lt: "byte c div 16 < 16" "byte c mod 16 < 16" using assms by auto
  have bk: "char_of (16 * (byte c div 16) + byte c mod 16) = c" by simp
  show ?thesis
    using assms lt bk
    by (auto simp: json_ascii_def json_unescape_def utf8_len_ascii)
qed

lemma utf8_len_one: "utf8_len s = 1 \<Longrightarrow> \<exists>c r. s = c # r \<and> byte c < 0x80"
  by (cases s) (auto simp: utf8_len_def rune_size_def Let_def split: if_splits)

lemma utf8_len_many: "1 < utf8_len s \<Longrightarrow> \<exists>c r. s = c # r \<and> 0x80 \<le> byte c"
  by (cases s) (auto simp: utf8_len_def rune_size_def Let_def split: if_splits)

lemma rune_at:
  assumes "0 < utf8_len s"
  defines "r \<equiv> take (utf8_len s) s"
  shows "json_rune r \<noteq> [] \<and> hd (json_rune r) \<noteq> CHR 0x22 \<and> json_unescape (json_rune r @ x) = (r, x)"
proof (cases "utf8_len s = 1")
  case True
  then obtain c where c: "r = [c]" "byte c < 0x80" using utf8_len_one [OF True] by (auto simp: r_def)
  then have "hd (json_ascii c) \<noteq> CHR 0x22 \<and> json_ascii c \<noteq> []" by (simp add: json_ascii_def)
  then show ?thesis using c unescape_ascii by (simp add: json_rune_def)
next
  case False
  with assms(1) have n: "1 < utf8_len s" by simp
  then obtain c q where s: "s = c # q" "0x80 \<le> byte c" using utf8_len_many by blast
  have len: "length r = utf8_len s" using utf8_len_le [of s] by (simp add: r_def)
  have hd: "r \<noteq> []" "hd r = c" using s len n by (auto simp: r_def take_Cons split: nat.split)
  have "c \<noteq> CHR 0x5C" "c \<noteq> CHR 0x22" using s(2) by auto
  moreover have "utf8_len (r @ x) = length r" using utf8_len_take assms(1) len by (simp add: r_def)
  ultimately have gen: "json_unescape (r @ x) = (r, x)"
    using hd by (cases r) (auto simp: json_unescape_def)
  show ?thesis using n len hd gen \<open>c \<noteq> CHR 0x22\<close> by (auto simp: json_rune_def json_unescape_def)
qed

lemma json_escape_step:
  "s \<noteq> [] \<Longrightarrow> 0 < utf8_len s \<Longrightarrow>
   json_escape s = json_rune (take (utf8_len s) s) @ json_escape (drop (utf8_len s) s)"
  by (subst json_escape.simps) simp

lemma json_escape_Nil [simp]: "json_escape [] = []" by (subst json_escape.simps) simp

lemma json_escape_hd:
  assumes "valid_utf8 s" "s \<noteq> []"
  shows "json_escape s @ x \<noteq> CHR 0x22 # y"
proof -
  have n: "0 < utf8_len s" using assms valid_utf8_step by blast
  from rune_at [OF n] json_escape_step [OF assms(2) n] show ?thesis
    by (cases "json_rune (take (utf8_len s) s)") auto
qed

lemma json_escape_inj:
  "valid_utf8 s \<Longrightarrow> valid_utf8 t \<Longrightarrow> json_escape s @ CHR 0x22 # x = json_escape t @ CHR 0x22 # y \<Longrightarrow>
   s = t \<and> x = y"
proof (induction "length s" arbitrary: s t rule: less_induct)
  case less
  show ?case
  proof (cases "s = [] \<or> t = []")
    case True
    have "s = [] \<longleftrightarrow> t = []"
      using less.prems(3) json_escape_hd [OF less.prems(1), of "CHR 0x22 # x" y]
        json_escape_hd [OF less.prems(2), of "CHR 0x22 # y" x] by (cases "s = []"; cases "t = []") auto
    then show ?thesis using True less.prems(3) by auto
  next
    case False
    then have ns: "0 < utf8_len s" "valid_utf8 (drop (utf8_len s) s)"
      and nt: "0 < utf8_len t" "valid_utf8 (drop (utf8_len t) t)"
      using less.prems valid_utf8_step by blast+
    let ?s = "json_escape (drop (utf8_len s) s) @ CHR 0x22 # x"
    let ?t = "json_escape (drop (utf8_len t) t) @ CHR 0x22 # y"
    have "json_unescape (json_escape s @ CHR 0x22 # x) = (take (utf8_len s) s, ?s)"
      using rune_at [OF ns(1)] json_escape_step [OF _ ns(1)] False by simp
    moreover have "json_unescape (json_escape t @ CHR 0x22 # y) = (take (utf8_len t) t, ?t)"
      using rune_at [OF nt(1)] json_escape_step [OF _ nt(1)] False by simp
    ultimately have e: "take (utf8_len s) s = take (utf8_len t) t" "?s = ?t" using less.prems(3) by auto
    have "length (drop (utf8_len s) s) < length s" using False ns(1) by simp
    from less.hyps [OF this ns(2) nt(2) e(2)]
    show ?thesis using e(1) by (metis append_take_drop_id)
  qed
qed

lemma json_string_inj:
  assumes "valid_utf8 s" "valid_utf8 t" "json_string s @ x = json_string t @ y"
  shows "s = t \<and> x = y"
  using json_escape_inj [OF assms(1,2)] assms(3) by (simp add: json_string_def)

subsection \<open>The encoding of a map determines it\<close>

definition valid_fields :: "(string, string) gomap \<Rightarrow> bool" where
  "valid_fields m \<longleftrightarrow> list_all (\<lambda>(k, v). valid_utf8 k \<and> valid_utf8 v) m"

lemma json_pair_inj:
  assumes "valid_utf8 (fst a)" "valid_utf8 (snd a)" "valid_utf8 (fst b)" "valid_utf8 (snd b)"
    and "json_pair a @ x = json_pair b @ y"
  shows "a = b \<and> x = y"
proof -
  from assms(5) have "json_string (fst a) @ (CHR '':'' # json_string (snd a) @ x)
      = json_string (fst b) @ (CHR '':'' # json_string (snd b) @ y)"
    by (simp add: json_pair_def)
  from json_string_inj [OF assms(1,3) this] have "fst a = fst b"
    "json_string (snd a) @ x = json_string (snd b) @ y" by auto
  with json_string_inj [OF assms(2,4)] show ?thesis by (simp add: prod_eq_iff)
qed

lemma json_pairs_inj:
  "valid_fields m \<Longrightarrow> valid_fields n \<Longrightarrow>
   join_with '','' (map json_pair m) @ [CHR 0x7D] = join_with '','' (map json_pair n) @ [CHR 0x7D] \<Longrightarrow> m = n"
proof (induction m arbitrary: n)
  case Nil
  then show ?case by (cases n; cases "tl n") (auto simp: json_pair_def json_string_def)
next
  case (Cons a m)
  from Cons.prems obtain b n' where n: "n = b # n'"
    by (cases n; cases m) (auto simp: json_pair_def json_string_def)
  define rest where "rest z = (if z = [] then [CHR 0x7D] else CHR '','' # join_with '','' (map json_pair z) @ [CHR 0x7D])"
    for z :: "(string \<times> string) list"
  have sp: "join_with '','' (map json_pair (c # z)) @ [CHR 0x7D] = json_pair c @ rest z" for c z
    by (cases z) (simp_all add: rest_def)
  have "json_pair a @ rest m = json_pair b @ rest n'" using Cons.prems(3) unfolding n sp .
  from json_pair_inj [OF _ _ _ _ this] Cons.prems(1,2) n
  have ab: "a = b" and r: "rest m = rest n'" by (auto simp: valid_fields_def split_beta)
  have "m = n'"
  proof (cases "m = [] \<or> n' = []")
    case True
    then show ?thesis using r by (auto simp: rest_def split: if_splits)
  next
    case False
    then have "join_with '','' (map json_pair m) @ [CHR 0x7D] = join_with '','' (map json_pair n') @ [CHR 0x7D]"
      using r by (simp add: rest_def)
    with Cons.IH [of n'] Cons.prems(1,2) n show ?thesis by (simp add: valid_fields_def)
  qed
  then show ?case using ab n by simp
qed

lemma json_map_inj:
  assumes "valid_fields m" "valid_fields n" "mwf m" "mwf n" "json_map m = json_map n"
  shows "mget m = mget n"
proof -
  have v: "valid_fields (sort_key fst z)" if "valid_fields z" for z :: "(string, string) gomap"
    using that by (auto simp: valid_fields_def list_all_iff)
  have "sort_key fst m = sort_key fst n"
    using json_pairs_inj [OF v v] assms by (simp add: json_map_def)
  then have "set m = set n" by (metis set_sort)
  then show ?thesis using assms(3,4) by (simp add: mget_def mwf_def map_of_inject_set)
qed

text \<open>What a string is after \<open>json.Marshal\<close> and \<open>json.Unmarshal\<close>: every invalid byte has become
  the replacement character.\<close>

function utf8_clean :: "string \<Rightarrow> string" where
  "utf8_clean s =
     (if s = [] then []
      else if utf8_len s = 0 then [CHR 0xEF, CHR 0xBF, CHR 0xBD] @ utf8_clean (tl s)
      else take (utf8_len s) s @ utf8_clean (drop (utf8_len s) s))"
  by pat_completeness auto
termination
proof (relation "measure length")
  fix s :: string assume "s \<noteq> []" "utf8_len s \<noteq> 0"
  then show "(drop (utf8_len s) s, s) \<in> measure length" by simp
next
  fix s :: string assume "s \<noteq> []"
  then show "(tl s, s) \<in> measure length" by (cases s) auto
qed simp

declare utf8_clean.simps [simp del]

lemma utf8_clean_Nil [simp]: "utf8_clean [] = []" by (subst utf8_clean.simps) simp

lemma utf8_clean_valid [simp]: "valid_utf8 s \<Longrightarrow> utf8_clean s = s"
proof (induction "length s" arbitrary: s rule: less_induct)
  case less
  show ?case
  proof (cases "s = []")
    case False
    with less.prems have n: "0 < utf8_len s" "valid_utf8 (drop (utf8_len s) s)"
      by (simp_all add: valid_utf8_step)
    with False less.hyps [of "drop (utf8_len s) s"] have "utf8_clean (drop (utf8_len s) s) = drop (utf8_len s) s"
      by simp
    with n(1) False show ?thesis by (subst utf8_clean.simps) simp
  qed simp
qed

lemma utf8_clean_eq_Nil [simp]: "utf8_clean s = [] \<longleftrightarrow> s = []"
  by (subst utf8_clean.simps) (cases s; simp)

subsection \<open>Base64\<close>

definition base64_std :: string where
  "base64_std = ''ABCDEFGHIJKLMNOPQRSTUVWXYZabcdefghijklmnopqrstuvwxyz0123456789+/''"

definition base64_url :: string where
  "base64_url = ''ABCDEFGHIJKLMNOPQRSTUVWXYZabcdefghijklmnopqrstuvwxyz0123456789-_''"

fun base64_encode :: "string \<Rightarrow> bool \<Rightarrow> string \<Rightarrow> string" where
  "base64_encode al pad [] = []"
| "base64_encode al pad [a] =
     [al ! (byte a div 4), al ! (byte a mod 4 * 16)] @ (if pad then ''=='' else [])"
| "base64_encode al pad [a, b] =
     [al ! (byte a div 4), al ! (byte a mod 4 * 16 + byte b div 16), al ! (byte b mod 16 * 4)]
     @ (if pad then ''='' else [])"
| "base64_encode al pad (a # b # c # r) =
     al ! (byte a div 4) # al ! (byte a mod 4 * 16 + byte b div 16)
     # al ! (byte b mod 16 * 4 + byte c div 64) # al ! (byte c mod 64) # base64_encode al pad r"

end
