(* ===== verification/PublishGate.thy ===== *)
theory PublishGate
  imports Go_Encoding Lifecycle
begin

text \<open>
  The exactly-once publish gate (\<open>internal/publishgate\<close>, with the copies of its key functions
  in \<open>internal/idemkey\<close>): the idempotency key, the durable store of approvals and of the write
  ledger, and \<open>Gate.Publish\<close>. The store interface is a record of operations; \<open>pg_store\<close> is the
  Postgres implementation, each SQL statement one function on the two tables. The store client
  (the WooCommerce port) is a parameter, SHA-256 is the parameter \<open>sha\<close>, and what Postgres
  makes of a text for a \<open>uuid\<close> column is the parameter \<open>uid\<close>. The second half is the same
  procedure cut at every SQL statement and every remote call, run by several workers at once.
\<close>

subsection \<open>Errors and remote failures\<close>

text \<open>An error value as \<open>errors.As\<close> walks it: what it is, and the error it wraps.\<close>

datatype net_err =
    NetOp string "net_err option"
  | UrlErr "net_err option"
  | OtherErr string "net_err option"

fun first_op :: "net_err \<Rightarrow> string option" where
  "first_op (NetOp op _) = Some op"
| "first_op (UrlErr None) = None"
| "first_op (UrlErr (Some e)) = first_op e"
| "first_op (OtherErr _ None) = None"
| "first_op (OtherErr _ (Some e)) = first_op e"

fun first_url :: "net_err \<Rightarrow> net_err option" where
  "first_url (UrlErr e) = e"
| "first_url (NetOp _ None) = None"
| "first_url (NetOp _ (Some e)) = first_url e"
| "first_url (OtherErr _ None) = None"
| "first_url (OtherErr _ (Some e)) = first_url e"

datatype remote_failure = StoreUnreachable net_err | RemoteError net_err

definition classifyRemoteErr :: "net_err \<Rightarrow> remote_failure" where
  "classifyRemoteErr err =
     (if first_op err = Some ''dial'' \<or> first_op err = Some ''read'' then StoreUnreachable err
      else case first_url err of
        Some inner \<Rightarrow> if first_op inner = Some ''dial'' then StoreUnreachable err else RemoteError err
      | None \<Rightarrow> RemoteError err)"

datatype gate_error =
    ErrNoApproval | ErrLeaseHeld | ErrAlreadyCompleted | ErrRejected | ErrDryRun
  | ErrKeyBadDraftID | ErrKeyBadDraftIDChar | ErrKeyNoFields
  | ErrDB | ErrRemote remote_failure

subsection \<open>The idempotency key\<close>

definition key :: "(string \<Rightarrow> string) \<Rightarrow> string \<Rightarrow> (string, string) gomap \<Rightarrow> gate_error + string" where
  "key sha draftID fields =
     (if trim_space draftID = [] then Err ErrKeyBadDraftID
      else if CHR '':'' \<in> set draftID then Err ErrKeyBadDraftIDChar
      else if fields = [] then Err ErrKeyNoFields
      else Ok (draftID @ '':'' @ hex_encode (sha (json_map fields))))"

definition matches :: "(string, string) gomap \<Rightarrow> (string, string) gomap \<Rightarrow> bool" where
  "matches live desired \<longleftrightarrow>
     desired \<noteq> [] \<and>
     list_all (\<lambda>(k, v). case mget live k of
         None \<Rightarrow> False | Some have \<Rightarrow> trim_space have = trim_space v) desired"

definition fingerprint :: "(string \<Rightarrow> string) \<Rightarrow> (string, string) gomap \<Rightarrow> string" where
  "fingerprint sha fields = hex_encode (take 12 (sha (json_map fields)))"

subsection \<open>Data\<close>

record decision =
  dec_WorkflowID :: string
  dec_TenantID :: string
  dec_ProductID :: string
  dec_Approved :: bool
  dec_Actor :: string
  dec_Reason :: string
  dec_UpdateID :: string

datatype write_kind = KindCreate | KindUpdate | KindNone | KindDryRun
datatype ledger_status = InProgress | Completed | DryRunDone | Failed

record write_result =
  wr_WriteKind :: write_kind
  wr_RemoteID :: string
  wr_Status :: ledger_status

record claim_args =
  ca_key :: string
  ca_tenantID :: string
  ca_workflowID :: string
  ca_productID :: string
  ca_sku :: string
  ca_fingerprint :: string
  ca_owner :: string
  ca_ttl :: duration

record 's gate_store =
  gs_recordApproval :: "decision \<Rightarrow> 's \<Rightarrow> 's \<times> (gate_error + decision \<times> bool)"
  gs_approvalFor :: "string \<Rightarrow> 's \<Rightarrow> gate_error + decision"
  gs_claim :: "claim_args \<Rightarrow> 's \<Rightarrow> 's \<times> (gate_error + unit)"
  gs_complete :: "string \<Rightarrow> ledger_status \<Rightarrow> write_kind \<Rightarrow> string \<Rightarrow> 's \<Rightarrow> 's \<times> (gate_error + unit)"
  gs_fail :: "string \<Rightarrow> 's \<Rightarrow> 's \<times> (gate_error + unit)"

record remote_product =
  rp_ID :: string
  rp_Fields :: "(string, string) gomap"

text \<open>The store client; its first argument is the approval id on the context of the call.\<close>

record 'w woocommerce =
  wc_findBySKU :: "string \<Rightarrow> string \<Rightarrow> 'w \<Rightarrow> 'w \<times> (net_err + remote_product option)"
  wc_update :: "string \<Rightarrow> string \<Rightarrow> (string, string) gomap \<Rightarrow> 'w \<Rightarrow> 'w \<times> (net_err + remote_product)"
  wc_create :: "string \<Rightarrow> (string, string) gomap \<Rightarrow> 'w \<Rightarrow> 'w \<times> (net_err + remote_product)"

record gate =
  g_DryRun :: bool
  g_LeaseTTL :: duration
  g_Owner :: string

record publish_request =
  rq_WorkflowID :: string
  rq_TenantID :: string
  rq_ProductID :: string
  rq_SKU :: string
  rq_Fields :: "(string, string) gomap"

text \<open>
  The world of a publish: the durable store, the remote store, and the calls made through the
  port so far, each with the approval it carried and whether it succeeded.
\<close>

datatype remote_call =
    CallFind string string bool
  | CallUpdate string string bool
  | CallCreate string "(string, string) gomap" bool

record ('s, 'w) gate_world =
  gw_store :: 's
  gw_remote :: 'w
  gw_calls :: "remote_call list"

subsection \<open>Publish\<close>

definition gate_ttl :: "gate \<Rightarrow> duration" where
  "gate_ttl g = (if g_LeaseTTL g = 0 then 60 * time_second else g_LeaseTTL g)"

definition claim_args_of :: "(string \<Rightarrow> string) \<Rightarrow> gate \<Rightarrow> publish_request \<Rightarrow> string \<Rightarrow> claim_args" where
  "claim_args_of sha g req k =
     \<lparr>ca_key = k, ca_tenantID = rq_TenantID req, ca_workflowID = rq_WorkflowID req,
      ca_productID = rq_ProductID req, ca_sku = rq_SKU req,
      ca_fingerprint = fingerprint sha (rq_Fields req), ca_owner = g_Owner g, ca_ttl = gate_ttl g\<rparr>"

definition create_fields :: "publish_request \<Rightarrow> (string, string) gomap" where
  "create_fields req = mput ''sku'' (rq_SKU req) (rq_Fields req)"

definition done_result :: "write_kind \<Rightarrow> string \<Rightarrow> write_result" where
  "done_result k rid = \<lparr>wr_WriteKind = k, wr_RemoteID = rid, wr_Status = Completed\<rparr>"

text \<open>The three remote calls, recorded.\<close>

definition call_find where
  "call_find wc req w =
     (let (r, res) = wc_findBySKU wc (rq_WorkflowID req) (rq_SKU req) (gw_remote w)
      in (w\<lparr>gw_remote := r, gw_calls := gw_calls w @ [CallFind (rq_WorkflowID req) (rq_SKU req) (is_ok res)]\<rparr>, res))"

definition call_update where
  "call_update wc req rid w =
     (let (r, res) = wc_update wc (rq_WorkflowID req) rid (rq_Fields req) (gw_remote w)
      in (w\<lparr>gw_remote := r, gw_calls := gw_calls w @ [CallUpdate (rq_WorkflowID req) rid (is_ok res)]\<rparr>, res))"

definition call_create where
  "call_create wc req w =
     (let (r, res) = wc_create wc (rq_WorkflowID req) (create_fields req) (gw_remote w)
      in (w\<lparr>gw_remote := r, gw_calls := gw_calls w @ [CallCreate (rq_WorkflowID req) (create_fields req) (is_ok res)]\<rparr>, res))"

definition gate_complete where
  "gate_complete st k kind rid w =
     (let (s, res) = gs_complete st k Completed kind rid (gw_store w)
      in (w\<lparr>gw_store := s\<rparr>, case res of Err e \<Rightarrow> Err e | Ok _ \<Rightarrow> Ok (done_result kind rid)))"

definition gate_fail where
  "gate_fail st k err w = (w\<lparr>gw_store := fst (gs_fail st k (gw_store w))\<rparr>, Err (ErrRemote (classifyRemoteErr err)))"

text \<open>What follows a successful claim of the key \<open>k\<close>.\<close>

definition gate_write ::
  "'s gate_store \<Rightarrow> 'w woocommerce \<Rightarrow> gate \<Rightarrow> publish_request \<Rightarrow> string \<Rightarrow>
   ('s, 'w) gate_world \<Rightarrow> ('s, 'w) gate_world \<times> (gate_error + write_result)" where
  "gate_write st wc g req k w1 =
     (if g_DryRun g then
        (let (s, res) = gs_complete st k DryRunDone KindDryRun [] (gw_store w1)
         in (w1\<lparr>gw_store := s\<rparr>,
             case res of Err e \<Rightarrow> Err e
             | Ok _ \<Rightarrow> Ok \<lparr>wr_WriteKind = KindDryRun, wr_RemoteID = [], wr_Status = DryRunDone\<rparr>))
      else
      (case call_find wc req w1 of
        (w2, Err e) \<Rightarrow> gate_fail st k e w2
      | (w2, Ok (Some live)) \<Rightarrow>
          if matches (rp_Fields live) (rq_Fields req) then gate_complete st k KindNone (rp_ID live) w2
          else (case call_update wc req (rp_ID live) w2 of
            (w3, Err e) \<Rightarrow> gate_fail st k e w3
          | (w3, Ok updated) \<Rightarrow> gate_complete st k KindUpdate (rp_ID updated) w3)
      | (w2, Ok None) \<Rightarrow>
          (case call_create wc req w2 of
            (w3, Err e) \<Rightarrow> gate_fail st k e w3
          | (w3, Ok created) \<Rightarrow> gate_complete st k KindCreate (rp_ID created) w3)))"

definition publish ::
  "(string \<Rightarrow> string) \<Rightarrow> 's gate_store \<Rightarrow> 'w woocommerce \<Rightarrow> gate \<Rightarrow> publish_request \<Rightarrow>
   ('s, 'w) gate_world \<Rightarrow> ('s, 'w) gate_world \<times> (gate_error + write_result)" where
  "publish sha st wc g req w =
     (case gs_approvalFor st (rq_WorkflowID req) (gw_store w) of
        Err e \<Rightarrow> (w, Err e)
      | Ok dec \<Rightarrow>
      if \<not> dec_Approved dec then (w, Err ErrRejected)
      else case key sha (rq_ProductID req) (rq_Fields req) of
        Err e \<Rightarrow> (w, Err e)
      | Ok k \<Rightarrow>
      (case gs_claim st (claim_args_of sha g req k) (gw_store w) of
        (s, Err e) \<Rightarrow>
          (w\<lparr>gw_store := s\<rparr>, if e = ErrAlreadyCompleted then Ok (done_result KindNone []) else Err e)
      | (s, Ok _) \<Rightarrow> gate_write st wc g req k (w\<lparr>gw_store := s\<rparr>)))"

subsection \<open>The Postgres store\<close>

record ledger_row =
  lr_tenant :: string
  lr_workflow :: string
  lr_product :: string
  lr_sku :: string
  lr_fingerprint :: string
  lr_status :: ledger_status
  lr_remote :: "string option"
  lr_kind :: "write_kind option"
  lr_attempts :: int
  lr_owner :: "string option"
  lr_until :: "gotime option"
  lr_completedAt :: "gotime option"

text \<open>The two tables, keyed by their primary keys, and \<open>now()\<close> of the database.\<close>

record pg_state =
  pg_approvals :: "(string, decision) gomap"
  pg_ledger :: "(string, ledger_row) gomap"
  pg_clock :: gotime

definition pg_approvalFor :: "string \<Rightarrow> pg_state \<Rightarrow> gate_error + decision" where
  "pg_approvalFor wid s = (case mget (pg_approvals s) wid of None \<Rightarrow> Err ErrNoApproval | Some d \<Rightarrow> Ok d)"

definition pg_recordApproval ::
  "(string \<Rightarrow> string option) \<Rightarrow> decision \<Rightarrow> pg_state \<Rightarrow> pg_state \<times> (gate_error + decision \<times> bool)" where
  "pg_recordApproval uid d s =
     (case uid (dec_ProductID d) of
        None \<Rightarrow> (s, Err ErrDB)
      | Some p \<Rightarrow>
          (case mget (pg_approvals s) (dec_WorkflowID d) of
             None \<Rightarrow> (s\<lparr>pg_approvals := mput (dec_WorkflowID d) (d\<lparr>dec_ProductID := p\<rparr>) (pg_approvals s)\<rparr>,
                     Ok (d, True))
           | Some _ \<Rightarrow>
               (case pg_approvalFor (dec_WorkflowID d) s of
                  Err e \<Rightarrow> (s, Err e)
                | Ok stored \<Rightarrow> (s, Ok (stored, False)))))"

text \<open>The three statements of \<open>Claim\<close>: the insert, the claiming update, the distinguishing read.\<close>

definition claim_insert ::
  "(string \<Rightarrow> string option) \<Rightarrow> claim_args \<Rightarrow> pg_state \<Rightarrow> pg_state \<times> (gate_error + unit)" where
  "claim_insert uid a s =
     (case uid (ca_productID a) of
        None \<Rightarrow> (s, Err ErrDB)
      | Some p \<Rightarrow>
          if mget (pg_ledger s) (ca_key a) \<noteq> None then (s, Ok ())
          else if mget (pg_approvals s) (ca_workflowID a) = None then (s, Err ErrDB)
          else (s\<lparr>pg_ledger := mput (ca_key a)
                 \<lparr>lr_tenant = ca_tenantID a, lr_workflow = ca_workflowID a, lr_product = p,
                  lr_sku = ca_sku a, lr_fingerprint = ca_fingerprint a, lr_status = InProgress,
                  lr_remote = None, lr_kind = None, lr_attempts = 1, lr_owner = Some (ca_owner a),
                  lr_until = Some (pg_clock s + ca_ttl a), lr_completedAt = None\<rparr> (pg_ledger s)\<rparr>, Ok ()))"

definition lease_free :: "gotime \<Rightarrow> string \<Rightarrow> ledger_row \<Rightarrow> bool" where
  "lease_free now o' r \<longleftrightarrow>
     lr_status r \<noteq> Completed \<and>
     (case lr_until r of None \<Rightarrow> True | Some u \<Rightarrow> u < now \<or> lr_owner r = Some o')"

definition claim_update :: "claim_args \<Rightarrow> pg_state \<Rightarrow> pg_state \<times> bool" where
  "claim_update a s =
     (case mget (pg_ledger s) (ca_key a) of
        None \<Rightarrow> (s, False)
      | Some r \<Rightarrow>
          if lease_free (pg_clock s) (ca_owner a) r
          then (s\<lparr>pg_ledger := mput (ca_key a)
                 (r\<lparr>lr_attempts := lr_attempts r + 1, lr_status := InProgress,
                    lr_owner := Some (ca_owner a), lr_until := Some (pg_clock s + ca_ttl a)\<rparr>)
                 (pg_ledger s)\<rparr>, True)
          else (s, False))"

definition claim_select :: "string \<Rightarrow> pg_state \<Rightarrow> gate_error" where
  "claim_select k s =
     (case mget (pg_ledger s) k of
        None \<Rightarrow> ErrDB
      | Some r \<Rightarrow> if lr_status r = Completed then ErrAlreadyCompleted else ErrLeaseHeld)"

definition pg_claim ::
  "(string \<Rightarrow> string option) \<Rightarrow> claim_args \<Rightarrow> pg_state \<Rightarrow> pg_state \<times> (gate_error + unit)" where
  "pg_claim uid a s =
     (case claim_insert uid a s of
        (s1, Err e) \<Rightarrow> (s1, Err e)
      | (s1, Ok _) \<Rightarrow>
          (case claim_update a s1 of
             (s2, True) \<Rightarrow> (s2, Ok ())
           | (s2, False) \<Rightarrow> (s2, Err (claim_select (ca_key a) s2))))"

definition nullable :: "string \<Rightarrow> string option" where
  "nullable s = (if s = [] then None else Some s)"

definition upd_row :: "string \<Rightarrow> (ledger_row \<Rightarrow> ledger_row) \<Rightarrow> pg_state \<Rightarrow> pg_state" where
  "upd_row k f s =
     (case mget (pg_ledger s) k of None \<Rightarrow> s | Some r \<Rightarrow> s\<lparr>pg_ledger := mput k (f r) (pg_ledger s)\<rparr>)"

definition pg_complete ::
  "string \<Rightarrow> ledger_status \<Rightarrow> write_kind \<Rightarrow> string \<Rightarrow> pg_state \<Rightarrow> pg_state \<times> (gate_error + unit)" where
  "pg_complete k status kind rid s =
     (upd_row k (\<lambda>r. r\<lparr>lr_status := status, lr_kind := Some kind, lr_remote := nullable rid,
          lr_completedAt := Some (pg_clock s), lr_owner := None, lr_until := None\<rparr>) s, Ok ())"

definition pg_fail :: "string \<Rightarrow> pg_state \<Rightarrow> pg_state \<times> (gate_error + unit)" where
  "pg_fail k s = (upd_row k (\<lambda>r. r\<lparr>lr_status := Failed, lr_owner := None, lr_until := None\<rparr>) s, Ok ())"

definition pg_store :: "(string \<Rightarrow> string option) \<Rightarrow> pg_state gate_store" where
  "pg_store uid =
     \<lparr>gs_recordApproval = pg_recordApproval uid, gs_approvalFor = pg_approvalFor,
      gs_claim = pg_claim uid, gs_complete = pg_complete, gs_fail = pg_fail\<rparr>"

subsection \<open>What the gate relies on\<close>

text \<open>
  The contract of the \<open>Store\<close> interface that \<open>Publish\<close> needs: \<open>appr\<close> are the recorded
  decisions, \<open>completed\<close> the keys whose row is completed.
\<close>

locale durable_store =
  fixes st :: "'s gate_store"
    and appr :: "'s \<Rightarrow> string \<Rightarrow> decision option"
    and completed :: "'s \<Rightarrow> string \<Rightarrow> bool"
  assumes approvalFor:
      "gs_approvalFor st i s = (case appr s i of None \<Rightarrow> Err ErrNoApproval | Some d \<Rightarrow> Ok d)"
    and record_keeps: "appr s i = Some d \<Longrightarrow> appr (fst (gs_recordApproval st d' s)) i = Some d"
    and claim_appr: "appr (fst (gs_claim st a s)) = appr s"
    and complete_appr: "appr (fst (gs_complete st k ls kind rid s)) = appr s"
    and fail_appr: "appr (fst (gs_fail st k s)) = appr s"
    and claim_done:
      "completed s (ca_key a) \<Longrightarrow>
       gs_claim st a s \<in> {(s, Err ErrAlreadyCompleted), (s, Err ErrDB)}"
    and claim_already: "gs_claim st a s = (s1, Err ErrAlreadyCompleted) \<Longrightarrow> completed s1 (ca_key a)"
    and complete_done:
      "gs_claim st a s = (s1, Ok ()) \<Longrightarrow>
       gs_complete st (ca_key a) Completed kind rid s1 = (s2, Ok ()) \<Longrightarrow> completed s2 (ca_key a)"
    and record_completed: "completed (fst (gs_recordApproval st d' s)) = completed s"
    and claim_other: "j \<noteq> ca_key a \<Longrightarrow> completed (fst (gs_claim st a s)) j = completed s j"
    and complete_other: "j \<noteq> k \<Longrightarrow> completed (fst (gs_complete st k ls kind rid s)) j = completed s j"
    and fail_other: "j \<noteq> k \<Longrightarrow> completed (fst (gs_fail st k s)) j = completed s j"
begin

lemma gate_write_appr: "appr (gw_store (fst (gate_write st wc g req k w))) = appr (gw_store w)"
  by (auto simp: gate_write_def gate_fail_def gate_complete_def call_find_def call_update_def
      call_create_def Let_def complete_appr fail_appr split: prod.split sum.split option.split)
    (metis complete_appr fst_conv)+

end

definition call_approval :: "remote_call \<Rightarrow> string" where
  "call_approval c = (case c of CallFind a _ _ \<Rightarrow> a | CallUpdate a _ _ \<Rightarrow> a | CallCreate a _ _ \<Rightarrow> a)"

lemma gate_write_calls:
  "\<exists>cs. gw_calls (fst (gate_write st wc g req k w)) = gw_calls w @ cs
      \<and> (\<forall>c \<in> set cs. call_approval c = rq_WorkflowID req)"
  by (auto simp: gate_write_def gate_fail_def gate_complete_def call_find_def call_update_def
      call_create_def Let_def call_approval_def split: prod.split sum.split option.split)

context durable_store
begin

lemma publish_appr: "appr (gw_store (fst (publish sha st wc g req w))) = appr (gw_store w)"
  using claim_appr [of "claim_args_of sha g req k" "gw_store w" for k]
  by (auto simp: publish_def gate_write_appr split: prod.split sum.split) (metis fst_conv)+

lemma publish_closed:
  assumes "case appr (gw_store w) (rq_WorkflowID req) of None \<Rightarrow> True | Some d \<Rightarrow> \<not> dec_Approved d"
  shows "\<exists>e. publish sha st wc g req w = (w, Err e)"
  using assms by (auto simp: publish_def approvalFor split: option.splits)

lemma publish_calls:
  "\<exists>cs. gw_calls (fst (publish sha st wc g req w)) = gw_calls w @ cs
      \<and> (\<forall>c \<in> set cs. call_approval c = rq_WorkflowID req
           \<and> (\<exists>d. appr (gw_store w) (rq_WorkflowID req) = Some d \<and> dec_Approved d))"
proof (cases "case appr (gw_store w) (rq_WorkflowID req) of None \<Rightarrow> True | Some d \<Rightarrow> \<not> dec_Approved d")
  case True
  then show ?thesis using publish_closed [OF True, of sha wc g] by auto
next
  case False
  then obtain d where d: "appr (gw_store w) (rq_WorkflowID req) = Some d" "dec_Approved d"
    by (auto split: option.splits)
  have "\<exists>cs. gw_calls (fst (publish sha st wc g req w)) = gw_calls w @ cs
      \<and> (\<forall>c \<in> set cs. call_approval c = rq_WorkflowID req)"
  proof (cases "key sha (rq_ProductID req) (rq_Fields req)")
    case (Inr k)
    obtain s c where c: "gs_claim st (claim_args_of sha g req k) (gw_store w) = (s, c)" by force
    show ?thesis
    proof (cases c)
      case (Inr u)
      then have "publish sha st wc g req w = gate_write st wc g req k (w\<lparr>gw_store := s\<rparr>)"
        using d c \<open>key _ _ _ = Inr k\<close> by (simp add: publish_def approvalFor)
      then show ?thesis using gate_write_calls [of st wc g req k "w\<lparr>gw_store := s\<rparr>"] by simp
    qed (use d c Inr in \<open>simp add: publish_def approvalFor\<close>)
  qed (use d in \<open>simp add: publish_def approvalFor\<close>)
  then show ?thesis using d by blast
qed

lemma gate_write_other:
  "j \<noteq> k \<Longrightarrow> completed (gw_store (fst (gate_write st wc g req k w))) j = completed (gw_store w) j"
  by (auto simp: gate_write_def gate_fail_def gate_complete_def call_find_def call_update_def
      call_create_def Let_def complete_other fail_other split: prod.split sum.split option.split)
    (metis complete_other fst_conv)+

text \<open>A key that is completed is not written again, whoever asks.\<close>

lemma publish_completed:
  assumes "key sha (rq_ProductID req) (rq_Fields req) = Ok k" "completed (gw_store w) k"
  shows "\<exists>res. publish sha st wc g req w = (w, res) \<and> (\<forall>r. res = Ok r \<longrightarrow> wr_WriteKind r = KindNone)"
  using claim_done [of "gw_store w" "claim_args_of sha g req k"] assms
  by (auto simp: publish_def approvalFor claim_args_of_def done_result_def split: option.split)

lemma publish_keeps_completed:
  assumes "completed (gw_store w) j"
  shows "completed (gw_store (fst (publish sha st wc g req w))) j"
proof (cases "key sha (rq_ProductID req) (rq_Fields req) = Ok j")
  case True
  then show ?thesis using publish_completed [OF True assms, of wc g] assms by auto
next
  case False
  have "completed (fst (gs_claim st (claim_args_of sha g req k) (gw_store w))) j"
    if "key sha (rq_ProductID req) (rq_Fields req) = Ok k" for k
    using claim_other [of j "claim_args_of sha g req k" "gw_store w"] that False assms
    by (simp add: claim_args_of_def)
  then show ?thesis using False assms
    by (auto simp: publish_def approvalFor gate_write_other split: option.split sum.split prod.split)
      (metis fst_conv gate_write_other gate_world.select_convs(1) gate_world.simps(7))?
qed

lemma gate_write_completes:
  assumes "gs_claim st a s = (gw_store w, Ok ())" "ca_key a = k"
    and "gate_write st wc g req k w = (w', Ok r)" "\<not> g_DryRun g"
  shows "completed (gw_store w') k"
proof -
  have fin: "completed (gw_store w') k"
    if "gate_complete st k kind rid x = (w', Ok r)" "gw_store x = gw_store w" for kind rid x
    using that complete_done [OF assms(1)] assms(2)
    by (auto simp: gate_complete_def split: prod.splits sum.splits)
  obtain w2 f where f: "call_find wc req w = (w2, f)" by force
  then have s2: "gw_store w2 = gw_store w" by (auto simp: call_find_def split: prod.splits)
  show ?thesis
  proof (cases f)
    case (Inr live)
    show ?thesis
    proof (cases live)
      case None
      obtain w3 c where c: "call_create wc req w2 = (w3, c)" by force
      then have "gw_store w3 = gw_store w" using s2 by (auto simp: call_create_def split: prod.splits)
      then show ?thesis using assms(3,4) f Inr None c fin
        by (auto simp: gate_write_def gate_fail_def split: sum.splits)
    next
      case (Some l)
      obtain w3 c where c: "call_update wc req (rp_ID l) w2 = (w3, c)" by force
      then have "gw_store w3 = gw_store w" using s2 by (auto simp: call_update_def split: prod.splits)
      then show ?thesis using assms(3,4) f Inr Some c fin s2
        by (auto simp: gate_write_def gate_fail_def split: sum.splits if_splits)
    qed
  qed (use assms(3,4) f in \<open>simp add: gate_write_def gate_fail_def\<close>)
qed

lemma publish_success_completes:
  assumes "publish sha st wc g req w = (w', Ok r)" "\<not> g_DryRun g"
  shows "\<exists>k. key sha (rq_ProductID req) (rq_Fields req) = Ok k \<and> completed (gw_store w') k"
proof -
  from assms(1) obtain dec k where k: "key sha (rq_ProductID req) (rq_Fields req) = Ok k"
    and rest: "(case gs_claim st (claim_args_of sha g req k) (gw_store w) of
        (s, Err e) \<Rightarrow>
          (w\<lparr>gw_store := s\<rparr>, if e = ErrAlreadyCompleted then Ok (done_result KindNone []) else Err e)
      | (s, Ok _) \<Rightarrow> gate_write st wc g req k (w\<lparr>gw_store := s\<rparr>)) = (w', Ok r)"
    unfolding publish_def by (auto split: sum.splits if_splits)
  have ck: "ca_key (claim_args_of sha g req k) = k" by (simp add: claim_args_of_def)
  obtain s c where c: "gs_claim st (claim_args_of sha g req k) (gw_store w) = (s, c)" by force
  show ?thesis
  proof (cases c)
    case (Inl e)
    then show ?thesis using rest c k claim_already [of "claim_args_of sha g req k" "gw_store w" s] ck
      by (auto split: if_splits)
  next
    case (Inr u)
    then have "gs_claim st (claim_args_of sha g req k) (gw_store w) = (gw_store (w\<lparr>gw_store := s\<rparr>), Ok ())"
      using c by simp
    from gate_write_completes [OF this ck _ assms(2)] show ?thesis using rest c Inr k by auto
  qed
qed

end

subsection \<open>The Postgres store keeps the contract\<close>

definition pg_appr :: "pg_state \<Rightarrow> string \<Rightarrow> decision option" where
  "pg_appr s = mget (pg_approvals s)"

definition pg_completed :: "pg_state \<Rightarrow> string \<Rightarrow> bool" where
  "pg_completed s k =
     (case mget (pg_ledger s) k of None \<Rightarrow> False | Some r \<Rightarrow> lr_status r = Completed)"

lemma upd_row_simps [simp]:
  "pg_approvals (upd_row k f s) = pg_approvals s" "pg_clock (upd_row k f s) = pg_clock s"
  "mget (pg_ledger (upd_row k f s)) j = (if j = k then map_option f (mget (pg_ledger s) k) else mget (pg_ledger s) j)"
  by (auto simp: upd_row_def split: option.split)

lemma claim_insert_simps [simp]:
  "pg_approvals (fst (claim_insert uid a s)) = pg_approvals s"
  "pg_clock (fst (claim_insert uid a s)) = pg_clock s"
  by (auto simp: claim_insert_def split: option.split)

lemma claim_update_simps [simp]:
  "pg_approvals (fst (claim_update a s)) = pg_approvals s"
  "pg_clock (fst (claim_update a s)) = pg_clock s"
  by (auto simp: claim_update_def split: option.split)

lemma pg_claim_Ok:
  assumes "pg_claim uid a s = (s', Ok u)"
  shows "\<exists>r. mget (pg_ledger s') (ca_key a) = Some r \<and> lr_status r = InProgress
    \<and> lr_owner r = Some (ca_owner a) \<and> lr_until r = Some (pg_clock s + ca_ttl a)"
proof -
  from assms obtain s1 where i: "claim_insert uid a s = (s1, Ok ())" and u: "claim_update a s1 = (s', True)"
    by (auto simp: pg_claim_def split: prod.splits sum.splits bool.splits)
  have "pg_clock s1 = pg_clock s" using claim_insert_simps(2) [of uid a s] i by simp
  then show ?thesis using u by (auto simp: claim_update_def split: option.splits if_splits)
qed

lemma pg_claim_approvals [simp]: "pg_approvals (fst (pg_claim uid a s)) = pg_approvals s"
proof -
  obtain s1 c where i: "claim_insert uid a s = (s1, c)" by force
  obtain s2 b where u: "claim_update a s1 = (s2, b)" by force
  have "pg_approvals s1 = pg_approvals s" "pg_approvals s2 = pg_approvals s1"
    using claim_insert_simps(1) [of uid a s] i claim_update_simps(1) [of a s1] u by simp_all
  then show ?thesis using i u by (simp add: pg_claim_def split: sum.split bool.split)
qed

lemma pg_claim_completed:
  assumes "pg_completed s (ca_key a)"
  shows "pg_claim uid a s \<in> {(s, Err ErrAlreadyCompleted), (s, Err ErrDB)}"
  using assms
  by (auto simp: pg_completed_def pg_claim_def claim_insert_def claim_update_def lease_free_def
      claim_select_def split: option.splits)

lemma pg_claim_already:
  assumes "pg_claim uid a s = (s1, Err ErrAlreadyCompleted)"
  shows "pg_completed s1 (ca_key a)"
proof -
  have "claim_insert uid a s \<noteq> (s', Err ErrAlreadyCompleted)" for s'
    by (auto simp: claim_insert_def split: option.split)
  then have "claim_select (ca_key a) s1 = ErrAlreadyCompleted"
    using assms by (auto simp: pg_claim_def split: prod.splits sum.splits bool.splits)
  then show ?thesis by (auto simp: claim_select_def pg_completed_def split: option.splits if_splits)
qed

lemma pg_claim_other:
  assumes "j \<noteq> ca_key a"
  shows "pg_completed (fst (pg_claim uid a s)) j = pg_completed s j"
proof -
  have i: "mget (pg_ledger (fst (claim_insert uid a x))) j = mget (pg_ledger x) j" for x
    using assms by (auto simp: claim_insert_def split: option.split)
  have u: "mget (pg_ledger (fst (claim_update a x))) j = mget (pg_ledger x) j" for x
    using assms by (auto simp: claim_update_def split: option.split)
  obtain s1 c where c: "claim_insert uid a s = (s1, c)" by force
  obtain s2 b where b: "claim_update a s1 = (s2, b)" by force
  show ?thesis using i [of s] u [of s1] c b
    by (simp add: pg_claim_def pg_completed_def split: sum.split bool.split)
qed

interpretation pgs: durable_store "pg_store uid" pg_appr pg_completed for uid
proof (unfold_locales, goal_cases)
  case (6 s a)
  then show ?case using pg_claim_completed by (simp add: pg_store_def)
next
  case (7 a s s1)
  then show ?case using pg_claim_already by (simp add: pg_store_def)
next
  case (8 a s s1 kind rid s2)
  then show ?case using pg_claim_Ok [of uid a s s1 "()"]
    by (auto simp: pg_store_def pg_complete_def pg_completed_def)
next
  case (10 j a s)
  then show ?case using pg_claim_other by (simp add: pg_store_def)
qed (auto simp: pg_store_def pg_appr_def pg_approvalFor_def pg_recordApproval_def pg_complete_def
    pg_fail_def pg_completed_def split: option.split)

subsection \<open>Histories of the gate\<close>

text \<open>
  What can happen to the world of a gate, one whole operation after the other: a decision is
  recorded, a request is published, the database clock moves, the remote store changes by itself.
\<close>

datatype 'w gate_op =
    OpRecord decision
  | OpPublish gate publish_request
  | OpClock gotime
  | OpRemote 'w

fun gate_exec ::
  "(string \<Rightarrow> string) \<Rightarrow> (string \<Rightarrow> string option) \<Rightarrow> 'w woocommerce \<Rightarrow> 'w gate_op \<Rightarrow>
   (pg_state, 'w) gate_world \<Rightarrow> (pg_state, 'w) gate_world" where
  "gate_exec sha uid wc (OpRecord d) w = w\<lparr>gw_store := fst (pg_recordApproval uid d (gw_store w))\<rparr>"
| "gate_exec sha uid wc (OpPublish g req) w = fst (publish sha (pg_store uid) wc g req w)"
| "gate_exec sha uid wc (OpClock t) w = w\<lparr>gw_store := (gw_store w)\<lparr>pg_clock := t\<rparr>\<rparr>"
| "gate_exec sha uid wc (OpRemote r) w = w\<lparr>gw_remote := r\<rparr>"

definition gate_history where
  "gate_history sha uid wc ops w = fold (gate_exec sha uid wc) ops w"

lemma gate_history_simps [simp]:
  "gate_history sha uid wc [] w = w"
  "gate_history sha uid wc (p # ps) w = gate_history sha uid wc ps (gate_exec sha uid wc p w)"
  by (simp_all add: gate_history_def)

lemma record_decision_final:
  "pg_appr s i = Some d \<Longrightarrow> pg_appr (fst (pg_recordApproval uid d' s)) i = Some d"
  using pgs.record_keeps [where uid = uid] by (simp add: pg_store_def)

lemma exec_decision_final:
  "pg_appr (gw_store w) i = Some d \<Longrightarrow> pg_appr (gw_store (gate_exec sha uid wc p w)) i = Some d"
proof (cases p)
  case (OpPublish g req)
  then show "pg_appr (gw_store w) i = Some d \<Longrightarrow> ?thesis" by (simp add: pgs.publish_appr)
qed (simp_all add: record_decision_final, simp add: pg_appr_def)

lemma history_decision_final:
  "pg_appr (gw_store w) i = Some d \<Longrightarrow> pg_appr (gw_store (gate_history sha uid wc ps w)) i = Some d"
  by (induction ps arbitrary: w) (simp_all add: exec_decision_final)

lemma exec_keeps_completed:
  "pg_completed (gw_store w) k \<Longrightarrow> pg_completed (gw_store (gate_exec sha uid wc p w)) k"
proof (cases p)
  case (OpRecord d)
  then show "pg_completed (gw_store w) k \<Longrightarrow> ?thesis"
    using pgs.record_completed [where uid = uid] by (simp add: pg_store_def)
next
  case (OpPublish g req)
  then show "pg_completed (gw_store w) k \<Longrightarrow> ?thesis" by (simp add: pgs.publish_keeps_completed)
qed (simp_all add: pg_completed_def)

lemma history_keeps_completed:
  "pg_completed (gw_store w) k \<Longrightarrow> pg_completed (gw_store (gate_history sha uid wc ps w)) k"
  by (induction ps arbitrary: w) (simp_all add: exec_keeps_completed)

definition call_approved :: "pg_state \<Rightarrow> remote_call \<Rightarrow> bool" where
  "call_approved s c = (case pg_approvalFor (call_approval c) s of Err _ \<Rightarrow> False | Ok d \<Rightarrow> dec_Approved d)"

lemma call_approved_iff: "call_approved s c \<longleftrightarrow> (\<exists>d. pg_appr s (call_approval c) = Some d \<and> dec_Approved d)"
  by (simp add: call_approved_def pg_approvalFor_def pg_appr_def split: option.split)

lemma exec_calls_approved:
  assumes "list_all (call_approved (gw_store w)) (gw_calls w)"
  shows "list_all (call_approved (gw_store (gate_exec sha uid wc p w))) (gw_calls (gate_exec sha uid wc p w))"
proof -
  have old: "list_all (call_approved (gw_store (gate_exec sha uid wc p w))) (gw_calls w)"
    using assms exec_decision_final [of w _ _ sha uid wc p] unfolding list_all_iff call_approved_iff by blast
  show ?thesis
  proof (cases p)
    case (OpPublish g req)
    obtain cs where cs: "gw_calls (gate_exec sha uid wc p w) = gw_calls w @ cs"
      "\<forall>c \<in> set cs. call_approval c = rq_WorkflowID req
         \<and> (\<exists>d. pg_appr (gw_store w) (rq_WorkflowID req) = Some d \<and> dec_Approved d)"
      using pgs.publish_calls [of sha uid wc g req w] OpPublish by auto
    then have "list_all (call_approved (gw_store (gate_exec sha uid wc p w))) cs"
      using exec_decision_final [of w _ _ sha uid wc p] unfolding list_all_iff call_approved_iff by metis
    then show ?thesis using cs(1) old by simp
  qed (use old in simp_all)
qed

definition fresh_world :: "pg_state \<Rightarrow> 'w \<Rightarrow> (pg_state, 'w) gate_world" where
  "fresh_world s r = \<lparr>gw_store = s, gw_remote = r, gw_calls = []\<rparr>"

text \<open>C3: Nothing reaches the store without an approval. In every history of recorded
  decisions, publishes, clock moves and changes of the remote store, every call the gate has
  made to the remote store carries the id of a workflow whose recorded decision is, and stays,
  an approval.\<close>

theorem gate_only_approved_calls:
  "list_all (call_approved (gw_store (gate_history sha uid wc ops (fresh_world s r))))
     (gw_calls (gate_history sha uid wc ops (fresh_world s r)))"
proof -
  have "list_all (call_approved (gw_store (gate_history sha uid wc ops w))) (gw_calls (gate_history sha uid wc ops w))"
    if "list_all (call_approved (gw_store w)) (gw_calls w)" for w
    using that by (induction ops arbitrary: w) (simp_all add: exec_calls_approved)
  then show ?thesis by (simp add: fresh_world_def)
qed


text \<open>A store client that keeps a list of products, for the concrete runs.\<close>

definition sample_sha :: "string \<Rightarrow> string" where "sample_sha s = take 8 s"

definition shop_find :: "string \<Rightarrow> (string, string) gomap list \<Rightarrow> remote_product option" where
  "shop_find sku ps =
     map_option (\<lambda>i. \<lparr>rp_ID = format_nat i, rp_Fields = ps ! i\<rparr>)
       (List.find (\<lambda>i. mget (ps ! i) ''sku'' = Some sku) [0..<length ps])"

definition sample_shop :: "(string, string) gomap list woocommerce" where
  "sample_shop =
     \<lparr>wc_findBySKU = (\<lambda>a sku ps. (ps, Ok (shop_find sku ps))),
      wc_update = (\<lambda>a i fs ps. (ps[digits_val i := fs], Ok \<lparr>rp_ID = i, rp_Fields = fs\<rparr>)),
      wc_create = (\<lambda>a fs ps. (ps @ [fs], Ok \<lparr>rp_ID = format_nat (length ps), rp_Fields = fs\<rparr>))\<rparr>"

definition sample_request :: publish_request where
  "sample_request =
     \<lparr>rq_WorkflowID = ''wf-1'', rq_TenantID = [], rq_ProductID = ''p1'', rq_SKU = ''S'',
      rq_Fields = [(''name'', ''Band'')]\<rparr>"

definition sample_gate :: "string \<Rightarrow> gate" where
  "sample_gate o' = \<lparr>g_DryRun = False, g_LeaseTTL = 0, g_Owner = o'\<rparr>"

definition sample_approved :: pg_state where
  "sample_approved =
     \<lparr>pg_approvals = [(''wf-1'', \<lparr>dec_WorkflowID = ''wf-1'', dec_TenantID = [], dec_ProductID = ''p1'',
         dec_Approved = True, dec_Actor = ''jo'', dec_Reason = [], dec_UpdateID = ''u1''\<rparr>)],
      pg_ledger = [], pg_clock = 0\<rparr>"


subsection \<open>The key\<close>

lemma key_Ok:
  "key sha d f = Ok k \<longleftrightarrow>
     trim_space d \<noteq> [] \<and> CHR '':'' \<notin> set d \<and> f \<noteq> [] \<and> k = d @ CHR '':'' # hex_encode (sha (json_map f))"
  by (auto simp: key_def)

lemma split_at_colon:
  "CHR '':'' \<notin> set d \<Longrightarrow> CHR '':'' \<notin> set d' \<Longrightarrow> d @ CHR '':'' # x = d' @ CHR '':'' # y \<longleftrightarrow> d = d' \<and> x = y"
  by (metis Pair_inject option.inject split2_append)

lemma json_map_mget:
  assumes "mwf f" "mwf f'" "mget f = mget f'"
  shows "json_map f = json_map f'"
proof -
  have "set f = set f'" using assms(3) in_keys_mget [OF assms(1)] in_keys_mget [OF assms(2)] by auto
  then have "mset f = mset f'"
    using assms(1,2) by (simp add: mwf_def distinct_map set_eq_iff_mset_eq_distinct)
  moreover have "inj_on fst (set f')" using assms(2) by (simp add: mwf_def distinct_map)
  ultimately have "sort_key fst f = sort_key fst f'" by (intro sort_key_mset_unique) simp_all
  then show ?thesis by (simp add: json_map_def)
qed

text \<open>The idempotency key identifies the draft and its content. For field maps of valid
  UTF-8 strings, two keys are equal if the draft ids and the maps are (in whatever order the map
  is iterated); and equal keys mean equal draft ids and equal maps, or two different encodings
  with one SHA-256 value.\<close>

theorem key_identifies_content:
  assumes "key sha d f = Ok k" and "key sha d' f' = Ok k'"
    and "mwf f" and "mwf f'" and "valid_fields f" and "valid_fields f'"
  shows "(d = d' \<and> mget f = mget f' \<longrightarrow> k = k')
    \<and> (k = k' \<longrightarrow> d = d' \<and> (mget f = mget f'
         \<or> (json_map f \<noteq> json_map f' \<and> sha (json_map f) = sha (json_map f'))))"
proof -
  have "k = k' \<longleftrightarrow> d = d' \<and> sha (json_map f) = sha (json_map f')"
    using assms(1,2) by (auto simp: key_Ok split_at_colon hex_encode_inj)
  then show ?thesis using json_map_mget [OF assms(3,4)] json_map_inj [OF assms(5,6,3,4)] by auto
qed

theorem key_identifies_content_witness:
  "\<exists>k k'. key sample_sha ''p1'' [(''a'', ''1''), (''b'', ''2'')] = Ok k
     \<and> key sample_sha ''p1'' [(''b'', ''2''), (''a'', ''1'')] = Ok k' \<and> k = k'"
proof -
  let ?f = "[(''a'', ''1''), (''b'', ''2'')]" and ?g = "[(''b'', ''2''), (''a'', ''1'')]"
  have ev: "(case key sample_sha ''p1'' ?f of Ok _ \<Rightarrow> True | _ \<Rightarrow> False)
    \<and> (case key sample_sha ''p1'' ?g of Ok _ \<Rightarrow> True | _ \<Rightarrow> False)" by code_simp
  then obtain k k' where k: "key sample_sha ''p1'' ?f = Ok k" "key sample_sha ''p1'' ?g = Ok k'"
    by (auto split: sum.splits)
  have v: "valid_fields ?f" "valid_fields ?g" by code_simp+
  have m: "mwf ?f" "mwf ?g" by (simp_all add: mwf_def)
  have "mget ?f = mget ?g" by (auto simp: mget_def)
  with key_identifies_content [OF k m v] k show ?thesis by blast
qed

lemma json_invalid_byte: "0x80 \<le> byte b \<Longrightarrow> json_escape [b] = CHR 0x5C # ''ufffd''"
  by (subst json_escape.simps) (simp add: utf8_len_def rune_size_def Let_def)

text \<open>Bytes that are not UTF-8 are not part of the key. Two drafts whose field differs
  in a single byte above 127 have the same key, for every SHA-256, so once one of them is
  published the other is taken for already published.\<close>

theorem key_ignores_invalid_bytes:
  assumes "0x80 \<le> byte b" and "0x80 \<le> byte c"
  shows "key sha d [(n, [b])] = key sha d [(n, [c])]"
  using assms by (simp add: key_def json_map_def json_pair_def json_string_def json_invalid_byte)

theorem key_ignores_invalid_bytes_witness:
  "key sample_sha ''p1'' [(''name'', [CHR 0xFF])] = key sample_sha ''p1'' [(''name'', [CHR 0xC3])]"
  by (rule key_ignores_invalid_bytes) simp_all

subsection \<open>What an unreachable store means\<close>

text \<open>An unreachable store may have been written. When the connection breaks while the
  answer to the create is read, the gate reports the store as unreachable, although the remote
  store is the one the create left behind, and the row is released for a retry.\<close>

theorem unreachable_store_may_be_written:
  assumes "pg_approvalFor (rq_WorkflowID req) s = Ok dec" and "dec_Approved dec"
    and "uid (rq_ProductID req) \<noteq> None" and "key sha (rq_ProductID req) (rq_Fields req) = Ok k"
    and "mget (pg_ledger s) k = None" and "\<not> g_DryRun g"
    and "wc_findBySKU wc (rq_WorkflowID req) (rq_SKU req) r = (r, Ok None)"
    and "wc_create wc (rq_WorkflowID req) (create_fields req) r = (r', Err (UrlErr (Some (NetOp ''read'' e))))"
  shows "\<exists>w'. publish sha (pg_store uid) wc g req (fresh_world s r)
        = (w', Err (ErrRemote (StoreUnreachable (UrlErr (Some (NetOp ''read'' e))))))
      \<and> gw_remote w' = r' \<and> map_option lr_status (mget (pg_ledger (gw_store w')) k) = Some Failed"
proof -
  define a where "a = claim_args_of sha g req k"
  have a: "ca_key a = k" "ca_productID a = rq_ProductID req" "ca_workflowID a = rq_WorkflowID req"
    by (simp_all add: a_def claim_args_of_def)
  have ap: "mget (pg_approvals s) (rq_WorkflowID req) = Some dec"
    using assms(1) by (simp add: pg_approvalFor_def split: option.splits)
  have "\<exists>s' row. pg_claim uid a s = (s', Ok ()) \<and> mget (pg_ledger s') k = Some row"
    using assms(3,5) a ap by (auto simp: pg_claim_def claim_insert_def claim_update_def lease_free_def)
  then obtain s' row where c: "pg_claim uid a s = (s', Ok ())" "mget (pg_ledger s') k = Some row" by blast
  have u: "classifyRemoteErr (UrlErr (Some (NetOp ''read'' e))) = StoreUnreachable (UrlErr (Some (NetOp ''read'' e)))"
    by (simp add: classifyRemoteErr_def)
  show ?thesis
    using assms(1,2,4,6,7,8) c u
    by (simp add: publish_def fresh_world_def pg_store_def a_def [symmetric] gate_write_def call_find_def
        call_create_def gate_fail_def pg_fail_def)
qed

definition lossy_shop :: "(string, string) gomap list woocommerce" where
  "lossy_shop = sample_shop\<lparr>wc_create := (\<lambda>a fs ps. (ps @ [fs], Err (UrlErr (Some (NetOp ''read'' None)))))\<rparr>"

theorem unreachable_store_witness:
  "\<exists>w'. publish sample_sha (pg_store Some) lossy_shop (sample_gate ''a'') sample_request (fresh_world sample_approved [])
      = (w', Err (ErrRemote (StoreUnreachable (UrlErr (Some (NetOp ''read'' None)))))) \<and> length (gw_remote w') = 1"
proof -
  obtain k where k: "key sample_sha (rq_ProductID sample_request) (rq_Fields sample_request) = Ok k"
    by (auto simp: key_def sample_request_def trim_space_printable printable_def)
  have "pg_approvalFor (rq_WorkflowID sample_request) sample_approved
      = Ok (snd (hd (pg_approvals sample_approved)))"
    "dec_Approved (snd (hd (pg_approvals sample_approved)))" "\<not> g_DryRun (sample_gate ''a'')"
    by code_simp+
  from unreachable_store_may_be_written [OF this(1,2) _ k _ this(3), of Some lossy_shop "[]" "[create_fields sample_request]" None]
  show ?thesis
    by (auto simp: lossy_shop_def sample_shop_def shop_find_def sample_approved_def)
qed

end
