(* ===== verification/PublishWorkers.thy ===== *)
theory PublishWorkers
  imports PublishGate
begin

text \<open>
  The publish gate under concurrency. \<open>gate_step\<close> is \<open>Gate.Publish\<close> on the Postgres store, cut
  at every SQL statement and every remote call, so that several workers can interleave; run
  alone it is \<open>publish\<close>. A system is the shared world and the program counter of every worker;
  its events are a step of one worker, the restart of one (a crash, or a new attempt), the
  passing of time, and a recorded decision. A run is punctual if no worker acts on a claim
  after the lease it got with it has run out: the code never checks this itself.
\<close>

subsection \<open>The steps of a publish\<close>

datatype gate_pc =
    PcStart
  | PcInsert string
  | PcUpdate string
  | PcSelect string
  | PcDry string
  | PcFind string
  | PcUpdateRemote string string
  | PcCreate string
  | PcComplete string write_kind string
  | PcFail string net_err
  | PcDone "gate_error + write_result"

fun gate_step ::
  "(string \<Rightarrow> string) \<Rightarrow> (string \<Rightarrow> string option) \<Rightarrow> 'w woocommerce \<Rightarrow> gate \<Rightarrow> publish_request \<Rightarrow>
   gate_pc \<times> (pg_state, 'w) gate_world \<Rightarrow> gate_pc \<times> (pg_state, 'w) gate_world" where
  "gate_step sha uid wc g req (PcStart, w) =
     (case pg_approvalFor (rq_WorkflowID req) (gw_store w) of
        Err e \<Rightarrow> (PcDone (Err e), w)
      | Ok dec \<Rightarrow>
          if \<not> dec_Approved dec then (PcDone (Err ErrRejected), w)
          else case key sha (rq_ProductID req) (rq_Fields req) of
            Err e \<Rightarrow> (PcDone (Err e), w) | Ok k \<Rightarrow> (PcInsert k, w))"
| "gate_step sha uid wc g req (PcInsert k, w) =
     (let (s, res) = claim_insert uid (claim_args_of sha g req k) (gw_store w)
      in (case res of Err e \<Rightarrow> PcDone (Err e) | Ok _ \<Rightarrow> PcUpdate k, w\<lparr>gw_store := s\<rparr>))"
| "gate_step sha uid wc g req (PcUpdate k, w) =
     (let (s, claimed) = claim_update (claim_args_of sha g req k) (gw_store w)
      in (if \<not> claimed then PcSelect k else if g_DryRun g then PcDry k else PcFind k, w\<lparr>gw_store := s\<rparr>))"
| "gate_step sha uid wc g req (PcSelect k, w) =
     (let e = claim_select k (gw_store w)
      in (PcDone (if e = ErrAlreadyCompleted then Ok (done_result KindNone []) else Err e), w))"
| "gate_step sha uid wc g req (PcDry k, w) =
     (PcDone (Ok \<lparr>wr_WriteKind = KindDryRun, wr_RemoteID = [], wr_Status = DryRunDone\<rparr>),
      w\<lparr>gw_store := fst (pg_complete k DryRunDone KindDryRun [] (gw_store w))\<rparr>)"
| "gate_step sha uid wc g req (PcFind k, w) =
     (case call_find wc req w of
        (w', Err e) \<Rightarrow> (PcFail k e, w')
      | (w', Ok None) \<Rightarrow> (PcCreate k, w')
      | (w', Ok (Some live)) \<Rightarrow>
          (if matches (rp_Fields live) (rq_Fields req) then PcComplete k KindNone (rp_ID live)
           else PcUpdateRemote k (rp_ID live), w'))"
| "gate_step sha uid wc g req (PcUpdateRemote k rid, w) =
     (case call_update wc req rid w of
        (w', Err e) \<Rightarrow> (PcFail k e, w')
      | (w', Ok p) \<Rightarrow> (PcComplete k KindUpdate (rp_ID p), w'))"
| "gate_step sha uid wc g req (PcCreate k, w) =
     (case call_create wc req w of
        (w', Err e) \<Rightarrow> (PcFail k e, w')
      | (w', Ok p) \<Rightarrow> (PcComplete k KindCreate (rp_ID p), w'))"
| "gate_step sha uid wc g req (PcComplete k kind rid, w) =
     (PcDone (Ok (done_result kind rid)), w\<lparr>gw_store := fst (pg_complete k Completed kind rid (gw_store w))\<rparr>)"
| "gate_step sha uid wc g req (PcFail k e, w) =
     (PcDone (Err (ErrRemote (classifyRemoteErr e))), w\<lparr>gw_store := fst (pg_fail k (gw_store w))\<rparr>)"
| "gate_step sha uid wc g req (PcDone res, w) = (PcDone res, w)"

text \<open>The number of steps after which every publish is done: approval, three statements of
  the claim or two and at most two remote calls, and the final statement.\<close>

definition publish_steps :: nat where "publish_steps = 6"

definition gate_run where
  "gate_run sha uid wc g req n x = (gate_step sha uid wc g req ^^ n) x"

lemma gate_run_0 [simp]: "gate_run sha uid wc g req 0 x = x"
  by (simp add: gate_run_def)

lemma gate_run_Suc [simp]: "gate_run sha uid wc g req (Suc n) x = gate_run sha uid wc g req n (gate_step sha uid wc g req x)"
  by (simp add: gate_run_def funpow_swap1)

lemma gate_run_done [simp]: "gate_run sha uid wc g req n (PcDone r, w) = (PcDone r, w)"
  by (induction n) simp_all

lemma gate_run_write:
  "gate_run sha uid wc g req (Suc (Suc (Suc n))) (if g_DryRun g then PcDry k else PcFind k, w) =
     (PcDone (snd (gate_write (pg_store uid) wc g req k w)), fst (gate_write (pg_store uid) wc g req k w))"
  by (auto simp: gate_write_def pg_store_def pg_complete_def pg_fail_def gate_fail_def gate_complete_def
      Let_def split: prod.split sum.split option.split)

lemma claim_insert_error: "claim_insert uid a s \<noteq> (s', Err ErrAlreadyCompleted)"
  by (auto simp: claim_insert_def split: option.split)

lemma gate_run_claim:
  "gate_run sha uid wc g req (Suc (Suc (Suc (Suc (Suc 0))))) (PcInsert k, w) =
     (case pg_claim uid (claim_args_of sha g req k) (gw_store w) of
        (s, Err e) \<Rightarrow>
          (PcDone (if e = ErrAlreadyCompleted then Ok (done_result KindNone []) else Err e), w\<lparr>gw_store := s\<rparr>)
      | (s, Ok _) \<Rightarrow>
          (PcDone (snd (gate_write (pg_store uid) wc g req k (w\<lparr>gw_store := s\<rparr>))),
           fst (gate_write (pg_store uid) wc g req k (w\<lparr>gw_store := s\<rparr>))))"
proof -
  define a where "a = claim_args_of sha g req k"
  have k: "ca_key a = k" by (simp add: a_def claim_args_of_def)
  obtain s1 c where i: "claim_insert uid a (gw_store w) = (s1, c)" by force
  obtain s2 b where u: "claim_update a s1 = (s2, b)" by force
  show ?thesis
  proof (cases c)
    case (Inl e)
    then have "e \<noteq> ErrAlreadyCompleted" using i claim_insert_error by metis
    then show ?thesis using i Inl by (simp add: a_def [symmetric] pg_claim_def)
  next
    case (Inr x)
    have two: "gate_run sha uid wc g req (Suc (Suc (Suc (Suc (Suc 0))))) (PcInsert k, w) =
        gate_run sha uid wc g req (Suc (Suc (Suc 0)))
          (if \<not> b then PcSelect k else if g_DryRun g then PcDry k else PcFind k, w\<lparr>gw_store := s2\<rparr>)"
    proof -
      have "gate_step sha uid wc g req (PcInsert k, w) = (PcUpdate k, w\<lparr>gw_store := s1\<rparr>)"
        using i Inr by (simp add: a_def [symmetric])
      moreover have "gate_step sha uid wc g req (PcUpdate k, w\<lparr>gw_store := s1\<rparr>) =
          (if \<not> b then PcSelect k else if g_DryRun g then PcDry k else PcFind k, w\<lparr>gw_store := s2\<rparr>)"
        using u by (simp add: a_def [symmetric])
      ultimately show ?thesis by (simp only: gate_run_Suc)
    qed
    show ?thesis
    proof (cases b)
      case True
      then show ?thesis using i u Inr gate_run_write [of sha uid wc g req 0 k "w\<lparr>gw_store := s2\<rparr>"]
        unfolding two by (simp only: a_def [symmetric] pg_claim_def) simp
    next
      case False
      then show ?thesis using i u Inr k unfolding two by (simp add: a_def [symmetric] pg_claim_def)
    qed
  qed
qed

text \<open>The steps are the procedure. Run alone, a publish is finished after six steps, with
  the result and the world that \<open>Gate.Publish\<close> has; so it always returns.\<close>

theorem gate_steps_are_publish:
  "gate_run sha uid wc g req publish_steps (PcStart, w) =
     (PcDone (snd (publish sha (pg_store uid) wc g req w)), fst (publish sha (pg_store uid) wc g req w))"
proof -
  have n: "publish_steps = Suc (Suc (Suc (Suc (Suc (Suc 0)))))" by (simp add: publish_steps_def)
  have pg: "gs_approvalFor (pg_store uid) = pg_approvalFor" "gs_claim (pg_store uid) = pg_claim uid"
    by (simp_all add: pg_store_def)
  show ?thesis
  proof (cases "\<exists>dec k. pg_approvalFor (rq_WorkflowID req) (gw_store w) = Ok dec \<and> dec_Approved dec
      \<and> key sha (rq_ProductID req) (rq_Fields req) = Ok k")
    case True
    then obtain dec k where d: "pg_approvalFor (rq_WorkflowID req) (gw_store w) = Ok dec" "dec_Approved dec"
      "key sha (rq_ProductID req) (rq_Fields req) = Ok k" by blast
    then have "gate_step sha uid wc g req (PcStart, w) = (PcInsert k, w)" by simp
    then show ?thesis using d gate_run_claim [of sha uid wc g req k w]
      unfolding n gate_run_Suc [of _ _ _ _ _ "Suc (Suc (Suc (Suc (Suc 0))))"]
      by (simp add: publish_def pg del: gate_run_Suc split: prod.split sum.split)
  next
    case False
    then show ?thesis unfolding n
      by (auto simp: publish_def pg split: sum.split)
  qed
qed

subsection \<open>Several workers\<close>

record 'w gate_sys =
  sy_world :: "(pg_state, 'w) gate_world"
  sy_pcs :: "nat \<Rightarrow> gate_pc"

datatype sys_event = Work nat | Restart nat | ClockTo gotime | Decide decision

text \<open>The configuration of every worker and the request it is given.\<close>

record gate_fleet =
  fl_gate :: "nat \<Rightarrow> gate"
  fl_req :: "nat \<Rightarrow> publish_request"

fun sys_exec where
  "sys_exec sha uid wc fl (Work i) sy =
     (let (pc, w) = gate_step sha uid wc (fl_gate fl i) (fl_req fl i) (sy_pcs sy i, sy_world sy)
      in \<lparr>sy_world = w, sy_pcs = (sy_pcs sy)(i := pc)\<rparr>)"
| "sys_exec sha uid wc fl (Restart i) sy = sy\<lparr>sy_pcs := (sy_pcs sy)(i := PcStart)\<rparr>"
| "sys_exec sha uid wc fl (ClockTo t) sy =
     (let w = sy_world sy; s = gw_store w
      in sy\<lparr>sy_world := w\<lparr>gw_store := s\<lparr>pg_clock := max (pg_clock s) t\<rparr>\<rparr>\<rparr>)"
| "sys_exec sha uid wc fl (Decide d) sy =
     (let w = sy_world sy in sy\<lparr>sy_world := w\<lparr>gw_store := fst (pg_recordApproval uid d (gw_store w))\<rparr>\<rparr>)"

definition sys_run where
  "sys_run sha uid wc fl evs sy = fold (sys_exec sha uid wc fl) evs sy"

lemma sys_run_simps [simp]:
  "sys_run sha uid wc fl [] sy = sy"
  "sys_run sha uid wc fl (e # es) sy = sys_run sha uid wc fl es (sys_exec sha uid wc fl e sy)"
  by (simp_all add: sys_run_def)

text \<open>The key a worker has claimed, while it may still act on it.\<close>

fun claimed :: "gate_pc \<Rightarrow> string option" where
  "claimed (PcDry k) = Some k"
| "claimed (PcFind k) = Some k"
| "claimed (PcUpdateRemote k _) = Some k"
| "claimed (PcCreate k) = Some k"
| "claimed (PcComplete k _ _) = Some k"
| "claimed (PcFail k _) = Some k"
| "claimed _ = None"

definition holds_lease :: "string \<Rightarrow> string \<Rightarrow> pg_state \<Rightarrow> bool" where
  "holds_lease o' k s =
     (case mget (pg_ledger s) k of
        None \<Rightarrow> False
      | Some r \<Rightarrow> lr_owner r = Some o' \<and> (case lr_until r of None \<Rightarrow> False | Some u \<Rightarrow> pg_clock s \<le> u))"

fun timely :: "gate_fleet \<Rightarrow> sys_event \<Rightarrow> 'w gate_sys \<Rightarrow> bool" where
  "timely fl (Work i) sy =
     (case claimed (sy_pcs sy i) of
        None \<Rightarrow> True | Some k \<Rightarrow> holds_lease (g_Owner (fl_gate fl i)) k (gw_store (sy_world sy)))"
| "timely fl _ sy = True"

fun all_timely where
  "all_timely sha uid wc fl [] sy = True"
| "all_timely sha uid wc fl (e # es) sy =
     (timely fl e sy \<and> all_timely sha uid wc fl es (sys_exec sha uid wc fl e sy))"

definition successful_creates :: "remote_call list \<Rightarrow> nat" where
  "successful_creates cs = length (filter (\<lambda>c. case c of CallCreate _ _ True \<Rightarrow> True | _ \<Rightarrow> False) cs)"

text \<open>
  What is assumed of the store: a product it does not list under the SKU is not there, a
  successful create lists it, and neither writes nor look-ups take a listed product away.
\<close>

definition shop_reliable :: "'w woocommerce \<Rightarrow> string \<Rightarrow> ('w \<Rightarrow> bool) \<Rightarrow> bool" where
  "shop_reliable wc sku listed \<longleftrightarrow>
     (\<forall>a r. listed (fst (wc_findBySKU wc a sku r)) = listed r
          \<and> (snd (wc_findBySKU wc a sku r) = Ok None \<longrightarrow> \<not> listed r)) \<and>
     (\<forall>a i fs r. listed r \<longrightarrow> listed (fst (wc_update wc a i fs r))) \<and>
     (\<forall>a fs r. (listed r \<longrightarrow> listed (fst (wc_create wc a fs r)))
          \<and> (mget fs ''sku'' = Some sku \<and> is_ok (snd (wc_create wc a fs r)) \<longrightarrow> listed (fst (wc_create wc a fs r))))"

text \<open>The events of the other workers never give a worker the lease.\<close>

lemma lease_other_insert:
  "o' \<noteq> ca_owner a \<Longrightarrow> holds_lease o' k (fst (claim_insert uid a s)) \<Longrightarrow> holds_lease o' k s"
  by (auto simp: claim_insert_def holds_lease_def split: option.splits if_splits)

lemma lease_other_update:
  "o' \<noteq> ca_owner a \<Longrightarrow> holds_lease o' k (fst (claim_update a s)) \<Longrightarrow> holds_lease o' k s"
  by (auto simp: claim_update_def holds_lease_def split: option.splits if_splits)

lemma lease_complete: "holds_lease o' k (fst (pg_complete j ls kd rid s)) \<Longrightarrow> holds_lease o' k s"
  by (auto simp: pg_complete_def holds_lease_def split: option.splits if_splits)

lemma lease_fail: "holds_lease o' k (fst (pg_fail j s)) \<Longrightarrow> holds_lease o' k s"
  by (auto simp: pg_fail_def holds_lease_def split: option.splits if_splits)

lemma lease_unique: "holds_lease o' k s \<Longrightarrow> holds_lease o'' k s \<Longrightarrow> o' = o''"
  by (auto simp: holds_lease_def split: option.splits)

lemma calls_store:
  "call_find wc req w = (w', x) \<Longrightarrow> gw_store w' = gw_store w"
  "call_update wc req rid w = (w', y) \<Longrightarrow> gw_store w' = gw_store w"
  "call_create wc req w = (w', y) \<Longrightarrow> gw_store w' = gw_store w"
  by (auto simp: call_find_def call_update_def call_create_def split: prod.splits)

lemma step_lease:
  assumes "gate_step sha uid wc g req (pc, w) = (pc', w')" and "o' \<noteq> g_Owner g"
    and "holds_lease o' k (gw_store w')"
  shows "holds_lease o' k (gw_store w)"
proof (cases pc)
  case (PcInsert j)
  then show ?thesis using assms lease_other_insert [of o' "claim_args_of sha g req j"]
    by (auto simp: claim_args_of_def split: prod.splits) (metis fst_conv)
next
  case (PcUpdate j)
  then show ?thesis using assms lease_other_update [of o' "claim_args_of sha g req j"]
    by (auto simp: claim_args_of_def split: prod.splits)
next
  case (PcFind j)
  then show ?thesis using assms
    by (auto dest: calls_store split: prod.splits sum.splits option.splits)
next
  case (PcUpdateRemote j rid)
  then show ?thesis using assms
    by (auto dest: calls_store split: prod.splits sum.splits)
next
  case (PcCreate j)
  then show ?thesis using assms
    by (auto dest: calls_store split: prod.splits sum.splits)
qed (use assms in \<open>auto simp: Let_def dest: lease_complete lease_fail split: sum.splits if_splits\<close>)

text \<open>The key a worker is busy with, claimed or not.\<close>

fun pc_key :: "gate_pc \<Rightarrow> string option" where
  "pc_key (PcInsert k) = Some k"
| "pc_key (PcUpdate k) = Some k"
| "pc_key (PcSelect k) = Some k"
| "pc_key pc = claimed pc"

definition keys_inv :: "(string \<Rightarrow> string) \<Rightarrow> gate_fleet \<Rightarrow> 'w gate_sys \<Rightarrow> bool" where
  "keys_inv sha fl sy \<longleftrightarrow>
     (\<forall>i k. pc_key (sy_pcs sy i) = Some k \<longrightarrow>
        key sha (rq_ProductID (fl_req fl i)) (rq_Fields (fl_req fl i)) = Ok k)"

definition create_inv :: "gate_fleet \<Rightarrow> ('w \<Rightarrow> bool) \<Rightarrow> 'w gate_sys \<Rightarrow> bool" where
  "create_inv fl listed sy \<longleftrightarrow>
     successful_creates (gw_calls (sy_world sy)) \<le> 1
     \<and> (0 < successful_creates (gw_calls (sy_world sy)) \<longrightarrow> listed (gw_remote (sy_world sy)))
     \<and> (\<forall>i k. sy_pcs sy i = PcCreate k \<longrightarrow> holds_lease (g_Owner (fl_gate fl i)) k (gw_store (sy_world sy))
           \<longrightarrow> \<not> listed (gw_remote (sy_world sy)))"

fun remote_pc :: "gate_pc \<Rightarrow> bool" where
  "remote_pc (PcFind _) = True"
| "remote_pc (PcUpdateRemote _ _) = True"
| "remote_pc (PcCreate _) = True"
| "remote_pc _ = False"

lemma remote_pc_claimed: "remote_pc pc \<Longrightarrow> \<exists>k. claimed pc = Some k \<and> pc_key pc = Some k"
  by (cases pc) simp_all

lemma step_quiet:
  assumes "gate_step sha uid wc g req (pc, w) = (pc', w')" and "\<not> remote_pc pc"
  shows "gw_remote w' = gw_remote w \<and> gw_calls w' = gw_calls w \<and> pc' \<noteq> PcCreate k"
  using assms by (cases pc) (auto simp: Let_def split: sum.splits if_splits prod.splits)

lemma step_key:
  assumes "gate_step sha uid wc g req (pc, w) = (pc', w')"
    and "\<forall>k. pc_key pc = Some k \<longrightarrow> key sha (rq_ProductID req) (rq_Fields req) = Ok k"
  shows "\<forall>k. pc_key pc' = Some k \<longrightarrow> key sha (rq_ProductID req) (rq_Fields req) = Ok k"
  using assms by (cases pc) (auto simp: Let_def split: sum.splits if_splits prod.splits option.splits)

lemma step_remote:
  assumes "gate_step sha uid wc g req (pc, w) = (pc', w')" and "remote_pc pc"
    and "shop_reliable wc (rq_SKU req) listed"
    and "successful_creates (gw_calls w) \<le> 1"
    and "0 < successful_creates (gw_calls w) \<longrightarrow> listed (gw_remote w)"
    and "\<forall>k. pc = PcCreate k \<longrightarrow> \<not> listed (gw_remote w)"
  shows "gw_store w' = gw_store w \<and> successful_creates (gw_calls w') \<le> 1
    \<and> (0 < successful_creates (gw_calls w') \<longrightarrow> listed (gw_remote w'))
    \<and> (\<forall>k. pc' = PcCreate k \<longrightarrow> \<not> listed (gw_remote w'))"
proof (cases pc)
  case (PcFind k)
  obtain r res where f: "wc_findBySKU wc (rq_WorkflowID req) (rq_SKU req) (gw_remote w) = (r, res)" by force
  have "listed r = listed (gw_remote w)" "res = Ok None \<longrightarrow> \<not> listed (gw_remote w)"
    using assms(3) f unfolding shop_reliable_def by (metis fst_conv snd_conv)+
  then show ?thesis using assms(1,4,5) PcFind f
    by (auto simp: call_find_def successful_creates_def split: sum.splits option.splits if_splits)
next
  case (PcUpdateRemote k rid)
  obtain r res where f: "wc_update wc (rq_WorkflowID req) rid (rq_Fields req) (gw_remote w) = (r, res)" by force
  have "listed (gw_remote w) \<longrightarrow> listed r"
    using assms(3) f unfolding shop_reliable_def by (metis fst_conv)
  then show ?thesis using assms(1,4,5) PcUpdateRemote f
    by (auto simp: call_update_def successful_creates_def split: sum.splits)
next
  case (PcCreate k)
  obtain r res where f: "wc_create wc (rq_WorkflowID req) (create_fields req) (gw_remote w) = (r, res)" by force
  have no: "successful_creates (gw_calls w) = 0" using assms(5,6) PcCreate by auto
  have "mget (create_fields req) ''sku'' = Some (rq_SKU req)" by (simp add: create_fields_def)
  then have "is_ok res \<longrightarrow> listed r"
    using assms(3) f unfolding shop_reliable_def by (metis fst_conv snd_conv)
  then show ?thesis using assms(1) no PcCreate f
    by (auto simp: call_create_def successful_creates_def split: sum.splits)
qed (use assms(2) in simp_all)

definition same_draft :: "gate_fleet \<Rightarrow> publish_request \<Rightarrow> bool" where
  "same_draft fl req \<longleftrightarrow>
     (\<forall>i. rq_ProductID (fl_req fl i) = rq_ProductID req \<and> rq_SKU (fl_req fl i) = rq_SKU req
        \<and> rq_Fields (fl_req fl i) = rq_Fields req)"

lemma work_create_inv:
  assumes "inj (\<lambda>i. g_Owner (fl_gate fl i))" and "same_draft fl req"
    and "shop_reliable wc (rq_SKU req) listed"
    and "keys_inv sha fl sy" and "create_inv fl listed sy" and "timely fl (Work i) sy"
  shows "create_inv fl listed (sys_exec sha uid wc fl (Work i) sy)"
proof -
  let ?g = "fl_gate fl i" and ?w = "sy_world sy"
  obtain pc' w' where st: "gate_step sha uid wc ?g (fl_req fl i) (sy_pcs sy i, ?w) = (pc', w')" by force
  have sy': "sys_exec sha uid wc fl (Work i) sy = \<lparr>sy_world = w', sy_pcs = (sy_pcs sy)(i := pc')\<rparr>"
    using st by simp
  have lease: "holds_lease (g_Owner (fl_gate fl j)) k (gw_store ?w)"
    if "holds_lease (g_Owner (fl_gate fl j)) k (gw_store w')" "j \<noteq> i" for j k
    using step_lease [OF st _ that(1)] assms(1) that(2) by (metis injD)
  show ?thesis
  proof (cases "remote_pc (sy_pcs sy i)")
    case False
    from step_quiet [OF st False] have q: "gw_remote w' = gw_remote ?w" "gw_calls w' = gw_calls ?w"
      "\<And>k. pc' \<noteq> PcCreate k" by blast+
    then show ?thesis using assms(5) lease unfolding sy' create_inv_def by auto
  next
    case True
    from remote_pc_claimed [OF this] obtain k where k: "claimed (sy_pcs sy i) = Some k" "pc_key (sy_pcs sy i) = Some k"
      by blast
    then have mine: "holds_lease (g_Owner ?g) k (gw_store ?w)" using assms(6) by simp
    have "rq_SKU (fl_req fl i) = rq_SKU req" using assms(2) by (simp add: same_draft_def)
    then have r: "gw_store w' = gw_store ?w" "successful_creates (gw_calls w') \<le> 1"
      "0 < successful_creates (gw_calls w') \<longrightarrow> listed (gw_remote w')"
      "\<forall>k. pc' = PcCreate k \<longrightarrow> \<not> listed (gw_remote w')"
      using step_remote [OF st True, of listed] assms(3,5) mine k(1) unfolding create_inv_def by fastforce+
    have "False" if "j \<noteq> i" "sy_pcs sy j = PcCreate k'" "holds_lease (g_Owner (fl_gate fl j)) k' (gw_store w')" for j k'
    proof -
      have "key sha (rq_ProductID (fl_req fl j)) (rq_Fields (fl_req fl j)) = Ok k'"
        "key sha (rq_ProductID (fl_req fl i)) (rq_Fields (fl_req fl i)) = Ok k"
        using assms(4) that(2) k(2) by (simp_all add: keys_inv_def)
      then have "k' = k" using assms(2) by (simp add: same_draft_def)
      then show False using lease_unique [OF mine] lease [OF that(3,1)] assms(1) that(1) by (metis injD)
    qed
    then show ?thesis using r unfolding sy' create_inv_def by auto
  qed
qed

lemma record_ledger [simp]:
  "pg_ledger (fst (pg_recordApproval uid d s)) = pg_ledger s"
  "pg_clock (fst (pg_recordApproval uid d s)) = pg_clock s"
  by (auto simp: pg_recordApproval_def pg_approvalFor_def split: option.split)

lemma lease_record [simp]: "holds_lease o' k (fst (pg_recordApproval uid d s)) = holds_lease o' k s"
  by (simp add: holds_lease_def split: option.split)

lemma exec_create_inv:
  assumes "inj (\<lambda>i. g_Owner (fl_gate fl i))" and "same_draft fl req"
    and "shop_reliable wc (rq_SKU req) listed"
    and "keys_inv sha fl sy" and "create_inv fl listed sy" and "timely fl e sy"
  shows "create_inv fl listed (sys_exec sha uid wc fl e sy)"
proof (cases e)
  case (Work i)
  then show ?thesis using work_create_inv assms by blast
next
  case (ClockTo t)
  have "holds_lease o' k (s\<lparr>pg_clock := max (pg_clock s) t\<rparr>) \<Longrightarrow> holds_lease o' k s" for o' k s
    by (auto simp: holds_lease_def split: option.splits)
  then show ?thesis using assms(5) ClockTo unfolding create_inv_def by (auto simp: Let_def)
qed (use assms(5) in \<open>auto simp: create_inv_def Let_def split: if_splits\<close>)

lemma exec_keys_inv: "keys_inv sha fl sy \<Longrightarrow> keys_inv sha fl (sys_exec sha uid wc fl e sy)"
proof (cases e)
  case (Work i)
  obtain pc' w' where st: "gate_step sha uid wc (fl_gate fl i) (fl_req fl i) (sy_pcs sy i, sy_world sy) = (pc', w')"
    by force
  then have sy': "sys_exec sha uid wc fl e sy = \<lparr>sy_world = w', sy_pcs = (sy_pcs sy)(i := pc')\<rparr>"
    using Work by simp
  assume inv: "keys_inv sha fl sy"
  then have "\<forall>k. pc_key (sy_pcs sy i) = Some k \<longrightarrow>
      key sha (rq_ProductID (fl_req fl i)) (rq_Fields (fl_req fl i)) = Ok k" by (simp add: keys_inv_def)
  from step_key [OF st this] inv show ?thesis unfolding sy' by (simp add: keys_inv_def)
qed (simp_all add: keys_inv_def Let_def)

lemma run_create_inv:
  assumes "inj (\<lambda>i. g_Owner (fl_gate fl i))" and "same_draft fl req"
    and "shop_reliable wc (rq_SKU req) listed"
  shows "keys_inv sha fl sy \<Longrightarrow> create_inv fl listed sy \<Longrightarrow> all_timely sha uid wc fl evs sy \<Longrightarrow>
    create_inv fl listed (sys_run sha uid wc fl evs sy)"
  by (induction evs arbitrary: sy) (simp_all add: exec_create_inv [OF assms] exec_keys_inv)

subsection \<open>The lease a worker knows of\<close>

text \<open>
  A worker does not read its lease back: what it knows is the time it claimed at. \<open>next_deadline\<close> notes
  for every worker when the lease of its last claim runs out; a run is punctual if no worker acts on a
  claim after that. That the row still names the worker until then is a property of the statements.
\<close>

fun next_deadline :: "gate_fleet \<Rightarrow> sys_event \<Rightarrow> 'w gate_sys \<Rightarrow> (nat \<Rightarrow> gotime) \<Rightarrow> nat \<Rightarrow> gotime" where
  "next_deadline fl (Work i) sy dl =
     (case sy_pcs sy i of
        PcUpdate _ \<Rightarrow> dl(i := pg_clock (gw_store (sy_world sy)) + gate_ttl (fl_gate fl i)) | _ \<Rightarrow> dl)"
| "next_deadline fl _ sy dl = dl"

fun punctual :: "sys_event \<Rightarrow> 'w gate_sys \<Rightarrow> (nat \<Rightarrow> gotime) \<Rightarrow> bool" where
  "punctual (Work i) sy dl = (claimed (sy_pcs sy i) \<noteq> None \<longrightarrow> pg_clock (gw_store (sy_world sy)) \<le> dl i)"
| "punctual _ sy dl = True"

fun all_punctual where
  "all_punctual sha uid wc fl [] sy dl = True"
| "all_punctual sha uid wc fl (e # es) sy dl =
     (punctual e sy dl \<and> all_punctual sha uid wc fl es (sys_exec sha uid wc fl e sy) (next_deadline fl e sy dl))"

definition owned :: "string \<Rightarrow> gotime \<Rightarrow> string \<Rightarrow> pg_state \<Rightarrow> bool" where
  "owned o' u k s \<longleftrightarrow> (\<exists>r. mget (pg_ledger s) k = Some r \<and> lr_owner r = Some o' \<and> lr_until r = Some u)"

definition lease_inv :: "gate_fleet \<Rightarrow> 'w gate_sys \<Rightarrow> (nat \<Rightarrow> gotime) \<Rightarrow> bool" where
  "lease_inv fl sy dl \<longleftrightarrow>
     (\<forall>i k. claimed (sy_pcs sy i) = Some k \<longrightarrow> pg_clock (gw_store (sy_world sy)) \<le> dl i \<longrightarrow>
        owned (g_Owner (fl_gate fl i)) (dl i) k (gw_store (sy_world sy)))"

lemma owned_holds: "owned o' u k s \<Longrightarrow> pg_clock s \<le> u \<Longrightarrow> holds_lease o' k s"
  by (auto simp: owned_def holds_lease_def)

lemma owned_unique: "owned o' u k s \<Longrightarrow> owned o'' u' k s \<Longrightarrow> o' = o''"
  by (auto simp: owned_def)

lemma lease_inv_timely: "lease_inv fl sy dl \<Longrightarrow> punctual e sy dl \<Longrightarrow> timely fl e sy"
  by (cases e) (auto simp: lease_inv_def intro: owned_holds split: option.split)

lemma upd_row_owned: "owned o' u k s \<Longrightarrow> j \<noteq> k \<Longrightarrow> owned o' u k (upd_row j f s)"
  by (auto simp: owned_def upd_row_def split: option.split)

lemma claim_insert_owned: "owned o' u k s \<Longrightarrow> owned o' u k (fst (claim_insert uid a s))"
  by (auto simp: owned_def claim_insert_def split: option.split)

lemma claim_update_owned:
  "owned o' u k s \<Longrightarrow> ca_owner a \<noteq> o' \<Longrightarrow> pg_clock s \<le> u \<Longrightarrow> owned o' u k (fst (claim_update a s))"
  by (auto simp: owned_def claim_update_def lease_free_def split: option.split)

text \<open>No step of another worker takes a live lease away.\<close>

lemma step_owned:
  assumes "gate_step sha uid wc g req (pc, w) = (pc', w')"
    and "owned o' u k (gw_store w)" "pg_clock (gw_store w) \<le> u" "g_Owner g \<noteq> o'" "claimed pc \<noteq> Some k"
  shows "owned o' u k (gw_store w')"
proof (cases pc)
  case (PcInsert j)
  then show ?thesis using assms claim_insert_owned [OF assms(2), of uid "claim_args_of sha g req j"]
    by (auto split: prod.splits)
next
  case (PcUpdate j)
  then show ?thesis using assms(1,4) claim_update_owned [OF assms(2) _ assms(3), of "claim_args_of sha g req j"]
    by (auto simp: claim_args_of_def split: prod.splits)
next
  case (PcFind j)
  then show ?thesis using assms(1,2) by (auto dest: calls_store split: prod.splits sum.splits option.splits)
next
  case (PcUpdateRemote j rid)
  then show ?thesis using assms(1,2) by (auto dest: calls_store split: prod.splits sum.splits)
next
  case (PcCreate j)
  then show ?thesis using assms(1,2) by (auto dest: calls_store split: prod.splits sum.splits)
qed (use assms in \<open>auto simp: Let_def pg_complete_def pg_fail_def intro: upd_row_owned split: sum.splits if_splits\<close>)

lemma step_clock:
  assumes "gate_step sha uid wc g req (pc, w) = (pc', w')"
  shows "pg_clock (gw_store w') = pg_clock (gw_store w)"
proof (cases pc)
  case (PcInsert j)
  obtain s1 c where i: "claim_insert uid (claim_args_of sha g req j) (gw_store w) = (s1, c)" by force
  then have "pg_clock s1 = pg_clock (gw_store w)" using claim_insert_simps(2) [of uid "claim_args_of sha g req j" "gw_store w"] by simp
  then show ?thesis using assms PcInsert i by auto
next
  case (PcUpdate j)
  obtain s1 c where i: "claim_update (claim_args_of sha g req j) (gw_store w) = (s1, c)" by force
  then have "pg_clock s1 = pg_clock (gw_store w)" using claim_update_simps(2) [of "claim_args_of sha g req j" "gw_store w"] by simp
  then show ?thesis using assms PcUpdate i by auto
next
  case (PcFind j)
  then show ?thesis using assms by (auto dest: calls_store split: prod.splits sum.splits option.splits)
next
  case (PcUpdateRemote j rid)
  then show ?thesis using assms by (auto dest: calls_store split: prod.splits sum.splits)
next
  case (PcCreate j)
  then show ?thesis using assms by (auto dest: calls_store split: prod.splits sum.splits)
qed (use assms in \<open>auto simp: Let_def pg_complete_def pg_fail_def upd_row_def split: sum.splits if_splits option.splits\<close>)

text \<open>The claim of the worker that steps: kept from before, or just made.\<close>

lemma step_claimed:
  assumes "gate_step sha uid wc g req (pc, w) = (pc', w')" and "claimed pc' = Some k"
  shows "(claimed pc = Some k \<and> remote_pc pc \<and> gw_store w' = gw_store w)
    \<or> (pc = PcUpdate k \<and> owned (g_Owner g) (pg_clock (gw_store w) + gate_ttl g) k (gw_store w'))"
proof (cases pc)
  case (PcUpdate j)
  then show ?thesis using assms
    by (auto simp: Let_def claim_update_def claim_args_of_def owned_def split: prod.splits if_splits option.splits)
next
  case (PcFind j)
  then show ?thesis using assms by (auto dest: calls_store split: prod.splits sum.splits option.splits if_splits)
next
  case (PcUpdateRemote j rid)
  then show ?thesis using assms by (auto dest: calls_store split: prod.splits sum.splits)
next
  case (PcCreate j)
  then show ?thesis using assms by (auto dest: calls_store split: prod.splits sum.splits)
qed (use assms in \<open>auto simp: Let_def split: sum.splits if_splits prod.splits\<close>)

lemma work_lease_inv:
  assumes "inj (\<lambda>i. g_Owner (fl_gate fl i))" and inv: "lease_inv fl sy dl" and "punctual (Work i) sy dl"
  shows "lease_inv fl (sys_exec sha uid wc fl (Work i) sy) (next_deadline fl (Work i) sy dl)"
proof -
  let ?g = "\<lambda>i. fl_gate fl i" and ?s = "gw_store (sy_world sy)" and ?dl = "next_deadline fl (Work i) sy dl"
  obtain pc' w' where st: "gate_step sha uid wc (?g i) (fl_req fl i) (sy_pcs sy i, sy_world sy) = (pc', w')" by force
  have "owned (g_Owner (?g j)) (?dl j) k (gw_store w')"
    if c: "claimed (((sy_pcs sy)(i := pc')) j) = Some k" and d: "pg_clock ?s \<le> ?dl j" for j k
  proof (cases "j = i")
    case True
    with c have "claimed pc' = Some k" by simp
    from step_claimed [OF st this] show ?thesis
    proof
      assume "claimed (sy_pcs sy i) = Some k \<and> remote_pc (sy_pcs sy i) \<and> gw_store w' = ?s"
      then show ?thesis using inv d True by (cases "sy_pcs sy i") (auto simp: lease_inv_def)
    qed (use True in simp)
  next
    case False
    then have dl: "?dl j = dl j" by (simp split: gate_pc.split)
    have own: "owned (g_Owner (?g j)) (dl j) k ?s" using inv c d dl False by (simp add: lease_inv_def)
    have ne: "g_Owner (?g i) \<noteq> g_Owner (?g j)" using assms(1) False by (metis injD)
    have "claimed (sy_pcs sy i) \<noteq> Some k"
    proof
      assume ck: "claimed (sy_pcs sy i) = Some k"
      then have "owned (g_Owner (?g i)) (dl i) k ?s" using inv assms(3) by (auto simp: lease_inv_def)
      then show False using owned_unique own ne by blast
    qed
    then show ?thesis using step_owned [OF st own _ ne] d dl by simp
  qed
  then show ?thesis using st step_clock [OF st] by (auto simp: lease_inv_def simp del: next_deadline.simps)
qed

lemma exec_lease_inv:
  assumes "inj (\<lambda>i. g_Owner (fl_gate fl i))" and "lease_inv fl sy dl" and "punctual e sy dl"
  shows "lease_inv fl (sys_exec sha uid wc fl e sy) (next_deadline fl e sy dl)"
proof (cases e)
  case (Work i)
  then show ?thesis using work_lease_inv assms by blast
qed (use assms(2) in \<open>auto simp: lease_inv_def owned_def Let_def split: if_splits\<close>)

lemma punctual_timely:
  assumes "inj (\<lambda>i. g_Owner (fl_gate fl i))"
  shows "lease_inv fl sy dl \<Longrightarrow> all_punctual sha uid wc fl evs sy dl \<Longrightarrow> all_timely sha uid wc fl evs sy"
proof (induction evs arbitrary: sy dl)
  case (Cons e es)
  then show ?case using exec_lease_inv [OF assms] lease_inv_timely by fastforce
qed simp

lemma all_timely_append:
  "all_timely sha uid wc fl (es @ fs) sy \<longleftrightarrow>
     all_timely sha uid wc fl es sy \<and> all_timely sha uid wc fl fs (sys_run sha uid wc fl es sy)"
  by (induction es arbitrary: sy) simp_all

definition sys_start :: "pg_state \<Rightarrow> 'w \<Rightarrow> 'w gate_sys" where
  "sys_start s r = \<lparr>sy_world = fresh_world s r, sy_pcs = (\<lambda>_. PcStart)\<rparr>"

lemma lease_inv_start: "lease_inv fl (sys_start s r) dl"
  by (simp add: lease_inv_def sys_start_def)


definition sample_fleet :: "(nat \<Rightarrow> string) \<Rightarrow> gate_fleet" where
  "sample_fleet owner = \<lparr>fl_gate = (\<lambda>i. sample_gate (owner i)), fl_req = (\<lambda>_. sample_request)\<rparr>"

definition shop_lists :: "(string, string) gomap list \<Rightarrow> bool" where
  "shop_lists ps \<longleftrightarrow> list_ex (\<lambda>p. mget p ''sku'' = Some ''S'') ps"

definition worker_alone :: "nat \<Rightarrow> sys_event list" where
  "worker_alone i = replicate 6 (Work i)"

lemma shop_find_None: "shop_find sku ps = None \<longleftrightarrow> \<not> list_ex (\<lambda>p. mget p ''sku'' = Some sku) ps"
  by (auto simp: shop_find_def find_None_iff list_ex_iff in_set_conv_nth) (metis nth_mem)

text \<open>A shop that never updates in place, so that a listed product stays listed.\<close>

definition append_shop :: "(string, string) gomap list woocommerce" where
  "append_shop = sample_shop\<lparr>wc_update := (\<lambda>a i fs ps. (ps, Ok \<lparr>rp_ID = i, rp_Fields = fs\<rparr>))\<rparr>"

lemma append_shop_reliable: "shop_reliable append_shop ''S'' shop_lists"
  by (auto simp: shop_reliable_def append_shop_def sample_shop_def shop_lists_def shop_find_None)


subsection \<open>A completed draft stays completed\<close>

definition settled :: "string \<Rightarrow> pg_state \<Rightarrow> bool" where
  "settled k s =
     (case mget (pg_ledger s) k of None \<Rightarrow> False | Some r \<Rightarrow> lr_status r = Completed \<and> lr_owner r = None)"

lemma settled_no_lease: "settled k s \<Longrightarrow> \<not> holds_lease o' k s"
  by (auto simp: settled_def holds_lease_def split: option.splits)

lemma step_settled:
  assumes "gate_step sha uid wc g req (pc, w) = (pc', w')" and "settled k (gw_store w)"
    and "claimed pc = None" and "\<forall>j. pc_key pc = Some j \<longrightarrow> j = k"
  shows "settled k (gw_store w') \<and> gw_calls w' = gw_calls w"
proof (cases pc)
  case (PcInsert j)
  with assms(4) have "ca_key (claim_args_of sha g req j) = k" by (simp add: claim_args_of_def)
  then show ?thesis using assms(1,2) PcInsert
    by (auto simp: claim_insert_def settled_def Let_def split: option.splits prod.splits)
next
  case (PcUpdate j)
  with assms(4) have "ca_key (claim_args_of sha g req j) = k" by (simp add: claim_args_of_def)
  then show ?thesis using assms(1,2) PcUpdate
    by (auto simp: claim_update_def lease_free_def settled_def Let_def split: option.splits prod.splits)
qed (use assms in \<open>auto simp: Let_def split: sum.splits if_splits\<close>)

lemma exec_settled:
  assumes "keys_inv sha fl sy" and "same_draft fl req" and "key sha (rq_ProductID req) (rq_Fields req) = Ok k"
    and "settled k (gw_store (sy_world sy))" and "timely fl e sy"
  shows "settled k (gw_store (sy_world (sys_exec sha uid wc fl e sy)))
    \<and> gw_calls (sy_world (sys_exec sha uid wc fl e sy)) = gw_calls (sy_world sy)"
proof (cases e)
  case (Work i)
  have j: "j = k" if "pc_key (sy_pcs sy i) = Some j" for j
    using assms(1-3) that by (auto simp: keys_inv_def same_draft_def)
  have "claimed (sy_pcs sy i) = None"
  proof (rule ccontr)
    assume "claimed (sy_pcs sy i) \<noteq> None"
    then obtain j' where c: "claimed (sy_pcs sy i) = Some j'" by blast
    then have "pc_key (sy_pcs sy i) = Some j'" by (cases "sy_pcs sy i") simp_all
    then show False using j c assms(4,5) settled_no_lease Work by auto
  qed
  then show ?thesis using step_settled [OF _ assms(4)] j Work by (simp split: prod.split)
qed (use assms(4) in \<open>simp_all add: settled_def Let_def\<close>)

lemma run_settled:
  assumes "same_draft fl req" and "key sha (rq_ProductID req) (rq_Fields req) = Ok k"
  shows "keys_inv sha fl sy \<Longrightarrow> settled k (gw_store (sy_world sy)) \<Longrightarrow> all_timely sha uid wc fl evs sy \<Longrightarrow>
    gw_calls (sy_world (sys_run sha uid wc fl evs sy)) = gw_calls (sy_world sy)"
  by (induction evs arbitrary: sy) (simp_all add: exec_keys_inv exec_settled [OF _ assms])

lemma run_keys_inv: "keys_inv sha fl sy \<Longrightarrow> keys_inv sha fl (sys_run sha uid wc fl evs sy)"
  by (induction evs arbitrary: sy) (simp_all add: exec_keys_inv)

text \<open>A completed draft is final under concurrency. Once some worker has completed the row
  of a draft, no worker that publishes the draft makes another call to the remote store, under
  every later interleaving, as long as no worker acts on a claim whose lease has run out and the
  owner names differ.\<close>

theorem workers_leave_completed:
  assumes "same_draft fl req" and "key sha (rq_ProductID req) (rq_Fields req) = Ok k"
    and "sy = sys_run sha uid wc fl before (sys_start s r)"
    and "settled k (gw_store (sy_world sy))" and "inj (\<lambda>i. g_Owner (fl_gate fl i))"
    and "all_punctual sha uid wc fl (before @ evs) (sys_start s r) (\<lambda>_. 0)"
  shows "gw_calls (sy_world (sys_run sha uid wc fl evs sy)) = gw_calls (sy_world sy)"
proof -
  have "keys_inv sha fl sy" unfolding assms(3)
    by (rule run_keys_inv) (simp add: keys_inv_def sys_start_def)
  moreover have "all_timely sha uid wc fl evs sy"
    using punctual_timely [OF assms(5) lease_inv_start assms(6)] assms(3) by (simp add: all_timely_append)
  ultimately show ?thesis using run_settled [OF assms(1,2) _ assms(4)] by blast
qed

definition sample_key :: string where
  "sample_key = ''p1:'' @ hex_encode (sample_sha (json_map [(''name'', ''Band'')]))"

theorem workers_leave_completed_witness:
  "gw_calls (sy_world (sys_run sample_sha Some append_shop (sample_fleet format_nat) (worker_alone 1)
      (sys_run sample_sha Some append_shop (sample_fleet format_nat) (worker_alone 0) (sys_start sample_approved []))))
   = [CallFind ''wf-1'' ''S'' True, CallCreate ''wf-1'' (create_fields sample_request) True]"
proof -
  let ?fl = "sample_fleet format_nat"
  let ?sy = "sys_run sample_sha Some append_shop ?fl (worker_alone 0) (sys_start sample_approved [])"
  have d: "same_draft ?fl sample_request" by (simp add: same_draft_def sample_fleet_def)
  have k: "key sample_sha (rq_ProductID sample_request) (rq_Fields sample_request) = Ok sample_key" by code_simp
  have s: "settled sample_key (gw_store (sy_world ?sy))" by code_simp
  have i: "inj (\<lambda>i. g_Owner (fl_gate ?fl i))" by (simp add: inj_def sample_fleet_def sample_gate_def)
  have t: "all_punctual sample_sha Some append_shop ?fl (worker_alone 0 @ worker_alone 1) (sys_start sample_approved []) (\<lambda>_. 0)"
    by code_simp
  have c: "gw_calls (sy_world ?sy) = [CallFind ''wf-1'' ''S'' True, CallCreate ''wf-1'' (create_fields sample_request) True]"
    by code_simp
  show ?thesis using workers_leave_completed [OF d k refl s i t] c by simp
qed

subsection \<open>Where the leases do not protect\<close>

text \<open>Workers that share an owner name do not exclude each other. The worker process uses
  one owner name, \<open>worker-<hostname>\<close>, for all its concurrent activities; the claim lets the
  owner of a lease claim again, so two activities of one process both pass the claim and create
  the product twice, each acting within a live lease.\<close>

theorem shared_owner_creates_twice:
  "\<exists>evs. all_punctual sample_sha Some append_shop (sample_fleet (\<lambda>_. ''worker-host'')) evs (sys_start sample_approved []) (\<lambda>_. 0)
     \<and> successful_creates (gw_calls (sy_world
          (sys_run sample_sha Some append_shop (sample_fleet (\<lambda>_. ''worker-host'')) evs (sys_start sample_approved [])))) = 2"
proof -
  let ?evs = "[Work 0, Work 0, Work 0, Work 1, Work 1, Work 1, Work 0, Work 1, Work 0, Work 1]"
  have "all_punctual sample_sha Some append_shop (sample_fleet (\<lambda>_. ''worker-host'')) ?evs (sys_start sample_approved []) (\<lambda>_. 0)"
    by code_simp
  moreover have "successful_creates (gw_calls (sy_world
      (sys_run sample_sha Some append_shop (sample_fleet (\<lambda>_. ''worker-host'')) ?evs (sys_start sample_approved [])))) = 2"
    by code_simp
  ultimately show ?thesis by blast
qed

text \<open>A store that refuses a second product with the same SKU.\<close>

definition unique_shop :: "(string, string) gomap list woocommerce" where
  "unique_shop = append_shop\<lparr>wc_create :=
     (\<lambda>a fs ps. if shop_lists ps then (ps, Err (OtherErr ''woocommerce status 400'' None))
                else (ps @ [fs], Ok \<lparr>rp_ID = format_nat (length ps), rp_Fields = fs\<rparr>))\<rparr>"

text \<open>A worker whose lease has run out can undo the completion of another. \<open>Complete\<close> and
  \<open>Fail\<close> update the row by its key alone. In a run with two differently named workers, the second
  takes over an expired lease, creates the product and completes the row; the first then has its
  own create refused by the store and marks the completed row as failed.\<close>

theorem expired_lease_reopens_completed:
  "\<exists>evs. (let sy = sys_run sample_sha Some unique_shop (sample_fleet format_nat) evs (sys_start sample_approved []);
            sy' = sys_run sample_sha Some unique_shop (sample_fleet format_nat) [Work 0, Work 0] sy
        in settled sample_key (gw_store (sy_world sy)) \<and> \<not> pg_completed (gw_store (sy_world sy')) sample_key)"
proof -
  let ?evs = "replicate 4 (Work 0) @ ClockTo 61000000000 # worker_alone 1"
  have "let sy = sys_run sample_sha Some unique_shop (sample_fleet format_nat) ?evs (sys_start sample_approved []);
            sy' = sys_run sample_sha Some unique_shop (sample_fleet format_nat) [Work 0, Work 0] sy
        in settled sample_key (gw_store (sy_world sy)) \<and> \<not> pg_completed (gw_store (sy_world sy')) sample_key"
    by code_simp
  then show ?thesis by blast
qed

end
