(* ===== verification/Temporal.thy ===== *)
theory Temporal
  imports Go_Prelude
begin

text \<open>
  What the workflows of \<open>internal/workflow\<close> use of the Temporal SDK. An activity is a function on
  the world of the workflow; its errors are those that \<open>Future.Get\<close> returns. An activity is
  attempted again after an error, except after a cancellation, as often as its retry policy says;
  with no policy there is no limit. The world is whatever the activities act on; what else happens
  between two attempts is part of the activity.
\<close>

datatype act_error = ApplicationError string | TimeoutError | CanceledError

type_synonym ('w, 'a) activity = "'w \<Rightarrow> 'w \<times> (act_error + 'a)"

text \<open>\<open>retrying n\<close>: one attempt and at most \<open>n\<close> more.\<close>

fun retrying :: "nat \<Rightarrow> ('w, 'a) activity \<Rightarrow> ('w, 'a) activity" where
  "retrying 0 act w = act w"
| "retrying (Suc n) act w =
     (case act w of
        (w', Ok a) \<Rightarrow> (w', Ok a)
      | (w', Err e) \<Rightarrow> if e = CanceledError then (w', Err e) else retrying n act w')"

text \<open>\<open>RetryPolicy.MaximumAttempts\<close>\<close>

definition executeActivity :: "nat \<Rightarrow> ('w, 'a) activity \<Rightarrow> ('w, 'a) activity" where
  "executeActivity attempts act = retrying (attempts - 1) act"

text \<open>Without a retry policy: until success or cancellation, \<open>None\<close> if neither ever comes.\<close>

partial_function (option) executeForever :: "('w, 'a) activity \<Rightarrow> 'w \<Rightarrow> ('w \<times> (act_error + 'a)) option" where
  "executeForever act w =
     (case act w of
        (w', r) \<Rightarrow>
          if is_ok r \<or> r = Err CanceledError then Some (w', r) else executeForever act w')"

declare executeForever.simps [code]

subsection \<open>What attempts preserve\<close>

lemma retrying_invariant:
  assumes "\<And>w. I w \<Longrightarrow> I (fst (act w))" and "I w"
  shows "I (fst (retrying n act w))"
  using assms(2)
proof (induction n arbitrary: w)
  case (Suc n)
  obtain w' r where act: "act w = (w', r)" by force
  then have "I w'" using assms(1) [OF Suc.prems] by simp
  then show ?case using Suc.IH act by (cases r) simp_all
qed (simp add: assms(1))

lemma executeActivity_invariant:
  "(\<And>w. I w \<Longrightarrow> I (fst (act w))) \<Longrightarrow> I w \<Longrightarrow> I (fst (executeActivity n act w))"
  unfolding executeActivity_def by (rule retrying_invariant)

text \<open>A success is the success of the last attempt, made in a world the earlier ones left.\<close>

lemma retrying_Ok:
  assumes "retrying n act w = (w', Ok a)" and "I w" and "\<And>x. I x \<Longrightarrow> I (fst (act x))"
  shows "\<exists>x. I x \<and> act x = (w', Ok a)"
  using assms(1,2)
proof (induction n arbitrary: w)
  case (Suc n)
  obtain x r where act: "act w = (x, r)" by force
  have "I x" using assms(3) [OF Suc.prems(2)] act by simp
  then show ?case using Suc act by (cases r) (auto split: if_splits)
qed auto

lemma executeActivity_Ok:
  assumes "executeActivity n act w = (w', Ok a)" and "I w" and "\<And>x. I x \<Longrightarrow> I (fst (act x))"
  shows "\<exists>x. I x \<and> act x = (w', Ok a)"
  using assms unfolding executeActivity_def by (rule retrying_Ok)

lemma executeForever_result:
  assumes "executeForever act w = Some y"
  shows "I w \<Longrightarrow> \<forall>x. I x \<longrightarrow> I (fst (act x)) \<Longrightarrow>
    \<exists>x. I x \<and> act x = y \<and> (is_ok (snd y) \<or> snd y = Err CanceledError)"
proof (induction rule: executeForever.raw_induct [OF _ assms])
  case (1 loop act w y)
  obtain w' r where act: "act w = (w', r)" by force
  have "I w'" using "1.prems" act by (metis fst_conv)
  show ?case
  proof (cases "is_ok r \<or> r = Err CanceledError")
    case True
    then have "y = (w', r)" using act "1.hyps" by simp
    then show ?thesis using True act "1.prems"(1) by auto
  next
    case False
    then have "loop act w' = Some y" using "1.hyps" act by simp
    from "1.IH" [OF this \<open>I w'\<close> "1.prems"(2)] show ?thesis .
  qed
qed

text \<open>The loop ends as soon as some attempt in a row succeeds.\<close>

lemma executeForever_Some:
  assumes "(\<lambda>x. fst (act x)) ^^ n = f" and "is_ok (snd (act (f w)))"
  shows "\<exists>y. executeForever act w = Some y"
  using assms
proof (induction n arbitrary: w f)
  case 0
  then have "is_ok (snd (act w))" by (metis funpow_0)
  then show ?case by (subst executeForever.simps) (cases "act w"; simp)
next
  case (Suc n)
  obtain w' r where act: "act w = (w', r)" by force
  have "is_ok (snd (act (((\<lambda>x. fst (act x)) ^^ n) w')))"
    using Suc.prems act by (metis comp_apply fst_conv funpow_Suc_right)
  then obtain y where "executeForever act w' = Some y" using Suc.IH by blast
  then show ?case using act by (subst executeForever.simps) simp
qed

end
