(* ===== verification/StoreProxy.thy ===== *)
theory StoreProxy
  imports Go_Encoding
begin

text \<open>
  The counting egress proxy in front of the store (\<open>internal/storeproxy/proxy.go\<close>): the
  admission checks on method, path, query keys, headers and body type, the write-ahead audit
  rows, and the forwarded request. The audit file is a list of lines; what the disk does with
  each append is an oracle of the configuration, failures and torn lines included. The store
  behind the proxy, \<open>mime.ParseMediaType\<close> and \<open>url.Parse\<close> of the configured base address are
  parameters.
\<close>

subsection \<open>Strings, headers, query values\<close>

text \<open>\<open>textproto.CanonicalMIMEHeaderKey\<close> on a header name of token characters.\<close>

fun canonical_from :: "bool \<Rightarrow> string \<Rightarrow> string" where
  "canonical_from up [] = []"
| "canonical_from up (c # s) = (if up then upper_char c else lower_char c) # canonical_from (c = CHR ''-'') s"

definition canonical :: "string \<Rightarrow> string" where "canonical = canonical_from True"

type_synonym header = "(string, string list) gomap"

definition header_get :: "header \<Rightarrow> string \<Rightarrow> string" where
  "header_get h name = (case mget h (canonical name) of Some (v # _) \<Rightarrow> v | _ \<Rightarrow> [])"

definition header_del :: "string \<Rightarrow> header \<Rightarrow> header" where
  "header_del name h = mdel (canonical name) h"

type_synonym url_values = "(string, string list) gomap"

record http_request =
  hr_Method :: string
  hr_Path :: string
  hr_RawPath :: string
  hr_Query :: url_values
  hr_Header :: header
  hr_Body :: "string option"

subsection \<open>Admission\<close>

definition ApprovalHeader :: string where "ApprovalHeader = ''X-Approval-Id''"

definition allowedPrefixes :: "string list" where "allowedPrefixes = [''/wp-json/wc/v3/'']"

definition scrubbedHeaders :: "string list" where
  "scrubbedHeaders =
     [ApprovalHeader, ''Authorization'', ''Cookie'', ''Proxy-Authorization'', ''Connection'',
      ''Keep-Alive'', ''Proxy-Authenticate'', ''Te'', ''Trailer'', ''Transfer-Encoding'', ''Upgrade'',
      ''X-HTTP-Method-Override'', ''X-HTTP-Method'', ''X-Method-Override'']"

datatype method_class = ReadMethod | WriteMethod | RejectMethod

definition methodClass :: "string \<Rightarrow> method_class" where
  "methodClass m =
     (if m \<in> {''GET'', ''HEAD''} then ReadMethod
      else if m \<in> {''POST'', ''PUT'', ''PATCH'', ''DELETE''} then WriteMethod
      else RejectMethod)"

definition isWrite :: "string \<Rightarrow> bool" where "isWrite m \<longleftrightarrow> methodClass m = WriteMethod"

definition phpKey :: "string \<Rightarrow> string" where
  "phpKey k = map (\<lambda>c. if c = CHR ''.'' \<or> c = CHR '' '' then CHR ''_'' else c)
     (dropWhile (\<lambda>c. c = CHR '' '') k)"

definition reservedWPGlobals :: "string list" where
  "reservedWPGlobals = [''_method'', ''rest_route'', ''_envelope'', ''_jsonp'']"

definition key_char :: "char \<Rightarrow> bool" where
  "key_char c \<longleftrightarrow> (97 \<le> byte c \<and> byte c \<le> 122) \<or> is_digit c \<or> c = CHR ''_''"

text \<open>\<open>^[a-z0-9_]+(\[[a-z0-9_]*\])*$\<close>\<close>

function key_suffixes :: "string \<Rightarrow> bool" where
  "key_suffixes s =
     (case s of
        [] \<Rightarrow> True
      | c # r \<Rightarrow>
          c = CHR ''['' \<and>
          (case dropWhile key_char r of
             [] \<Rightarrow> False
           | d # q \<Rightarrow> if d = CHR '']'' then key_suffixes q else False))"
  by pat_completeness auto
termination
proof (relation "measure length")
  fix s :: string and c r d q
  assume "s = c # r" "dropWhile key_char r = d # q"
  then have "length (d # q) \<le> length r" by (metis length_dropWhile_le)
  then show "(q, s) \<in> measure length" using \<open>s = c # r\<close> by simp
qed simp

declare key_suffixes.simps [simp del]

definition queryKeyShape :: "string \<Rightarrow> bool" where
  "queryKeyShape s \<longleftrightarrow> takeWhile key_char s \<noteq> [] \<and> key_suffixes (dropWhile key_char s)"

definition base_name :: "string \<Rightarrow> string" where
  "base_name nk = takeWhile (\<lambda>c. c \<noteq> CHR ''['') nk"

definition queryGuard :: "url_values \<Rightarrow> bool" where
  "queryGuard q \<longleftrightarrow>
     list_all (\<lambda>k. let nk = phpKey k in base_name nk \<notin> set reservedWPGlobals \<and> queryKeyShape nk) (mkeys q)"

definition writeBodyAllowed :: "(string \<Rightarrow> string option) \<Rightarrow> string \<Rightarrow> bool" where
  "writeBodyAllowed parseMediaType contentType =
     (if contentType = [] then True
      else case parseMediaType contentType of
        None \<Rightarrow> False
      | Some mt \<Rightarrow> mt \<noteq> ''application/x-www-form-urlencoded'' \<and> take 10 mt \<noteq> ''multipart/'')"

definition pathAllowed :: "string \<Rightarrow> bool" where
  "pathAllowed path \<longleftrightarrow>
     \<not> contains_str path ''..'' \<and> list_ex (\<lambda>p. take (length p) path = p) allowedPrefixes"

definition pathUnescaped :: "string \<Rightarrow> string \<Rightarrow> bool" where
  "pathUnescaped rawPath decodedPath \<longleftrightarrow>
     rawPath \<noteq> [] \<and> rawPath \<noteq> decodedPath \<or> contains_str decodedPath ''%''"

subsection \<open>The audit log\<close>

datatype audit_kind = KIntent | KDone | KUnknown | KRefused

record audit_row =
  ar_Time :: gotime
  ar_Kind :: audit_kind
  ar_Method :: string
  ar_Path :: string
  ar_ApprovalID :: string
  ar_Status :: int

text \<open>
  What one append does: the row is written and synced; nothing is written; part of the row is
  written, without its newline; the row is written but the sync fails. All but the first return an
  error.
\<close>

datatype disk_outcome = Written | Lost | Torn | Unsynced

text \<open>A line of the file is a row or text that no longer parses; a torn line swallows the next.\<close>

datatype audit_line = Row audit_row | Broken

record audit_log =
  al_open :: bool
  al_lines :: "audit_line list"
  al_torn :: bool
  al_appends :: nat

definition log_line :: "audit_row \<Rightarrow> audit_log \<Rightarrow> audit_log" where
  "log_line row l =
     (if al_torn l then l\<lparr>al_torn := False\<rparr> else l\<lparr>al_lines := al_lines l @ [Row row]\<rparr>)"

definition auditSync :: "(nat \<Rightarrow> disk_outcome) \<Rightarrow> audit_row \<Rightarrow> audit_log \<Rightarrow> audit_log \<times> bool" where
  "auditSync disk row l0 =
     (if \<not> al_open l0 then (l0, False)
      else let l = l0\<lparr>al_appends := al_appends l0 + 1\<rparr> in
      case disk (al_appends l0) of
        Written \<Rightarrow> (log_line row l, True)
      | Lost \<Rightarrow> (l, False)
      | Torn \<Rightarrow> (if al_torn l then l else l\<lparr>al_lines := al_lines l @ [Broken], al_torn := True\<rparr>, False)
      | Unsynced \<Rightarrow> (log_line row l, False))"

subsection \<open>The proxy\<close>

record forward_request =
  fw_Method :: string
  fw_Path :: string
  fw_Query :: url_values
  fw_Header :: header
  fw_Body :: string

type_synonym store_response = "int \<times> string \<times> string"

record 'u proxy_config =
  px_base :: "string option"
  px_ConsumerKey :: string
  px_ConsumerSecret :: string
  px_mime :: "string \<Rightarrow> string option"
  px_disk :: "nat \<Rightarrow> disk_outcome"
  px_store :: "forward_request \<Rightarrow> 'u \<Rightarrow> 'u \<times> store_response option"

text \<open>The state of the proxy: its log, the store behind it, and the requests that have left.\<close>

record 'u proxy_state =
  ps_log :: audit_log
  ps_store :: 'u
  ps_sent :: "(string \<times> forward_request) list"

definition audit :: "'u proxy_config \<Rightarrow> audit_row \<Rightarrow> 'u proxy_state \<Rightarrow> 'u proxy_state" where
  "audit cfg row s = s\<lparr>ps_log := fst (auditSync (px_disk cfg) row (ps_log s))\<rparr>"

definition audit_row_of :: "gotime \<Rightarrow> audit_kind \<Rightarrow> string \<Rightarrow> string \<Rightarrow> string \<Rightarrow> int \<Rightarrow> audit_row" where
  "audit_row_of now kind m path approval status =
     \<lparr>ar_Time = now, ar_Kind = kind, ar_Method = m, ar_Path = path, ar_ApprovalID = approval, ar_Status = status\<rparr>"

definition forward_of :: "'u proxy_config \<Rightarrow> string \<Rightarrow> http_request \<Rightarrow> string \<Rightarrow> forward_request" where
  "forward_of cfg base r body =
     \<lparr>fw_Method = hr_Method r, fw_Path = base @ hr_Path r,
      fw_Query = mput ''consumer_secret'' [px_ConsumerSecret cfg]
        (mput ''consumer_key'' [px_ConsumerKey cfg]
          (mdel ''consumer_secret'' (mdel ''consumer_key'' (hr_Query r)))),
      fw_Header = fold header_del scrubbedHeaders (hr_Header r), fw_Body = body\<rparr>"

definition override_headers :: "http_request \<Rightarrow> bool" where
  "override_headers r \<longleftrightarrow>
     header_get (hr_Header r) ''X-HTTP-Method-Override'' \<noteq> [] \<or>
     header_get (hr_Header r) ''X-HTTP-Method'' \<noteq> [] \<or>
     header_get (hr_Header r) ''X-Method-Override'' \<noteq> []"

text \<open>The approval id of a request: the trimmed header.\<close>

definition approval_of :: "http_request \<Rightarrow> string" where
  "approval_of r = trim_space (header_get (hr_Header r) ApprovalHeader)"

text \<open>The refusals before the body is read: the approval the refusal row carries, and the status.\<close>

definition refusal :: "'u proxy_config \<Rightarrow> http_request \<Rightarrow> (string \<times> int) option" where
  "refusal cfg r =
     (if \<not> pathAllowed (hr_Path r) \<or> pathUnescaped (hr_RawPath r) (hr_Path r) then Some (approval_of r, 403)
      else if \<not> queryGuard (hr_Query r) \<or> override_headers r then Some (approval_of r, 403)
      else case methodClass (hr_Method r) of
        RejectMethod \<Rightarrow> Some (approval_of r, 405)
      | WriteMethod \<Rightarrow>
          if approval_of r = [] then Some ([], 403)
          else if \<not> writeBodyAllowed (px_mime cfg) (header_get (hr_Header r) ''Content-Type'')
          then Some (approval_of r, 403) else None
      | ReadMethod \<Rightarrow> None)"

definition send :: "'u proxy_config \<Rightarrow> gotime \<Rightarrow> http_request \<Rightarrow> string \<Rightarrow> 'u proxy_state \<Rightarrow> 'u proxy_state \<times> store_response" where
  "send cfg now r body s =
     (case px_base cfg of
        None \<Rightarrow> (s, (502, [], []))
      | Some base \<Rightarrow>
          let fw = forward_of cfg base r body;
              (u, resp) = px_store cfg fw (ps_store s);
              s1 = s\<lparr>ps_store := u, ps_sent := ps_sent s @ [(approval_of r, fw)]\<rparr>
          in (case resp of
                None \<Rightarrow> (audit cfg (audit_row_of now KUnknown (hr_Method r) (hr_Path r) (approval_of r) 0) s1, (502, [], []))
              | Some (status, ct, b) \<Rightarrow>
                  (audit cfg (audit_row_of now KDone (hr_Method r) (hr_Path r) (approval_of r) status) s1,
                   (status, ct, b))))"

definition proxy_serve :: "'u proxy_config \<Rightarrow> gotime \<Rightarrow> http_request \<Rightarrow> 'u proxy_state \<Rightarrow> 'u proxy_state \<times> store_response" where
  "proxy_serve cfg now r s =
     (case refusal cfg r of
        Some (approval, status) \<Rightarrow>
          (audit cfg (audit_row_of now KRefused (hr_Method r) (hr_Path r) approval status) s, (status, [], []))
      | None \<Rightarrow>
      (case hr_Body r of
        None \<Rightarrow> (s, (400, [], []))
      | Some body \<Rightarrow>
          if isWrite (hr_Method r) then
            (case auditSync (px_disk cfg) (audit_row_of now KIntent (hr_Method r) (hr_Path r) (approval_of r) 0) (ps_log s) of
               (l, False) \<Rightarrow> (s\<lparr>ps_log := l\<rparr>, (503, [], []))
             | (l, True) \<Rightarrow> send cfg now r body (s\<lparr>ps_log := l\<rparr>))
          else send cfg now r body s))"

subsection \<open>What leaves the proxy\<close>

definition serve_all :: "'u proxy_config \<Rightarrow> (gotime \<times> http_request) list \<Rightarrow> 'u proxy_state \<Rightarrow> 'u proxy_state" where
  "serve_all cfg rs s = fold (\<lambda>(now, r) s. fst (proxy_serve cfg now r s)) rs s"

lemma serve_all_simps [simp]:
  "serve_all cfg [] s = s"
  "serve_all cfg ((now, r) # rs) s = serve_all cfg rs (fst (proxy_serve cfg now r s))"
  by (simp_all add: serve_all_def)

text \<open>The log and the sent requests after one request.\<close>

lemma audit_simps [simp]:
  "ps_sent (audit cfg row s) = ps_sent s" "ps_store (audit cfg row s) = ps_store s"
  by (simp_all add: audit_def)

lemma send_sent:
  "ps_sent (fst (send cfg now r body s)) =
     ps_sent s @ (case px_base cfg of None \<Rightarrow> [] | Some base \<Rightarrow> [(approval_of r, forward_of cfg base r body)])"
  by (auto simp: send_def Let_def split: option.split prod.split)

lemma serve_sent:
  "ps_sent (fst (proxy_serve cfg now r s)) = ps_sent s \<or>
   (\<exists>base body. px_base cfg = Some base \<and> refusal cfg r = None
      \<and> ps_sent (fst (proxy_serve cfg now r s)) = ps_sent s @ [(approval_of r, forward_of cfg base r body)])"
  by (auto simp: proxy_serve_def send_sent split: option.split prod.split bool.split)

definition store_key_ok :: "string \<Rightarrow> bool" where
  "store_key_ok k \<longleftrightarrow> base_name (phpKey k) \<notin> set reservedWPGlobals \<and> queryKeyShape (phpKey k)"

text \<open>The promise of the proxy for one request that left it with an approval id.\<close>

definition admitted :: "'u proxy_config \<Rightarrow> string \<Rightarrow> string \<times> forward_request \<Rightarrow> bool" where
  "admitted cfg base = (\<lambda>(approval, fw).
     methodClass (fw_Method fw) \<noteq> RejectMethod
     \<and> (isWrite (fw_Method fw) \<longrightarrow> approval \<noteq> [])
     \<and> (\<exists>path. fw_Path fw = base @ ''/wp-json/wc/v3/'' @ path \<and> \<not> contains_str (''/wp-json/wc/v3/'' @ path) ''..'')
     \<and> list_all store_key_ok (mkeys (fw_Query fw))
     \<and> mget (fw_Query fw) ''consumer_key'' = Some [px_ConsumerKey cfg]
     \<and> mget (fw_Query fw) ''consumer_secret'' = Some [px_ConsumerSecret cfg]
     \<and> list_all (\<lambda>h. header_get (fw_Header fw) h = []) scrubbedHeaders)"

lemma header_get_del: "header_get (header_del a h) b = (if canonical b = canonical a then [] else header_get h b)"
  by (simp add: header_get_def header_del_def)

lemma header_get_fold_del:
  "header_get h b = [] \<or> b \<in> set hs \<Longrightarrow> header_get (fold header_del hs h) b = []"
  by (induction hs arbitrary: h) (auto simp: header_get_del)

lemma own_keys_ok: "store_key_ok ''consumer_key'' \<and> store_key_ok ''consumer_secret''"
  by code_simp

lemma mkeys_mput: "set (mkeys (mput k v m)) = insert k (set (mkeys m))"
  by (auto simp: in_mkeys_iff split: if_splits)

lemma mkeys_mdel: "set (mkeys (mdel k m)) \<subseteq> set (mkeys m)"
  by (auto simp: in_mkeys_iff split: if_splits)

lemma prefix_split: "take (length p) x = p \<Longrightarrow> \<exists>q. x = p @ q"
  by (metis append_take_drop_id)

lemma forward_admitted:
  assumes "refusal cfg r = None"
  shows "admitted cfg base (approval_of r, forward_of cfg base r body)"
proof -
  have path: "pathAllowed (hr_Path r)" and q: "queryGuard (hr_Query r)"
    and m: "methodClass (hr_Method r) \<noteq> RejectMethod"
    and a: "isWrite (hr_Method r) \<Longrightarrow> approval_of r \<noteq> []"
    using assms by (auto simp: refusal_def isWrite_def split: if_splits method_class.splits)
  obtain p where p: "hr_Path r = ''/wp-json/wc/v3/'' @ p" "\<not> contains_str (hr_Path r) ''..''"
    using path prefix_split [of "''/wp-json/wc/v3/''" "hr_Path r"] by (auto simp: pathAllowed_def allowedPrefixes_def)
  have "set (mkeys (fw_Query (forward_of cfg base r body))) \<subseteq>
      insert ''consumer_secret'' (insert ''consumer_key'' (set (mkeys (hr_Query r))))"
    by (auto simp: forward_of_def mkeys_mput dest!: subsetD [OF mkeys_mdel])
  moreover have "list_all store_key_ok (mkeys (hr_Query r))"
    using q by (simp add: queryGuard_def store_key_ok_def Let_def list_all_iff)
  ultimately have "list_all store_key_ok (mkeys (fw_Query (forward_of cfg base r body)))"
    using own_keys_ok by (auto simp: list_all_iff)
  moreover have "list_all (\<lambda>h. header_get (fw_Header (forward_of cfg base r body)) h = []) scrubbedHeaders"
    by (auto simp: forward_of_def list_all_iff intro: header_get_fold_del)
  ultimately show ?thesis using m a p by (auto simp: admitted_def forward_of_def)
qed

definition proxy_start :: "'u \<Rightarrow> 'u proxy_state" where
  "proxy_start u = \<lparr>ps_log = \<lparr>al_open = True, al_lines = [], al_torn = False, al_appends = 0\<rparr>,
     ps_store = u, ps_sent = []\<rparr>"


subsection \<open>Write-ahead\<close>

definition intents :: "audit_line list \<Rightarrow> audit_row list" where
  "intents ls = concat (map (\<lambda>l. case l of Row r \<Rightarrow> if ar_Kind r = KIntent then [r] else [] | Broken \<Rightarrow> []) ls)"

lemma intents_append [simp]: "intents (ls @ ms) = intents ls @ intents ms"
  by (simp add: intents_def)

definition sent_writes :: "'u proxy_state \<Rightarrow> (string \<times> string \<times> string) list" where
  "sent_writes s =
     map (\<lambda>(a, fw). (fw_Method fw, fw_Path fw, a)) (filter (\<lambda>(a, fw). isWrite (fw_Method fw)) (ps_sent s))"

definition intended :: "string \<Rightarrow> audit_row \<Rightarrow> string \<times> string \<times> string" where
  "intended base r = (ar_Method r, base @ ar_Path r, ar_ApprovalID r)"

definition log_wf :: "audit_log \<Rightarrow> bool" where
  "log_wf l \<longleftrightarrow> (al_torn l \<longrightarrow> Broken \<in> set (al_lines l))"

lemma auditSync_log:
  assumes "auditSync disk row l = (l', ok)" and "log_wf l"
  shows "log_wf l' \<and> (\<exists>ls. al_lines l' = al_lines l @ ls \<and> set ls \<subseteq> {Row row, Broken})
    \<and> (ok \<and> Broken \<notin> set (al_lines l') \<longrightarrow> al_lines l' = al_lines l @ [Row row])"
  using assms by (auto simp: auditSync_def log_line_def log_wf_def Let_def split: if_splits disk_outcome.splits)

text \<open>The invariant: unless the file has a broken line, it has an intent for every write sent.\<close>

definition ahead :: "string \<Rightarrow> 'u proxy_state \<Rightarrow> bool" where
  "ahead base s \<longleftrightarrow> log_wf (ps_log s) \<and>
     (Broken \<notin> set (al_lines (ps_log s)) \<longrightarrow>
        mset (sent_writes s) \<subseteq># mset (map (intended base) (intents (al_lines (ps_log s)))))"

lemma sent_writes_log [simp]: "sent_writes (s\<lparr>ps_log := l\<rparr>) = sent_writes s"
  by (simp add: sent_writes_def)

lemma ahead_grow:
  assumes "ahead base s" and "log_wf l" and "al_lines l = al_lines (ps_log s) @ ls" and "ps_sent s' = ps_sent s"
    and "ps_log s' = l"
  shows "ahead base s'"
  using assms by (auto simp: ahead_def sent_writes_def intro: subset_mset.add_increasing2)

lemma ahead_logged:
  assumes "ahead base s" and "auditSync disk row (ps_log s) = (l, ok)"
  shows "ahead base (s\<lparr>ps_log := l\<rparr>)"
proof -
  have "log_wf (ps_log s)" using assms(1) by (simp add: ahead_def)
  from auditSync_log [OF assms(2) this] obtain ls where "log_wf l" "al_lines l = al_lines (ps_log s) @ ls"
    by blast
  then show ?thesis by (rule ahead_grow [OF assms(1)]) simp_all
qed

lemma ahead_audit: "ahead base s \<Longrightarrow> ahead base (audit cfg row s)"
  unfolding audit_def using ahead_logged [of base s "px_disk cfg" row] by (metis prod.collapse)

lemma ahead_send_read:
  assumes "ahead base s" and "\<not> isWrite (hr_Method r)"
  shows "ahead base (fst (send cfg now r body s))"
proof -
  have "ahead base (s\<lparr>ps_store := u, ps_sent := ps_sent s @ [(approval_of r, forward_of cfg b r body)]\<rparr>)" for u b
    using assms by (simp add: ahead_def sent_writes_def forward_of_def)
  then show ?thesis using assms(1)
    by (auto simp: send_def Let_def ahead_audit split: option.split prod.split)
qed

lemma ahead_send_write:
  assumes "ahead base s" and "px_base cfg = Some base" and "isWrite (hr_Method r)"
    and "auditSync (px_disk cfg) (audit_row_of now KIntent (hr_Method r) (hr_Path r) (approval_of r) 0) (ps_log s) = (l, True)"
  shows "ahead base (fst (send cfg now r body (s\<lparr>ps_log := l\<rparr>)))"
proof -
  let ?row = "audit_row_of now KIntent (hr_Method r) (hr_Path r) (approval_of r) 0"
  have wf: "log_wf (ps_log s)" using assms(1) by (simp add: ahead_def)
  note log = auditSync_log [OF assms(4) wf]
  have "ahead base (s\<lparr>ps_log := l, ps_store := u,
      ps_sent := ps_sent s @ [(approval_of r, forward_of cfg base r body)]\<rparr>)" for u
  proof -
    have "al_lines l = al_lines (ps_log s) @ [Row ?row]" "Broken \<notin> set (al_lines (ps_log s))"
      if "Broken \<notin> set (al_lines l)" using log that by auto
    moreover have "intents [Row ?row] = [?row]" by (simp add: intents_def audit_row_of_def)
    moreover have "intended base ?row = (hr_Method r, base @ hr_Path r, approval_of r)"
      by (simp add: intended_def audit_row_of_def)
    moreover have "sent_writes (s\<lparr>ps_log := l, ps_store := u,
        ps_sent := ps_sent s @ [(approval_of r, forward_of cfg base r body)]\<rparr>)
        = sent_writes s @ [(hr_Method r, base @ hr_Path r, approval_of r)]"
      using assms(3) by (simp add: sent_writes_def forward_of_def)
    ultimately show ?thesis using log assms(1) by (auto simp: ahead_def)
  qed
  then show ?thesis using assms(2)
    by (auto simp: send_def Let_def ahead_audit split: option.split prod.split)
qed

lemma ahead_serve:
  assumes "ahead base s" and "px_base cfg = Some base"
  shows "ahead base (fst (proxy_serve cfg now r s))"
proof (cases "refusal cfg r")
  case (Some x)
  then show ?thesis using assms(1) by (simp add: proxy_serve_def ahead_audit split: prod.split)
next
  case None
  show ?thesis
  proof (cases "hr_Body r")
    case None
    then show ?thesis using \<open>refusal cfg r = None\<close> assms(1) by (simp add: proxy_serve_def)
  next
    case (Some body)
    let ?row = "audit_row_of now KIntent (hr_Method r) (hr_Path r) (approval_of r) 0"
    obtain l ok where l: "auditSync (px_disk cfg) ?row (ps_log s) = (l, ok)" by force
    have "ahead base (s\<lparr>ps_log := l\<rparr>)" using ahead_logged [OF assms(1) l] .
    then show ?thesis
      using \<open>refusal cfg r = None\<close> Some l assms ahead_send_read ahead_send_write [OF assms(1,2)]
      by (auto simp: proxy_serve_def split: bool.split)
  qed
qed

lemma ahead_serve_all:
  "px_base cfg = Some base \<Longrightarrow> ahead base s \<Longrightarrow> ahead base (serve_all cfg rs s)"
proof (induction rs arbitrary: s)
  case (Cons x rs)
  then show ?case by (cases x) (simp add: ahead_serve)
qed simp

lemma ahead_start: "ahead base (proxy_start u)"
  by (simp add: ahead_def proxy_start_def log_wf_def sent_writes_def)

end
