(* ===== verification/AuditJoin.thy ===== *)
theory AuditJoin
  imports StoreProxy PublishGate
begin

text \<open>
  The join of the proxy's audit log with the recorded approvals (\<open>internal/auditjoin\<close>), and its
  composition with the proxy: what a verdict of the join says about the requests that left. A
  line is what \<open>json.Unmarshal\<close> makes of it, \<open>None\<close> where it fails; lines are assumed shorter
  than the scanner's buffer of one megabyte. The messages of the errors are not modelled.
\<close>

subsection \<open>The join\<close>

record join_row =
  rw_Kind :: string
  rw_Method :: string
  rw_Path :: string
  rw_ApprovalID :: string

datatype join_status = StatusOK | StatusUnmatched | StatusNotRun

record join_result =
  jr_Status :: join_status
  jr_Reads :: nat
  jr_Writes :: nat
  jr_Unmatched :: "string list"

definition not_run :: join_result where
  "not_run = \<lparr>jr_Status = StatusNotRun, jr_Reads = 0, jr_Writes = 0, jr_Unmatched = []\<rparr>"

definition match_row :: "join_row \<Rightarrow> string list \<Rightarrow> join_result \<Rightarrow> join_result" where
  "match_row r approved res =
     (if rw_ApprovalID r \<in> set approved then res
      else res\<lparr>jr_Unmatched := jr_Unmatched res @
        [rw_Method r @ '' '' @ rw_Path r @ '' approval='' @ rw_ApprovalID r]\<rparr>)"

definition is_read :: "string \<Rightarrow> bool" where "is_read m \<longleftrightarrow> m = ''GET'' \<or> m = ''HEAD''"

definition tally :: "join_row \<Rightarrow> string list \<Rightarrow> join_result \<Rightarrow> join_result" where
  "tally r approved res =
     (if rw_Kind r = ''intent'' then
        (let res = res\<lparr>jr_Writes := jr_Writes res + 1\<rparr> in
         if rw_ApprovalID r = []
         then res\<lparr>jr_Unmatched := jr_Unmatched res @ [rw_Method r @ '' '' @ rw_Path r @ '' (no approval id)'']\<rparr>
         else match_row r approved res)
      else if rw_Kind r = [] \<and> \<not> is_read (rw_Method r) then
        match_row r approved (res\<lparr>jr_Writes := jr_Writes res + 1\<rparr>)
      else if is_read (rw_Method r) then res\<lparr>jr_Reads := jr_Reads res + 1\<rparr>
      else res)"

definition parseRow :: "join_row option \<Rightarrow> join_row option" where
  "parseRow line =
     (case line of
        None \<Rightarrow> None
      | Some r \<Rightarrow> if rw_Method r = [] \<or> rw_Path r = [] then None else Some r)"

text \<open>The scan: \<open>None\<close> at the first line that does not parse; otherwise the tally, and whether
  there was a row.\<close>

fun join_scan ::
  "string \<Rightarrow> string list \<Rightarrow> join_row option list \<Rightarrow> join_result \<times> bool \<Rightarrow> (join_result \<times> bool) option" where
  "join_scan only approved [] acc = Some acc"
| "join_scan only approved (l # ls) (res, haveRow) =
     (case parseRow l of
        None \<Rightarrow> None
      | Some r \<Rightarrow>
          join_scan only approved ls
            (if only \<noteq> [] \<and> rw_ApprovalID r \<noteq> only then res else tally r approved res, True))"

definition join_log :: "join_row option list option \<Rightarrow> string list option \<Rightarrow> string \<Rightarrow> join_result" where
  "join_log file approvals only =
     (case file of
        None \<Rightarrow> not_run
      | Some ls \<Rightarrow>
      (case approvals of
        None \<Rightarrow> not_run
      | Some approved \<Rightarrow>
      (case join_scan only approved ls (not_run, False) of
        None \<Rightarrow> not_run
      | Some (res, haveRow) \<Rightarrow>
          if \<not> haveRow then not_run
          else if jr_Unmatched res \<noteq> [] then res\<lparr>jr_Status := StatusUnmatched\<rparr>
          else res\<lparr>jr_Status := StatusOK\<rparr>)))"

definition join_all :: "join_row option list option \<Rightarrow> string list option \<Rightarrow> join_result" where
  "join_all file approvals = join_log file approvals []"

definition joinApproval :: "join_row option list option \<Rightarrow> string list option \<Rightarrow> string \<Rightarrow> join_result" where
  "joinApproval file approvals approvalID =
     (if approvalID = [] then not_run
      else let res = join_log file approvals approvalID in
      if jr_Status res \<noteq> StatusNotRun \<and> jr_Writes res = 0 then not_run\<lparr>jr_Reads := jr_Reads res\<rparr> else res)"

subsection \<open>The approvals it reads\<close>

text \<open>The columns of the table, and those that the query of \<open>ApprovedIDs\<close> names.\<close>

definition publish_approvals_columns :: "string list" where
  "publish_approvals_columns =
     [''workflow_id'', ''tenant_id'', ''product_id'', ''decision'', ''actor'', ''reason'', ''update_id'', ''decided_at'']"

definition approved_ids_columns :: "string list" where
  "approved_ids_columns = [''workflow_id'', ''decision'', ''created_at'']"

text \<open>\<open>created\<close> is the value of the column \<open>created_at\<close> of the row of a workflow, if there is one.\<close>

definition pg_approvedIDs :: "string list \<Rightarrow> (string \<Rightarrow> gotime) \<Rightarrow> gotime \<Rightarrow> pg_state \<Rightarrow> string list option" where
  "pg_approvedIDs columns created since s =
     (if \<not> list_all (\<lambda>c. c \<in> set columns) approved_ids_columns then None
      else Some (map fst (filter (\<lambda>(i, d). dec_Approved d \<and> since \<le> created i) (pg_approvals s))))"

text \<open>The nightly join never runs. The query that reads the approvals names the column
  \<open>created_at\<close>, which the table of the migrations does not have (the time of a decision is
  \<open>decided_at\<close>), so the read fails and the verdict is NOT_RUN for every log, for the whole log
  and for a single approval.\<close>

theorem nightly_join_never_runs:
  "jr_Status (join_all file (pg_approvedIDs publish_approvals_columns created since s)) = StatusNotRun
   \<and> jr_Status (joinApproval file (pg_approvedIDs publish_approvals_columns created since s) i) = StatusNotRun"
  by (simp add: join_all_def joinApproval_def join_log_def pg_approvedIDs_def approved_ids_columns_def
      publish_approvals_columns_def not_run_def Let_def split: option.split)

subsection \<open>What a scan has seen\<close>

definition counted :: "join_row \<Rightarrow> bool" where
  "counted r \<longleftrightarrow> rw_Kind r = ''intent'' \<or> (rw_Kind r = [] \<and> \<not> is_read (rw_Method r))"

lemma tally_simps:
  "jr_Writes (tally r approved res) = jr_Writes res + (if counted r then 1 else 0)"
  "jr_Unmatched (tally r approved res) = [] \<longleftrightarrow>
     jr_Unmatched res = [] \<and> (counted r \<longrightarrow> rw_ApprovalID r \<in> set approved \<and> (rw_Kind r = ''intent'' \<longrightarrow> rw_ApprovalID r \<noteq> []))"
  "jr_Status (tally r approved res) = jr_Status res"
  by (auto simp: tally_def match_row_def counted_def Let_def)

lemma join_scan_all:
  "join_scan [] approved ls (res, h) = Some (res', h') \<Longrightarrow>
     None \<notin> set ls
     \<and> jr_Writes res' = jr_Writes res + length (filter counted (map the ls))
     \<and> (jr_Unmatched res' = [] \<longleftrightarrow> jr_Unmatched res = [] \<and>
          list_all (\<lambda>r. counted r \<longrightarrow> rw_ApprovalID r \<in> set approved \<and> (rw_Kind r = ''intent'' \<longrightarrow> rw_ApprovalID r \<noteq> []))
            (map the ls))
     \<and> (h' \<longleftrightarrow> h \<or> ls \<noteq> [])"
proof (induction ls arbitrary: res h)
  case (Cons l ls)
  from Cons.prems obtain r where r: "l = Some r" "parseRow l = Some r"
    by (auto simp: parseRow_def split: option.splits if_splits)
  then have "join_scan [] approved ls (tally r approved res, True) = Some (res', h')" using Cons.prems by simp
  from Cons.IH [OF this] show ?case using r by (auto simp: tally_simps)
qed simp

subsection \<open>The lines of the proxy\<close>

fun kind_string :: "audit_kind \<Rightarrow> string" where
  "kind_string KIntent = ''intent''"
| "kind_string KDone = ''done''"
| "kind_string KUnknown = ''unknown''"
| "kind_string KRefused = ''refused''"

definition read_line :: "audit_line \<Rightarrow> join_row option" where
  "read_line l =
     (case l of
        Broken \<Rightarrow> None
      | Row r \<Rightarrow> Some \<lparr>rw_Kind = kind_string (ar_Kind r), rw_Method = utf8_clean (ar_Method r),
                      rw_Path = utf8_clean (ar_Path r), rw_ApprovalID = utf8_clean (ar_ApprovalID r)\<rparr>)"

definition proxy_log :: "'u proxy_state \<Rightarrow> join_row option list option" where
  "proxy_log s = Some (map read_line (al_lines (ps_log s)))"

lemma kind_intent: "kind_string k = ''intent'' \<longleftrightarrow> k = KIntent" "kind_string k \<noteq> []"
  by (cases k; simp)+

lemma counted_lines:
  "Broken \<notin> set ls \<Longrightarrow>
   filter counted (map (the \<circ> read_line) ls) = map (\<lambda>r. the (read_line (Row r))) (intents ls)"
proof (induction ls)
  case (Cons l ls)
  then show ?case by (cases l) (auto simp: intents_def counted_def read_line_def kind_intent)
qed (simp add: intents_def)


definition sample_proxy :: "forward_request list proxy_config" where
  "sample_proxy =
     \<lparr>px_base = Some [], px_ConsumerKey = ''ck'', px_ConsumerSecret = ''cs'', px_mime = (\<lambda>c. Some c),
      px_disk = (\<lambda>_. Written), px_store = (\<lambda>fw u. (u @ [fw], Some (200, ''application/json'', ''{}'')))\<rparr>"

definition sample_http :: "string \<Rightarrow> string \<Rightarrow> http_request" where
  "sample_http m path =
     \<lparr>hr_Method = m, hr_Path = path, hr_RawPath = [], hr_Query = [(''consumer_key'', [''stolen''])],
      hr_Header = [(''X-Approval-Id'', ['' wf-1'']), (''Content-Type'', [''application/json'']), (''Cookie'', [''c''])],
      hr_Body = Some ''{}''\<rparr>"


subsection \<open>Lines that stop the join\<close>

lemma join_scan_bad:
  "l \<in> set ls \<Longrightarrow> parseRow l = None \<Longrightarrow> join_scan only approved ls acc = None"
proof (induction ls arbitrary: acc)
  case (Cons x ls)
  then show ?case by (cases acc) (auto split: option.split)
qed simp

lemma join_bad:
  assumes "l \<in> set ls" "parseRow l = None"
  shows "jr_Status (join_log (Some ls) approvals only) = StatusNotRun"
  using join_scan_bad [OF assms] by (simp add: join_log_def not_run_def split: option.split)

definition sound_log :: "audit_log \<Rightarrow> bool" where
  "sound_log l \<longleftrightarrow> al_open l \<and> \<not> al_torn l"

lemma audit_sound:
  assumes "\<forall>n. px_disk cfg n = Written" and "sound_log (ps_log s)"
  shows "sound_log (ps_log (audit cfg row s)) \<and> al_lines (ps_log (audit cfg row s)) = al_lines (ps_log s) @ [Row row]"
  using assms by (simp add: audit_def auditSync_def sound_log_def log_line_def Let_def)

lemma serve_sound:
  assumes "\<forall>n. px_disk cfg n = Written" and "sound_log (ps_log s)"
  shows "sound_log (ps_log (fst (proxy_serve cfg now r s)))
    \<and> set (al_lines (ps_log s)) \<subseteq> set (al_lines (ps_log (fst (proxy_serve cfg now r s))))"
proof -
  have send: "sound_log (ps_log (fst (send cfg now r body x)))
      \<and> set (al_lines (ps_log x)) \<subseteq> set (al_lines (ps_log (fst (send cfg now r body x))))"
    if "sound_log (ps_log x)" for body x
  proof (cases "px_base cfg")
    case (Some base)
    obtain u resp where u: "px_store cfg (forward_of cfg base r body) (ps_store x) = (u, resp)" by force
    let ?x = "x\<lparr>ps_store := u, ps_sent := ps_sent x @ [(approval_of r, forward_of cfg base r body)]\<rparr>"
    have "sound_log (ps_log ?x)" using that by simp
    from audit_sound [OF assms(1) this] show ?thesis using Some u
      by (simp add: send_def Let_def subset_insertI split: option.split prod.split)
  qed (use that in \<open>simp add: send_def\<close>)
  obtain l ok where l: "auditSync (px_disk cfg)
      (audit_row_of now KIntent (hr_Method r) (hr_Path r) (approval_of r) 0) (ps_log s) = (l, ok)" by force
  then have "sound_log l \<and> set (al_lines (ps_log s)) \<subseteq> set (al_lines l)"
    using assms by (auto simp: auditSync_def sound_log_def log_line_def Let_def)
  then show ?thesis using assms(2) audit_sound [OF assms] send [of s] send [of "s\<lparr>ps_log := l\<rparr>"] l
    by (auto simp: proxy_serve_def split: option.split prod.split bool.split) blast
qed

lemma serve_all_mono:
  "\<forall>n. px_disk cfg n = Written \<Longrightarrow> sound_log (ps_log s) \<Longrightarrow>
   set (al_lines (ps_log s)) \<subseteq> set (al_lines (ps_log (serve_all cfg xs s)))"
proof (induction xs arbitrary: s)
  case (Cons x xs)
  obtain t q where "x = (t, q)" by force
  then show ?case using Cons.IH [OF Cons.prems(1)] serve_sound [OF Cons.prems, of t q] by auto
qed simp

lemma empty_path_logged:
  "\<forall>n. px_disk cfg n = Written \<Longrightarrow> hr_Path r = [] \<Longrightarrow> sound_log (ps_log s) \<Longrightarrow> (now, r) \<in> set xs \<Longrightarrow>
   \<exists>row. Row row \<in> set (al_lines (ps_log (serve_all cfg xs s))) \<and> ar_Path row = []"
proof (induction xs arbitrary: s)
  case (Cons x xs)
  obtain t q where x: "x = (t, q)" by force
  note step = serve_sound [OF Cons.prems(1,3), of t q]
  show ?case
  proof (cases "x = (now, r)")
    case True
    define row where "row = audit_row_of now KRefused (hr_Method r) [] (approval_of r) 403"
    have "refusal cfg r = Some (approval_of r, 403)"
      using Cons.prems(2) by (simp add: refusal_def pathAllowed_def allowedPrefixes_def)
    then have "Row row \<in> set (al_lines (ps_log (fst (proxy_serve cfg now r s))))"
      using audit_sound [OF Cons.prems(1,3)] Cons.prems(2) by (simp add: proxy_serve_def row_def)
    moreover have "ar_Path row = []" by (simp add: row_def audit_row_of_def)
    ultimately show ?thesis
      using serve_all_mono [OF Cons.prems(1) conjunct1 [OF step], of xs] True x by auto
  next
    case False
    then have "(now, r) \<in> set xs" using Cons.prems(4) by auto
    from Cons.IH [OF Cons.prems(1,2) conjunct1 [OF step] this] show ?thesis using x by simp
  qed
qed simp

text \<open>One refused request can stop the join. A request without a path, which the proxy
  refuses and logs, leaves a row that the join does not accept, so the verdict of the whole log is
  NOT_RUN from then on, whatever else was served.\<close>

theorem refused_empty_path_blocks_join:
  assumes "\<forall>n. px_disk cfg n = Written" and "(now, r) \<in> set rs" and "hr_Path r = []"
  shows "jr_Status (join_all (proxy_log (serve_all cfg rs (proxy_start u))) approvals) = StatusNotRun"
proof -
  have "sound_log (ps_log (proxy_start u))" by (simp add: proxy_start_def sound_log_def)
  from empty_path_logged [OF assms(1,3) this assms(2)] obtain row
    where row: "Row row \<in> set (al_lines (ps_log (serve_all cfg rs (proxy_start u))))" "ar_Path row = []" by blast
  then have "read_line (Row row) \<in> set (map read_line (al_lines (ps_log (serve_all cfg rs (proxy_start u)))))"
    by simp
  moreover have "parseRow (read_line (Row row)) = None" using row(2) by (simp add: read_line_def parseRow_def)
  ultimately show ?thesis unfolding join_all_def proxy_log_def by (rule join_bad)
qed

theorem refused_empty_path_blocks_join_witness:
  "jr_Status (join_all (proxy_log (serve_all sample_proxy
      [(0, sample_http ''POST'' ''/wp-json/wc/v3/products''), (1, sample_http ''GET'' [])] (proxy_start [])))
    (Some [''wf-1''])) = StatusNotRun"
  by (rule refused_empty_path_blocks_join [where now = 1 and r = "sample_http ''GET'' []"])
    (simp_all add: sample_proxy_def sample_http_def)

end
