(* ===== verification/PublishPipeline.thy ===== *)
theory PublishPipeline
  imports AuditJoin Catalog
begin

text \<open>
  The way from a publish to the store: the WooCommerce client and the adapter that makes it the
  gate's port (\<open>internal/adapter/woocommerce\<close>, \<open>wcAdapter\<close> of \<open>cmd/temporal-worker\<close>), the
  publisher of the worker, and the transport through the counting proxy. Decoding a JSON answer
  is a parameter of the client. The last section composes the gate, the client, the proxy and the
  join.
\<close>

subsection \<open>The WooCommerce client\<close>

record woo_product =
  wp_ID :: int
  wp_Name :: string
  wp_SKU :: string
  wp_Regular :: string
  wp_ShortDesc :: string

definition wcStatus :: "product_status \<Rightarrow> string" where
  "wcStatus s = (case s of StatusActive \<Rightarrow> ''publish'' | StatusArchived \<Rightarrow> ''private'' | _ \<Rightarrow> ''draft'')"

definition FieldsFor :: "string \<Rightarrow> string \<Rightarrow> string \<Rightarrow> string \<Rightarrow> int \<Rightarrow> string \<Rightarrow> (string, string) gomap" where
  "FieldsFor sku title description price stock status =
     [(''sku'', sku), (''name'', title), (''short_description'', description),
      (''regular_price'', price), (''stock_quantity'', format_int stock), (''status'', status)]"

record woo_client =
  cl_basePath :: string
  cl_consumerKey :: string
  cl_consumerSecret :: string
  cl_decodeList :: "string \<Rightarrow> woo_product list option"
  cl_decodeOne :: "string \<Rightarrow> woo_product option"

type_synonym 'w transport = "http_request \<Rightarrow> 'w \<Rightarrow> 'w \<times> (net_err + int \<times> string)"

definition endpoint_query :: "woo_client \<Rightarrow> url_values \<Rightarrow> url_values" where
  "endpoint_query cl values =
     (let q = (if cl_consumerKey cl \<noteq> [] then mput ''consumer_key'' [cl_consumerKey cl] values else values)
      in if cl_consumerSecret cl \<noteq> [] then mput ''consumer_secret'' [cl_consumerSecret cl] q else q)"

definition auth_header :: "woo_client \<Rightarrow> header \<Rightarrow> header" where
  "auth_header cl h =
     (if cl_consumerKey cl \<noteq> [] \<or> cl_consumerSecret cl \<noteq> []
      then mput ''Authorization''
        [''Basic '' @ base64_encode base64_std True (cl_consumerKey cl @ '':'' @ cl_consumerSecret cl)] h
      else h)"

definition woo_request :: "woo_client \<Rightarrow> string \<Rightarrow> string \<Rightarrow> string \<Rightarrow> url_values \<Rightarrow> string \<Rightarrow> http_request" where
  "woo_request cl approval meth path values body =
     (let h = auth_header cl [(''Content-Type'', [''application/json'']), (''Accept'', [''application/json''])]
      in \<lparr>hr_Method = meth, hr_Path = cl_basePath cl @ ''/wp-json/wc/v3'' @ path, hr_RawPath = [],
          hr_Query = endpoint_query cl values,
          hr_Header = (if approval \<noteq> [] then mput ApprovalHeader [approval] h else h),
          hr_Body = Some body\<rparr>)"

definition doJSON ::
  "'w transport \<Rightarrow> woo_client \<Rightarrow> string \<Rightarrow> string \<Rightarrow> string \<Rightarrow> url_values \<Rightarrow> string \<Rightarrow> (string \<Rightarrow> 'a option) \<Rightarrow>
   'w \<Rightarrow> 'w \<times> (net_err + 'a)" where
  "doJSON tr cl approval meth path values body decode w =
     (case tr (woo_request cl approval meth path values body) w of
        (w', Err e) \<Rightarrow> (w', Err (OtherErr ''send woocommerce request'' (Some e)))
      | (w', Ok (status, resp)) \<Rightarrow>
          (w', if status < 200 \<or> 300 \<le> status then Err (OtherErr ''woocommerce status'' None)
               else case decode resp of
                 None \<Rightarrow> Err (OtherErr ''decode woocommerce response'' None) | Some x \<Rightarrow> Ok x))"

definition findProductBySKU ::
  "'w transport \<Rightarrow> woo_client \<Rightarrow> string \<Rightarrow> string \<Rightarrow> 'w \<Rightarrow> 'w \<times> (net_err + woo_product option)" where
  "findProductBySKU tr cl approval sku w =
     (case doJSON tr cl approval ''GET'' ''/products'' [(''sku'', [sku])] [] (cl_decodeList cl) w of
        (w', Err e) \<Rightarrow> (w', Err e)
      | (w', Ok ps) \<Rightarrow> (w', Ok (if ps = [] then None else Some (hd ps))))"

definition updateProduct ::
  "'w transport \<Rightarrow> woo_client \<Rightarrow> string \<Rightarrow> string \<Rightarrow> (string, string) gomap \<Rightarrow> 'w \<Rightarrow> 'w \<times> (net_err + woo_product)" where
  "updateProduct tr cl approval remoteID fs w =
     (case parse_int64 remoteID of
        None \<Rightarrow> (w, Err (OtherErr ''woocommerce update: bad remote id'' None))
      | Some i \<Rightarrow>
          doJSON tr cl approval ''PUT'' (''/products/'' @ format_int i) [] (json_map fs) (cl_decodeOne cl) w)"

definition createProduct ::
  "'w transport \<Rightarrow> woo_client \<Rightarrow> string \<Rightarrow> (string, string) gomap \<Rightarrow> 'w \<Rightarrow> 'w \<times> (net_err + woo_product)" where
  "createProduct tr cl approval fs w =
     doJSON tr cl approval ''POST'' ''/products'' [] (json_map fs) (cl_decodeOne cl) w"

subsection \<open>The gate's port and the publisher\<close>

definition liveFieldsOf :: "woo_product \<Rightarrow> (string, string) gomap" where
  "liveFieldsOf p =
     (let f = [(''name'', wp_Name p), (''sku'', wp_SKU p)];
          f = (if wp_Regular p \<noteq> [] then mput ''regular_price'' (wp_Regular p) f else f)
      in if wp_ShortDesc p \<noteq> [] then mput ''short_description'' (wp_ShortDesc p) f else f)"

definition remote_of :: "woo_product \<Rightarrow> remote_product" where
  "remote_of p = \<lparr>rp_ID = format_int (wp_ID p), rp_Fields = liveFieldsOf p\<rparr>"

definition map_ok :: "('a \<Rightarrow> 'b) \<Rightarrow> 'w \<times> ('e + 'a) \<Rightarrow> 'w \<times> ('e + 'b)" where
  "map_ok f x = (case x of (w, Err e) \<Rightarrow> (w, Err e) | (w, Ok a) \<Rightarrow> (w, Ok (f a)))"

definition wcAdapter :: "'w transport \<Rightarrow> woo_client \<Rightarrow> 'w woocommerce" where
  "wcAdapter tr cl =
     \<lparr>wc_findBySKU = (\<lambda>a sku w. map_ok (map_option remote_of) (findProductBySKU tr cl a sku w)),
      wc_update = (\<lambda>a i fs w. map_ok remote_of (updateProduct tr cl a i fs w)),
      wc_create = (\<lambda>a fs w. map_ok remote_of (createProduct tr cl a fs w))\<rparr>"

text \<open>\<open>fmt.Sprintf("%.2f", float64(cents)/100)\<close>: two decimals, exact for amounts from zero to \<open>2^52\<close> cents.\<close>

definition format_cents :: "int \<Rightarrow> string" where
  "format_cents a = format_int (a div 100) @ ''.'' @ [digit_char (nat (a mod 100 div 10)), digit_char (nat (a mod 10))]"

datatype publisher_error = GateNotConfigured | InvalidProductID | LoadProduct | GateError gate_error

definition publishToWooCommerce ::
  "(string \<Rightarrow> string) \<Rightarrow> 's gate_store \<Rightarrow> 'w woocommerce \<Rightarrow> gate option \<Rightarrow> (string \<Rightarrow> uuid option) \<Rightarrow>
   (uuid \<Rightarrow> product option) \<Rightarrow> string \<Rightarrow> string \<Rightarrow> ('s, 'w) gate_world \<Rightarrow>
   ('s, 'w) gate_world \<times> (publisher_error + unit)" where
  "publishToWooCommerce sha st wc g parseUUID products productID workflowID w =
     (case g of
        None \<Rightarrow> (w, Err GateNotConfigured)
      | Some g \<Rightarrow>
      (case parseUUID productID of
        None \<Rightarrow> (w, Err InvalidProductID)
      | Some i \<Rightarrow>
      (case products i of
        None \<Rightarrow> (w, Err LoadProduct)
      | Some p \<Rightarrow>
          (case publish sha st wc g
                 \<lparr>rq_WorkflowID = workflowID, rq_TenantID = [], rq_ProductID = productID,
                  rq_SKU = prod_sku p,
                  rq_Fields = FieldsFor (prod_sku p) (prod_title p) (prod_description p)
                    (format_cents (amount (prod_price p))) (prod_stock p) (wcStatus (prod_status p))\<rparr> w of
             (w', Err e) \<Rightarrow> (w', Err (GateError e))
           | (w', Ok _) \<Rightarrow> (w', Ok ())))))"

text \<open>A publish of the worker never finds the store up to date. The fields it wants include
  the stock and the status, which the live fields it compares with never contain, so a product
  that the store already has exactly as wanted is not recognised, and is written again.\<close>

theorem worker_never_matches:
  "\<not> matches (liveFieldsOf p) (FieldsFor sku title description price stock status)"
  by (simp add: matches_def FieldsFor_def liveFieldsOf_def mget_def mput_def Let_def)

subsection \<open>Through the proxy\<close>

definition proxied :: "'u proxy_config \<Rightarrow> gotime \<Rightarrow> 'u proxy_state transport" where
  "proxied cfg now r s = (let (s', (status, ct, body)) = proxy_serve cfg now r s in (s', Ok (status, body)))"

text \<open>What a predicate of the remote store needs to survive the calls that carry the id \<open>a\<close>.\<close>

definition calls_keep :: "'w woocommerce \<Rightarrow> string \<Rightarrow> ('w \<Rightarrow> bool) \<Rightarrow> bool" where
  "calls_keep wc a I \<longleftrightarrow>
     (\<forall>r. I r \<longrightarrow> (\<forall>sku. I (fst (wc_findBySKU wc a sku r))) \<and> (\<forall>i fs. I (fst (wc_update wc a i fs r)))
        \<and> (\<forall>fs. I (fst (wc_create wc a fs r))))"

lemma gate_write_remote:
  assumes "calls_keep wc (rq_WorkflowID req) I" and "I (gw_remote w)"
  shows "I (gw_remote (fst (gate_write st wc g req k w)))"
proof -
  have keep: "I (gw_remote (fst (call_find wc req x)))" "I (gw_remote (fst (call_update wc req i x)))"
    "I (gw_remote (fst (call_create wc req x)))" if "I (gw_remote x)" for x i
    using that assms(1)
    by (auto simp: calls_keep_def call_find_def call_update_def call_create_def split: prod.split) (metis fst_conv)+
  obtain w2 f where f: "call_find wc req w = (w2, f)" by force
  then have i2: "I (gw_remote w2)" using keep(1) [OF assms(2)] by simp
  obtain w3 c where c: "call_create wc req w2 = (w3, c)" by force
  then have i3: "I (gw_remote w3)" using keep(3) [OF i2] by simp
  have "I (gw_remote w4)" if "call_update wc req i w2 = (w4, u)" for i w4 u
    using keep(2) [OF i2, of i] that by simp
  then show ?thesis using f i2 c i3 assms(2)
    by (auto simp: gate_write_def gate_fail_def gate_complete_def Let_def
        split: prod.split sum.split option.split)
qed

lemma publish_remote:
  assumes "calls_keep wc (rq_WorkflowID req) I" and "I (gw_remote w)"
  shows "I (gw_remote (fst (publish sha st wc g req w)))"
proof (cases "key sha (rq_ProductID req) (rq_Fields req)")
  case (Inr k)
  obtain s c where c: "gs_claim st (claim_args_of sha g req k) (gw_store w) = (s, c)" by force
  have "I (gw_remote (w\<lparr>gw_store := s\<rparr>))" using assms(2) by simp
  from gate_write_remote [OF assms(1) this, of st g k] show ?thesis
    using assms(2) c Inr by (auto simp: publish_def split: sum.split)
qed (use assms(2) in \<open>auto simp: publish_def split: sum.split\<close>)

subsection \<open>The whole way\<close>

text \<open>The approval that a request of the client carries is the workflow id, trimmed.\<close>

lemma canonical_approval: "canonical ApprovalHeader = ApprovalHeader"
  by code_simp

lemma woo_request_approval: "approval_of (woo_request cl a meth path values body) = trim_space a"
proof -
  have "header_get (mput ApprovalHeader [a] h) ApprovalHeader = a" for h
    by (simp add: header_get_def canonical_approval)
  moreover have "header_get (auth_header cl [(''Content-Type'', x), (''Accept'', y)]) ApprovalHeader = []" for x y
    by (simp add: header_get_def canonical_approval auth_header_def mput_def mget_def)
      (simp add: ApprovalHeader_def)
  ultimately show ?thesis by (simp add: approval_of_def woo_request_def Let_def)
qed

lemma audit_lines:
  "\<exists>ls. al_lines (ps_log (audit cfg row s)) = al_lines (ps_log s) @ ls \<and> set ls \<subseteq> {Row row, Broken}"
  by (auto simp: audit_def auditSync_def log_line_def Let_def split: disk_outcome.split)

lemma intents_audit:
  assumes "ar_Kind row \<noteq> KIntent"
  shows "set (intents (al_lines (ps_log (audit cfg row s)))) = set (intents (al_lines (ps_log s)))"
proof -
  obtain ls where ls: "al_lines (ps_log (audit cfg row s)) = al_lines (ps_log s) @ ls" "set ls \<subseteq> {Row row, Broken}"
    using audit_lines [of cfg row s] by blast
  then have "intents ls = []" using assms by (auto simp: intents_def split: audit_line.split)
  then show ?thesis using ls(1) by simp
qed

lemma serve_intents:
  "set (intents (al_lines (ps_log (fst (proxy_serve cfg now r s))))) \<subseteq> set (intents (al_lines (ps_log s)))
     \<union> (if approval_of r = [] then {} else {audit_row_of now KIntent (hr_Method r) (hr_Path r) (approval_of r) 0})"
proof -
  let ?row = "audit_row_of now KIntent (hr_Method r) (hr_Path r) (approval_of r) 0"
  let ?S = "\<lambda>x. set (intents (al_lines (ps_log x)))"
  have other: "?S (audit cfg (audit_row_of now k m p a st) x) = ?S x" if "k \<noteq> KIntent" for k m p a st x
    using that by (intro intents_audit) (simp add: audit_row_of_def)
  have send: "?S (fst (send cfg now r body x)) = ?S x" for body x
    by (auto simp: send_def Let_def other split: option.split prod.split)
  show ?thesis
  proof (cases "refusal cfg r")
    case (Some x)
    then show ?thesis by (auto simp: proxy_serve_def other split: prod.split)
  next
    case None
    obtain l ok where l: "auditSync (px_disk cfg) ?row (ps_log s) = (l, ok)" by force
    have "audit cfg ?row s = s\<lparr>ps_log := l\<rparr>" using l by (simp add: audit_def)
    then obtain ls where "al_lines l = al_lines (ps_log s) @ ls" "set ls \<subseteq> {Row ?row, Broken}"
      using audit_lines [of cfg ?row s] by auto
    then have new: "set (intents (al_lines l)) \<subseteq> insert ?row (?S s)"
      by (auto simp: intents_def split: audit_line.splits if_splits)
    have "approval_of r \<noteq> []" if "isWrite (hr_Method r)"
      using that None by (auto simp: refusal_def isWrite_def split: if_splits)
    then show ?thesis using None l new send
      by (auto simp: proxy_serve_def split: option.split bool.split)
  qed
qed

text \<open>The invariant of the whole way: every intent of the log has a good approval id.\<close>

definition intents_good :: "(string \<Rightarrow> bool) \<Rightarrow> 'u proxy_state \<Rightarrow> bool" where
  "intents_good good s \<longleftrightarrow> list_all (\<lambda>row. ar_ApprovalID row \<noteq> [] \<and> good (ar_ApprovalID row)) (intents (al_lines (ps_log s)))"

lemma proxied_good:
  assumes "intents_good good s" and "good (approval_of r)"
  shows "intents_good good (fst (proxied cfg now r s))"
proof -
  have "fst (proxied cfg now r s) = fst (proxy_serve cfg now r s)"
    by (simp add: proxied_def split: prod.split)
  then show ?thesis using serve_intents [of cfg now r s] assms
    by (fastforce simp: intents_good_def list_all_iff audit_row_of_def split: if_splits)
qed

lemma doJSON_state:
  "fst (doJSON tr cl a meth path values body dec w) = fst (tr (woo_request cl a meth path values body) w)"
  by (simp add: doJSON_def split: prod.split sum.split)

lemma map_ok_state [simp]: "fst (map_ok f x) = fst x"
  by (simp add: map_ok_def split: prod.split sum.split)

lemma find_state:
  "fst (findProductBySKU tr cl a sku w) = fst (tr (woo_request cl a ''GET'' ''/products'' [(''sku'', [sku])] []) w)"
  unfolding findProductBySKU_def doJSON_state [symmetric, where dec = "cl_decodeList cl"]
  by (simp split: prod.split sum.split)

lemma update_state:
  "fst (updateProduct tr cl a i fs w) = w \<or>
   (\<exists>path. fst (updateProduct tr cl a i fs w) = fst (tr (woo_request cl a ''PUT'' path [] (json_map fs)) w))"
  by (auto simp: updateProduct_def doJSON_state split: option.split)

lemma client_calls_keep:
  assumes "good (trim_space a)"
  shows "calls_keep (wcAdapter (proxied cfg now) cl) a (intents_good good)"
proof -
  have tr: "intents_good good (fst (proxied cfg now (woo_request cl a meth path vs body) s))"
    if "intents_good good s" for meth path vs body s
    by (rule proxied_good [OF that]) (simp add: woo_request_approval assms)
  have "intents_good good (fst (updateProduct (proxied cfg now) cl a i fs s))"
    if "intents_good good s" for i fs s
    using update_state [of "proxied cfg now" cl a i fs s] that tr by auto
  then show ?thesis
    by (simp add: calls_keep_def wcAdapter_def find_state createProduct_def doJSON_state tr)
qed

text \<open>The approved workflow ids of the table, and the histories of the worker: no operation of the
  remote store but the gate's, and workflow ids of printable characters.\<close>

definition approved_ids :: "pg_state \<Rightarrow> string list" where
  "approved_ids s = map fst (filter (\<lambda>(i, d). dec_Approved d) (pg_approvals s))"

definition worker_op :: "'w gate_op \<Rightarrow> bool" where
  "worker_op p = (case p of
     OpRemote _ \<Rightarrow> False
   | OpPublish g req \<Rightarrow> trim_space (rq_WorkflowID req) = rq_WorkflowID req \<and> valid_utf8 (rq_WorkflowID req)
   | _ \<Rightarrow> True)"

definition good_id :: "pg_state \<Rightarrow> string \<Rightarrow> bool" where
  "good_id s a \<longleftrightarrow> valid_utf8 a \<and> (\<exists>d. pg_appr s a = Some d \<and> dec_Approved d)"

lemma good_id_approved: "good_id s a \<Longrightarrow> a \<in> set (approved_ids s)"
  by (force simp: good_id_def approved_ids_def pg_appr_def dest: mget_Some_in)

lemma good_id_mono: "good_id (gw_store w) a \<Longrightarrow> good_id (gw_store (gate_exec sha uid wc p w)) a"
  using exec_decision_final by (fastforce simp: good_id_def)

lemma intents_good_mono:
  "(\<And>a. good a \<Longrightarrow> good' a) \<Longrightarrow> intents_good good s \<Longrightarrow> intents_good good' s"
  by (auto simp: intents_good_def list_all_iff)

lemma publish_intents:
  assumes "intents_good (good_id (gw_store w)) (gw_remote w)" and "worker_op (OpPublish g req)"
    and "wc = wcAdapter (proxied cfg now) cl"
  shows "intents_good (good_id (gw_store w)) (gw_remote (fst (publish sha (pg_store uid) wc g req w)))"
proof (cases "good_id (gw_store w) (rq_WorkflowID req)")
  case True
  then have "good_id (gw_store w) (trim_space (rq_WorkflowID req))" using assms(2) by (simp add: worker_op_def)
  note keep = client_calls_keep [where good = "good_id (gw_store w)", OF this]
  from publish_remote [OF keep assms(1)] show ?thesis by (simp add: assms(3))
next
  case False
  then have "\<exists>e. publish sha (pg_store uid) wc g req w = (w, Err e)"
    using assms(2) by (intro pgs.publish_closed) (simp add: good_id_def worker_op_def split: option.split)
  then show ?thesis using assms(1) by auto
qed

lemma history_intents:
  assumes "intents_good (good_id (gw_store w)) (gw_remote w)" and "list_all worker_op ops"
    and "wc = wcAdapter (proxied cfg now) cl"
  shows "intents_good (good_id (gw_store (gate_history sha uid wc ops w))) (gw_remote (gate_history sha uid wc ops w))"
  using assms(1,2)
proof (induction ops arbitrary: w)
  case (Cons p ps)
  have "intents_good (good_id (gw_store w)) (gw_remote (gate_exec sha uid wc p w))"
    using Cons.prems publish_intents [OF _ _ assms(3)] by (cases p) (auto simp: worker_op_def)
  then have "intents_good (good_id (gw_store (gate_exec sha uid wc p w))) (gw_remote (gate_exec sha uid wc p w))"
    by (rule intents_good_mono [rotated]) (rule good_id_mono)
  then show ?case using Cons.IH Cons.prems(2) by simp
qed simp

text \<open>C13: The audit trail of the gate reconciles. For every history of recorded decisions,
  publishes through the proxy (with whatever answers and failures of store and disk) and clock
  moves, the join of the proxy's log with the approved workflow ids never reports an unmatched
  write: every write-ahead row carries an approval that was given, and none without an id.\<close>

theorem gate_log_never_unmatched:
  assumes "list_all worker_op ops" and "wc = wcAdapter (proxied cfg now) cl"
    and "w = gate_history sha uid wc ops (fresh_world s (proxy_start u))"
  shows "jr_Status (join_all (proxy_log (gw_remote w)) (Some (approved_ids (gw_store w)))) \<noteq> StatusUnmatched"
proof -
  let ?ls = "al_lines (ps_log (gw_remote w))"
  have "intents_good (good_id (gw_store (fresh_world s (proxy_start u)))) (gw_remote (fresh_world s (proxy_start u)))"
    by (simp add: fresh_world_def proxy_start_def intents_good_def intents_def)
  from history_intents [OF this assms(1,2)]
  have good: "intents_good (good_id (gw_store w)) (gw_remote w)" using assms(3) by simp
  have row: "rw_ApprovalID (the (read_line l)) \<in> set (approved_ids (gw_store w)) \<and> rw_ApprovalID (the (read_line l)) \<noteq> []"
    if mem: "l \<in> set ?ls" and ok: "read_line l \<noteq> None" and cnt: "counted (the (read_line l))" for l
  proof -
    obtain r where l: "l = Row r" using ok by (cases l) (simp_all add: read_line_def)
    moreover have "ar_Kind r = KIntent" using cnt by (auto simp: l read_line_def counted_def kind_intent)
    ultimately have r: "l = Row r" "ar_Kind r = KIntent" by simp_all
    then have "r \<in> set (intents ?ls)" using mem by (force simp: intents_def)
    then have "ar_ApprovalID r \<noteq> []" "good_id (gw_store w) (ar_ApprovalID r)"
      using good by (auto simp: intents_good_def list_all_iff)
    then show ?thesis using r(1) good_id_approved by (auto simp: read_line_def good_id_def)
  qed
  show ?thesis
  proof (cases "join_scan [] (approved_ids (gw_store w)) (map read_line ?ls) (not_run, False)")
    case (Some x)
    obtain res h where x: "x = (res, h)" by force
    note seen = join_scan_all [OF Some [unfolded x]]
    have "list_all (\<lambda>r. counted r \<longrightarrow> rw_ApprovalID r \<in> set (approved_ids (gw_store w))
        \<and> (rw_Kind r = ''intent'' \<longrightarrow> rw_ApprovalID r \<noteq> [])) (map the (map read_line ?ls))"
      unfolding list_all_iff set_map
    proof (intro ballI impI)
      fix r assume "r \<in> the ` read_line ` set ?ls" "counted r"
      then obtain l where "l \<in> set ?ls" "r = the (read_line l)" by blast
      moreover have "read_line l \<noteq> None" using seen calculation(1) by (metis image_eqI set_map)
      ultimately show "rw_ApprovalID r \<in> set (approved_ids (gw_store w)) \<and> (rw_Kind r = ''intent'' \<longrightarrow> rw_ApprovalID r \<noteq> [])"
        using row \<open>counted r\<close> by blast
    qed
    then have "jr_Unmatched res = []" using seen by (simp add: not_run_def)
    then show ?thesis using Some x by (simp add: join_all_def join_log_def proxy_log_def not_run_def)
  qed (simp add: join_all_def join_log_def proxy_log_def not_run_def)
qed

definition sample_client :: woo_client where
  "sample_client =
     \<lparr>cl_basePath = [], cl_consumerKey = ''gate'', cl_consumerSecret = [], cl_decodeList = (\<lambda>_. Some []),
      cl_decodeOne = (\<lambda>_. Some \<lparr>wp_ID = 1, wp_Name = [], wp_SKU = [], wp_Regular = [], wp_ShortDesc = []\<rparr>)\<rparr>"

text \<open>A create through the proxy: one write sent, one intent, and the join is clean.\<close>

theorem gate_log_never_unmatched_witness:
  "let w = gate_history sample_sha Some (wcAdapter (proxied sample_proxy 0) sample_client)
             [OpPublish (sample_gate ''a'') sample_request] (fresh_world sample_approved (proxy_start []))
   in length (sent_writes (gw_remote w)) = 1
      \<and> jr_Status (join_all (proxy_log (gw_remote w)) (Some (approved_ids (gw_store w)))) \<noteq> StatusUnmatched"
proof -
  let ?ops = "[OpPublish (sample_gate ''a'') sample_request] :: forward_request list proxy_state gate_op list"
  have "list_all worker_op ?ops" by code_simp
  from gate_log_never_unmatched [OF this refl refl, of sample_sha Some sample_proxy 0 sample_client sample_approved "[]"]
  have "jr_Status (join_all (proxy_log (gw_remote (gate_history sample_sha Some
      (wcAdapter (proxied sample_proxy 0) sample_client) ?ops (fresh_world sample_approved (proxy_start [])))))
      (Some (approved_ids (gw_store (gate_history sample_sha Some
      (wcAdapter (proxied sample_proxy 0) sample_client) ?ops (fresh_world sample_approved (proxy_start []))))))) \<noteq> StatusUnmatched" .
  moreover have "length (sent_writes (gw_remote (gate_history sample_sha Some
      (wcAdapter (proxied sample_proxy 0) sample_client) ?ops (fresh_world sample_approved (proxy_start []))))) = 1"
    by code_simp
  ultimately show ?thesis by (simp add: Let_def)
qed

end
