(* ===== verification/Compliance.thy ===== *)
theory Compliance
  imports Catalog
begin

text \<open>
  What a product must pass before it is published: the compliance engine with its default rules
  (\<open>internal/compliance/engine.go\<close>), the image checks (\<open>internal/media/processor.go\<close>) and the
  search-engine checks (\<open>internal/seo/optimizer.go\<close>). Lower-casing is that of ASCII letters, rune
  counts are those of valid UTF-8. The content sniffing of \<open>http.DetectContentType\<close>, which a file name
  without a known extension reaches, is the parameter \<open>detect\<close>. The keyword densities do not bear
  on the verdict and are left out.
\<close>

subsection \<open>Strings\<close>

definition has_suffix :: "string \<Rightarrow> string \<Rightarrow> bool" where
  "has_suffix s w \<longleftrightarrow> length w \<le> length s \<and> drop (length s - length w) s = w"

definition trim_chars :: "string \<Rightarrow> string \<Rightarrow> string" where
  "trim_chars cutset s = rev (dropWhile (\<lambda>c. c \<in> set cutset) (rev (dropWhile (\<lambda>c. c \<in> set cutset) s)))"

text \<open>The white-space word at the front of a string, and \<open>strings.Fields\<close>.\<close>

definition space_len :: "string \<Rightarrow> nat" where
  "space_len s = (case find (starts_with s) white_space of None \<Rightarrow> 0 | Some w \<Rightarrow> length w)"

function fields_from :: "string \<Rightarrow> string \<Rightarrow> string list" where
  "fields_from cur s =
     (if s = [] then (if cur = [] then [] else [rev cur])
      else if 0 < space_len s
        then (if cur = [] then [] else [rev cur]) @ fields_from [] (drop (space_len s) s)
      else fields_from (hd s # cur) (tl s))"
  by pat_completeness auto
termination by (relation "measure (\<lambda>(cur, s). length s)") auto

declare fields_from.simps [simp del]

definition string_fields :: "string \<Rightarrow> string list" where "string_fields s = fields_from [] s"

text \<open>\<open>normalizeSpaces\<close>: trimmed, and every run of white space (\<open>\s+\<close>, ASCII) one space.\<close>

definition re_space :: "char \<Rightarrow> bool" where
  "re_space c \<longleftrightarrow> c \<in> {CHR 0x09, CHR 0x0A, CHR 0x0C, CHR 0x0D, CHR 0x20}"

function collapse_spaces :: "string \<Rightarrow> string" where
  "collapse_spaces s =
     (case s of
        [] \<Rightarrow> []
      | c # r \<Rightarrow> if re_space c then CHR '' '' # collapse_spaces (dropWhile re_space r)
                else c # collapse_spaces r)"
  by pat_completeness auto
termination by (relation "measure length") (auto simp: le_imp_less_Suc length_dropWhile_le)

declare collapse_spaces.simps [simp del]

definition normalizeSpaces :: "string \<Rightarrow> string" where
  "normalizeSpaces s = collapse_spaces (trim_space s)"

subsection \<open>Search-engine checks\<close>

text \<open>\<open>strings.ReplaceAll(s, "--", "-")\<close>, repeated as long as there is a double dash.\<close>

fun halve_dashes :: "string \<Rightarrow> string" where
  "halve_dashes (c # d # s) =
     (if c = CHR ''-'' \<and> d = CHR ''-'' then CHR ''-'' # halve_dashes s else c # halve_dashes (d # s))"
| "halve_dashes s = s"

lemma halve_dashes_length: "length (halve_dashes s) \<le> length s"
  by (induction s rule: halve_dashes.induct) auto

lemma halve_dashes_shrinks: "contains_str s ''--'' \<Longrightarrow> length (halve_dashes s) < length s"
proof (induction s rule: halve_dashes.induct)
  case (1 c d s)
  then show ?case using halve_dashes_length [of s] by (auto simp: le_imp_less_Suc)
qed auto

function squeeze_dashes :: "string \<Rightarrow> string" where
  "squeeze_dashes s = (if contains_str s ''--'' then squeeze_dashes (halve_dashes s) else s)"
  by pat_completeness auto
termination by (relation "measure length") (auto simp: halve_dashes_shrinks)

declare squeeze_dashes.simps [simp del]

definition optimizeSlug :: "string \<Rightarrow> string" where
  "optimizeSlug value =
     (let s = to_lower (normalizeSpaces value);
          s = map (\<lambda>c. if c = CHR '' '' then CHR ''-'' else c) s;
          s = filter slug_char s
      in squeeze_dashes (trim_dashes s))"

record seo_suggestion =
  se_Title :: string
  se_MetaDescription :: string
  se_Slug :: string
  se_Score :: int
  se_Pass :: bool
  se_Reasons :: "string list"

definition maxTitleRunes :: int where "maxTitleRunes = 60"
definition preferredTitleRunes :: int where "preferredTitleRunes = 45"
definition maxMetaRunes :: int where "maxMetaRunes = 155"

definition title_penalty :: "string \<Rightarrow> int \<times> string list" where
  "title_penalty t =
     (let n = rune_count t in
      if n = 0 then (35, [''seo title is required''])
      else if n > maxTitleRunes then (25, [''seo title exceeds 60 characters''])
      else if n > preferredTitleRunes then (7, []) else (0, []))"

definition meta_penalty :: "string \<Rightarrow> int \<times> string list" where
  "meta_penalty m =
     (let n = rune_count m in
      if n = 0 then (30, [''meta description is required''])
      else if n > maxMetaRunes then (25, [''meta description exceeds 155 characters''])
      else if n < 50 then (8, []) else (0, []))"

definition slug_penalty :: "string \<Rightarrow> int \<times> string list" where
  "slug_penalty s = (if s = [] then (15, [''slug is required'']) else (0, []))"

definition seo_validate :: "string \<Rightarrow> string \<Rightarrow> string \<Rightarrow> seo_suggestion" where
  "seo_validate title meta slug =
     (let t = normalizeSpaces title; m = normalizeSpaces meta; s = optimizeSlug slug;
          (a, ra) = title_penalty t; (b, rb) = meta_penalty m; (c, rc) = slug_penalty s;
          score = max 0 (100 - a - b - c)
      in \<lparr>se_Title = t, se_MetaDescription = m, se_Slug = s, se_Score = score, se_Pass = 80 \<le> score,
          se_Reasons = ra @ rb @ rc\<rparr>)"

subsection \<open>Image checks\<close>

record image_metadata =
  im_URL :: string
  im_MimeType :: string
  im_SizeBytes :: int
  im_Width :: int
  im_Height :: int
  im_AltText :: string
  im_ProductName :: string

record constraints =
  cn_AllowedMimeTypes :: "string list"
  cn_MaxSizeBytes :: int
  cn_MinWidth :: int
  cn_MinHeight :: int

record media_verdict =
  mv_Pass :: bool
  mv_Score :: int
  mv_Reasons :: "(string \<times> string) list"

definition defaultConstraints :: constraints where
  "defaultConstraints =
     \<lparr>cn_AllowedMimeTypes = [''image/jpeg'', ''image/png'', ''image/webp'', ''image/gif''],
      cn_MaxSizeBytes = 5 * 1024 * 1024, cn_MinWidth = 600, cn_MinHeight = 600\<rparr>"

definition resultFromReasons :: "(string \<times> string) list \<Rightarrow> media_verdict" where
  "resultFromReasons rs =
     \<lparr>mv_Pass = (rs = []), mv_Score = max 0 (100 - 20 * int (length rs)), mv_Reasons = rs\<rparr>"

definition isGenericAltText :: "string \<Rightarrow> bool" where
  "isGenericAltText alt \<longleftrightarrow>
     alt \<in> {''image'', ''photo'', ''product'', ''product image'', ''product photo'', ''image of product''}"

text \<open>The loop of \<open>repeatedWordCount\<close>: the counts so far and their maximum.\<close>

definition count_word :: "string \<Rightarrow> (string, int) gomap \<times> int \<Rightarrow> (string, int) gomap \<times> int" where
  "count_word w0 acc =
     (case acc of (counts, m) \<Rightarrow>
        let w = trim_chars (''.,;:!?()[]{}'' @ [CHR 0x22, CHR 0x27]) w0 in
        if w = [] then (counts, m)
        else let n = (case mget counts w of None \<Rightarrow> 0 | Some n \<Rightarrow> n) + 1 in (mput w n counts, max m n))"

definition repeatedWordCount :: "string \<Rightarrow> int" where
  "repeatedWordCount text = snd (fold count_word (string_fields text) ([], 0))"

definition validateAltText :: "string \<Rightarrow> string \<Rightarrow> media_verdict" where
  "validateAltText altText productName =
     (let alt = to_lower (trim_space altText);
          r1 = (if alt = [] then [(''alt_text_required'', ''image alt text is required'')]
                else if rune_count alt < 8 then [(''alt_text_too_short'', ''image alt text is too short'')]
                else if isGenericAltText alt then [(''alt_text_generic'', ''image alt text must describe the product image'')]
                else []);
          r2 = (if repeatedWordCount alt > 2 then [(''alt_text_keyword_stuffed'', ''image alt text repeats the same keyword too often'')] else []);
          r3 = (if productName \<noteq> [] \<and> rune_count alt > 140 then [(''alt_text_too_long'', ''image alt text should stay concise'')] else [])
      in resultFromReasons (r1 @ r2 @ r3))"

definition normalizeMimeType :: "string \<Rightarrow> string" where
  "normalizeMimeType value =
     (let v = to_lower (trim_space value) in
      if CHR '';'' \<in> set v then trim_space (takeWhile (\<lambda>c. c \<noteq> CHR '';'') v) else v)"

definition mimeFromExtension :: "(string \<Rightarrow> string) \<Rightarrow> string \<Rightarrow> string" where
  "mimeFromExtension detect url =
     (let path = takeWhile (\<lambda>c. c \<noteq> CHR ''?'') (to_lower (trim_space url)) in
      if has_suffix path ''.jpg'' \<or> has_suffix path ''.jpeg'' then ''image/jpeg''
      else if has_suffix path ''.png'' then ''image/png''
      else if has_suffix path ''.webp'' then ''image/webp''
      else if has_suffix path ''.gif'' then ''image/gif''
      else if take 6 (detect path) = ''image/'' then detect path
      else [])"

definition media_validate :: "(string \<Rightarrow> string) \<Rightarrow> constraints \<Rightarrow> image_metadata \<Rightarrow> media_verdict" where
  "media_validate detect cn im =
     (let mt0 = normalizeMimeType (im_MimeType im);
          mt = (if mt0 = [] \<and> im_URL im \<noteq> [] then mimeFromExtension detect (im_URL im) else mt0);
          r1 = (if mt \<notin> set (cn_AllowedMimeTypes cn)
                then [(''unsupported_mime_type'', ''image mime type must be jpeg, png, webp, or gif'')] else []);
          r2 = (if im_SizeBytes im > cn_MaxSizeBytes cn
                then [(''image_too_large'', ''image exceeds the maximum allowed size'')] else []);
          r3 = (if 0 < im_Width im \<and> 0 < im_Height im \<and> (im_Width im < cn_MinWidth cn \<or> im_Height im < cn_MinHeight cn)
                then [(''image_dimensions_too_small'', ''image dimensions are below the minimum display size'')] else [])
      in resultFromReasons (r1 @ r2 @ r3 @ mv_Reasons (validateAltText (im_AltText im) (im_ProductName im))))"

definition image_meta :: "string \<Rightarrow> image \<Rightarrow> image_metadata" where
  "image_meta title im =
     \<lparr>im_URL = img_url im, im_MimeType = [], im_SizeBytes = 0, im_Width = 0, im_Height = 0,
      im_AltText = img_alt im, im_ProductName = title\<rparr>"

subsection \<open>Rules\<close>

datatype severity = SeverityInfo | SeverityWarning | SeverityError | SeverityCritical

record product_content =
  pc_Product :: product
  pc_SEOTitle :: string
  pc_Meta :: string
  pc_SEOScoreMin :: int
  pc_LegalDisclaimer :: string

record rule_result =
  rr_ID :: string
  rr_Pass :: bool
  rr_Score :: int
  rr_Severity :: severity
  rr_Reasons :: "string list"

type_synonym rule = "product_content \<Rightarrow> rule_result"

definition pass_rule :: "string \<Rightarrow> severity \<Rightarrow> rule_result" where
  "pass_rule i sev = \<lparr>rr_ID = i, rr_Pass = True, rr_Score = 100, rr_Severity = sev, rr_Reasons = []\<rparr>"

definition fail_rule :: "string \<Rightarrow> severity \<Rightarrow> string list \<Rightarrow> rule_result" where
  "fail_rule i sev rs = \<lparr>rr_ID = i, rr_Pass = False, rr_Score = 0, rr_Severity = sev, rr_Reasons = rs\<rparr>"

definition requiredTitleRule :: rule where
  "requiredTitleRule c =
     (if trim_space (prod_title (pc_Product c)) = []
      then fail_rule ''required_title'' SeverityCritical [''product title is required'']
      else pass_rule ''required_title'' SeverityCritical)"

definition descriptionLengthRule :: "int \<Rightarrow> int \<Rightarrow> rule" where
  "descriptionLengthRule minRunes maxRunes c =
     (let n = rune_count (trim_space (prod_description (pc_Product c))) in
      if n < minRunes then fail_rule ''description_length'' SeverityError [''product description is too short'']
      else if n > maxRunes then fail_rule ''description_length'' SeverityError [''product description is too long'']
      else pass_rule ''description_length'' SeverityError)"

definition prohibited_text :: "product_content \<Rightarrow> string" where
  "prohibited_text c =
     to_lower (join_with '' '' [prod_title (pc_Product c), prod_description (pc_Product c), pc_SEOTitle c, pc_Meta c])"

definition prohibitedWordsRule :: "string list \<Rightarrow> rule" where
  "prohibitedWordsRule phrases c =
     (case find (contains_str (prohibited_text c)) phrases of
        None \<Rightarrow> pass_rule ''prohibited_words'' SeverityCritical
      | Some p \<Rightarrow> fail_rule ''prohibited_words'' SeverityCritical [''prohibited phrase present: '' @ p])"

definition imageAltTextRule :: "(string \<Rightarrow> string) \<Rightarrow> constraints \<Rightarrow> rule" where
  "imageAltTextRule detect cn c =
     (let p = pc_Product c in
      if prod_images p = [] then fail_rule ''image_alt_text'' SeverityError [''at least one product image is required'']
      else let reasons = concat (map (\<lambda>im. map snd (mv_Reasons (media_validate detect cn (image_meta (prod_title p) im)))) (prod_images p))
      in if reasons \<noteq> [] then fail_rule ''image_alt_text'' SeverityError reasons
         else pass_rule ''image_alt_text'' SeverityError)"

definition firstNonEmpty :: "string list \<Rightarrow> string" where
  "firstNonEmpty vs = (case find (\<lambda>v. trim_space v \<noteq> []) vs of None \<Rightarrow> [] | Some v \<Rightarrow> v)"

definition seoMinimumScoreRule :: "int \<Rightarrow> rule" where
  "seoMinimumScoreRule defaultMin c =
     (let minScore = (if pc_SEOScoreMin c = 0 then defaultMin else pc_SEOScoreMin c); p = pc_Product c;
          s = seo_validate (firstNonEmpty [pc_SEOTitle c, prod_title p]) (firstNonEmpty [pc_Meta c, prod_description p]) (prod_slug p)
      in if se_Score s < minScore \<or> \<not> se_Pass s
         then (fail_rule ''seo_minimum_score'' SeverityError (se_Reasons s @ [''seo score below minimum'']))\<lparr>rr_Score := se_Score s\<rparr>
         else (pass_rule ''seo_minimum_score'' SeverityError)\<lparr>rr_Score := se_Score s\<rparr>)"

definition requiresDisclaimer :: "product_content \<Rightarrow> bool" where
  "requiresDisclaimer c \<longleftrightarrow>
     list_ex (contains_str (to_lower (join_with '' '' [prod_title (pc_Product c), prod_description (pc_Product c), pc_Meta c])))
       [''cure'', ''treat disease'', ''medical'', ''supplement'', ''therapeutic'']"

definition legalDisclaimerRule :: rule where
  "legalDisclaimerRule c =
     (if \<not> requiresDisclaimer c then pass_rule ''legal_disclaimer'' SeverityCritical
      else if list_ex (contains_str (to_lower (join_with '' '' [prod_description (pc_Product c), pc_Meta c, pc_LegalDisclaimer c])))
          [''not medical advice'', ''consult a professional'', ''consult your doctor'', ''disclaimer'']
      then pass_rule ''legal_disclaimer'' SeverityCritical
      else fail_rule ''legal_disclaimer'' SeverityCritical [''legal disclaimer is required for regulated claims''])"

subsection \<open>The engine\<close>

definition defaultRules :: "(string \<Rightarrow> string) \<Rightarrow> rule list" where
  "defaultRules detect =
     [requiredTitleRule, descriptionLengthRule 50 maxDescriptionRunes,
      prohibitedWordsRule [''miracle cure'', ''guaranteed cure'', ''risk-free'', ''no side effects''],
      imageAltTextRule detect defaultConstraints, seoMinimumScoreRule 70, legalDisclaimerRule]"

record engine_result =
  er_Pass :: bool
  er_Score :: int
  er_Reasons :: "string list"
  er_RuleIDs :: "string list"
  er_Severity :: severity
  er_Results :: "rule_result list"

fun severityRank :: "severity \<Rightarrow> nat" where
  "severityRank SeverityCritical = 4"
| "severityRank SeverityError = 3"
| "severityRank SeverityWarning = 2"
| "severityRank SeverityInfo = 1"

definition maxSeverity :: "severity \<Rightarrow> severity \<Rightarrow> severity" where
  "maxSeverity a b = (if severityRank b > severityRank a then b else a)"

text \<open>One round of the loop of \<open>aggregate\<close>.\<close>

record tally_state =
  ag_pass :: bool
  ag_total :: int
  ag_reasons :: "string list"
  ag_ids :: "string list"
  ag_severity :: severity

definition aggregate_step :: "rule_result \<Rightarrow> tally_state \<Rightarrow> tally_state" where
  "aggregate_step r a =
     (let a = a\<lparr>ag_total := ag_total a + rr_Score r\<rparr> in
      if rr_Pass r then a
      else a\<lparr>ag_pass := False, ag_ids := ag_ids a @ [rr_ID r], ag_reasons := ag_reasons a @ rr_Reasons r,
             ag_severity := maxSeverity (ag_severity a) (rr_Severity r)\<rparr>)"

definition aggregate :: "rule_result list \<Rightarrow> engine_result" where
  "aggregate rs =
     (if rs = [] then \<lparr>er_Pass = True, er_Score = 100, er_Reasons = [], er_RuleIDs = [], er_Severity = SeverityInfo, er_Results = []\<rparr>
      else let a = fold aggregate_step rs \<lparr>ag_pass = True, ag_total = 0, ag_reasons = [], ag_ids = [], ag_severity = SeverityInfo\<rparr>
      in \<lparr>er_Pass = ag_pass a, er_Score = quot (ag_total a) (int (length rs)), er_Reasons = ag_reasons a,
          er_RuleIDs = ag_ids a, er_Severity = ag_severity a, er_Results = rs\<rparr>)"

text \<open>\<open>Evaluate\<close> with a live context; a cancelled one gives the critical result of its error.\<close>

definition evaluate :: "rule list \<Rightarrow> product_content \<Rightarrow> engine_result" where
  "evaluate rules c = aggregate (map (\<lambda>r. r c) rules)"

subsection \<open>What a verdict says\<close>

instantiation severity :: linorder
begin

definition less_eq_severity :: "severity \<Rightarrow> severity \<Rightarrow> bool" where
  "less_eq_severity a b \<longleftrightarrow> severityRank a \<le> severityRank b"

definition less_severity :: "severity \<Rightarrow> severity \<Rightarrow> bool" where
  "less_severity a b \<longleftrightarrow> severityRank a < severityRank b"

instance
proof
  fix a b c :: severity
  show "a < b \<longleftrightarrow> a \<le> b \<and> \<not> b \<le> a" "a \<le> a" "a \<le> b \<or> b \<le> a"
    by (auto simp: less_eq_severity_def less_severity_def)
  show "a \<le> b \<Longrightarrow> b \<le> c \<Longrightarrow> a \<le> c" by (simp add: less_eq_severity_def)
  show "a \<le> b \<Longrightarrow> b \<le> a \<Longrightarrow> a = b" by (cases a; cases b) (simp_all add: less_eq_severity_def)
qed

end

lemma maxSeverity_max: "maxSeverity a b = max b a"
  by (cases a; cases b) (simp_all add: maxSeverity_def max_def less_eq_severity_def)

lemma severity_least: "SeverityInfo \<le> s" "max SeverityInfo s = s"
  by (cases s; simp add: less_eq_severity_def max_def)+

lemma aggregate_fold:
  "fold aggregate_step rs a =
     \<lparr>ag_pass = (ag_pass a \<and> list_all rr_Pass rs), ag_total = ag_total a + sum_list (map rr_Score rs),
      ag_reasons = ag_reasons a @ concat (map rr_Reasons (filter (Not \<circ> rr_Pass) rs)),
      ag_ids = ag_ids a @ map rr_ID (filter (Not \<circ> rr_Pass) rs),
      ag_severity = fold max (map rr_Severity (filter (Not \<circ> rr_Pass) rs)) (ag_severity a)\<rparr>"
proof (induction rs arbitrary: a)
  case (Cons r rs)
  then show ?case by (simp add: aggregate_step_def maxSeverity_max Let_def)
qed simp

lemma fold_max_Max: "fold max xs (a :: severity) = Max (insert a (set xs))"
proof (induction xs arbitrary: a)
  case (Cons x xs)
  then show ?case by (cases "set xs = {}") (simp_all add: max.commute max.left_commute)
qed simp

lemma rule_scores:
  "r \<in> set (defaultRules detect) \<Longrightarrow> 0 \<le> rr_Score (r c) \<and> rr_Score (r c) \<le> 100"
proof -
  have "0 \<le> se_Score (seo_validate t m s) \<and> se_Score (seo_validate t m s) \<le> 100" for t m s
    by (auto simp: seo_validate_def title_penalty_def meta_penalty_def slug_penalty_def Let_def)
  then show "r \<in> set (defaultRules detect) \<Longrightarrow> 0 \<le> rr_Score (r c) \<and> rr_Score (r c) \<le> 100"
    by (auto simp: defaultRules_def requiredTitleRule_def descriptionLengthRule_def prohibitedWordsRule_def
        imageAltTextRule_def seoMinimumScoreRule_def legalDisclaimerRule_def pass_rule_def fail_rule_def Let_def
        split: option.split)
qed

lemma sum_list_between:
  fixes xs :: "int list"
  assumes "\<And>x. x \<in> set xs \<Longrightarrow> 0 \<le> x \<and> x \<le> b"
  shows "0 \<le> sum_list xs \<and> sum_list xs \<le> b * int (length xs)"
  using assms
proof (induction xs)
  case (Cons x xs)
  then have "0 \<le> sum_list xs \<and> sum_list xs \<le> b * int (length xs)" "0 \<le> x \<and> x \<le> b" by simp_all
  then show ?case by (simp add: algebra_simps)
qed simp


subsection \<open>Descriptions\<close>

lemma blank_normal: "trim_space s = [] \<Longrightarrow> normalizeSpaces s = []"
  by (simp add: normalizeSpaces_def collapse_spaces.simps)

lemma long_meta_fails:
  assumes "maxMetaRunes < rune_count (normalizeSpaces m)"
  shows "\<not> se_Pass (seo_validate t m s)"
  using assms by (auto simp: seo_validate_def meta_penalty_def title_penalty_def slug_penalty_def Let_def maxMetaRunes_def)

text \<open>A long description never passes without its own meta description. The length rule
  accepts up to 5000 characters, but the search-engine rule takes the description for the missing meta
  description and deducts 25 points for more than 155 characters, which is below its pass mark; so
  the rule \<open>seo_minimum_score\<close> fails, whatever the minimum score asked for.\<close>

theorem long_description_fails:
  assumes "maxMetaRunes < rune_count (normalizeSpaces (prod_description (pc_Product c)))" and "trim_space (pc_Meta c) = []"
  shows "\<not> er_Pass (evaluate (defaultRules detect) c)
    \<and> list_ex (\<lambda>i. i = ''seo_minimum_score'') (er_RuleIDs (evaluate (defaultRules detect) c))"
proof -
  let ?d = "prod_description (pc_Product c)"
  have "normalizeSpaces ?d \<noteq> []" using assms(1) by (auto simp: rune_count_def maxMetaRunes_def)
  then have "trim_space ?d \<noteq> []" using blank_normal by blast
  then have "firstNonEmpty [pc_Meta c, ?d] = ?d" using assms(2) by (simp add: firstNonEmpty_def)
  then have "\<not> rr_Pass (seoMinimumScoreRule 70 c)" "rr_ID (seoMinimumScoreRule 70 c) = ''seo_minimum_score''"
    using long_meta_fails [OF assms(1)] by (simp_all add: seoMinimumScoreRule_def Let_def fail_rule_def pass_rule_def)
  moreover have "seoMinimumScoreRule 70 \<in> set (defaultRules detect)" by (simp add: defaultRules_def)
  ultimately have bad: "seoMinimumScoreRule 70 c \<in> set (filter (Not \<circ> rr_Pass) (map (\<lambda>r. r c) (defaultRules detect)))"
    and i: "rr_ID (seoMinimumScoreRule 70 c) = ''seo_minimum_score''" by auto
  have "evaluate (defaultRules detect) c = aggregate (map (\<lambda>r. r c) (defaultRules detect))" by (simp add: evaluate_def)
  moreover have "''seo_minimum_score'' \<in> set (map rr_ID (filter (Not \<circ> rr_Pass) (map (\<lambda>r. r c) (defaultRules detect))))"
    using imageI [OF bad, of rr_ID] i by (simp only: set_map)
  ultimately show ?thesis using bad
    by (auto simp: aggregate_def aggregate_fold Let_def list_ex_iff list_all_iff)
qed

definition wordy_item :: product where
  "wordy_item =
     \<lparr>prod_id = 1, prod_sku = ''S'', prod_title = ''Band'', prod_slug = ''band'', prod_description = replicate 156 (CHR ''x''),
      prod_price = \<lparr>amount = 1999, currency = ''AUD''\<rparr>, prod_stock = 3, prod_status = StatusActive,
      prod_images = [], prod_categories = [], prod_createdAt = 0, prod_updatedAt = 0\<rparr>"

definition content_of :: "product \<Rightarrow> product_content" where
  "content_of p = \<lparr>pc_Product = p, pc_SEOTitle = [], pc_Meta = [], pc_SEOScoreMin = 0, pc_LegalDisclaimer = []\<rparr>"

theorem long_description_fails_witness:
  "rr_Pass (descriptionLengthRule 50 maxDescriptionRunes (content_of wordy_item))
   \<and> \<not> er_Pass (evaluate (defaultRules (\<lambda>_. [])) (content_of wordy_item))"
proof -
  have "maxMetaRunes < rune_count (normalizeSpaces (prod_description (pc_Product (content_of wordy_item))))"
    "trim_space (pc_Meta (content_of wordy_item)) = []"
    "rr_Pass (descriptionLengthRule 50 maxDescriptionRunes (content_of wordy_item))" by code_simp+
  with long_description_fails [OF this(1,2), of "\<lambda>_. []"] show ?thesis by blast
qed

end
