(* ===== verification/PublishWorkflow.thy ===== *)
theory PublishWorkflow
  imports Temporal PublishPipeline Compliance
begin

text \<open>
  The workflow that publishes a product (\<open>internal/workflow/product_publish.go\<close> and
  \<open>product_publish_update.go\<close>): compliance, media, human review, publish, with the life-cycle view
  that the status query shows. Its activities are fields of an environment; the second half puts
  the publish gate behind them. Time stamps are kept as times, not as formatted text, and the
  error of a stage as the error value. Review events are handled one after the other, in the
  order of the event list; an empty list means that the workflow is still waiting.
\<close>

subsection \<open>The state of the workflow\<close>

datatype publish_status =
    StatusDraft | StatusComplianceFailed | StatusMediaFailed | StatusAwaitingReview | StatusNeedsHuman
  | StatusRejected | StatusPublishing | StatusFailed | StatusPublished

datatype stage_status =
    StagePending | StageRunning | StageWaitingReview | StageCompleted | StageFailed | StageSkipped

record publish_input =
  pi_ProductID :: string
  pi_TenantID :: string
  pi_RequestedBy :: string

record activity_input =
  ai_ProductID :: string
  ai_WorkflowID :: string

record compliance_result =
  cr_Pass :: bool
  cr_Score :: int
  cr_Reasons :: "string list"
  cr_RuleIDs :: "string list"
  cr_Severity :: "severity option"

record media_result =
  mr_Pass :: bool
  mr_Score :: int
  mr_Reasons :: "string list"
  mr_ImagesChecked :: int

record review_signal =
  rs_Approved :: bool
  rs_Reviewer :: string
  rs_Note :: string

record publish_result =
  pr_Published :: bool
  pr_RemoteID :: string

record workflow_event =
  we_ProductID :: string
  we_Type :: string
  we_Status :: publish_status
  we_Message :: string
  we_RequestedBy :: string
  we_Reviewer :: string
  we_OccurredAt :: gotime

text \<open>The error of a stage: an activity's error, or the joined reasons of a failed check.\<close>

datatype stage_error = StageActivity act_error | StageReasons string

record stage =
  sg_ID :: string
  sg_Name :: string
  sg_Status :: stage_status
  sg_StartedAt :: "gotime option"
  sg_CompletedAt :: "gotime option"
  sg_Message :: string
  sg_Attempt :: int
  sg_Error :: "stage_error option"

record publish_state =
  ps_ProductID :: string
  ps_Status :: publish_status
  ps_Published :: bool
  ps_Compliance :: compliance_result
  ps_Media :: media_result
  ps_Review :: review_signal
  ps_Publish :: publish_result
  ps_CurrentActivity :: string
  ps_StartedAt :: "gotime option"
  ps_UpdatedAt :: "gotime option"
  ps_CompletedAt :: "gotime option"
  ps_Activities :: "stage list"

definition pending_stage :: "string \<Rightarrow> string \<Rightarrow> stage" where
  "pending_stage i name =
     \<lparr>sg_ID = i, sg_Name = name, sg_Status = StagePending, sg_StartedAt = None, sg_CompletedAt = None,
      sg_Message = [], sg_Attempt = 0, sg_Error = None\<rparr>"

definition no_review :: review_signal where
  "no_review = \<lparr>rs_Approved = False, rs_Reviewer = [], rs_Note = []\<rparr>"

definition newProductPublishState :: "publish_input \<Rightarrow> gotime \<Rightarrow> publish_state" where
  "newProductPublishState input now =
     \<lparr>ps_ProductID = pi_ProductID input, ps_Status = StatusDraft, ps_Published = False,
      ps_Compliance = \<lparr>cr_Pass = False, cr_Score = 0, cr_Reasons = [], cr_RuleIDs = [], cr_Severity = None\<rparr>,
      ps_Media = \<lparr>mr_Pass = False, mr_Score = 0, mr_Reasons = [], mr_ImagesChecked = 0\<rparr>,
      ps_Review = no_review, ps_Publish = \<lparr>pr_Published = False, pr_RemoteID = []\<rparr>,
      ps_CurrentActivity = ''Check compliance'', ps_StartedAt = Some now, ps_UpdatedAt = Some now,
      ps_CompletedAt = None,
      ps_Activities =
        [(pending_stage ''check_compliance'' ''Check compliance'')
           \<lparr>sg_Status := StageRunning, sg_StartedAt := Some now, sg_Message := ''Running compliance check'',
            sg_Attempt := 1\<rparr>,
         pending_stage ''validate_media'' ''Validate media'',
         pending_stage ''human_review'' ''Human review'',
         pending_stage ''publish'' ''Publish to WooCommerce'']\<rparr>"

subsection \<open>Stages\<close>

text \<open>\<open>stage\<close> finds the first entry with the id; \<open>on_stage\<close> changes it in place.\<close>

fun stage_of :: "string \<Rightarrow> stage list \<Rightarrow> stage option" where
  "stage_of i [] = None"
| "stage_of i (s # ss) = (if sg_ID s = i then Some s else stage_of i ss)"

fun on_stage :: "string \<Rightarrow> (stage \<Rightarrow> stage) \<Rightarrow> stage list \<Rightarrow> stage list" where
  "on_stage i f [] = []"
| "on_stage i f (s # ss) = (if sg_ID s = i then f s # ss else s # on_stage i f ss)"

definition started :: "gotime \<Rightarrow> stage \<Rightarrow> stage" where
  "started now s = (if sg_StartedAt s = None then s\<lparr>sg_StartedAt := Some now\<rparr> else s)"

definition first_attempt :: "stage \<Rightarrow> stage" where
  "first_attempt s = (if sg_Attempt s = 0 then s\<lparr>sg_Attempt := 1\<rparr> else s)"

definition startActivity :: "string \<Rightarrow> gotime \<Rightarrow> string \<Rightarrow> publish_state \<Rightarrow> publish_state" where
  "startActivity i now msg r =
     (case stage_of i (ps_Activities r) of
        None \<Rightarrow> r
      | Some s \<Rightarrow>
          r\<lparr>ps_Activities := on_stage i (\<lambda>s. first_attempt ((started now (s\<lparr>sg_Status := StageRunning\<rparr>))
               \<lparr>sg_Message := msg, sg_Attempt := sg_Attempt s + 1\<rparr>)) (ps_Activities r),
            ps_CurrentActivity := sg_Name s, ps_UpdatedAt := Some now\<rparr>)"

definition waitForReview :: "gotime \<Rightarrow> string \<Rightarrow> publish_state \<Rightarrow> publish_state" where
  "waitForReview now msg r =
     (case stage_of ''human_review'' (ps_Activities r) of
        None \<Rightarrow> r
      | Some s \<Rightarrow>
          r\<lparr>ps_Status := StatusAwaitingReview,
            ps_Activities := on_stage ''human_review'' (\<lambda>s. (started now (s\<lparr>sg_Status := StageWaitingReview\<rparr>))
               \<lparr>sg_Message := msg, sg_Attempt := 1\<rparr>) (ps_Activities r),
            ps_CurrentActivity := msg, ps_UpdatedAt := Some now\<rparr>)"

definition completeActivity :: "string \<Rightarrow> gotime \<Rightarrow> string \<Rightarrow> publish_state \<Rightarrow> publish_state" where
  "completeActivity i now msg r =
     (case stage_of i (ps_Activities r) of
        None \<Rightarrow> r
      | Some s \<Rightarrow>
          r\<lparr>ps_Activities := on_stage i (\<lambda>s. first_attempt ((started now (s\<lparr>sg_Status := StageCompleted\<rparr>))
               \<lparr>sg_CompletedAt := Some now, sg_Message := msg\<rparr>)) (ps_Activities r),
            ps_UpdatedAt := Some now\<rparr>)"

definition failActivity :: "string \<Rightarrow> gotime \<Rightarrow> string \<Rightarrow> stage_error \<Rightarrow> publish_state \<Rightarrow> publish_state" where
  "failActivity i now msg err r =
     (case stage_of i (ps_Activities r) of
        None \<Rightarrow> r
      | Some s \<Rightarrow>
          r\<lparr>ps_Activities := on_stage i (\<lambda>s. first_attempt ((started now (s\<lparr>sg_Status := StageFailed\<rparr>))
               \<lparr>sg_CompletedAt := Some now, sg_Message := msg, sg_Error := Some err\<rparr>)) (ps_Activities r),
            ps_CurrentActivity := sg_Name s, ps_UpdatedAt := Some now\<rparr>)"

definition skip_stage :: "stage \<Rightarrow> stage" where
  "skip_stage s = (if sg_Status s \<noteq> StagePending then s
     else s\<lparr>sg_Status := StageSkipped, sg_Message := ''Skipped''\<rparr>)"

definition skipActivities :: "gotime \<Rightarrow> string list \<Rightarrow> publish_state \<Rightarrow> publish_state" where
  "skipActivities now is r =
     r\<lparr>ps_Activities := fold (\<lambda>i. on_stage i skip_stage) is (ps_Activities r), ps_UpdatedAt := Some now\<rparr>"

definition completed_at :: "gotime \<Rightarrow> publish_state \<Rightarrow> publish_state" where
  "completed_at now r = r\<lparr>ps_CompletedAt := Some now\<rparr>"

subsection \<open>The review\<close>

record review_update =
  ru_Approved :: bool
  ru_Reviewer :: string
  ru_Reason :: string
  ru_UpdateID :: string

record review_handler =
  rh_review :: review_signal
  rh_updateID :: string

definition undecided :: "review_handler \<Rightarrow> bool" where
  "undecided h \<longleftrightarrow> rs_Reviewer (rh_review h) = [] \<and> rh_updateID h = []"

text \<open>The update handler: the new handler state, and whether the decision was accepted.\<close>

definition review_update_step :: "review_update \<Rightarrow> review_handler \<Rightarrow> review_handler \<times> bool" where
  "review_update_step u h =
     (if \<not> undecided h then (h, False)
      else (\<lparr>rh_review = \<lparr>rs_Approved = ru_Approved u, rs_Reviewer = ru_Reviewer u, rs_Note = ru_Reason u\<rparr>,
             rh_updateID = ru_UpdateID u\<rparr>, True))"

datatype review_event = ReviewUpdate review_update | ReviewSignalled review_signal | ReviewCanceled

fun waitReviewDecision :: "review_event list \<Rightarrow> review_handler \<Rightarrow> (review_handler \<times> (act_error + review_signal)) option" where
  "waitReviewDecision [] h = None"
| "waitReviewDecision (ReviewCanceled # es) h = Some (h, Err CanceledError)"
| "waitReviewDecision (ReviewSignalled r # es) h =
     (let h' = (if undecided h then h\<lparr>rh_review := r\<rparr> else h) in Some (h', Ok (rh_review h')))"
| "waitReviewDecision (ReviewUpdate u # es) h =
     (case review_update_step u h of
        (h', True) \<Rightarrow> Some (h', Ok (rh_review h'))
      | (h', False) \<Rightarrow> waitReviewDecision es h')"

definition viaUpdate :: "review_handler \<Rightarrow> bool" where "viaUpdate h \<longleftrightarrow> rh_updateID h \<noteq> []"

record approval_input =
  ap_WorkflowID :: string
  ap_TenantID :: string
  ap_ProductID :: string
  ap_Approved :: bool
  ap_Reviewer :: string
  ap_Reason :: string
  ap_UpdateID :: string

subsection \<open>The workflow\<close>

record 'w publish_env =
  pe_now :: "'w \<Rightarrow> gotime"
  pe_workflowID :: string
  pe_compliance :: "activity_input \<Rightarrow> ('w, compliance_result) activity"
  pe_media :: "activity_input \<Rightarrow> ('w, media_result) activity"
  pe_publish :: "activity_input \<Rightarrow> ('w, publish_result) activity"
  pe_recordEvent :: "workflow_event \<Rightarrow> ('w, unit) activity"
  pe_recordApproval :: "approval_input \<Rightarrow> ('w, unit) activity"

text \<open>The retry policy of the workflow: three attempts.\<close>

definition publish_attempts :: nat where "publish_attempts = 3"

type_synonym 'w gate_result = "'w \<times> publish_state \<times> (act_error + bool)"

definition record_event ::
  "'w publish_env \<Rightarrow> publish_input \<Rightarrow> string \<Rightarrow> publish_status \<Rightarrow> string \<Rightarrow> string \<Rightarrow> ('w, unit) activity" where
  "record_event env input ty status msg reviewer w =
     executeActivity publish_attempts (pe_recordEvent env
       \<lparr>we_ProductID = pi_ProductID input, we_Type = ty, we_Status = status, we_Message = msg,
        we_RequestedBy = pi_RequestedBy input, we_Reviewer = reviewer, we_OccurredAt = pe_now env w\<rparr>) w"

text \<open>\<open>return b, record(...)\<close>: the flag is returned even when recording fails.\<close>

definition recorded :: "bool \<Rightarrow> publish_state \<Rightarrow> 'w \<times> (act_error + unit) \<Rightarrow> 'w gate_result" where
  "recorded b st r = (case r of (w, Err e) \<Rightarrow> (w, st, Err e) | (w, Ok _) \<Rightarrow> (w, st, Ok b))"

definition activity_input_of :: "'w publish_env \<Rightarrow> publish_input \<Rightarrow> activity_input" where
  "activity_input_of env input = \<lparr>ai_ProductID = pi_ProductID input, ai_WorkflowID = pe_workflowID env\<rparr>"

definition runComplianceGate :: "'w publish_env \<Rightarrow> publish_input \<Rightarrow> publish_state \<Rightarrow> 'w \<Rightarrow> 'w gate_result" where
  "runComplianceGate env input st w0 =
     (case executeActivity publish_attempts (pe_compliance env (activity_input_of env input)) w0 of
        (w, Err e) \<Rightarrow>
          (let now = pe_now env w; st = st\<lparr>ps_Status := StatusComplianceFailed\<rparr>;
               st = failActivity ''check_compliance'' now ''Compliance check failed'' (StageActivity e) st;
               st = skipActivities now [''validate_media'', ''human_review'', ''publish''] st
           in (w, completed_at now st, Err e))
      | (w, Ok c) \<Rightarrow>
          (let now = pe_now env w; st = st\<lparr>ps_Compliance := c\<rparr> in
           if cr_Pass c then
             (let st = completeActivity ''check_compliance'' now ''Compliance check passed'' st;
                  st = startActivity ''validate_media'' now ''Validating media'' st
              in recorded True st
                   (record_event env input ''product_publish.compliance_passed'' (ps_Status st) ''compliance check passed'' [] w))
           else
             (let st = st\<lparr>ps_Status := StatusComplianceFailed\<rparr>;
                  st = failActivity ''check_compliance'' now ''Compliance check failed''
                         (StageReasons (join_with ''; '' (cr_Reasons c))) st;
                  st = completed_at now (skipActivities now [''validate_media'', ''human_review'', ''publish''] st)
              in recorded False st
                   (record_event env input ''product_publish.compliance_failed'' (ps_Status st) ''compliance check failed'' [] w))))"

definition runMediaGate :: "'w publish_env \<Rightarrow> publish_input \<Rightarrow> publish_state \<Rightarrow> 'w \<Rightarrow> 'w gate_result" where
  "runMediaGate env input st w0 =
     (case executeActivity publish_attempts (pe_media env (activity_input_of env input)) w0 of
        (w, Err e) \<Rightarrow>
          (let now = pe_now env w; st = st\<lparr>ps_Status := StatusMediaFailed\<rparr>;
               st = failActivity ''validate_media'' now ''Media validation failed'' (StageActivity e) st;
               st = skipActivities now [''human_review'', ''publish''] st
           in (w, completed_at now st, Err e))
      | (w, Ok m) \<Rightarrow>
          (let now = pe_now env w; st = st\<lparr>ps_Media := m\<rparr> in
           if mr_Pass m then
             (let st = completeActivity ''validate_media'' now ''Media validation passed'' st;
                  st = waitForReview now ''Awaiting human review'' st
              in recorded True st
                   (record_event env input ''product_publish.media_validated'' (ps_Status st) ''media validation passed'' [] w))
           else
             (let st = st\<lparr>ps_Status := StatusMediaFailed\<rparr>;
                  st = failActivity ''validate_media'' now ''Media validation failed''
                         (StageReasons (join_with ''; '' (mr_Reasons m))) st;
                  st = completed_at now (skipActivities now [''human_review'', ''publish''] st)
              in recorded False st
                   (record_event env input ''product_publish.media_failed'' (ps_Status st) ''media validation failed'' [] w))))"

definition approval_input_of :: "'w publish_env \<Rightarrow> publish_input \<Rightarrow> review_signal \<Rightarrow> string \<Rightarrow> approval_input" where
  "approval_input_of env input review uid =
     \<lparr>ap_WorkflowID = pe_workflowID env, ap_TenantID = pi_TenantID input, ap_ProductID = pi_ProductID input,
      ap_Approved = rs_Approved review, ap_Reviewer = rs_Reviewer review, ap_Reason = rs_Note review,
      ap_UpdateID = uid\<rparr>"

text \<open>The recording of the decision; its options have no retry policy.\<close>

definition record_decision ::
  "'w publish_env \<Rightarrow> publish_input \<Rightarrow> review_handler \<Rightarrow> 'w \<Rightarrow> ('w \<times> (act_error + unit)) option" where
  "record_decision env input h w =
     (if viaUpdate h
      then executeForever (pe_recordApproval env (approval_input_of env input (rh_review h) (rh_updateID h))) w
      else Some (w, Ok ()))"

definition reviewed :: "'w publish_env \<Rightarrow> publish_input \<Rightarrow> review_signal \<Rightarrow> publish_state \<Rightarrow> 'w \<Rightarrow> 'w gate_result" where
  "reviewed env input review st w =
     (let now = pe_now env w in
      if rs_Approved review then
        (let st = completeActivity ''human_review'' now ''Human review approved publish'' st;
             st = startActivity ''publish'' now ''Publish to WooCommerce'' st
         in recorded True st
              (record_event env input ''product_publish.review_approved'' (ps_Status st) ''human review approved publish'' (rs_Reviewer review) w))
      else
        (let st = st\<lparr>ps_Status := StatusRejected\<rparr>;
             st = completeActivity ''human_review'' now ''Human review rejected publish'' st;
             st = completed_at now (skipActivities now [''publish''] st)
         in recorded False st
              (record_event env input ''product_publish.review_rejected'' (ps_Status st) ''human review rejected publish'' (rs_Reviewer review) w)))"

definition runReviewGate ::
  "'w publish_env \<Rightarrow> publish_input \<Rightarrow> review_event list \<Rightarrow> publish_state \<Rightarrow> 'w \<Rightarrow> 'w gate_result option" where
  "runReviewGate env input es st0 w =
     (let st = st0\<lparr>ps_Status := StatusAwaitingReview\<rparr> in
      case waitReviewDecision es \<lparr>rh_review = no_review, rh_updateID = []\<rparr> of
        None \<Rightarrow> None
      | Some (h, Err e) \<Rightarrow>
          Some (w, skipActivities (pe_now env w) [''publish'']
                     (failActivity ''human_review'' (pe_now env w) ''Human review did not complete'' (StageActivity e) st), Err e)
      | Some (h, Ok review) \<Rightarrow>
          (case record_decision env input h w of
             None \<Rightarrow> None
           | Some (w', Err e) \<Rightarrow>
               Some (w', skipActivities (pe_now env w') [''publish'']
                           (failActivity ''human_review'' (pe_now env w') ''Recording the decision failed'' (StageActivity e)
                              (st\<lparr>ps_Review := review\<rparr>)), Err e)
           | Some (w', Ok _) \<Rightarrow> Some (reviewed env input review (st\<lparr>ps_Review := review\<rparr>) w')))"

definition ErrStoreUnreachable_text :: string where
  "ErrStoreUnreachable_text = ''store unreachable through the counting proxy''"

definition says_unreachable :: "act_error \<Rightarrow> bool" where
  "says_unreachable e =
     (case e of ApplicationError msg \<Rightarrow> contains_str msg ErrStoreUnreachable_text | _ \<Rightarrow> False)"

definition runPublish :: "'w publish_env \<Rightarrow> publish_input \<Rightarrow> publish_state \<Rightarrow> 'w \<Rightarrow> 'w \<times> publish_state \<times> (act_error + unit)" where
  "runPublish env input st0 w0 =
     (case executeActivity publish_attempts (pe_publish env (activity_input_of env input)) w0 of
        (w, Err e) \<Rightarrow>
          (let now = pe_now env w in
           if says_unreachable e then
             (let st = st0\<lparr>ps_Status := StatusNeedsHuman\<rparr>;
                  st = failActivity ''publish'' now
                         ''Counting proxy unreachable: 0 store requests, needs a human to restart it and re-dispatch''
                         (StageActivity e) st;
                  st = completed_at now st;
                  (w', r) = record_event env input ''product_publish.needs_human'' (ps_Status st)
                    ''counting proxy unreachable; no store write was attempted that succeeded'' (rs_Reviewer (ps_Review st)) w
              in (w', st, r))
           else
             (w, completed_at now (failActivity ''publish'' now ''Publish to WooCommerce failed'' (StageActivity e)
                   (st0\<lparr>ps_Status := StatusFailed\<rparr>)), Err e))
      | (w, Ok p) \<Rightarrow>
          (let now = pe_now env w;
               st = st0\<lparr>ps_Publish := p, ps_Published := pr_Published p, ps_Status := StatusPublished\<rparr>;
               st = completed_at now (completeActivity ''publish'' now ''Published to WooCommerce'' st);
               (w', r) = record_event env input ''product_publish.published'' (ps_Status st)
                 ''product published to WooCommerce'' (rs_Reviewer (ps_Review st)) w
           in (w', st, r)))"

text \<open>The run: \<open>None\<close> as long as it waits for the review, otherwise the final world, state and error.\<close>

definition productPublishWorkflow ::
  "'w publish_env \<Rightarrow> publish_input \<Rightarrow> review_event list \<Rightarrow> 'w \<Rightarrow> ('w \<times> publish_state \<times> act_error option) option" where
  "productPublishWorkflow env input es w0 =
     (let st0 = newProductPublishState input (pe_now env w0) in
      case record_event env input ''product_publish.started'' StatusDraft ''product publish workflow started'' [] w0 of
        (w1, Err e) \<Rightarrow> Some (w1, st0, Some e)
      | (w1, Ok _) \<Rightarrow>
      (case runComplianceGate env input st0 w1 of
        (w2, st, Err e) \<Rightarrow> Some (w2, st, Some e)
      | (w2, st, Ok False) \<Rightarrow> Some (w2, st, None)
      | (w2, st, Ok True) \<Rightarrow>
      (case runMediaGate env input st w2 of
        (w3, st, Err e) \<Rightarrow> Some (w3, st, Some e)
      | (w3, st, Ok False) \<Rightarrow> Some (w3, st, None)
      | (w3, st, Ok True) \<Rightarrow>
      (case runReviewGate env input es st w3 of
        None \<Rightarrow> None
      | Some (w4, st, Err e) \<Rightarrow> Some (w4, st, Some e)
      | Some (w4, st, Ok False) \<Rightarrow> Some (w4, st, None)
      | Some (w4, st, Ok True) \<Rightarrow>
          (case runPublish env input (st\<lparr>ps_Status := StatusPublishing\<rparr>) w4 of
             (w5, st, Err e) \<Rightarrow> Some (w5, st, Some e)
           | (w5, st, Ok _) \<Rightarrow> Some (w5, st, None))))))"

subsection \<open>The life-cycle view\<close>

text \<open>What the status query shows of the stages: ids and status. Every stage operation is one
  update of that view.\<close>

definition view :: "publish_state \<Rightarrow> (string \<times> stage_status) list" where
  "view r = map (\<lambda>s. (sg_ID s, sg_Status s)) (ps_Activities r)"

fun upd_view :: "string \<Rightarrow> (stage_status \<Rightarrow> stage_status) \<Rightarrow> (string \<times> stage_status) list \<Rightarrow> (string \<times> stage_status) list" where
  "upd_view i g [] = []"
| "upd_view i g ((j, s) # v) = (if j = i then (j, g s) # v else (j, s) # upd_view i g v)"

lemma view_on_stage:
  assumes "\<And>s. sg_ID (f s) = sg_ID s" and "\<And>s. sg_Status (f s) = g (sg_Status s)"
  shows "map (\<lambda>s. (sg_ID s, sg_Status s)) (on_stage i f ss) = upd_view i g (map (\<lambda>s. (sg_ID s, sg_Status s)) ss)"
  using assms by (induction ss) simp_all

lemma view_no_stage:
  "stage_of i ss = None \<Longrightarrow> upd_view i g (map (\<lambda>s. (sg_ID s, sg_Status s)) ss) = map (\<lambda>s. (sg_ID s, sg_Status s)) ss"
  by (induction ss) (auto split: if_splits)

lemma started_simps [simp]: "sg_ID (started now s) = sg_ID s" "sg_Status (started now s) = sg_Status s"
  by (simp_all add: started_def)

lemma first_attempt_simps [simp]: "sg_ID (first_attempt s) = sg_ID s" "sg_Status (first_attempt s) = sg_Status s"
  by (simp_all add: first_attempt_def)

lemma skip_stage_simps [simp]:
  "sg_ID (skip_stage s) = sg_ID s"
  "sg_Status (skip_stage s) = (if sg_Status s = StagePending then StageSkipped else sg_Status s)"
  by (simp_all add: skip_stage_def)

lemma view_field [simp]:
  "view (r\<lparr>ps_Status := a\<rparr>) = view r" "view (r\<lparr>ps_Compliance := b\<rparr>) = view r"
  "view (r\<lparr>ps_Media := c\<rparr>) = view r" "view (r\<lparr>ps_Review := d\<rparr>) = view r"
  "view (r\<lparr>ps_Publish := e\<rparr>) = view r" "view (r\<lparr>ps_Published := f\<rparr>) = view r"
  "view (completed_at now r) = view r"
  by (simp_all add: view_def completed_at_def)

lemma view_ops [simp]:
  "view (startActivity i now m r) = upd_view i (\<lambda>_. StageRunning) (view r)"
  "view (waitForReview now m r) = upd_view ''human_review'' (\<lambda>_. StageWaitingReview) (view r)"
  "view (completeActivity i now m r) = upd_view i (\<lambda>_. StageCompleted) (view r)"
  "view (failActivity i now m e r) = upd_view i (\<lambda>_. StageFailed) (view r)"
  by (auto simp: view_def startActivity_def waitForReview_def completeActivity_def failActivity_def
      view_no_stage view_on_stage split: option.split)

lemma view_skip [simp]:
  "view (skipActivities now is r) =
     fold (\<lambda>i. upd_view i (\<lambda>s. if s = StagePending then StageSkipped else s)) is (view r)"
proof -
  have "map (\<lambda>s. (sg_ID s, sg_Status s)) (fold (\<lambda>i. on_stage i skip_stage) is ss)
      = fold (\<lambda>i. upd_view i (\<lambda>s. if s = StagePending then StageSkipped else s)) is (map (\<lambda>s. (sg_ID s, sg_Status s)) ss)" for ss
    by (induction "is" arbitrary: ss) (simp_all add: view_on_stage)
  then show ?thesis by (simp add: view_def skipActivities_def)
qed

lemma status_ops [simp]:
  "ps_Status (startActivity i now m r) = ps_Status r" "ps_Status (completeActivity i now m r) = ps_Status r"
  "ps_Status (failActivity i now m e r) = ps_Status r" "ps_Status (skipActivities now is r) = ps_Status r"
  "ps_Status (completed_at now r) = ps_Status r" "ps_CompletedAt (completed_at now r) = Some now"
  by (auto simp: startActivity_def completeActivity_def failActivity_def skipActivities_def completed_at_def split: option.split)

text \<open>The checks and the review are only written by their own gate.\<close>

lemma finding_ops [simp]:
  "ps_Compliance (startActivity i now m r) = ps_Compliance r" "ps_Compliance (completeActivity i now m r) = ps_Compliance r" "ps_Compliance (failActivity i now m e r) = ps_Compliance r"
  "ps_Compliance (skipActivities now is r) = ps_Compliance r" "ps_Compliance (completed_at now r) = ps_Compliance r" "ps_Compliance (waitForReview now m r) = ps_Compliance r"
  "ps_Media (startActivity i now m r) = ps_Media r" "ps_Media (completeActivity i now m r) = ps_Media r" "ps_Media (failActivity i now m e r) = ps_Media r"
  "ps_Media (skipActivities now is r) = ps_Media r" "ps_Media (completed_at now r) = ps_Media r" "ps_Media (waitForReview now m r) = ps_Media r"
  "ps_Review (startActivity i now m r) = ps_Review r" "ps_Review (completeActivity i now m r) = ps_Review r" "ps_Review (failActivity i now m e r) = ps_Review r"
  "ps_Review (skipActivities now is r) = ps_Review r" "ps_Review (completed_at now r) = ps_Review r" "ps_Review (waitForReview now m r) = ps_Review r"
  "ps_Publish (startActivity i now m r) = ps_Publish r" "ps_Publish (completeActivity i now m r) = ps_Publish r" "ps_Publish (failActivity i now m e r) = ps_Publish r"
  "ps_Publish (skipActivities now is r) = ps_Publish r" "ps_Publish (completed_at now r) = ps_Publish r" "ps_Publish (waitForReview now m r) = ps_Publish r"
  "ps_Published (startActivity i now m r) = ps_Published r" "ps_Published (completeActivity i now m r) = ps_Published r" "ps_Published (failActivity i now m e r) = ps_Published r"
  "ps_Published (skipActivities now is r) = ps_Published r" "ps_Published (completed_at now r) = ps_Published r" "ps_Published (waitForReview now m r) = ps_Published r"
  by (auto simp: startActivity_def completeActivity_def failActivity_def skipActivities_def
      completed_at_def waitForReview_def split: option.split)

text \<open>The view at the end, by status.\<close>

fun final_view :: "publish_status \<Rightarrow> stage_status list option" where
  "final_view StatusComplianceFailed = Some [StageFailed, StageSkipped, StageSkipped, StageSkipped]"
| "final_view StatusMediaFailed = Some [StageCompleted, StageFailed, StageSkipped, StageSkipped]"
| "final_view StatusRejected = Some [StageCompleted, StageCompleted, StageCompleted, StageSkipped]"
| "final_view StatusNeedsHuman = Some [StageCompleted, StageCompleted, StageCompleted, StageFailed]"
| "final_view StatusFailed = Some [StageCompleted, StageCompleted, StageCompleted, StageFailed]"
| "final_view StatusPublished = Some [StageCompleted, StageCompleted, StageCompleted, StageCompleted]"
| "final_view _ = None"

definition stage_view :: "stage_status list \<Rightarrow> (string \<times> stage_status) list" where
  "stage_view ss = zip [''check_compliance'', ''validate_media'', ''human_review'', ''publish''] ss"

lemma view_start: "view (newProductPublishState input now) = stage_view [StageRunning, StagePending, StagePending, StagePending]"
  by (simp add: view_def newProductPublishState_def stage_view_def pending_stage_def)

lemma map_view: "map sg_Status (ps_Activities r) = map snd (view r)"
  by (simp add: view_def comp_def)

text \<open>What each gate leaves behind.\<close>

lemma compliance_gate:
  assumes "runComplianceGate env input st w = (w', st', r)"
    and "view st = stage_view [StageRunning, StagePending, StagePending, StagePending]"
  shows "case r of
      Ok True \<Rightarrow> view st' = stage_view [StageCompleted, StageRunning, StagePending, StagePending]
        \<and> ps_Status st' = ps_Status st \<and> cr_Pass (ps_Compliance st')
    | Ok False \<Rightarrow> ps_Status st' = StatusComplianceFailed \<and> ps_CompletedAt st' \<noteq> None
        \<and> view st' = stage_view (the (final_view StatusComplianceFailed))
    | Err e \<Rightarrow> ps_Status st' \<noteq> StatusPublished \<or> ps_Status st = StatusPublished"
proof -
  obtain w1 c where c: "executeActivity publish_attempts (pe_compliance env (activity_input_of env input)) w = (w1, c)" by force
  show ?thesis using assms c
    by (auto simp: runComplianceGate_def Let_def recorded_def stage_view_def
        split: sum.splits if_splits prod.splits bool.split)
qed

lemma media_gate:
  assumes "runMediaGate env input st w = (w', st', r)"
    and "view st = stage_view [StageCompleted, StageRunning, StagePending, StagePending]"
  shows "ps_Compliance st' = ps_Compliance st \<and> (case r of
      Ok True \<Rightarrow> view st' = stage_view [StageCompleted, StageCompleted, StageWaitingReview, StagePending]
        \<and> mr_Pass (ps_Media st')
    | Ok False \<Rightarrow> ps_Status st' = StatusMediaFailed \<and> ps_CompletedAt st' \<noteq> None
        \<and> view st' = stage_view (the (final_view StatusMediaFailed))
    | Err e \<Rightarrow> ps_Status st' \<noteq> StatusPublished)"
proof -
  have wait: "ps_Status (waitForReview now m (completeActivity j now' m' (st\<lparr>ps_Media := c\<rparr>))) \<noteq> StatusPublished"
    if "view st = stage_view [StageCompleted, StageRunning, StagePending, StagePending]" for now m j now' m' c
  proof -
    have "stage_of ''human_review'' (ps_Activities (completeActivity j now' m' (st\<lparr>ps_Media := c\<rparr>))) \<noteq> None"
    proof
      assume "stage_of ''human_review'' (ps_Activities (completeActivity j now' m' (st\<lparr>ps_Media := c\<rparr>))) = None"
      from view_no_stage [OF this, of "\<lambda>_. StageWaitingReview"]
      have "upd_view ''human_review'' (\<lambda>_. StageWaitingReview) (upd_view j (\<lambda>_. StageCompleted) (view st))
          = upd_view j (\<lambda>_. StageCompleted) (view st)"
        using view_ops(3) [of j now' m' "st\<lparr>ps_Media := c\<rparr>"] by (simp add: view_def)
      then show False using that by (auto simp: stage_view_def split: if_splits)
    qed
    then show ?thesis by (auto simp: waitForReview_def)
  qed
  obtain w1 c where c: "executeActivity publish_attempts (pe_media env (activity_input_of env input)) w = (w1, c)" by force
  show ?thesis using assms c wait [OF assms(2)]
    by (auto simp: runMediaGate_def Let_def recorded_def stage_view_def
        split: sum.splits if_splits prod.splits bool.split)
qed

lemma review_gate:
  assumes "runReviewGate env input es st w = Some (w', st', r)"
    and "view st = stage_view [StageCompleted, StageCompleted, StageWaitingReview, StagePending]"
  shows "ps_Compliance st' = ps_Compliance st \<and> ps_Media st' = ps_Media st \<and> (case r of
      Ok True \<Rightarrow> view st' = stage_view [StageCompleted, StageCompleted, StageCompleted, StageRunning]
        \<and> rs_Approved (ps_Review st')
    | Ok False \<Rightarrow> ps_Status st' = StatusRejected \<and> ps_CompletedAt st' \<noteq> None
        \<and> view st' = stage_view (the (final_view StatusRejected))
    | Err e \<Rightarrow> ps_Status st' \<noteq> StatusPublished)"
  using assms
  by (auto simp: runReviewGate_def reviewed_def Let_def recorded_def stage_view_def
      split: sum.splits if_splits prod.splits bool.split option.splits)

lemma publish_stage:
  assumes "runPublish env input st w = (w', st', r)"
    and "view st = stage_view [StageCompleted, StageCompleted, StageCompleted, StageRunning]"
  shows "ps_Compliance st' = ps_Compliance st \<and> ps_Media st' = ps_Media st \<and> ps_Review st' = ps_Review st
    \<and> ps_Status st' \<in> {StatusNeedsHuman, StatusFailed, StatusPublished} \<and> ps_CompletedAt st' \<noteq> None
    \<and> view st' = stage_view (the (final_view (ps_Status st')))
    \<and> (r = Ok () \<longrightarrow> ps_Status st' \<noteq> StatusFailed)"
  using assms
  by (auto simp: runPublish_def Let_def stage_view_def split: sum.splits if_splits prod.splits)

lemma start_status: "ps_Status (newProductPublishState input now) = StatusDraft"
  by (simp add: newProductPublishState_def)

text \<open>The run, gate by gate.\<close>

lemma workflow_result:
  assumes "productPublishWorkflow env input es w = Some (w', st, e)"
  shows "(e = None \<longrightarrow> final_view (ps_Status st) = Some (map snd (view st)) \<and> ps_CompletedAt st \<noteq> None
      \<and> ps_Status st \<noteq> StatusFailed)
    \<and> (ps_Status st = StatusPublished \<longrightarrow> cr_Pass (ps_Compliance st) \<and> mr_Pass (ps_Media st) \<and> rs_Approved (ps_Review st)
        \<and> (\<exists>st4 w4 r. runPublish env input st4 w4 = (w', st, r)))"
proof -
  let ?st0 = "newProductPublishState input (pe_now env w)"
  have snd_view: "map snd (stage_view (the (final_view s))) = the (final_view s)" if "final_view s \<noteq> None" for s
    using that by (cases s) (simp_all add: stage_view_def)
  obtain w1 r1 where r1: "record_event env input ''product_publish.started'' StatusDraft ''product publish workflow started'' [] w = (w1, r1)" by force
  obtain w2 st2 r2 where r2: "runComplianceGate env input ?st0 w1 = (w2, st2, r2)" by (metis prod_cases3)
  note g2 = compliance_gate [OF r2 view_start, unfolded start_status]
  obtain w3 st3 r3 where r3: "runMediaGate env input st2 w2 = (w3, st3, r3)" by (metis prod_cases3)
  show ?thesis
  proof (cases "r1 = Ok () \<and> r2 = Ok True \<and> r3 = Ok True")
    case False
    have "view st2 = stage_view [StageCompleted, StageRunning, StagePending, StagePending]" if "r2 = Ok True"
      using g2 that by simp
    note g3 = media_gate [OF r3 this]
    show ?thesis using False assms r1 r2 r3 g2 g3 start_status snd_view [of StatusComplianceFailed] snd_view [of StatusMediaFailed]
      by (auto simp: productPublishWorkflow_def Let_def split: sum.splits bool.splits)
  next
    case True
    note g3 = media_gate [OF r3 conjunct1 [OF g2 [unfolded conjunct1 [OF conjunct2 [OF True]], simplified]]]
    from assms r1 r2 r3 True obtain w4 st4 r4 where r4: "runReviewGate env input es st3 w3 = Some (w4, st4, r4)"
      by (auto simp: productPublishWorkflow_def Let_def split: option.splits)
    have v3: "view st3 = stage_view [StageCompleted, StageCompleted, StageWaitingReview, StagePending]" using g3 True by simp
    note g4 = review_gate [OF r4 v3]
    show ?thesis
    proof (cases "r4 = Ok True")
      case False
      then show ?thesis using assms r1 r2 r3 r4 True g4 snd_view [of StatusRejected]
        by (auto simp: productPublishWorkflow_def Let_def split: sum.splits bool.splits)
    next
      case approved: True
      obtain w5 st5 r5 where r5: "runPublish env input (st4\<lparr>ps_Status := StatusPublishing\<rparr>) w4 = (w5, st5, r5)" by (metis prod_cases3)
      have "view (st4\<lparr>ps_Status := StatusPublishing\<rparr>) = stage_view [StageCompleted, StageCompleted, StageCompleted, StageRunning]"
        using g4 approved by simp
      note g5 = publish_stage [OF r5 this]
      have run: "w' = w5 \<and> st = st5 \<and> (e = None \<longleftrightarrow> r5 = Ok ())"
        using assms r1 r2 r3 r4 r5 True approved by (auto simp: productPublishWorkflow_def Let_def split: sum.splits)
      have "final_view (ps_Status st5) \<noteq> None" using g5 by auto
      then have "final_view (ps_Status st5) = Some (map snd (view st5))" using g5 snd_view by simp
      moreover have "cr_Pass (ps_Compliance st2)" "mr_Pass (ps_Media st3)" "rs_Approved (ps_Review st4)"
        using g2 g3 g4 True approved by simp_all
      ultimately show ?thesis using run g5 g4 g3 r5 True approved by auto
    qed
  qed
qed

text \<open>C5: The life-cycle view is final and tells the truth. A workflow that ends without an error
  is in one of five final states, has its completion time, and shows for each of its four stages
  exactly the status that its final state implies: nothing is left pending, running or waiting,
  the stage that stopped it is failed, what comes after it is skipped. If it is published, all
  stages are completed, compliance and media checks have passed and the review has approved.\<close>

theorem workflow_view_final:
  assumes "productPublishWorkflow env input es w = Some (w', st, None)"
  shows "final_view (ps_Status st) = Some (map sg_Status (ps_Activities st)) \<and> ps_CompletedAt st \<noteq> None
    \<and> ps_Status st \<noteq> StatusFailed
    \<and> (ps_Status st = StatusPublished \<longrightarrow> cr_Pass (ps_Compliance st) \<and> mr_Pass (ps_Media st) \<and> rs_Approved (ps_Review st))"
  using workflow_result [OF assms] by (auto simp: map_view)

definition sample_env :: "unit publish_env" where
  "sample_env =
     \<lparr>pe_now = (\<lambda>_. 1), pe_workflowID = ''wf-1'',
      pe_compliance = (\<lambda>_ w. (w, Ok \<lparr>cr_Pass = True, cr_Score = 94, cr_Reasons = [], cr_RuleIDs = [], cr_Severity = None\<rparr>)),
      pe_media = (\<lambda>_ w. (w, Ok \<lparr>mr_Pass = True, mr_Score = 100, mr_Reasons = [], mr_ImagesChecked = 1\<rparr>)),
      pe_publish = (\<lambda>_ w. (w, Ok \<lparr>pr_Published = True, pr_RemoteID = []\<rparr>)),
      pe_recordEvent = (\<lambda>_ w. (w, Ok ())), pe_recordApproval = (\<lambda>_ w. (w, Ok ()))\<rparr>"

definition sample_publish_input :: publish_input where
  "sample_publish_input = \<lparr>pi_ProductID = ''p1'', pi_TenantID = [], pi_RequestedBy = ''jo''\<rparr>"

theorem workflow_view_final_witness:
  "\<exists>st. productPublishWorkflow sample_env sample_publish_input
       [ReviewSignalled \<lparr>rs_Approved = False, rs_Reviewer = ''lee'', rs_Note = []\<rparr>] () = Some ((), st, None)
     \<and> map sg_Status (ps_Activities st) = [StageCompleted, StageCompleted, StageCompleted, StageSkipped]"
proof -
  let ?es = "[ReviewSignalled \<lparr>rs_Approved = False, rs_Reviewer = ''lee'', rs_Note = []\<rparr>]"
  have "(case productPublishWorkflow sample_env sample_publish_input ?es () of
      Some (_, st, e) \<Rightarrow> e = None \<and> ps_Status st = StatusRejected | None \<Rightarrow> False)"
    by code_simp
  then obtain st where st: "productPublishWorkflow sample_env sample_publish_input ?es () = Some ((), st, None)"
    "ps_Status st = StatusRejected"
    by (auto split: option.splits)
  from workflow_view_final [OF st(1)] st show ?thesis by auto
qed

subsection \<open>The activities of the worker\<close>

text \<open>
  The world of the workflow: the world of the gate, the clock, and the events recorded so far. Before
  every attempt of an activity other users act on the store and the remote store (\<open>others\<close>) and the
  clock moves (\<open>tick\<close>); both are arbitrary. \<open>wk_text\<close> is the text of a publisher error.
\<close>

record 'r workflow_world =
  ww_gate :: "(pg_state, 'r) gate_world"
  ww_now :: gotime
  ww_events :: "workflow_event list"

record 'r worker =
  wk_sha :: "string \<Rightarrow> string"
  wk_uid :: "string \<Rightarrow> string option"
  wk_remote :: "'r woocommerce"
  wk_gate :: "gate option"
  wk_parseUUID :: "string \<Rightarrow> uuid option"
  wk_products :: "uuid \<Rightarrow> product option"
  wk_detect :: "string \<Rightarrow> string"
  wk_text :: "publisher_error \<Rightarrow> string"
  wk_others :: "'r workflow_world \<Rightarrow> 'r gate_op list"
  wk_tick :: "'r workflow_world \<Rightarrow> gotime"

definition interfere :: "'r worker \<Rightarrow> 'r workflow_world \<Rightarrow> 'r workflow_world" where
  "interfere k w = w\<lparr>ww_gate := gate_history (wk_sha k) (wk_uid k) (wk_remote k) (wk_others k w) (ww_gate w),
                    ww_now := wk_tick k w\<rparr>"

definition product_of :: "'r worker \<Rightarrow> string \<Rightarrow> act_error + product" where
  "product_of k pid =
     (case wk_parseUUID k pid of
        None \<Rightarrow> Err (ApplicationError ''invalid product id'')
      | Some i \<Rightarrow>
      (case wk_products k i of
        None \<Rightarrow> Err (ApplicationError ''get product'') | Some p \<Rightarrow> Ok p))"

definition compliance_result_of :: "engine_result \<Rightarrow> compliance_result" where
  "compliance_result_of r =
     \<lparr>cr_Pass = er_Pass r, cr_Score = er_Score r, cr_Reasons = er_Reasons r, cr_RuleIDs = er_RuleIDs r,
      cr_Severity = Some (er_Severity r)\<rparr>"

definition checkCompliance :: "'r worker \<Rightarrow> activity_input \<Rightarrow> ('r workflow_world, compliance_result) activity" where
  "checkCompliance k input w =
     (w, case product_of k (ai_ProductID input) of Err e \<Rightarrow> Err e | Ok p \<Rightarrow> Ok (compliance_result_of (evaluate (defaultRules (wk_detect k)) (content_of p))))"

text \<open>The loop over the images: total of the scores, and the reasons of those that fail.\<close>

definition validate_images :: "'r worker \<Rightarrow> product \<Rightarrow> int \<times> string list" where
  "validate_images k p =
     fold (\<lambda>im (tot, reasons).
        let v = media_validate (wk_detect k) defaultConstraints (image_meta (prod_title p) im)
        in (tot + mv_Score v, if mv_Pass v then reasons else reasons @ map snd (mv_Reasons v))) (prod_images p) (0, [])"

definition validateMedia :: "'r worker \<Rightarrow> activity_input \<Rightarrow> ('r workflow_world, media_result) activity" where
  "validateMedia k input w =
     (w, case product_of k (ai_ProductID input) of
        Err e \<Rightarrow> Err e
      | Ok p \<Rightarrow>
          if prod_images p = []
          then Ok \<lparr>mr_Pass = False, mr_Score = 0, mr_Reasons = [''at least one product image is required''], mr_ImagesChecked = 0\<rparr>
          else (case validate_images k p of
             (tot, reasons) \<Rightarrow>
               Ok \<lparr>mr_Pass = (reasons = []), mr_Score = quot tot (int (length (prod_images p))), mr_Reasons = reasons,
                   mr_ImagesChecked = int (length (prod_images p))\<rparr>))"

definition publishActivity :: "'r worker \<Rightarrow> activity_input \<Rightarrow> ('r workflow_world, publish_result) activity" where
  "publishActivity k input w =
     (if wk_parseUUID k (ai_ProductID input) = None then (w, Err (ApplicationError ''invalid product id''))
      else case publishToWooCommerce (wk_sha k) (pg_store (wk_uid k)) (wk_remote k) (wk_gate k) (wk_parseUUID k)
                  (wk_products k) (ai_ProductID input) (ai_WorkflowID input) (ww_gate w) of
        (g, Err e) \<Rightarrow> (w\<lparr>ww_gate := g\<rparr>, Err (ApplicationError (wk_text k e)))
      | (g, Ok _) \<Rightarrow> (w\<lparr>ww_gate := g\<rparr>, Ok \<lparr>pr_Published = True, pr_RemoteID = []\<rparr>))"

definition recordWorkflowEvent :: "workflow_event \<Rightarrow> ('r workflow_world, unit) activity" where
  "recordWorkflowEvent e w = (w\<lparr>ww_events := ww_events w @ [e]\<rparr>, Ok ())"

definition decision_of :: "approval_input \<Rightarrow> decision" where
  "decision_of a =
     \<lparr>dec_WorkflowID = ap_WorkflowID a, dec_TenantID = ap_TenantID a, dec_ProductID = ap_ProductID a,
      dec_Approved = ap_Approved a, dec_Actor = ap_Reviewer a, dec_Reason = ap_Reason a, dec_UpdateID = ap_UpdateID a\<rparr>"

definition recordApproval :: "'r worker \<Rightarrow> approval_input \<Rightarrow> ('r workflow_world, unit) activity" where
  "recordApproval k a w =
     (case pg_recordApproval (wk_uid k) (decision_of a) (gw_store (ww_gate w)) of
        (s, Err e) \<Rightarrow> (w\<lparr>ww_gate := (ww_gate w)\<lparr>gw_store := s\<rparr>\<rparr>, Err (ApplicationError ''record approval''))
      | (s, Ok _) \<Rightarrow> (w\<lparr>ww_gate := (ww_gate w)\<lparr>gw_store := s\<rparr>\<rparr>, Ok ()))"

definition worker_env :: "'r worker \<Rightarrow> string \<Rightarrow> 'r workflow_world publish_env" where
  "worker_env k wid =
     \<lparr>pe_now = ww_now, pe_workflowID = wid,
      pe_compliance = (\<lambda>i w. checkCompliance k i (interfere k w)),
      pe_media = (\<lambda>i w. validateMedia k i (interfere k w)),
      pe_publish = (\<lambda>i w. publishActivity k i (interfere k w)),
      pe_recordEvent = (\<lambda>e w. recordWorkflowEvent e (interfere k w)),
      pe_recordApproval = (\<lambda>a w. recordApproval k a (interfere k w))\<rparr>"

subsection \<open>Published means approved and written once\<close>

definition approved_for :: "string \<Rightarrow> 'r workflow_world \<Rightarrow> bool" where
  "approved_for wid w \<longleftrightarrow> (\<exists>d. pg_appr (gw_store (ww_gate w)) wid = Some d \<and> dec_Approved d)"

definition written_for :: "'r worker \<Rightarrow> string \<Rightarrow> 'r workflow_world \<Rightarrow> bool" where
  "written_for k pid w \<longleftrightarrow>
     (\<exists>i p key'. wk_parseUUID k pid = Some i \<and> wk_products k i = Some p
        \<and> key (wk_sha k) pid (FieldsFor (prod_sku p) (prod_title p) (prod_description p)
              (format_cents (amount (prod_price p))) (prod_stock p) (wcStatus (prod_status p))) = Ok key'
        \<and> pg_completed (gw_store (ww_gate w)) key')"

lemma interfere_keeps:
  "approved_for wid w \<Longrightarrow> approved_for wid (interfere k w)"
  "written_for k pid w \<Longrightarrow> written_for k pid (interfere k w)"
  by (auto simp: approved_for_def written_for_def interfere_def history_decision_final history_keeps_completed)

lemma event_keeps:
  "approved_for wid w \<Longrightarrow> approved_for wid (fst (recordWorkflowEvent e w))"
  "written_for k pid w \<Longrightarrow> written_for k pid (fst (recordWorkflowEvent e w))"
  by (simp_all add: approved_for_def written_for_def recordWorkflowEvent_def)

lemma record_event_keeps:
  assumes "record_event (worker_env k wid) input ty s msg rv w = (w', r)"
  shows "approved_for i w \<Longrightarrow> approved_for i w'" "written_for k pid w \<Longrightarrow> written_for k pid w'"
proof -
  let ?act = "\<lambda>e w. recordWorkflowEvent e (interfere k w)"
  have w': "\<exists>e. w' = fst (executeActivity publish_attempts (?act e) w)"
    using assms by (auto simp: record_event_def worker_env_def) (metis fst_conv)
  show "approved_for i w \<Longrightarrow> approved_for i w'"
    using w' executeActivity_invariant [where I = "approved_for i" and act = "?act e" for e]
      event_keeps(1) interfere_keeps(1) by metis
  show "written_for k pid w \<Longrightarrow> written_for k pid w'"
    using w' executeActivity_invariant [where I = "written_for k pid" and act = "?act e" for e]
      event_keeps(2) interfere_keeps(2) by metis
qed

text \<open>A publish attempt that succeeds found an approval and leaves the row of the content completed.\<close>

lemma publishActivity_Ok:
  assumes "publishActivity k i w = (w', Ok r)"
  shows "approved_for (ai_WorkflowID i) w' \<and> pr_Published r
    \<and> (\<exists>g. wk_gate k = Some g \<and> (g_DryRun g \<or> written_for k (ai_ProductID i) w'))"
proof -
  from assms obtain g j p where g: "wk_gate k = Some g" and j: "wk_parseUUID k (ai_ProductID i) = Some j"
    and p: "wk_products k j = Some p" and r: "pr_Published r"
    by (auto simp: publishActivity_def publishToWooCommerce_def split: option.splits prod.splits sum.splits if_splits)
  define req where "req = \<lparr>rq_WorkflowID = ai_WorkflowID i, rq_TenantID = [], rq_ProductID = ai_ProductID i,
      rq_SKU = prod_sku p, rq_Fields = FieldsFor (prod_sku p) (prod_title p) (prod_description p)
        (format_cents (amount (prod_price p))) (prod_stock p) (wcStatus (prod_status p))\<rparr>"
  obtain gw c where pub: "publish (wk_sha k) (pg_store (wk_uid k)) (wk_remote k) g req (ww_gate w) = (gw, c)" by force
  then obtain x where ok: "publish (wk_sha k) (pg_store (wk_uid k)) (wk_remote k) g req (ww_gate w) = (gw, Ok x)"
    and w': "w' = w\<lparr>ww_gate := gw\<rparr>"
    using assms g j p by (auto simp: publishActivity_def publishToWooCommerce_def req_def split: sum.splits)
  have "approved_for (ai_WorkflowID i) w'"
  proof -
    have "\<not> (case pg_appr (gw_store (ww_gate w)) (rq_WorkflowID req) of None \<Rightarrow> True | Some d \<Rightarrow> \<not> dec_Approved d)"
      using pgs.publish_closed [of "ww_gate w" req "wk_sha k" "wk_uid k" "wk_remote k" g] ok by auto
    then show ?thesis
      using pgs.publish_appr [of "wk_sha k" "wk_uid k" "wk_remote k" g req "ww_gate w"] ok
      by (auto simp: approved_for_def w' req_def split: option.splits)
  qed
  moreover have "written_for k (ai_ProductID i) w'" if "\<not> g_DryRun g"
    using pgs.publish_success_completes [OF ok that] j p by (auto simp: written_for_def w' req_def)
  ultimately show ?thesis using r g by blast
qed


definition sample_item :: product where
  "sample_item =
     \<lparr>prod_id = 1, prod_sku = ''S'', prod_title = ''Resistance band'', prod_slug = ''band'',
      prod_description = ''A long and elastic band for stretching at home and outside'',
      prod_price = \<lparr>amount = 1999, currency = ''AUD''\<rparr>, prod_stock = 3, prod_status = Catalog.StatusActive,
      prod_images = [\<lparr>img_url = ''band.png'', img_alt = ''A green elastic band'', img_sort_order = 0\<rparr>], prod_categories = [],
      prod_createdAt = 0, prod_updatedAt = 0\<rparr>"

definition sample_worker :: "(string, string) gomap list worker" where
  "sample_worker =
     \<lparr>wk_sha = sample_sha, wk_uid = Some, wk_remote = sample_shop, wk_gate = Some (sample_gate ''a''),
      wk_parseUUID = (\<lambda>_. Some 1), wk_products = (\<lambda>_. Some sample_item),
      wk_detect = (\<lambda>_. []), wk_text = (\<lambda>_. ''publish''),
      wk_others = (\<lambda>_. []), wk_tick = (\<lambda>w. ww_now w + 1)\<rparr>"

definition sample_world :: "(string, string) gomap list workflow_world" where
  "sample_world =
     \<lparr>ww_gate = fresh_world \<lparr>pg_approvals = [], pg_ledger = [], pg_clock = 0\<rparr> [], ww_now = 0, ww_events = []\<rparr>"

definition sample_approve :: "review_event list" where
  "sample_approve = [ReviewUpdate \<lparr>ru_Approved = True, ru_Reviewer = ''lee'', ru_Reason = [], ru_UpdateID = ''u1''\<rparr>]"

text \<open>The two checks of the sample product, evaluated once.\<close>

definition sample_checked :: "(string, string) gomap list workflow_world publish_env" where
  "sample_checked = (worker_env sample_worker ''wf-9'')
     \<lparr>pe_compliance := (\<lambda>i w. (interfere sample_worker w, Ok \<lparr>cr_Pass = True, cr_Score = 100, cr_Reasons = [],
         cr_RuleIDs = [], cr_Severity = Some SeverityInfo\<rparr>)),
      pe_media := (\<lambda>i w. (interfere sample_worker w, Ok \<lparr>mr_Pass = True, mr_Score = 100, mr_Reasons = [], mr_ImagesChecked = 1\<rparr>))\<rparr>"

lemma sample_checks: "worker_env sample_worker ''wf-9'' = sample_checked"
proof -
  have p: "product_of sample_worker i = Ok sample_item" for i by (simp add: product_of_def sample_worker_def)
  have d: "wk_detect sample_worker = (\<lambda>_. [])" by (simp add: sample_worker_def)
  have c: "compliance_result_of (evaluate (defaultRules (\<lambda>_. [])) (content_of sample_item))
      = \<lparr>cr_Pass = True, cr_Score = 100, cr_Reasons = [], cr_RuleIDs = [], cr_Severity = Some SeverityInfo\<rparr>"
    by code_simp
  have m: "validate_images sample_worker sample_item = (100, [])" "prod_images sample_item \<noteq> []"
    "length (prod_images sample_item) = 1" by code_simp+
  have "checkCompliance sample_worker i w = (w, Ok \<lparr>cr_Pass = True, cr_Score = 100, cr_Reasons = [],
      cr_RuleIDs = [], cr_Severity = Some SeverityInfo\<rparr>)" for i w
    by (simp add: checkCompliance_def p d c)
  moreover have "validateMedia sample_worker i w = (w, Ok \<lparr>mr_Pass = True, mr_Score = 100, mr_Reasons = [], mr_ImagesChecked = 1\<rparr>)" for i w
    by (simp add: validateMedia_def p m)
  ultimately show ?thesis by (simp add: sample_checked_def worker_env_def)
qed


subsection \<open>Products that can never be published\<close>

lemma checkCompliance_long:
  assumes "product_of k pid = Ok p" and "maxMetaRunes < rune_count (normalizeSpaces (prod_description p))"
  shows "\<exists>c. checkCompliance k \<lparr>ai_ProductID = pid, ai_WorkflowID = wid\<rparr> w = (w, Ok c) \<and> \<not> cr_Pass c"
proof -
  have "\<not> er_Pass (evaluate (defaultRules (wk_detect k)) (content_of p))"
    using long_description_fails [of "content_of p"] assms(2) by (simp add: content_of_def)
  then show ?thesis using assms(1) by (simp add: checkCompliance_def compliance_result_of_def)
qed



end
