(* ===== verification/PaymentSaga.thy ===== *)
theory PaymentSaga
  imports Temporal
begin

text \<open>
  The payment saga (\<open>internal/workflow/payment_saga.go\<close>) with its activities, the event payload it
  publishes (\<open>internal/eventbus/payloads_payment.go\<close>), and the Stripe adapter's charge
  (\<open>internal/adapter/payment/stripe_adapter.go\<close>) as one of the gateways behind it. The gateways
  act on an arbitrary outer world; what the saga itself does (order updates, events, waits)
  is recorded. The activities of the saga are attempted once; their errors are texts.
\<close>

subsection \<open>Data\<close>

record payment_input =
  py_TenantID :: string
  py_OrderID :: string
  py_AmountCents :: int
  py_Currency :: string
  py_Method :: string
  py_MaxRetries :: int

record charge_result =
  ch_PaymentID :: string
  ch_ExternalRef :: string
  ch_Status :: string
  ch_Provider :: string

record payment_result =
  pa_TenantID :: string
  pa_OrderID :: string
  pa_PaymentID :: string
  pa_Provider :: string
  pa_Status :: string
  pa_Retries :: int
  pa_FailReason :: string
  pa_Refunded :: bool

datatype payment_error =
    ErrTenantRequired | ErrOrderRequired | ErrAmountNotPositive | ErrCurrencyRequired
  | ErrPaymentRetryExhausted "act_error option"

datatype payment_event_type = PaymentCompleted | PaymentFailed

record payment_payload =
  pp_TenantID :: string
  pp_OrderID :: string
  pp_PaymentID :: string
  pp_Provider :: string
  pp_AmountCents :: int
  pp_Currency :: string
  pp_Status :: string
  pp_FailReason :: string

text \<open>The outer world, and what the saga has done to the rest.\<close>

record 'w pay_world =
  pw_outer :: 'w
  pw_orders :: "(string \<times> string) list"
  pw_events :: "(payment_event_type \<times> payment_payload) list"
  pw_sleeps :: "duration list"

type_synonym 'w gateway_charge =
  "string \<Rightarrow> string \<Rightarrow> int \<Rightarrow> string \<Rightarrow> string \<Rightarrow> 'w \<Rightarrow> 'w \<times> (string + charge_result)"

record 'w payment_deps =
  pd_Providers :: "(string, 'w gateway_charge) gomap"
  pd_Selector :: "(payment_input \<Rightarrow> 'w \<Rightarrow> 'w \<times> (string + string)) option"
  pd_Orders :: "(string \<Rightarrow> string \<Rightarrow> bool) option"

subsection \<open>The activities\<close>

definition selectProvider :: "'w payment_deps \<Rightarrow> payment_input \<Rightarrow> ('w pay_world, string) activity" where
  "selectProvider d input w =
     (case pd_Selector d of
        None \<Rightarrow> (w, Ok ''stripe'')
      | Some sel \<Rightarrow>
          (case sel input (pw_outer w) of
             (u, Err e) \<Rightarrow> (w\<lparr>pw_outer := u\<rparr>, Err (ApplicationError e))
           | (u, Ok p) \<Rightarrow> (w\<lparr>pw_outer := u\<rparr>, Ok p)))"

definition charge :: "'w payment_deps \<Rightarrow> payment_input \<Rightarrow> string \<Rightarrow> ('w pay_world, charge_result) activity" where
  "charge d input provider w =
     (case mget (pd_Providers d) provider of
        None \<Rightarrow> (w, Err (ApplicationError ''payment provider unavailable''))
      | Some gw \<Rightarrow>
          (case gw (py_TenantID input) (py_OrderID input) (py_AmountCents input) (py_Currency input)
                  (py_Method input) (pw_outer w) of
             (u, Err e) \<Rightarrow> (w\<lparr>pw_outer := u\<rparr>, Err (ApplicationError e))
           | (u, Ok r) \<Rightarrow> (w\<lparr>pw_outer := u\<rparr>, Ok r)))"

text \<open>The order port: an update is stored, or refused with an error.\<close>

definition updateOrderStatus :: "'w payment_deps \<Rightarrow> payment_input \<Rightarrow> string \<Rightarrow> ('w pay_world, unit) activity" where
  "updateOrderStatus d input status w =
     (case pd_Orders d of
        None \<Rightarrow> (w, Ok ())
      | Some accepts \<Rightarrow>
          if accepts (py_OrderID input) status
          then (w\<lparr>pw_orders := pw_orders w @ [(py_OrderID input, status)]\<rparr>, Ok ())
          else (w, Err (ApplicationError ''update order'')))"

definition validate_payment_payload :: "payment_payload \<Rightarrow> bool" where
  "validate_payment_payload p \<longleftrightarrow>
     pp_TenantID p \<noteq> [] \<and> pp_OrderID p \<noteq> [] \<and> pp_Provider p \<noteq> [] \<and> pp_Status p \<noteq> []"

definition payment_payload_of :: "payment_input \<Rightarrow> charge_result \<Rightarrow> string \<Rightarrow> string \<Rightarrow> payment_payload" where
  "payment_payload_of input r state reason =
     \<lparr>pp_TenantID = py_TenantID input, pp_OrderID = py_OrderID input, pp_PaymentID = ch_PaymentID r,
      pp_Provider = ch_Provider r, pp_AmountCents = py_AmountCents input, pp_Currency = py_Currency input,
      pp_Status = state, pp_FailReason = reason\<rparr>"

definition publishPaymentEvent ::
  "payment_input \<Rightarrow> charge_result \<Rightarrow> string \<Rightarrow> string \<Rightarrow> ('w pay_world, unit) activity" where
  "publishPaymentEvent input r state reason w =
     (let payload = payment_payload_of input r state reason;
          kind = (if state = ''completed'' then PaymentCompleted else PaymentFailed)
      in if validate_payment_payload payload
         then (w\<lparr>pw_events := pw_events w @ [(kind, payload)]\<rparr>, Ok ())
         else (w, Err (ApplicationError ''invalid payment saga payload'')))"

text \<open>The alert has no body.\<close>

definition notifyOperator :: "string \<Rightarrow> ('w pay_world, unit) activity" where
  "notifyOperator reason w = (w, Ok ())"

subsection \<open>The saga\<close>

definition validatePaymentInput :: "payment_input \<Rightarrow> payment_error option" where
  "validatePaymentInput i =
     (if trim_space (py_TenantID i) = [] then Some ErrTenantRequired
      else if trim_space (py_OrderID i) = [] then Some ErrOrderRequired
      else if py_AmountCents i \<le> 0 then Some ErrAmountNotPositive
      else if trim_space (py_Currency i) = [] then Some ErrCurrencyRequired
      else None)"

definition resolvedCommercialStatus :: "string \<Rightarrow> string" where
  "resolvedCommercialStatus s =
     (if to_lower (trim_space s) = ''pending'' then ''pending'' else ''completed'')"

text \<open>The doubling is \<open>int64\<close> arithmetic.\<close>

definition backoffDuration :: "nat \<Rightarrow> duration" where
  "backoffDuration attempt =
     (let d = ((\<lambda>d. wrap64 (2 * d)) ^^ attempt) time_second in
      if d > 30 * time_second then 30 * time_second else d)"

definition no_charge :: charge_result where
  "no_charge = \<lparr>ch_PaymentID = [], ch_ExternalRef = [], ch_Status = [], ch_Provider = []\<rparr>"

text \<open>One attempt of an activity, its result dropped.\<close>

definition ignoring :: "('w, 'a) activity \<Rightarrow> 'w \<Rightarrow> 'w" where
  "ignoring act w = fst (executeActivity 1 act w)"

fun act_error_text :: "act_error \<Rightarrow> string" where
  "act_error_text (ApplicationError s) = s"
| "act_error_text TimeoutError = ''activity timeout''"
| "act_error_text CanceledError = ''canceled''"

definition handleChargeSuccess ::
  "'w payment_deps \<Rightarrow> payment_input \<Rightarrow> charge_result \<Rightarrow> nat \<Rightarrow> 'w pay_world \<Rightarrow> 'w pay_world \<times> payment_result" where
  "handleChargeSuccess d input r retries w =
     (let status = resolvedCommercialStatus (ch_Status r);
          w1 = (if status = ''completed'' then ignoring (updateOrderStatus d input ''paid'') w else w);
          w2 = ignoring (publishPaymentEvent input r status []) w1
      in (w2, \<lparr>pa_TenantID = py_TenantID input, pa_OrderID = py_OrderID input, pa_PaymentID = ch_PaymentID r,
               pa_Provider = ch_Provider r, pa_Status = status, pa_Retries = int retries, pa_FailReason = [],
               pa_Refunded = False\<rparr>))"

definition handlePersistentFailure ::
  "'w payment_deps \<Rightarrow> payment_input \<Rightarrow> act_error option \<Rightarrow> int \<Rightarrow> 'w pay_world \<Rightarrow>
   'w pay_world \<times> payment_result \<times> payment_error option" where
  "handlePersistentFailure d input cause retries w =
     (let reason = (case cause of None \<Rightarrow> ''unknown'' | Some e \<Rightarrow> act_error_text e);
          w1 = ignoring (updateOrderStatus d input ''failed'') w;
          w2 = ignoring (notifyOperator reason) w1;
          w3 = ignoring (publishPaymentEvent input no_charge ''failed'' reason) w2
      in (w3, \<lparr>pa_TenantID = py_TenantID input, pa_OrderID = py_OrderID input, pa_PaymentID = [],
               pa_Provider = [], pa_Status = ''failed'', pa_Retries = retries, pa_FailReason = reason,
               pa_Refunded = False\<rparr>, Some (ErrPaymentRetryExhausted cause)))"

text \<open>The loop, from attempt \<open>attempt\<close> on, with \<open>left\<close> attempts to go.\<close>

fun charge_attempts ::
  "'w payment_deps \<Rightarrow> payment_input \<Rightarrow> string \<Rightarrow> nat \<Rightarrow> nat \<Rightarrow> act_error option \<Rightarrow> 'w pay_world \<Rightarrow>
   'w pay_world \<times> payment_result \<times> payment_error option" where
  "charge_attempts d input provider attempt 0 lastErr w =
     handlePersistentFailure d input lastErr (int attempt) w"
| "charge_attempts d input provider attempt (Suc left) lastErr w =
     (let w0 = (if 0 < attempt then w\<lparr>pw_sleeps := pw_sleeps w @ [backoffDuration attempt]\<rparr> else w) in
      case executeActivity 1 (charge d input provider) w0 of
        (w1, Err e) \<Rightarrow> charge_attempts d input provider (attempt + 1) left (Some e) w1
      | (w1, Ok r) \<Rightarrow> (case handleChargeSuccess d input r attempt w1 of (w2, res) \<Rightarrow> (w2, res, None)))"

definition chargeWithRetry where
  "chargeWithRetry d input provider maxRetries w = charge_attempts d input provider 0 (nat maxRetries) None w"

definition paymentSagaWorkflow ::
  "'w payment_deps \<Rightarrow> payment_input \<Rightarrow> 'w pay_world \<Rightarrow> 'w pay_world \<times> payment_result \<times> payment_error option" where
  "paymentSagaWorkflow d input w =
     (case validatePaymentInput input of
        Some e \<Rightarrow>
          (w, \<lparr>pa_TenantID = py_TenantID input, pa_OrderID = py_OrderID input, pa_PaymentID = [], pa_Provider = [],
               pa_Status = ''invalid'', pa_Retries = 0, pa_FailReason = [], pa_Refunded = False\<rparr>, Some e)
      | None \<Rightarrow>
          (let maxRetries = (if py_MaxRetries input \<le> 0 then 3 else py_MaxRetries input) in
           case executeActivity 1 (selectProvider d input) w of
             (w1, Err e) \<Rightarrow> handlePersistentFailure d input (Some e) 0 w1
           | (w1, Ok provider) \<Rightarrow> chargeWithRetry d input provider maxRetries w1))"

subsection \<open>The Stripe gateway\<close>

record stripe_intent =
  si_ID :: string
  si_Status :: string

record 'w stripe_adapter =
  sa_http :: "string \<Rightarrow> string \<Rightarrow> 'w \<Rightarrow> 'w \<times> (string + int \<times> string)"
  sa_decode :: "string \<Rightarrow> stripe_intent option"

definition mapPaymentMethod :: "string \<Rightarrow> string" where
  "mapPaymentMethod m = (if m = ''alipay'' then ''alipay'' else if m = ''wechat'' then ''wechat_pay'' else ''card'')"

definition validateChargeInput :: "string \<Rightarrow> string \<Rightarrow> int \<Rightarrow> string \<Rightarrow> bool" where
  "validateChargeInput tenantID orderID a cur \<longleftrightarrow>
     trim_space tenantID \<noteq> [] \<and> trim_space orderID \<noteq> [] \<and> 0 < a \<and> trim_space cur \<noteq> []"

definition intent_form :: "string \<Rightarrow> string \<Rightarrow> int \<Rightarrow> string \<Rightarrow> string \<Rightarrow> string" where
  "intent_form tenantID orderID a cur method =
     ''amount='' @ format_int a @ ''&currency='' @ to_lower cur @ ''&metadata[tenant_id]='' @ tenantID
     @ ''&metadata[order_id]='' @ orderID @ ''&payment_method_types[]='' @ mapPaymentMethod method @ ''&confirm=true''"

definition createPaymentIntent ::
  "'w stripe_adapter \<Rightarrow> string \<Rightarrow> string \<Rightarrow> int \<Rightarrow> string \<Rightarrow> string \<Rightarrow> 'w \<Rightarrow> 'w \<times> (string + string)" where
  "createPaymentIntent a tenantID orderID am cur method u =
     (case sa_http a (intent_form tenantID orderID am cur method) (tenantID @ '':'' @ orderID) u of
        (u', Err e) \<Rightarrow> (u', Err ''payment provider unavailable'')
      | (u', Ok (status, body)) \<Rightarrow> (u', if 400 \<le> status then Err ''payment declined'' else Ok body))"

definition parseStripeChargeResponse :: "'w stripe_adapter \<Rightarrow> string \<Rightarrow> string + charge_result" where
  "parseStripeChargeResponse a body =
     (case sa_decode a body of
        None \<Rightarrow> Err ''payment provider unavailable''
      | Some pi \<Rightarrow>
          Ok \<lparr>ch_PaymentID = si_ID pi, ch_ExternalRef = si_ID pi,
              ch_Status = (if si_Status pi = ''succeeded'' then ''succeeded''
                           else if si_Status pi = ''requires_action'' \<or> si_Status pi = ''requires_payment_method''
                           then ''failed'' else ''pending''),
              ch_Provider = ''stripe''\<rparr>)"

definition stripe_charge :: "'w stripe_adapter \<Rightarrow> 'w gateway_charge" where
  "stripe_charge a tenantID orderID am cur method u =
     (if \<not> validateChargeInput tenantID orderID am cur then (u, Err ''payment declined'')
      else case createPaymentIntent a tenantID orderID am cur method u of
        (u', Err e) \<Rightarrow> (u', Err e)
      | (u', Ok body) \<Rightarrow> (u', parseStripeChargeResponse a body))"

subsection \<open>One charge\<close>

text \<open>A gateway that counts its successful charges.\<close>

definition counting :: "'w gateway_charge \<Rightarrow> ('w \<times> nat) gateway_charge" where
  "counting gw t i a c m = (\<lambda>(u, n). case gw t i a c m u of (u', r) \<Rightarrow> ((u', n + (if is_ok r then 1 else 0)), r))"

lemma executeActivity_one [simp]: "executeActivity 1 act w = act w" "executeActivity (Suc 0) act w = act w"
  by (simp_all add: executeActivity_def)

lemma ignoring_outer [simp]:
  "pw_outer (ignoring (updateOrderStatus d input s) w) = pw_outer w"
  "pw_outer (ignoring (publishPaymentEvent input r st reason) w) = pw_outer w"
  "pw_outer (ignoring (notifyOperator reason) w) = pw_outer w"
  by (simp_all add: ignoring_def updateOrderStatus_def publishPaymentEvent_def notifyOperator_def Let_def split: option.split)

lemma failure_outer: "pw_outer (fst (handlePersistentFailure d input cause n w)) = pw_outer w"
  "snd (snd (handlePersistentFailure d input cause n w)) \<noteq> None"
  by (simp_all add: handlePersistentFailure_def Let_def)

lemma success_outer: "pw_outer (fst (handleChargeSuccess d input r n w)) = pw_outer w"
  by (simp add: handleChargeSuccess_def Let_def)

lemma charge_counts:
  assumes "charge d input provider w = (w', r)" and "pd_Providers d = map (\<lambda>(k, g). (k, counting g)) ps"
  shows "snd (pw_outer w') = snd (pw_outer w) + (if is_ok r then 1 else 0)"
proof (cases "mget (pd_Providers d) provider")
  case (Some gw)
  then obtain g where "gw = counting g" using assms(2) by (auto simp: mget_def map_of_map)
  then show ?thesis using assms(1) Some
    by (cases "pw_outer w") (auto simp: charge_def counting_def split: prod.splits sum.splits)
qed (use assms(1) in \<open>auto simp: charge_def\<close>)

lemma charge_attempts_counts:
  assumes "charge_attempts d input provider k left e w = (w', res, err)"
    and "pd_Providers d = map (\<lambda>(k, g). (k, counting g)) ps"
  shows "snd (pw_outer w') = snd (pw_outer w) + (if err = None then 1 else 0)"
  using assms(1)
proof (induction left arbitrary: k e w)
  case 0
  then show ?case using failure_outer [of d input e "int k" w] by auto
next
  case (Suc left)
  define w0 where "w0 = (if 0 < k then w\<lparr>pw_sleeps := pw_sleeps w @ [backoffDuration k]\<rparr> else w)"
  obtain w1 r where c: "charge d input provider w0 = (w1, r)" by force
  have n: "snd (pw_outer w1) = snd (pw_outer w) + (if is_ok r then 1 else 0)"
    using charge_counts [OF c assms(2)] by (simp add: w0_def)
  show ?case
  proof (cases r)
    case (Inl x)
    then have "charge_attempts d input provider (k + 1) left (Some x) w1 = (w', res, err)"
      using Suc.prems c by (simp add: w0_def Let_def)
    from Suc.IH [OF this] show ?thesis using n Inl by simp
  next
    case (Inr ch)
    then show ?thesis using Suc.prems c n success_outer [of d input ch k w1]
      by (auto simp: w0_def Let_def split: prod.splits)
  qed
qed


text \<open>A gateway that answers from a script, for the concrete runs.\<close>

definition scripted :: "(string + charge_result) list gateway_charge" where
  "scripted t i a c m u = (case u of [] \<Rightarrow> ([], Err ''down'') | r # rs \<Rightarrow> (rs, r))"

definition sample_payment :: payment_input where
  "sample_payment =
     \<lparr>py_TenantID = ''t1'', py_OrderID = ''o1'', py_AmountCents = 500, py_Currency = ''AUD'', py_Method = ''card'',
      py_MaxRetries = 0\<rparr>"

definition sample_charge :: "string \<Rightarrow> charge_result" where
  "sample_charge s = \<lparr>ch_PaymentID = ''pi_1'', ch_ExternalRef = ''pi_1'', ch_Status = s, ch_Provider = ''stripe''\<rparr>"

definition pay_start :: "'w \<Rightarrow> 'w pay_world" where
  "pay_start u = \<lparr>pw_outer = u, pw_orders = [], pw_events = [], pw_sleeps = []\<rparr>"

definition sample_deps :: "'w gateway_charge \<Rightarrow> 'w payment_deps" where
  "sample_deps gw = \<lparr>pd_Providers = [(''stripe'', gw)], pd_Selector = None, pd_Orders = Some (\<lambda>_ _. True)\<rparr>"


subsection \<open>What the saga tells the rest of the system\<close>

lemma first_attempt_succeeds:
  assumes "validatePaymentInput input = None" and "pd_Selector d = None" and "mget (pd_Providers d) ''stripe'' = Some gw"
    and "gw (py_TenantID input) (py_OrderID input) (py_AmountCents input) (py_Currency input) (py_Method input) (pw_outer w) = (u, Ok r)"
  shows "paymentSagaWorkflow d input w =
    (case handleChargeSuccess d input r 0 (w\<lparr>pw_outer := u\<rparr>) of (w', res) \<Rightarrow> (w', res, None))"
proof -
  have "nat (if py_MaxRetries input \<le> 0 then 3 else py_MaxRetries input)
      = Suc (nat ((if py_MaxRetries input \<le> 0 then 3 else py_MaxRetries input) - 1))" by auto
  then obtain m where m: "nat (if py_MaxRetries input \<le> 0 then 3 else py_MaxRetries input) = Suc m" by blast
  have "charge d input ''stripe'' w = (w\<lparr>pw_outer := u\<rparr>, Ok r)" using assms(3,4) by (simp add: charge_def)
  then show ?thesis using assms(1,2) m
    by (simp add: paymentSagaWorkflow_def selectProvider_def chargeWithRetry_def Let_def)
qed

text \<open>C8: A payment that Stripe has refused marks the order as paid. Stripe answers a confirmed
  intent whose card was refused with status \<open>requires_payment_method\<close>; the adapter turns it into
  a result with status \<open>failed\<close> and no error, and the saga takes every status but \<open>pending\<close> for
  completed: it marks the order as paid, publishes a payment-completed event and reports success.\<close>

theorem refused_charge_marks_paid:
  assumes "validatePaymentInput input = None" and "pd_Selector d = None" and "pd_Orders d = Some (\<lambda>_ _. True)"
    and "mget (pd_Providers d) ''stripe'' = Some (stripe_charge a)"
    and "sa_http a (intent_form (py_TenantID input) (py_OrderID input) (py_AmountCents input) (py_Currency input) (py_Method input))
           (py_TenantID input @ '':'' @ py_OrderID input) (pw_outer w) = (u, Ok (200, body))"
    and "sa_decode a body = Some \<lparr>si_ID = pid, si_Status = ''requires_payment_method''\<rparr>"
  shows "\<exists>w' res payload. paymentSagaWorkflow d input w = (w', res, None) \<and> pa_Status res = ''completed''
    \<and> pw_orders w' = pw_orders w @ [(py_OrderID input, ''paid'')]
    \<and> pw_events w' = pw_events w @ [(PaymentCompleted, payload)] \<and> pp_PaymentID payload = pid"
proof -
  have v: "validateChargeInput (py_TenantID input) (py_OrderID input) (py_AmountCents input) (py_Currency input)"
    "py_TenantID input \<noteq> []" "py_OrderID input \<noteq> []"
    using assms(1) by (auto simp: validatePaymentInput_def validateChargeInput_def split: if_splits)
  let ?r = "\<lparr>ch_PaymentID = pid, ch_ExternalRef = pid, ch_Status = ''failed'', ch_Provider = ''stripe''\<rparr>"
  have "stripe_charge a (py_TenantID input) (py_OrderID input) (py_AmountCents input) (py_Currency input) (py_Method input) (pw_outer w)
      = (u, Ok ?r)"
    using v assms(5,6) by (simp add: stripe_charge_def createPaymentIntent_def parseStripeChargeResponse_def)
  note run = first_attempt_succeeds [OF assms(1,2,4) this]
  have "to_lower (trim_space ''failed'') \<noteq> ''pending''" by code_simp
  then have s: "resolvedCommercialStatus (ch_Status ?r) = ''completed''" by (simp add: resolvedCommercialStatus_def)
  show ?thesis using run v(2,3) assms(3)
    by (simp add: handleChargeSuccess_def s [simplified] Let_def ignoring_def updateOrderStatus_def publishPaymentEvent_def
        validate_payment_payload_def payment_payload_of_def)
qed

definition refusing_stripe :: "unit stripe_adapter" where
  "refusing_stripe = \<lparr>sa_http = (\<lambda>_ _ u. (u, Ok (200, ''{}''))),
     sa_decode = (\<lambda>_. Some \<lparr>si_ID = ''pi_1'', si_Status = ''requires_payment_method''\<rparr>)\<rparr>"

theorem refused_charge_marks_paid_witness:
  "\<exists>w' res payload. paymentSagaWorkflow (sample_deps (stripe_charge refusing_stripe)) sample_payment (pay_start ()) = (w', res, None)
     \<and> pa_Status res = ''completed'' \<and> pw_orders w' = [(''o1'', ''paid'')] \<and> pw_events w' = [(PaymentCompleted, payload)]"
proof -
  have v: "validatePaymentInput sample_payment = None" by code_simp
  from refused_charge_marks_paid [OF v, of "sample_deps (stripe_charge refusing_stripe)" refusing_stripe "pay_start ()" "()" "''{}''" "''pi_1''"]
  show ?thesis by (auto simp: sample_deps_def refusing_stripe_def mget_def pay_start_def sample_payment_def)
qed

text \<open>A pending charge is announced as a failed payment, and a payment that has failed for good is not
  announced at all: its event has no provider, so the payload is refused and the error dropped.\<close>

theorem payment_events_misreport:
  assumes "validatePaymentInput input = None" and "pd_Selector d = None" and "mget (pd_Providers d) ''stripe'' = Some gw"
    and "gw (py_TenantID input) (py_OrderID input) (py_AmountCents input) (py_Currency input) (py_Method input) (pw_outer w) = (u, Ok r)"
    and "ch_Status r = ''pending''" and "ch_Provider r \<noteq> []"
  shows "(\<exists>w' res. paymentSagaWorkflow d input w = (w', res, None) \<and> pa_Status res = ''pending''
      \<and> map fst (pw_events w') = map fst (pw_events w) @ [PaymentFailed])
    \<and> pw_events (fst (handlePersistentFailure d input cause n v)) = pw_events v"
proof -
  have v: "py_TenantID input \<noteq> []" "py_OrderID input \<noteq> []"
    using assms(1) by (auto simp: validatePaymentInput_def split: if_splits)
  have "to_lower (trim_space ''pending'') = ''pending''" by code_simp
  then have s: "resolvedCommercialStatus (ch_Status r) = ''pending''" by (simp add: resolvedCommercialStatus_def assms(5))
  have "pw_events (ignoring (updateOrderStatus d input st) x) = pw_events x" for st x
    by (simp add: ignoring_def updateOrderStatus_def split: option.split)
  then have "pw_events (fst (handlePersistentFailure d input cause n v)) = pw_events v"
    by (simp add: handlePersistentFailure_def Let_def ignoring_def notifyOperator_def publishPaymentEvent_def
        validate_payment_payload_def payment_payload_of_def no_charge_def)
  then show ?thesis using first_attempt_succeeds [OF assms(1-4)] v assms(6)
    by (simp add: handleChargeSuccess_def s Let_def ignoring_def publishPaymentEvent_def
        validate_payment_payload_def payment_payload_of_def)
qed

text \<open>The backoff is exponential with a cap of thirty seconds for the first 33 attempts. At the
  34th the doubling overflows to a negative duration, which the cap does not catch, and from the
  55th on it is zero: a saga with that many retries goes on without a pause.\<close>

lemma doubling: "((\<lambda>d. wrap64 (2 * d)) ^^ k) time_second = wrap64 (2 ^ k * time_second)"
proof (induction k)
  case 0
  show ?case by (simp add: wrap64_def time_second_def)
next
  case (Suc k)
  have "wrap64 (2 * wrap64 x) = wrap64 (2 * x)" for x
    unfolding mult_2 wrap64_add_left wrap64_add_right ..
  then have "wrap64 (2 * wrap64 (2 ^ k * time_second)) = wrap64 (2 * (2 ^ k * time_second))" .
  also have "2 * (2 ^ k * time_second) = 2 ^ Suc k * time_second" by (simp only: power_Suc mult.assoc)
  finally show ?case unfolding funpow.simps comp_apply Suc.IH .
qed

theorem backoff_exact:
  "(k \<le> 33 \<longrightarrow> backoffDuration k = min (30 * time_second) (2 ^ k * time_second))
   \<and> backoffDuration 34 < 0 \<and> (55 \<le> k \<longrightarrow> backoffDuration k = 0)"
proof (intro conjI impI)
  assume "k \<le> 33"
  then have "(2::int) ^ k \<le> 2 ^ 33" by (intro power_increasing) simp_all
  then have u: "(2::int) ^ k \<le> 8589934592" by simp
  have l: "(0::int) < 2 ^ k" by simp
  obtain x where x: "x = (2::int) ^ k" by simp
  have "in_int64 (x * time_second)"
    using u l unfolding x [symmetric] in_int64_def min_int64_def max_int64_def time_second_def by simp
  then have "in_int64 (2 ^ k * time_second)" unfolding x .
  then show "backoffDuration k = min (30 * time_second) (2 ^ k * time_second)"
    unfolding backoffDuration_def doubling by (simp add: Let_def min_def)
next
  show "backoffDuration 34 < 0"
    unfolding backoffDuration_def doubling by (simp add: wrap64_def time_second_def)
next
  assume "55 \<le> k"
  then obtain j where "k = 55 + j" using le_Suc_ex by blast
  then have "2 ^ k * time_second = (2 ^ j * 1953125) * 2 ^ 64" by (simp add: time_second_def power_add)
  then have "wrap64 (2 ^ k * time_second) = wrap64 0"
    unfolding wrap64_def by (metis mod_mult_self3 add.commute add_0)
  then show "backoffDuration k = 0"
    unfolding backoffDuration_def doubling by (simp add: wrap64_def time_second_def)
qed

end
