(* ===== verification/ReturnsSaga.thy ===== *)
theory ReturnsSaga
  imports Temporal
begin

text \<open>
  The returns saga (\<open>internal/workflow/returns_saga.go\<close>) with its event payload
  (\<open>internal/eventbus/payloads_fulfilment.go\<close>): eligibility, approval gate, label, notification, refund,
  inventory, channel status, and the compensations. The ports behind the activities are parameters:
  functions on an outer world that return what one attempt returns to the workflow. Every call of
  a port is logged with its step and outcome. The time of an event is left out.
\<close>

subsection \<open>Data\<close>

record returns_input =
  ri_TenantID :: string
  ri_RMAID :: string
  ri_OrderID :: string
  ri_Channel :: string
  ri_BuyerEmail :: string
  ri_Reason :: string
  ri_RefundCents :: int
  ri_ThresholdCents :: int

record returns_result =
  rr_TenantID :: string
  rr_RMAID :: string
  rr_State :: string
  rr_AutoApproved :: bool
  rr_TrackingNumber :: string
  rr_RefundProcessed :: bool
  rr_InventoryUpdated :: bool
  rr_ChannelUpdated :: bool
  rr_RolledBackReason :: string

record return_label =
  rl_Carrier :: string
  rl_TrackingNumber :: string
  rl_LabelPDFURL :: string
  rl_CostAUDCents :: int

record returns_payload =
  rp_TenantID :: string
  rp_RMAID :: string
  rp_OrderID :: string
  rp_Reason :: string
  rp_RefundCents :: int
  rp_AutoApproved :: bool
  rp_State :: string
  rp_RolledBackReason :: string

datatype returns_event = ReturnRequested | LargeRefundPendingApproval | ReturnsSagaCompleted | ReturnsSagaRolledBack

datatype return_step =
    StepEligibility | StepLabel | StepNotify | StepRefund | StepAdjust | StepChannel
  | StepReverse | StepCancelLabel | StepAlert | StepPublish returns_event returns_payload

datatype returns_error = StepFailed act_error | ErrReturnSagaRolledBack act_error

record 'w return_world =
  rw_outer :: 'w
  rw_log :: "(return_step \<times> bool) list"

type_synonym ('w, 'a) return_port = "'w \<Rightarrow> 'w \<times> (act_error + 'a)"

record 'w returns_deps =
  rd_Eligibility :: "(returns_input \<Rightarrow> ('w, unit) return_port) option"
  rd_LabelGen :: "((returns_input \<Rightarrow> ('w, return_label) return_port) \<times> (returns_input \<Rightarrow> ('w, unit) return_port)) option"
  rd_Messaging :: "(returns_input \<Rightarrow> return_label \<Rightarrow> ('w, unit) return_port) option"
  rd_Refunds :: "(returns_input \<Rightarrow> ('w, unit) return_port) option"
  rd_Inventory :: "((returns_input \<Rightarrow> ('w, unit) return_port) \<times> (returns_input \<Rightarrow> ('w, unit) return_port)) option"
  rd_ChannelStatus :: "(returns_input \<Rightarrow> ('w, unit) return_port) option"
  rd_OperatorAlert :: "(returns_input \<Rightarrow> string \<Rightarrow> ('w, unit) return_port) option"
  rd_Publisher :: "(returns_event \<Rightarrow> returns_payload \<Rightarrow> ('w, unit) return_port) option"

subsection \<open>The activities\<close>

definition port_call :: "return_step \<Rightarrow> ('w, 'a) return_port \<Rightarrow> ('w return_world, 'a) activity" where
  "port_call s p w =
     (case p (rw_outer w) of (u, r) \<Rightarrow> (w\<lparr>rw_outer := u, rw_log := rw_log w @ [(s, is_ok r)]\<rparr>, r))"

text \<open>A port that is not wired: the activity succeeds.\<close>

definition optional_call :: "return_step \<Rightarrow> ('w, unit) return_port option \<Rightarrow> ('w return_world, unit) activity" where
  "optional_call s p w = (case p of None \<Rightarrow> (w, Ok ()) | Some q \<Rightarrow> port_call s q w)"

definition validateReturnsInput :: "returns_input \<Rightarrow> string option" where
  "validateReturnsInput i =
     (if trim_space (ri_TenantID i) = [] then Some ''returns: not eligible: tenant_id required''
      else if trim_space (ri_RMAID i) = [] then Some ''returns: not eligible: rma_id required''
      else if trim_space (ri_OrderID i) = [] then Some ''returns: not eligible: order_id required''
      else if ri_RefundCents i < 0 then Some ''returns: not eligible: refund cannot be negative''
      else None)"

definition validateReturnEligibility :: "'w returns_deps \<Rightarrow> returns_input \<Rightarrow> ('w return_world, unit) activity" where
  "validateReturnEligibility d i w =
     (case validateReturnsInput i of
        Some e \<Rightarrow> (w, Err (ApplicationError e))
      | None \<Rightarrow> optional_call StepEligibility (map_option (\<lambda>p. p i) (rd_Eligibility d)) w)"

definition checkRefundApproval :: "returns_input \<Rightarrow> int \<Rightarrow> ('w return_world, bool) activity" where
  "checkRefundApproval i threshold w = (w, Ok (\<not> threshold \<le> ri_RefundCents i))"

definition generateReturnLabel :: "'w returns_deps \<Rightarrow> returns_input \<Rightarrow> ('w return_world, return_label) activity" where
  "generateReturnLabel d i w =
     (case rd_LabelGen d of
        None \<Rightarrow> (w, Err (ApplicationError ''returns: saga rolled back: label generator unconfigured''))
      | Some (gen, _) \<Rightarrow> port_call StepLabel (gen i) w)"

definition notifyReturnCustomer where
  "notifyReturnCustomer d i label = optional_call StepNotify (map_option (\<lambda>p. p i label) (rd_Messaging d))"

definition processReturnRefund where
  "processReturnRefund d i = optional_call StepRefund (map_option (\<lambda>p. p i) (rd_Refunds d))"

definition adjustReturnInventory where
  "adjustReturnInventory d i = optional_call StepAdjust (map_option (\<lambda>p. fst p i) (rd_Inventory d))"

definition updateReturnChannelStatus where
  "updateReturnChannelStatus d i = optional_call StepChannel (map_option (\<lambda>p. p i) (rd_ChannelStatus d))"

definition compensateReverseInventory where
  "compensateReverseInventory d i = optional_call StepReverse (map_option (\<lambda>p. snd p i) (rd_Inventory d))"

definition compensateCancelLabel where
  "compensateCancelLabel d i = optional_call StepCancelLabel (map_option (\<lambda>p. snd p i) (rd_LabelGen d))"

definition notifyReturnOperator where
  "notifyReturnOperator d i reason = optional_call StepAlert (map_option (\<lambda>p. p i reason) (rd_OperatorAlert d))"

definition validate_returns_payload :: "returns_payload \<Rightarrow> bool" where
  "validate_returns_payload p \<longleftrightarrow>
     rp_TenantID p \<noteq> [] \<and> rp_RMAID p \<noteq> [] \<and> rp_OrderID p \<noteq> [] \<and> 0 \<le> rp_RefundCents p \<and> rp_State p \<noteq> []"

definition returns_event_of :: "string \<Rightarrow> returns_event" where
  "returns_event_of s =
     (if s = ''pending_approval'' then LargeRefundPendingApproval
      else if s = ''rolled_back'' then ReturnsSagaRolledBack
      else if s = ''completed'' then ReturnsSagaCompleted
      else ReturnRequested)"

definition publishReturnsSagaState :: "'w returns_deps \<Rightarrow> returns_payload \<Rightarrow> ('w return_world, unit) activity" where
  "publishReturnsSagaState d p w =
     (case rd_Publisher d of
        None \<Rightarrow> (w, Ok ())
      | Some pub \<Rightarrow>
          if validate_returns_payload p
          then port_call (StepPublish (returns_event_of (rp_State p)) p) (pub (returns_event_of (rp_State p)) p) w
          else (w, Err (ApplicationError ''invalid returns saga payload'')))"

subsection \<open>The saga\<close>

text \<open>The retry policy of the saga: three attempts.\<close>

definition returns_attempts :: nat where "returns_attempts = 3"

definition dropping :: "('w, 'a) activity \<Rightarrow> 'w \<Rightarrow> 'w" where
  "dropping act w = fst (executeActivity returns_attempts act w)"

definition sagaSnapshot :: "returns_input \<Rightarrow> returns_result \<Rightarrow> string \<Rightarrow> returns_payload" where
  "sagaSnapshot i res state =
     \<lparr>rp_TenantID = ri_TenantID i, rp_RMAID = ri_RMAID i, rp_OrderID = ri_OrderID i, rp_Reason = ri_Reason i,
      rp_RefundCents = ri_RefundCents i, rp_AutoApproved = rr_AutoApproved res, rp_State = state,
      rp_RolledBackReason = rr_RolledBackReason res\<rparr>"

fun error_text :: "act_error \<Rightarrow> string" where
  "error_text (ApplicationError s) = s"
| "error_text TimeoutError = ''activity timeout''"
| "error_text CanceledError = ''canceled''"

type_synonym 'w returns_outcome = "'w return_world \<times> returns_result \<times> returns_error option"

definition rollback ::
  "'w returns_deps \<Rightarrow> returns_input \<Rightarrow> returns_result \<Rightarrow> act_error \<Rightarrow> bool \<Rightarrow> bool \<Rightarrow> 'w return_world \<Rightarrow> 'w returns_outcome" where
  "rollback d i res cause labelGenerated inventoryAdjusted w =
     (let w1 = (if inventoryAdjusted then dropping (compensateReverseInventory d i) w else w);
          w2 = (if labelGenerated then dropping (compensateCancelLabel d i) w1 else w1);
          w3 = dropping (notifyReturnOperator d i (error_text cause)) w2;
          res' = res\<lparr>rr_State := ''rolled_back'', rr_RolledBackReason := error_text cause\<rparr>;
          w4 = dropping (publishReturnsSagaState d (sagaSnapshot i res' ''rolled_back'')) w3
      in (w4, res', Some (ErrReturnSagaRolledBack cause)))"

definition runHappyPath ::
  "'w returns_deps \<Rightarrow> returns_input \<Rightarrow> returns_result \<Rightarrow> 'w return_world \<Rightarrow> 'w returns_outcome" where
  "runHappyPath d i res w0 =
     (case executeActivity returns_attempts (generateReturnLabel d i) w0 of
        (w1, Err e) \<Rightarrow> rollback d i res e False False w1
      | (w1, Ok label) \<Rightarrow>
     (let res1 = res\<lparr>rr_TrackingNumber := rl_TrackingNumber label\<rparr> in
      case executeActivity returns_attempts (notifyReturnCustomer d i label) w1 of
        (w2, Err e) \<Rightarrow> rollback d i res1 e True False w2
      | (w2, Ok _) \<Rightarrow>
     (case executeActivity returns_attempts (processReturnRefund d i) w2 of
        (w3, Err e) \<Rightarrow> rollback d i res1 e True False w3
      | (w3, Ok _) \<Rightarrow>
     (let res2 = res1\<lparr>rr_RefundProcessed := True\<rparr> in
      case executeActivity returns_attempts (adjustReturnInventory d i) w3 of
        (w4, Err e) \<Rightarrow> rollback d i res2 e True False w4
      | (w4, Ok _) \<Rightarrow>
     (let res3 = res2\<lparr>rr_InventoryUpdated := True\<rparr> in
      case executeActivity returns_attempts (updateReturnChannelStatus d i) w4 of
        (w5, Err e) \<Rightarrow> rollback d i res3 e True True w5
      | (w5, Ok _) \<Rightarrow>
     (let res4 = res3\<lparr>rr_ChannelUpdated := True, rr_State := ''completed''\<rparr>
      in (dropping (publishReturnsSagaState d (sagaSnapshot i res4 ''completed'')) w5, res4, None)))))))"

definition approvalDecision :: "returns_input \<Rightarrow> int \<Rightarrow> 'w return_world \<Rightarrow> 'w return_world \<times> bool" where
  "approvalDecision i threshold w =
     (case executeActivity returns_attempts (checkRefundApproval i threshold) w of
        (w', Err _) \<Rightarrow> (w', False)
      | (w', Ok approved) \<Rightarrow> (w', approved))"

definition returns_threshold :: "returns_input \<Rightarrow> int" where
  "returns_threshold i = (if ri_ThresholdCents i \<le> 0 then 5000 else ri_ThresholdCents i)"

definition returns_start :: "returns_input \<Rightarrow> returns_result" where
  "returns_start i =
     \<lparr>rr_TenantID = ri_TenantID i, rr_RMAID = ri_RMAID i, rr_State = [], rr_AutoApproved = False, rr_TrackingNumber = [],
      rr_RefundProcessed = False, rr_InventoryUpdated = False, rr_ChannelUpdated = False, rr_RolledBackReason = []\<rparr>"

definition returnsSagaWorkflow :: "'w returns_deps \<Rightarrow> returns_input \<Rightarrow> 'w return_world \<Rightarrow> 'w returns_outcome" where
  "returnsSagaWorkflow d i w0 =
     (let res = returns_start i in
      case executeActivity returns_attempts (validateReturnEligibility d i) w0 of
        (w1, Err e) \<Rightarrow>
          (let res' = res\<lparr>rr_State := ''rolled_back'', rr_RolledBackReason := error_text e\<rparr>
           in (dropping (publishReturnsSagaState d (sagaSnapshot i res' ''rolled_back'')) w1, res', Some (StepFailed e)))
      | (w1, Ok _) \<Rightarrow>
     (case approvalDecision i (returns_threshold i) w1 of
        (w2, False) \<Rightarrow>
          (let res' = res\<lparr>rr_State := ''pending_approval''\<rparr>
           in (dropping (publishReturnsSagaState d (sagaSnapshot i res' ''pending_approval'')) w2, res', None))
      | (w2, True) \<Rightarrow> runHappyPath d i (res\<lparr>rr_AutoApproved := True\<rparr>) w2))"

subsection \<open>What an activity leaves in the log\<close>

definition done_of :: "'w return_world \<Rightarrow> return_step \<Rightarrow> nat" where
  "done_of w s = count_list (rw_log w) (s, True)"

definition tried_of :: "'w return_world \<Rightarrow> return_step \<Rightarrow> bool" where
  "tried_of w s \<longleftrightarrow> (s, True) \<in> set (rw_log w) \<or> (s, False) \<in> set (rw_log w)"

text \<open>Step \<open>s\<close> was tried, and done once if \<open>ok\<close>; nothing else happened.\<close>

definition ticks :: "return_step \<Rightarrow> bool \<Rightarrow> 'w return_world \<Rightarrow> 'w return_world \<Rightarrow> bool" where
  "ticks s ok w w' \<longleftrightarrow>
     done_of w' = (done_of w)(s := done_of w s + of_bool ok) \<and> tried_of w' = (tried_of w)(s := True)"

lemma port_call_ticks: "port_call s p w = (w', r) \<Longrightarrow> ticks s (is_ok r) w w'"
  by (auto simp: ticks_def port_call_def done_of_def tried_of_def fun_eq_iff split: prod.splits)

lemma ticks_trans: "ticks s False w x \<Longrightarrow> ticks s ok x w' \<Longrightarrow> ticks s ok w w'"
  by (auto simp: ticks_def fun_eq_iff)

lemma retrying_ticks: "retrying n (port_call s p) w = (w', r) \<Longrightarrow> ticks s (is_ok r) w w'"
proof (induction n arbitrary: w)
  case 0
  then show ?case by (simp add: port_call_ticks)
next
  case (Suc n)
  obtain x q where act: "port_call s p w = (x, q)" by force
  show ?case
  proof (cases "is_ok q \<or> q = Err CanceledError")
    case True
    then have "w' = x \<and> r = q" using Suc.prems act by (cases q) auto
    then show ?thesis using port_call_ticks [OF act] by simp
  next
    case False
    then have "retrying n (port_call s p) x = (w', r)" using Suc.prems act by (cases q) auto
    moreover have "ticks s False w x" using port_call_ticks [OF act] False by simp
    ultimately show ?thesis using Suc.IH by (blast intro: ticks_trans)
  qed
qed

lemma wired_ticks:
  assumes "p \<noteq> None" and "executeActivity n (optional_call s p) w = (w', r)"
  shows "ticks s (is_ok r) w w'"
proof -
  obtain q where "p = Some q" using assms(1) by blast
  then have "optional_call s p = port_call s q" by (simp add: optional_call_def fun_eq_iff)
  then show ?thesis using assms(2) retrying_ticks unfolding executeActivity_def by metis
qed

definition wired :: "'w returns_deps \<Rightarrow> bool" where
  "wired d \<longleftrightarrow> rd_LabelGen d \<noteq> None \<and> rd_Messaging d \<noteq> None \<and> rd_Refunds d \<noteq> None \<and> rd_Inventory d \<noteq> None
     \<and> rd_ChannelStatus d \<noteq> None \<and> rd_OperatorAlert d \<noteq> None"

lemma label_ticks:
  assumes "wired d" and "executeActivity n (generateReturnLabel d i) w = (w', r)"
  shows "ticks StepLabel (is_ok r) w w'"
proof -
  obtain gen can where "rd_LabelGen d = Some (gen, can)" using assms(1) by (auto simp: wired_def)
  then have "generateReturnLabel d i = port_call StepLabel (gen i)" by (simp add: generateReturnLabel_def fun_eq_iff)
  then show ?thesis using assms(2) retrying_ticks unfolding executeActivity_def by metis
qed

text \<open>The optional steps of a wired saga.\<close>

lemma step_ticks:
  assumes "wired d"
  shows "executeActivity n (notifyReturnCustomer d i l) w = (w', r) \<Longrightarrow> ticks StepNotify (is_ok r) w w'"
    and "executeActivity n (processReturnRefund d i) w = (w', r) \<Longrightarrow> ticks StepRefund (is_ok r) w w'"
    and "executeActivity n (adjustReturnInventory d i) w = (w', r) \<Longrightarrow> ticks StepAdjust (is_ok r) w w'"
    and "executeActivity n (updateReturnChannelStatus d i) w = (w', r) \<Longrightarrow> ticks StepChannel (is_ok r) w w'"
    and "executeActivity n (compensateReverseInventory d i) w = (w', r) \<Longrightarrow> ticks StepReverse (is_ok r) w w'"
    and "executeActivity n (compensateCancelLabel d i) w = (w', r) \<Longrightarrow> ticks StepCancelLabel (is_ok r) w w'"
    and "executeActivity n (notifyReturnOperator d i t) w = (w', r) \<Longrightarrow> ticks StepAlert (is_ok r) w w'"
  unfolding notifyReturnCustomer_def processReturnRefund_def adjustReturnInventory_def
    updateReturnChannelStatus_def compensateReverseInventory_def compensateCancelLabel_def notifyReturnOperator_def
  by (erule wired_ticks [rotated], use assms in \<open>simp add: wired_def\<close>)+

text \<open>Publishing leaves the counts of the other steps alone.\<close>

fun is_effect :: "return_step \<Rightarrow> bool" where
  "is_effect (StepPublish _ _) \<longleftrightarrow> False"
| "is_effect _ \<longleftrightarrow> True"

lemma publish_quiet [simp]:
  assumes "is_effect s"
  shows "done_of (dropping (publishReturnsSagaState d p) w) s = done_of w s"
    "tried_of (dropping (publishReturnsSagaState d p) w) s = tried_of w s"
proof -
  have q: "done_of (fst (publishReturnsSagaState d p x)) s = done_of x s" 
    "tried_of (fst (publishReturnsSagaState d p x)) s = tried_of x s" for x
    using assms by (auto simp: publishReturnsSagaState_def port_call_def done_of_def tried_of_def
        split: option.split prod.split)
  let ?I = "\<lambda>x. done_of x s = done_of w s \<and> tried_of x s = tried_of w s"
  have "?I (dropping (publishReturnsSagaState d p) w)"
    unfolding dropping_def by (rule executeActivity_invariant [where I = ?I]) (simp_all add: q)
  then show "done_of (dropping (publishReturnsSagaState d p) w) s = done_of w s"
    "tried_of (dropping (publishReturnsSagaState d p) w) s = tried_of w s" by simp_all
qed

lemma optional_tick:
  assumes "\<And>w' r. executeActivity returns_attempts act w = (w', r) \<Longrightarrow> ticks s (is_ok r) w w'"
    and "x = (if c then dropping act w else w)"
  shows "\<exists>n. tried_of x = (tried_of w)(s := tried_of w s \<or> c) \<and> done_of x = (done_of w)(s := n)"
proof -
  obtain ok where "ticks s ok w (dropping act w)" unfolding dropping_def by (metis assms(1) prod.collapse)
  then have "tried_of x = (tried_of w)(s := tried_of w s \<or> c)"
    "done_of x = (done_of w)(s := (if c then done_of w s + of_bool ok else done_of w s))"
    unfolding assms(2) ticks_def by (cases c; simp)+
  then show ?thesis by blast
qed

lemma rollback_effect:
  assumes "wired d" and "rollback d i res cause l v w = (w', res', err)"
  shows "rr_State res' = ''rolled_back'' \<and> rr_RefundProcessed res' = rr_RefundProcessed res
    \<and> rr_InventoryUpdated res' = rr_InventoryUpdated res \<and> rr_ChannelUpdated res' = rr_ChannelUpdated res
    \<and> err = Some (ErrReturnSagaRolledBack cause)
    \<and> (\<forall>s \<in> {StepEligibility, StepLabel, StepNotify, StepRefund, StepAdjust, StepChannel}.
          done_of w' s = done_of w s \<and> tried_of w' s = tried_of w s)
    \<and> tried_of w' StepReverse = (tried_of w StepReverse \<or> v)
    \<and> tried_of w' StepCancelLabel = (tried_of w StepCancelLabel \<or> l) \<and> tried_of w' StepAlert"
proof -
  obtain w1 where w1: "w1 = (if v then dropping (compensateReverseInventory d i) w else w)" by blast
  obtain w2 where w2: "w2 = (if l then dropping (compensateCancelLabel d i) w1 else w1)" by blast
  obtain w3 where w3: "w3 = dropping (notifyReturnOperator d i (error_text cause)) w2" by blast
  have w3': "w3 = (if True then dropping (notifyReturnOperator d i (error_text cause)) w2 else w2)" by (simp add: w3)
  obtain a where t1: "tried_of w1 = (tried_of w)(StepReverse := tried_of w StepReverse \<or> v)"
    "done_of w1 = (done_of w)(StepReverse := a)"
    using optional_tick [OF _ w1, of StepReverse] step_ticks(5) [OF assms(1)] by blast
  obtain b where t2: "tried_of w2 = (tried_of w1)(StepCancelLabel := tried_of w1 StepCancelLabel \<or> l)"
    "done_of w2 = (done_of w1)(StepCancelLabel := b)"
    using optional_tick [OF _ w2, of StepCancelLabel] step_ticks(6) [OF assms(1)] by blast
  obtain c where t3: "tried_of w3 = (tried_of w2)(StepAlert := tried_of w2 StepAlert \<or> True)"
    "done_of w3 = (done_of w2)(StepAlert := c)"
    using optional_tick [OF _ w3', of StepAlert] step_ticks(7) [OF assms(1)] by blast
  show ?thesis using assms(2) unfolding rollback_def w1 [symmetric] w2 [symmetric] w3 [symmetric] Let_def
    by (auto simp: t1 t2 t3)
qed

subsection \<open>The accounts of a return\<close>

text \<open>The accounts at the end of the happy path: a flag of the result is set exactly when its step has been
  done, and the compensations are those of the steps done.\<close>

definition accounts :: "'w return_world \<Rightarrow> returns_result \<Rightarrow> returns_error option \<Rightarrow> bool" where
  "accounts w res err \<longleftrightarrow>
     done_of w StepRefund = of_bool (rr_RefundProcessed res)
   \<and> done_of w StepAdjust = of_bool (rr_InventoryUpdated res)
   \<and> done_of w StepChannel = of_bool (rr_ChannelUpdated res)
   \<and> done_of w StepLabel \<le> 1 \<and> done_of w StepNotify \<le> 1
   \<and> (if err = None
      then rr_State res = ''completed'' \<and> rr_ChannelUpdated res \<and> rr_InventoryUpdated res \<and> rr_RefundProcessed res
         \<and> \<not> tried_of w StepReverse \<and> \<not> tried_of w StepCancelLabel \<and> \<not> tried_of w StepAlert
      else rr_State res = ''rolled_back'' \<and> \<not> rr_ChannelUpdated res \<and> tried_of w StepAlert
         \<and> tried_of w StepReverse = rr_InventoryUpdated res \<and> tried_of w StepCancelLabel = (done_of w StepLabel = 1))"

lemma rollback_accounts:
  assumes "wired d" and "rollback d i res cause l v w = (w', res', err)"
    and "done_of w StepRefund = of_bool (rr_RefundProcessed res)" "done_of w StepAdjust = of_bool (rr_InventoryUpdated res)"
    and "done_of w StepChannel = 0" "\<not> rr_ChannelUpdated res" "done_of w StepLabel = of_bool l" "done_of w StepNotify \<le> 1"
    and "\<not> tried_of w StepReverse" "\<not> tried_of w StepCancelLabel" "v = rr_InventoryUpdated res"
  shows "accounts w' res' err"
  using rollback_effect [OF assms(1,2)] assms(3-) by (auto simp: accounts_def)

lemma happy_path_accounts:
  assumes d: "wired d" and run: "runHappyPath d i res w0 = (w', res', err)"
    and "rr_RefundProcessed res = False" "rr_InventoryUpdated res = False" "rr_ChannelUpdated res = False"
    and start: "\<And>s. is_effect s \<Longrightarrow> s \<noteq> StepEligibility \<Longrightarrow> done_of w0 s = 0 \<and> \<not> tried_of w0 s"
  shows "accounts w' res' err"
proof -
  note simps = runHappyPath_def Let_def
  obtain w1 r1 where s1: "executeActivity returns_attempts (generateReturnLabel d i) w0 = (w1, r1)" by force
  note t1 = label_ticks [OF d s1, unfolded ticks_def]
  show ?thesis
  proof (cases r1)
    case (Inl e)
    with run s1 have "rollback d i res e False False w1 = (w', res', err)" by (simp add: simps)
    from rollback_accounts [OF d this] show ?thesis using t1 Inl assms(3-5) start by simp
  next
    case l: (Inr label)
    obtain w2 r2 where s2: "executeActivity returns_attempts (notifyReturnCustomer d i label) w1 = (w2, r2)" by force
    note t2 = step_ticks(1) [OF d s2, unfolded ticks_def]
    obtain w3 r3 where s3: "executeActivity returns_attempts (processReturnRefund d i) w2 = (w3, r3)" by force
    note t3 = step_ticks(2) [OF d s3, unfolded ticks_def]
    obtain w4 r4 where s4: "executeActivity returns_attempts (adjustReturnInventory d i) w3 = (w4, r4)" by force
    note t4 = step_ticks(3) [OF d s4, unfolded ticks_def]
    obtain w5 r5 where s5: "executeActivity returns_attempts (updateReturnChannelStatus d i) w4 = (w5, r5)" by force
    note t5 = step_ticks(4) [OF d s5, unfolded ticks_def]
    let ?r1 = "res\<lparr>rr_TrackingNumber := rl_TrackingNumber label\<rparr>"
    let ?r2 = "?r1\<lparr>rr_RefundProcessed := True\<rparr>"
    let ?r3 = "?r2\<lparr>rr_InventoryUpdated := True\<rparr>"
    consider (notify) e where "r2 = Err e" | (refund) e u where "r2 = Ok u" "r3 = Err e"
      | (adjust) e u v where "r2 = Ok u" "r3 = Ok v" "r4 = Err e"
      | (channel) e u v x where "r2 = Ok u" "r3 = Ok v" "r4 = Ok x" "r5 = Err e"
      | (ok) u v x y where "r2 = Ok u" "r3 = Ok v" "r4 = Ok x" "r5 = Ok y" by (metis sumE)
    then show ?thesis
    proof cases
      case notify
      with run s1 l s2 have "rollback d i ?r1 e True False w2 = (w', res', err)" by (simp add: simps)
      from rollback_accounts [OF d this] show ?thesis using t1 t2 l notify assms(3-5) start by simp
    next
      case refund
      with run s1 l s2 s3 have "rollback d i ?r1 e True False w3 = (w', res', err)" by (simp add: simps)
      from rollback_accounts [OF d this] show ?thesis using t1 t2 t3 l refund assms(3-5) start by simp
    next
      case adjust
      with run s1 l s2 s3 s4 have "rollback d i ?r2 e True False w4 = (w', res', err)" by (simp add: simps)
      from rollback_accounts [OF d this] show ?thesis using t1 t2 t3 t4 l adjust assms(3-5) start by simp
    next
      case channel
      with run s1 l s2 s3 s4 s5 have "rollback d i ?r3 e True True w5 = (w', res', err)" by (simp add: simps)
      from rollback_accounts [OF d this] show ?thesis using t1 t2 t3 t4 t5 l channel assms(3-5) start by simp
    next
      case ok
      with run s1 l s2 s3 s4 s5 show ?thesis using t1 t2 t3 t4 t5 start by (auto simp: simps accounts_def)
    qed
  qed
qed

lemma rollback_only:
  assumes "runHappyPath d i res w = (w', res', err)"
  shows "err = None \<or> (\<exists>e. err = Some (ErrReturnSagaRolledBack e))"
  using assms by (auto simp: runHappyPath_def rollback_def Let_def split: prod.splits sum.splits)

lemma eligibility_quiet:
  assumes "executeActivity n (validateReturnEligibility d i) w = (w', r)" and "s \<noteq> StepEligibility"
  shows "done_of w' s = done_of w s" "tried_of w' s = tried_of w s"
proof -
  have q: "done_of (fst (validateReturnEligibility d i x)) s = done_of x s"
    "tried_of (fst (validateReturnEligibility d i x)) s = tried_of x s" for x
    using assms(2) by (auto simp: validateReturnEligibility_def optional_call_def port_call_def done_of_def tried_of_def
        split: option.split prod.split)
  let ?I = "\<lambda>x. done_of x s = done_of w s \<and> tried_of x s = tried_of w s"
  have "?I (fst (executeActivity n (validateReturnEligibility d i) w))"
    by (rule executeActivity_invariant [where I = ?I]) (simp_all add: q)
  then show "done_of w' s = done_of w s" "tried_of w' s = tried_of w s" using assms(1) by simp_all
qed

lemma eligible_valid:
  assumes "executeActivity n (validateReturnEligibility d i) w = (w', Ok u)"
  shows "validateReturnsInput i = None"
proof -
  obtain x where "validateReturnEligibility d i x = (w', Ok u)"
    using executeActivity_Ok [OF assms, of "\<lambda>_. True"] by blast
  then show ?thesis by (auto simp: validateReturnEligibility_def split: option.splits)
qed

definition untouched :: "'w return_world \<Rightarrow> bool" where
  "untouched w \<longleftrightarrow> (\<forall>s. is_effect s \<longrightarrow> s \<noteq> StepEligibility \<longrightarrow> done_of w s = 0 \<and> \<not> tried_of w s)"

lemma untouched_publish [simp]: "untouched (dropping (publishReturnsSagaState d p) w) = untouched w"
  by (simp add: untouched_def)

lemma approvalDecision_simp [simp]:
  "approvalDecision i threshold w = (w, ri_RefundCents i < threshold)"
proof -
  have "checkRefundApproval i threshold = (\<lambda>w. (w, Ok (ri_RefundCents i < threshold)))"
    by (simp add: checkRefundApproval_def fun_eq_iff not_le)
  then show ?thesis by (simp add: approvalDecision_def executeActivity_def returns_attempts_def numeral_eq_Suc checkRefundApproval_def not_le)
qed


text \<open>A return whose inventory cannot be adjusted: the customer keeps the refund, the label is cancelled.\<close>

definition sample_returns_deps :: "unit returns_deps" where
  "sample_returns_deps =
     \<lparr>rd_Eligibility = None, rd_LabelGen = Some (\<lambda>_ u. (u, Ok \<lparr>rl_Carrier = ''ap'', rl_TrackingNumber = ''T1'',
        rl_LabelPDFURL = [], rl_CostAUDCents = 800\<rparr>), \<lambda>_ u. (u, Ok ())),
      rd_Messaging = Some (\<lambda>_ _ u. (u, Ok ())), rd_Refunds = Some (\<lambda>_ u. (u, Ok ())),
      rd_Inventory = Some (\<lambda>_ u. (u, Err (ApplicationError ''db'')), \<lambda>_ u. (u, Ok ())),
      rd_ChannelStatus = Some (\<lambda>_ u. (u, Ok ())), rd_OperatorAlert = Some (\<lambda>_ _ u. (u, Ok ())), rd_Publisher = None\<rparr>"

definition sample_return :: returns_input where
  "sample_return =
     \<lparr>ri_TenantID = ''t1'', ri_RMAID = ''r1'', ri_OrderID = ''o1'', ri_Channel = ''woo'', ri_BuyerEmail = [],
      ri_Reason = ''broken'', ri_RefundCents = 4999, ri_ThresholdCents = 0\<rparr>"


end
