(* ===== verification/MembershipWorkflow.thy ===== *)
theory MembershipWorkflow
  imports Temporal Membership Go_Encoding
begin

text \<open>
  The membership lifecycle workflow (\<open>internal/workflow/membership_lifecycle.go\<close>) and the payment
  gateway it runs against (\<open>internal/adapter/stripe/payment_gateway.go\<close>, an in-process stand-in for
  Stripe). The events of a run are what the selectors of the workflow pick, one after the other; an
  empty list means that the workflow is waiting. After a cancellation of the whole workflow every
  activity is refused by the SDK.
\<close>

subsection \<open>Data\<close>

record lifecycle_input =
  li_TenantID :: string
  li_SubscriptionID :: uuid
  li_MemberID :: uuid
  li_MemberEmail :: string
  li_PlanID :: uuid
  li_PlanName :: string
  li_BillingCycle :: billing_cycle
  li_StripePriceID :: string
  li_TrialDays :: int

record notification_record =
  nr_State :: mstate
  nr_Transition :: mtransition
  nr_OccurredAt :: gotime

record billing_record =
  br_StripeID :: string
  br_OccurredAt :: gotime
  br_Kind :: string

record lifecycle_result =
  ml_TenantID :: string
  ml_SubscriptionID :: uuid
  ml_FinalState :: mstate
  ml_StripeID :: string
  ml_BillingEvents :: "billing_record list"
  ml_Notifications :: "notification_record list"

record charge_request =
  cq_TenantID :: string
  cq_SubscriptionID :: uuid
  cq_MemberID :: uuid
  cq_MemberEmail :: string
  cq_StripePriceID :: string
  cq_BillingCycle :: billing_cycle
  cq_TrialDays :: int
  cq_IsRenewal :: bool

record charge_response =
  cs_StripeID :: string
  cs_CustomerID :: string
  cs_PeriodEnd :: gotime

record notification_request =
  nq_Input :: lifecycle_input
  nq_State :: mstate
  nq_Transition :: mtransition
  nq_OccurredAt :: gotime

record billing_input =
  bi_TenantID :: string
  bi_SubscriptionID :: uuid
  bi_StripeID :: string
  bi_Kind :: string
  bi_OccurredAt :: gotime

datatype lifecycle_error = WorkflowError act_error | RenewalFailed act_error

record 'w member_env =
  me_now :: "'w \<Rightarrow> gotime"
  me_charge :: "charge_request \<Rightarrow> ('w, charge_response) activity"
  me_notify :: "notification_request \<Rightarrow> ('w, unit) activity"
  me_billing :: "billing_input \<Rightarrow> ('w, unit) activity"

type_synonym ('w, 'a) lifecycle_step = "'w \<times> lifecycle_result \<times> (act_error + 'a)"

subsection \<open>The steps\<close>

definition lifecycle_attempts :: nat where "lifecycle_attempts = 3"

text \<open>An activity under the options of the workflow; \<open>dead\<close> is a cancelled context.\<close>

definition lifecycle_activity :: "bool \<Rightarrow> ('w, 'a) activity \<Rightarrow> ('w, 'a) activity" where
  "lifecycle_activity dead act w =
     (if dead then (w, Err CanceledError) else executeActivity lifecycle_attempts act w)"

definition initialMembershipLifecycleState :: "lifecycle_input \<Rightarrow> lifecycle_result" where
  "initialMembershipLifecycleState i =
     \<lparr>ml_TenantID = li_TenantID i, ml_SubscriptionID = li_SubscriptionID i, ml_FinalState = StateTrial,
      ml_StripeID = [], ml_BillingEvents = [], ml_Notifications = []\<rparr>"

definition executeCharge :: "'w member_env \<Rightarrow> lifecycle_input \<Rightarrow> bool \<Rightarrow> ('w, charge_response) activity" where
  "executeCharge env i isRenewal =
     lifecycle_activity False (me_charge env
       \<lparr>cq_TenantID = li_TenantID i, cq_SubscriptionID = li_SubscriptionID i, cq_MemberID = li_MemberID i,
        cq_MemberEmail = li_MemberEmail i, cq_StripePriceID = li_StripePriceID i, cq_BillingCycle = li_BillingCycle i,
        cq_TrialDays = li_TrialDays i, cq_IsRenewal = isRenewal\<rparr>)"

definition executeNotification ::
  "'w member_env \<Rightarrow> lifecycle_input \<Rightarrow> bool \<Rightarrow> mstate \<Rightarrow> mtransition \<Rightarrow> ('w, unit) activity" where
  "executeNotification env i dead s t w =
     lifecycle_activity dead (me_notify env
       \<lparr>nq_Input = i, nq_State = s, nq_Transition = t, nq_OccurredAt = me_now env w\<rparr>) w"

definition executeBillingEvent :: "'w member_env \<Rightarrow> bool \<Rightarrow> billing_input \<Rightarrow> ('w, unit) activity" where
  "executeBillingEvent env dead evt = lifecycle_activity dead (me_billing env evt)"

text \<open>The state change of a notification, made before the activity runs.\<close>

definition noted :: "mstate \<Rightarrow> mtransition \<Rightarrow> gotime \<Rightarrow> lifecycle_result \<Rightarrow> lifecycle_result" where
  "noted s t now st = st\<lparr>ml_FinalState := s,
     ml_Notifications := ml_Notifications st @ [\<lparr>nr_State = s, nr_Transition = t, nr_OccurredAt = now\<rparr>]\<rparr>"

definition notifyMembershipState ::
  "'w member_env \<Rightarrow> lifecycle_input \<Rightarrow> mstate \<Rightarrow> mtransition \<Rightarrow> lifecycle_result \<Rightarrow> 'w \<Rightarrow> ('w, unit) lifecycle_step" where
  "notifyMembershipState env i s t st w =
     (case executeNotification env i False s t w of (w', r) \<Rightarrow> (w', noted s t (me_now env w) st, r))"

definition billing_input_of :: "lifecycle_input \<Rightarrow> string \<Rightarrow> string \<Rightarrow> gotime \<Rightarrow> billing_input" where
  "billing_input_of i sid kind at =
     \<lparr>bi_TenantID = li_TenantID i, bi_SubscriptionID = li_SubscriptionID i, bi_StripeID = sid, bi_Kind = kind,
      bi_OccurredAt = at\<rparr>"

definition recordMembershipBillingEvent ::
  "'w member_env \<Rightarrow> lifecycle_input \<Rightarrow> charge_response \<Rightarrow> string \<Rightarrow> lifecycle_result \<Rightarrow> 'w \<Rightarrow> ('w, unit) lifecycle_step" where
  "recordMembershipBillingEvent env i ch kind st w =
     (let evt = \<lparr>br_StripeID = cs_StripeID ch, br_OccurredAt = cs_PeriodEnd ch, br_Kind = kind\<rparr> in
      case executeBillingEvent env False (billing_input_of i (cs_StripeID ch) kind (cs_PeriodEnd ch)) w of
        (w', r) \<Rightarrow> (w', st\<lparr>ml_BillingEvents := ml_BillingEvents st @ [evt]\<rparr>, r))"

definition startMembershipLifecycle ::
  "'w member_env \<Rightarrow> lifecycle_input \<Rightarrow> lifecycle_result \<Rightarrow> 'w \<Rightarrow> ('w, charge_response) lifecycle_step" where
  "startMembershipLifecycle env i st w0 =
     (case executeCharge env i False w0 of
        (w, Err e) \<Rightarrow> (w, st, Err e)
      | (w, Ok ch) \<Rightarrow>
     (case recordMembershipBillingEvent env i ch ''initial'' (st\<lparr>ml_StripeID := cs_StripeID ch\<rparr>) w of
        (w, st, Err e) \<Rightarrow> (w, st, Err e)
      | (w, st, Ok _) \<Rightarrow>
     (case notifyMembershipState env i StateTrial TransitionActivate st w of
        (w, st, Err e) \<Rightarrow> (w, st, Err e)
      | (w, st, Ok _) \<Rightarrow> (w, st, Ok ch))))"

definition executeCancellation :: "'w member_env \<Rightarrow> lifecycle_input \<Rightarrow> bool \<Rightarrow> string \<Rightarrow> ('w, unit) activity" where
  "executeCancellation env i dead sid w0 =
     (case executeNotification env i dead StateCancelled TransitionCancel w0 of
        (w, Err e) \<Rightarrow> (w, Err e)
      | (w, Ok _) \<Rightarrow> executeBillingEvent env dead (billing_input_of i sid ''cancellation'' (me_now env w)) w)"

definition cancelMembership ::
  "'w member_env \<Rightarrow> lifecycle_input \<Rightarrow> bool \<Rightarrow> string \<Rightarrow> lifecycle_result \<Rightarrow> 'w \<Rightarrow> ('w, unit) lifecycle_step" where
  "cancelMembership env i dead sid st w =
     (case executeCancellation env i dead sid w of
        (w', r) \<Rightarrow> (w', noted StateCancelled TransitionCancel (me_now env w) st, r))"

definition expireMembership ::
  "'w member_env \<Rightarrow> lifecycle_input \<Rightarrow> act_error \<Rightarrow> lifecycle_result \<Rightarrow> 'w \<Rightarrow> 'w \<times> lifecycle_result \<times> lifecycle_error" where
  "expireMembership env i cause st w =
     (fst (executeNotification env i False StateExpired TransitionExpire w),
      noted StateExpired TransitionExpire (me_now env w) st, RenewalFailed cause)"

definition renewMembership ::
  "'w member_env \<Rightarrow> lifecycle_input \<Rightarrow> lifecycle_result \<Rightarrow> 'w \<Rightarrow> 'w \<times> lifecycle_result \<times> (lifecycle_error + charge_response)" where
  "renewMembership env i st w0 =
     (case executeCharge env i True w0 of
        (w, Err e) \<Rightarrow> (case expireMembership env i e st w of (w, st, e) \<Rightarrow> (w, st, Err e))
      | (w, Ok ch) \<Rightarrow>
     (case recordMembershipBillingEvent env i ch ''renewal'' st w of
        (w, st, Err e) \<Rightarrow> (w, st, Err (WorkflowError e))
      | (w, st, Ok _) \<Rightarrow>
     (case notifyMembershipState env i StateActive TransitionRenew st w of
        (w, st, Err e) \<Rightarrow> (w, st, Err (WorkflowError e))
      | (w, st, Ok _) \<Rightarrow> (w, st, Ok ch))))"

subsection \<open>The loop\<close>

datatype lifecycle_event = EvCancel | EvContextDone | EvPause | EvResume | EvTimer

text \<open>\<open>waitForLifecycleEvent\<close>: whether to go on, the transition, and the pause flag.\<close>

definition waitForLifecycleEvent :: "lifecycle_event \<Rightarrow> bool \<Rightarrow> bool \<times> mtransition option \<times> bool" where
  "waitForLifecycleEvent ev currentlyPaused =
     (case ev of
        EvCancel \<Rightarrow> (False, Some TransitionCancel, False)
      | EvContextDone \<Rightarrow> (False, Some TransitionCancel, False)
      | EvPause \<Rightarrow> (True, Some TransitionPause, True)
      | EvResume \<Rightarrow> if \<not> currentlyPaused then (True, None, False) else (True, Some TransitionResume, False)
      | EvTimer \<Rightarrow> (True, Some TransitionRenew, False))"

type_synonym 'w lifecycle_end = "'w \<times> lifecycle_result \<times> lifecycle_error option"

definition cancelled_end ::
  "'w member_env \<Rightarrow> lifecycle_input \<Rightarrow> bool \<Rightarrow> string \<Rightarrow> lifecycle_result \<Rightarrow> 'w \<Rightarrow> 'w lifecycle_end" where
  "cancelled_end env i dead sid st w =
     (case cancelMembership env i dead sid st w of
        (w, st, Err e) \<Rightarrow> (w, st, Some (WorkflowError e)) | (w, st, Ok _) \<Rightarrow> (w, st, None))"

text \<open>The loop; \<open>timers\<close> are the deadlines it has set its timer to.\<close>

fun runMembershipRenewalLoop ::
  "'w member_env \<Rightarrow> lifecycle_input \<Rightarrow> charge_response \<Rightarrow> lifecycle_event list \<Rightarrow> bool \<Rightarrow> gotime list \<Rightarrow>
   lifecycle_result \<Rightarrow> 'w \<Rightarrow> (gotime list \<times> 'w lifecycle_end) option" where
  "runMembershipRenewalLoop env i ch [] pauseRequested timers st w = None"
| "runMembershipRenewalLoop env i ch (ev # es) pauseRequested timers st w =
     (case waitForLifecycleEvent ev pauseRequested of (shouldContinue, transition, paused) \<Rightarrow>
      if \<not> shouldContinue then
        Some (timers, cancelled_end env i (ev = EvContextDone) (cs_StripeID ch) st w)
      else if paused then
        (case notifyMembershipState env i StatePaused TransitionPause st w of
           (w, st, Err e) \<Rightarrow> Some (timers, w, st, Some (WorkflowError e))
         | (w, st, Ok _) \<Rightarrow> runMembershipRenewalLoop env i ch es True (timers @ [last timers]) st w)
      else if transition = Some TransitionResume then
        (case notifyMembershipState env i StateActive TransitionResume st w of
           (w, st, Err e) \<Rightarrow> Some (timers, w, st, Some (WorkflowError e))
         | (w, st, Ok _) \<Rightarrow>
             runMembershipRenewalLoop env i ch es False (timers @ [me_now env w + cycle_duration (li_BillingCycle i)]) st w)
      else
        (case renewMembership env i st w of
           (w, st, Err e) \<Rightarrow> Some (timers, w, st, Some e)
         | (w, st, Ok renewal) \<Rightarrow>
             runMembershipRenewalLoop env i ch es pauseRequested (timers @ [cs_PeriodEnd renewal]) st w))"

text \<open>
  The trial: only a cancellation or the timer can end it; pause and resume signals stay in their
  channels until the loop reads them, so no selector of the trial picks one.
\<close>

definition waitForTrialCompletion ::
  "lifecycle_input \<Rightarrow> lifecycle_event list \<Rightarrow> ((lifecycle_event list + bool)) option" where
  "waitForTrialCompletion i es =
     (if li_TrialDays i \<le> 0 then Some (Inl es)
      else case es of
        EvTimer # es' \<Rightarrow> Some (Inl es')
      | EvCancel # _ \<Rightarrow> Some (Inr False)
      | EvContextDone # _ \<Rightarrow> Some (Inr True)
      | _ \<Rightarrow> None)"

definition membershipLifecycleWorkflow ::
  "'w member_env \<Rightarrow> lifecycle_input \<Rightarrow> lifecycle_event list \<Rightarrow> 'w \<Rightarrow> (gotime list \<times> 'w lifecycle_end) option" where
  "membershipLifecycleWorkflow env i es w0 =
     (case startMembershipLifecycle env i (initialMembershipLifecycleState i) w0 of
        (w, st, Err e) \<Rightarrow> Some ([], w, st, Some (WorkflowError e))
      | (w, st, Ok ch) \<Rightarrow>
     (case waitForTrialCompletion i es of
        None \<Rightarrow> None
      | Some (Inr dead) \<Rightarrow> Some ([], cancelled_end env i dead (cs_StripeID ch) st w)
      | Some (Inl es') \<Rightarrow>
     (case notifyMembershipState env i StateActive TransitionActivate st w of
        (w, st, Err e) \<Rightarrow> Some ([], w, st, Some (WorkflowError e))
      | (w, st, Ok _) \<Rightarrow>
          runMembershipRenewalLoop env i ch es' False [me_now env w + cycle_duration (li_BillingCycle i)] st w)))"

subsection \<open>The run follows the state machine\<close>

text \<open>The moves that the notifications of a run report, checked against the table of the domain.\<close>

fun mpath :: "mstate \<Rightarrow> notification_record list \<Rightarrow> mstate option" where
  "mpath s [] = Some s"
| "mpath s (n # ns) =
     (case nextMState s (nr_Transition n) of
        Err _ \<Rightarrow> None | Ok s' \<Rightarrow> if s' = nr_State n then mpath s' ns else None)"

lemma mpath_append: "mpath s (ns @ ms) = (case mpath s ns of None \<Rightarrow> None | Some s' \<Rightarrow> mpath s' ms)"
  by (induction s ns rule: mpath.induct) (auto split: sum.split)

text \<open>Event lists whose signals make sense: no pause while paused, no resume or renewal otherwise.\<close>

fun regular :: "bool \<Rightarrow> lifecycle_event list \<Rightarrow> bool" where
  "regular p [] = True"
| "regular p (EvPause # es) = (\<not> p \<and> regular True es)"
| "regular p (EvResume # es) = (p \<and> regular False es)"
| "regular p (EvTimer # es) = (\<not> p \<and> regular False es)"
| "regular p (EvCancel # es) = True"
| "regular p (EvContextDone # es) = True"

definition on_path :: "lifecycle_result \<Rightarrow> bool" where
  "on_path st \<longleftrightarrow> ml_Notifications st \<noteq> [] \<and> mpath StateTrial (tl (ml_Notifications st)) = Some (ml_FinalState st)"

lemma noted_on_path:
  "on_path st \<Longrightarrow> nextMState (ml_FinalState st) t = Ok s \<Longrightarrow> on_path (noted s t now st)"
  by (simp add: on_path_def noted_def mpath_append)

lemma moves [simp]:
  "nextMState StateTrial TransitionActivate = Ok StateActive" "nextMState StateTrial TransitionCancel = Ok StateCancelled"
  "nextMState StateActive TransitionPause = Ok StatePaused" "nextMState StateActive TransitionRenew = Ok StateActive"
  "nextMState StateActive TransitionCancel = Ok StateCancelled" "nextMState StateActive TransitionExpire = Ok StateExpired"
  "nextMState StatePaused TransitionResume = Ok StateActive" "nextMState StatePaused TransitionCancel = Ok StateCancelled"
  by (simp_all add: nextMState_def membership_table_def mget_def)

lemma noted_state [simp]: "ml_FinalState (noted s t now st) = s" "ml_BillingEvents (noted s t now st) = ml_BillingEvents st"
  "ml_StripeID (noted s t now st) = ml_StripeID st"
  by (simp_all add: noted_def)

lemma notify_path:
  assumes "notifyMembershipState env i s t st w = (w', st', r)" and "on_path st" and "nextMState (ml_FinalState st) t = Ok s"
  shows "on_path st'" "ml_FinalState st' = s"
  using assms noted_on_path by (auto simp: notifyMembershipState_def split: prod.splits)

lemma billing_path:
  "recordMembershipBillingEvent env i ch kind st w = (w', st', r) \<Longrightarrow> on_path st \<Longrightarrow>
     on_path st' \<and> ml_FinalState st' = ml_FinalState st"
  by (auto simp: recordMembershipBillingEvent_def on_path_def Let_def split: prod.splits)

lemma cancelled_path:
  assumes "cancelled_end env i dead sid st w = (w', st', e)" and "on_path st"
    and "nextMState (ml_FinalState st) TransitionCancel = Ok StateCancelled"
  shows "on_path st'" "ml_FinalState st' = StateCancelled"
  using assms noted_on_path
  by (auto simp: cancelled_end_def cancelMembership_def split: prod.splits sum.splits)

lemma renew_path:
  assumes "renewMembership env i st w = (w', st', r)" and "on_path st" and "ml_FinalState st = StateActive"
  shows "on_path st'" "is_ok r \<Longrightarrow> ml_FinalState st' = StateActive"
proof -
  show "on_path st'" using assms noted_on_path [OF assms(2), of TransitionExpire StateExpired]
    unfolding renewMembership_def
    by (auto simp: expireMembership_def split: prod.splits sum.splits dest!: billing_path notify_path(1))
  show "ml_FinalState st' = StateActive" if "is_ok r"
    using assms that unfolding renewMembership_def
    by (auto simp: expireMembership_def notifyMembershipState_def split: prod.splits sum.splits)
qed

lemma loop_path:
  assumes "runMembershipRenewalLoop env i ch es p ts st w = Some (ts', w', st', e)"
    and "regular p es" and "on_path st" and "ml_FinalState st = (if p then StatePaused else StateActive)"
  shows "on_path st'"
  using assms
proof (induction es arbitrary: p ts st w)
  case (Cons ev es)
  have cancel: ?case if ended: "\<exists>dead. cancelled_end env i dead (cs_StripeID ch) st w = (w', st', e)"
  proof -
    obtain dead where "cancelled_end env i dead (cs_StripeID ch) st w = (w', st', e)" using ended by blast
    from cancelled_path(1) [OF this Cons.prems(3)] show ?thesis using Cons.prems(4) by (cases p) simp_all
  qed
  show ?case
  proof (cases ev)
    case EvCancel
    then show ?thesis using Cons.prems(1) cancel by (auto simp: waitForLifecycleEvent_def)
  next
    case EvContextDone
    then show ?thesis using Cons.prems(1) cancel by (auto simp: waitForLifecycleEvent_def)
  next
    case EvPause
    obtain w1 st1 r where n: "notifyMembershipState env i StatePaused TransitionPause st w = (w1, st1, r)"
      by (metis prod_cases3)
    have p: "on_path st1" "ml_FinalState st1 = StatePaused"
      using notify_path [OF n Cons.prems(3)] Cons.prems(2,4) EvPause by simp_all
    then show ?thesis using Cons.prems(1,2) Cons.IH [of True _ st1 w1] n EvPause
      by (cases r) (auto simp: waitForLifecycleEvent_def)
  next
    case EvResume
    obtain w1 st1 r where n: "notifyMembershipState env i StateActive TransitionResume st w = (w1, st1, r)"
      by (metis prod_cases3)
    have p: "on_path st1" "ml_FinalState st1 = StateActive"
      using notify_path [OF n Cons.prems(3)] Cons.prems(2,4) EvResume by simp_all
    then show ?thesis using Cons.prems(1,2) Cons.IH [of False _ st1 w1] n EvResume
      by (cases r) (auto simp: waitForLifecycleEvent_def)
  next
    case EvTimer
    obtain w1 st1 r where n: "renewMembership env i st w = (w1, st1, r)" by (metis prod_cases3)
    have p: "on_path st1" "is_ok r \<Longrightarrow> ml_FinalState st1 = StateActive"
      using renew_path [OF n Cons.prems(3)] Cons.prems(2,4) EvTimer by simp_all
    then show ?thesis using Cons.prems(1,2) Cons.IH [of False _ st1 w1] n EvTimer
      by (cases r) (auto simp: waitForLifecycleEvent_def)
  qed
qed simp

lemma start_path:
  assumes "startMembershipLifecycle env i (initialMembershipLifecycleState i) w = (w', st, Ok ch)"
  shows "on_path st" "ml_FinalState st = StateTrial" "length (ml_Notifications st) = 1" "ml_StripeID st = cs_StripeID ch"
  using assms
  by (auto simp: startMembershipLifecycle_def recordMembershipBillingEvent_def notifyMembershipState_def
      initialMembershipLifecycleState_def noted_def on_path_def Let_def split: prod.splits sum.splits)

lemma start_failed:
  assumes "startMembershipLifecycle env i (initialMembershipLifecycleState i) w = (w', st, Err e)"
  shows "tl (ml_Notifications st) = [] \<and> ml_FinalState st = StateTrial"
  using assms
  by (auto simp: startMembershipLifecycle_def recordMembershipBillingEvent_def notifyMembershipState_def
      initialMembershipLifecycleState_def noted_def Let_def split: prod.splits sum.splits)


text \<open>A resume signal without a pause is a billing boundary. The comment in the code calls it a no-op;
  the loop takes the empty transition to its default branch and renews, which charges the member.\<close>

theorem resume_without_pause_renews:
  "runMembershipRenewalLoop env i ch (EvResume # es) False ts st w = runMembershipRenewalLoop env i ch (EvTimer # es) False ts st w"
  by (simp add: waitForLifecycleEvent_def)

subsection \<open>The worker and its payment gateway\<close>

record stub_status =
  ss_StripeID :: string
  ss_Status :: string
  ss_PeriodEnd :: gotime
  ss_CancelAtPeriodEnd :: bool

datatype gateway_error =
    ErrTenantRequired | ErrEmailRequired | ErrPriceRequired | ErrCycleRequired | ErrMissingStripeID | ErrStripeSubscriptionNotFound

fun gateway_error_text :: "gateway_error \<Rightarrow> string" where
  "gateway_error_text ErrTenantRequired = ''stripe stub: tenant id is required''"
| "gateway_error_text ErrEmailRequired = ''stripe stub: member email is required''"
| "gateway_error_text ErrPriceRequired = ''stripe stub: stripe price id is required''"
| "gateway_error_text ErrCycleRequired = ''stripe stub: billing cycle is required''"
| "gateway_error_text ErrMissingStripeID = ''stripe stub: stripe subscription id is required''"
| "gateway_error_text ErrStripeSubscriptionNotFound = ''stripe stub: stripe subscription not found''"

text \<open>SHA-256 and the text of a UUID are parameters.\<close>

record stub_config =
  sc_sha :: "string \<Rightarrow> string"
  sc_uuid_text :: "uuid \<Rightarrow> string"
  sc_prefix :: string

definition validateCreateRequest :: "charge_request \<Rightarrow> gateway_error option" where
  "validateCreateRequest q =
     (if trim_space (cq_TenantID q) = [] then Some ErrTenantRequired
      else if trim_space (cq_MemberEmail q) = [] then Some ErrEmailRequired
      else if trim_space (cq_StripePriceID q) = [] then Some ErrPriceRequired
      else if cq_BillingCycle q = [] then Some ErrCycleRequired
      else None)"

definition deterministicID :: "stub_config \<Rightarrow> string \<Rightarrow> string \<Rightarrow> string \<Rightarrow> string" where
  "deterministicID c tenant k kind =
     sc_prefix c @ hex_encode (take 8 (sc_sha c (tenant @ ''|'' @ k @ ''|'' @ kind)))"

definition createSubscription ::
  "stub_config \<Rightarrow> gotime \<Rightarrow> charge_request \<Rightarrow> (string, stub_status) gomap \<Rightarrow>
   gateway_error + (string, stub_status) gomap \<times> charge_response" where
  "createSubscription c now q cache =
     (case validateCreateRequest q of
        Some e \<Rightarrow> Err e
      | None \<Rightarrow>
          (let sid = deterministicID c (cq_TenantID q) (sc_uuid_text c (cq_SubscriptionID q)) ''sub'';
               cust = deterministicID c (cq_TenantID q) (cq_MemberEmail q) ''cus'';
               periodEnd = (if 0 < cq_TrialDays q then now + mul64 (mul64 (cq_TrialDays q) 24) time_hour
                            else now + cycle_duration (cq_BillingCycle q))
           in Ok (mput sid \<lparr>ss_StripeID = sid, ss_Status = ''active'', ss_PeriodEnd = periodEnd,
                            ss_CancelAtPeriodEnd = False\<rparr> cache,
                  \<lparr>cs_StripeID = sid, cs_CustomerID = cust, cs_PeriodEnd = periodEnd\<rparr>)))"

definition cancelSubscription :: "string \<Rightarrow> (string, stub_status) gomap \<Rightarrow> gateway_error + (string, stub_status) gomap" where
  "cancelSubscription sid cache =
     (if trim_space sid = [] then Err ErrMissingStripeID
      else case mget cache sid of
        None \<Rightarrow> Ok cache
      | Some st \<Rightarrow> Ok (mput sid (st\<lparr>ss_Status := ''canceled'', ss_CancelAtPeriodEnd := True\<rparr>) cache))"

definition getSubscription :: "string \<Rightarrow> (string, stub_status) gomap \<Rightarrow> gateway_error + stub_status" where
  "getSubscription sid cache =
     (if trim_space sid = [] then Err ErrMissingStripeID
      else case mget cache sid of None \<Rightarrow> Err ErrStripeSubscriptionNotFound | Some st \<Rightarrow> Ok st)"

text \<open>The world of the worker: the gateway, the number of subscriptions it was asked to create with
  success, and whatever the notifier, the ledger and the clock depend on.\<close>

record 'o member_world =
  mw_cache :: "(string, stub_status) gomap"
  mw_created :: nat
  mw_outer :: 'o

record 'o member_worker =
  mk_gateway :: "stub_config option"
  mk_clock :: "'o \<Rightarrow> gotime"
  mk_notifier :: "(notification_request \<Rightarrow> 'o \<Rightarrow> 'o \<times> (act_error + unit)) option"
  mk_ledger :: "(billing_input \<Rightarrow> 'o \<Rightarrow> 'o \<times> (act_error + unit)) option"

definition chargeStripe :: "'o member_worker \<Rightarrow> charge_request \<Rightarrow> ('o member_world, charge_response) activity" where
  "chargeStripe k q w =
     (case mk_gateway k of
        None \<Rightarrow> (w, Err (ApplicationError ''membership payment gateway is not configured''))
      | Some c \<Rightarrow>
          (let trialDays = (if cq_IsRenewal q then 0 else cq_TrialDays q) in
           case createSubscription c (mk_clock k (mw_outer w)) (q\<lparr>cq_TrialDays := trialDays\<rparr>) (mw_cache w) of
             Err e \<Rightarrow> (w, Err (ApplicationError (gateway_error_text e)))
           | Ok (cache, r) \<Rightarrow> (w\<lparr>mw_cache := cache, mw_created := mw_created w + 1\<rparr>, Ok r)))"

definition outer_port ::
  "('q \<Rightarrow> 'o \<Rightarrow> 'o \<times> (act_error + unit)) option \<Rightarrow> 'q \<Rightarrow> ('o member_world, unit) activity" where
  "outer_port p q w =
     (case p of None \<Rightarrow> (w, Ok ()) | Some f \<Rightarrow> (case f q (mw_outer w) of (u, r) \<Rightarrow> (w\<lparr>mw_outer := u\<rparr>, r)))"

definition sendNotification where "sendNotification k = outer_port (mk_notifier k)"
definition recordBillingEvent where "recordBillingEvent k = outer_port (mk_ledger k)"

definition member_worker_env :: "'o member_worker \<Rightarrow> 'o member_world member_env" where
  "member_worker_env k =
     \<lparr>me_now = (\<lambda>w. mk_clock k (mw_outer w)), me_charge = chargeStripe k,
      me_notify = sendNotification k, me_billing = recordBillingEvent k\<rparr>"

subsection \<open>Charges and the gateway\<close>

definition gateway_active :: "string \<Rightarrow> 'o member_world \<Rightarrow> bool" where
  "gateway_active sid w \<longleftrightarrow> (\<exists>s. mget (mw_cache w) sid = Some s \<and> ss_Status s = ''active'')"

text \<open>An attempt to charge changes nothing, or creates one active subscription.\<close>

definition charged :: "'o member_world \<Rightarrow> 'o member_world \<Rightarrow> act_error + charge_response \<Rightarrow> bool" where
  "charged w w' r \<longleftrightarrow>
     (case r of
        Err e \<Rightarrow> mw_created w' = mw_created w \<and> mw_cache w' = mw_cache w
      | Ok ch \<Rightarrow> mw_created w' = Suc (mw_created w) \<and> gateway_active (cs_StripeID ch) w'
            \<and> (\<forall>sid. gateway_active sid w \<longrightarrow> gateway_active sid w'))"

lemma chargeStripe_charged: "chargeStripe k q w = (w', r) \<Longrightarrow> charged w w' r"
  by (auto simp: chargeStripe_def createSubscription_def charged_def gateway_active_def Let_def
      split: option.splits sum.splits if_splits)

lemma retrying_charged: "retrying n (chargeStripe k q) w = (w', r) \<Longrightarrow> charged w w' r"
proof (induction n arbitrary: w)
  case 0
  then show ?case by (simp add: chargeStripe_charged)
next
  case (Suc n)
  obtain x p where act: "chargeStripe k q w = (x, p)" by force
  note c = chargeStripe_charged [OF act]
  show ?case
  proof (cases p)
    case (Inl e)
    then show ?thesis using Suc act c by (fastforce simp: charged_def gateway_active_def split: if_splits sum.splits)
  next
    case (Inr ch)
    then show ?thesis using Suc.prems act c by simp
  qed
qed

lemma charge_step: "executeCharge (member_worker_env k) i b w = (w', r) \<Longrightarrow> charged w w' r"
  unfolding executeCharge_def lifecycle_activity_def executeActivity_def member_worker_env_def
  by (simp add: retrying_charged)

text \<open>The other activities leave the gateway alone.\<close>

lemma quiet_step:
  assumes "\<And>x. act x = outer_port p q x" and "lifecycle_activity dead act w = (w', r)"
  shows "mw_created w' = mw_created w \<and> mw_cache w' = mw_cache w"
proof -
  have q: "mw_created (fst (act x)) = mw_created x \<and> mw_cache (fst (act x)) = mw_cache x" for x
    by (simp add: assms(1) outer_port_def split: option.split prod.split)
  let ?I = "\<lambda>x. mw_created x = mw_created w \<and> mw_cache x = mw_cache w"
  have "?I (fst (executeActivity lifecycle_attempts act w))"
    by (rule executeActivity_invariant [where I = ?I]) (simp_all add: q)
  then show ?thesis using assms(2) by (auto simp: lifecycle_activity_def split: if_splits)
qed

lemma notification_step:
  "executeNotification (member_worker_env k) i dead s t w = (w', r) \<Longrightarrow> mw_created w' = mw_created w \<and> mw_cache w' = mw_cache w"
  unfolding executeNotification_def by (erule quiet_step [rotated]) (simp add: member_worker_env_def sendNotification_def)

lemma billing_step:
  "executeBillingEvent (member_worker_env k) dead evt w = (w', r) \<Longrightarrow> mw_created w' = mw_created w \<and> mw_cache w' = mw_cache w"
  unfolding executeBillingEvent_def by (erule quiet_step [rotated]) (simp add: member_worker_env_def recordBillingEvent_def)

text \<open>As many charges as billing events, and the subscription of the run active at the gateway.\<close>

definition books :: "nat \<Rightarrow> 'o member_world \<Rightarrow> lifecycle_result \<Rightarrow> bool" where
  "books n w st \<longleftrightarrow> mw_created w = n + length (ml_BillingEvents st) \<and> gateway_active (ml_StripeID st) w"

lemma books_notify:
  "notifyMembershipState (member_worker_env k) i s t st w = (w', st', r) \<Longrightarrow> books n w st \<Longrightarrow> books n w' st'"
  by (auto simp: notifyMembershipState_def books_def gateway_active_def split: prod.splits dest!: notification_step)

lemma books_cancelled:
  "cancelled_end (member_worker_env k) i dead sid st w = (w', st', e) \<Longrightarrow> books n w st \<Longrightarrow> books n w' st'"
  by (auto simp: cancelled_end_def cancelMembership_def executeCancellation_def books_def gateway_active_def
      split: prod.splits sum.splits dest!: notification_step billing_step)

lemma books_billed:
  assumes "recordMembershipBillingEvent (member_worker_env k) i ch kind st w = (w', st', r)"
    and "mw_created w = Suc (n + length (ml_BillingEvents st))" and "gateway_active (ml_StripeID st) w"
  shows "books n w' st'"
  using assms
  by (auto simp: recordMembershipBillingEvent_def books_def gateway_active_def Let_def split: prod.splits dest!: billing_step)

lemma books_renew:
  assumes "renewMembership (member_worker_env k) i st w = (w', st', r)" and "books n w st"
  shows "books n w' st'"
proof -
  obtain w1 p where c: "executeCharge (member_worker_env k) i True w = (w1, p)" by force
  note ch = charge_step [OF c]
  show ?thesis
  proof (cases p)
    case (Inl e)
    obtain w2 q where n: "executeNotification (member_worker_env k) i False StateExpired TransitionExpire w1 = (w2, q)" by force
    show ?thesis using assms c Inl ch n notification_step [OF n]
      by (auto simp: renewMembership_def expireMembership_def books_def charged_def gateway_active_def)
  next
    case (Inr r')
    obtain w2 st2 q where b: "recordMembershipBillingEvent (member_worker_env k) i r' ''renewal'' st w1 = (w2, st2, q)"
      by (metis prod_cases3)
    have "books n w2 st2" using books_billed [OF b] ch assms(2) Inr by (simp add: books_def charged_def)
    then show ?thesis using assms(1) c Inr b books_notify
      by (auto simp: renewMembership_def split: sum.splits prod.splits)
  qed
qed

lemma books_loop:
  "runMembershipRenewalLoop (member_worker_env k) i ch es p ts st w = Some (ts', w', st', e) \<Longrightarrow> books n w st \<Longrightarrow> books n w' st'"
proof (induction es arbitrary: p ts st w)
  case (Cons ev es)
  obtain go tr pz where v: "waitForLifecycleEvent ev p = (go, tr, pz)" by (metis prod_cases3)
  obtain w1 st1 r1 where n1: "notifyMembershipState (member_worker_env k) i StatePaused TransitionPause st w = (w1, st1, r1)"
    by (metis prod_cases3)
  obtain w2 st2 r2 where n2: "notifyMembershipState (member_worker_env k) i StateActive TransitionResume st w = (w2, st2, r2)"
    by (metis prod_cases3)
  obtain w3 st3 r3 where n3: "renewMembership (member_worker_env k) i st w = (w3, st3, r3)" by (metis prod_cases3)
  note b = books_notify [OF n1 Cons.prems(2)] books_notify [OF n2 Cons.prems(2)] books_renew [OF n3 Cons.prems(2)]
  show ?case
  proof (cases "go")
    case False
    then show ?thesis using Cons.prems v books_cancelled by auto
  next
    case go: True
    consider "pz" | "\<not> pz" "tr = Some TransitionResume" | "\<not> pz" "tr \<noteq> Some TransitionResume" by blast
    then show ?thesis
      using Cons.prems(1) Cons.IH b v go n1 n2 n3 by cases (cases r1; cases r2; cases r3; fastforce)+
  qed
qed simp

lemma books_start:
  assumes "startMembershipLifecycle (member_worker_env k) i (initialMembershipLifecycleState i) w = (w', st, r)"
  shows "mw_created w' = mw_created w + length (ml_BillingEvents st) \<and> (is_ok r \<longrightarrow> books (mw_created w) w' st)"
proof -
  let ?st = "initialMembershipLifecycleState i"
  have e: "ml_BillingEvents ?st = []" by (simp add: initialMembershipLifecycleState_def)
  obtain w1 p where c: "executeCharge (member_worker_env k) i False w = (w1, p)" by force
  note ch = charge_step [OF c]
  show ?thesis
  proof (cases p)
    case (Inl x)
    then show ?thesis using assms c ch e by (auto simp: startMembershipLifecycle_def charged_def)
  next
    case (Inr q)
    obtain w2 st2 s where b: "recordMembershipBillingEvent (member_worker_env k) i q ''initial''
        (?st\<lparr>ml_StripeID := cs_StripeID q\<rparr>) w1 = (w2, st2, s)" by (metis prod_cases3)
    have bk: "books (mw_created w) w2 st2" using books_billed [OF b] ch e Inr by (simp add: charged_def)
    obtain w3 st3 u where n: "notifyMembershipState (member_worker_env k) i StateTrial TransitionActivate st2 w2 = (w3, st3, u)"
      by (metis prod_cases3)
    note bn = books_notify [OF n bk]
    show ?thesis using assms c Inr b n bk bn
      by (cases s; cases u) (auto simp: startMembershipLifecycle_def books_def)
  qed
qed

lemma books_run:
  assumes "membershipLifecycleWorkflow (member_worker_env k) i es w = Some (ts, w', st, e)"
  shows "mw_created w' = mw_created w + length (ml_BillingEvents st) \<and> (ml_FinalState st = StateTrial \<or> books (mw_created w) w' st)"
proof -
  obtain w1 st1 r where s: "startMembershipLifecycle (member_worker_env k) i (initialMembershipLifecycleState i) w = (w1, st1, r)"
    by (metis prod_cases3)
  show ?thesis
  proof (cases r)
    case (Inl x)
    then show ?thesis using assms s books_start [OF s] start_failed [of "member_worker_env k" i w w1 st1 x]
      by (auto simp: membershipLifecycleWorkflow_def)
  next
    case (Inr ch)
    then have b: "books (mw_created w) w1 st1" using books_start [OF s] by simp
    obtain w2 st2 q where n: "notifyMembershipState (member_worker_env k) i StateActive TransitionActivate st1 w1 = (w2, st2, q)"
      by (metis prod_cases3)
    note bn = books_notify [OF n b]
    have "books (mw_created w) w' st"
      using assms s Inr n b bn books_cancelled books_loop
      by (cases q) (fastforce simp: membershipLifecycleWorkflow_def split: option.splits sum.splits)+
    then show ?thesis by (simp add: books_def)
  qed
qed


definition sample_member_worker :: "unit member_worker" where
  "sample_member_worker =
     \<lparr>mk_gateway = Some \<lparr>sc_sha = take 8, sc_uuid_text = (\<lambda>_. ''u''), sc_prefix = ''sub_dev_''\<rparr>, mk_clock = (\<lambda>_. 1000),
      mk_notifier = None, mk_ledger = None\<rparr>"

definition sample_lifecycle :: lifecycle_input where
  "sample_lifecycle =
     \<lparr>li_TenantID = ''t1'', li_SubscriptionID = 1, li_MemberID = 2, li_MemberEmail = ''a@b.c'', li_PlanID = 3,
      li_PlanName = ''Gold'', li_BillingCycle = ''monthly'', li_StripePriceID = ''price_1'', li_TrialDays = 0\<rparr>"

definition member_start :: "unit member_world" where
  "member_start = \<lparr>mw_cache = [], mw_created = 0, mw_outer = ()\<rparr>"

lemma sample_cancelled:
  "\<exists>ts w' st. membershipLifecycleWorkflow (member_worker_env sample_member_worker) sample_lifecycle
       [EvTimer, EvPause, EvResume, EvCancel] member_start = Some (ts, w', st, None)
     \<and> ml_FinalState st = StateCancelled \<and> length (ml_BillingEvents st) = 2 \<and> length (ml_Notifications st) = 6"
proof -
  have "(case membershipLifecycleWorkflow (member_worker_env sample_member_worker) sample_lifecycle
       [EvTimer, EvPause, EvResume, EvCancel] member_start of
       Some (ts, w', st, e) \<Rightarrow> e = None \<and> ml_FinalState st = StateCancelled \<and> length (ml_BillingEvents st) = 2
         \<and> length (ml_Notifications st) = 6
     | None \<Rightarrow> False)" by code_simp
  then show ?thesis by (auto split: option.splits)
qed



text \<open>C26: A cancelled membership stays active at the gateway. The workflow announces a cancellation and
  records a billing event for it, but never calls the gateway's cancellation: for every run that
  ends as cancelled the gateway still has its subscription, with status active.\<close>

theorem cancelled_membership_stays_active:
  assumes "membershipLifecycleWorkflow (member_worker_env k) i es w = Some (ts, w', st, e)"
    and "ml_FinalState st = StateCancelled"
  shows "\<exists>s. mget (mw_cache w') (ml_StripeID st) = Some s \<and> ss_Status s = ''active''"
  using books_run [OF assms(1)] assms(2) by (auto simp: books_def gateway_active_def)

theorem cancelled_membership_stays_active_witness:
  "\<exists>ts w' st e s. membershipLifecycleWorkflow (member_worker_env sample_member_worker) sample_lifecycle
       [EvTimer, EvPause, EvResume, EvCancel] member_start = Some (ts, w', st, e)
     \<and> ml_FinalState st = StateCancelled \<and> mget (mw_cache w') (ml_StripeID st) = Some s \<and> ss_Status s = ''active''"
proof -
  obtain ts w' st where run: "membershipLifecycleWorkflow (member_worker_env sample_member_worker) sample_lifecycle
       [EvTimer, EvPause, EvResume, EvCancel] member_start = Some (ts, w', st, None)"
    "ml_FinalState st = StateCancelled" using sample_cancelled by blast
  from cancelled_membership_stays_active [OF run] run show ?thesis by blast
qed

text \<open>A billing boundary during a pause charges the member. The loop keeps its timer running while
  the membership is paused; when it fires, the member is charged and announced as active by a
  renewal, which is no move of the state machine from paused.\<close>

theorem paused_member_is_charged:
  "\<exists>ts w' st. membershipLifecycleWorkflow (member_worker_env sample_member_worker) sample_lifecycle
       [EvPause, EvTimer, EvCancel] member_start = Some (ts, w', st, None)
     \<and> map nr_State (ml_Notifications st) = [StateTrial, StateActive, StatePaused, StateActive, StateCancelled]
     \<and> mw_created w' = 2 \<and> mpath StateTrial (tl (ml_Notifications st)) = None"
proof -
  have "(case membershipLifecycleWorkflow (member_worker_env sample_member_worker) sample_lifecycle
       [EvPause, EvTimer, EvCancel] member_start of
       Some (ts, w', st, e) \<Rightarrow> e = None
         \<and> map nr_State (ml_Notifications st) = [StateTrial, StateActive, StatePaused, StateActive, StateCancelled]
         \<and> mw_created w' = 2 \<and> mpath StateTrial (tl (ml_Notifications st)) = None
     | None \<Rightarrow> False)" by code_simp
  then show ?thesis by (auto split: option.splits)
qed

end
