(* ===== verification/InventorySync.thy ===== *)
theory InventorySync
  imports Go_Prelude
begin

text \<open>
  Idempotency stores (\<open>internal/sync\<close>, \<open>internal/webhook\<close>, \<open>internal/adapter/postgres\<close>) and the
  inventory synchronisation between WooCommerce and TikTok Shop (\<open>internal/sync/tiktok_inventory.go\<close>).
  The stock adjusters are parameters on an outer world. The metrics are kept as a log.
\<close>

subsection \<open>Idempotency stores\<close>

text \<open>The contract: a reservation tells whether the key is new and records it; a failed one may have recorded
  it or not; a release removes the key.\<close>

record 's idem_store =
  id_reserve :: "string \<Rightarrow> 's \<Rightarrow> 's \<times> (string + bool)"
  id_release :: "string \<Rightarrow> 's \<Rightarrow> 's"

locale idempotency =
  fixes st :: "'s idem_store" and seen :: "'s \<Rightarrow> string set"
  assumes reserve_Ok: "id_reserve st k s = (s', Ok b) \<Longrightarrow> b = (k \<notin> seen s) \<and> seen s' = insert k (seen s)"
    and reserve_Err: "id_reserve st k s = (s', Err e) \<Longrightarrow> seen s \<subseteq> seen s' \<and> seen s' \<subseteq> insert k (seen s)"
    and release: "seen (id_release st k s) = seen s - {k}"
begin

text \<open>Reservations in a row, with their answers.\<close>

fun reserve_all :: "string list \<Rightarrow> 's \<Rightarrow> 's \<times> (string \<times> (string + bool)) list" where
  "reserve_all [] s = (s, [])"
| "reserve_all (k # ks) s =
     (case id_reserve st k s of (s', r) \<Rightarrow> case reserve_all ks s' of (s'', rs) \<Rightarrow> (s'', (k, r) # rs))"

lemma reserve_all_seen:
  "reserve_all ks s = (s', rs) \<Longrightarrow> seen s \<subseteq> seen s' \<and> (\<forall>k. (k, Ok True) \<in> set rs \<longrightarrow> k \<notin> seen s \<and> k \<in> seen s')"
proof (induction ks arbitrary: s s' rs)
  case (Cons k ks)
  obtain s1 r where one: "id_reserve st k s = (s1, r)" by force
  obtain s2 rs' where more: "reserve_all ks s1 = (s2, rs')" by force
  have s1: "seen s \<subseteq> seen s1" using one reserve_Ok reserve_Err by (cases r) blast+
  have r: "r = Ok True \<Longrightarrow> k \<notin> seen s \<and> k \<in> seen s1" using one reserve_Ok by blast
  have eq: "s' = s2" "rs = (k, r) # rs'" using Cons.prems one more by auto
  show ?case using Cons.IH [OF more] s1 r unfolding eq by (auto dest: subsetD)
qed simp

text \<open>No key is granted twice.\<close>

lemma granted_distinct:
  "reserve_all ks s = (s', rs) \<Longrightarrow> distinct (map fst (filter (\<lambda>x. snd x = Ok True) rs))"
proof (induction ks arbitrary: s s' rs)
  case (Cons k ks)
  obtain s1 r where one: "id_reserve st k s = (s1, r)" by force
  obtain s2 rs' where more: "reserve_all ks s1 = (s2, rs')" by force
  have "r = Ok True \<Longrightarrow> k \<in> seen s1" using one reserve_Ok by blast
  then show ?case using Cons more one reserve_all_seen [OF more] by auto
qed simp

end

text \<open>\<open>MemoryIdempotencyStore\<close> of \<open>internal/sync\<close>.\<close>

type_synonym seen_map = "(string, unit) gomap"

definition memory_reserve :: "string \<Rightarrow> seen_map \<Rightarrow> seen_map \<times> (string + bool)" where
  "memory_reserve k s =
     (if k = [] then (s, Err ''inventory_sync: unconfigured: empty key'')
      else case mget s k of Some _ \<Rightarrow> (s, Ok False) | None \<Rightarrow> (mput k () s, Ok True))"

definition memory_release :: "string \<Rightarrow> seen_map \<Rightarrow> seen_map" where
  "memory_release k s = mdel k s"

definition memory_store :: "seen_map idem_store" where
  "memory_store = \<lparr>id_reserve = memory_reserve, id_release = memory_release\<rparr>"

text \<open>\<open>MemoryIdempotencyStore\<close> of \<open>internal/webhook\<close> and the Postgres store, which have no release.\<close>

definition webhook_reserve :: "string \<Rightarrow> string \<Rightarrow> seen_map \<Rightarrow> seen_map \<times> (string + bool)" where
  "webhook_reserve tenantID k s =
     (if tenantID = [] \<or> k = [] then (s, Err ''webhook payload invalid'')
      else let composite = tenantID @ CHR 0x00 # k in
        case mget s composite of Some _ \<Rightarrow> (s, Ok False) | None \<Rightarrow> (mput composite () s, Ok True))"

definition pg_reserve ::
  "string \<Rightarrow> string \<Rightarrow> (string \<times> string, unit) gomap \<Rightarrow> (string \<times> string, unit) gomap \<times> (string + bool)" where
  "pg_reserve tenantID k s =
     (if tenantID = [] \<or> k = [] then (s, Err ''webhook payload invalid'')
      else case mget s (tenantID, k) of Some _ \<Rightarrow> (s, Ok False) | None \<Rightarrow> (mput (tenantID, k) () s, Ok True))"

interpretation mis: idempotency memory_store "\<lambda>s. {k. mget s k \<noteq> None}"
  by unfold_locales
     (auto simp: memory_store_def memory_reserve_def memory_release_def split: if_splits option.splits)

subsection \<open>The synchronisation\<close>

datatype sync_direction = WCToTikTok | TikTokToWC

record stock_request =
  sq_TenantID :: string
  sq_SKU :: string
  sq_ProductID :: string
  sq_WarehouseID :: string
  sq_Delta :: int
  sq_OrderID :: string
  sq_IdempotencyKey :: string

datatype sync_error =
    ErrUnconfigured string | ErrInventorySyncClosed | ErrInventorySyncDuplicate | ErrReserve string
  | ErrSourceAdjust string | ErrTargetFailed string | ErrRollbackFailed string string

type_synonym 'w adjuster = "stock_request \<Rightarrow> 'w \<Rightarrow> 'w \<times> (string + unit)"

record ('s, 'w) sync_config =
  sn_WC :: "'w adjuster"
  sn_TikTok :: "'w adjuster"
  sn_Idempotency :: "'s idem_store"

record ('s, 'w) sync_world =
  sw_closed :: bool
  sw_store :: 's
  sw_outer :: 'w
  sw_metrics :: "(string \<times> sync_direction \<times> string) list"

definition validateApplyRequest :: "stock_request \<Rightarrow> sync_error option" where
  "validateApplyRequest q =
     (if trim_space (sq_TenantID q) = [] then Some (ErrUnconfigured ''TenantID required'')
      else if trim_space (sq_OrderID q) = [] then Some (ErrUnconfigured ''OrderID required'')
      else if trim_space (sq_SKU q) = [] then Some (ErrUnconfigured ''SKU required'')
      else if sq_Delta q = 0 then Some (ErrUnconfigured ''Delta cannot be zero'')
      else None)"

fun direction_string :: "sync_direction \<Rightarrow> string" where
  "direction_string WCToTikTok = ''wc_to_tiktok''"
| "direction_string TikTokToWC = ''tiktok_to_wc''"

definition buildIdempotencyKey :: "sync_direction \<Rightarrow> stock_request \<Rightarrow> string" where
  "buildIdempotencyKey dir q =
     (if sq_IdempotencyKey q \<noteq> []
      then direction_string dir @ CHR 0x00 # sq_TenantID q @ CHR 0x00 # sq_IdempotencyKey q
      else direction_string dir @ CHR 0x00 # sq_TenantID q @ CHR 0x00 # sq_OrderID q @ CHR 0x00 # sq_SKU q)"

definition splitRequest :: "sync_direction \<Rightarrow> stock_request \<Rightarrow> stock_request \<times> stock_request" where
  "splitRequest dir q = (q, q)"

definition recordMetric :: "string \<Rightarrow> sync_direction \<Rightarrow> string \<Rightarrow> ('s, 'w) sync_world \<Rightarrow> ('s, 'w) sync_world" where
  "recordMetric tenant dir status w = w\<lparr>sw_metrics := sw_metrics w @ [(tenant, dir, status)]\<rparr>"

definition release_key :: "('s, 'w) sync_config \<Rightarrow> string \<Rightarrow> ('s, 'w) sync_world \<Rightarrow> ('s, 'w) sync_world" where
  "release_key c k w = w\<lparr>sw_store := id_release (sn_Idempotency c) k (sw_store w)\<rparr>"

definition adjust :: "'w adjuster \<Rightarrow> stock_request \<Rightarrow> ('s, 'w) sync_world \<Rightarrow> ('s, 'w) sync_world \<times> (string + unit)" where
  "adjust a q w = (case a q (sw_outer w) of (u, r) \<Rightarrow> (w\<lparr>sw_outer := u\<rparr>, r))"

definition applySource ::
  "('s, 'w) sync_config \<Rightarrow> string \<Rightarrow> 'w adjuster \<Rightarrow> stock_request \<Rightarrow> sync_direction \<Rightarrow> ('s, 'w) sync_world \<Rightarrow>
   ('s, 'w) sync_world \<times> (sync_error + unit)" where
  "applySource c k source q dir w =
     (if dir = TikTokToWC then (w, Ok ())
      else case adjust source q w of
        (w, Ok _) \<Rightarrow> (w, Ok ())
      | (w, Err e) \<Rightarrow> (recordMetric (sq_TenantID q) dir ''source_failed'' (release_key c k w), Err (ErrSourceAdjust e)))"

text \<open>The release is deferred: it happens on every path of the compensation.\<close>

definition runCompensation ::
  "('s, 'w) sync_config \<Rightarrow> string \<Rightarrow> 'w adjuster \<Rightarrow> stock_request \<Rightarrow> sync_direction \<Rightarrow> string \<Rightarrow> ('s, 'w) sync_world \<Rightarrow>
   ('s, 'w) sync_world \<times> (sync_error + unit)" where
  "runCompensation c k source q dir targetErr w =
     (if dir = TikTokToWC then (release_key c k w, Err (ErrTargetFailed targetErr))
      else case adjust source (q\<lparr>sq_Delta := wrap64 (- sq_Delta q)\<rparr>) w of
        (w, Err compErr) \<Rightarrow>
          (release_key c k (recordMetric (sq_TenantID q) dir ''rollback_failed'' w), Err (ErrRollbackFailed targetErr compErr))
      | (w, Ok _) \<Rightarrow>
          (release_key c k (recordMetric (sq_TenantID q) dir ''rolled_back'' w), Err (ErrTargetFailed targetErr)))"

definition applyTarget ::
  "('s, 'w) sync_config \<Rightarrow> string \<Rightarrow> 'w adjuster \<Rightarrow> 'w adjuster \<Rightarrow> stock_request \<Rightarrow> stock_request \<Rightarrow> sync_direction \<Rightarrow>
   ('s, 'w) sync_world \<Rightarrow> ('s, 'w) sync_world \<times> (sync_error + unit)" where
  "applyTarget c k source target sourceReq targetReq dir w =
     (case adjust target targetReq w of
        (w, Ok _) \<Rightarrow> (w, Ok ())
      | (w, Err e) \<Rightarrow>
          runCompensation c k source sourceReq dir e (recordMetric (sq_TenantID targetReq) dir ''target_failed'' w))"

definition runApply ::
  "('s, 'w) sync_config \<Rightarrow> sync_direction \<Rightarrow> 'w adjuster \<Rightarrow> 'w adjuster \<Rightarrow> stock_request \<Rightarrow> ('s, 'w) sync_world \<Rightarrow>
   ('s, 'w) sync_world \<times> (sync_error + unit)" where
  "runApply c dir source target q w =
     (if sw_closed w then (w, Err ErrInventorySyncClosed)
      else case validateApplyRequest q of
        Some e \<Rightarrow> (recordMetric (sq_TenantID q) dir ''invalid_request'' w, Err e)
      | None \<Rightarrow>
     (let k = buildIdempotencyKey dir q in
      case id_reserve (sn_Idempotency c) k (sw_store w) of
        (s, Err e) \<Rightarrow> (recordMetric (sq_TenantID q) dir ''idempotency_error'' (w\<lparr>sw_store := s\<rparr>), Err (ErrReserve e))
      | (s, Ok False) \<Rightarrow> (recordMetric (sq_TenantID q) dir ''duplicate'' (w\<lparr>sw_store := s\<rparr>), Err ErrInventorySyncDuplicate)
      | (s, Ok True) \<Rightarrow>
     (let (sourceReq, targetReq) = splitRequest dir q in
      case applySource c k source sourceReq dir (w\<lparr>sw_store := s\<rparr>) of
        (w, Err e) \<Rightarrow> (w, Err e)
      | (w, Ok _) \<Rightarrow>
     (case applyTarget c k source target sourceReq targetReq dir w of
        (w, Err e) \<Rightarrow> (w, Err e)
      | (w, Ok _) \<Rightarrow> (recordMetric (sq_TenantID q) dir ''ok'' w, Ok ())))))"

definition applyTikTokOrder where
  "applyTikTokOrder c q = runApply c TikTokToWC (sn_TikTok c) (sn_WC c) q"

definition applyWCFulfilment where
  "applyWCFulfilment c q = runApply c WCToTikTok (sn_WC c) (sn_TikTok c) q"

definition close_sync :: "('s, 'w) sync_world \<Rightarrow> ('s, 'w) sync_world" where
  "close_sync w = w\<lparr>sw_closed := True\<rparr>"

subsection \<open>The stocks\<close>

definition run_op :: "('s, 'w) sync_config \<Rightarrow> sync_direction \<times> stock_request \<Rightarrow> ('s, 'w) sync_world \<Rightarrow>
    ('s, 'w) sync_world \<times> (sync_error + unit)" where
  "run_op c op w =
     (case op of (TikTokToWC, q) \<Rightarrow> applyTikTokOrder c q w | (WCToTikTok, q) \<Rightarrow> applyWCFulfilment c q w)"

fun sync_run ::
  "('s, 'w) sync_config \<Rightarrow> (sync_direction \<times> stock_request) list \<Rightarrow> ('s, 'w) sync_world \<Rightarrow>
   ('s, 'w) sync_world \<times> ((sync_direction \<times> stock_request) \<times> (sync_error + unit)) list" where
  "sync_run c [] w = (w, [])"
| "sync_run c (op # ops) w =
     (case run_op c op w of (w', r) \<Rightarrow> case sync_run c ops w' of (w'', rs) \<Rightarrow> (w'', (op, r) # rs))"

text \<open>An adjuster of one stock: a success applies the change, an error leaves the stock as it was, and the
  other stock is never touched.\<close>

definition honest :: "'w adjuster \<Rightarrow> ('w \<Rightarrow> string \<Rightarrow> int) \<Rightarrow> ('w \<Rightarrow> string \<Rightarrow> int) \<Rightarrow> bool" where
  "honest a mine other \<longleftrightarrow>
     (\<forall>q u u' r. a q u = (u', r) \<longrightarrow> other u' = other u
        \<and> mine u' = (if is_ok r then (mine u)(sq_SKU q := mine u (sq_SKU q) + sq_Delta q) else mine u))"

fun rolled_back_badly :: "sync_error + unit \<Rightarrow> bool" where
  "rolled_back_badly (Inl (ErrRollbackFailed _ _)) = True"
| "rolled_back_badly _ = False"

text \<open>What an operation with a given result has done to the two stocks.\<close>

definition wc_effect :: "string \<Rightarrow> (sync_direction \<times> stock_request) \<times> (sync_error + unit) \<Rightarrow> int" where
  "wc_effect sku x =
     (case x of ((dir, q), r) \<Rightarrow> if sq_SKU q = sku \<and> (is_ok r \<or> rolled_back_badly r) then sq_Delta q else 0)"

definition tiktok_effect :: "string \<Rightarrow> (sync_direction \<times> stock_request) \<times> (sync_error + unit) \<Rightarrow> int" where
  "tiktok_effect sku x =
     (case x of ((dir, q), r) \<Rightarrow> if sq_SKU q = sku \<and> dir = WCToTikTok \<and> is_ok r then sq_Delta q else 0)"

definition keys_of :: "seen_map \<Rightarrow> string set" where "keys_of s = {k. mget s k \<noteq> None}"

definition op_key :: "sync_direction \<times> stock_request \<Rightarrow> string" where
  "op_key op = buildIdempotencyKey (fst op) (snd op)"

lemma metric_frame [simp]:
  "sw_outer (recordMetric t d m w) = sw_outer w" "sw_store (recordMetric t d m w) = sw_store w"
  by (simp_all add: recordMetric_def)

lemma release_frame [simp]:
  "sn_Idempotency c = memory_store \<Longrightarrow> keys_of (sw_store (release_key c k w)) = keys_of (sw_store w) - {k}"
  "sw_outer (release_key c k w) = sw_outer w"
  using mis.release [of k] by (simp_all add: release_key_def keys_of_def)

lemma adjust_honest:
  assumes "adjust a q w = (w', r)" and "honest a mine other"
  shows "sw_store w' = sw_store w" "other (sw_outer w') = other (sw_outer w)"
    "mine (sw_outer w') = (if is_ok r then (mine (sw_outer w))(sq_SKU q := mine (sw_outer w) (sq_SKU q) + sq_Delta q) else mine (sw_outer w))"
  using assms by (auto simp: adjust_def honest_def split: prod.splits)

text \<open>The part of an operation after its reservation.\<close>

definition moved :: "('s, 'w) sync_config \<Rightarrow> string \<Rightarrow> sync_direction \<Rightarrow> stock_request \<Rightarrow> ('s, 'w) sync_world \<Rightarrow>
    ('s, 'w) sync_world \<times> (sync_error + unit)" where
  "moved c k dir q w =
     (let source = (if dir = WCToTikTok then sn_WC c else sn_TikTok c);
          target = (if dir = WCToTikTok then sn_TikTok c else sn_WC c) in
      case applySource c k source q dir w of
        (w, Err e) \<Rightarrow> (w, Err e)
      | (w, Ok _) \<Rightarrow>
     (case applyTarget c k source target q q dir w of
        (w, Err e) \<Rightarrow> (w, Err e)
      | (w, Ok _) \<Rightarrow> (recordMetric (sq_TenantID q) dir ''ok'' w, Ok ())))"

definition stocks_moved ::
  "('w \<Rightarrow> string \<Rightarrow> int) \<Rightarrow> ('w \<Rightarrow> string \<Rightarrow> int) \<Rightarrow> sync_direction \<Rightarrow> stock_request \<Rightarrow> sync_error + unit \<Rightarrow>
   ('s, 'w) sync_world \<Rightarrow> ('s, 'w) sync_world \<Rightarrow> bool" where
  "stocks_moved wc tt dir q r w w' \<longleftrightarrow>
     (\<forall>sku. wc (sw_outer w') sku = wc (sw_outer w) sku + wc_effect sku ((dir, q), r)
          \<and> tt (sw_outer w') sku = tt (sw_outer w) sku + tiktok_effect sku ((dir, q), r))"

lemma moved_tiktok:
  assumes "moved c k TikTokToWC q w = (w', r)" and "sn_Idempotency c = memory_store" and "honest (sn_WC c) wc tt"
  shows "stocks_moved wc tt TikTokToWC q r w w'
    \<and> keys_of (sw_store w') = (if is_ok r then keys_of (sw_store w) else keys_of (sw_store w) - {k})"
proof -
  obtain w1 x where a: "adjust (sn_WC c) q w = (w1, x)" by force
  note h = adjust_honest [OF a assms(3)]
  show ?thesis using assms(1,2) a h
    by (cases x) (auto simp: moved_def applySource_def applyTarget_def runCompensation_def stocks_moved_def
        wc_effect_def tiktok_effect_def)
qed

lemma moved_wc:
  assumes "moved c k WCToTikTok q w = (w', r)" and "sn_Idempotency c = memory_store"
    and "honest (sn_WC c) wc tt" and "honest (sn_TikTok c) tt wc" and "\<bar>sq_Delta q\<bar> \<le> max_int64"
  shows "stocks_moved wc tt WCToTikTok q r w w'
    \<and> keys_of (sw_store w') = (if is_ok r then keys_of (sw_store w) else keys_of (sw_store w) - {k})"
proof -
  obtain w1 x where a: "adjust (sn_WC c) q w = (w1, x)" by force
  note h = adjust_honest [OF a assms(3)]
  obtain w2 y where b: "adjust (sn_TikTok c) q w1 = (w2, y)" by force
  note h2 = adjust_honest [OF b assms(4)]
  let ?undo = "q\<lparr>sq_Delta := wrap64 (- sq_Delta q)\<rparr>"
  obtain w3 z where d: "adjust (sn_WC c) ?undo (recordMetric (sq_TenantID q) WCToTikTok ''target_failed'' w2) = (w3, z)" by force
  note h3 = adjust_honest [OF d assms(3)]
  have neg: "wrap64 (- sq_Delta q) = - sq_Delta q"
    using assms(5) by (intro wrap64_id) (auto simp: in_int64_iff)
  show ?thesis
  proof (cases x)
    case (Inl e)
    then show ?thesis using assms(1,2) a h
      by (auto simp: moved_def applySource_def stocks_moved_def wc_effect_def tiktok_effect_def)
  next
    case x: (Inr u)
    show ?thesis
    proof (cases y)
      case (Inl e)
      then show ?thesis using assms(1,2) a b d h h2 h3 x neg
        by (cases z) (auto simp: moved_def applySource_def applyTarget_def runCompensation_def stocks_moved_def
            wc_effect_def tiktok_effect_def)
    next
      case (Inr v)
      then show ?thesis using assms(1,2) a b h h2 x
        by (auto simp: moved_def applySource_def applyTarget_def stocks_moved_def wc_effect_def tiktok_effect_def)
    qed
  qed
qed

lemma run_op_moved:
  "run_op c (dir, q) w =
     (if sw_closed w then (w, Err ErrInventorySyncClosed)
      else case validateApplyRequest q of
        Some e \<Rightarrow> (recordMetric (sq_TenantID q) dir ''invalid_request'' w, Err e)
      | None \<Rightarrow>
     (case id_reserve (sn_Idempotency c) (op_key (dir, q)) (sw_store w) of
        (s, Err e) \<Rightarrow> (recordMetric (sq_TenantID q) dir ''idempotency_error'' (w\<lparr>sw_store := s\<rparr>), Err (ErrReserve e))
      | (s, Ok False) \<Rightarrow> (recordMetric (sq_TenantID q) dir ''duplicate'' (w\<lparr>sw_store := s\<rparr>), Err ErrInventorySyncDuplicate)
      | (s, Ok True) \<Rightarrow> moved c (op_key (dir, q)) dir q (w\<lparr>sw_store := s\<rparr>)))"
  unfolding run_op_def applyTikTokOrder_def applyWCFulfilment_def runApply_def moved_def op_key_def splitRequest_def Let_def
  by (cases dir) (simp_all split: option.split sum.split bool.split prod.split)

lemma run_op_step:
  assumes "run_op c (dir, q) w = (w', r)" and "sn_Idempotency c = memory_store"
    and "honest (sn_WC c) wc tt" and "honest (sn_TikTok c) tt wc" and "\<bar>sq_Delta q\<bar> \<le> max_int64"
  shows "stocks_moved wc tt dir q r w w'" (is ?A)
    and "keys_of (sw_store w') = (if is_ok r then insert (op_key (dir, q)) (keys_of (sw_store w)) else keys_of (sw_store w))" (is ?B)
    and "is_ok r \<Longrightarrow> op_key (dir, q) \<notin> keys_of (sw_store w)" (is "_ \<Longrightarrow> ?C")
proof -
  let ?k = "op_key (dir, q)"
  obtain s x where res: "id_reserve memory_store ?k (sw_store w) = (s, x)" by force
  have kept: "s = sw_store w" if "x \<noteq> Ok True"
    using res that by (auto simp: memory_store_def memory_reserve_def split: if_splits option.splits)
  have none: "stocks_moved wc tt dir q (Err e) w w1" if "\<not> rolled_back_badly (Err e)" "sw_outer w1 = sw_outer w" for e w1
    using that by (simp add: stocks_moved_def wc_effect_def tiktok_effect_def)
  consider "\<not> (\<not> sw_closed w \<and> validateApplyRequest q = None \<and> x = Ok True)"
    | "\<not> sw_closed w" "validateApplyRequest q = None" "x = Ok True" by blast
  then have "?A \<and> ?B \<and> (is_ok r \<longrightarrow> ?C)"
  proof cases
    case 1
    have "\<exists>e. r = Err e \<and> \<not> rolled_back_badly (Err e) \<and> sw_outer w' = sw_outer w \<and> sw_store w' = sw_store w"
      using 1 assms(1) res kept unfolding run_op_moved assms(2)
      by (auto simp: validateApplyRequest_def split: option.splits sum.splits bool.splits if_splits)
    then show ?thesis using none by auto
  next
    case 2
    then have m: "moved c ?k dir q (w\<lparr>sw_store := s\<rparr>) = (w', r)"
      using assms(1) res unfolding run_op_moved assms(2) by simp
    have k: "?k \<notin> keys_of (sw_store w)" "keys_of s = insert ?k (keys_of (sw_store w))"
      using mis.reserve_Ok [of ?k "sw_store w" s True] res 2 by (simp_all add: keys_of_def)
    have "stocks_moved wc tt dir q r (w\<lparr>sw_store := s\<rparr>) w'
        \<and> keys_of (sw_store w') = (if is_ok r then keys_of s else keys_of s - {?k})"
      using moved_tiktok [of c ?k q "w\<lparr>sw_store := s\<rparr>" w' r, OF _ assms(2,3)]
        moved_wc [of c ?k q "w\<lparr>sw_store := s\<rparr>" w' r, OF _ assms(2-5)] m by (cases dir) simp_all
    then show ?thesis using k by (auto simp: stocks_moved_def)
  qed
  then show ?A ?B "is_ok r \<Longrightarrow> ?C" by blast+
qed

lemma run_keys:
  assumes "sync_run c ops w = (w', log)" and "sn_Idempotency c = memory_store"
    and "honest (sn_WC c) wc tt" and "honest (sn_TikTok c) tt wc" and "\<forall>(d, q) \<in> set ops. \<bar>sq_Delta q\<bar> \<le> max_int64"
  shows "distinct (map (op_key \<circ> fst) (filter (is_ok \<circ> snd) log))
    \<and> (\<forall>x \<in> set log. is_ok (snd x) \<longrightarrow> op_key (fst x) \<notin> keys_of (sw_store w))"
  using assms(1,5)
proof (induction ops arbitrary: w w' log)
  case (Cons op ops)
  obtain d q where op: "op = (d, q)" by force
  obtain w1 r where one: "run_op c (d, q) w = (w1, r)" by force
  obtain w2 log' where more: "sync_run c ops w1 = (w2, log')" by force
  have "\<bar>sq_Delta q\<bar> \<le> max_int64" using Cons.prems(2) op by auto
  note st = run_op_step(2,3) [OF one assms(2-4) this]
  have log: "log = ((d, q), r) # log'" using Cons.prems(1) op one more by auto
  have "\<forall>(d, q) \<in> set ops. \<bar>sq_Delta q\<bar> \<le> max_int64" using Cons.prems(2) by auto
  note ih = Cons.IH [OF more this]
  show ?case using ih st unfolding log by (cases "is_ok r") auto
qed simp


text \<open>Two shops with a stock each; a script says which adjustments fail.\<close>

type_synonym shop_pair = "(string \<Rightarrow> int) \<times> (string \<Rightarrow> int) \<times> bool list"

definition scripted_wc :: "shop_pair adjuster" where
  "scripted_wc q u =
     (case u of (a, b, fs) \<Rightarrow>
        if fs \<noteq> [] \<and> hd fs then ((a, b, tl fs), Err ''down'')
        else ((a(sq_SKU q := a (sq_SKU q) + sq_Delta q), b, tl fs), Ok ()))"

definition scripted_tiktok :: "shop_pair adjuster" where
  "scripted_tiktok q u =
     (case u of (a, b, fs) \<Rightarrow>
        if fs \<noteq> [] \<and> hd fs then ((a, b, tl fs), Err ''down'')
        else ((a, b(sq_SKU q := b (sq_SKU q) + sq_Delta q), tl fs), Ok ()))"

definition scripted_sync :: "(seen_map, shop_pair) sync_config" where
  "scripted_sync = \<lparr>sn_WC = scripted_wc, sn_TikTok = scripted_tiktok, sn_Idempotency = memory_store\<rparr>"

lemma scripted_honest:
  "honest scripted_wc fst (\<lambda>u. fst (snd u))" "honest scripted_tiktok (\<lambda>u. fst (snd u)) fst"
  by (auto simp: honest_def scripted_wc_def scripted_tiktok_def split: prod.splits if_splits)

definition sample_stock_request :: stock_request where
  "sample_stock_request =
     \<lparr>sq_TenantID = ''t1'', sq_SKU = ''S'', sq_ProductID = [], sq_WarehouseID = [], sq_Delta = - 2, sq_OrderID = ''o1'',
      sq_IdempotencyKey = []\<rparr>"

definition stock_start :: "bool list \<Rightarrow> (seen_map, shop_pair) sync_world" where
  "stock_start fs = \<lparr>sw_closed = False, sw_store = [], sw_outer = (\<lambda>_. 10, \<lambda>_. 10, fs), sw_metrics = []\<rparr>"


text \<open>A failed rollback is undone by nothing and forgotten. The key is released although the
  WooCommerce stock has been changed; the retry that the release allows changes it again. One
  fulfilment of two units has then taken four from WooCommerce and two from TikTok.\<close>

theorem failed_rollback_moves_twice:
  "\<exists>w' log. sync_run scripted_sync [(WCToTikTok, sample_stock_request), (WCToTikTok, sample_stock_request)]
       (stock_start [False, True, True]) = (w', log)
     \<and> map snd log = [Err (ErrRollbackFailed ''down'' ''down''), Ok ()]
     \<and> fst (sw_outer w') ''S'' = 6 \<and> fst (snd (sw_outer w')) ''S'' = 8"
proof -
  have "(case sync_run scripted_sync [(WCToTikTok, sample_stock_request), (WCToTikTok, sample_stock_request)]
       (stock_start [False, True, True]) of (w', log) \<Rightarrow>
      map snd log = [Err (ErrRollbackFailed ''down'' ''down''), Ok ()]
     \<and> fst (sw_outer w') ''S'' = 6 \<and> fst (snd (sw_outer w')) ''S'' = 8)" by code_simp
  then show ?thesis by (auto split: prod.splits)
qed

subsection \<open>The two stores of the webhooks\<close>

lemma append_sep_eq:
  "c \<notin> set xs \<Longrightarrow> c \<notin> set ys \<Longrightarrow> xs @ c # us = ys @ c # vs \<longleftrightarrow> xs = ys \<and> us = vs"
proof (induction xs arbitrary: ys)
  case Nil
  then show ?case by (cases ys) auto
next
  case (Cons x xs)
  then show ?case by (cases ys) auto
qed

fun webhook_answers :: "(string \<times> string) list \<Rightarrow> seen_map \<Rightarrow> (string + bool) list" where
  "webhook_answers [] s = []"
| "webhook_answers ((t, k) # rs) s = (case webhook_reserve t k s of (s', r) \<Rightarrow> r # webhook_answers rs s')"

fun pg_answers :: "(string \<times> string) list \<Rightarrow> (string \<times> string, unit) gomap \<Rightarrow> (string + bool) list" where
  "pg_answers [] s = []"
| "pg_answers ((t, k) # rs) s = (case pg_reserve t k s of (s', r) \<Rightarrow> r # pg_answers rs s')"

definition same_seen :: "seen_map \<Rightarrow> (string \<times> string, unit) gomap \<Rightarrow> bool" where
  "same_seen m p \<longleftrightarrow> (\<forall>t k. CHR 0x00 \<notin> set t \<longrightarrow> mget m (t @ CHR 0x00 # k) = mget p (t, k))"

lemma answers_agree:
  "same_seen m p \<Longrightarrow> \<forall>(t, k) \<in> set rs. CHR 0x00 \<notin> set t \<Longrightarrow> webhook_answers rs m = pg_answers rs p"
proof (induction rs arbitrary: m p)
  case (Cons r rs)
  obtain t k where r: "r = (t, k)" by force
  have t: "CHR 0x00 \<notin> set t" using Cons.prems(2) r by auto
  have same: "mget m (t @ CHR 0x00 # k) = mget p (t, k)" using Cons.prems(1) t by (simp add: same_seen_def)
  have put: "same_seen (mput (t @ CHR 0x00 # k) () m) (mput (t, k) () p)"
    using Cons.prems(1) t unfolding same_seen_def by (auto simp: mget_mput append_sep_eq)
  show ?case using Cons.IH Cons.prems same put r
    by (auto simp: webhook_reserve_def pg_reserve_def Let_def split: option.split)
qed simp



end
