(* ===== verification/OrderAggregator.thy ===== *)
theory OrderAggregator
  imports Temporal InventorySync
begin

text \<open>
  The order aggregator (\<open>internal/workflow/order_aggregator.go\<close>): channel orders are normalised,
  deduplicated by an idempotency store and published. The store is any store with the contract
  of theory \<open>InventorySync\<close>; the publisher is a parameter, and what it accepts is logged.
\<close>

subsection \<open>Data\<close>

record order_line =
  ol_SKU :: string
  ol_Quantity :: int
  ol_UnitCents :: int
  ol_ProductID :: string

record channel_order =
  co_TenantID :: string
  co_Channel :: string
  co_ExternalOrderID :: string
  co_BuyerEmail :: string
  co_TotalCents :: int
  co_Currency :: string
  co_Status :: string
  co_ShippingCountry :: string
  co_Items :: "order_line list"
  co_OccurredAt :: gotime

record order_normalised =
  on_TenantID :: string
  on_OrderID :: string
  on_ExternalOrderID :: string
  on_Channel :: string
  on_BuyerEmail :: string
  on_TotalAUDCents :: int
  on_Currency :: string
  on_Status :: string
  on_ShippingCountry :: string
  on_Items :: "order_line list"
  on_OccurredAt :: gotime

record aggregator_result =
  ar_TenantID :: string
  ar_Normalised :: int
  ar_Duplicates :: int
  ar_Failures :: int
  ar_Orders :: "order_normalised list"

datatype channel_order_error =
    ErrOrderTenantRequired | ErrOrderChannelRequired | ErrOrderExternalIDMissing | ErrOrderNoLineItems | ErrOrderOccurredAtMissing

fun channel_order_error_text :: "channel_order_error \<Rightarrow> string" where
  "channel_order_error_text ErrOrderTenantRequired = ''order_aggregator: tenant_id required''"
| "channel_order_error_text ErrOrderChannelRequired = ''order_aggregator: channel required''"
| "channel_order_error_text ErrOrderExternalIDMissing = ''order_aggregator: external_order_id required''"
| "channel_order_error_text ErrOrderNoLineItems = ''order_aggregator: at least one line item required''"
| "channel_order_error_text ErrOrderOccurredAtMissing = ''order_aggregator: occurred_at required''"

record ('s, 'w) order_world =
  ow_store :: 's
  ow_outer :: 'w
  ow_published :: "order_normalised list"
  ow_metrics :: "(string \<times> string \<times> string) list"

record ('s, 'w) order_deps =
  od_publisher :: "(order_normalised \<Rightarrow> 'w \<Rightarrow> 'w \<times> (act_error + unit)) option"
  od_dedup :: "'s idem_store option"

subsection \<open>The activities\<close>

definition validateChannelOrderInput :: "channel_order \<Rightarrow> channel_order_error option" where
  "validateChannelOrderInput i =
     (if trim_space (co_TenantID i) = [] then Some ErrOrderTenantRequired
      else if trim_space (co_Channel i) = [] then Some ErrOrderChannelRequired
      else if trim_space (co_ExternalOrderID i) = [] then Some ErrOrderExternalIDMissing
      else if co_Items i = [] then Some ErrOrderNoLineItems
      else if time_is_zero (co_OccurredAt i) then Some ErrOrderOccurredAtMissing
      else None)"

definition buildInternalOrderID :: "string \<Rightarrow> string \<Rightarrow> string" where
  "buildInternalOrderID channel externalID = ''ord-'' @ channel @ ''-'' @ externalID"

definition buildDedupKey :: "order_normalised \<Rightarrow> string" where
  "buildDedupKey o' = on_TenantID o' @ CHR 0x00 # on_Channel o' @ CHR 0x00 # on_ExternalOrderID o'"

definition normalised_of :: "channel_order \<Rightarrow> order_normalised" where
  "normalised_of i =
     \<lparr>on_TenantID = co_TenantID i, on_OrderID = buildInternalOrderID (co_Channel i) (co_ExternalOrderID i),
      on_ExternalOrderID = co_ExternalOrderID i, on_Channel = co_Channel i, on_BuyerEmail = co_BuyerEmail i,
      on_TotalAUDCents = co_TotalCents i, on_Currency = co_Currency i, on_Status = co_Status i,
      on_ShippingCountry = co_ShippingCountry i, on_Items = co_Items i, on_OccurredAt = co_OccurredAt i\<rparr>"

definition normaliseChannelOrder :: "channel_order \<Rightarrow> (('s, 'w) order_world, order_normalised) activity" where
  "normaliseChannelOrder i w =
     (case validateChannelOrderInput i of
        Some e \<Rightarrow> (w, Err (ApplicationError (channel_order_error_text e)))
      | None \<Rightarrow> (w, Ok (normalised_of i)))"

definition dedupOrder :: "('s, 'w) order_deps \<Rightarrow> order_normalised \<Rightarrow> (('s, 'w) order_world, bool) activity" where
  "dedupOrder d o' w =
     (case od_dedup d of
        None \<Rightarrow> (w, Ok True)
      | Some st \<Rightarrow>
          (case id_reserve st (buildDedupKey o') (ow_store w) of
             (s, Err e) \<Rightarrow> (w\<lparr>ow_store := s\<rparr>, Err (ApplicationError e))
           | (s, Ok b) \<Rightarrow> (w\<lparr>ow_store := s\<rparr>, Ok b)))"

definition validate_order_payload :: "order_normalised \<Rightarrow> bool" where
  "validate_order_payload p \<longleftrightarrow>
     on_TenantID p \<noteq> [] \<and> on_OrderID p \<noteq> [] \<and> on_ExternalOrderID p \<noteq> [] \<and> on_Channel p \<noteq> [] \<and> on_Items p \<noteq> []"

definition recordNormalisation :: "order_normalised \<Rightarrow> string \<Rightarrow> ('s, 'w) order_world \<Rightarrow> ('s, 'w) order_world" where
  "recordNormalisation o' status w = w\<lparr>ow_metrics := ow_metrics w @ [(on_TenantID o', on_Channel o', status)]\<rparr>"

definition publishOrderNormalised :: "('s, 'w) order_deps \<Rightarrow> order_normalised \<Rightarrow> (('s, 'w) order_world, unit) activity" where
  "publishOrderNormalised d o' w =
     (case od_publisher d of
        None \<Rightarrow> (recordNormalisation o' ''skipped'' w, Ok ())
      | Some pub \<Rightarrow>
          if \<not> validate_order_payload o'
          then (recordNormalisation o' ''failure'' w, Err (ApplicationError ''order_aggregator: build event''))
          else (case pub o' (ow_outer w) of
             (u, Err e) \<Rightarrow> (recordNormalisation o' ''failure'' (w\<lparr>ow_outer := u\<rparr>), Err e)
           | (u, Ok _) \<Rightarrow>
               (recordNormalisation o' ''ok'' (w\<lparr>ow_outer := u, ow_published := ow_published w @ [o']\<rparr>), Ok ())))"

subsection \<open>The workflow\<close>

definition aggregator_attempts :: nat where "aggregator_attempts = 3"

definition publishIfNew :: "('s, 'w) order_deps \<Rightarrow> order_normalised \<Rightarrow> (('s, 'w) order_world, bool) activity" where
  "publishIfNew d o' w0 =
     (case executeActivity aggregator_attempts (dedupOrder d o') w0 of
        (w, Err e) \<Rightarrow> (w, Err e)
      | (w, Ok fresh) \<Rightarrow>
          if \<not> fresh then (w, Ok False)
          else (case executeActivity aggregator_attempts (publishOrderNormalised d o') w of
             (w, Err e) \<Rightarrow> (w, Err e) | (w, Ok _) \<Rightarrow> (w, Ok True)))"

text \<open>One round of the loop.\<close>

definition aggregate_order ::
  "('s, 'w) order_deps \<Rightarrow> channel_order \<Rightarrow> aggregator_result \<Rightarrow> ('s, 'w) order_world \<Rightarrow> ('s, 'w) order_world \<times> aggregator_result" where
  "aggregate_order d i res w0 =
     (case executeActivity aggregator_attempts (normaliseChannelOrder i) w0 of
        (w, Err _) \<Rightarrow> (w, res\<lparr>ar_Failures := ar_Failures res + 1\<rparr>)
      | (w, Ok o') \<Rightarrow>
     (case publishIfNew d o' w of
        (w, Err _) \<Rightarrow> (w, res\<lparr>ar_Failures := ar_Failures res + 1\<rparr>)
      | (w, Ok False) \<Rightarrow> (w, res\<lparr>ar_Duplicates := ar_Duplicates res + 1\<rparr>)
      | (w, Ok True) \<Rightarrow> (w, res\<lparr>ar_Normalised := ar_Normalised res + 1, ar_Orders := ar_Orders res @ [o']\<rparr>)))"

fun aggregate_orders ::
  "('s, 'w) order_deps \<Rightarrow> channel_order list \<Rightarrow> aggregator_result \<Rightarrow> ('s, 'w) order_world \<Rightarrow> ('s, 'w) order_world \<times> aggregator_result" where
  "aggregate_orders d [] res w = (w, res)"
| "aggregate_orders d (i # is) res w = (case aggregate_order d i res w of (w', res') \<Rightarrow> aggregate_orders d is res' w')"

definition orderAggregatorWorkflow ::
  "('s, 'w) order_deps \<Rightarrow> string \<Rightarrow> channel_order list \<Rightarrow> ('s, 'w) order_world \<Rightarrow> ('s, 'w) order_world \<times> aggregator_result" where
  "orderAggregatorWorkflow d tenant orders w =
     aggregate_orders d orders
       \<lparr>ar_TenantID = tenant, ar_Normalised = 0, ar_Duplicates = 0, ar_Failures = 0, ar_Orders = []\<rparr> w"

subsection \<open>One announcement per order\<close>

lemma publish_attempts_log:
  assumes "od_publisher d = Some pub" and "retrying n (publishOrderNormalised d o') w = (w', r)"
  shows "ow_store w' = ow_store w \<and> ow_published w' = ow_published w @ (if is_ok r then [o'] else [])"
  using assms(2)
proof (induction n arbitrary: w)
  case 0
  then show ?case using assms(1)
    by (auto simp: publishOrderNormalised_def recordNormalisation_def split: if_splits prod.splits sum.splits)
next
  case (Suc n)
  obtain x p where act: "publishOrderNormalised d o' w = (x, p)" by force
  then have x: "ow_store x = ow_store w \<and> ow_published x = ow_published w @ (if is_ok p then [o'] else [])"
    using assms(1) by (auto simp: publishOrderNormalised_def recordNormalisation_def split: if_splits prod.splits sum.splits)
  show ?case using Suc act x by (cases p) (auto split: if_splits)
qed

text \<open>What a dedup activity may do to a store with the contract.\<close>

context idempotency
begin

lemma dedup_attempt:
  assumes "od_dedup d = Some st" and "dedupOrder d o' w = (w', r)"
  shows "ow_published w' = ow_published w \<and> seen (ow_store w) \<subseteq> seen (ow_store w')
    \<and> (r = Ok True \<longrightarrow> buildDedupKey o' \<notin> seen (ow_store w) \<and> buildDedupKey o' \<in> seen (ow_store w'))"
proof -
  obtain s x where res: "id_reserve st (buildDedupKey o') (ow_store w) = (s, x)" by force
  have w': "w' = w\<lparr>ow_store := s\<rparr>" and r: "r = Ok True \<longleftrightarrow> x = Ok True"
    using assms res by (auto simp: dedupOrder_def split: sum.splits)
  have "seen (ow_store w) \<subseteq> seen s" using res reserve_Ok reserve_Err by (cases x) blast+
  moreover have "x = Ok True \<longrightarrow> buildDedupKey o' \<notin> seen (ow_store w) \<and> buildDedupKey o' \<in> seen s"
    using res reserve_Ok by blast
  ultimately show ?thesis using r by (simp add: w')
qed

lemma dedup_attempts:
  assumes "od_dedup d = Some st" and "retrying n (dedupOrder d o') w = (w', r)"
  shows "ow_published w' = ow_published w \<and> seen (ow_store w) \<subseteq> seen (ow_store w')
    \<and> (r = Ok True \<longrightarrow> buildDedupKey o' \<notin> seen (ow_store w) \<and> buildDedupKey o' \<in> seen (ow_store w'))"
  using assms(2)
proof (induction n arbitrary: w)
  case 0
  then show ?case using dedup_attempt [OF assms(1)] by simp
next
  case (Suc n)
  obtain x p where act: "dedupOrder d o' w = (x, p)" by force
  note x = dedup_attempt [OF assms(1) act]
  show ?case
  proof (cases "\<exists>e. p = Err e \<and> e \<noteq> CanceledError")
    case True
    then have "retrying n (dedupOrder d o') x = (w', r)" using Suc.prems act by auto
    from Suc.IH [OF this] show ?thesis using x by auto
  next
    case False
    then have "w' = x \<and> r = p" using Suc.prems act by (cases p) auto
    then show ?thesis using x by blast
  qed
qed

lemma publishIfNew_once:
  assumes "od_dedup d = Some st" "od_publisher d = Some pub" and "publishIfNew d o' w = (w', r)"
  shows "seen (ow_store w) \<subseteq> seen (ow_store w')
    \<and> ow_published w' = ow_published w @ (if r = Ok True then [o'] else [])
    \<and> (r = Ok True \<longrightarrow> buildDedupKey o' \<notin> seen (ow_store w) \<and> buildDedupKey o' \<in> seen (ow_store w'))"
proof -
  obtain w1 p where one: "executeActivity aggregator_attempts (dedupOrder d o') w = (w1, p)" by force
  note dd = dedup_attempts [OF assms(1) one [unfolded executeActivity_def]]
  obtain w2 q where two: "executeActivity aggregator_attempts (publishOrderNormalised d o') w1 = (w2, q)" by force
  note pp = publish_attempts_log [OF assms(2) two [unfolded executeActivity_def]]
  show ?thesis using assms(3) one two dd pp
    by (auto simp: publishIfNew_def split: sum.splits if_splits)
qed

lemma aggregate_order_once:
  assumes "od_dedup d = Some st" "od_publisher d = Some pub" and "aggregate_order d i res w = (w', res')"
  shows "\<exists>os. ar_Orders res' = ar_Orders res @ os \<and> ow_published w' = ow_published w @ os \<and> length os \<le> 1
    \<and> seen (ow_store w) \<subseteq> seen (ow_store w')
    \<and> (\<forall>o' \<in> set os. buildDedupKey o' \<notin> seen (ow_store w) \<and> buildDedupKey o' \<in> seen (ow_store w'))
    \<and> ar_Normalised res' = ar_Normalised res + int (length os)
    \<and> ar_Normalised res' + ar_Duplicates res' + ar_Failures res' = ar_Normalised res + ar_Duplicates res + ar_Failures res + 1"
proof -
  have "\<And>x. normaliseChannelOrder i x = (x, snd (normaliseChannelOrder i x))"
    by (simp add: normaliseChannelOrder_def split: option.split)
  then have "fst (executeActivity aggregator_attempts (normaliseChannelOrder i) w) = w"
    using executeActivity_invariant [where I = "\<lambda>x. x = w" and act = "normaliseChannelOrder i"] by (metis fst_conv)
  then obtain n where norm: "executeActivity aggregator_attempts (normaliseChannelOrder i) w = (w, n)" by (metis prod.collapse)
  show ?thesis
  proof (cases n)
    case (Inl e)
    then show ?thesis using assms(3) norm by (auto simp: aggregate_order_def intro!: exI [of _ "[]"])
  next
    case (Inr o')
    obtain w1 r where p: "publishIfNew d o' w = (w1, r)" by force
    note once = publishIfNew_once [OF assms(1,2) p]
    show ?thesis using assms(3) norm Inr p once
      by (auto simp: aggregate_order_def intro!: exI [of _ "if r = Ok True then [o'] else []"] split: sum.splits bool.splits)
  qed
qed

lemma aggregate_orders_once:
  assumes "od_dedup d = Some st" "od_publisher d = Some pub"
  shows "aggregate_orders d is res w = (w', res') \<Longrightarrow>
    \<exists>os. ar_Orders res' = ar_Orders res @ os \<and> ow_published w' = ow_published w @ os
    \<and> seen (ow_store w) \<subseteq> seen (ow_store w') \<and> distinct (map buildDedupKey os)
    \<and> (\<forall>o' \<in> set os. buildDedupKey o' \<notin> seen (ow_store w) \<and> buildDedupKey o' \<in> seen (ow_store w'))
    \<and> ar_Normalised res' = ar_Normalised res + int (length os)
    \<and> ar_Normalised res' + ar_Duplicates res' + ar_Failures res' = ar_Normalised res + ar_Duplicates res + ar_Failures res + int (length is)"
proof (induction "is" arbitrary: res w)
  case Nil
  then show ?case by (auto intro: exI [of _ "[]"])
next
  case (Cons i "is")
  obtain w1 res1 where one: "aggregate_order d i res w = (w1, res1)" by force
  then have more: "aggregate_orders d is res1 w1 = (w', res')" using Cons.prems by simp
  obtain os where os: "ar_Orders res1 = ar_Orders res @ os" "ow_published w1 = ow_published w @ os" "length os \<le> 1"
    "seen (ow_store w) \<subseteq> seen (ow_store w1)"
    "\<forall>o' \<in> set os. buildDedupKey o' \<notin> seen (ow_store w) \<and> buildDedupKey o' \<in> seen (ow_store w1)"
    "ar_Normalised res1 = ar_Normalised res + int (length os)"
    "ar_Normalised res1 + ar_Duplicates res1 + ar_Failures res1 = ar_Normalised res + ar_Duplicates res + ar_Failures res + 1"
    using aggregate_order_once [OF assms one] by blast
  obtain ps where ps: "ar_Orders res' = ar_Orders res1 @ ps" "ow_published w' = ow_published w1 @ ps"
    "seen (ow_store w1) \<subseteq> seen (ow_store w')" "distinct (map buildDedupKey ps)"
    "\<forall>o' \<in> set ps. buildDedupKey o' \<notin> seen (ow_store w1) \<and> buildDedupKey o' \<in> seen (ow_store w')"
    "ar_Normalised res' = ar_Normalised res1 + int (length ps)"
    "ar_Normalised res' + ar_Duplicates res' + ar_Failures res' = ar_Normalised res1 + ar_Duplicates res1 + ar_Failures res1 + int (length is)"
    using Cons.IH [OF more] by blast
  have "distinct (map buildDedupKey os)" using os(3) by (cases os) auto
  then have "distinct (map buildDedupKey (os @ ps))" using os(5) ps(4,5) by auto
  moreover have "\<forall>o' \<in> set (os @ ps). buildDedupKey o' \<notin> seen (ow_store w) \<and> buildDedupKey o' \<in> seen (ow_store w')"
    using os(4,5) ps(3,5) by auto
  ultimately show ?case using os ps by (intro exI [of _ "os @ ps"]) auto
qed

end

lemma unit_option: "x \<noteq> Some () \<longleftrightarrow> x = None"
  by (cases x) auto


definition sample_channel_order :: "string \<Rightarrow> string \<Rightarrow> channel_order" where
  "sample_channel_order channel external =
     \<lparr>co_TenantID = ''t1'', co_Channel = channel, co_ExternalOrderID = external, co_BuyerEmail = [], co_TotalCents = 100,
      co_Currency = ''AUD'', co_Status = [], co_ShippingCountry = [],
      co_Items = [\<lparr>ol_SKU = ''S'', ol_Quantity = 1, ol_UnitCents = 100, ol_ProductID = []\<rparr>], co_OccurredAt = 1\<rparr>"

text \<open>A publisher that is down for a number of calls.\<close>

definition down_for :: "order_normalised \<Rightarrow> nat \<Rightarrow> nat \<times> (act_error + unit)" where
  "down_for p n = (case n of 0 \<Rightarrow> (0, Ok ()) | Suc m \<Rightarrow> (m, Err (ApplicationError ''bus down'')))"

definition sample_order_deps :: "(seen_map, nat) order_deps" where
  "sample_order_deps = \<lparr>od_publisher = Some down_for, od_dedup = Some memory_store\<rparr>"

definition order_start :: "nat \<Rightarrow> (seen_map, nat) order_world" where
  "order_start n = \<lparr>ow_store = [], ow_outer = n, ow_published = [], ow_metrics = []\<rparr>"


text \<open>An order whose announcement fails is lost. The key is reserved before the announcement and never
  released: when the bus is down for the three attempts, the order counts as failed, and every later
  delivery of it counts as a duplicate and is not announced.\<close>

theorem failed_announcement_loses_order:
  "\<exists>w1 res1 w2 res2.
     orderAggregatorWorkflow sample_order_deps ''t1'' [sample_channel_order ''tiktok'' ''7''] (order_start 3) = (w1, res1)
   \<and> ar_Failures res1 = 1
   \<and> orderAggregatorWorkflow sample_order_deps ''t1'' [sample_channel_order ''tiktok'' ''7''] w1 = (w2, res2)
   \<and> ar_Duplicates res2 = 1 \<and> ow_published w2 = []"
proof -
  have "(case orderAggregatorWorkflow sample_order_deps ''t1'' [sample_channel_order ''tiktok'' ''7''] (order_start 3) of
      (w1, res1) \<Rightarrow> ar_Failures res1 = 1
        \<and> (case orderAggregatorWorkflow sample_order_deps ''t1'' [sample_channel_order ''tiktok'' ''7''] w1 of
             (w2, res2) \<Rightarrow> ar_Duplicates res2 = 1 \<and> ow_published w2 = []))" by code_simp
  then show ?thesis by (auto split: prod.splits)
qed

text \<open>The internal order ids are not unique. They are for channels without a hyphen; with one,
  two different orders get the same id, and both are announced.\<close>

theorem order_ids_unique_iff_no_hyphen:
  "(CHR ''-'' \<notin> set c \<longrightarrow> CHR ''-'' \<notin> set c' \<longrightarrow> buildInternalOrderID c e = buildInternalOrderID c' e' \<longrightarrow> c = c' \<and> e = e')
   \<and> (\<exists>w res. orderAggregatorWorkflow sample_order_deps ''t1''
        [sample_channel_order ''fb'' ''shop-7'', sample_channel_order ''fb-shop'' ''7''] (order_start 0) = (w, res)
      \<and> map on_OrderID (ow_published w) = [''ord-fb-shop-7'', ''ord-fb-shop-7''])"
proof (intro conjI impI)
  assume "CHR ''-'' \<notin> set c" "CHR ''-'' \<notin> set c'" "buildInternalOrderID c e = buildInternalOrderID c' e'"
  then show "c = c'" "e = e'" using append_sep_eq [of "CHR ''-''" c c' e e']
    by (simp_all add: buildInternalOrderID_def)
next
  have "(case orderAggregatorWorkflow sample_order_deps ''t1''
        [sample_channel_order ''fb'' ''shop-7'', sample_channel_order ''fb-shop'' ''7''] (order_start 0) of
      (w, res) \<Rightarrow> map on_OrderID (ow_published w) = [''ord-fb-shop-7'', ''ord-fb-shop-7''])" by code_simp
  then show "\<exists>w res. orderAggregatorWorkflow sample_order_deps ''t1''
        [sample_channel_order ''fb'' ''shop-7'', sample_channel_order ''fb-shop'' ''7''] (order_start 0) = (w, res)
      \<and> map on_OrderID (ow_published w) = [''ord-fb-shop-7'', ''ord-fb-shop-7'']" by (auto split: prod.splits)
qed

end
