(* ===== verification/AusForms.thy ===== *)
theory AusForms
  imports Go_Encoding
begin

text \<open>
  Australian business forms (\<open>internal/au\<close>): goods-and-services tax in cents (\<open>gst\<close>), business
  numbers with their checksum (\<open>abn\<close>), bank branch numbers (\<open>bsb\<close>), phone numbers
  (\<open>auphone\<close>), article numbers and slugs (\<open>sku\<close>). Ranging over a string as runes and writing the runes back
  replaces every invalid byte by U+FFFD; that is \<open>utf8_clean\<close>.
\<close>

datatype au_error =
    ErrNegative | ErrTooLarge | ErrABNFormat | ErrBSBFormat | ErrPhoneFormat | ErrPhoneUnsupported | ErrSKUEmpty

subsection \<open>Goods and services tax\<close>

text \<open>The constant \<open>(math.MaxInt64-1)*10/11\<close> is evaluated exactly by the compiler.\<close>

definition gst_limit :: int where "gst_limit = (max_int64 - 1) * 10 div 11"

definition gst_add :: "int \<Rightarrow> au_error + int" where
  "gst_add exCents =
     (if exCents < 0 then Err ErrNegative
      else if gst_limit < exCents then Err ErrTooLarge
      else let q = quot exCents 10; r = rem exCents 10; gst = (if 10 \<le> mul64 2 r then add64 q 1 else q)
           in Ok (add64 exCents gst))"

definition gst_fromInclusive :: "int \<Rightarrow> au_error + int \<times> int" where
  "gst_fromInclusive incCents =
     (if incCents < 0 then Err ErrNegative
      else let q = quot incCents 11; r = rem incCents 11; gst = (if 11 \<le> mul64 2 r then add64 q 1 else q)
           in Ok (sub64 incCents gst, gst))"

lemma gst_rem: "0 \<le> n \<Longrightarrow> 0 < m \<Longrightarrow> m \<le> 11 \<Longrightarrow> mul64 2 (rem n m) = 2 * (n mod m)"
proof -
  assume "0 \<le> n" "0 < m" "m \<le> 11"
  then have "0 \<le> n mod m" "n mod m < m" by simp_all
  then have "0 \<le> n mod m" "n mod m < 11" using \<open>m \<le> 11\<close> by linarith+
  then have "in_int64 (2 * (n mod m))" unfolding in_int64_iff by linarith
  then show ?thesis using \<open>0 \<le> n\<close> \<open>0 < m\<close> by simp
qed

lemma that_div: "\<exists>q r. ex = 10 * q + r \<and> 0 \<le> r \<and> r < (10::int) \<and> (0 \<le> ex \<longrightarrow> 0 \<le> q)"
  by (intro exI [of _ "ex div 10"] exI [of _ "ex mod 10"]) (simp add: pos_imp_zdiv_nonneg_iff)

text \<open>The tax is rounded half up, never overflows, and can be taken out again. For every amount: a
  negative one and one above the limit are refused; otherwise the tax added is a tenth, rounded
  half up, the sum is exact, and splitting the sum gives back the amount and the tax. The limit
  refuses one amount whose sum would still be in range.\<close>

theorem gst_exact:
  "(if ex < 0 then gst_add ex = Err ErrNegative
    else if gst_limit < ex then gst_add ex = Err ErrTooLarge
    else gst_add ex = Ok (ex + (ex + 5) div 10) \<and> in_int64 (ex + (ex + 5) div 10)
      \<and> gst_fromInclusive (ex + (ex + 5) div 10) = Ok (ex, (ex + 5) div 10))
   \<and> gst_add (gst_limit + 1) = Err ErrTooLarge \<and> (gst_limit + 1) + (gst_limit + 1 + 5) div 10 = max_int64"
proof (intro conjI)
  have l: "gst_limit = 8384883669867978005" by (simp add: gst_limit_def)
  show "gst_add (gst_limit + 1) = Err ErrTooLarge" by (simp add: gst_add_def l)
  show "(gst_limit + 1) + (gst_limit + 1 + 5) div 10 = max_int64" by (simp add: l)
  show "if ex < 0 then gst_add ex = Err ErrNegative
    else if gst_limit < ex then gst_add ex = Err ErrTooLarge
    else gst_add ex = Ok (ex + (ex + 5) div 10) \<and> in_int64 (ex + (ex + 5) div 10)
      \<and> gst_fromInclusive (ex + (ex + 5) div 10) = Ok (ex, (ex + 5) div 10)"
  proof (cases "0 \<le> ex \<and> ex \<le> gst_limit")
    case True
    obtain q r where ex: "ex = 10 * q + r" "0 \<le> r" "r < 10" "0 \<le> q" "10 * q + r \<le> 8384883669867978005"
      using that_div [of ex] True unfolding l by auto
    define t where "t = (if 5 \<le> r then 1 else (0::int))"
    have t: "(ex + 5) div 10 = q + t" "0 \<le> t" "t \<le> 1" "r + t \<le> 10" using ex by (auto simp: t_def)
    have inc: "ex + (ex + 5) div 10 = 11 * q + (r + t)" using ex(1) t(1) by simp
    have d: "ex div 10 = q" "ex mod 10 = r" "(11 * q + (r + t)) div 11 = q" "(11 * q + (r + t)) mod 11 = r + t"
      using ex t by (simp_all add: mod_pos_pos_trivial div_pos_pos_trivial)
    have w: "wrap64 (q + 1) = q + 1" "wrap64 (ex + (q + t)) = ex + (q + t)" "wrap64 q = q" "wrap64 ex = ex"
      using ex t(2,3) by (simp_all add: in_int64_iff)
    have "gst_add ex = Ok (ex + (q + t))"
      using True gst_rem [of ex 10] d(1,2) w t by (auto simp: gst_add_def Let_def t_def)
    moreover have "gst_fromInclusive (11 * q + (r + t)) = Ok (ex, q + t)"
      using gst_rem [of "11 * q + (r + t)" 11] d(3,4) w(1,4) ex t(2,3)
      by (auto simp: gst_fromInclusive_def Let_def t_def)
    moreover have "in_int64 (11 * q + (r + t))" using ex t(2,3) by (simp add: in_int64_iff)
    ultimately show ?thesis using True t(1) ex(1) unfolding inc by simp
  qed (auto simp: gst_add_def)
qed

subsection \<open>Business numbers\<close>

definition abnWeights :: "int list" where "abnWeights = [10, 1, 3, 5, 7, 9, 11, 13, 15, 17, 19]"

definition abn_normalize :: "string \<Rightarrow> au_error + string" where
  "abn_normalize s =
     (if length s < 11 then Err ErrABNFormat
      else let digits = filter (\<lambda>c. c \<noteq> CHR '' '') s in
        if \<not> list_all is_digit digits then Err ErrABNFormat
        else if length digits \<noteq> 11 then Err ErrABNFormat
        else Ok digits)"

abbreviation dval :: "char \<Rightarrow> int" where "dval c \<equiv> int (digit_val c)"

text \<open>The loop from the second digit on.\<close>

definition abn_sum :: "string \<Rightarrow> int" where
  "abn_sum digits =
     foldl (\<lambda>sum i. sum + dval (digits ! i) * (abnWeights ! i)) ((dval (digits ! 0) - 1) * (abnWeights ! 0)) [1..<11]"

definition abn_valid :: "string \<Rightarrow> bool" where
  "abn_valid s =
     (case abn_normalize s of
        Err _ \<Rightarrow> False
      | Ok digits \<Rightarrow> digits ! 0 \<noteq> CHR ''0'' \<and> abn_sum digits mod 89 = 0)"

definition abn_format :: "string \<Rightarrow> au_error + string" where
  "abn_format s =
     (case abn_normalize s of
        Err e \<Rightarrow> Err e
      | Ok ds \<Rightarrow> Ok (take 2 ds @ '' '' @ take 3 (drop 2 ds) @ '' '' @ take 3 (drop 5 ds) @ '' '' @ take 3 (drop 8 ds)))"

lemma abn_normalize_Ok:
  "abn_normalize s = Ok ds \<Longrightarrow> length ds = 11 \<and> list_all is_digit ds \<and> abn_normalize ds = Ok ds"
  by (auto simp: abn_normalize_def Let_def list_all_iff is_digit_def filter_id_conv split: if_splits)

lemma digit_not_space: "is_digit c \<Longrightarrow> c \<noteq> CHR '' ''"
  by (auto simp: is_digit_def)

lemma abn_normalize_digits: "length ds = 11 \<Longrightarrow> list_all is_digit ds \<Longrightarrow> abn_normalize ds = Ok ds"
proof -
  assume a: "length ds = 11" "list_all is_digit ds"
  then have "filter (\<lambda>c. c \<noteq> CHR '' '') ds = ds" by (auto simp: filter_id_conv list_all_iff dest: digit_not_space)
  then show ?thesis using a by (simp add: abn_normalize_def)
qed

lemma dval_range: "is_digit c \<Longrightarrow> 0 \<le> dval c \<and> dval c \<le> 9"
  by (simp add: is_digit_def digit_val_def)

lemma dval_inj: "is_digit c \<Longrightarrow> is_digit d \<Longrightarrow> dval c = dval d \<Longrightarrow> c = d"
proof -
  assume a: "is_digit c" "is_digit d" "dval c = dval d"
  then have "(of_char c :: nat) = of_char d" by (simp add: is_digit_def digit_val_def)
  then show "c = d" by (metis char_of_char)
qed

lemma less_11:
  "(i::nat) < 11 \<Longrightarrow> i = 0 \<or> i = 1 \<or> i = 2 \<or> i = 3 \<or> i = 4 \<or> i = 5 \<or> i = 6 \<or> i = 7 \<or> i = 8 \<or> i = 9 \<or> i = 10"
  by (auto simp: numeral_eq_Suc less_Suc_eq)

lemma abn_sum_explicit:
  "abn_sum ds = (dval (ds ! 0) - 1) * 10 + dval (ds ! 1) + dval (ds ! 2) * 3 + dval (ds ! 3) * 5 + dval (ds ! 4) * 7
     + dval (ds ! 5) * 9 + dval (ds ! 6) * 11 + dval (ds ! 7) * 13 + dval (ds ! 8) * 15 + dval (ds ! 9) * 17 + dval (ds ! 10) * 19"
proof -
  have u: "[1..<11] = [1, 2, 3, 4, 5, 6, 7, 8, 9, 10]" by code_simp
  show ?thesis unfolding abn_sum_def abnWeights_def u by simp
qed

lemma abn_sum_split:
  assumes "length ds = 11" and "i < 11"
  shows "abn_sum (ds[i := c]) = abn_sum ds + (dval c - dval (ds ! i)) * abnWeights ! i"
  using less_11 [OF assms(2)] assms(1)
  by (elim disjE) (simp_all add: abn_sum_explicit abnWeights_def algebra_simps)

text \<open>Changing digits by an amount that 89 does not divide breaks the checksum.\<close>

lemma dvd_89_small: "89 dvd d * w \<Longrightarrow> coprime 89 w \<Longrightarrow> - 9 \<le> d \<Longrightarrow> d \<le> 9 \<Longrightarrow> d = (0::int)"
  by (rule ccontr) (auto simp: coprime_dvd_mult_left_iff dest!: dvd_imp_le_int)

lemma coprime_89: "i < 11 \<Longrightarrow> coprime 89 (abnWeights ! i)" "coprime 89 (9::int)" "coprime 89 (- 2 :: int)"
proof -
  have "list_all (coprime 89) abnWeights" by code_simp
  moreover have "length abnWeights = 11" by (simp add: abnWeights_def)
  ultimately show "i < 11 \<Longrightarrow> coprime 89 (abnWeights ! i)" by (simp add: list_all_length)
  show "coprime 89 (9::int)" "coprime 89 (- 2 :: int)" by code_simp+
qed

lemma abn_sum_swap:
  assumes "length ds = 11" and "i < 10"
  shows "abn_sum (ds[i := ds ! (i + 1), i + 1 := ds ! i])
    = abn_sum ds + (dval (ds ! (i + 1)) - dval (ds ! i)) * (if i = 0 then 9 else - 2)"
proof -
  have "i = 0 \<or> i = 1 \<or> i = 2 \<or> i = 3 \<or> i = 4 \<or> i = 5 \<or> i = 6 \<or> i = 7 \<or> i = 8 \<or> i = 9"
    using assms(2) by auto
  then show ?thesis using assms(1)
    by (elim disjE) (simp_all add: abn_sum_explicit algebra_simps del: One_nat_def)
qed

lemma list_all_update: "list_all P xs \<Longrightarrow> P c \<Longrightarrow> list_all P (xs[i := c])"
  using set_update_subset_insert [of xs i c] by (auto simp: list_all_iff)

lemma abn_valid_digits:
  "length ds = 11 \<Longrightarrow> list_all is_digit ds \<Longrightarrow> abn_valid ds \<longleftrightarrow> ds ! 0 \<noteq> CHR ''0'' \<and> 89 dvd abn_sum ds"
  by (simp add: abn_valid_def abn_normalize_digits dvd_eq_mod_eq_0)

lemma abn_valid_normal: "abn_normalize s = Ok ds \<Longrightarrow> abn_valid s = abn_valid ds"
  by (frule abn_normalize_Ok) (simp add: abn_valid_def)

lemma dval_diff: "is_digit c \<Longrightarrow> is_digit d \<Longrightarrow> - 9 \<le> dval c - dval d \<and> dval c - dval d \<le> 9"
  using dval_range [of c] dval_range [of d] by linarith

lemma abn_format_keeps:
  assumes "abn_normalize s = Ok ds"
  shows "\<exists>t. abn_format s = Ok t \<and> length t = 14 \<and> abn_normalize t = Ok ds"
proof -
  note n = abn_normalize_Ok [OF assms]
  let ?t = "take 2 ds @ '' '' @ take 3 (drop 2 ds) @ '' '' @ take 3 (drop 5 ds) @ '' '' @ take 3 (drop 8 ds)"
  have "take 5 ds = take 2 ds @ take 3 (drop 2 ds)" "take 8 ds = take 5 ds @ take 3 (drop 5 ds)"
    "take 11 ds = take 8 ds @ take 3 (drop 8 ds)" "take 11 ds = ds"
    using n take_add [of 2 3 ds] take_add [of 5 3 ds] take_add [of 8 3 ds] by simp_all
  then have p: "take 2 ds @ take 3 (drop 2 ds) @ take 3 (drop 5 ds) @ take 3 (drop 8 ds) = ds"
    by (metis append.assoc)
  have "filter (\<lambda>c. c \<noteq> CHR '' '') ?t = filter (\<lambda>c. c \<noteq> CHR '' '') (take 2 ds @ take 3 (drop 2 ds) @ take 3 (drop 5 ds) @ take 3 (drop 8 ds))"
    by simp
  also have "\<dots> = ds" unfolding p using n by (auto simp: filter_id_conv list_all_iff dest: digit_not_space)
  finally have "abn_normalize ?t = Ok ds" using n by (simp add: abn_normalize_def)
  moreover have "length ?t = 14" using n by simp
  ultimately show ?thesis using assms by (simp add: abn_format_def)
qed

text \<open>The checksum catches every wrong digit and every swap of neighbours. Let a business number
  be valid and normalise to \<open>ds\<close>: no number that differs from \<open>ds\<close> in exactly one digit is
  valid, and none where two different neighbouring digits are swapped. Formatting keeps the number:
  the formatted text is 14 bytes long, normalises to \<open>ds\<close> again and is as valid as it was.\<close>

theorem abn_detects_errors:
  assumes valid: "abn_valid s" and ds: "abn_normalize s = Ok ds"
  shows "(\<forall>i < 11. \<forall>c. is_digit c \<longrightarrow> c \<noteq> ds ! i \<longrightarrow> \<not> abn_valid (ds[i := c]))
    \<and> (\<forall>i < 10. ds ! i \<noteq> ds ! (i + 1) \<longrightarrow> \<not> abn_valid (ds[i := ds ! (i + 1), i + 1 := ds ! i]))
    \<and> (\<exists>t. abn_format s = Ok t \<and> length t = 14 \<and> abn_normalize t = Ok ds \<and> abn_valid t)"
proof -
  note n = abn_normalize_Ok [OF ds]
  then have dig: "i < 11 \<Longrightarrow> is_digit (ds ! i)" for i by (simp add: list_all_length)
  have v: "89 dvd abn_sum ds" using valid n by (simp add: abn_valid_normal [OF ds] abn_valid_digits)
  have 1: "\<not> abn_valid (ds[i := c])" if i: "i < 11" "is_digit c" "c \<noteq> ds ! i" for i c
  proof
    assume a: "abn_valid (ds[i := c])"
    have "list_all is_digit (ds[i := c])" using n i(2) by (simp add: list_all_update)
    then have "89 dvd abn_sum (ds[i := c])" using a n by (simp add: abn_valid_digits)
    then have "89 dvd (dval c - dval (ds ! i)) * abnWeights ! i"
      using v n i(1) by (simp add: abn_sum_split dvd_add_right_iff)
    then have "dval c = dval (ds ! i)"
      using dvd_89_small coprime_89(1) [OF i(1)] dval_diff [OF i(2) dig [OF i(1)]] by fastforce
    then show False using dval_inj i dig by blast
  qed
  have 2: "\<not> abn_valid (ds[i := ds ! (i + 1), i + 1 := ds ! i])" if i: "i < 10" "ds ! i \<noteq> ds ! (i + 1)" for i
  proof
    assume a: "abn_valid (ds[i := ds ! (i + 1), i + 1 := ds ! i])"
    have "list_all is_digit (ds[i := ds ! (i + 1), i + 1 := ds ! i])"
      using n i(1) dig by (simp add: list_all_update)
    then have "89 dvd abn_sum (ds[i := ds ! (i + 1), i + 1 := ds ! i])" using a n by (simp add: abn_valid_digits)
    then have "89 dvd (dval (ds ! (i + 1)) - dval (ds ! i)) * (if i = 0 then 9 else - 2)"
      using v n i(1) by (simp only: abn_sum_swap dvd_add_right_iff)
    then have "dval (ds ! (i + 1)) = dval (ds ! i)"
      using dvd_89_small [of "dval (ds ! (i + 1)) - dval (ds ! i)" "if i = 0 then 9 else - 2"] coprime_89(2,3)
        dval_diff [of "ds ! (i + 1)" "ds ! i"] dig [of i] dig [of "i + 1"] i(1) by (simp split: if_splits)
    then show False using dval_inj [of "ds ! (i + 1)" "ds ! i"] i dig [of i] dig [of "i + 1"] by simp
  qed
  obtain t where "abn_format s = Ok t" "length t = 14" "abn_normalize t = Ok ds" using abn_format_keeps [OF ds] by blast
  moreover have "abn_valid t" using valid abn_valid_normal [OF ds] abn_valid_normal [OF calculation(3)] by simp
  ultimately show ?thesis using 1 2 by blast
qed

theorem abn_detects_errors_witness:
  "abn_valid ''51 824 753 556'' \<and> \<not> abn_valid (''51824753556''[10 := CHR ''7''])
   \<and> \<not> abn_valid (''51824753556''[0 := CHR ''1'', 1 := CHR ''5''])"
proof -
  have v: "abn_valid ''51 824 753 556''" by code_simp
  have "abn_normalize ''51 824 753 556'' = Ok ''51824753556''" by code_simp
  note a = abn_detects_errors [OF v this]
  have "\<not> abn_valid (''51824753556''[10 := CHR ''7''])"
    by (rule a [THEN conjunct1, rule_format]) (simp_all add: is_digit_def)
  moreover have "\<not> abn_valid (''51824753556''[0 := CHR ''1'', 1 := CHR ''5''])"
    using a [THEN conjunct2, THEN conjunct1, rule_format, of 0] by simp
  ultimately show ?thesis using v by blast
qed

subsection \<open>Bank branches and phone numbers\<close>

definition bsb_normalize :: "string \<Rightarrow> au_error + string" where
  "bsb_normalize raw =
     (let s = filter (\<lambda>c. \<not> (c = CHR '' '' \<or> c = CHR ''-'')) (utf8_clean (trim_space raw)) in
      if length s \<noteq> 6 then Err ErrBSBFormat
      else if \<not> list_all is_digit s then Err ErrBSBFormat
      else Ok s)"

definition bsb_format :: "string \<Rightarrow> au_error + string" where
  "bsb_format raw =
     (case bsb_normalize raw of
        Err e \<Rightarrow> Err e
      | Ok n \<Rightarrow> Ok (take 3 n @ ''-'' @ drop 3 n))"

definition bsb_valid :: "string \<Rightarrow> bool" where
  "bsb_valid raw = is_ok (bsb_normalize raw)"

definition au_phone_clean :: "string \<Rightarrow> string" where
  "au_phone_clean s = filter (\<lambda>c. c \<notin> set ''( ).-'') (utf8_clean (if hd s = CHR ''+'' then tl s else s))"

definition au_phone_national :: "string \<Rightarrow> string" where
  "au_phone_national s =
     (let s = (if length s = 11 \<and> starts_with s ''61'' then drop 2 s
               else if length s = 12 \<and> starts_with s ''610'' then drop 3 s else s)
      in if length s = 10 \<and> s ! 0 = CHR ''0'' then tl s else s)"

definition auphone_normalize :: "string \<Rightarrow> au_error + string" where
  "auphone_normalize raw =
     (let s = trim_space raw in
      if s = [] then Err ErrPhoneFormat
      else let s = au_phone_clean s in
        if s = [] then Err ErrPhoneFormat
        else if \<not> list_all is_digit s then Err ErrPhoneFormat
        else let s = au_phone_national s in
          if length s \<noteq> 9 then Err ErrPhoneFormat
          else if s ! 0 = CHR ''0'' then Err ErrPhoneFormat
          else if s ! 0 \<in> set ''23478'' then Ok (''+61'' @ s)
          else Err ErrPhoneUnsupported)"

lemma digit_range: "is_digit c \<Longrightarrow> 48 \<le> byte c \<and> byte c \<le> 57"
  by (simp add: is_digit_def)

lemma digits_clean: "list_all is_digit s \<Longrightarrow> utf8_clean s = s"
  by (rule utf8_clean_valid, rule valid_utf8_ascii) (auto simp: list_all_iff dest!: digit_range)

lemma digits_printable: "list_all is_digit s \<Longrightarrow> printable s"
  unfolding printable_def list_all_iff using digit_range by fastforce

lemma printable_valid: "printable s \<Longrightarrow> valid_utf8 s"
  by (rule valid_utf8_ascii) (fastforce simp: printable_def list_all_iff)

lemma digits_filter: "list_all is_digit s \<Longrightarrow> \<forall>c \<in> set bad. \<not> is_digit c \<Longrightarrow> filter (\<lambda>c. c \<notin> set bad) s = s"
  by (auto simp: filter_id_conv list_all_iff)

lemma bsb_normalize_Ok: "bsb_normalize raw = Ok n \<Longrightarrow> length n = 6 \<and> list_all is_digit n"
  by (auto simp: bsb_normalize_def Let_def split: if_splits)

lemma bsb_format_normal:
  assumes "bsb_normalize raw = Ok n"
  shows "bsb_normalize (take 3 n @ ''-'' @ drop 3 n) = Ok n"
proof -
  note n = bsb_normalize_Ok [OF assms]
  have d: "list_all is_digit (take 3 n)" "list_all is_digit (drop 3 n)"
    using n by (auto simp: list_all_iff dest: in_set_takeD in_set_dropD)
  let ?t = "take 3 n @ ''-'' @ drop 3 n"
  have p: "printable ?t" using d [THEN digits_printable] by (auto simp: printable_def)
  have "valid_utf8 ?t" using p by (rule printable_valid)
  moreover have "filter (\<lambda>c. \<not> (c = CHR '' '' \<or> c = CHR ''-'')) m = m" if "list_all is_digit m" for m
    using that by (auto simp: filter_id_conv list_all_iff is_digit_def)
  then have "filter (\<lambda>c. \<not> (c = CHR '' '' \<or> c = CHR ''-'')) ?t = take 3 n @ drop 3 n"
    using d by simp
  ultimately show ?thesis using n p by (simp add: bsb_normalize_def trim_space_printable Let_def)
qed

lemma auphone_normalize_Ok:
  assumes "auphone_normalize raw = Ok t"
  shows "\<exists>d. t = ''+61'' @ d \<and> length d = 9 \<and> list_all is_digit d \<and> d ! 0 \<in> set ''23478''"
proof -
  let ?d = "au_phone_national (au_phone_clean (trim_space raw))"
  have "list_all is_digit (au_phone_clean (trim_space raw))" "length ?d = 9" "?d ! 0 \<in> set ''23478''" "t = ''+61'' @ ?d"
    using assms by (auto simp: auphone_normalize_def Let_def split: if_splits)
  moreover have "list_all is_digit s \<Longrightarrow> list_all is_digit (au_phone_national s)" for s
    by (auto simp: au_phone_national_def Let_def list_all_iff dest: in_set_dropD list.set_sel(2)[rotated])
  ultimately show ?thesis by blast
qed

lemma auphone_normal:
  assumes "length d = 9" "list_all is_digit d" "d ! 0 \<in> set ''23478''"
  shows "auphone_normalize (''+61'' @ d) = Ok (''+61'' @ d)"
proof -
  have i: "is_digit CHR ''6''" "is_digit CHR ''1''" by (simp_all add: is_digit_def)
  have a: "list_all is_digit (''61'' @ d)" using assms(2) i by simp
  have "printable (''+61'' @ d)" using digits_printable [OF a] by (auto simp: printable_def)
  then have t: "trim_space (''+61'' @ d) = ''+61'' @ d" by (rule trim_space_printable)
  have f: "filter (\<lambda>c. c \<notin> set ''( ).-'') (''61'' @ d) = ''61'' @ d"
    by (rule digits_filter [OF a]) (simp add: is_digit_def)
  have c: "au_phone_clean (''+61'' @ d) = ''61'' @ d"
    unfolding au_phone_clean_def using f digits_clean [OF a] by simp
  have n: "au_phone_national (''61'' @ d) = d" using assms(1) by (simp add: au_phone_national_def starts_with_def)
  have "d ! 0 \<noteq> CHR ''0''" using assms(3) by auto
  then show ?thesis unfolding auphone_normalize_def t Let_def c n using assms a by simp
qed

text \<open>A normalised number is a national one in E.164 form and normalises to itself. Whatever is
  accepted as a phone number becomes \<open>+61\<close> and nine digits of which the first is 2, 3, 4, 7 or 8,
  and that is accepted again unchanged; an accepted branch number is six digits, and its formatted
  form is accepted with the same digits. A leading plus does not make a number foreign to the code:
  a number of the Faroe Islands (country code 298) becomes an Australian one.\<close>

theorem au_numbers_normal:
  "(\<forall>t. auphone_normalize raw = Ok t \<longrightarrow>
      (\<exists>d. t = ''+61'' @ d \<and> length d = 9 \<and> list_all is_digit d \<and> d ! 0 \<in> set ''23478'') \<and> auphone_normalize t = Ok t)
   \<and> (\<forall>n. bsb_normalize raw = Ok n \<longrightarrow>
      length n = 6 \<and> list_all is_digit n \<and> (\<exists>f. bsb_format raw = Ok f \<and> length f = 7 \<and> bsb_normalize f = Ok n))
   \<and> auphone_normalize ''+298 12 34 56'' = Ok ''+61298123456''"
proof (intro conjI allI impI)
  show "auphone_normalize ''+298 12 34 56'' = Ok ''+61298123456''" by code_simp
next
  fix t assume "auphone_normalize raw = Ok t"
  from auphone_normalize_Ok [OF this] show "\<exists>d. t = ''+61'' @ d \<and> length d = 9 \<and> list_all is_digit d \<and> d ! 0 \<in> set ''23478''" .
  from auphone_normalize_Ok [OF \<open>auphone_normalize raw = Ok t\<close>] show "auphone_normalize t = Ok t"
    using auphone_normal by blast
next
  fix n assume n: "bsb_normalize raw = Ok n"
  then show "length n = 6" "list_all is_digit n" using bsb_normalize_Ok by blast+
  then show "\<exists>f. bsb_format raw = Ok f \<and> length f = 7 \<and> bsb_normalize f = Ok n"
    using n bsb_format_normal [OF n] by (simp add: bsb_format_def)
qed

theorem au_numbers_normal_witness:
  "auphone_normalize '' (02) 9812-3456'' = Ok ''+61298123456'' \<and> auphone_normalize ''+61298123456'' = Ok ''+61298123456''
   \<and> bsb_normalize ''062-000'' = Ok ''062000''"
proof -
  have "auphone_normalize '' (02) 9812-3456'' = Ok ''+61298123456''" "bsb_normalize ''062-000'' = Ok ''062000''" by code_simp+
  then show ?thesis using au_numbers_normal [of "'' (02) 9812-3456''"] by blast
qed

subsection \<open>Article numbers and slugs\<close>

definition sku_isAllowed :: "char \<Rightarrow> bool" where
  "sku_isAllowed c \<longleftrightarrow>
     0x41 \<le> byte c \<and> byte c \<le> 0x5A \<or> 0x61 \<le> byte c \<and> byte c \<le> 0x7A \<or> 0x30 \<le> byte c \<and> byte c \<le> 0x39 \<or> c = CHR ''-''"

definition collapse_step :: "string \<times> bool \<Rightarrow> char \<Rightarrow> string \<times> bool" where
  "collapse_step acc c =
     (if c = CHR ''-'' then if snd acc then acc else (fst acc @ [c], True)
      else (fst acc @ [c], False))"

definition collapseHyphens :: "string \<Rightarrow> string" where
  "collapseHyphens b =
     (let out = fst (foldl collapse_step ([], False) b);
          out = dropWhile (\<lambda>c. c = CHR ''-'') out
      in rev (dropWhile (\<lambda>c. c = CHR ''-'') (rev out)))"

definition sku_byte :: "bool \<Rightarrow> char \<Rightarrow> string" where
  "sku_byte upper c =
     (let c = (if upper \<and> 0x61 \<le> byte c \<and> byte c \<le> 0x7A then char_of (byte c - 0x20)
               else if \<not> upper \<and> 0x41 \<le> byte c \<and> byte c \<le> 0x5A then char_of (byte c + 0x20) else c)
      in if sku_isAllowed c then [c] else [])"

function sku_filter :: "bool \<Rightarrow> string \<Rightarrow> string" where
  "sku_filter upper s =
     (if s = [] then []
      else if utf8_len s = 0 then sku_filter upper (tl s)
      else let n = utf8_len s in
        (if take n s \<in> set white_space then if upper then [] else ''-''
         else if 1 < n then []
         else sku_byte upper (hd s)) @ sku_filter upper (drop n s))"
  by pat_completeness auto
termination
  by (relation "measure (\<lambda>(u, s). length s)") auto

declare sku_filter.simps [simp del]

definition sanitise :: "string \<Rightarrow> bool \<Rightarrow> au_error + string" where
  "sanitise raw upper =
     (if raw = [] then Err ErrSKUEmpty
      else let out = collapseHyphens (sku_filter upper raw) in
        if out = [] then Err ErrSKUEmpty else Ok out)"

definition normaliseSKU :: "string \<Rightarrow> au_error + string" where
  "normaliseSKU raw = sanitise (trim_space raw) True"

definition slug :: "string \<Rightarrow> au_error + string" where
  "slug raw = sanitise (trim_space raw) False"

definition hyphens_ok :: "string \<Rightarrow> bool" where
  "hyphens_ok t \<longleftrightarrow>
     t \<noteq> [] \<and> hd t \<noteq> CHR ''-'' \<and> last t \<noteq> CHR ''-'' \<and> successively (\<lambda>a b. a \<noteq> CHR ''-'' \<or> b \<noteq> CHR ''-'') t"

definition form_char :: "bool \<Rightarrow> char \<Rightarrow> bool" where
  "form_char upper c \<longleftrightarrow>
     0x30 \<le> byte c \<and> byte c \<le> 0x39 \<or> c = CHR ''-''
     \<or> (if upper then 0x41 \<le> byte c \<and> byte c \<le> 0x5A else 0x61 \<le> byte c \<and> byte c \<le> 0x7A)"

lemma sku_byte_form: "list_all (form_char upper) (sku_byte upper c)"
  by (auto simp: sku_byte_def form_char_def sku_isAllowed_def Let_def)

lemma form_char_kept: "form_char upper c \<Longrightarrow> sku_byte upper c = [c] \<and> 33 \<le> byte c \<and> byte c < 127"
  by (cases upper) (auto simp: sku_byte_def form_char_def sku_isAllowed_def Let_def)

lemma sku_filter_form: "list_all (form_char upper) (sku_filter upper s)"
proof (induction upper s rule: sku_filter.induct)
  case (1 upper s)
  have "form_char upper (CHR ''-'')" by (simp add: form_char_def)
  then show ?case using 1 by (subst sku_filter.simps) (auto simp: Let_def sku_byte_form)
qed

lemma printable_not_white: "33 \<le> byte c \<Longrightarrow> byte c < 127 \<Longrightarrow> [c] \<notin> set white_space"
proof -
  assume a: "33 \<le> byte c" "byte c < 127"
  have "list_all (\<lambda>w. \<not> (33 \<le> byte (hd w) \<and> byte (hd w) < 127)) white_space" by code_simp
  then show ?thesis using a by (auto simp: list_all_iff)
qed

lemma sku_filter_id: "list_all (form_char upper) t \<Longrightarrow> sku_filter upper t = t"
proof (induction t)
  case (Cons c t)
  then have c: "sku_byte upper c = [c]" "33 \<le> byte c" "byte c < 127" using form_char_kept by auto
  then have "[c] \<notin> set white_space" using printable_not_white by blast
  then show ?case using Cons c by (subst sku_filter.simps) (simp add: utf8_len_ascii Let_def)
qed (simp add: sku_filter.simps)

lemma collapse_fold:
  assumes "successively (\<lambda>a b. a \<noteq> CHR ''-'' \<or> b \<noteq> CHR ''-'') (fst st)" "snd st = (fst st \<noteq> [] \<and> last (fst st) = CHR ''-'')"
  shows "successively (\<lambda>a b. a \<noteq> CHR ''-'' \<or> b \<noteq> CHR ''-'') (fst (foldl collapse_step st b))
    \<and> set (fst (foldl collapse_step st b)) \<subseteq> set (fst st) \<union> set b"
  using assms
proof (induction b arbitrary: st)
  case (Cons c b)
  let ?st = "collapse_step st c"
  have "successively (\<lambda>a b. a \<noteq> CHR ''-'' \<or> b \<noteq> CHR ''-'') (fst ?st)" "snd ?st = (fst ?st \<noteq> [] \<and> last (fst ?st) = CHR ''-'')"
    "set (fst ?st) \<subseteq> set (fst st) \<union> {c}"
    using Cons.prems by (auto simp: collapse_step_def successively_append_iff)
  then show ?case using Cons.IH [of ?st] by auto
qed simp

lemma collapse_fold_id:
  assumes "successively (\<lambda>a b. a \<noteq> CHR ''-'' \<or> b \<noteq> CHR ''-'') b" "p \<longrightarrow> b = [] \<or> hd b \<noteq> CHR ''-''"
  shows "fst (foldl collapse_step (out, p) b) = out @ b"
  using assms
proof (induction b arbitrary: out p)
  case (Cons c b)
  then have "collapse_step (out, p) c = (out @ [c], c = CHR ''-'')" by (auto simp: collapse_step_def)
  moreover have "fst (foldl collapse_step (out @ [c], c = CHR ''-'') b) = (out @ [c]) @ b"
    by (rule Cons.IH) (use Cons.prems in \<open>cases b; simp\<close>)+
  ultimately show ?case by simp
qed simp

lemma successively_dropWhile: "successively P xs \<Longrightarrow> successively P (dropWhile Q xs)"
  by (induction xs) (auto simp: successively_Cons)

lemma dropWhile_ends:
  "dropWhile P xs \<noteq> [] \<Longrightarrow> \<not> P (hd (dropWhile P xs)) \<and> last (dropWhile P xs) = last xs"
  by (induction xs) auto

lemma dropWhile_id: "s \<noteq> [] \<Longrightarrow> \<not> P (hd s) \<Longrightarrow> dropWhile P s = s"
  by (cases s) auto

lemma collapse_result:
  assumes "t = collapseHyphens b" "t \<noteq> []"
  shows "hyphens_ok t \<and> set t \<subseteq> set b"
proof -
  let ?h = "\<lambda>c. c = CHR ''-''"
  let ?S = "successively (\<lambda>a b. a \<noteq> CHR ''-'' \<or> b \<noteq> CHR ''-'')"
  let ?o = "fst (foldl collapse_step ([], False) b)"
  let ?m = "dropWhile ?h ?o"
  have o: "?S ?o" "set ?o \<subseteq> set b" using collapse_fold [of "([], False)" b] by auto
  have t: "rev t = dropWhile ?h (rev ?m)" using assms(1) by (simp add: collapseHyphens_def Let_def)
  then have m: "?m \<noteq> []" using assms(2) by (metis dropWhile.simps(1) rev.simps(1) rev_is_Nil_conv)
  then have h: "\<not> ?h (hd ?m)" by (rule hd_dropWhile)
  have e: "\<not> ?h (hd (rev t)) \<and> last (rev t) = last (rev ?m)"
    unfolding t by (rule dropWhile_ends) (metis assms(2) rev_is_Nil_conv t)
  have "?S ?m" using o(1) by (rule successively_dropWhile)
  then have "successively (\<lambda>a b. b \<noteq> CHR ''-'' \<or> a \<noteq> CHR ''-'') (rev ?m)" by (simp add: successively_rev)
  then have "successively (\<lambda>a b. b \<noteq> CHR ''-'' \<or> a \<noteq> CHR ''-'') (rev t)" unfolding t by (rule successively_dropWhile)
  then have "?S t" by (simp add: successively_rev)
  moreover have "set t \<subseteq> set b"
    using o(2) t set_dropWhileD [of _ ?h "rev ?m"] set_dropWhileD [of _ ?h ?o] by (metis (no_types, lifting) set_rev subset_iff)
  ultimately show ?thesis using assms(2) e h m by (simp add: hyphens_ok_def hd_rev last_rev)
qed

lemma collapse_id: "hyphens_ok t \<Longrightarrow> collapseHyphens t = t"
  using collapse_fold_id [of t False "[]"] dropWhile_id [of "rev t"]
  by (simp add: hyphens_ok_def collapseHyphens_def Let_def dropWhile_id hd_rev)

text \<open>Slugs and article numbers are clean and stable. A slug consists of lower-case letters, digits and
  single hyphens between them, an article number of upper-case ones, and each is its own slug or article
  number, so identifiers that went through the function can be compared as strings.\<close>

theorem sku_slug_stable:
  "(\<forall>t. slug raw = Ok t \<longrightarrow> hyphens_ok t \<and> list_all (form_char False) t \<and> slug t = Ok t)
   \<and> (\<forall>t. normaliseSKU raw = Ok t \<longrightarrow> hyphens_ok t \<and> list_all (form_char True) t \<and> normaliseSKU t = Ok t)"
proof -
  have "hyphens_ok t \<and> list_all (form_char u) t \<and> sanitise (trim_space t) u = Ok t"
    if s: "sanitise (trim_space raw) u = Ok t" for u t
  proof -
    have t: "t = collapseHyphens (sku_filter u (trim_space raw))" "t \<noteq> []"
      using s by (auto simp: sanitise_def Let_def split: if_splits)
    from collapse_result [OF this] have h: "hyphens_ok t" and f: "list_all (form_char u) t"
      using sku_filter_form [of u "trim_space raw"] by (auto simp: list_all_iff)
    have "printable t" using f form_char_kept by (auto simp: printable_def list_all_iff)
    then have "trim_space t = t" by (rule trim_space_printable)
    then show ?thesis using h f t(2) by (simp add: sanitise_def sku_filter_id collapse_id)
  qed
  then show ?thesis unfolding slug_def normaliseSKU_def by blast
qed

theorem sku_slug_stable_witness:
  "slug '' Red  Widget - XL '' = Ok ''red-widget-xl'' \<and> slug ''red-widget-xl'' = Ok ''red-widget-xl''"
proof -
  have "slug '' Red  Widget - XL '' = Ok ''red-widget-xl''" by code_simp
  then show ?thesis using sku_slug_stable [of "'' Red  Widget - XL ''"] by blast
qed

end
