(* ===== verification/AusWords.thy ===== *)
theory AusWords
  imports Go_Prelude
begin

text \<open>
  Amounts of money in English words (\<open>internal/au/audwords\<close>), and a reader of such words, with which
  the rendering is shown to lose nothing.
\<close>

datatype words_error = WordsNegative | WordsTooLarge

definition ones :: "string list" where
  "ones = ['''', ''one'', ''two'', ''three'', ''four'', ''five'', ''six'', ''seven'', ''eight'', ''nine'']"

definition teens :: "string list" where
  "teens = [''ten'', ''eleven'', ''twelve'', ''thirteen'', ''fourteen'', ''fifteen'', ''sixteen'', ''seventeen'',
     ''eighteen'', ''nineteen'']"

definition tens :: "string list" where
  "tens = ['''', '''', ''twenty'', ''thirty'', ''forty'', ''fifty'', ''sixty'', ''seventy'', ''eighty'', ''ninety'']"

definition renderBelow100 :: "nat \<Rightarrow> string" where
  "renderBelow100 n =
     (if n < 10 then ones ! n
      else if n < 20 then teens ! (n - 10)
      else let t = n div 10; u = n mod 10 in
        if u = 0 then tens ! t else tens ! t @ ''-'' @ ones ! u)"

definition renderBelow1000 :: "nat \<Rightarrow> string" where
  "renderBelow1000 n =
     (if n = 0 then ''''
      else if n < 100 then renderBelow100 n
      else let h = n div 100; rest = n mod 100 in
        if rest = 0 then ones ! h @ '' hundred'' else ones ! h @ '' hundred '' @ renderBelow100 rest)"

definition words :: "int \<Rightarrow> words_error + string" where
  "words cents =
     (if cents < 0 then Err WordsNegative
      else if 99999999999 < cents then Err WordsTooLarge
      else
        let dollars = quot cents 100;
            c = nat (rem cents 100);
            millions = nat (quot dollars 1000000);
            thousands = nat (rem (quot dollars 1000) 1000);
            rest = nat (rem dollars 1000);
            dparts = (if 0 < millions then [renderBelow1000 millions @ '' million''] else [])
              @ (if 0 < thousands then [renderBelow1000 thousands @ '' thousand''] else [])
              @ (if 0 < rest then [renderBelow1000 rest] else []);
            dparts = (if dparts = [] then [''zero''] else dparts);
            cword = (if c = 0 then ''zero'' else renderBelow100 c);
            dword = (if dollars = 1 then ''dollar'' else ''dollars'');
            ccent = (if c = 1 then ''cent'' else ''cents'')
        in Ok (join_with '' '' dparts @ '' '' @ dword @ '' and '' @ cword @ '' '' @ ccent))"

subsection \<open>Reading words\<close>

text \<open>The state of the reader: the cents of the dollars already read, the closed groups, the open group.\<close>

type_synonym reader = "nat \<times> nat \<times> nat"

definition small_numbers :: "(string \<times> nat) list" where
  "small_numbers = zip (tl ones) [1..<10] @ zip teens [10..<20] @ zip (drop 2 tens) [20, 30, 40, 50, 60, 70, 80, 90]"

definition number_of_word :: "string \<Rightarrow> nat" where
  "number_of_word w =
     sum_list (map (\<lambda>v. case map_of small_numbers v of None \<Rightarrow> 0 | Some n \<Rightarrow> n) (split_on CHR ''-'' w))"

definition read_word :: "reader \<Rightarrow> string \<Rightarrow> reader" where
  "read_word r w =
     (case r of (d, t, g) \<Rightarrow>
        if w = ''hundred'' then (d, t, 100 * g)
        else if w = ''thousand'' then (d, t + 1000 * g, 0)
        else if w = ''million'' then (d, t + 1000000 * g, 0)
        else if w = ''dollar'' \<or> w = ''dollars'' then (100 * (t + g), 0, 0)
        else if w = ''cent'' \<or> w = ''cents'' then (d + t + g, 0, 0)
        else (d, t, g + number_of_word w))"

definition read_from :: "reader \<Rightarrow> string \<Rightarrow> reader" where
  "read_from r s = foldl read_word r (split_on CHR '' '' s)"

definition read_words :: "string \<Rightarrow> nat" where
  "read_words s = fst (read_from (0, 0, 0) s)"

lemma split_on_glue: "split_on c (a @ c # b) = split_on c a @ split_on c b"
  by (induction a) (auto split: list.splits)

lemma read_from_glue: "read_from r (a @ CHR '' '' # b) = read_from (read_from r a) b"
  by (simp add: read_from_def split_on_glue)

lemma read_below_100:
  assumes "0 < n" "n < 100"
  shows "read_from (d, t, g) (renderBelow100 n) = (d, t, g + n)"
proof -
  let ?keys = "[''hundred'', ''thousand'', ''million'', ''dollar'', ''dollars'', ''cent'', ''cents'']"
  have "list_all (\<lambda>n. CHR '' '' \<notin> set (renderBelow100 n) \<and> renderBelow100 n \<notin> set ?keys
      \<and> number_of_word (renderBelow100 n) = n) [1..<100]"
    by code_simp
  moreover have "n \<in> set [1..<100]" using assms by simp
  ultimately have w: "CHR '' '' \<notin> set (renderBelow100 n)" "renderBelow100 n \<notin> set ?keys"
    "number_of_word (renderBelow100 n) = n" unfolding list_all_iff by blast+
  show ?thesis unfolding read_from_def split_on_no_sep [OF w(1)] using w(2,3) by (simp add: read_word_def)
qed

lemma read_keywords:
  "read_from (d, t, g) ''hundred'' = (d, t, 100 * g)"
  "read_from (d, t, g) ''thousand'' = (d, t + 1000 * g, 0)"
  "read_from (d, t, g) ''million'' = (d, t + 1000000 * g, 0)"
  "read_from (d, t, g) ''dollar'' = (100 * (t + g), 0, 0)"
  "read_from (d, t, g) ''dollars'' = (100 * (t + g), 0, 0)"
  "read_from (d, t, g) ''cent'' = (d + t + g, 0, 0)"
  "read_from (d, t, g) ''cents'' = (d + t + g, 0, 0)"
  by (simp_all add: read_from_def read_word_def)

lemma read_fillers: "read_from (d, t, g) ''zero'' = (d, t, g)" "read_from (d, t, g) ''and'' = (d, t, g)"
proof -
  have "number_of_word ''zero'' = 0" "number_of_word ''and'' = 0" by code_simp+
  then show "read_from (d, t, g) ''zero'' = (d, t, g)" "read_from (d, t, g) ''and'' = (d, t, g)"
    by (simp_all add: read_from_def read_word_def)
qed

lemmas read_glue_words =
  read_from_glue [where a = "''hundred''", simplified] read_from_glue [where a = "''and''", simplified]
  read_from_glue [where a = "''million''", simplified] read_from_glue [where a = "''thousand''", simplified]

lemma read_below_1000:
  assumes "0 < n" "n < 1000"
  shows "read_from (d, t, 0) (renderBelow1000 n) = (d, t, n)"
proof (cases "n < 100")
  case False
  let ?h = "n div 100"
  have h: "0 < ?h" "?h < 100" "ones ! ?h = renderBelow100 ?h" using False assms(2) by (auto simp: renderBelow100_def)
  have n: "100 * ?h + n mod 100 = n" by simp
  note r = read_below_100 [OF h(1,2), of d t 0]
  show ?thesis
  proof (cases "n mod 100 = 0")
    case True
    then show ?thesis using False n h(3) r by (simp add: renderBelow1000_def read_from_glue read_keywords)
  next
    case rest: False
    then show ?thesis using False n h(3) r read_below_100 [of "n mod 100" d t "100 * ?h"]
      by (simp add: renderBelow1000_def read_from_glue read_glue_words read_keywords Let_def)
  qed
qed (use assms read_below_100 [of n d t 0] in \<open>simp add: renderBelow1000_def\<close>)

lemma read_dparts:
  assumes "m < 1000" "k < 1000" "r < 1000"
    and "ps = (if 0 < m then [renderBelow1000 m @ '' million''] else [])
          @ (if 0 < k then [renderBelow1000 k @ '' thousand''] else [])
          @ (if 0 < r then [renderBelow1000 r] else [])"
  shows "read_from (0, 0, 0) (join_with '' '' (if ps = [] then [''zero''] else ps)) = (0, 1000000 * m + 1000 * k, r)"
  using assms read_below_1000
  by (cases "m = 0"; cases "k = 0"; cases "r = 0") (simp_all add: read_from_glue read_glue_words read_keywords read_fillers)

lemma words_read:
  assumes "m < 1000" "k < 1000" "r < 1000" "c < 100" "dword \<in> {''dollar'', ''dollars''}" "ccent \<in> {''cent'', ''cents''}"
    and "ps = (if 0 < m then [renderBelow1000 m @ '' million''] else [])
          @ (if 0 < k then [renderBelow1000 k @ '' thousand''] else [])
          @ (if 0 < r then [renderBelow1000 r] else [])"
  shows "read_words (join_with '' '' (if ps = [] then [''zero''] else ps) @ '' '' @ dword @ '' and ''
      @ (if c = 0 then ''zero'' else renderBelow100 c) @ '' '' @ ccent)
    = 100 * (1000000 * m + 1000 * k + r) + c"
proof -
  have c: "read_from (d, 0, 0) (if c = 0 then ''zero'' else renderBelow100 c) = (d, 0, c)" for d
    using read_below_100 [of c d 0 0] assms(4) by (simp add: read_fillers)
  have d: "read_from (0, t, g) dword = (100 * (t + g), 0, 0)" for t g using assms(5) by (auto simp: read_keywords)
  have e: "read_from (d, 0, g) ccent = (d + g, 0, 0)" for d g using assms(6) by (auto simp: read_keywords)
  show ?thesis
    unfolding read_words_def append_Cons append_Nil append_assoc read_from_glue read_dparts [OF assms(1-3,7)] d
      read_glue_words read_fillers c e by simp
qed

lemma groups_sum:
  "a = 1000 * b + k \<Longrightarrow> D = 1000 * a + r \<Longrightarrow> n = 100 * D + c \<Longrightarrow> 100 * (1000000 * b + 1000 * k + r) + c = (n::nat)"
  by simp

text \<open>C33: An amount can be read back from its words. Every amount from zero up to 999,999,999 dollars and
  99 cents is rendered, and a reader that knows the small numbers, \<open>hundred\<close>, \<open>thousand\<close>, \<open>million\<close> and
  the two units gets the same amount from the words; so no two amounts have the same words. Every other
  amount is refused.\<close>

theorem amount_read_back:
  "if cents < 0 then words cents = Err WordsNegative
   else if 99999999999 < cents then words cents = Err WordsTooLarge
   else \<exists>t. words cents = Ok t \<and> int (read_words t) = cents"
proof (cases "0 \<le> cents \<and> cents \<le> 99999999999")
  case True
  define n where "n = nat cents"
  let ?D = "n div 100"
  have n: "cents = int n" "n < 100000000000" using True unfolding n_def by linarith+
  have D: "quot cents 100 = int ?D" "nat (rem cents 100) = n mod 100"
    "nat (quot (int ?D) 1000000) = ?D div 1000000" "nat (rem (quot (int ?D) 1000) 1000) = ?D div 1000 mod 1000"
    "nat (rem (int ?D) 1000) = ?D mod 1000"
    by (simp_all add: n(1) nat_div_distrib nat_mod_distrib quot_nonneg zdiv_int zmod_int)
  have m: "?D div 1000000 < 1000" using n(2) by (simp add: less_mult_imp_div_less)
  have m': "?D div 1000000 = ?D div 1000 div 1000" using div_mult2_eq [of ?D 1000 1000] by simp
  have sum: "100 * (1000000 * (?D div 1000000) + 1000 * (?D div 1000 mod 1000) + ?D mod 1000) + n mod 100 = n"
    unfolding m' by (rule groups_sum) (rule mult_div_mod_eq [symmetric])+
  note w = words_read [OF m, where k = "?D div 1000 mod 1000" and r = "?D mod 1000" and c = "n mod 100"]
  obtain t where t: "words cents = Ok t" "read_words t = n"
  proof
    show "words cents = Ok (case words cents of Ok t \<Rightarrow> t | Err _ \<Rightarrow> [])" using True by (simp add: words_def Let_def)
    have "\<not> cents < 0" "\<not> 99999999999 < cents" using True by auto
    then show "read_words (case words cents of Ok t \<Rightarrow> t | Err _ \<Rightarrow> []) = n"
      unfolding words_def Let_def D by (simp only: if_False sum.case) (subst w; (rule sum)?; simp)
  qed
  then show ?thesis using True n(1) by auto
qed (auto simp: words_def)

end
