(* ===== verification/Plugins.thy ===== *)
theory Plugins
  imports Go_Encoding
begin

text \<open>
  Plugin manifests of the marketplace (\<open>internal/marketplace/manifest.go\<close>), versions and their
  constraints, and the order in which a set of plugins is installed
  (\<open>internal/marketplace/dependency.go\<close>), with the proof that the order respects the dependencies and that
  the reported cycles are cycles.
\<close>

subsection \<open>Manifests\<close>

record dependency_ref =
  dr_Slug :: string
  dr_Constraint :: string

record manifest =
  mf_Slug :: string
  mf_Name :: string
  mf_Version :: string
  mf_Vendor :: string
  mf_Description :: string
  mf_Category :: string
  mf_EventSubscriptions :: "string list"
  mf_Permissions :: "string list"
  mf_Dependencies :: "dependency_ref list"
  mf_HomepageURL :: string

datatype plugin_error =
    ErrPluginAlreadyInstalled | ErrPluginNotFound | ErrPluginTransition | ErrPluginTransitionName | ErrSemverConflict | ErrSemverInvalid
  | ErrSandboxBudgetExceeded | ErrSlugInvalid | ErrSlugAlreadyExists | ErrManifestInvalid | ErrDependencyCycle
  | ErrSubmissionNotFound | ErrSubmissionAlreadyExists | ErrSubmissionInvalid

text \<open>The patterns are anchored at both ends, so they match whole strings.\<close>

definition kebab_letter :: "char \<Rightarrow> bool" where "kebab_letter c \<longleftrightarrow> 0x61 \<le> byte c \<and> byte c \<le> 0x7A"
definition kebab_char :: "char \<Rightarrow> bool" where "kebab_char c \<longleftrightarrow> kebab_letter c \<or> is_digit c"

definition isValidSlug :: "string \<Rightarrow> bool" where
  "isValidSlug s \<longleftrightarrow>
     2 \<le> length s \<and> kebab_letter (hd s) \<and> kebab_char (last s) \<and> list_all (\<lambda>c. kebab_char c \<or> c = CHR ''-'') s"

type_synonym semver = "int \<times> int \<times> int"

text \<open>The three groups of the version pattern.\<close>

definition semver_groups :: "string \<Rightarrow> (string \<times> string \<times> string) option" where
  "semver_groups s =
     (case split_on CHR ''.'' s of
        [a, b, c] \<Rightarrow> if list_all (\<lambda>g. g \<noteq> [] \<and> list_all is_digit g) [a, b, c] then Some (a, b, c) else None
      | _ \<Rightarrow> None)"

definition isValidSemver :: "string \<Rightarrow> bool" where "isValidSemver s \<longleftrightarrow> semver_groups s \<noteq> None"

text \<open>The operator and the groups of the constraint pattern.\<close>

definition constraint_groups :: "string \<Rightarrow> (string \<times> string \<times> string \<times> string) option" where
  "constraint_groups s =
     (if s \<noteq> [] \<and> (hd s = CHR ''^'' \<or> hd s = CHR ''='')
      then map_option (Pair [hd s]) (semver_groups (tl s))
      else map_option (Pair []) (semver_groups s))"

definition semverPartsFromMatches :: "string \<times> string \<times> string \<Rightarrow> plugin_error + semver" where
  "semverPartsFromMatches g =
     (case g of (major, minor, patch) \<Rightarrow>
        case parse_int64 major of None \<Rightarrow> Err ErrSemverInvalid
      | Some maj \<Rightarrow> (case parse_int64 minor of None \<Rightarrow> Err ErrSemverInvalid
      | Some mi \<Rightarrow> (case parse_int64 patch of None \<Rightarrow> Err ErrSemverInvalid
      | Some pat \<Rightarrow> Ok (maj, mi, pat))))"

definition parseSemver :: "string \<Rightarrow> plugin_error + semver" where
  "parseSemver s =
     (case semver_groups s of None \<Rightarrow> Err ErrSemverInvalid | Some g \<Rightarrow> semverPartsFromMatches g)"

definition caretSatisfied :: "semver \<Rightarrow> semver \<Rightarrow> bool" where
  "caretSatisfied wanted got =
     (case wanted of (wmaj, wmin, wpat) \<Rightarrow> case got of (gmaj, gmin, gpat) \<Rightarrow>
        if gmaj \<noteq> wmaj then False
        else if gmin < wmin then False
        else if gmin = wmin \<and> gpat < wpat then False
        else True)"

definition constraintSatisfied :: "string \<Rightarrow> string \<Rightarrow> plugin_error + bool" where
  "constraintSatisfied con candidate =
     (if con = [] then Ok True
      else case constraint_groups con of
        None \<Rightarrow> Err ErrSemverInvalid
      | Some (op, g) \<Rightarrow>
     (case semverPartsFromMatches g of
        Err e \<Rightarrow> Err e
      | Ok wanted \<Rightarrow>
     (case parseSemver candidate of
        Err e \<Rightarrow> Err e
      | Ok got \<Rightarrow> if op = ''='' then Ok (got = wanted) else Ok (caretSatisfied wanted got))))"

definition validateIdentity :: "manifest \<Rightarrow> plugin_error option" where
  "validateIdentity m =
     (if \<not> isValidSlug (mf_Slug m) then Some ErrSlugInvalid
      else if trim_space (mf_Name m) = [] then Some ErrManifestInvalid
      else if trim_space (mf_Vendor m) = [] then Some ErrManifestInvalid
      else None)"

definition validateVersion :: "manifest \<Rightarrow> plugin_error option" where
  "validateVersion m = (if \<not> isValidSemver (mf_Version m) then Some ErrSemverInvalid else None)"

fun validate_deps :: "string \<Rightarrow> string list \<Rightarrow> dependency_ref list \<Rightarrow> plugin_error option" where
  "validate_deps slug seen [] = None"
| "validate_deps slug seen (dep # deps) =
     (if dr_Slug dep = slug then Some ErrManifestInvalid
      else if \<not> isValidSlug (dr_Slug dep) then Some ErrSlugInvalid
      else if dr_Slug dep \<in> set seen then Some ErrManifestInvalid
      else if dr_Constraint dep = [] then validate_deps slug (dr_Slug dep # seen) deps
      else if constraint_groups (dr_Constraint dep) = None then Some ErrSemverInvalid
      else validate_deps slug (dr_Slug dep # seen) deps)"

definition validateDependencies :: "manifest \<Rightarrow> plugin_error option" where
  "validateDependencies m = validate_deps (mf_Slug m) [] (mf_Dependencies m)"

definition manifest_validate :: "manifest \<Rightarrow> plugin_error option" where
  "manifest_validate m =
     (case validateIdentity m of
        Some e \<Rightarrow> Some e
      | None \<Rightarrow> (case validateVersion m of Some e \<Rightarrow> Some e | None \<Rightarrow> validateDependencies m))"

text \<open>The dependency check against the installed plugins; a later manifest with the same slug wins.\<close>

fun verify_deps :: "(string, manifest) gomap \<Rightarrow> dependency_ref list \<Rightarrow> plugin_error option" where
  "verify_deps bySlug [] = None"
| "verify_deps bySlug (dep # deps) =
     (case mget bySlug (dr_Slug dep) of
        None \<Rightarrow> Some ErrSemverConflict
      | Some got \<Rightarrow>
     (case constraintSatisfied (dr_Constraint dep) (mf_Version got) of
        Err e \<Rightarrow> Some e
      | Ok False \<Rightarrow> Some ErrSemverConflict
      | Ok True \<Rightarrow> verify_deps bySlug deps))"

definition verifyDependencySemver :: "manifest \<Rightarrow> manifest list \<Rightarrow> plugin_error option" where
  "verifyDependencySemver new installed =
     verify_deps (foldl (\<lambda>out m. mput (mf_Slug m) m out) [] installed) (mf_Dependencies new)"

subsection \<open>The install order\<close>

fun index_from :: "manifest list \<Rightarrow> (string, manifest) gomap \<Rightarrow> plugin_error + (string, manifest) gomap" where
  "index_from [] out = Ok out"
| "index_from (m # ms) out =
     (case mget out (mf_Slug m) of
        Some _ \<Rightarrow> Err ErrSlugAlreadyExists
      | None \<Rightarrow> index_from ms (mput (mf_Slug m) m out))"

definition indexBySlug :: "manifest list \<Rightarrow> plugin_error + (string, manifest) gomap" where
  "indexBySlug ms = index_from ms []"

text \<open>Reading a missing key of a map of counters or of lists gives zero or the empty list.\<close>

definition iget :: "(string, int) gomap \<Rightarrow> string \<Rightarrow> int" where
  "iget m k = (case mget m k of None \<Rightarrow> 0 | Some n \<Rightarrow> n)"

definition lget :: "(string, string list) gomap \<Rightarrow> string \<Rightarrow> string list" where
  "lget m k = (case mget m k of None \<Rightarrow> [] | Some l \<Rightarrow> l)"

definition buildIndegree :: "manifest list \<Rightarrow> (string, manifest) gomap \<Rightarrow> (string, int) gomap" where
  "buildIndegree ms bySlug =
     foldl (\<lambda>ind m.
         foldl (\<lambda>ind dep. if mget bySlug (dr_Slug dep) = None then ind
                          else mput (mf_Slug m) (iget ind (mf_Slug m) + 1) ind) ind (mf_Dependencies m))
       (foldl (\<lambda>ind m. mput (mf_Slug m) 0 ind) [] ms) ms"

definition readyQueue :: "manifest list \<Rightarrow> (string, int) gomap \<Rightarrow> manifest list" where
  "readyQueue ms ind = sort_key mf_Slug (filter (\<lambda>m. iget ind (mf_Slug m) = 0) ms)"

text \<open>\<open>it\<close> is the order in which the run iterates over the map.\<close>

definition buildDependents ::
  "((string, manifest) gomap \<Rightarrow> (string, manifest) gomap) \<Rightarrow> (string, manifest) gomap \<Rightarrow> (string, string list) gomap" where
  "buildDependents it bySlug =
     map (map_prod (\<lambda>k. k) sort)
       (foldl (\<lambda>out e.
           foldl (\<lambda>out dep. if mget bySlug (dr_Slug dep) = None then out
                            else mput (dr_Slug dep) (lget out (dr_Slug dep) @ [mf_Slug (snd e)]) out) out
             (mf_Dependencies (snd e)))
         [] (it bySlug))"

definition zero_manifest :: manifest where
  "zero_manifest =
     \<lparr>mf_Slug = [], mf_Name = [], mf_Version = [], mf_Vendor = [], mf_Description = [], mf_Category = [],
      mf_EventSubscriptions = [], mf_Permissions = [], mf_Dependencies = [], mf_HomepageURL = []\<rparr>"

definition look :: "(string, manifest) gomap \<Rightarrow> string \<Rightarrow> manifest" where
  "look bySlug k = (case mget bySlug k of None \<Rightarrow> zero_manifest | Some m \<Rightarrow> m)"

fun appendNewReady ::
  "(string, manifest) gomap \<Rightarrow> string list \<Rightarrow> manifest list \<Rightarrow> (string, int) gomap \<Rightarrow> manifest list \<times> (string, int) gomap" where
  "appendNewReady bySlug [] queue ind = (queue, ind)"
| "appendNewReady bySlug (k # ks) queue ind =
     (let ind = mput k (iget ind k - 1) ind in
      appendNewReady bySlug ks (if iget ind k = 0 then queue @ [look bySlug k] else queue) ind)"

text \<open>The keys whose counter is positive: what bounds the growth of the queue.\<close>

definition waiting :: "(string, int) gomap \<Rightarrow> string set" where
  "waiting ind = {k. 0 < iget ind k}"

lemma iget_mput [simp]: "iget (mput k v m) j = (if j = k then v else iget m j)"
  by (simp add: iget_def)

lemma lget_mput [simp]: "lget (mput k v m) j = (if j = k then v else lget m j)"
  by (simp add: lget_def)

lemma waiting_finite: "finite (waiting ind)"
proof -
  have "waiting ind \<subseteq> set (mkeys ind)"
    by (auto simp: waiting_def iget_def in_mkeys_iff split: option.splits)
  then show ?thesis by (rule finite_subset) simp
qed

lemma appendNewReady_measure:
  "appendNewReady bySlug ks queue ind = (queue', ind') \<Longrightarrow>
     length queue' + card (waiting ind') \<le> length queue + card (waiting ind)"
proof (induction ks arbitrary: queue ind)
  case (Cons k ks)
  let ?ind = "mput k (iget ind k - 1) ind"
  have w: "waiting ?ind = (if iget ind k \<le> 1 then waiting ind - {k} else waiting ind)"
    by (auto simp: waiting_def)
  have "length (if iget ?ind k = 0 then queue @ [look bySlug k] else queue) + card (waiting ?ind)
      \<le> length queue + card (waiting ind)"
  proof (cases "iget ind k = 1")
    case True
    then have "k \<in> waiting ind" by (simp add: waiting_def)
    moreover have "waiting ?ind = waiting ind - {k}" using w True by simp
    ultimately have "card (waiting ind) = Suc (card (waiting ?ind))" using card.remove [OF waiting_finite] by metis
    then show ?thesis using True by simp
  next
    case False
    have "card (waiting ?ind) \<le> card (waiting ind)" using w waiting_finite by (auto intro!: card_mono)
    then show ?thesis using False by simp
  qed
  moreover have "appendNewReady bySlug ks (if iget ?ind k = 0 then queue @ [look bySlug k] else queue) ?ind = (queue', ind')"
    using Cons.prems unfolding appendNewReady.simps Let_def .
  ultimately show ?case using Cons.IH by (meson le_trans)
qed simp

function drain ::
  "(string, manifest) gomap \<Rightarrow> (string, string list) gomap \<Rightarrow> manifest list \<Rightarrow> (string, int) gomap \<Rightarrow> manifest list \<Rightarrow> manifest list" where
  "drain bySlug dependents [] ind out = out"
| "drain bySlug dependents (h # queue) ind out =
     (case appendNewReady bySlug (lget dependents (mf_Slug h)) queue ind of
        (queue', ind') \<Rightarrow> drain bySlug dependents queue' ind' (out @ [h]))"
  by pat_completeness auto
termination
  by (relation "measure (\<lambda>(bySlug, dependents, queue, ind, out). length queue + card (waiting ind))")
     (auto dest: appendNewReady_measure [OF sym])

definition drainQueue ::
  "((string, manifest) gomap \<Rightarrow> (string, manifest) gomap) \<Rightarrow> manifest list \<Rightarrow> (string, int) gomap \<Rightarrow> (string, manifest) gomap \<Rightarrow>
   plugin_error + manifest list" where
  "drainQueue it queue ind bySlug =
     (let out = drain bySlug (buildDependents it bySlug) queue ind []
      in if length out \<noteq> length bySlug then Err ErrDependencyCycle else Ok out)"

definition resolveOrder ::
  "((string, manifest) gomap \<Rightarrow> (string, manifest) gomap) \<Rightarrow> manifest list \<Rightarrow> plugin_error + manifest list" where
  "resolveOrder it ms =
     (if ms = [] then Ok []
      else case indexBySlug ms of
        Err e \<Rightarrow> Err e
      | Ok bySlug \<Rightarrow>
          (let ind = buildIndegree ms bySlug
           in drainQueue it (readyQueue ms ind) ind bySlug))"

subsection \<open>What the loops compute\<close>

definition inner_deps :: "manifest list \<Rightarrow> manifest \<Rightarrow> string list" where
  "inner_deps ms m = filter (\<lambda>d. d \<in> mf_Slug ` set ms) (map dr_Slug (mf_Dependencies m))"

definition slug_index :: "manifest list \<Rightarrow> (string, manifest) gomap" where
  "slug_index ms = map (\<lambda>m. (mf_Slug m, m)) ms"

lemma mput_new: "mget m k = None \<Longrightarrow> mput k v m = m @ [(k, v)]"
  by (induction m) (auto simp: mget_def mput_def split: if_splits)

lemma index_from_result:
  "index_from ms out =
     (if distinct (map mf_Slug ms) \<and> (\<forall>m \<in> set ms. mget out (mf_Slug m) = None) then Ok (out @ slug_index ms)
      else Err ErrSlugAlreadyExists)"
proof (induction ms arbitrary: out)
  case (Cons m ms)
  show ?case
  proof (cases "mget out (mf_Slug m)")
    case None
    have "(distinct (map mf_Slug ms) \<and> (\<forall>x \<in> set ms. mget (mput (mf_Slug m) m out) (mf_Slug x) = None))
        = (distinct (map mf_Slug (m # ms)) \<and> (\<forall>x \<in> set (m # ms). mget out (mf_Slug x) = None))"
      using None by (auto simp: image_iff)
    moreover have "mput (mf_Slug m) m out @ slug_index ms = out @ slug_index (m # ms)"
      using mput_new [OF None] by (simp add: slug_index_def)
    ultimately show ?thesis using None by (simp only: index_from.simps option.case Cons.IH)
  qed simp
qed (simp add: slug_index_def)

lemma indexBySlug_result:
  "indexBySlug ms = (if distinct (map mf_Slug ms) then Ok (slug_index ms) else Err ErrSlugAlreadyExists)"
  by (simp add: indexBySlug_def index_from_result)

lemma slug_index_mget:
  assumes "distinct (map mf_Slug ms)"
  shows "mget (slug_index ms) k = Some m \<longleftrightarrow> m \<in> set ms \<and> mf_Slug m = k"
    and "mget (slug_index ms) k = None \<longleftrightarrow> k \<notin> mf_Slug ` set ms"
proof -
  have "mwf (slug_index ms)" using assms by (simp add: slug_index_def mwf_def comp_def)
  then show "mget (slug_index ms) k = Some m \<longleftrightarrow> m \<in> set ms \<and> mf_Slug m = k"
    by (auto simp: in_keys_mget [symmetric] slug_index_def)
  show "mget (slug_index ms) k = None \<longleftrightarrow> k \<notin> mf_Slug ` set ms"
    by (simp add: slug_index_def mget_def map_of_eq_None_iff image_image)
qed

lemma sum_of_one:
  fixes g :: "'a \<Rightarrow> 'b :: comm_monoid_add"
  assumes "distinct (map f xs)" "m \<in> set xs"
  shows "sum_list (map (\<lambda>x. if f m = f x then g x else 0) xs) = g m"
  using assms
proof (induction xs)
  case (Cons x xs)
  have none: "sum_list (map (\<lambda>x. if f y = f x then g x else 0) xs) = 0" if "f y \<notin> f ` set xs" for y
    using that by (induction xs) auto
  show ?case
  proof (cases "m = x")
    case True
    then show ?thesis using Cons.prems(1) none [of m] by simp
  next
    case False
    then have m: "m \<in> set xs" using Cons.prems(2) by simp
    moreover have "f x \<notin> f ` set xs" using Cons.prems(1) by simp
    ultimately have "f m \<noteq> f x" by (metis image_eqI)
    then show ?thesis using Cons m by simp
  qed
qed simp

lemma sum_list_perm:
  fixes h :: "'a \<Rightarrow> 'b :: comm_monoid_add"
  assumes "mset xs = mset ys"
  shows "sum_list (map h xs) = sum_list (map h ys)"
proof -
  have "sum_mset (mset (map h xs)) = sum_mset (mset (map h ys))" using assms by simp
  then show ?thesis by (simp only: sum_mset_sum_list)
qed

lemma indegree_inner:
  "iget (foldl (\<lambda>ind dep. if mget b (dr_Slug dep) = None then ind else mput x (iget ind x + 1) ind) ind ds) j
   = iget ind j + (if j = x then int (length (filter (\<lambda>d. mget b d \<noteq> None) (map dr_Slug ds))) else 0)"
  by (induction ds arbitrary: ind) auto

lemma indegree_outer:
  "iget (foldl (\<lambda>ind m. foldl (\<lambda>ind dep. if mget b (dr_Slug dep) = None then ind
       else mput (mf_Slug m) (iget ind (mf_Slug m) + 1) ind) ind (mf_Dependencies m)) ind xs) j
   = iget ind j + sum_list (map (\<lambda>m. if j = mf_Slug m
       then int (length (filter (\<lambda>d. mget b d \<noteq> None) (map dr_Slug (mf_Dependencies m)))) else 0) xs)"
  by (induction xs arbitrary: ind) (simp_all add: indegree_inner)

lemma indegree_count:
  assumes "distinct (map mf_Slug ms)" "m \<in> set ms"
  shows "iget (buildIndegree ms (slug_index ms)) (mf_Slug m) = int (length (inner_deps ms m))"
proof -
  have z: "iget (foldl (\<lambda>ind m. mput (mf_Slug m) 0 ind) ind ms') j = 0" if "iget ind j = 0" for ind and ms' :: "manifest list" and j
    using that by (induction ms' arbitrary: ind) auto
  have f: "filter (\<lambda>d. mget (slug_index ms) d \<noteq> None) ds = filter (\<lambda>d. d \<in> mf_Slug ` set ms) ds" for ds
    using slug_index_mget(2) [OF assms(1)] by simp
  have "iget [] (mf_Slug m) = 0" by (simp add: iget_def)
  then show ?thesis
    unfolding buildIndegree_def indegree_outer z [OF \<open>iget [] (mf_Slug m) = 0\<close>] f inner_deps_def [symmetric]
    using sum_of_one [OF assms, of "\<lambda>m. int (length (inner_deps ms m))"] by simp
qed

lemma dependents_inner:
  "count_list (lget (foldl (\<lambda>out dep. if mget b (dr_Slug dep) = None then out
       else mput (dr_Slug dep) (lget out (dr_Slug dep) @ [x]) out) out ds) k) j
   = count_list (lget out k) j + (if j = x then count_list (filter (\<lambda>d. mget b d \<noteq> None) (map dr_Slug ds)) k else 0)"
  by (induction ds arbitrary: out) auto

lemma dependents_outer:
  "count_list (lget (foldl (\<lambda>out e. foldl (\<lambda>out dep. if mget b (dr_Slug dep) = None then out
       else mput (dr_Slug dep) (lget out (dr_Slug dep) @ [mf_Slug (snd e)]) out) out (mf_Dependencies (snd e))) out es) k) j
   = count_list (lget out k) j + sum_list (map (\<lambda>e. if j = mf_Slug (snd e)
       then count_list (filter (\<lambda>d. mget b d \<noteq> None) (map dr_Slug (mf_Dependencies (snd e)))) k else 0) es)"
  by (induction es arbitrary: out) (simp_all add: dependents_inner)

lemma lget_sorted: "lget (map (map_prod (\<lambda>k. k) sort) out) k = sort (lget out k)"
  by (induction out) (auto simp: lget_def mget_def)

lemma dependents_count:
  assumes "distinct (map mf_Slug ms)" and "mset (it (slug_index ms)) = mset (slug_index ms)"
  shows "m \<in> set ms \<Longrightarrow> count_list (lget (buildDependents it (slug_index ms)) k) (mf_Slug m) = count_list (inner_deps ms m) k"
    and "j \<notin> mf_Slug ` set ms \<Longrightarrow> count_list (lget (buildDependents it (slug_index ms)) k) j = 0"
proof -
  let ?g = "\<lambda>j m. if j = mf_Slug m then count_list (inner_deps ms m) k else 0"
  have f: "filter (\<lambda>d. mget (slug_index ms) d \<noteq> None) ds = filter (\<lambda>d. d \<in> mf_Slug ` set ms) ds" for ds
    using slug_index_mget(2) [OF assms(1)] by simp
  have s: "count_list (sort xs) j = count_list xs j" for xs :: "string list" and j
    by (metis count_mset mset_sort)
  have "sum_list (map (\<lambda>e. ?g j (snd e)) (it (slug_index ms))) = sum_list (map (\<lambda>e. ?g j (snd e)) (slug_index ms))" for j
    by (rule sum_list_perm) (rule assms(2))
  moreover have "map (\<lambda>e. ?g j (snd e)) (slug_index ms) = map (?g j) ms" for j
    by (simp only: slug_index_def map_map comp_def snd_conv)
  ultimately have sum: "count_list (lget (buildDependents it (slug_index ms)) k) j = sum_list (map (?g j) ms)" for j
    unfolding buildDependents_def lget_sorted s dependents_outer f inner_deps_def [symmetric]
    by (simp add: lget_def)
  show "count_list (lget (buildDependents it (slug_index ms)) k) (mf_Slug m) = count_list (inner_deps ms m) k" if "m \<in> set ms"
    unfolding sum using sum_of_one [OF assms(1) that, of "\<lambda>m. count_list (inner_deps ms m) k"] .
  show "count_list (lget (buildDependents it (slug_index ms)) k) j = 0" if "j \<notin> mf_Slug ` set ms"
    unfolding sum using that by (induction ms) auto
qed

lemma appendNewReady_result:
  "appendNewReady b js queue ind = (queue', ind') \<Longrightarrow>
     \<exists>ks. queue' = queue @ map (look b) ks \<and> distinct ks
       \<and> set ks = {k. 0 < iget ind k \<and> iget ind k \<le> int (count_list js k)}
       \<and> (\<forall>k. iget ind' k = iget ind k - int (count_list js k))"
proof (induction js arbitrary: queue ind)
  case (Cons j js)
  let ?ind = "mput j (iget ind j - 1) ind"
  let ?queue = "if iget ?ind j = 0 then queue @ [look b j] else queue"
  have "appendNewReady b js ?queue ?ind = (queue', ind')" using Cons.prems unfolding appendNewReady.simps Let_def .
  from Cons.IH [OF this] obtain ks where ks: "queue' = ?queue @ map (look b) ks" "distinct ks"
    "set ks = {k. 0 < iget ?ind k \<and> iget ?ind k \<le> int (count_list js k)}"
    "\<And>k. iget ind' k = iget ?ind k - int (count_list js k)" by blast
  show ?case
  proof (cases "iget ind j = 1")
    case True
    then have "j \<notin> set ks" unfolding ks(3) by simp
    then have "distinct (j # ks)" using ks(2) by simp
    moreover have "set (j # ks) = {k. 0 < iget ind k \<and> iget ind k \<le> int (count_list (j # js) k)}"
      (is "?L = ?R")
    proof (rule set_eqI)
      show "x \<in> ?L \<longleftrightarrow> x \<in> ?R" for x using True ks(3) by (cases "x = j") auto
    qed
    moreover have "queue' = queue @ map (look b) (j # ks)" using True ks(1) by simp
    moreover have "\<forall>k. iget ind' k = iget ind k - int (count_list (j # js) k)" using ks(4) by simp
    ultimately show ?thesis by blast
  next
    case False
    have "set ks = {k. 0 < iget ind k \<and> iget ind k \<le> int (count_list (j # js) k)}" (is "?L = ?R")
    proof (rule set_eqI)
      show "x \<in> ?L \<longleftrightarrow> x \<in> ?R" for x using False ks(3) by (cases "x = j") auto
    qed
    moreover have "queue' = queue @ map (look b) ks" using False ks(1) by simp
    moreover have "\<forall>k. iget ind' k = iget ind k - int (count_list (j # js) k)" using ks(4) by simp
    ultimately show ?thesis using ks(2) by blast
  qed
qed simp

subsection \<open>The order respects the dependencies\<close>

text \<open>\<open>in_order all seen ms\<close>: every dependency of a manifest of \<open>ms\<close> that is one of \<open>all\<close> comes before it, or is
  in \<open>seen\<close>.\<close>

fun in_order :: "manifest list \<Rightarrow> string set \<Rightarrow> manifest list \<Rightarrow> bool" where
  "in_order all seen [] = True"
| "in_order all seen (m # ms) \<longleftrightarrow>
     set (inner_deps all m) \<subseteq> seen \<and> in_order all (insert (mf_Slug m) seen) ms"

lemma in_order_append:
  "in_order all seen (xs @ ys) \<longleftrightarrow> in_order all seen xs \<and> in_order all (seen \<union> mf_Slug ` set xs) ys"
  by (induction xs arbitrary: seen) auto

definition pending_deps :: "manifest list \<Rightarrow> manifest list \<Rightarrow> manifest \<Rightarrow> string list" where
  "pending_deps ms out m = filter (\<lambda>d. d \<notin> mf_Slug ` set out) (inner_deps ms m)"

definition kahn :: "manifest list \<Rightarrow> manifest list \<Rightarrow> (string, int) gomap \<Rightarrow> manifest list \<Rightarrow> bool" where
  "kahn ms queue ind out \<longleftrightarrow>
     distinct (map mf_Slug (out @ queue)) \<and> set (out @ queue) \<subseteq> set ms
     \<and> (\<forall>m \<in> set ms. iget ind (mf_Slug m) = int (length (pending_deps ms out m)))
     \<and> (\<forall>m \<in> set ms. m \<in> set (out @ queue) \<longleftrightarrow> iget ind (mf_Slug m) = 0)
     \<and> in_order ms {} out"

lemma filter_split_one:
  "h \<notin> A \<Longrightarrow> length (filter (\<lambda>d. d \<notin> A) xs) = length (filter (\<lambda>d. d \<notin> insert h A) xs) + count_list xs h"
  by (induction xs) auto

lemma pending_split:
  assumes "mf_Slug h \<notin> mf_Slug ` set out"
  shows "length (pending_deps ms out m) = length (pending_deps ms (out @ [h]) m) + count_list (inner_deps ms m) (mf_Slug h)"
  using filter_split_one [OF assms] by (simp add: pending_deps_def)

lemma kahn_start:
  assumes "distinct (map mf_Slug ms)"
  shows "kahn ms (readyQueue ms (buildIndegree ms (slug_index ms))) (buildIndegree ms (slug_index ms)) []"
proof -
  let ?ind = "buildIndegree ms (slug_index ms)"
  have q: "set (readyQueue ms ?ind) = {m \<in> set ms. iget ?ind (mf_Slug m) = 0}" by (simp add: readyQueue_def)
  have "distinct (map mf_Slug (filter P ms))" for P using assms by (rule distinct_map_filter)
  then have "distinct (map mf_Slug (readyQueue ms ?ind))"
    unfolding readyQueue_def by (metis mset_map mset_sort mset_eq_imp_distinct_iff)
  then show ?thesis using q indegree_count [OF assms] by (simp add: kahn_def pending_deps_def)
qed

lemma kahn_step:
  assumes d: "distinct (map mf_Slug ms)" and "mset (it (slug_index ms)) = mset (slug_index ms)"
    and k: "kahn ms (h # queue) ind out"
    and step: "appendNewReady (slug_index ms) (lget (buildDependents it (slug_index ms)) (mf_Slug h)) queue ind = (queue', ind')"
  shows "kahn ms queue' ind' (out @ [h])"
proof -
  let ?js = "lget (buildDependents it (slug_index ms)) (mf_Slug h)"
  note count = dependents_count [where it = it, OF d assms(2), where k = "mf_Slug h"]
  obtain ks where ks: "queue' = queue @ map (look (slug_index ms)) ks" "distinct ks"
    "set ks = {k. 0 < iget ind k \<and> iget ind k \<le> int (count_list ?js k)}"
    "\<And>k. iget ind' k = iget ind k - int (count_list ?js k)"
    using appendNewReady_result [OF step] by blast
  have ready: "m \<in> set ms \<Longrightarrow> m \<in> set (out @ h # queue) \<longleftrightarrow> iget ind (mf_Slug m) = 0" for m
    using k by (simp add: kahn_def)
  have "ks \<noteq> [] \<Longrightarrow> k \<in> set ks \<Longrightarrow> k \<in> mf_Slug ` set ms" for k
    using ks(3) count(2) [of k] by force
  then have look: "k \<in> set ks \<Longrightarrow> look (slug_index ms) k \<in> set ms \<and> mf_Slug (look (slug_index ms) k) = k" for k
    using slug_index_mget [OF d, of k] by (cases "mget (slug_index ms) k") (force simp: look_def)+
  then have map: "map mf_Slug (map (look (slug_index ms)) ks) = ks" by (simp add: map_idI)
  have new: "mf_Slug h \<notin> mf_Slug ` set out" using k by (auto simp: kahn_def)
  have pend: "m \<in> set ms \<Longrightarrow> iget ind' (mf_Slug m) = int (length (pending_deps ms (out @ [h]) m))" for m
    using k count(1) ks(4) pending_split [OF new, of ms m] by (simp add: kahn_def)
  have "set ks \<inter> mf_Slug ` set (out @ h # queue) = {}"
  proof -
    have "iget ind (mf_Slug m) = 0" if "m \<in> set (out @ h # queue)" for m
      using that ready [of m] k by (auto simp: kahn_def)
    then show ?thesis using ks(3) by auto
  qed
  then have "distinct (map mf_Slug ((out @ [h]) @ queue'))"
    using k ks(2) unfolding kahn_def ks(1) map_append map by auto
  moreover have "m \<in> set ((out @ [h]) @ queue') \<longleftrightarrow> iget ind' (mf_Slug m) = 0" if m: "m \<in> set ms" for m
  proof -
    have "m \<in> set (map (look (slug_index ms)) ks) \<longleftrightarrow> mf_Slug m \<in> set ks"
      using look d m by (force simp: distinct_map inj_on_def)
    then have "m \<in> set ((out @ [h]) @ queue') \<longleftrightarrow> iget ind (mf_Slug m) = 0 \<or> mf_Slug m \<in> set ks"
      using ready [OF m] ks(1) by auto
    moreover have "mf_Slug m \<in> set ks \<longleftrightarrow> 0 < iget ind (mf_Slug m) \<and> iget ind (mf_Slug m) \<le> int (count_list ?js (mf_Slug m))"
      unfolding ks(3) by simp
    ultimately show ?thesis using ks(4) [of "mf_Slug m"] pend [OF m] by linarith
  qed
  moreover have "set (inner_deps ms h) \<subseteq> mf_Slug ` set out"
  proof -
    have "h \<in> set ms" using k by (simp add: kahn_def)
    then have "pending_deps ms out h = []" using ready [of h] k by (simp add: kahn_def)
    then show ?thesis by (auto simp: pending_deps_def filter_empty_conv)
  qed
  then have "in_order ms {} (out @ [h])" using k by (simp add: kahn_def in_order_append)
  moreover have "set ((out @ [h]) @ queue') \<subseteq> set ms" using k ks(1) look by (auto simp: kahn_def)
  ultimately show ?thesis using pend unfolding kahn_def by blast
qed

lemma kahn_drain:
  assumes "distinct (map mf_Slug ms)" and "mset (it (slug_index ms)) = mset (slug_index ms)"
  shows "kahn ms queue ind out \<Longrightarrow> \<exists>ind'. kahn ms [] ind' (drain (slug_index ms) (buildDependents it (slug_index ms)) queue ind out)"
proof (induction "slug_index ms" "buildDependents it (slug_index ms)" queue ind out rule: drain.induct)
  case (2 h queue ind out)
  obtain queue' ind' where s: "appendNewReady (slug_index ms) (lget (buildDependents it (slug_index ms)) (mf_Slug h)) queue ind
      = (queue', ind')" by force
  from 2(1) [OF s [symmetric] kahn_step [OF assms 2(2) s]] s show ?case by simp
qed auto

text \<open>Nothing outside a finished run can be put in order.\<close>

lemma kahn_closed:
  assumes "kahn ms [] ind out" and "in_order ms seen ys" "seen \<subseteq> mf_Slug ` set out" "set ys \<subseteq> set ms"
  shows "set ys \<subseteq> set out"
  using assms(2-4)
proof (induction ys arbitrary: seen)
  case (Cons m ys)
  then have m: "m \<in> set ms" "pending_deps ms out m = []" by (auto simp: pending_deps_def filter_empty_conv)
  then have "m \<in> set out" using assms(1) by (simp add: kahn_def)
  then show ?case using Cons.IH [of "insert (mf_Slug m) seen"] Cons.prems by auto
qed simp

lemma kahn_complete:
  assumes d: "distinct (map mf_Slug ms)" and k: "kahn ms [] ind out"
  shows "length out = length ms \<Longrightarrow> mset out = mset ms \<and> in_order ms {} out"
    and "length out \<noteq> length ms \<Longrightarrow> \<not> (mset ys = mset ms \<and> in_order ms {} ys)"
proof -
  have o: "distinct out" "set out \<subseteq> set ms" "in_order ms {} out" using k by (auto simp: kahn_def distinct_map)
  have ms: "distinct ms" using d by (simp add: distinct_map)
  show "mset out = mset ms \<and> in_order ms {} out" if "length out = length ms"
  proof -
    have "set out = set ms" using o(1,2) ms that by (metis card_subset_eq distinct_card finite_set)
    then show ?thesis using o(1,3) ms set_eq_iff_mset_eq_distinct by blast
  qed
  show "\<not> (mset ys = mset ms \<and> in_order ms {} ys)" if "length out \<noteq> length ms"
  proof
    assume y: "mset ys = mset ms \<and> in_order ms {} ys"
    then have "set ys = set ms" by (metis mset_eq_setD)
    then have "set ms \<subseteq> set out" using kahn_closed [OF k, of "{}" ys] y by simp
    then show False using o(1,2) ms that by (metis distinct_card subset_antisym)
  qed
qed

text \<open>C18: The install order is a topological order, and a reported cycle is a cycle. For every list of manifests and
  every order in which the run iterates over its map: the result is a rearrangement of the list in which
  every manifest comes after all its dependencies of the list; it is refused as a duplicate exactly when two
  manifests have the same slug, and as a cycle only when there is no such rearrangement.\<close>

theorem install_order_topological:
  assumes "\<forall>m. mset (it m) = mset m"
  shows "case resolveOrder it ms of
      Ok out \<Rightarrow> mset out = mset ms \<and> in_order ms {} out \<and> distinct (map mf_Slug ms)
    | Err e \<Rightarrow> (if distinct (map mf_Slug ms)
                then e = ErrDependencyCycle \<and> (\<forall>ys. \<not> (mset ys = mset ms \<and> in_order ms {} ys))
                else e = ErrSlugAlreadyExists)"
proof (cases "ms = [] \<or> \<not> distinct (map mf_Slug ms)")
  case True
  then show ?thesis by (auto simp: resolveOrder_def indexBySlug_result)
next
  case False
  then have d: "distinct (map mf_Slug ms)" by simp
  let ?ind = "buildIndegree ms (slug_index ms)"
  let ?out = "drain (slug_index ms) (buildDependents it (slug_index ms)) (readyQueue ms ?ind) ?ind []"
  obtain ind' where "kahn ms [] ind' ?out" using kahn_drain [OF d _ kahn_start [OF d]] assms by blast
  note c = kahn_complete [OF d this]
  have "resolveOrder it ms = (if length ?out \<noteq> length ms then Err ErrDependencyCycle else Ok ?out)"
    using False by (simp add: resolveOrder_def indexBySlug_result drainQueue_def Let_def slug_index_def)
  then show ?thesis using c d by simp
qed

definition sample_plugin :: "string \<Rightarrow> string list \<Rightarrow> manifest" where
  "sample_plugin slug deps = zero_manifest\<lparr>mf_Slug := slug, mf_Name := slug, mf_Vendor := ''v'', mf_Version := ''1.2.3'',
     mf_Dependencies := map (\<lambda>d. \<lparr>dr_Slug = d, dr_Constraint = ''^1.0.0''\<rparr>) deps\<rparr>"

theorem install_order_topological_witness:
  "\<exists>out. resolveOrder rev [sample_plugin ''shop'' [''tax'', ''cart''], sample_plugin ''cart'' [''tax''], sample_plugin ''tax'' []] = Ok out
     \<and> in_order [sample_plugin ''shop'' [''tax'', ''cart''], sample_plugin ''cart'' [''tax''], sample_plugin ''tax'' []] {} out
     \<and> map mf_Slug out = [''tax'', ''cart'', ''shop'']"
proof -
  let ?ms = "[sample_plugin ''shop'' [''tax'', ''cart''], sample_plugin ''cart'' [''tax''], sample_plugin ''tax'' []]"
  have "(case resolveOrder rev ?ms of Ok out \<Rightarrow> map mf_Slug out = [''tax'', ''cart'', ''shop''] | Err _ \<Rightarrow> False)" by code_simp
  moreover have "\<forall>m :: (string, manifest) gomap. mset (rev m) = mset m" by simp
  from install_order_topological [OF this, of ?ms] calculation show ?thesis by (auto split: sum.splits)
qed

subsection \<open>Versions\<close>

definition version_text :: "semver \<Rightarrow> string" where
  "version_text v = (case v of (a, b, c) \<Rightarrow> format_int a @ ''.'' @ format_int b @ ''.'' @ format_int c)"

definition semver_wf :: "semver \<Rightarrow> bool" where
  "semver_wf v = (case v of (a, b, c) \<Rightarrow> list_all (\<lambda>n. 0 \<le> n \<and> n \<le> max_int64) [a, b, c])"

lemma format_int_group: "0 \<le> n \<Longrightarrow> format_int n \<noteq> [] \<and> list_all is_digit (format_int n) \<and> CHR ''.'' \<notin> set (format_int n)"
  using format_nat_digits [of "nat n"] format_nat_not_in [of "CHR ''.''" "nat n"] by (simp add: format_int_def)

lemma semver_groups_text:
  assumes "semver_wf (a, b, c)"
  shows "semver_groups (version_text (a, b, c)) = Some (format_int a, format_int b, format_int c)"
proof -
  have n: "0 \<le> a" "0 \<le> b" "0 \<le> c" using assms by (simp_all add: semver_wf_def)
  have "split_on CHR ''.'' (version_text (a, b, c)) = [format_int a, format_int b, format_int c]"
    using n [THEN format_int_group] by (simp add: version_text_def split_on_append split_on_no_sep)
  then show ?thesis using n [THEN format_int_group] by (simp add: semver_groups_def)
qed

lemma semver_parts_text:
  "semver_wf (a, b, c) \<Longrightarrow> semverPartsFromMatches (format_int a, format_int b, format_int c) = Ok (a, b, c)"
  by (simp add: semver_wf_def semverPartsFromMatches_def in_int64_iff)

text \<open>Versions are read back, and a constraint means what it says. A version of three numbers below the
  64-bit limit is valid and parses to its numbers; an exact constraint is satisfied by that version only,
  and a caret or bare one by the versions with the same first number that are not older.\<close>

theorem version_constraints_exact:
  assumes "semver_wf w" "semver_wf g"
  shows "isValidSemver (version_text g) \<and> parseSemver (version_text g) = Ok g
    \<and> constraintSatisfied (''='' @ version_text w) (version_text g) = Ok (g = w)
    \<and> constraintSatisfied (''^'' @ version_text w) (version_text g) = Ok (fst g = fst w \<and> (snd w, snd g) \<in> {(x, y). fst x < fst y \<or> fst x = fst y \<and> snd x \<le> snd y})
    \<and> constraintSatisfied (version_text w) (version_text g) = constraintSatisfied (''^'' @ version_text w) (version_text g)"
proof -
  obtain a b c x y z where v: "w = (a, b, c)" "g = (x, y, z)" by (metis prod_cases3)
  note gw = semver_groups_text [OF assms(1) [unfolded v]] and gg = semver_groups_text [OF assms(2) [unfolded v]]
  note pw = semver_parts_text [OF assms(1) [unfolded v]] and pg = semver_parts_text [OF assms(2) [unfolded v]]
  have parse: "parseSemver (version_text (x, y, z)) = Ok (x, y, z)" by (simp add: parseSemver_def gg pg)
  have "0 \<le> a" using assms(1) by (simp add: v semver_wf_def)
  then have h: "version_text (a, b, c) \<noteq> []" "is_digit (hd (version_text (a, b, c)))"
    using format_int_group [of a] by (cases "format_int a"; simp add: version_text_def)+
  then have bare: "constraint_groups (version_text (a, b, c)) = Some ([], format_int a, format_int b, format_int c)"
    by (auto simp: constraint_groups_def gw is_digit_def)
  have op: "constraint_groups (op # version_text (a, b, c)) = Some ([op], format_int a, format_int b, format_int c)"
    if "op = CHR ''^'' \<or> op = CHR ''=''" for op using that by (simp add: constraint_groups_def gw)
  let ?w = "version_text (a, b, c)" and ?g = "version_text (x, y, z)"
  have con: "constraintSatisfied (op # ?w) ?g = (if op = CHR ''='' then Ok ((x, y, z) = (a, b, c)) else Ok (caretSatisfied (a, b, c) (x, y, z)))"
    if "op = CHR ''^'' \<or> op = CHR ''=''" for op
    by (simp add: constraintSatisfied_def op [OF that] pw parse)
  have plain: "constraintSatisfied ?w ?g = Ok (caretSatisfied (a, b, c) (x, y, z))"
    using h(1) by (simp add: constraintSatisfied_def bare pw parse)
  have "caretSatisfied (a, b, c) (x, y, z) \<longleftrightarrow> x = a \<and> (b < y \<or> b = y \<and> c \<le> z)" by (auto simp: caretSatisfied_def)
  moreover have "isValidSemver ?g" by (simp add: isValidSemver_def gg)
  ultimately show ?thesis unfolding v using con [of "CHR ''=''"] con [of "CHR ''^''"] plain parse by simp
qed

theorem version_constraints_exact_witness:
  "constraintSatisfied ''^1.2.0'' ''1.10.3'' = Ok True \<and> constraintSatisfied ''=1.2.0'' ''1.10.3'' = Ok False"
proof -
  have "semver_wf (1, 2, 0)" "semver_wf (1, 10, 3)" by (simp_all add: semver_wf_def)
  note v = version_constraints_exact [OF this]
  have "version_text (1, 2, 0) = ''1.2.0''" "version_text (1, 10, 3) = ''1.10.3''" by code_simp+
  with v show ?thesis by simp
qed

end
