(* ===== verification/Marketplace.thy ===== *)
theory Marketplace
  imports Plugins Lifecycle
begin

text \<open>
  The plugin registry (\<open>internal/marketplace/registry.go\<close>, \<open>state.go\<close>, \<open>sandbox.go\<close>, \<open>settings.go\<close>) over the
  in-memory repositories (\<open>internal/adapter/inmemory/marketplace_repo.go\<close>). Times of the rows are the texts the
  clock writes; the time of the sandbox is a Go time.
\<close>

subsection \<open>The state machine of an installation\<close>

datatype pstate = StateInstalled | StateActive | StateDeactivated | StateUninstalled
datatype ptransition = TransitionActivate | TransitionDeactivate | TransitionUninstall

definition plugin_table :: "(pstate, ptransition) table" where
  "plugin_table =
     [(StateInstalled, [(TransitionActivate, StateActive), (TransitionUninstall, StateUninstalled)]),
      (StateActive, [(TransitionDeactivate, StateDeactivated), (TransitionUninstall, StateUninstalled)]),
      (StateDeactivated, [(TransitionActivate, StateActive), (TransitionUninstall, StateUninstalled)])]"

fun pstate_string :: "pstate \<Rightarrow> string" where
  "pstate_string StateInstalled = ''installed''"
| "pstate_string StateActive = ''active''"
| "pstate_string StateDeactivated = ''deactivated''"
| "pstate_string StateUninstalled = ''uninstalled''"

definition pstate_isTerminal :: "pstate \<Rightarrow> bool" where
  "pstate_isTerminal s \<longleftrightarrow> mget plugin_table s = None"

definition parsePState :: "string \<Rightarrow> plugin_error + pstate" where
  "parsePState v =
     (if v = ''installed'' then Ok StateInstalled
      else if v = ''active'' then Ok StateActive
      else if v = ''deactivated'' then Ok StateDeactivated
      else if v = ''uninstalled'' then Ok StateUninstalled
      else Err ErrPluginTransition)"

definition parsePTransition :: "string \<Rightarrow> plugin_error + ptransition" where
  "parsePTransition v =
     (if v = ''activate'' then Ok TransitionActivate
      else if v = ''deactivate'' then Ok TransitionDeactivate
      else if v = ''uninstall'' then Ok TransitionUninstall
      else Err ErrPluginTransitionName)"

definition nextPState :: "pstate \<Rightarrow> ptransition \<Rightarrow> plugin_error + pstate" where
  "nextPState s t =
     (case mget plugin_table s of
        None \<Rightarrow> Err ErrPluginTransition
      | Some moves \<Rightarrow> (case mget moves t of None \<Rightarrow> Err ErrPluginTransition | Some d \<Rightarrow> Ok d))"

definition pstep :: "pstate \<Rightarrow> ptransition \<Rightarrow> pstate option" where "pstep = table_next plugin_table"

lemma plugin_table_wf: "table_wf plugin_table"
  by (simp add: table_wf_def plugin_table_def mwf_def mvalues_def)

lemma nextPState_Ok [go_ok]: "nextPState s t = Ok d \<longleftrightarrow> pstep s t = Some d"
  by (auto simp: nextPState_def pstep_def table_next_def split: option.splits)

interpretation pl: abandonable pstep pstate_isTerminal TransitionUninstall
proof
  show "pstate_isTerminal s \<longleftrightarrow> (\<forall>t. pstep s t = None)" for s
    using table_terminal_iff [OF plugin_table_wf] by (simp add: pstate_isTerminal_def pstep_def)
  show "\<not> pstate_isTerminal s \<Longrightarrow> \<exists>d. pstep s TransitionUninstall = Some d \<and> pstate_isTerminal d" for s
    by (cases s) (simp_all add: pstate_isTerminal_def pstep_def table_next_def plugin_table_def mget_def)
qed

lemma parsePState_string: "parsePState (pstate_string s) = Ok s"
  by (cases s) (simp_all add: parsePState_def)

subsection \<open>The sandbox\<close>

record bucket =
  bk_tokens :: int
  bk_updatedAt :: gotime

record sandbox =
  sb_HookBudget :: int
  sb_Window :: duration
  sb_buckets :: "(string, bucket) gomap"
  sb_hooksTotal :: "64 word"

definition newSandbox :: "int \<Rightarrow> duration \<Rightarrow> sandbox" where
  "newSandbox budget window =
     \<lparr>sb_HookBudget = (if budget \<le> 0 then 60 else budget), sb_Window = (if window \<le> 0 then 60 * time_second else window),
      sb_buckets = [], sb_hooksTotal = 0\<rparr>"

definition refill :: "bucket \<Rightarrow> int \<Rightarrow> duration \<Rightarrow> gotime \<Rightarrow> bucket" where
  "refill st capacity window now =
     (let elapsed = time_sub now (bk_updatedAt st) in
      if window \<le> elapsed then
        (let refills = quot elapsed window;
             tokens = add64 (bk_tokens st) refills
         in \<lparr>bk_tokens = (if capacity < tokens then capacity else tokens),
             bk_updatedAt = bk_updatedAt st + mul64 refills window\<rparr>)
      else st)"

definition plugin_key :: "string \<Rightarrow> string \<Rightarrow> string" where
  "plugin_key tenantID slug = tenantID @ ''::'' @ slug"

definition recordHook :: "string \<Rightarrow> string \<Rightarrow> gotime \<Rightarrow> sandbox \<Rightarrow> sandbox \<times> plugin_error option" where
  "recordHook tenantID slug now sb =
     (let k = plugin_key tenantID slug;
          st0 = (case mget (sb_buckets sb) k of None \<Rightarrow> \<lparr>bk_tokens = sb_HookBudget sb, bk_updatedAt = now\<rparr> | Some b \<Rightarrow> b);
          st = refill st0 (sb_HookBudget sb) (sb_Window sb) now
      in if bk_tokens st \<le> 0
         then (sb\<lparr>sb_buckets := mput k st (sb_buckets sb)\<rparr>, Some ErrSandboxBudgetExceeded)
         else (sb\<lparr>sb_buckets := mput k (st\<lparr>bk_tokens := bk_tokens st - 1\<rparr>) (sb_buckets sb),
                  sb_hooksTotal := sb_hooksTotal sb + 1\<rparr>, None))"

subsection \<open>Settings\<close>

type_synonym 'v settings_store = "(string, (string, 'v) gomap) gomap"

definition settings_get :: "string \<Rightarrow> string \<Rightarrow> 'v settings_store \<Rightarrow> (string, 'v) gomap" where
  "settings_get tenantID slug s = (case mget s (plugin_key tenantID slug) of None \<Rightarrow> [] | Some row \<Rightarrow> row)"

definition settings_set :: "string \<Rightarrow> string \<Rightarrow> (string, 'v) gomap option \<Rightarrow> 'v settings_store \<Rightarrow> 'v settings_store" where
  "settings_set tenantID slug vs s =
     (case vs of None \<Rightarrow> mdel (plugin_key tenantID slug) s | Some row \<Rightarrow> mput (plugin_key tenantID slug) row s)"

subsection \<open>Repositories\<close>

record installation =
  in_TenantID :: string
  in_Slug :: string
  in_InstalledVersion :: string
  in_State :: pstate
  in_InstalledAt :: string
  in_ActivatedAt :: string
  in_UpdatedAt :: string

record 's plugin_ports =
  pp_registerManifest :: "manifest \<Rightarrow> 's \<Rightarrow> 's \<times> (plugin_error + unit)"
  pp_getManifest :: "string \<Rightarrow> 's \<Rightarrow> plugin_error + manifest"
  pp_create :: "installation \<Rightarrow> 's \<Rightarrow> 's \<times> (plugin_error + unit)"
  pp_get :: "string \<Rightarrow> string \<Rightarrow> 's \<Rightarrow> plugin_error + installation"
  pp_saveState :: "installation \<Rightarrow> 's \<Rightarrow> 's \<times> (plugin_error + unit)"
  pp_delete :: "string \<Rightarrow> string \<Rightarrow> 's \<Rightarrow> 's \<times> (plugin_error + unit)"
  pp_replaceSubs :: "string \<Rightarrow> string \<Rightarrow> string list \<Rightarrow> 's \<Rightarrow> 's \<times> (plugin_error + unit)"
  pp_deleteSubs :: "string \<Rightarrow> string \<Rightarrow> 's \<Rightarrow> 's \<times> (plugin_error + unit)"

record plugin_mem =
  pm_bySlug :: "(string, manifest) gomap"
  pm_ins :: "(string, string, installation) gomap2"
  pm_subs :: "(string, string, string list) gomap2"

definition ndel :: "'k \<Rightarrow> 'j \<Rightarrow> ('k, 'j, 'v) gomap2 \<Rightarrow> ('k, 'j, 'v) gomap2" where
  "ndel k j m = (case mget m k of None \<Rightarrow> m | Some rows \<Rightarrow> mput k (mdel j rows) m)"

lemma nget_ndel [simp]: "nget (ndel k j m) k' j' = (if k' = k \<and> j' = j then None else nget m k' j')"
  by (simp add: nget_def nrows_def ndel_def split: option.splits)

definition mem_registerManifest :: "manifest \<Rightarrow> plugin_mem \<Rightarrow> plugin_mem \<times> (plugin_error + unit)" where
  "mem_registerManifest m r =
     (case mget (pm_bySlug r) (mf_Slug m) of
        Some _ \<Rightarrow> (r, Err ErrSlugAlreadyExists)
      | None \<Rightarrow> (r\<lparr>pm_bySlug := mput (mf_Slug m) m (pm_bySlug r)\<rparr>, Ok ()))"

definition mem_getManifest :: "string \<Rightarrow> plugin_mem \<Rightarrow> plugin_error + manifest" where
  "mem_getManifest slug r = (case mget (pm_bySlug r) slug of None \<Rightarrow> Err ErrPluginNotFound | Some m \<Rightarrow> Ok m)"

definition mem_listManifests :: "int \<Rightarrow> int \<Rightarrow> plugin_mem \<Rightarrow> (manifest list \<times> int) option" where
  "mem_listManifests page perPage r =
     (let out = sort_key mf_Slug (mvalues (pm_bySlug r))
      in map_option (\<lambda>xs. (xs, int (length out)))
           (page_slice (if page < 1 then 1 else page) (if perPage < 1 then 20 else perPage) out))"

definition mem_create :: "installation \<Rightarrow> plugin_mem \<Rightarrow> plugin_mem \<times> (plugin_error + unit)" where
  "mem_create ins r =
     (case nget (pm_ins r) (in_TenantID ins) (in_Slug ins) of
        Some _ \<Rightarrow> (r, Err ErrPluginAlreadyInstalled)
      | None \<Rightarrow> (r\<lparr>pm_ins := nput (in_TenantID ins) (in_Slug ins) ins (pm_ins r)\<rparr>, Ok ()))"

definition mem_get :: "string \<Rightarrow> string \<Rightarrow> plugin_mem \<Rightarrow> plugin_error + installation" where
  "mem_get tenantID slug r =
     (case nget (pm_ins r) tenantID slug of None \<Rightarrow> Err ErrPluginNotFound | Some row \<Rightarrow> Ok row)"

definition mem_saveState :: "installation \<Rightarrow> plugin_mem \<Rightarrow> plugin_mem \<times> (plugin_error + unit)" where
  "mem_saveState ins r =
     (case nget (pm_ins r) (in_TenantID ins) (in_Slug ins) of
        None \<Rightarrow> (r, Err ErrPluginNotFound)
      | Some _ \<Rightarrow> (r\<lparr>pm_ins := nput (in_TenantID ins) (in_Slug ins) ins (pm_ins r)\<rparr>, Ok ()))"

definition mem_delete :: "string \<Rightarrow> string \<Rightarrow> plugin_mem \<Rightarrow> plugin_mem \<times> (plugin_error + unit)" where
  "mem_delete tenantID slug r =
     (case nget (pm_ins r) tenantID slug of
        None \<Rightarrow> (r, Err ErrPluginNotFound)
      | Some _ \<Rightarrow> (r\<lparr>pm_ins := ndel tenantID slug (pm_ins r)\<rparr>, Ok ()))"

definition mem_replaceSubs :: "string \<Rightarrow> string \<Rightarrow> string list \<Rightarrow> plugin_mem \<Rightarrow> plugin_mem \<times> (plugin_error + unit)" where
  "mem_replaceSubs tenantID slug evs r = (r\<lparr>pm_subs := nput tenantID slug evs (pm_subs r)\<rparr>, Ok ())"

definition mem_listSubs :: "string \<Rightarrow> string \<Rightarrow> plugin_mem \<Rightarrow> string list" where
  "mem_listSubs tenantID slug r = (case nget (pm_subs r) tenantID slug of None \<Rightarrow> [] | Some evs \<Rightarrow> evs)"

definition mem_deleteSubs :: "string \<Rightarrow> string \<Rightarrow> plugin_mem \<Rightarrow> plugin_mem \<times> (plugin_error + unit)" where
  "mem_deleteSubs tenantID slug r = (r\<lparr>pm_subs := ndel tenantID slug (pm_subs r)\<rparr>, Ok ())"

text \<open>\<open>it\<close> is the order in which the run iterates over the rows of the tenant.\<close>

definition mem_listInstallations ::
  "(installation list \<Rightarrow> installation list) \<Rightarrow> string \<Rightarrow> int \<Rightarrow> int \<Rightarrow> plugin_mem \<Rightarrow> (installation list \<times> int) option" where
  "mem_listInstallations it tenantID page perPage r =
     (let out = sort_key in_InstalledAt (it (mvalues (nrows (pm_ins r) tenantID)))
      in map_option (\<lambda>xs. (xs, int (length out)))
           (page_slice (if page < 1 then 1 else page) (if perPage < 1 then 20 else perPage) out))"

definition mem_ports :: "plugin_mem plugin_ports" where
  "mem_ports =
     \<lparr>pp_registerManifest = mem_registerManifest, pp_getManifest = mem_getManifest, pp_create = mem_create, pp_get = mem_get,
      pp_saveState = mem_saveState, pp_delete = mem_delete, pp_replaceSubs = mem_replaceSubs, pp_deleteSubs = mem_deleteSubs\<rparr>"

subsection \<open>The service\<close>

record ('s, 'v) plugin_registry =
  rg_store :: 's
  rg_sandbox :: sandbox
  rg_settings :: "'v settings_store"

type_synonym ('s, 'v, 'a) registry_op = "('s, 'v) plugin_registry \<Rightarrow> ('s, 'v) plugin_registry \<times> (plugin_error + 'a)"

definition requireTenant :: "string \<Rightarrow> plugin_error option" where
  "requireTenant tenantID = (if trim_space tenantID = [] then Some ErrManifestInvalid else None)"

definition requireTenantSlug :: "string \<Rightarrow> string \<Rightarrow> plugin_error option" where
  "requireTenantSlug tenantID slug =
     (case requireTenant tenantID of
        Some e \<Rightarrow> Some e
      | None \<Rightarrow> if \<not> isValidSlug slug then Some ErrSlugInvalid else None)"

definition new_installation :: "string \<Rightarrow> manifest \<Rightarrow> string \<Rightarrow> installation" where
  "new_installation tenantID m now =
     \<lparr>in_TenantID = tenantID, in_Slug = mf_Slug m, in_InstalledVersion = mf_Version m, in_State = StateInstalled,
      in_InstalledAt = now, in_ActivatedAt = [], in_UpdatedAt = now\<rparr>"

definition plugin_install :: "'s plugin_ports \<Rightarrow> string \<Rightarrow> string \<Rightarrow> manifest \<Rightarrow> ('s, 'v, installation) registry_op" where
  "plugin_install p now tenantID m rg =
     (case requireTenant tenantID of
        Some e \<Rightarrow> (rg, Err e)
      | None \<Rightarrow>
     (case manifest_validate m of
        Some e \<Rightarrow> (rg, Err e)
      | None \<Rightarrow>
     (case pp_getManifest p (mf_Slug m) (rg_store rg) of
        Err e \<Rightarrow> (rg, Err e)
      | Ok _ \<Rightarrow>
     (if (case pp_get p tenantID (mf_Slug m) (rg_store rg) of Err _ \<Rightarrow> False | Ok ex \<Rightarrow> in_State ex \<noteq> StateUninstalled)
      then (rg, Err ErrPluginAlreadyInstalled)
      else
     (let row = new_installation tenantID m now in
      case pp_create p row (rg_store rg) of
        (s, Err e) \<Rightarrow> (rg\<lparr>rg_store := s\<rparr>, Err e)
      | (s, Ok _) \<Rightarrow>
     (case pp_replaceSubs p tenantID (mf_Slug m) (mf_EventSubscriptions m) s of
        (s, Err e) \<Rightarrow> (rg\<lparr>rg_store := s\<rparr>, Err e)
      | (s, Ok _) \<Rightarrow> (rg\<lparr>rg_store := s\<rparr>, Ok row)))))))"

definition moved_installation :: "pstate \<Rightarrow> ptransition \<Rightarrow> string \<Rightarrow> installation \<Rightarrow> installation" where
  "moved_installation target t now row =
     (let row = row\<lparr>in_State := target, in_UpdatedAt := now\<rparr>
      in if t = TransitionActivate \<and> in_ActivatedAt row = [] then row\<lparr>in_ActivatedAt := now\<rparr> else row)"

definition plugin_transition ::
  "'s plugin_ports \<Rightarrow> string \<Rightarrow> gotime \<Rightarrow> string \<Rightarrow> string \<Rightarrow> ptransition \<Rightarrow> ('s, 'v, installation) registry_op" where
  "plugin_transition p now at tenantID slug t rg =
     (case requireTenantSlug tenantID slug of
        Some e \<Rightarrow> (rg, Err e)
      | None \<Rightarrow>
     (case pp_get p tenantID slug (rg_store rg) of
        Err e \<Rightarrow> (rg, Err e)
      | Ok row0 \<Rightarrow>
     (case nextPState (in_State row0) t of
        Err e \<Rightarrow> (rg, Err e)
      | Ok target \<Rightarrow>
     (let row = moved_installation target t now row0 in
      case recordHook tenantID slug at (rg_sandbox rg) of
        (sb, Some e) \<Rightarrow> (rg\<lparr>rg_sandbox := sb\<rparr>, Err e)
      | (sb, None) \<Rightarrow>
     (case pp_saveState p row (rg_store rg) of
        (s, Err e) \<Rightarrow> (rg\<lparr>rg_sandbox := sb, rg_store := s\<rparr>, Err e)
      | (s, Ok _) \<Rightarrow> (rg\<lparr>rg_sandbox := sb, rg_store := s\<rparr>, Ok row))))))"

definition plugin_activate where
  "plugin_activate p now at tenantID slug = plugin_transition p now at tenantID slug TransitionActivate"

definition plugin_deactivate where
  "plugin_deactivate p now at tenantID slug = plugin_transition p now at tenantID slug TransitionDeactivate"

definition plugin_uninstall :: "'s plugin_ports \<Rightarrow> string \<Rightarrow> string \<Rightarrow> ('s, 'v, unit) registry_op" where
  "plugin_uninstall p tenantID slug rg =
     (case requireTenantSlug tenantID slug of
        Some e \<Rightarrow> (rg, Err e)
      | None \<Rightarrow>
     (case pp_get p tenantID slug (rg_store rg) of
        Err e \<Rightarrow> (rg, Err e)
      | Ok row \<Rightarrow>
     (case nextPState (in_State row) TransitionUninstall of
        Err e \<Rightarrow> (rg, Err e)
      | Ok _ \<Rightarrow>
     (case pp_deleteSubs p tenantID slug (rg_store rg) of
        (s, Err e) \<Rightarrow> (rg\<lparr>rg_store := s\<rparr>, Err e)
      | (s, Ok _) \<Rightarrow> (case pp_delete p tenantID slug s of (s, r) \<Rightarrow> (rg\<lparr>rg_store := s\<rparr>, r))))))"

definition registry_list ::
  "(installation list \<Rightarrow> installation list) \<Rightarrow> string \<Rightarrow> int \<Rightarrow> int \<Rightarrow> (plugin_mem, 'v) plugin_registry \<Rightarrow> (plugin_error + installation list \<times> int) option" where
  "registry_list it tenantID page perPage rg =
     (case requireTenant tenantID of
        Some e \<Rightarrow> Some (Err e)
      | None \<Rightarrow> map_option Ok (mem_listInstallations it tenantID page perPage (rg_store rg)))"

definition plugin_get :: "'s plugin_ports \<Rightarrow> string \<Rightarrow> string \<Rightarrow> ('s, 'v) plugin_registry \<Rightarrow> plugin_error + installation" where
  "plugin_get p tenantID slug rg =
     (case requireTenantSlug tenantID slug of Some e \<Rightarrow> Err e | None \<Rightarrow> pp_get p tenantID slug (rg_store rg))"

definition registry_settings :: "string \<Rightarrow> string \<Rightarrow> ('s, 'v) plugin_registry \<Rightarrow> (string, 'v) gomap" where
  "registry_settings tenantID slug rg = settings_get tenantID slug (rg_settings rg)"

definition plugin_setSettings :: "string \<Rightarrow> string \<Rightarrow> (string, 'v) gomap option \<Rightarrow> ('s, 'v) plugin_registry \<Rightarrow> ('s, 'v) plugin_registry" where
  "plugin_setSettings tenantID slug vs rg = rg\<lparr>rg_settings := settings_set tenantID slug vs (rg_settings rg)\<rparr>"

subsection \<open>The contract of the repositories\<close>

definition upd2 :: "('a \<Rightarrow> 'b \<Rightarrow> 'c) \<Rightarrow> 'a \<Rightarrow> 'b \<Rightarrow> 'c \<Rightarrow> 'a \<Rightarrow> 'b \<Rightarrow> 'c" where
  "upd2 f a b v = (\<lambda>a' b'. if a' = a \<and> b' = b then v else f a' b')"

lemma failed: "Err e = r \<Longrightarrow> \<not> is_ok r"
  by auto

lemma upd2_other [simp]: "t' \<noteq> t \<Longrightarrow> upd2 f t g v t' = f t'"
  by (simp add: upd2_def)

lemma upd2_at: "upd2 f t g v t' g' = (if t' = t \<and> g' = g then v else f t' g')"
  by (simp add: upd2_def)

text \<open>What the registry relies on: a success has its effect on the one row, an error has none.\<close>

locale plugin_store =
  fixes p :: "'s plugin_ports"
    and ins :: "'s \<Rightarrow> string \<Rightarrow> string \<Rightarrow> installation option"
    and subs :: "'s \<Rightarrow> string \<Rightarrow> string \<Rightarrow> string list option"
  assumes get: "pp_get p t g s = Ok row \<longleftrightarrow> ins s t g = Some row"
    and create: "pp_create p row s = (s', r) \<Longrightarrow> subs s' = subs s
      \<and> (if is_ok r then ins s (in_TenantID row) (in_Slug row) = None
           \<and> ins s' = upd2 (ins s) (in_TenantID row) (in_Slug row) (Some row) else ins s' = ins s)"
    and save: "pp_saveState p row s = (s', r) \<Longrightarrow> subs s' = subs s
      \<and> (if is_ok r then ins s' = upd2 (ins s) (in_TenantID row) (in_Slug row) (Some row) else ins s' = ins s)"
    and delete: "pp_delete p t g s = (s', r) \<Longrightarrow> subs s' = subs s
      \<and> (if is_ok r then ins s' = upd2 (ins s) t g None else ins s' = ins s)"
    and replace: "pp_replaceSubs p t g evs s = (s', r) \<Longrightarrow> ins s' = ins s
      \<and> (if is_ok r then subs s' = upd2 (subs s) t g (Some evs) else subs s' = subs s)"
    and unsubscribe: "pp_deleteSubs p t g s = (s', r) \<Longrightarrow> ins s' = ins s
      \<and> (if is_ok r then subs s' = upd2 (subs s) t g None else subs s' = subs s)"

datatype registry_call =
    CallInstall string string manifest
  | CallActivate string gotime string string
  | CallDeactivate string gotime string string
  | CallUninstall string string

definition run_call :: "'s plugin_ports \<Rightarrow> registry_call \<Rightarrow> ('s, 'v) plugin_registry \<Rightarrow> ('s, 'v) plugin_registry \<times> (plugin_error + unit)" where
  "run_call p c rg =
     (case c of
        CallInstall now t m \<Rightarrow> map_prod (\<lambda>x. x) (map_sum (\<lambda>x. x) (\<lambda>_. ())) (plugin_install p now t m rg)
      | CallActivate now at t g \<Rightarrow> map_prod (\<lambda>x. x) (map_sum (\<lambda>x. x) (\<lambda>_. ())) (plugin_activate p now at t g rg)
      | CallDeactivate now at t g \<Rightarrow> map_prod (\<lambda>x. x) (map_sum (\<lambda>x. x) (\<lambda>_. ())) (plugin_deactivate p now at t g rg)
      | CallUninstall t g \<Rightarrow> plugin_uninstall p t g rg)"

fun run_calls :: "'s plugin_ports \<Rightarrow> registry_call list \<Rightarrow> ('s, 'v) plugin_registry \<Rightarrow> ('s, 'v) plugin_registry" where
  "run_calls p [] rg = rg"
| "run_calls p (c # cs) rg = run_calls p cs (fst (run_call p c rg))"

fun call_tenant :: "registry_call \<Rightarrow> string" where
  "call_tenant (CallInstall _ t _) = t"
| "call_tenant (CallActivate _ _ t _) = t"
| "call_tenant (CallDeactivate _ _ t _) = t"
| "call_tenant (CallUninstall t _) = t"

text \<open>The abstract registry: the state of every installation. A call that is not allowed has no successor.\<close>

type_synonym registry_spec = "string \<Rightarrow> string \<Rightarrow> pstate option"

definition spec_move :: "string \<Rightarrow> string \<Rightarrow> ptransition \<Rightarrow> registry_spec \<Rightarrow> registry_spec option" where
  "spec_move t g tr a =
     (case a t g of
        None \<Rightarrow> None
      | Some s \<Rightarrow> map_option (\<lambda>d. upd2 a t g (if d = StateUninstalled then None else Some d)) (pstep s tr))"

fun spec_call :: "registry_call \<Rightarrow> registry_spec \<Rightarrow> registry_spec option" where
  "spec_call (CallInstall _ t m) a =
     (if a t (mf_Slug m) = None then Some (upd2 a t (mf_Slug m) (Some StateInstalled)) else None)"
| "spec_call (CallActivate _ _ t g) a = spec_move t g TransitionActivate a"
| "spec_call (CallDeactivate _ _ t g) a = spec_move t g TransitionDeactivate a"
| "spec_call (CallUninstall t g) a = spec_move t g TransitionUninstall a"

lemma pstep_simps:
  "pstep s TransitionUninstall = (if s = StateUninstalled then None else Some StateUninstalled)"
  "pstep s TransitionActivate = (if s = StateInstalled \<or> s = StateDeactivated then Some StateActive else None)"
  "pstep s TransitionDeactivate = (if s = StateActive then Some StateDeactivated else None)"
  by (cases s; simp add: pstep_def table_next_def plugin_table_def mget_def)+

text \<open>What is stored in the place of a tenant and a slug.\<close>

definition row_ok :: "string \<Rightarrow> string \<Rightarrow> installation \<Rightarrow> bool" where
  "row_ok t g row \<longleftrightarrow>
     in_TenantID row = t \<and> in_Slug row = g \<and> isValidSlug g \<and> trim_space t \<noteq> [] \<and> in_State row \<noteq> StateUninstalled
     \<and> (in_State row = StateInstalled \<longrightarrow> in_ActivatedAt row = [])"

lemma validate_slug: "manifest_validate m = None \<Longrightarrow> isValidSlug (mf_Slug m)"
  by (auto simp: manifest_validate_def validateIdentity_def split: if_splits option.splits)

lemma hook_frame:
  assumes "recordHook t g at sb = (sb', e)" and "k \<noteq> plugin_key t g"
  shows "mget (sb_buckets sb') k = mget (sb_buckets sb) k"
  using assms by (auto simp: recordHook_def Let_def split: if_splits)

context plugin_store
begin

definition abs :: "('s, 'v) plugin_registry \<Rightarrow> registry_spec" where
  "abs rg t g = map_option in_State (ins (rg_store rg) t g)"

definition rows_ok :: "('s, 'v) plugin_registry \<Rightarrow> bool" where
  "rows_ok rg \<longleftrightarrow> (\<forall>t g row. ins (rg_store rg) t g = Some row \<longrightarrow> row_ok t g row)"

text \<open>Every call changes at most one row, to one that is in order.\<close>

lemma install_cases:
  assumes "plugin_install p now t m rg = (rg', r)"
    and "pp_create p (new_installation t m now) (rg_store rg) = (s, x)"
    and "pp_replaceSubs p t (mf_Slug m) (mf_EventSubscriptions m) s = (s2, y)"
  shows "rg' = rg \<and> \<not> is_ok r
    \<or> isValidSlug (mf_Slug m) \<and> trim_space t \<noteq> [] \<and>
      (\<not> is_ok x \<and> rg' = rg\<lparr>rg_store := s\<rparr> \<and> \<not> is_ok r
       \<or> is_ok x \<and> rg' = rg\<lparr>rg_store := s2\<rparr> \<and> is_ok r = is_ok y)"
  using assms validate_slug [of m]
  by (cases x; cases y) (auto simp: plugin_install_def requireTenant_def Let_def split: if_splits option.splits sum.splits)

lemma install_effect:
  assumes "plugin_install p now t m rg = (rg', r)"
  shows "is_ok r \<Longrightarrow> ins (rg_store rg) t (mf_Slug m) = None \<and> isValidSlug (mf_Slug m) \<and> trim_space t \<noteq> []
      \<and> ins (rg_store rg') = upd2 (ins (rg_store rg)) t (mf_Slug m) (Some (new_installation t m now))"
    and "ins (rg_store rg') = ins (rg_store rg)
      \<or> isValidSlug (mf_Slug m) \<and> trim_space t \<noteq> [] \<and> ins (rg_store rg) t (mf_Slug m) = None
        \<and> ins (rg_store rg') = upd2 (ins (rg_store rg)) t (mf_Slug m) (Some (new_installation t m now))"
    and "rg_sandbox rg' = rg_sandbox rg" and "rg_settings rg' = rg_settings rg"
    and "t' \<noteq> t \<Longrightarrow> subs (rg_store rg') t' = subs (rg_store rg) t'"
proof -
  obtain s x where c: "pp_create p (new_installation t m now) (rg_store rg) = (s, x)" by force
  obtain s2 y where r: "pp_replaceSubs p t (mf_Slug m) (mf_EventSubscriptions m) s = (s2, y)" by force
  have row: "in_TenantID (new_installation t m now) = t" "in_Slug (new_installation t m now) = mf_Slug m"
    by (simp_all add: new_installation_def)
  note main = install_cases [OF assms c r] create [OF c, unfolded row] replace [OF r]
  show "is_ok r \<Longrightarrow> ins (rg_store rg) t (mf_Slug m) = None \<and> isValidSlug (mf_Slug m) \<and> trim_space t \<noteq> []
      \<and> ins (rg_store rg') = upd2 (ins (rg_store rg)) t (mf_Slug m) (Some (new_installation t m now))"
    using main by (auto split: if_splits)
  show "ins (rg_store rg') = ins (rg_store rg)
      \<or> isValidSlug (mf_Slug m) \<and> trim_space t \<noteq> [] \<and> ins (rg_store rg) t (mf_Slug m) = None
        \<and> ins (rg_store rg') = upd2 (ins (rg_store rg)) t (mf_Slug m) (Some (new_installation t m now))"
    using main by (auto split: if_splits)
  show "rg_sandbox rg' = rg_sandbox rg" "rg_settings rg' = rg_settings rg" using main(1) by auto
  show "t' \<noteq> t \<Longrightarrow> subs (rg_store rg') t' = subs (rg_store rg) t'"
    using main by (auto split: if_splits)
qed

lemma refused:
  assumes "\<not> (\<exists>row target. ins (rg_store rg) t g = Some row \<and> pstep (in_State row) tr = Some target)"
  obtains e where "pp_get p t g (rg_store rg) = Err e"
    | row e where "pp_get p t g (rg_store rg) = Ok row" "nextPState (in_State row) tr = Err e"
proof (cases "pp_get p t g (rg_store rg)")
  case (Inr row)
  then have "pstep (in_State row) tr = None" using assms get [of t g "rg_store rg" row] by auto
  then have "nextPState (in_State row) tr \<noteq> Ok d" for d by (simp add: nextPState_Ok)
  then obtain e where "nextPState (in_State row) tr = Err e" by (cases "nextPState (in_State row) tr") auto
  then show ?thesis using that(2) Inr by blast
qed (use that(1) in blast)

text \<open>The same for a transition and for the removal of an installation.\<close>

lemma transition_effect:
  assumes "plugin_transition p now at t g tr rg = (rg', r)"
  shows "rg' = rg \<and> \<not> is_ok r \<or> (\<exists>row target.
      ins (rg_store rg) t g = Some row \<and> pstep (in_State row) tr = Some target \<and> isValidSlug g \<and> trim_space t \<noteq> []
      \<and> (\<exists>e. (rg_sandbox rg', e) = recordHook t g at (rg_sandbox rg) \<and> rg_settings rg' = rg_settings rg
         \<and> subs (rg_store rg') = subs (rg_store rg)
         \<and> (if e \<noteq> None then rg_store rg' = rg_store rg \<and> \<not> is_ok r
            else ins (rg_store rg') = (if is_ok r then upd2 (ins (rg_store rg)) (in_TenantID row) (in_Slug row) (Some (moved_installation target tr now row))
                                       else ins (rg_store rg)))))"
proof (cases "requireTenantSlug t g = None \<and> (\<exists>row target. ins (rg_store rg) t g = Some row \<and> pstep (in_State row) tr = Some target)")
  case True
  then obtain row target where c: "requireTenantSlug t g = None" "ins (rg_store rg) t g = Some row" "pstep (in_State row) tr = Some target" by blast
  obtain sb e where h: "recordHook t g at (rg_sandbox rg) = (sb, e)" by force
  obtain s x where s: "pp_saveState p (moved_installation target tr now row) (rg_store rg) = (s, x)" by force
  have row: "in_TenantID (moved_installation target tr now row) = in_TenantID row" "in_Slug (moved_installation target tr now row) = in_Slug row"
    by (simp_all add: moved_installation_def Let_def)
  have g: "pp_get p t g (rg_store rg) = Ok row" "nextPState (in_State row) tr = Ok target" using c by (simp_all add: get nextPState_Ok)
  have v: "isValidSlug g" "trim_space t \<noteq> []" using c(1) by (auto simp: requireTenantSlug_def requireTenant_def split: if_splits)
  have "rg' = (case e of Some e' \<Rightarrow> rg\<lparr>rg_sandbox := sb\<rparr> | None \<Rightarrow> rg\<lparr>rg_sandbox := sb, rg_store := s\<rparr>) \<and> is_ok r = (e = None \<and> is_ok x)"
    using assms by (cases e; cases x) (auto simp: plugin_transition_def c(1) g h s Let_def)
  then show ?thesis using c v h save [OF s, unfolded row] by (cases e) (auto split: if_splits)
next
  case False
  then have "rg' = rg \<and> \<not> is_ok r"
  proof (cases "requireTenantSlug t g")
    case None
    show ?thesis
      by (rule refused [of rg t g tr]) (use False None assms in \<open>auto simp: plugin_transition_def dest: failed\<close>)
  qed (use assms in \<open>auto simp: plugin_transition_def\<close>)
  then show ?thesis by blast
qed

lemma uninstall_cases:
  assumes "plugin_uninstall p t g rg = (rg', r)"
    and "pp_deleteSubs p t g (rg_store rg) = (s, x)" and "pp_delete p t g s = (s2, y)"
  shows "rg' = rg \<and> \<not> is_ok r
    \<or> (\<exists>row. ins (rg_store rg) t g = Some row \<and> in_State row \<noteq> StateUninstalled)
      \<and> rg' = rg\<lparr>rg_store := if is_ok x then s2 else s\<rparr> \<and> is_ok r = (is_ok x \<and> is_ok y)"
proof (cases "requireTenantSlug t g = None \<and> (\<exists>row target. ins (rg_store rg) t g = Some row \<and> pstep (in_State row) TransitionUninstall = Some target)")
  case True
  then obtain row target where c: "requireTenantSlug t g = None" "ins (rg_store rg) t g = Some row" "pstep (in_State row) TransitionUninstall = Some target" by blast
  have g: "pp_get p t g (rg_store rg) = Ok row" "nextPState (in_State row) TransitionUninstall = Ok target" using c by (simp_all add: get nextPState_Ok)
  have "rg' = rg\<lparr>rg_store := if is_ok x then s2 else s\<rparr> \<and> is_ok r = (is_ok x \<and> is_ok y)"
    using assms(1) by (cases x) (auto simp: plugin_uninstall_def c(1) g assms(2,3))
  then show ?thesis using c by (auto simp: pstep_simps split: if_splits)
next
  case False
  have "rg' = rg \<and> \<not> is_ok r"
  proof (cases "requireTenantSlug t g")
    case None
    show ?thesis
      by (rule refused [of rg t g TransitionUninstall]) (use False None assms(1) in \<open>auto simp: plugin_uninstall_def dest: failed\<close>)
  qed (use assms(1) in \<open>auto simp: plugin_uninstall_def\<close>)
  then show ?thesis by simp
qed

lemma uninstall_effect:
  assumes "plugin_uninstall p t g rg = (rg', r)"
  shows "rg_sandbox rg' = rg_sandbox rg \<and> rg_settings rg' = rg_settings rg \<and> (t' \<noteq> t \<longrightarrow> subs (rg_store rg') t' = subs (rg_store rg) t')
    \<and> ins (rg_store rg') = (if is_ok r then upd2 (ins (rg_store rg)) t g None else ins (rg_store rg))
    \<and> (is_ok r \<longrightarrow> (\<exists>row. ins (rg_store rg) t g = Some row \<and> in_State row \<noteq> StateUninstalled))"
proof -
  obtain s x where d: "pp_deleteSubs p t g (rg_store rg) = (s, x)" by force
  obtain s2 y where e: "pp_delete p t g s = (s2, y)" by force
  show ?thesis using uninstall_cases [OF assms d e] unsubscribe [OF d] delete [OF e] by (auto split: if_splits)
qed

lemma row_ok_installed: "isValidSlug (mf_Slug m) \<Longrightarrow> trim_space t \<noteq> [] \<Longrightarrow> row_ok t (mf_Slug m) (new_installation t m now)"
  by (simp add: row_ok_def new_installation_def)

lemma row_ok_moved:
  "row_ok t g row \<Longrightarrow> pstep (in_State row) tr = Some target \<Longrightarrow> tr \<noteq> TransitionUninstall
    \<Longrightarrow> row_ok t g (moved_installation target tr now row) \<and> in_State (moved_installation target tr now row) = target"
  by (cases tr) (auto simp: row_ok_def moved_installation_def Let_def pstep_simps split: if_splits)

lemma rows_ok_upd2:
  "rows_ok rg \<Longrightarrow> ins (rg_store rg') = upd2 (ins (rg_store rg)) t g v \<Longrightarrow> (\<And>row. v = Some row \<Longrightarrow> row_ok t g row) \<Longrightarrow> rows_ok rg'"
  by (auto simp: rows_ok_def upd2_at split: if_splits)

lemma abs_upd2: "ins (rg_store rg') = upd2 (ins (rg_store rg)) t g v \<Longrightarrow> abs rg' = upd2 (abs rg) t g (map_option in_State v)"
  by (auto simp: abs_def upd2_def fun_eq_iff)

lemma abs_same: "ins (rg_store rg') = ins (rg_store rg) \<Longrightarrow> abs rg' = abs rg \<and> rows_ok rg' = rows_ok rg"
  by (auto simp: abs_def rows_ok_def fun_eq_iff)

text \<open>A transition implements the move of the specification, or changes no installation.\<close>

lemma transition_refines:
  assumes "plugin_transition p now at t g tr rg = (rg', r)" and ok: "rows_ok rg" and tr: "tr \<noteq> TransitionUninstall"
  shows "rows_ok rg' \<and> (if is_ok r then spec_move t g tr (abs rg) = Some (abs rg') else abs rg' = abs rg)"
  using transition_effect [OF assms(1)]
proof (elim disjE conjE exE)
  assume "rg' = rg" "\<not> is_ok r"
  then show ?thesis using ok by simp
next
  fix row target e
  assume row: "ins (rg_store rg) t g = Some row" "pstep (in_State row) tr = Some target"
    and res: "if e \<noteq> None then rg_store rg' = rg_store rg \<and> \<not> is_ok r
            else ins (rg_store rg') = (if is_ok r then upd2 (ins (rg_store rg)) (in_TenantID row) (in_Slug row) (Some (moved_installation target tr now row))
                                       else ins (rg_store rg))"
  have ro: "row_ok t g row" using ok row(1) by (simp add: rows_ok_def)
  note mv = row_ok_moved [OF ro row(2) tr, of now]
  show ?thesis
  proof (cases "is_ok r")
    case True
    then have i: "ins (rg_store rg') = upd2 (ins (rg_store rg)) t g (Some (moved_installation target tr now row))"
      using res ro by (auto simp: row_ok_def split: if_splits)
    have "target \<noteq> StateUninstalled" using mv by (auto simp: row_ok_def)
    moreover have "abs rg t g = Some (in_State row)" using row(1) by (simp add: abs_def)
    ultimately have "spec_move t g tr (abs rg) = Some (abs rg')"
      using row(2) abs_upd2 [OF i] mv by (simp add: spec_move_def)
    then show ?thesis using True rows_ok_upd2 [OF ok i] mv by simp
  next
    case False
    then have "ins (rg_store rg') = ins (rg_store rg)" using res by (auto split: if_splits)
    from abs_same [OF this] show ?thesis using False ok by simp
  qed
qed

end

text \<open>A store whose removal of subscriptions and of an existing row succeeds, and which can always replace subscriptions.\<close>

locale reliable_store = plugin_store p ins subs
  for p :: "'s plugin_ports" and ins :: "'s \<Rightarrow> string \<Rightarrow> string \<Rightarrow> installation option"
    and subs :: "'s \<Rightarrow> string \<Rightarrow> string \<Rightarrow> string list option" +
  assumes replace_ok: "is_ok (snd (pp_replaceSubs p t g evs s))"
    and unsubscribe_ok: "is_ok (snd (pp_deleteSubs p t g s))"
    and delete_ok: "ins s t g \<noteq> None \<Longrightarrow> is_ok (snd (pp_delete p t g s))"
begin

lemma install_all_or_nothing:
  assumes "plugin_install p now t m rg = (rg', r)"
  shows "if is_ok r
    then ins (rg_store rg') = upd2 (ins (rg_store rg)) t (mf_Slug m) (Some (new_installation t m now))
      \<and> subs (rg_store rg') = upd2 (subs (rg_store rg)) t (mf_Slug m) (Some (mf_EventSubscriptions m))
    else ins (rg_store rg') = ins (rg_store rg) \<and> subs (rg_store rg') = subs (rg_store rg)"
proof -
  obtain s x where c: "pp_create p (new_installation t m now) (rg_store rg) = (s, x)" by force
  obtain s2 y where r: "pp_replaceSubs p t (mf_Slug m) (mf_EventSubscriptions m) s = (s2, y)" by force
  have row: "in_TenantID (new_installation t m now) = t" "in_Slug (new_installation t m now) = mf_Slug m"
    by (simp_all add: new_installation_def)
  have "is_ok y" using replace_ok [of t "mf_Slug m" "mf_EventSubscriptions m" s] r by simp
  then show ?thesis using install_cases [OF assms c r] create [OF c, unfolded row] replace [OF r] by (auto split: if_splits)
qed

lemma uninstall_all_or_nothing:
  assumes "plugin_uninstall p t g rg = (rg', r)"
  shows "if is_ok r
    then ins (rg_store rg') = upd2 (ins (rg_store rg)) t g None \<and> subs (rg_store rg') = upd2 (subs (rg_store rg)) t g None
    else ins (rg_store rg') = ins (rg_store rg) \<and> subs (rg_store rg') = subs (rg_store rg)"
proof -
  obtain s x where d: "pp_deleteSubs p t g (rg_store rg) = (s, x)" by force
  obtain s2 y where e: "pp_delete p t g s = (s2, y)" by force
  have "is_ok x" using unsubscribe_ok [of t g "rg_store rg"] d by simp
  moreover have "is_ok y" if "ins (rg_store rg) t g \<noteq> None" using delete_ok [of s t g] unsubscribe [OF d] that e by simp
  ultimately show ?thesis using uninstall_cases [OF assms d e] unsubscribe [OF d] delete [OF e] by auto
qed

text \<open>All that a registry holds is in order, and exactly the installed plugins have subscriptions.\<close>

definition reg_ok :: "('s, 'v) plugin_registry \<Rightarrow> bool" where
  "reg_ok rg \<longleftrightarrow> rows_ok rg \<and> (\<forall>t g. subs (rg_store rg) t g = None \<longleftrightarrow> ins (rg_store rg) t g = None)"

lemma transition_subs:
  assumes "plugin_transition p now at t g tr rg = (rg', r)" "rows_ok rg"
  shows "subs (rg_store rg') = subs (rg_store rg) \<and> (\<forall>t g. ins (rg_store rg') t g = None \<longleftrightarrow> ins (rg_store rg) t g = None)"
  using transition_effect [OF assms(1)]
proof (elim disjE conjE exE)
  fix row target e
  assume "ins (rg_store rg) t g = Some row" "subs (rg_store rg') = subs (rg_store rg)"
    "if e \<noteq> None then rg_store rg' = rg_store rg \<and> \<not> is_ok r
            else ins (rg_store rg') = (if is_ok r then upd2 (ins (rg_store rg)) (in_TenantID row) (in_Slug row) (Some (moved_installation target tr now row))
                                       else ins (rg_store rg))"
  moreover have "in_TenantID row = t \<and> in_Slug row = g" using assms(2) calculation(1) by (auto simp: rows_ok_def row_ok_def)
  ultimately show ?thesis by (auto simp: upd2_at split: if_splits)
qed simp

lemma call_refines:
  assumes "run_call p c rg = (rg', r)" and ok: "reg_ok rg"
  shows "reg_ok rg' \<and> (if is_ok r then spec_call c (abs rg) = Some (abs rg') else abs rg' = abs rg)"
proof (cases c)
  case (CallInstall now t m)
  then obtain r0 where i: "plugin_install p now t m rg = (rg', r0)" and r: "is_ok r = is_ok r0"
    using assms(1) by (cases "plugin_install p now t m rg"; cases "snd (plugin_install p now t m rg)") (auto simp: run_call_def)
  note all = install_all_or_nothing [OF i]
  show ?thesis
  proof (cases "is_ok r0")
    case True
    note e = install_effect(1) [OF i True]
    have "rows_ok rg'" 
      by (rule rows_ok_upd2 [of rg rg' t "mf_Slug m" "Some (new_installation t m now)"])
         (use ok e row_ok_installed in \<open>simp_all add: reg_ok_def\<close>)
    moreover have "spec_call c (abs rg) = Some (abs rg')"
      using e abs_upd2 [of rg' rg] CallInstall by (simp add: abs_def new_installation_def)
    ultimately show ?thesis using True r all ok by (auto simp: reg_ok_def upd2_at)
  next
    case False
    then show ?thesis using all ok r abs_same [of rg' rg] by (simp add: reg_ok_def)
  qed
next
  case (CallActivate now at t g)
  then obtain r0 where i: "plugin_transition p now at t g TransitionActivate rg = (rg', r0)" and r: "is_ok r = is_ok r0"
    using assms(1) by (cases "plugin_activate p now at t g rg"; cases "snd (plugin_activate p now at t g rg)") (auto simp: run_call_def plugin_activate_def)
  then show ?thesis using transition_refines [OF i] transition_subs [OF i] ok CallActivate by (auto simp: reg_ok_def)
next
  case (CallDeactivate now at t g)
  then obtain r0 where i: "plugin_transition p now at t g TransitionDeactivate rg = (rg', r0)" and r: "is_ok r = is_ok r0"
    using assms(1) by (cases "plugin_deactivate p now at t g rg"; cases "snd (plugin_deactivate p now at t g rg)") (auto simp: run_call_def plugin_deactivate_def)
  then show ?thesis using transition_refines [OF i] transition_subs [OF i] ok CallDeactivate by (auto simp: reg_ok_def)
next
  case (CallUninstall t g)
  then have i: "plugin_uninstall p t g rg = (rg', r)" using assms(1) by (simp add: run_call_def)
  note all = uninstall_all_or_nothing [OF i]
  show ?thesis
  proof (cases "is_ok r")
    case True
    then obtain row where row: "ins (rg_store rg) t g = Some row" "in_State row \<noteq> StateUninstalled" using uninstall_effect [OF i] by blast
    have "spec_call c (abs rg) = Some (abs rg')"
      using row all True abs_upd2 [of rg' rg t g None] CallUninstall by (simp add: spec_move_def pstep_simps abs_def)
    moreover have "rows_ok rg'" 
      by (rule rows_ok_upd2 [of rg rg' t g None]) (use ok all True in \<open>simp_all add: reg_ok_def\<close>)
    ultimately show ?thesis using True all ok by (auto simp: reg_ok_def upd2_at)
  next
    case False
    then show ?thesis using all ok abs_same [of rg' rg] by (simp add: reg_ok_def)
  qed
qed

lemma calls_ok: "reg_ok rg \<Longrightarrow> reg_ok (run_calls p cs rg)"
proof (induction cs arbitrary: rg)
  case (Cons c cs)
  obtain rg' r where "run_call p c rg = (rg', r)" by force
  with Cons call_refines [OF this Cons.prems] show ?case by simp
qed simp

end

interpretation mps: reliable_store mem_ports "\<lambda>r. nget (pm_ins r)" "\<lambda>r. nget (pm_subs r)"
  by unfold_locales
     (auto simp: mem_ports_def mem_get_def mem_create_def mem_saveState_def mem_delete_def mem_replaceSubs_def
        mem_deleteSubs_def upd2_def fun_eq_iff split: option.splits if_splits)

subsection \<open>The registry over the in-memory repositories\<close>

definition newRegistry :: "(string, manifest) gomap \<Rightarrow> sandbox \<Rightarrow> (plugin_mem, 'v) plugin_registry" where
  "newRegistry manifests sb =
     \<lparr>rg_store = \<lparr>pm_bySlug = manifests, pm_ins = [], pm_subs = []\<rparr>, rg_sandbox = sb, rg_settings = []\<rparr>"

definition installed_state :: "(plugin_mem, 'v) plugin_registry \<Rightarrow> registry_spec" where
  "installed_state rg t g = map_option in_State (nget (pm_ins (rg_store rg)) t g)"

definition subscribed :: "(plugin_mem, 'v) plugin_registry \<Rightarrow> string \<Rightarrow> string \<Rightarrow> string list option" where
  "subscribed rg t g = nget (pm_subs (rg_store rg)) t g"

lemma mps_abs: "mps.abs rg = installed_state rg"
  by (simp add: mps.abs_def installed_state_def fun_eq_iff)

lemma mps_reg_ok_new: "mps.reg_ok (newRegistry manifests sb)"
  by (simp add: mps.reg_ok_def mps.rows_ok_def newRegistry_def nget_def nrows_def)

text \<open>What a call needs beside a state that has the move.\<close>

fun call_admitted :: "registry_call \<Rightarrow> (plugin_mem, 'v) plugin_registry \<Rightarrow> bool" where
  "call_admitted (CallInstall _ t m) rg \<longleftrightarrow>
     trim_space t \<noteq> [] \<and> manifest_validate m = None \<and> mget (pm_bySlug (rg_store rg)) (mf_Slug m) \<noteq> None"
| "call_admitted (CallActivate _ at t g) rg \<longleftrightarrow>
     trim_space t \<noteq> [] \<and> isValidSlug g \<and> snd (recordHook t g at (rg_sandbox rg)) = None"
| "call_admitted (CallDeactivate _ at t g) rg \<longleftrightarrow>
     trim_space t \<noteq> [] \<and> isValidSlug g \<and> snd (recordHook t g at (rg_sandbox rg)) = None"
| "call_admitted (CallUninstall t g) rg \<longleftrightarrow> trim_space t \<noteq> [] \<and> isValidSlug g"

lemma requireTenantSlug_None: "requireTenantSlug t g = None \<longleftrightarrow> trim_space t \<noteq> [] \<and> isValidSlug g"
  by (simp add: requireTenantSlug_def requireTenant_def)

lemma mem_ports_simps [simp]:
  "pp_getManifest mem_ports = mem_getManifest" "pp_create mem_ports = mem_create" "pp_get mem_ports = mem_get"
  "pp_saveState mem_ports = mem_saveState" "pp_delete mem_ports = mem_delete" "pp_replaceSubs mem_ports = mem_replaceSubs"
  "pp_deleteSubs mem_ports = mem_deleteSubs"
  by (simp_all add: mem_ports_def)

lemma is_ok_map_sum [simp]: "is_ok (map_sum f h r) = is_ok r"
  by (cases r) simp_all

lemma install_ok_iff:
  assumes ok: "mps.reg_ok rg"
  shows "is_ok (snd (plugin_install mem_ports now t m rg)) \<longleftrightarrow>
    call_admitted (CallInstall now t m) rg \<and> nget (pm_ins (rg_store rg)) t (mf_Slug m) = None"
proof (cases "nget (pm_ins (rg_store rg)) t (mf_Slug m)")
  case None
  then show ?thesis
    by (simp add: plugin_install_def requireTenant_def mem_get_def mem_getManifest_def mem_create_def mem_replaceSubs_def Let_def
        new_installation_def split: option.splits)
next
  case (Some row)
  then have "in_State row \<noteq> StateUninstalled" using ok by (auto simp: mps.reg_ok_def mps.rows_ok_def row_ok_def)
  with Some show ?thesis
    by (simp add: plugin_install_def requireTenant_def mem_get_def mem_getManifest_def split: option.splits)
qed

lemma transition_ok_iff:
  assumes ok: "mps.reg_ok rg"
  shows "is_ok (snd (plugin_transition mem_ports now at t g tr rg)) \<longleftrightarrow>
    trim_space t \<noteq> [] \<and> isValidSlug g \<and> snd (recordHook t g at (rg_sandbox rg)) = None
    \<and> (\<exists>row target. nget (pm_ins (rg_store rg)) t g = Some row \<and> pstep (in_State row) tr = Some target)"
proof (cases "trim_space t \<noteq> [] \<and> isValidSlug g \<and> (\<exists>row target. nget (pm_ins (rg_store rg)) t g = Some row \<and> pstep (in_State row) tr = Some target)")
  case True
  then obtain row target where c: "nget (pm_ins (rg_store rg)) t g = Some row" "pstep (in_State row) tr = Some target" by blast
  obtain sb e where h: "recordHook t g at (rg_sandbox rg) = (sb, e)" by force
  have r: "in_TenantID row = t" "in_Slug row = g" using ok c(1) by (auto simp: mps.reg_ok_def mps.rows_ok_def row_ok_def)
  have n: "nextPState (in_State row) tr = Ok target" using c(2) by (simp add: nextPState_Ok)
  have "mem_saveState (moved_installation target tr now row) (rg_store rg)
      = ((rg_store rg)\<lparr>pm_ins := nput t g (moved_installation target tr now row) (pm_ins (rg_store rg))\<rparr>, Ok ())"
    using c(1) r by (simp add: mem_saveState_def moved_installation_def Let_def)
  then show ?thesis
    using True c(1) n h by (cases e) (auto simp: plugin_transition_def requireTenantSlug_None [THEN iffD2] mem_get_def Let_def)
next
  case False
  then have "\<not> is_ok (snd (plugin_transition mem_ports now at t g tr rg))"
  proof (cases "trim_space t \<noteq> [] \<and> isValidSlug g")
    case True
    then have q: "requireTenantSlug t g = None" by (simp add: requireTenantSlug_None)
    show ?thesis
      by (rule mps.refused [of rg t g tr]) (use False True q in \<open>auto simp: plugin_transition_def\<close>)
  next
    case nv: False
    then obtain e where "requireTenantSlug t g = Some e" using requireTenantSlug_None [of t g] by auto
    then show ?thesis by (simp add: plugin_transition_def)
  qed
  then show ?thesis using False by blast
qed

lemma spec_move_iff:
  "spec_move t g tr (installed_state rg) \<noteq> None \<longleftrightarrow>
     (\<exists>row target. nget (pm_ins (rg_store rg)) t g = Some row \<and> pstep (in_State row) tr = Some target)"
  by (auto simp: spec_move_def installed_state_def split: option.splits)

lemma nextPState_Uninstall:
  "nextPState s TransitionUninstall = (if s = StateUninstalled then Err ErrPluginTransition else Ok StateUninstalled)"
  by (cases s) (simp_all add: nextPState_def plugin_table_def mget_def)

lemma uninstall_ok_iff:
  assumes ok: "mps.reg_ok rg"
  shows "is_ok (snd (plugin_uninstall mem_ports t g rg)) \<longleftrightarrow>
    trim_space t \<noteq> [] \<and> isValidSlug g \<and> spec_move t g TransitionUninstall (installed_state rg) \<noteq> None"
proof (cases "requireTenantSlug t g")
  case None
  then show ?thesis
    using requireTenantSlug_None [of t g] ok
    by (cases "nget (pm_ins (rg_store rg)) t g")
       (auto simp: plugin_uninstall_def mem_get_def mem_deleteSubs_def mem_delete_def spec_move_def installed_state_def pstep_simps
          nextPState_Uninstall mps.reg_ok_def mps.rows_ok_def row_ok_def split: sum.splits)
next
  case (Some e)
  then show ?thesis using requireTenantSlug_None [of t g] by (auto simp: plugin_uninstall_def)
qed

lemma call_ok_iff:
  assumes ok: "mps.reg_ok rg"
  shows "is_ok (snd (run_call mem_ports c rg)) \<longleftrightarrow> call_admitted c rg \<and> spec_call c (installed_state rg) \<noteq> None"
proof (cases c)
  case (CallInstall now t m)
  then show ?thesis using install_ok_iff [OF ok, of now t m] by (simp add: run_call_def installed_state_def)
next
  case (CallActivate now at t g)
  then show ?thesis
    using transition_ok_iff [OF ok, of now at t g TransitionActivate, folded spec_move_iff]
    by (simp add: run_call_def plugin_activate_def)
next
  case (CallDeactivate now at t g)
  then show ?thesis
    using transition_ok_iff [OF ok, of now at t g TransitionDeactivate, folded spec_move_iff]
    by (simp add: run_call_def plugin_deactivate_def)
next
  case (CallUninstall t g)
  then show ?thesis using uninstall_ok_iff [OF ok] by (simp add: run_call_def)
qed

text \<open>C17: The plugin registry implements its state machine, for every history. After any calls on an empty
  in-memory registry, a next call succeeds exactly when its arguments are valid, its plugin is in the
  catalogue, the sandbox has a hook left and the state machine allows the move; a success is that move, an
  error leaves every installation as it was; and exactly the installed plugins have subscriptions.\<close>

theorem plugin_registry_refines:
  "let rg = run_calls mem_ports cs (newRegistry manifests sb :: (plugin_mem, 'v) plugin_registry);
       rg' = fst (run_call mem_ports c rg); r = snd (run_call mem_ports c rg)
   in (is_ok r \<longleftrightarrow> call_admitted c rg \<and> spec_call c (installed_state rg) \<noteq> None)
    \<and> (if is_ok r then spec_call c (installed_state rg) = Some (installed_state rg') else installed_state rg' = installed_state rg)
    \<and> (\<forall>t g. subscribed rg' t g = None \<longleftrightarrow> installed_state rg' t g = None)"
proof -
  let ?rg = "run_calls mem_ports cs (newRegistry manifests sb :: (plugin_mem, 'v) plugin_registry)"
  obtain rg' r where c: "run_call mem_ports c ?rg = (rg', r)" by force
  have ok: "mps.reg_ok ?rg" by (rule mps.calls_ok [OF mps_reg_ok_new])
  note ref = mps.call_refines [OF c ok, unfolded mps_abs]
  moreover have "is_ok r \<longleftrightarrow> call_admitted c ?rg \<and> spec_call c (installed_state ?rg) \<noteq> None"
    using call_ok_iff [OF ok, of c] c by simp
  moreover have "\<forall>t g. subscribed rg' t g = None \<longleftrightarrow> installed_state rg' t g = None"
    using ref by (simp add: mps.reg_ok_def subscribed_def installed_state_def)
  ultimately show ?thesis unfolding Let_def c fst_conv snd_conv by blast
qed

subsection \<open>Tenants do not meet\<close>

lemma kebab_no_colon: "isValidSlug g \<Longrightarrow> CHR '':'' \<notin> set g"
  by (auto simp: isValidSlug_def list_all_iff kebab_char_def kebab_letter_def is_digit_def)

lemma plugin_key_inj:
  assumes "isValidSlug g" "isValidSlug g'" "plugin_key t g = plugin_key t' g'"
  shows "t = t' \<and> g = g'"
proof -
  let ?f = "\<lambda>xs. takeWhile (\<lambda>c. c \<noteq> CHR '':'') (rev xs)"
  have "?f (plugin_key t g) = rev g" if "isValidSlug g" for t g
    using kebab_no_colon [OF that] unfolding plugin_key_def by (simp, subst takeWhile_append2) auto
  then have "g = g'" using assms by (metis rev_rev_ident)
  then show ?thesis using assms(3) by (simp add: plugin_key_def)
qed

text \<open>What a tenant can see of the registry for one plugin.\<close>

definition tenant_view :: "string \<Rightarrow> string \<Rightarrow> (plugin_mem, 'v) plugin_registry \<Rightarrow> installation option \<times> string list option \<times> bucket option" where
  "tenant_view t g rg =
     (nget (pm_ins (rg_store rg)) t g, nget (pm_subs (rg_store rg)) t g, mget (sb_buckets (rg_sandbox rg)) (plugin_key t g))"

lemma transition_view:
  assumes "plugin_transition mem_ports now at t' g' tr rg = (rg', r)" "mps.reg_ok rg" "t \<noteq> t'" "isValidSlug g"
  shows "tenant_view t g rg' = tenant_view t g rg"
  using mps.transition_effect [OF assms(1)]
proof (elim disjE conjE exE)
  fix row target e
  assume c: "nget (pm_ins (rg_store rg)) t' g' = Some row" "isValidSlug g'" "(rg_sandbox rg', e) = recordHook t' g' at (rg_sandbox rg)"
    "nget (pm_subs (rg_store rg')) = nget (pm_subs (rg_store rg))"
    "if e \<noteq> None then rg_store rg' = rg_store rg \<and> \<not> is_ok r
     else nget (pm_ins (rg_store rg')) = (if is_ok r
       then upd2 (nget (pm_ins (rg_store rg))) (in_TenantID row) (in_Slug row) (Some (moved_installation target tr now row))
       else nget (pm_ins (rg_store rg)))"
  have "in_TenantID row = t'" using assms(2) c(1) by (auto simp: mps.reg_ok_def mps.rows_ok_def row_ok_def)
  moreover have "mget (sb_buckets (rg_sandbox rg')) (plugin_key t g) = mget (sb_buckets (rg_sandbox rg)) (plugin_key t g)"
    using hook_frame [OF c(3) [symmetric]] plugin_key_inj [OF assms(4) c(2)] assms(3) by metis
  ultimately show ?thesis using c(4,5) assms(3) by (auto simp: tenant_view_def split: if_splits)
qed simp

lemma call_view:
  assumes "mps.reg_ok rg" "call_tenant c \<noteq> t" "isValidSlug g"
  shows "tenant_view t g (fst (run_call mem_ports c rg)) = tenant_view t g rg"
proof (cases c)
  case (CallInstall now t' m)
  obtain rg' r where i: "plugin_install mem_ports now t' m rg = (rg', r)" by force
  have "t \<noteq> t'" using assms(2) CallInstall by simp
  then show ?thesis
    using mps.install_effect(2,3) [OF i] mps.install_effect(5) [OF i, of t] i CallInstall
    by (auto simp: tenant_view_def run_call_def)
next
  case (CallActivate now at t' g')
  obtain rg' r where i: "plugin_transition mem_ports now at t' g' TransitionActivate rg = (rg', r)" by force
  then show ?thesis using transition_view [OF i assms(1) _ assms(3)] assms(2) CallActivate by (auto simp: run_call_def plugin_activate_def)
next
  case (CallDeactivate now at t' g')
  obtain rg' r where i: "plugin_transition mem_ports now at t' g' TransitionDeactivate rg = (rg', r)" by force
  then show ?thesis using transition_view [OF i assms(1) _ assms(3)] assms(2) CallDeactivate by (auto simp: run_call_def plugin_deactivate_def)
next
  case (CallUninstall t' g')
  obtain rg' r where i: "plugin_uninstall mem_ports t' g' rg = (rg', r)" by force
  have "t \<noteq> t'" using assms(2) CallUninstall by simp
  then show ?thesis using mps.uninstall_effect [OF i, of t] i CallUninstall by (auto simp: tenant_view_def run_call_def)
qed

text \<open>C38: Tenants cannot touch each other's plugins. Whatever sequence of calls other tenants make after
  any history, a tenant's installation, subscriptions and hook budget of every plugin stay as they are.\<close>

theorem plugin_tenants_isolated:
  assumes others: "\<forall>c \<in> set cs. call_tenant c \<noteq> t" and slug: "isValidSlug g"
    and rg: "rg = run_calls mem_ports before (newRegistry manifests sb)"
  shows "tenant_view t g (run_calls mem_ports cs rg) = tenant_view t g rg"
proof -
  have "mps.reg_ok rg" unfolding rg by (rule mps.calls_ok [OF mps_reg_ok_new])
  then show ?thesis using others
  proof (induction cs arbitrary: rg)
    case (Cons c cs)
    obtain rg' r where c: "run_call mem_ports c rg = (rg', r)" by force
    then show ?case using Cons mps.call_refines [OF c Cons.prems(1)] call_view [OF Cons.prems(1) _ slug, of c t] by simp
  qed simp
qed

theorem plugin_tenants_isolated_witness:
  "\<exists>rg :: (plugin_mem, nat) plugin_registry.
     installed_state rg ''acme'' ''tax'' = Some StateActive \<and>
     installed_state (run_calls mem_ports [CallUninstall ''other'' ''tax'', CallDeactivate ''t3'' 7 ''acme::x'' ''tax''] rg) ''acme'' ''tax'' = Some StateActive"
proof -
  let ?m = "sample_plugin ''tax'' []"
  let ?before = "[CallInstall ''t0'' ''acme'' ?m, CallActivate ''t1'' 5 ''acme'' ''tax'', CallInstall ''t2'' ''other'' ?m]"
  let ?rg = "run_calls mem_ports ?before (newRegistry [(''tax'', ?m)] (newSandbox 0 0)) :: (plugin_mem, nat) plugin_registry"
  let ?cs = "[CallUninstall ''other'' ''tax'', CallDeactivate ''t3'' 7 ''acme::x'' ''tax'']"
  have "installed_state ?rg ''acme'' ''tax'' = Some StateActive" by code_simp
  moreover have "\<forall>c \<in> set ?cs. call_tenant c \<noteq> ''acme''" "isValidSlug ''tax''" by code_simp+
  from plugin_tenants_isolated [OF this refl, of ?before "[(''tax'', ?m)]" "newSandbox 0 0"]
  have "tenant_view ''acme'' ''tax'' (run_calls mem_ports ?cs ?rg) = tenant_view ''acme'' ''tax'' ?rg" .
  then have "installed_state (run_calls mem_ports ?cs ?rg) ''acme'' ''tax'' = installed_state ?rg ''acme'' ''tax''"
    by (simp add: tenant_view_def installed_state_def)
  ultimately show ?thesis by (intro exI [of _ ?rg]) simp
qed

subsection \<open>How many hooks the sandbox admits\<close>

text \<open>A run of hook requests of all plugins; the number admitted for one key.\<close>

fun run_hooks :: "(string \<times> string \<times> gotime) list \<Rightarrow> sandbox \<Rightarrow> sandbox" where
  "run_hooks [] sb = sb"
| "run_hooks ((t, g, now) # hs) sb = run_hooks hs (fst (recordHook t g now sb))"

fun admitted :: "string \<Rightarrow> (string \<times> string \<times> gotime) list \<Rightarrow> sandbox \<Rightarrow> nat" where
  "admitted k [] sb = 0"
| "admitted k ((t, g, now) # hs) sb =
     (case recordHook t g now sb of (sb', e) \<Rightarrow> (if e = None \<and> plugin_key t g = k then 1 else 0) + admitted k hs sb')"

lemma refill_exact:
  assumes w: "0 < w" and now: "bk_updatedAt st \<le> now" "now - bk_updatedAt st \<le> max_int64"
    and tok: "0 \<le> bk_tokens st" "bk_tokens st \<le> b" "b + max_int64 div w \<le> max_int64"
  shows "refill st b w now =
    \<lparr>bk_tokens = min b (bk_tokens st + (now - bk_updatedAt st) div w),
     bk_updatedAt = bk_updatedAt st + (now - bk_updatedAt st) div w * w\<rparr>"
proof -
  let ?e = "now - bk_updatedAt st"
  have sub: "time_sub now (bk_updatedAt st) = ?e" using now by (simp add: time_sub_exact in_int64_iff)
  have q: "?e div w \<le> max_int64 div w" using w now(2) by (simp add: zdiv_mono1)
  have q0: "0 \<le> ?e div w" using w now(1) by (simp add: pos_imp_zdiv_nonneg_iff)
  have "?e div w * w \<le> ?e" using pos_mod_sign [OF w, of ?e] div_mult_mod_eq [of ?e w] by linarith
  moreover have "0 \<le> ?e div w * w" using q0 w by simp
  ultimately have m: "mul64 (?e div w) w = ?e div w * w" using now(2) by (intro wrap64_id) (simp add: in_int64_iff)
  have a: "add64 (bk_tokens st) (?e div w) = bk_tokens st + ?e div w" using tok q q0 by (intro wrap64_id) (simp add: in_int64_iff)
  show ?thesis
  proof (cases "w \<le> ?e")
    case True
    then show ?thesis using w now(1) by (simp add: refill_def sub Let_def a m min_def)
  next
    case False
    then have "?e div w = 0" using now(1) by (simp add: div_pos_pos_trivial)
    moreover have "refill st b w now = st" using False by (simp add: refill_def sub)
    ultimately show ?thesis using tok(2) by (cases st) simp
  qed
qed

text \<open>A bucket is in order at a time: its tokens and what was admitted so far are covered.\<close>

definition bucket_ok :: "int \<Rightarrow> duration \<Rightarrow> gotime \<Rightarrow> gotime \<Rightarrow> int \<Rightarrow> bucket \<Rightarrow> bool" where
  "bucket_ok b w t0 now n st \<longleftrightarrow>
     0 \<le> bk_tokens st \<and> bk_tokens st \<le> b \<and> t0 \<le> bk_updatedAt st \<and> bk_updatedAt st \<le> now
     \<and> n + bk_tokens st \<le> b + (bk_updatedAt st - t0) div w"

lemma bucket_refilled:
  assumes w: "0 < w" and b: "b + max_int64 div w \<le> max_int64" and st: "bucket_ok b w t0 t n st"
    and now: "t \<le> now" "now - t0 \<le> max_int64"
  shows "bucket_ok b w t0 now n (refill st b w now)"
proof -
  let ?q = "(now - bk_updatedAt st) div w"
  have s: "0 \<le> bk_tokens st" "bk_tokens st \<le> b" "t0 \<le> bk_updatedAt st" "bk_updatedAt st \<le> now"
    "n + bk_tokens st \<le> b + (bk_updatedAt st - t0) div w" using st now(1) by (auto simp: bucket_ok_def)
  have "now - bk_updatedAt st \<le> max_int64" using s(3) now(2) by linarith
  note r = refill_exact [OF w s(4) this s(1,2) b]
  have q: "0 \<le> ?q" using s(4) w by (simp add: pos_imp_zdiv_nonneg_iff)
  then have qw: "0 \<le> ?q * w" using w by simp
  have le: "?q * w \<le> now - bk_updatedAt st"
    using pos_mod_sign [OF w, of "now - bk_updatedAt st"] div_mult_mod_eq [of "now - bk_updatedAt st" w] by linarith
  have "(bk_updatedAt st + ?q * w - t0) div w = (bk_updatedAt st - t0 + ?q * w) div w" by (simp add: algebra_simps)
  also have "\<dots> = (bk_updatedAt st - t0) div w + ?q" using w by simp
  finally show ?thesis using s q qw le by (auto simp: r bucket_ok_def)
qed

definition sandbox_ok :: "int \<Rightarrow> duration \<Rightarrow> gotime \<Rightarrow> gotime \<Rightarrow> int \<Rightarrow> string \<Rightarrow> sandbox \<Rightarrow> bool" where
  "sandbox_ok b w t0 now n k sb \<longleftrightarrow> sb_HookBudget sb = b \<and> sb_Window sb = w
     \<and> (case mget (sb_buckets sb) k of None \<Rightarrow> n = 0 | Some st \<Rightarrow> bucket_ok b w t0 now n st)"

lemma hook_step:
  assumes w: "0 < w" and b: "0 < b" "b + max_int64 div w \<le> max_int64" and sb: "sandbox_ok b w t0 t n k sb"
    and now: "t0 \<le> t" "t \<le> now" "now - t0 \<le> max_int64" and h: "recordHook tn g now sb = (sb', e)"
  shows "sandbox_ok b w t0 now (n + (if e = None \<and> plugin_key tn g = k then 1 else 0)) k sb'"
proof (cases "plugin_key tn g = k")
  case True
  define st where "st = (case mget (sb_buckets sb) k of None \<Rightarrow> \<lparr>bk_tokens = b, bk_updatedAt = now\<rparr> | Some b \<Rightarrow> b)"
  have c: "sb_HookBudget sb = b" "sb_Window sb = w" using sb by (simp_all add: sandbox_ok_def)
  have "bucket_ok b w t0 now n st"
  proof (cases "mget (sb_buckets sb) k")
    case None
    then have "n = 0" using sb by (simp add: sandbox_ok_def)
    moreover have "0 \<le> (now - t0) div w" using w now by (simp add: pos_imp_zdiv_nonneg_iff)
    ultimately show ?thesis using None b(1) now by (simp add: st_def bucket_ok_def)
  next
    case (Some x)
    then show ?thesis using sb now by (auto simp: st_def sandbox_ok_def bucket_ok_def)
  qed
  define r where "r = refill st b w now"
  have r: "bucket_ok b w t0 now n r"
    unfolding r_def by (rule bucket_refilled [OF w b(2) \<open>bucket_ok b w t0 now n st\<close> order.refl now(3)])
  have "recordHook tn g now sb =
      (if bk_tokens r \<le> 0 then (sb\<lparr>sb_buckets := mput k r (sb_buckets sb)\<rparr>, Some ErrSandboxBudgetExceeded)
       else (sb\<lparr>sb_buckets := mput k (r\<lparr>bk_tokens := bk_tokens r - 1\<rparr>) (sb_buckets sb), sb_hooksTotal := sb_hooksTotal sb + 1\<rparr>, None))"
    unfolding recordHook_def Let_def r_def st_def c True by simp
  then show ?thesis using h r c True by (auto simp: sandbox_ok_def bucket_ok_def split: if_splits)
next
  case False
  then have "mget (sb_buckets sb') k = mget (sb_buckets sb) k" using hook_frame [OF h] by metis
  moreover have "sb_HookBudget sb' = sb_HookBudget sb \<and> sb_Window sb' = sb_Window sb"
    using h by (auto simp: recordHook_def Let_def split: if_splits)
  ultimately show ?thesis using sb now False by (auto simp: sandbox_ok_def bucket_ok_def split: option.splits)
qed

lemma admitted_bound:
  assumes w: "0 < w" and b: "0 < b" "b + max_int64 div w \<le> max_int64"
  shows "sandbox_ok b w t0 t n k sb \<Longrightarrow> t0 \<le> t \<Longrightarrow> t \<le> T \<Longrightarrow> T - t0 \<le> max_int64
    \<Longrightarrow> sorted (t # map (snd \<circ> snd) hs @ [T]) \<Longrightarrow> n + int (admitted k hs sb) \<le> b + (T - t0) div w"
proof (induction k hs sb arbitrary: t n rule: admitted.induct)
  case (1 k sb)
  have "0 \<le> (T - t0) div w" using w 1 by (simp add: pos_imp_zdiv_nonneg_iff)
  moreover have "(u - t0) div w \<le> (T - t0) div w" if "u \<le> t" for u using that 1(3) w by (simp add: zdiv_mono1)
  ultimately show ?case using 1(1) b(1) by (fastforce simp: sandbox_ok_def bucket_ok_def split: option.splits)
next
  case (2 k tn g now hs sb)
  obtain sb' e where h: "recordHook tn g now sb = (sb', e)" by force
  have o: "t \<le> now" "now \<le> T" "t0 \<le> now" "now - t0 \<le> max_int64" using 2 by auto
  have "sorted (now # map (snd \<circ> snd) hs @ [T])" using 2(6) by (auto simp: comp_def)
  from 2(1) [OF h [symmetric] hook_step [OF w b 2(2,3) o(1,4) h] o(3,2) 2(5) this]
  show ?case by (auto simp: h split: if_splits)
qed

text \<open>C39: The sandbox bounds the hooks of a plugin. However the requests of all plugins interleave between two
  times less than 292 years apart, the requests admitted for one plugin of one tenant number at most the
  budget plus the number of windows in between.\<close>

theorem sandbox_bounds_hooks:
  fixes budget :: int and window :: duration
  defines "b \<equiv> if budget \<le> 0 then 60 else budget" and "w \<equiv> if window \<le> 0 then 60 * time_second else window"
  assumes times: "sorted (since # map (snd \<circ> snd) hs @ [until])" and range: "until - since \<le> max_int64"
    and fit: "b + max_int64 div w \<le> max_int64"
  shows "int (admitted (plugin_key t g) hs (newSandbox budget window)) \<le> b + (until - since) div w"
proof -
  have w: "0 < w" "0 < b" by (simp_all add: w_def b_def time_second_def)
  have "sandbox_ok b w since since 0 (plugin_key t g) (newSandbox budget window)"
    by (simp add: sandbox_ok_def newSandbox_def b_def w_def)
  from admitted_bound [OF w fit this order.refl _ range times] times show ?thesis by simp
qed

theorem sandbox_bounds_hooks_witness:
  "admitted ''t::tax'' [(''t'', ''tax'', 0), (''t'', ''tax'', 1), (''t'', ''tax'', 2), (''t'', ''tax'', 10)] (newSandbox 2 10) = 3
   \<and> int (admitted ''t::tax'' [(''t'', ''tax'', 0), (''t'', ''tax'', 1), (''t'', ''tax'', 2), (''t'', ''tax'', 10)] (newSandbox 2 10)) \<le> 3"
proof -
  let ?hs = "[(''t'', ''tax'', 0), (''t'', ''tax'', 1), (''t'', ''tax'', 2), (''t'', ''tax'', 10)] :: (string \<times> string \<times> gotime) list"
  have s: "sorted (0 # map (snd \<circ> snd) ?hs @ [10])" "(10 :: int) - 0 \<le> max_int64" by (simp_all add: max_int64_def)
  have f: "(if (2 :: int) \<le> 0 then 60 else 2) + max_int64 div (if (10 :: duration) \<le> 0 then 60 * time_second else 10) \<le> max_int64"
    by (simp add: max_int64_def)
  have "admitted ''t::tax'' ?hs (newSandbox 2 10) = 3" by code_simp
  moreover have "plugin_key ''t'' ''tax'' = ''t::tax''" by (simp add: plugin_key_def)
  ultimately show ?thesis using sandbox_bounds_hooks [OF s f, of "''t''" "''tax''"] by simp
qed

end
