(* ===== verification/Ssrf.thy ===== *)
theory Ssrf
  imports Go_Encoding
begin

text \<open>
  The guard in front of outbound webhooks (\<open>internal/webhook/outbound/ssrf_guard.go\<close>): the classification of
  the addresses a host resolves to, with the functions of Go's \<open>net\<close> package it uses, and the check of a URL.
  The parser of URLs and the resolver are parameters.
\<close>

unbundle bit_operations_syntax

subsection \<open>Addresses\<close>

text \<open>A \<open>net.IP\<close> is a slice of bytes, of four or sixteen bytes when it is valid; the empty one is \<open>nil\<close>.\<close>

type_synonym ip = "8 word list"

definition to4 :: "ip \<Rightarrow> ip option" where
  "to4 i =
     (if length i = 4 then Some i
      else if length i = 16 \<and> take 12 i = replicate 10 0 @ [0xFF, 0xFF] then Some (drop 12 i)
      else None)"

definition isUnspecified :: "ip \<Rightarrow> bool" where
  "isUnspecified i \<longleftrightarrow> to4 i = Some [0, 0, 0, 0] \<or> i = replicate 16 0"

definition isLoopback :: "ip \<Rightarrow> bool" where
  "isLoopback i = (case to4 i of Some v \<Rightarrow> v ! 0 = 127 | None \<Rightarrow> i = replicate 15 0 @ [1])"

definition isLinkLocalUnicast :: "ip \<Rightarrow> bool" where
  "isLinkLocalUnicast i =
     (case to4 i of
        Some v \<Rightarrow> v ! 0 = 169 \<and> v ! 1 = 254
      | None \<Rightarrow> length i = 16 \<and> i ! 0 = 0xFE \<and> i ! 1 AND 0xC0 = 0x80)"

definition isLinkLocalMulticast :: "ip \<Rightarrow> bool" where
  "isLinkLocalMulticast i =
     (case to4 i of
        Some v \<Rightarrow> v ! 0 = 224 \<and> v ! 1 = 0 \<and> v ! 2 = 0
      | None \<Rightarrow> length i = 16 \<and> i ! 0 = 0xFF \<and> i ! 1 AND 0x0F = 0x02)"

definition isPrivate :: "ip \<Rightarrow> bool" where
  "isPrivate i =
     (case to4 i of
        Some v \<Rightarrow> v ! 0 = 10 \<or> v ! 0 = 172 \<and> v ! 1 AND 0xF0 = 16 \<or> v ! 0 = 192 \<and> v ! 1 = 168
      | None \<Rightarrow> length i = 16 \<and> i ! 0 AND 0xFE = 0xFC)"

text \<open>The set of metadata addresses is keyed by the text of an address, which is the same for the two
  forms of an IPv4 address.\<close>

definition ip_key :: "ip \<Rightarrow> ip" where
  "ip_key i = (case to4 i of Some v \<Rightarrow> v | None \<Rightarrow> i)"

definition cloudMetadataIPs :: "ip list" where
  "cloudMetadataIPs =
     [[169, 254, 169, 254], [169, 254, 170, 2], [100, 100, 100, 200],
      [0xFD, 0, 0x0E, 0xC2, 0, 0, 0, 0, 0, 0, 0, 0, 0, 0, 0x02, 0x54]]"

definition isCloudMetadataIP :: "ip \<Rightarrow> bool" where
  "isCloudMetadataIP i \<longleftrightarrow> ip_key i \<in> set cloudMetadataIPs"

definition isIPv6UniqueLocal :: "ip \<Rightarrow> bool" where
  "isIPv6UniqueLocal i = (case to4 i of Some _ \<Rightarrow> False | None \<Rightarrow> length i = 16 \<and> i ! 0 AND 0xFE = 0xFC)"

definition isIPv4Multicast :: "ip \<Rightarrow> bool" where
  "isIPv4Multicast i = (case to4 i of None \<Rightarrow> False | Some v \<Rightarrow> 224 \<le> v ! 0 \<and> v ! 0 \<le> 239)"

definition classifyIP :: "ip \<Rightarrow> string" where
  "classifyIP i =
     (if i = [] then ''nil ip''
      else if isUnspecified i then ''unspecified''
      else if isLoopback i then ''loopback''
      else if isLinkLocalUnicast i \<or> isLinkLocalMulticast i then ''link-local''
      else if isPrivate i then ''private''
      else if isCloudMetadataIP i then ''cloud metadata''
      else if isIPv6UniqueLocal i then ''ipv6 unique-local''
      else if isIPv4Multicast i then ''multicast''
      else [])"

subsection \<open>The blocked ranges\<close>

text \<open>The ranges as numbers: an IPv4 address as 32 bits, the first two bytes of an IPv6 address as 16.\<close>

definition ip_num :: "ip \<Rightarrow> nat" where
  "ip_num i = foldl (\<lambda>n b. n * 256 + unat b) 0 i"

definition blocked4 :: "nat \<Rightarrow> bool" where
  "blocked4 n \<longleftrightarrow>
     n = 0
     \<or> n div 2 ^ 24 = 10 \<or> n div 2 ^ 24 = 127
     \<or> n div 2 ^ 16 = 169 * 256 + 254 \<or> n div 2 ^ 16 = 192 * 256 + 168
     \<or> n div 2 ^ 20 = 172 * 16 + 1
     \<or> n div 2 ^ 28 = 14
     \<or> n = ((100 * 256 + 100) * 256 + 100) * 256 + 200"

definition blocked6 :: "ip \<Rightarrow> bool" where
  "blocked6 i \<longleftrightarrow>
     ip_num i = 0 \<or> ip_num i = 1
     \<or> ip_num (take 2 i) div 64 = 0xFE80 div 64
     \<or> ip_num (take 2 i) div 512 = 0xFC00 div 512
     \<or> unat (i ! 0) = 0xFF \<and> unat (i ! 1) mod 16 = 2"

text \<open>Masking the high bits of a byte keeps a multiple of a power of two.\<close>

lemma high_mask:
  fixes n :: nat
  assumes "n < 2 ^ (k + m)"
  shows "n AND push_bit k (mask m) = n div 2 ^ k * 2 ^ k"
proof -
  have "n AND push_bit k (mask m) = push_bit k (drop_bit k n)"
  proof (rule bit_eqI)
    fix j
    have "bit n j \<Longrightarrow> j < k + m" using assms by (metis bit_take_bit_iff take_bit_nat_eq_self)
    then show "bit (n AND push_bit k (mask m)) j = bit (push_bit k (drop_bit k n)) j"
      by (auto simp: bit_and_iff bit_push_bit_iff bit_mask_iff bit_drop_bit_eq)
  qed
  then show ?thesis by (simp add: push_bit_eq_mult drop_bit_eq_div)
qed

lemma byte_masks:
  fixes b :: "8 word"
  shows "b AND 0xC0 = 0x80 \<longleftrightarrow> unat b div 64 = 2" "b AND 0x0F = 0x02 \<longleftrightarrow> unat b mod 16 = 2"
    "b AND 0xF0 = 16 \<longleftrightarrow> unat b div 16 = 1" "b AND 0xFE = 0xFC \<longleftrightarrow> unat b div 2 = 126"
    "224 \<le> b \<and> b \<le> 239 \<longleftrightarrow> unat b div 16 = 14"
proof -
  have b: "unat b < 2 ^ 8" using unsigned_less [of b] by simp
  have eq: "b AND m = c \<longleftrightarrow> unat b AND unat m = unat c" for m c :: "8 word"
    by (simp add: word_unat_eq_iff unsigned_and_eq)
  have "unat b AND 0xC0 = unat b div 64 * 64" using high_mask [of "unat b" 6 2] b by (simp add: push_bit_eq_mult mask_eq_exp_minus_1)
  then show "b AND 0xC0 = 0x80 \<longleftrightarrow> unat b div 64 = 2" by (simp add: eq)
  have "unat b AND 0xF0 = unat b div 16 * 16" using high_mask [of "unat b" 4 4] b by (simp add: push_bit_eq_mult mask_eq_exp_minus_1)
  then show "b AND 0xF0 = 16 \<longleftrightarrow> unat b div 16 = 1" by (simp add: eq)
  have "unat b AND 0xFE = unat b div 2 * 2" using high_mask [of "unat b" 1 7] b by (simp add: push_bit_eq_mult mask_eq_exp_minus_1)
  then show "b AND 0xFE = 0xFC \<longleftrightarrow> unat b div 2 = 126" by (simp add: eq)
  have "unat b AND 0x0F = unat b mod 16" using take_bit_eq_mask [of 4 "unat b"] by (simp add: take_bit_eq_mod mask_eq_exp_minus_1)
  then show "b AND 0x0F = 0x02 \<longleftrightarrow> unat b mod 16 = 2" by (simp add: eq)
  show "224 \<le> b \<and> b \<le> 239 \<longleftrightarrow> unat b div 16 = 14" by (auto simp: word_le_nat_alt)
qed

definition blocked :: "ip \<Rightarrow> bool" where
  "blocked i = (case to4 i of Some v \<Rightarrow> blocked4 (ip_num v) | None \<Rightarrow> blocked6 i)"

lemma ip_num_snoc: "ip_num (i @ [b]) = ip_num i * 256 + unat b"
  by (simp add: ip_num_def)

lemma ip_num_zero: "ip_num i = 0 \<longleftrightarrow> i = replicate (length i) 0"
proof (induction i rule: rev_induct)
  case (snoc b i)
  have "i @ [b] = replicate (Suc (length i)) 0 \<longleftrightarrow> i = replicate (length i) 0 \<and> b = 0"
    unfolding replicate_Suc replicate_append_same [symmetric] by simp
  then show ?case using snoc by (simp add: ip_num_snoc unat_eq_0)
qed (simp add: ip_num_def)

lemma ip_num_one: "length i = 16 \<Longrightarrow> ip_num i = 1 \<longleftrightarrow> i = replicate 15 0 @ [1]"
proof (cases i rule: rev_cases)
  case (snoc j b)
  assume "length i = 16"
  then have "ip_num j = 0 \<longleftrightarrow> j = replicate 15 0" using ip_num_zero [of j] snoc by simp
  moreover have "ip_num i = 1 \<longleftrightarrow> ip_num j = 0 \<and> unat b = 1" using unsigned_less [of b] by (simp add: snoc ip_num_snoc) arith
  ultimately show ?thesis using snoc by (simp add: word_unat_eq_iff)
qed simp

lemma to4_length: "to4 i = Some v \<Longrightarrow> \<exists>a b c d. v = [a, b, c, d]"
  by (auto simp: to4_def length_Suc_conv numeral_eq_Suc split: if_splits)

lemma to4_not_zero: "to4 i = Some v \<Longrightarrow> i \<noteq> replicate 16 0 \<and> i \<noteq> []"
proof -
  have "take 12 (replicate 16 (0 :: 8 word)) \<noteq> replicate 10 0 @ [0xFF, 0xFF]" by code_simp
  then show "to4 i = Some v \<Longrightarrow> i \<noteq> replicate 16 0 \<and> i \<noteq> []" by (auto simp: to4_def split: if_splits)
qed

lemma four_bytes:
  fixes a b c d :: "8 word"
  defines "n \<equiv> ip_num [a, b, c, d]"
  shows "n div 2 ^ 24 = unat a" "n div 2 ^ 16 = unat a * 256 + unat b" "n div 2 ^ 20 = unat a * 16 + unat b div 16"
    "n div 2 ^ 28 = unat a div 16" "n = ((unat a * 256 + unat b) * 256 + unat c) * 256 + unat d"
proof -
  have l: "unat a < 256" "unat b < 256" "unat c < 256" "unat d < 256"
    using unsigned_less [of a] unsigned_less [of b] unsigned_less [of c] unsigned_less [of d] by simp_all
  show n: "n = ((unat a * 256 + unat b) * 256 + unat c) * 256 + unat d" by (simp add: n_def ip_num_def)
  show "n div 2 ^ 24 = unat a" "n div 2 ^ 16 = unat a * 256 + unat b" "n div 2 ^ 20 = unat a * 16 + unat b div 16"
    "n div 2 ^ 28 = unat a div 16"
    unfolding n using l by simp_all
qed

lemma unat_byte: "n < 256 \<Longrightarrow> unat b = n \<longleftrightarrow> b = word_of_nat n" for b :: "8 word"
  using unsigned_less [of b] by (auto simp: word_unat_eq_iff unsigned_of_nat take_bit_eq_mod)

text \<open>Numbers written in base 256.\<close>

lemma digits_eq_base:
  fixes x y p q k :: nat
  assumes "y < k" "q < k"
  shows "x * k + y = p * k + q \<longleftrightarrow> x = p \<and> y = q"
proof -
  have "(u * k + v) div k = u \<and> (u * k + v) mod k = v" if "v < k" for u v using that by simp
  then show ?thesis using assms by metis
qed

lemmas digits_eq = digits_eq_base [where k = 256]

lemma digits_div64:
  fixes x y :: nat
  assumes "y < 256"
  shows "(x * 256 + y) div 64 = 1018 \<longleftrightarrow> x = 254 \<and> y div 64 = 2"
proof -
  have "(x * 256 + y) div 64 = x * 4 + y div 64" by simp
  moreover have "y div 64 < 4" using assms by simp
  ultimately show ?thesis using digits_eq_base [of "y div 64" 4 2 x 254] by simp
qed

lemma digits_div512:
  fixes x y :: nat
  assumes "y < 256"
  shows "(x * 256 + y) div 512 = 126 \<longleftrightarrow> x div 2 = 126"
proof -
  have "(x * 256 + y) div 256 = x" using assms by simp
  moreover have "(x * 256 + y) div 512 = (x * 256 + y) div 256 div 2" using div_mult2_eq [of "x * 256 + y" 256 2] by simp
  ultimately show ?thesis by simp
qed

lemma classify_v4:
  assumes "to4 i = Some [a, b, c, d]"
  shows "classifyIP i = [] \<longleftrightarrow> \<not> blocked4 (ip_num [a, b, c, d])"
proof -
  note nz = to4_not_zero [OF assms]
  have l: "unat a < 256" "unat b < 256" "unat c < 256" "unat d < 256"
    using unsigned_less [of a] unsigned_less [of b] unsigned_less [of c] unsigned_less [of d] by simp_all
  have meta: "isCloudMetadataIP i \<longleftrightarrow> [a, b, c, d] \<in> set (take 3 cloudMetadataIPs)"
    using assms by (simp add: isCloudMetadataIP_def ip_key_def cloudMetadataIPs_def)
  have m: "a = 224 \<longrightarrow> unat a div 16 = 14" by simp
  have "classifyIP i = [] \<longleftrightarrow> \<not> (isUnspecified i \<or> isLoopback i \<or> isLinkLocalUnicast i \<or> isLinkLocalMulticast i \<or> isPrivate i
      \<or> isCloudMetadataIP i \<or> isIPv6UniqueLocal i \<or> isIPv4Multicast i)"
    using nz by (simp add: classifyIP_def)
  also have "\<dots> \<longleftrightarrow> \<not> (unat a = 0 \<and> unat b = 0 \<and> unat c = 0 \<and> unat d = 0 \<or> unat a = 127 \<or> unat a = 169 \<and> unat b = 254
      \<or> unat a = 10 \<or> unat a = 172 \<and> unat b div 16 = 1 \<or> unat a = 192 \<and> unat b = 168
      \<or> unat a = 100 \<and> unat b = 100 \<and> unat c = 100 \<and> unat d = 200 \<or> unat a div 16 = 14)"
    using nz unfolding meta isUnspecified_def isLoopback_def isLinkLocalUnicast_def isLinkLocalMulticast_def isPrivate_def
      isIPv6UniqueLocal_def isIPv4Multicast_def assms
    by (simp add: byte_masks unat_byte cloudMetadataIPs_def) (use m in blast)
  also have "\<dots> \<longleftrightarrow> \<not> blocked4 (ip_num [a, b, c, d])"
  proof -
    have lt: "(200 :: nat) < 256" "(100 :: nat) < 256" "(254 :: nat) < 256" "(168 :: nat) < 256" by simp_all
    have n0: "ip_num [a, b, c, d] = 0 \<longleftrightarrow> unat a = 0 \<and> unat b = 0 \<and> unat c = 0 \<and> unat d = 0" by (auto simp: four_bytes(5))
    have n1: "ip_num [a, b, c, d] = ((100 * 256 + 100) * 256 + 100) * 256 + 200 \<longleftrightarrow> unat a = 100 \<and> unat b = 100 \<and> unat c = 100 \<and> unat d = 200"
      unfolding four_bytes(5) by (simp only: digits_eq [OF l(4) lt(1)] digits_eq [OF l(3) lt(2)] digits_eq [OF l(2) lt(2)] conj_assoc)
    have "unat b div 16 < 16" using l(2) by simp
    then have t: "unat a * 16 + unat b div 16 = 172 * 16 + 1 \<longleftrightarrow> unat a = 172 \<and> unat b div 16 = 1" by (rule digits_eq_base) simp
    show ?thesis unfolding blocked4_def four_bytes(1-4) n0 n1 t by (simp only: digits_eq [OF l(2) lt(3)] digits_eq [OF l(2) lt(4)]) blast
  qed
  finally show ?thesis .
qed

lemma classify_v6:
  assumes "to4 i = None" and len: "length i = 16"
  shows "classifyIP i = [] \<longleftrightarrow> \<not> blocked6 i"
proof -
  obtain a b r where i: "i = a # b # r" using len by (auto simp: length_Suc_conv numeral_eq_Suc)
  have l: "unat a < 256" "unat b < 256" using unsigned_less [of a] unsigned_less [of b] by simp_all
  have z: "ip_num i = 0 \<longleftrightarrow> i = replicate 16 0" using ip_num_zero [of i] len by simp
  have p: "ip_num (take 2 i) = unat a * 256 + unat b" by (simp add: i ip_num_def)
  have d: "(unat a * 256 + unat b) div 64 = 0xFE80 div 64 \<longleftrightarrow> unat a = 0xFE \<and> unat b div 64 = 2"
    "(unat a * 256 + unat b) div 512 = 0xFC00 div 512 \<longleftrightarrow> unat a div 2 = 126"
    using digits_div64 [OF l(2)] digits_div512 [OF l(2)] by simp_all
  have meta: "isCloudMetadataIP i \<Longrightarrow> unat a div 2 = 126"
    using assms by (auto simp: isCloudMetadataIP_def ip_key_def cloudMetadataIPs_def i)
  have "classifyIP i = [] \<longleftrightarrow> \<not> (i = replicate 16 0 \<or> i = replicate 15 0 @ [1] \<or> isLinkLocalUnicast i \<or> isLinkLocalMulticast i \<or> isPrivate i
      \<or> isCloudMetadataIP i)"
    using assms i by (simp add: classifyIP_def isUnspecified_def isLoopback_def isIPv6UniqueLocal_def isPrivate_def isIPv4Multicast_def)
  also have "\<dots> \<longleftrightarrow> \<not> blocked6 i"
    using meta assms unfolding blocked6_def z ip_num_one [OF len] p d
    by (auto simp: isLinkLocalUnicast_def isLinkLocalMulticast_def isPrivate_def byte_masks unat_byte i)
  finally show ?thesis .
qed

text \<open>C40: The guard blocks exactly the ranges it names. An address is acceptable exactly when it is none of
  0.0.0.0, 10.0.0.0/8, 127.0.0.0/8, 169.254.0.0/16, 172.16.0.0/12, 192.168.0.0/16, 224.0.0.0/4 and
  100.100.100.200, in the four-byte or the sixteen-byte form, nor of \<open>::\<close>, \<open>::1\<close>, fe80::/10, fc00::/7 and the
  link-local multicast addresses; so none of the metadata addresses is.\<close>

theorem ssrf_classification_exact:
  assumes "length i = 4 \<or> length i = 16"
  shows "(classifyIP i = [] \<longleftrightarrow> \<not> blocked i) \<and> (isCloudMetadataIP i \<longrightarrow> blocked i)"
proof -
  have "classifyIP i = [] \<longleftrightarrow> \<not> blocked i"
  proof (cases "to4 i")
    case None
    then have "length i = 16" using assms by (auto simp: to4_def split: if_splits)
    then show ?thesis using classify_v6 [OF None] None by (simp add: blocked_def)
  next
    case (Some v)
    then show ?thesis using to4_length [OF Some] classify_v4 by (auto simp: blocked_def)
  qed
  moreover have "isCloudMetadataIP i \<Longrightarrow> classifyIP i \<noteq> []" by (simp add: classifyIP_def)
  ultimately show ?thesis by blast
qed

theorem ssrf_classification_exact_witness:
  "\<not> blocked [93, 184, 216, 34] \<and> blocked (replicate 10 0 @ [0xFF, 0xFF, 169, 254, 169, 254])
   \<and> classifyIP [93, 184, 216, 34] = [] \<and> classifyIP (replicate 10 0 @ [0xFF, 0xFF, 169, 254, 169, 254]) \<noteq> []"
proof -
  have "classifyIP [93, 184, 216, 34] = []" by code_simp
  moreover have "isCloudMetadataIP (replicate 10 0 @ [0xFF, 0xFF, 169, 254, 169, 254])" by code_simp
  ultimately show ?thesis
    using ssrf_classification_exact [of "[93, 184, 216, 34]"]
      ssrf_classification_exact [of "replicate 10 0 @ [0xFF, 0xFF, 169, 254, 169, 254]"] by auto
qed

end
