(* ===== verification/Outbound.thy ===== *)
theory Outbound
  imports Ssrf
begin

text \<open>
  Outbound webhooks (\<open>internal/webhook/outbound\<close>): the check of a target, the signature, the delivery with its
  retries, the in-memory store and the service. What happens outside is kept in a trace of look-ups and
  requests. The parser of URLs, the resolver, the receivers, the clock, HMAC, SHA-256 and the JSON
  encoding of an event are parameters. Contexts have no deadline of their own; whether one is cancelled
  during a pause is a parameter.
\<close>

subsection \<open>Types\<close>

record out_event =
  ev_ID :: string
  ev_Type :: string
  ev_TenantID :: string
  ev_Payload :: string
  ev_Timestamp :: gotime
  ev_Source :: string

record registration =
  rn_ID :: string
  rn_TenantID :: string
  rn_URL :: string
  rn_EventTypes :: "string list"
  rn_SecretRef :: string
  rn_SecretHash :: string
  rn_Enabled :: bool
  rn_CreatedAt :: gotime

record registration_input =
  ri_TenantID :: string
  ri_URL :: string
  ri_EventTypes :: "string list"
  ri_Secret :: string
  ri_SecretRef :: string
  ri_Enabled :: "bool option"

record delivery_result =
  dv_ID :: string
  dv_WebhookID :: string
  dv_EventID :: string
  dv_EventType :: string
  dv_Success :: bool
  dv_Status :: int
  dv_Attempts :: int
  dv_Error :: string
  dv_CreatedAt :: gotime

datatype outbound_error = ErrInvalidInput | ErrWebhookNotFound | ErrSSRFBlocked | ErrTransport

definition supportedEventTypes :: "string list" where
  "supportedEventTypes =
     [''product.created'', ''product.updated'', ''order.placed'', ''sync.completed'', ''agent.run.completed'',
      ''compliance.checked'']"

definition isSupportedEventType :: "string \<Rightarrow> bool" where
  "isSupportedEventType t \<longleftrightarrow> t \<in> set supportedEventTypes"

definition registrationHasEventType :: "registration \<Rightarrow> string \<Rightarrow> bool" where
  "registrationHasEventType reg t \<longleftrightarrow> t \<in> set (rn_EventTypes reg)"

subsection \<open>The guard\<close>

record url =
  url_Scheme :: string
  url_Host :: string
  url_Hostname :: string

record http_request =
  hr_URL :: string
  hr_Header :: "(string, string) gomap"
  hr_Body :: string

datatype net_event =
    Looked string "ip list option"
  | Sent http_request "int option"

record 'w net =
  nt_world :: 'w
  nt_trace :: "net_event list"

record ssrf_guard =
  sg_permit :: bool
  sg_AllowInsecureHTTP :: bool

record 'w client =
  oc_parse :: "string \<Rightarrow> url option"
  oc_lookup :: "string \<Rightarrow> 'w \<Rightarrow> 'w \<times> ip list option"
  oc_do :: "http_request \<Rightarrow> 'w \<Rightarrow> 'w \<times> int option"
  oc_now :: "'w \<Rightarrow> gotime"
  oc_mac :: "string \<Rightarrow> string \<Rightarrow> string"
  oc_marshal :: "out_event \<Rightarrow> string option"
  oc_guard :: ssrf_guard
  oc_maxAttempts :: int
  oc_backoff :: "int \<Rightarrow> duration"
  oc_cancelled :: "'w \<Rightarrow> bool"

definition resolve :: "'w client \<Rightarrow> string \<Rightarrow> 'w net \<Rightarrow> 'w net \<times> ip list option" where
  "resolve c host n =
     (case oc_lookup c host (nt_world n) of
        (w, r) \<Rightarrow> (n\<lparr>nt_world := w, nt_trace := nt_trace n @ [Looked host r]\<rparr>, r))"

definition http_do :: "'w client \<Rightarrow> http_request \<Rightarrow> 'w net \<Rightarrow> 'w net \<times> int option" where
  "http_do c q n =
     (case oc_do c q (nt_world n) of
        (w, r) \<Rightarrow> (n\<lparr>nt_world := w, nt_trace := nt_trace n @ [Sent q r]\<rparr>, r))"

definition parseAndValidateScheme :: "'w client \<Rightarrow> string \<Rightarrow> outbound_error + url" where
  "parseAndValidateScheme c raw =
     (case oc_parse c (trim_space raw) of
        None \<Rightarrow> Err ErrSSRFBlocked
      | Some u \<Rightarrow>
          let scheme = to_lower (url_Scheme u) in
          if scheme = ''https'' then Ok u
          else if scheme = ''http'' then (if \<not> sg_AllowInsecureHTTP (oc_guard c) then Err ErrSSRFBlocked else Ok u)
          else Err ErrSSRFBlocked)"

definition checkURL :: "'w client \<Rightarrow> string \<Rightarrow> 'w net \<Rightarrow> 'w net \<times> outbound_error option" where
  "checkURL c raw n =
     (if sg_permit (oc_guard c) then (n, None)
      else case parseAndValidateScheme c raw of
        Err e \<Rightarrow> (n, Some e)
      | Ok u \<Rightarrow>
     (if url_Hostname u = [] then (n, Some ErrSSRFBlocked)
      else case resolve c (url_Hostname u) n of
        (n, None) \<Rightarrow> (n, Some ErrSSRFBlocked)
      | (n, Some addrs) \<Rightarrow>
          if addrs = [] then (n, Some ErrSSRFBlocked)
          else if list_ex (\<lambda>a. classifyIP a \<noteq> []) addrs then (n, Some ErrSSRFBlocked)
          else (n, None)))"

subsection \<open>Signing and delivery\<close>

text \<open>The keys are in the canonical form that a header map has.\<close>

definition sign :: "(string \<Rightarrow> string \<Rightarrow> string) \<Rightarrow> string \<Rightarrow> string \<Rightarrow> gotime \<Rightarrow> string \<Rightarrow> (string, string) gomap" where
  "sign mac secret webhookID timestamp body =
     (let unix = format_int (timestamp div 10 ^ 9) in
      [(''X-Ec-Webhook-Id'', webhookID), (''X-Ec-Webhook-Timestamp'', unix),
       (''X-Ec-Webhook-Signature'', ''sha256='' @ hex_encode (mac secret (unix @ ''.'' @ body)))])"

definition delivery_request ::
  "(string \<Rightarrow> string \<Rightarrow> string) \<Rightarrow> registration \<Rightarrow> string \<Rightarrow> gotime \<Rightarrow> string \<Rightarrow> http_request" where
  "delivery_request mac reg secret now body =
     \<lparr>hr_URL = rn_URL reg,
      hr_Header = [(''Content-Type'', ''application/json''), (''User-Agent'', ''agentic-ecommerce-webhook-bridge/1.5'')]
        @ sign mac secret (rn_ID reg) now body,
      hr_Body = body\<rparr>"

definition deliverOnce ::
  "'w client \<Rightarrow> registration \<Rightarrow> string \<Rightarrow> string \<Rightarrow> 'w net \<Rightarrow> 'w net \<times> int \<times> outbound_error option" where
  "deliverOnce c reg secret body n =
     (case checkURL c (rn_URL reg) n of
        (n, Some e) \<Rightarrow> (n, 0, Some e)
      | (n, None) \<Rightarrow>
     (case oc_parse c (rn_URL reg) of
        None \<Rightarrow> (n, 0, Some ErrTransport)
      | Some _ \<Rightarrow>
          case http_do c (delivery_request (oc_mac c) reg secret (oc_now c (nt_world n)) body) n of
            (n, None) \<Rightarrow> (n, 0, Some ErrTransport)
          | (n, Some status) \<Rightarrow> (n, status, None)))"

definition shouldRetry :: "int \<Rightarrow> outbound_error option \<Rightarrow> bool" where
  "shouldRetry status err = (if err \<noteq> None then True else status = 429 \<or> 500 \<le> status)"

definition deliveryErrorCode :: "int \<Rightarrow> outbound_error option \<Rightarrow> string" where
  "deliveryErrorCode status err =
     (if err \<noteq> None then ''request_failed''
      else if status = 0 then ''unknown_status''
      else ''http_'' @ format_int status)"

text \<open>\<open>left\<close> counts the attempts that remain after this one.\<close>

fun deliver_attempts ::
  "'w client \<Rightarrow> registration \<Rightarrow> string \<Rightarrow> string \<Rightarrow> int \<Rightarrow> nat \<Rightarrow> delivery_result \<Rightarrow> 'w net \<Rightarrow> 'w net \<times> delivery_result" where
  "deliver_attempts c reg secret body attempt left result n =
     (case deliverOnce c reg secret body n of
        (n, status, err) \<Rightarrow>
          let result = result\<lparr>dv_Attempts := attempt, dv_Status := status\<rparr> in
          if err = None \<and> 200 \<le> status \<and> status < 300
          then (n, result\<lparr>dv_Success := True, dv_Error := []\<rparr>)
          else let result = result\<lparr>dv_Error := deliveryErrorCode status err\<rparr> in
            if \<not> shouldRetry status err then (n, result)
            else case left of
                0 \<Rightarrow> (n, result)
              | Suc left' \<Rightarrow>
                  if 0 < oc_backoff c attempt \<and> oc_cancelled c (nt_world n)
                  then (n, result\<lparr>dv_Error := ''context_cancelled''\<rparr>)
                  else deliver_attempts c reg secret body (attempt + 1) left' result n)"

definition newClientAttempts :: "int \<Rightarrow> int" where
  "newClientAttempts configured = (if configured \<le> 0 then 3 else configured)"

definition deliver :: "'w client \<Rightarrow> registration \<Rightarrow> string \<Rightarrow> out_event \<Rightarrow> 'w net \<Rightarrow> 'w net \<times> delivery_result" where
  "deliver c reg secret event n =
     (let result = \<lparr>dv_ID = [], dv_WebhookID = rn_ID reg, dv_EventID = ev_ID event, dv_EventType = ev_Type event,
                    dv_Success = False, dv_Status = 0, dv_Attempts = 0, dv_Error = [], dv_CreatedAt = zero_time\<rparr>
      in case oc_marshal c event of
           None \<Rightarrow> (n, result\<lparr>dv_Error := ''payload_marshal_failed''\<rparr>)
         | Some body \<Rightarrow> deliver_attempts c reg secret body 1 (nat (newClientAttempts (oc_maxAttempts c)) - 1) result n)"

subsection \<open>The store\<close>

record registration_record =
  rr_registration :: registration
  rr_secret :: string

record out_store =
  os_registrations :: "(string, registration_record) gomap"
  os_deliveries :: "(string, delivery_result list) gomap"

fun valid_event_types :: "string list \<Rightarrow> string list \<Rightarrow> bool" where
  "valid_event_types seen [] = True"
| "valid_event_types seen (t # ts) = (isSupportedEventType t \<and> t \<notin> set seen \<and> valid_event_types (t # seen) ts)"

definition validateRegistrationInput :: "(string \<Rightarrow> url option) \<Rightarrow> registration_input \<Rightarrow> outbound_error option" where
  "validateRegistrationInput parse input =
     (case parse (trim_space (ri_URL input)) of
        None \<Rightarrow> Some ErrInvalidInput
      | Some u \<Rightarrow>
          if url_Scheme u = [] \<or> url_Host u = [] then Some ErrInvalidInput
          else if url_Scheme u \<noteq> ''http'' \<and> url_Scheme u \<noteq> ''https'' then Some ErrInvalidInput
          else if ri_EventTypes input = [] then Some ErrInvalidInput
          else if \<not> valid_event_types [] (ri_EventTypes input) then Some ErrInvalidInput
          else if trim_space (ri_Secret input) = [] then Some ErrInvalidInput
          else None)"

definition hashSecret :: "(string \<Rightarrow> string) \<Rightarrow> string \<Rightarrow> string" where
  "hashSecret sha secret = ''sha256:'' @ hex_encode (sha secret)"

definition createRegistration ::
  "(string \<Rightarrow> url option) \<Rightarrow> (string \<Rightarrow> string) \<Rightarrow> string \<Rightarrow> gotime \<Rightarrow> registration_input \<Rightarrow> out_store \<Rightarrow> out_store \<times> (outbound_error + registration)" where
  "createRegistration parse sha newID now input s =
     (case validateRegistrationInput parse input of
        Some e \<Rightarrow> (s, Err e)
      | None \<Rightarrow>
          let reg = \<lparr>rn_ID = newID, rn_TenantID = trim_space (ri_TenantID input), rn_URL = trim_space (ri_URL input),
                     rn_EventTypes = ri_EventTypes input, rn_SecretRef = trim_space (ri_SecretRef input),
                     rn_SecretHash = hashSecret sha (ri_Secret input),
                     rn_Enabled = (case ri_Enabled input of None \<Rightarrow> True | Some b \<Rightarrow> b), rn_CreatedAt = now\<rparr>
          in (s\<lparr>os_registrations := mput newID \<lparr>rr_registration = reg, rr_secret = ri_Secret input\<rparr> (os_registrations s)\<rparr>, Ok reg))"

text \<open>\<open>it\<close> is the order in which the run iterates over the registrations.\<close>

definition listRegistrations ::
  "(registration_record list \<Rightarrow> registration_record list) \<Rightarrow> out_store \<Rightarrow> registration list" where
  "listRegistrations it s = map rr_registration (it (mvalues (os_registrations s)))"

definition getRegistration :: "string \<Rightarrow> out_store \<Rightarrow> outbound_error + registration" where
  "getRegistration i s =
     (case mget (os_registrations s) i of None \<Rightarrow> Err ErrWebhookNotFound | Some rec \<Rightarrow> Ok (rr_registration rec))"

definition deleteRegistration :: "string \<Rightarrow> out_store \<Rightarrow> out_store \<times> (outbound_error + unit)" where
  "deleteRegistration i s =
     (case mget (os_registrations s) i of
        None \<Rightarrow> (s, Err ErrWebhookNotFound)
      | Some _ \<Rightarrow> (s\<lparr>os_registrations := mdel i (os_registrations s), os_deliveries := mdel i (os_deliveries s)\<rparr>, Ok ()))"

definition enabledRegistrationsForEvent ::
  "(registration_record list \<Rightarrow> registration_record list) \<Rightarrow> string \<Rightarrow> out_store \<Rightarrow> registration list" where
  "enabledRegistrationsForEvent it t s =
     filter (\<lambda>reg. rn_Enabled reg \<and> t \<in> set (rn_EventTypes reg)) (listRegistrations it s)"

definition secretForRegistration :: "string \<Rightarrow> out_store \<Rightarrow> outbound_error + string" where
  "secretForRegistration i s =
     (case mget (os_registrations s) i of None \<Rightarrow> Err ErrWebhookNotFound | Some rec \<Rightarrow> Ok (rr_secret rec))"

definition recordDelivery ::
  "string \<Rightarrow> gotime \<Rightarrow> delivery_result \<Rightarrow> out_store \<Rightarrow> out_store \<times> (outbound_error + delivery_result)" where
  "recordDelivery newID now r s =
     (if dv_WebhookID r = [] \<or> dv_EventID r = [] \<or> dv_EventType r = [] then (s, Err ErrInvalidInput)
      else
        let r = (if dv_ID r = [] then r\<lparr>dv_ID := newID\<rparr> else r);
            r = (if time_is_zero (dv_CreatedAt r) then r\<lparr>dv_CreatedAt := now\<rparr> else r);
            old = (case mget (os_deliveries s) (dv_WebhookID r) of None \<Rightarrow> [] | Some rs \<Rightarrow> rs)
        in (s\<lparr>os_deliveries := mput (dv_WebhookID r) (old @ [r]) (os_deliveries s)\<rparr>, Ok r))"

definition listDeliveries :: "string \<Rightarrow> out_store \<Rightarrow> delivery_result list" where
  "listDeliveries i s = (case mget (os_deliveries s) i of None \<Rightarrow> [] | Some rs \<Rightarrow> rs)"

subsection \<open>The service\<close>

record 'w service =
  sv_client :: "'w client"
  sv_uuid :: "'w \<Rightarrow> string"
  sv_now :: "'w \<Rightarrow> gotime"
  sv_order :: "registration_record list \<Rightarrow> registration_record list"

definition listForTenant :: "'w service \<Rightarrow> string \<Rightarrow> out_store \<Rightarrow> registration list" where
  "listForTenant sv tenantID s = filter (\<lambda>reg. rn_TenantID reg = trim_space tenantID) (listRegistrations (sv_order sv) s)"

definition registrationForTenant :: "string \<Rightarrow> string \<Rightarrow> out_store \<Rightarrow> outbound_error + registration" where
  "registrationForTenant i tenantID s =
     (case getRegistration i s of
        Err e \<Rightarrow> Err e
      | Ok reg \<Rightarrow> if rn_TenantID reg \<noteq> trim_space tenantID then Err ErrWebhookNotFound else Ok reg)"

definition deleteForTenant :: "string \<Rightarrow> string \<Rightarrow> out_store \<Rightarrow> out_store \<times> (outbound_error + unit)" where
  "deleteForTenant i tenantID s =
     (case registrationForTenant i tenantID s of Err e \<Rightarrow> (s, Err e) | Ok _ \<Rightarrow> deleteRegistration i s)"

fun deliver_each ::
  "'w service \<Rightarrow> out_event \<Rightarrow> registration list \<Rightarrow> out_store \<Rightarrow> delivery_result list \<Rightarrow> 'w net
   \<Rightarrow> 'w net \<times> out_store \<times> delivery_result list \<times> outbound_error option" where
  "deliver_each sv event [] s results n = (n, s, results, None)"
| "deliver_each sv event (reg # regs) s results n =
     (if ev_TenantID event \<noteq> [] \<and> rn_TenantID reg \<noteq> [] \<and> rn_TenantID reg \<noteq> ev_TenantID event
      then deliver_each sv event regs s results n
      else case secretForRegistration (rn_ID reg) s of
        Err e \<Rightarrow> (n, s, results, Some e)
      | Ok secret \<Rightarrow>
     (case deliver (sv_client sv) reg secret event n of
        (n, result) \<Rightarrow>
          case recordDelivery (sv_uuid sv (nt_world n)) (sv_now sv (nt_world n)) result s of
            (s, Err e) \<Rightarrow> (n, s, results @ [result], Some e)
          | (s, Ok recorded) \<Rightarrow> deliver_each sv event regs s (results @ [recorded]) n))"

definition deliverEvent ::
  "'w service \<Rightarrow> out_event \<Rightarrow> out_store \<Rightarrow> 'w net \<Rightarrow> 'w net \<times> out_store \<times> delivery_result list \<times> outbound_error option" where
  "deliverEvent sv event s n =
     deliver_each sv event (enabledRegistrationsForEvent (sv_order sv) (ev_Type event) s) s [] n"

definition testWebhook ::
  "'w service \<Rightarrow> string \<Rightarrow> string \<Rightarrow> out_store \<Rightarrow> 'w net \<Rightarrow> 'w net \<times> out_store \<times> (outbound_error + delivery_result)" where
  "testWebhook sv i eventType s n =
     (case getRegistration i s of
        Err e \<Rightarrow> (n, s, Err e)
      | Ok reg \<Rightarrow>
     (if eventType = [] \<and> rn_EventTypes reg = [] then (n, s, Err ErrInvalidInput)
      else let t = (if eventType = [] then hd (rn_EventTypes reg) else eventType) in
      if \<not> isSupportedEventType t \<or> \<not> registrationHasEventType reg t then (n, s, Err ErrInvalidInput)
      else case secretForRegistration (rn_ID reg) s of
        Err e \<Rightarrow> (n, s, Err e)
      | Ok secret \<Rightarrow>
     (let event = \<lparr>ev_ID = sv_uuid sv (nt_world n), ev_Type = t, ev_TenantID = ''default'',
                   ev_Payload = ''{'' @ CHR 0x22 # ''test'' @ CHR 0x22 # '':true}'',
                   ev_Timestamp = sv_now sv (nt_world n), ev_Source = ''webhook.test''\<rparr>
      in case deliver (sv_client sv) reg secret event n of
           (n, result) \<Rightarrow>
             case recordDelivery (sv_uuid sv (nt_world n)) (sv_now sv (nt_world n)) result s of
               (s, Err e) \<Rightarrow> (n, s, Err e)
             | (s, Ok recorded) \<Rightarrow> (n, s, Ok recorded))))"

definition testForTenant ::
  "'w service \<Rightarrow> string \<Rightarrow> string \<Rightarrow> string \<Rightarrow> out_store \<Rightarrow> 'w net \<Rightarrow> 'w net \<times> out_store \<times> (outbound_error + delivery_result)" where
  "testForTenant sv i tenantID eventType s n =
     (case registrationForTenant i tenantID s of Err e \<Rightarrow> (n, s, Err e) | Ok _ \<Rightarrow> testWebhook sv i eventType s n)"

subsection \<open>A delivery\<close>

text \<open>The answers to the requests of a trace.\<close>

definition answers :: "net_event list \<Rightarrow> int option list" where
  "answers tr = concat (map (\<lambda>e. case e of Sent _ r \<Rightarrow> [r] | Looked _ _ \<Rightarrow> []) tr)"

lemma answers_simps [simp]: "answers [] = []" "answers (tr @ tr') = answers tr @ answers tr'"
  "answers [Sent q r] = [r]" "answers [Looked h a] = []" "answers [Looked h a, Sent q r] = [r]"
  by (simp_all add: answers_def)

definition success_answer :: "int option \<Rightarrow> bool" where
  "success_answer r = (case r of None \<Rightarrow> False | Some s \<Rightarrow> 200 \<le> s \<and> s < 300)"

definition retryable_answer :: "int option \<Rightarrow> bool" where
  "retryable_answer r = (case r of None \<Rightarrow> True | Some s \<Rightarrow> s = 429 \<or> 500 \<le> s)"

text \<open>What one look at the guard and one attempt add to the trace.\<close>

definition lookup_ok :: "'w client \<Rightarrow> string \<Rightarrow> net_event \<Rightarrow> bool" where
  "lookup_ok c u e \<longleftrightarrow> (\<exists>p addrs. oc_parse c (trim_space u) = Some p
     \<and> (to_lower (url_Scheme p) = ''https'' \<or> sg_AllowInsecureHTTP (oc_guard c) \<and> to_lower (url_Scheme p) = ''http'')
     \<and> url_Hostname p \<noteq> [] \<and> e = Looked (url_Hostname p) (Some addrs) \<and> addrs \<noteq> [] \<and> (\<forall>a \<in> set addrs. classifyIP a = []))"

lemma checkURL_trace:
  assumes "checkURL c u n = (n', e)" and "\<not> sg_permit (oc_guard c)"
  shows "\<exists>tr. nt_trace n' = nt_trace n @ tr \<and> answers tr = [] \<and> (\<forall>q r. Sent q r \<notin> set tr) \<and> (e = None \<longrightarrow> (\<exists>l. tr = [l] \<and> lookup_ok c u l))"
proof (cases "parseAndValidateScheme c u")
  case (Inl x)
  then show ?thesis using assms by (auto simp: checkURL_def)
next
  case (Inr p)
  then have p: "oc_parse c (trim_space u) = Some p"
    "to_lower (url_Scheme p) = ''https'' \<or> sg_AllowInsecureHTTP (oc_guard c) \<and> to_lower (url_Scheme p) = ''http''"
    by (auto simp: parseAndValidateScheme_def Let_def split: option.splits if_splits)
  obtain n2 r where l: "resolve c (url_Hostname p) n = (n2, r)" by force
  then have t: "nt_trace n2 = nt_trace n @ [Looked (url_Hostname p) r]" by (auto simp: resolve_def split: prod.splits)
  show ?thesis
  proof (cases "url_Hostname p = []")
    case True
    then show ?thesis using assms Inr by (auto simp: checkURL_def)
  next
    case False
    have "n' = n2 \<and> (e = None \<longrightarrow> (\<exists>addrs. r = Some addrs \<and> addrs \<noteq> [] \<and> (\<forall>a \<in> set addrs. classifyIP a = [])))"
      using assms Inr False l by (auto simp: checkURL_def list_ex_iff split: option.splits if_splits)
    then show ?thesis using t p False by (auto simp: lookup_ok_def)
  qed
qed

text \<open>One attempt: nothing is sent, or one checked and signed request.\<close>

definition attempt_trace :: "'w client \<Rightarrow> registration \<Rightarrow> string \<Rightarrow> string \<Rightarrow> net_event list \<Rightarrow> bool" where
  "attempt_trace c reg secret body tr \<longleftrightarrow>
     (\<forall>q r. Sent q r \<notin> set tr)
     \<or> (\<exists>l r now. tr = [l, Sent (delivery_request (oc_mac c) reg secret now body) r] \<and> lookup_ok c (rn_URL reg) l)"

lemma once_trace:
  assumes "deliverOnce c reg secret body n = (n', status, err)" and "\<not> sg_permit (oc_guard c)"
  obtains tr where "nt_trace n' = nt_trace n @ tr" "attempt_trace c reg secret body tr"
    "answers tr = [] \<and> status = 0 \<and> err \<noteq> None
     \<or> (\<exists>r. answers tr = [r] \<and> (case r of None \<Rightarrow> status = 0 \<and> err \<noteq> None | Some s \<Rightarrow> status = s \<and> err = None))"
proof -
  obtain n1 e where ch: "checkURL c (rn_URL reg) n = (n1, e)" by force
  from checkURL_trace [OF this assms(2)] obtain tr1 where
    t1: "nt_trace n1 = nt_trace n @ tr1" "answers tr1 = []" "\<forall>q r. Sent q r \<notin> set tr1"
      "e = None \<longrightarrow> (\<exists>l. tr1 = [l] \<and> lookup_ok c (rn_URL reg) l)" by blast
  show ?thesis
  proof (cases "e = None \<and> oc_parse c (rn_URL reg) \<noteq> None")
    case False
    then have "n' = n1 \<and> status = 0 \<and> err \<noteq> None" using assms(1) ch by (cases e) (auto simp: deliverOnce_def)
    then show ?thesis using that [of tr1] t1 by (auto simp: attempt_trace_def)
  next
    case True
    then obtain l where l: "tr1 = [l]" "lookup_ok c (rn_URL reg) l" using t1(4) by blast
    let ?q = "delivery_request (oc_mac c) reg secret (oc_now c (nt_world n1)) body"
    obtain n2 r where d: "http_do c ?q n1 = (n2, r)" by force
    then have t2: "nt_trace n2 = nt_trace n @ [l, Sent ?q r]" using t1(1) l(1) by (auto simp: http_do_def split: prod.splits)
    have a: "answers [l, Sent ?q r] = [r]" using l(2) by (auto simp: lookup_ok_def)
    have "n' = n2 \<and> (case r of None \<Rightarrow> status = 0 \<and> err \<noteq> None | Some s \<Rightarrow> status = s \<and> err = None)"
      using assms(1) ch True d by (cases r) (auto simp: deliverOnce_def)
    then show ?thesis using that [of "[l, Sent ?q r]"] t2 l(2) a by (auto simp: attempt_trace_def)
  qed
qed

text \<open>A delivery is a sequence of such attempts, and what it reports.\<close>

definition report_ok :: "int \<Rightarrow> int \<Rightarrow> net_event list \<Rightarrow> delivery_result \<Rightarrow> bool" where
  "report_ok first last_attempt tr r \<longleftrightarrow>
     first \<le> dv_Attempts r \<and> dv_Attempts r \<le> last_attempt
     \<and> int (length (answers tr)) \<le> dv_Attempts r - first + 1
     \<and> (dv_Success r \<longleftrightarrow> (\<exists>a as. answers tr = as @ [a] \<and> success_answer a))
     \<and> (\<forall>a \<in> set (butlast (answers tr)). retryable_answer a)
     \<and> (\<not> dv_Success r \<and> dv_Attempts r < last_attempt \<and> dv_Error r \<noteq> ''context_cancelled''
        \<longrightarrow> (\<exists>a as. answers tr = as @ [a] \<and> \<not> retryable_answer a))"

lemma retry_answer: "retryable_answer a \<Longrightarrow> \<not> success_answer a"
  by (auto simp: retryable_answer_def success_answer_def split: option.splits)

lemma code_not_cancelled: "deliveryErrorCode s e \<noteq> ''context_cancelled''"
  by (simp add: deliveryErrorCode_def)

lemma report_extend:
  assumes "report_ok (first + 1) lst tr r" and "answers tr0 = [] \<or> (\<exists>a. answers tr0 = [a] \<and> retryable_answer a)"
  shows "report_ok first lst (tr0 @ tr) r"
proof -
  have b: "set (butlast (answers (tr0 @ tr))) \<subseteq> (if answers tr = [] then {} else set (answers tr0)) \<union> set (butlast (answers tr))"
    using assms(2) by (auto simp: butlast_append)
  have e: "(\<exists>a as. answers (tr0 @ tr) = as @ [a] \<and> P a) \<longleftrightarrow> (\<exists>a as. answers tr = as @ [a] \<and> P a)"
    if "\<And>a. P a \<Longrightarrow> \<not> retryable_answer a" for P
  proof (cases "answers tr" rule: rev_cases)
    case Nil
    then show ?thesis using assms(2) that by auto
  qed (use assms(2) in auto)
  have s: "success_answer a \<Longrightarrow> \<not> retryable_answer a" for a using retry_answer by blast
  have "dv_Success r \<longleftrightarrow> (\<exists>a as. answers (tr0 @ tr) = as @ [a] \<and> success_answer a)"
    using assms(1) e [of success_answer] s by (simp add: report_ok_def)
  moreover have "(\<exists>a as. answers (tr0 @ tr) = as @ [a] \<and> \<not> retryable_answer a) \<longleftrightarrow> (\<exists>a as. answers tr = as @ [a] \<and> \<not> retryable_answer a)"
    by (rule e) simp
  moreover have "\<forall>a \<in> set (butlast (answers (tr0 @ tr))). retryable_answer a"
    using assms b by (fastforce simp: report_ok_def split: if_splits)
  ultimately show ?thesis using assms by (auto simp: report_ok_def)
qed

lemma attempt_answer:
  assumes "answers tr = [] \<and> status = 0 \<and> err \<noteq> None
     \<or> (\<exists>r. answers tr = [r] \<and> (case r of None \<Rightarrow> status = 0 \<and> err \<noteq> None | Some s \<Rightarrow> status = s \<and> err = None))"
  shows "(err = None \<and> 200 \<le> status \<and> status < 300) \<longleftrightarrow> (\<exists>x. answers tr = [x] \<and> success_answer x)"
    and "shouldRetry status err \<longleftrightarrow> answers tr = [] \<or> (\<exists>x. answers tr = [x] \<and> retryable_answer x)"
  using assms by (auto simp: success_answer_def retryable_answer_def shouldRetry_def split: option.splits)

declare deliver_attempts.simps [simp del]

lemma first_attempt:
  assumes g: "\<not> sg_permit (oc_guard c)" and d: "deliver_attempts c reg secret body attempt left r0 n = (n', r)" and f: "\<not> dv_Success r0"
  obtains (stop) tr where "nt_trace n' = nt_trace n @ tr" "attempt_trace c reg secret body tr" "report_ok attempt (attempt + int left) tr r"
      "dv_WebhookID r = dv_WebhookID r0" "dv_EventID r = dv_EventID r0" "dv_EventType r = dv_EventType r0"
    | (more) tr n1 left' r1 where "left = Suc left'" "nt_trace n1 = nt_trace n @ tr" "attempt_trace c reg secret body tr"
      "deliver_attempts c reg secret body (attempt + 1) left' r1 n1 = (n', r)" "\<not> dv_Success r1"
      "answers tr = [] \<or> (\<exists>a. answers tr = [a] \<and> retryable_answer a)"
      "dv_WebhookID r1 = dv_WebhookID r0" "dv_EventID r1 = dv_EventID r0" "dv_EventType r1 = dv_EventType r0"
proof -
  obtain n1 status err where o: "deliverOnce c reg secret body n = (n1, status, err)" by (metis prod_cases3)
  from once_trace [OF o g] obtain tr where t: "nt_trace n1 = nt_trace n @ tr" "attempt_trace c reg secret body tr"
    and a: "answers tr = [] \<and> status = 0 \<and> err \<noteq> None
     \<or> (\<exists>r. answers tr = [r] \<and> (case r of None \<Rightarrow> status = 0 \<and> err \<noteq> None | Some s \<Rightarrow> status = s \<and> err = None))" by metis
  let ?r1 = "r0\<lparr>dv_Attempts := attempt, dv_Status := status, dv_Error := deliveryErrorCode status err\<rparr>"
  note at = attempt_answer [OF a] and run = d [unfolded deliver_attempts.simps [of c reg secret body attempt left r0 n] o prod.case Let_def]
  show ?thesis
  proof (cases "err = None \<and> 200 \<le> status \<and> status < 300")
    case True
    then have r: "n' = n1" "r = r0\<lparr>dv_Attempts := attempt, dv_Status := status, dv_Success := True, dv_Error := []\<rparr>"
      using run by simp_all
    from True at(1) obtain x where "answers tr = [x]" "success_answer x" by blast
    then have "report_ok attempt (attempt + int left) tr r" by (simp add: report_ok_def r)
    with r t show ?thesis by (intro stop [of tr]) simp_all
  next
    case no: False
    show ?thesis
    proof (cases "shouldRetry status err")
      case False
      then have r: "n' = n1" "r = ?r1" using run no by simp_all
      from False no at obtain x where "answers tr = [x]" "\<not> retryable_answer x" "\<not> success_answer x" using a by blast
      then have "report_ok attempt (attempt + int left) tr r" using f by (simp add: report_ok_def r)
      with r t show ?thesis by (intro stop [of tr]) simp_all
    next
      case True
      have ns: "answers tr = [] \<or> (\<exists>x. answers tr = [x] \<and> \<not> success_answer x)" using a at(1) no by blast
      show ?thesis
      proof (cases left)
        case 0
        then have r: "n' = n1" "r = ?r1" using run no True by simp_all
        have "report_ok attempt (attempt + int left) tr r" using f ns 0 by (auto simp: report_ok_def r)
        with r t show ?thesis by (intro stop [of tr]) simp_all
      next
        case (Suc left')
        show ?thesis
        proof (cases "0 < oc_backoff c attempt \<and> oc_cancelled c (nt_world n1)")
          case c: True
          then have r: "n' = n1" "r = ?r1\<lparr>dv_Error := ''context_cancelled''\<rparr>" using run no True Suc by simp_all
          have "report_ok attempt (attempt + int left) tr r" using f ns by (auto simp: report_ok_def r)
          with r t show ?thesis by (intro stop [of tr]) simp_all
        next
          case c: False
          then have "deliver_attempts c reg secret body (attempt + 1) left' ?r1 n1 = (n', r)"
            using run no True Suc by (simp split: if_splits)
          then show ?thesis using more [OF Suc t] f True at(2) by simp
        qed
      qed
    qed
  qed
qed

lemma attempts_report:
  assumes "\<not> sg_permit (oc_guard c)"
  shows "deliver_attempts c reg secret body attempt left r0 n = (n', r) \<Longrightarrow> \<not> dv_Success r0 \<Longrightarrow>
    \<exists>trs. nt_trace n' = nt_trace n @ concat trs \<and> (\<forall>tr \<in> set trs. attempt_trace c reg secret body tr)
      \<and> report_ok attempt (attempt + int left) (concat trs) r
      \<and> dv_WebhookID r = dv_WebhookID r0 \<and> dv_EventID r = dv_EventID r0 \<and> dv_EventType r = dv_EventType r0"
proof (induction left arbitrary: attempt r0 n rule: nat_less_induct)
  case (1 left)
  from assms 1(2,3) show ?case
  proof (cases rule: first_attempt)
    case (stop tr)
    then show ?thesis by (intro exI [of _ "[tr]"]) simp
  next
    case (more tr n1 left' r1)
    then have "left' < left" by simp
    with 1(1) more(4,5) obtain trs where i: "nt_trace n' = nt_trace n1 @ concat trs"
      "\<forall>tr \<in> set trs. attempt_trace c reg secret body tr" "report_ok (attempt + 1) (attempt + 1 + int left') (concat trs) r"
      "dv_WebhookID r = dv_WebhookID r1 \<and> dv_EventID r = dv_EventID r1 \<and> dv_EventType r = dv_EventType r1" by blast
    have "attempt + 1 + int left' = attempt + int left" using more(1) by simp
    with report_extend [OF i(3) more(6)] have "report_ok attempt (attempt + int left) (tr @ concat trs) r" by metis
    then show ?thesis using i more by (intro exI [of _ "tr # trs"]) simp
  qed
qed

text \<open>A delivery tells what happened. When the event can be encoded, a delivery makes between one and the
  configured number of attempts, at most one request each; it reports success exactly when its last request
  was answered with a 2xx status; it repeats a request only after 429, a server error or no answer; and it
  gives up before the last attempt only after an answer that is not retried or when the context ended.\<close>

theorem delivery_tells_outcome:
  assumes strict: "\<not> sg_permit (oc_guard c)" and body: "oc_marshal c event = Some body"
    and run: "deliver c reg secret event n = (n', r)"
  shows "\<exists>tr. nt_trace n' = nt_trace n @ tr
    \<and> 1 \<le> dv_Attempts r \<and> dv_Attempts r \<le> newClientAttempts (oc_maxAttempts c) \<and> int (length (answers tr)) \<le> dv_Attempts r
    \<and> (dv_Success r \<longleftrightarrow> (\<exists>a as. answers tr = as @ [a] \<and> success_answer a))
    \<and> (\<forall>a \<in> set (butlast (answers tr)). retryable_answer a)
    \<and> (\<not> dv_Success r \<and> dv_Attempts r < newClientAttempts (oc_maxAttempts c) \<and> dv_Error r \<noteq> ''context_cancelled''
        \<longrightarrow> (\<exists>a as. answers tr = as @ [a] \<and> \<not> retryable_answer a))"
proof -
  let ?m = "newClientAttempts (oc_maxAttempts c)"
  have m: "1 + int (nat ?m - 1) = ?m" by (simp add: newClientAttempts_def)
  obtain r0 where d: "deliver_attempts c reg secret body 1 (nat ?m - 1) r0 n = (n', r)" "\<not> dv_Success r0"
    using run body by (simp add: deliver_def)
  from attempts_report [OF strict d] obtain trs where
    "nt_trace n' = nt_trace n @ concat trs" "report_ok 1 ?m (concat trs) r" by (metis m)
  then show ?thesis by (intro exI [of _ "concat trs"]) (simp add: report_ok_def)
qed

lemma deliver_trace:
  assumes "\<not> sg_permit (oc_guard c)" and "deliver c reg secret event n = (n', r)"
  shows "\<exists>trs. nt_trace n' = nt_trace n @ concat trs
    \<and> (\<forall>tr \<in> set trs. \<exists>body. oc_marshal c event = Some body \<and> attempt_trace c reg secret body tr)
    \<and> dv_WebhookID r = rn_ID reg \<and> dv_EventID r = ev_ID event \<and> dv_EventType r = ev_Type event"
proof (cases "oc_marshal c event")
  case None
  then show ?thesis using assms(2) by (auto simp: deliver_def intro: exI [of _ "[]"])
next
  case (Some body)
  from attempts_report [OF assms(1)] assms(2) Some show ?thesis by (force simp: deliver_def Let_def)
qed

subsection \<open>The service over its store\<close>

datatype service_call =
    CallRegister string registration_input
  | CallDelete string
  | CallDeleteForTenant string string
  | CallEvent out_event
  | CallTest string string
  | CallTestForTenant string string string

fun run_service :: "'w service \<Rightarrow> (string \<Rightarrow> string) \<Rightarrow> service_call list \<Rightarrow> out_store \<times> 'w net \<Rightarrow> out_store \<times> 'w net" where
  "run_service sv sha [] (s, n) = (s, n)"
| "run_service sv sha (CallRegister newID input # cs) (s, n) =
     run_service sv sha cs (fst (createRegistration (oc_parse (sv_client sv)) sha newID (sv_now sv (nt_world n)) input s), n)"
| "run_service sv sha (CallDelete i # cs) (s, n) = run_service sv sha cs (fst (deleteRegistration i s), n)"
| "run_service sv sha (CallDeleteForTenant i t # cs) (s, n) = run_service sv sha cs (fst (deleteForTenant i t s), n)"
| "run_service sv sha (CallEvent event # cs) (s, n) =
     (case deliverEvent sv event s n of (n, s, _) \<Rightarrow> run_service sv sha cs (s, n))"
| "run_service sv sha (CallTest i t # cs) (s, n) =
     (case testWebhook sv i t s n of (n, s, _) \<Rightarrow> run_service sv sha cs (s, n))"
| "run_service sv sha (CallTestForTenant i ten t # cs) (s, n) =
     (case testForTenant sv i ten t s n of (n, s, _) \<Rightarrow> run_service sv sha cs (s, n))"

definition newOutStore :: out_store where "newOutStore = \<lparr>os_registrations = [], os_deliveries = []\<rparr>"

text \<open>Registrations are kept under their identifier and subscribe to supported types.\<close>

definition store_ok :: "out_store \<Rightarrow> bool" where
  "store_ok s \<longleftrightarrow> mwf (os_registrations s) \<and> (\<forall>k rec. mget (os_registrations s) k = Some rec \<longrightarrow>
     rn_ID (rr_registration rec) = k \<and> k \<noteq> [] \<and> set (rn_EventTypes (rr_registration rec)) \<subseteq> set supportedEventTypes)"

fun fresh_id :: "service_call \<Rightarrow> bool" where
  "fresh_id (CallRegister newID _) \<longleftrightarrow> newID \<noteq> []"
| "fresh_id _ \<longleftrightarrow> True"

lemma valid_event_types_supported: "valid_event_types seen ts \<Longrightarrow> set ts \<subseteq> set supportedEventTypes"
  by (induction seen ts rule: valid_event_types.induct) (simp_all add: isSupportedEventType_def)

lemma validate_input_types: "validateRegistrationInput parse input = None \<Longrightarrow> set (ri_EventTypes input) \<subseteq> set supportedEventTypes"
  using valid_event_types_supported by (auto simp: validateRegistrationInput_def Let_def split: option.splits if_splits)

lemma recordDelivery_registrations: "recordDelivery i now r s = (s', x) \<Longrightarrow> os_registrations s' = os_registrations s"
  by (auto simp: recordDelivery_def Let_def split: if_splits)

lemma recordDelivery_Ok:
  assumes "dv_WebhookID r \<noteq> []" "dv_EventID r \<noteq> []" "dv_EventType r \<noteq> []"
  shows "\<exists>s' r'. recordDelivery i now r s = (s', Ok r') \<and> dv_WebhookID r' = dv_WebhookID r"
  using assms by (simp add: recordDelivery_def Let_def)

lemma deliver_each_registrations:
  "deliver_each sv event regs s results n = (n', s', rs, e) \<Longrightarrow> os_registrations s' = os_registrations s"
proof (induction regs arbitrary: s results n)
  case (Cons reg regs)
  show ?case
  proof (cases "secretForRegistration (rn_ID reg) s")
    case (Inr secret)
    obtain n1 r where d: "deliver (sv_client sv) reg secret event n = (n1, r)" by force
    obtain s1 x where x: "recordDelivery (sv_uuid sv (nt_world n1)) (sv_now sv (nt_world n1)) r s = (s1, x)" by force
    have "os_registrations s1 = os_registrations s" by (rule recordDelivery_registrations [OF x])
    then show ?thesis using Cons Inr d x by (cases x) (auto split: if_splits)
  qed (use Cons in \<open>auto split: if_splits\<close>)
qed simp

lemma testWebhook_registrations:
  assumes "testWebhook sv i t s n = (n', s', r)"
  shows "os_registrations s' = os_registrations s"
  using assms by (auto simp: testWebhook_def Let_def split: sum.splits if_splits prod.splits dest: recordDelivery_registrations)

lemma store_ok_delete: "store_ok s \<Longrightarrow> store_ok (fst (deleteRegistration i s))"
  by (auto simp: store_ok_def deleteRegistration_def mwf_mdel split: option.splits if_splits)

lemma store_ok_create: "store_ok s \<Longrightarrow> newID \<noteq> [] \<Longrightarrow> store_ok (fst (createRegistration parse sha newID now input s))"
  using validate_input_types [of parse input] by (auto simp: store_ok_def createRegistration_def Let_def mwf_mput split: option.splits if_splits)

lemma store_ok_run: "store_ok s \<Longrightarrow> \<forall>c \<in> set cs. fresh_id c \<Longrightarrow> run_service sv sha cs (s, n) = (s', n') \<Longrightarrow> store_ok s'"
proof (induction sv sha cs "(s, n)" arbitrary: s n rule: run_service.induct)
  case (4 sv sha i t cs s n)
  then show ?case using store_ok_delete [of s i] by (auto simp: deleteForTenant_def split: sum.splits)
next
  case (5 sv sha event cs s n)
  obtain n1 s1 rs e where d: "deliverEvent sv event s n = (n1, s1, rs, e)" by (metis prod_cases4)
  then have "store_ok s1" using 5(2) deliver_each_registrations by (fastforce simp: deliverEvent_def store_ok_def)
  then show ?case using 5 d by simp
next
  case (6 sv sha i t cs s n)
  obtain n1 s1 r where d: "testWebhook sv i t s n = (n1, s1, r)" by (metis prod_cases3)
  then have "store_ok s1" using 6(2) testWebhook_registrations by (fastforce simp: store_ok_def)
  then show ?case using 6 d by simp
next
  case (7 sv sha i ten t cs s n)
  obtain n1 s1 r where d: "testForTenant sv i ten t s n = (n1, s1, r)" by (metis prod_cases3)
  then have "store_ok s1" using 7(2) testWebhook_registrations
    by (fastforce simp: testForTenant_def store_ok_def split: sum.splits)
  then show ?case using 7 d by simp
qed (auto simp: store_ok_delete store_ok_create)

definition event_reaches :: "out_event \<Rightarrow> registration \<Rightarrow> bool" where
  "event_reaches event reg \<longleftrightarrow> rn_Enabled reg \<and> ev_Type event \<in> set (rn_EventTypes reg)
     \<and> (ev_TenantID event = [] \<or> rn_TenantID reg = [] \<or> rn_TenantID reg = ev_TenantID event)"

text \<open>One attempt for an event: no request, or one that is checked, goes to a registration that the event
  reaches and is signed with its secret.\<close>

definition event_trace :: "'w client \<Rightarrow> out_event \<Rightarrow> (string, registration_record) gomap \<Rightarrow> net_event list \<Rightarrow> bool" where
  "event_trace c event regs tr \<longleftrightarrow>
     (\<forall>q r. Sent q r \<notin> set tr)
     \<or> (\<exists>l r k rec body now. mget regs k = Some rec \<and> event_reaches event (rr_registration rec) \<and> oc_marshal c event = Some body
        \<and> tr = [l, Sent (delivery_request (oc_mac c) (rr_registration rec) (rr_secret rec) now body) r]
        \<and> lookup_ok c (rn_URL (rr_registration rec)) l)"

lemma secret_of:
  assumes "store_ok s" "mget (os_registrations s) k = Some rec"
  shows "secretForRegistration (rn_ID (rr_registration rec)) s = Ok (rr_secret rec)"
proof -
  have "rn_ID (rr_registration rec) = k" using assms by (simp add: store_ok_def)
  then show ?thesis using assms by (simp add: secretForRegistration_def)
qed

lemma deliver_each_result:
  assumes strict: "\<not> sg_permit (oc_guard (sv_client sv))" and ev: "ev_ID event \<noteq> []"
  shows "store_ok s \<Longrightarrow>
    \<forall>reg \<in> set regs. \<exists>k rec. mget (os_registrations s) k = Some rec \<and> rr_registration rec = reg \<and> rn_Enabled reg \<and> ev_Type event \<in> set (rn_EventTypes reg)
    \<Longrightarrow> deliver_each sv event regs s results n = (n', s', rs, e)
    \<Longrightarrow> e = None \<and> map dv_WebhookID rs = map dv_WebhookID results @ map rn_ID (filter (event_reaches event) regs)
      \<and> (\<exists>trs. nt_trace n' = nt_trace n @ concat trs \<and> (\<forall>tr \<in> set trs. event_trace (sv_client sv) event (os_registrations s) tr))"
proof (induction regs arbitrary: s results n)
  case Nil
  then show ?case by (auto intro: exI [of _ "[]"])
next
  case (Cons reg regs)
  let ?c = "sv_client sv"
  obtain k rec where k: "mget (os_registrations s) k = Some rec" "rr_registration rec = reg" "rn_Enabled reg"
    "ev_Type event \<in> set (rn_EventTypes reg)" using Cons.prems(2) by auto
  have rest: "\<forall>reg \<in> set regs. \<exists>k rec. mget (os_registrations s) k = Some rec \<and> rr_registration rec = reg \<and> rn_Enabled reg \<and> ev_Type event \<in> set (rn_EventTypes reg)"
    using Cons.prems(2) by simp
  show ?case
  proof (cases "event_reaches event reg")
    case False
    then have "deliver_each sv event regs s results n = (n', s', rs, e)" using Cons.prems(3) k(3,4) by (simp add: event_reaches_def)
    from Cons.IH [OF Cons.prems(1) rest this] show ?thesis using False by simp
  next
    case True
    obtain n1 r where d: "deliver ?c reg (rr_secret rec) event n = (n1, r)" by force
    from deliver_trace [OF strict d] obtain trs1 where t1: "nt_trace n1 = nt_trace n @ concat trs1"
      "\<forall>tr \<in> set trs1. \<exists>body. oc_marshal ?c event = Some body \<and> attempt_trace ?c reg (rr_secret rec) body tr"
      "dv_WebhookID r = rn_ID reg" "dv_EventID r = ev_ID event" "dv_EventType r = ev_Type event" by blast
    have "[] \<notin> set supportedEventTypes" by (simp add: supportedEventTypes_def)
    moreover have sto: "rn_ID reg = k" "k \<noteq> []" and "set (rn_EventTypes reg) \<subseteq> set supportedEventTypes"
      using Cons.prems(1) k by (auto simp: store_ok_def)
    ultimately have ty: "ev_Type event \<noteq> []" using k(4) by fastforce
    obtain s1 r1 where x: "recordDelivery (sv_uuid sv (nt_world n1)) (sv_now sv (nt_world n1)) r s = (s1, Ok r1)"
      "dv_WebhookID r1 = dv_WebhookID r"
      using recordDelivery_Ok [of r "sv_uuid sv (nt_world n1)" "sv_now sv (nt_world n1)" s] t1(3-5) sto ty ev by auto
    have sec: "secretForRegistration (rn_ID reg) s = Ok (rr_secret rec)" using secret_of [OF Cons.prems(1) k(1)] k(2) by simp
    have run: "deliver_each sv event regs s1 (results @ [r1]) n1 = (n', s', rs, e)"
      using Cons.prems(3) True sec d x(1) by (auto simp: event_reaches_def)
    have regs: "os_registrations s1 = os_registrations s" by (rule recordDelivery_registrations [OF x(1)])
    then have "store_ok s1" using Cons.prems(1) by (simp add: store_ok_def)
    from Cons.IH [OF this _ run] rest regs obtain trs2 where t2: "e = None"
      "map dv_WebhookID rs = map dv_WebhookID (results @ [r1]) @ map rn_ID (filter (event_reaches event) regs)"
      "nt_trace n' = nt_trace n1 @ concat trs2" "\<forall>tr \<in> set trs2. event_trace ?c event (os_registrations s) tr" by auto
    have "\<forall>tr \<in> set trs1. event_trace ?c event (os_registrations s) tr"
      using t1(2) k True unfolding event_trace_def attempt_trace_def by metis
    then show ?thesis using t1 t2 x(2) True by (intro conjI exI [of _ "trs1 @ trs2"]) auto
  qed
qed


text \<open>A service whose receiver answers 503 once and then 200.\<close>

definition sample_client :: "nat client" where
  "sample_client =
     \<lparr>oc_parse = (\<lambda>u. Some \<lparr>url_Scheme = ''https'', url_Host = ''shop.example'', url_Hostname = ''shop.example''\<rparr>),
      oc_lookup = (\<lambda>h w. (w, Some [[93, 184, 216, 34]])), oc_do = (\<lambda>q w. (w + 1, Some (if w = 0 then 503 else 200))),
      oc_now = (\<lambda>_. 0), oc_mac = (\<lambda>k m. k @ m), oc_marshal = (\<lambda>e. Some (ev_ID e)),
      oc_guard = \<lparr>sg_permit = False, sg_AllowInsecureHTTP = False\<rparr>, oc_maxAttempts = 3, oc_backoff = (\<lambda>_. 0), oc_cancelled = (\<lambda>_. False)\<rparr>"

definition sample_service :: "nat service" where
  "sample_service = \<lparr>sv_client = sample_client, sv_uuid = (\<lambda>_. ''d''), sv_now = (\<lambda>_. 5), sv_order = (\<lambda>xs. xs)\<rparr>"

definition sample_input :: "string \<Rightarrow> registration_input" where
  "sample_input tenant = \<lparr>ri_TenantID = tenant, ri_URL = ''https://shop.example/hook'', ri_EventTypes = [''order.placed''],
     ri_Secret = ''s'', ri_SecretRef = [], ri_Enabled = None\<rparr>"

definition sample_event :: out_event where
  "sample_event = \<lparr>ev_ID = ''e1'', ev_Type = ''order.placed'', ev_TenantID = ''t1'', ev_Payload = [], ev_Timestamp = 0, ev_Source = []\<rparr>"

definition sample_registration :: registration where
  "sample_registration = \<lparr>rn_ID = ''w1'', rn_TenantID = ''t1'', rn_URL = ''https://shop.example/hook'', rn_EventTypes = [''order.placed''],
     rn_SecretRef = [], rn_SecretHash = [], rn_Enabled = True, rn_CreatedAt = 0\<rparr>"

theorem delivery_tells_outcome_witness:
  "\<exists>tr. dv_Success (snd (deliver sample_client sample_registration ''s'' sample_event \<lparr>nt_world = 0, nt_trace = []\<rparr>))
     \<and> nt_trace (fst (deliver sample_client sample_registration ''s'' sample_event \<lparr>nt_world = 0, nt_trace = []\<rparr>)) = tr
     \<and> (\<exists>a as. answers tr = as @ [a] \<and> success_answer a)"
proof -
  let ?d = "deliver sample_client sample_registration ''s'' sample_event \<lparr>nt_world = 0, nt_trace = []\<rparr>"
  have s: "dv_Success (snd ?d)" by code_simp
  have c: "\<not> sg_permit (oc_guard sample_client)" "oc_marshal sample_client sample_event = Some ''e1''" by code_simp+
  have "?d = (fst ?d, snd ?d)" by simp
  from delivery_tells_outcome [OF c this] s show ?thesis by auto
qed


end
