(* ===== verification/Tenants.thy ===== *)
theory Tenants
  imports Go_Encoding Lifecycle
begin

text \<open>
  Tenants (\<open>internal/tenant\<close>): the aggregate with its state machine, the service that creates tenants within
  a quota and moves them, the in-memory repository, and the settings of a tenant.
\<close>

subsection \<open>The state machine\<close>

text \<open>\<open>StatusZero\<close> is the zero value of the type, the empty string.\<close>

datatype tstatus = StatusZero | StatusProvisioning | StatusActive | StatusSuspended | StatusArchived
datatype ttransition = StatusTransitionActivate | StatusTransitionSuspend | StatusTransitionArchive

datatype tenant_error =
    ErrTenantRequired | ErrTenantNotFound | ErrTenantSlugInvalid | ErrTenantSlugAlreadyExists | ErrTenantQuotaExceeded
  | ErrInvalidStatusTransition | ErrSettingsNotFound

definition tenant_table :: "(tstatus, ttransition) table" where
  "tenant_table =
     [(StatusProvisioning, [(StatusTransitionActivate, StatusActive), (StatusTransitionArchive, StatusArchived)]),
      (StatusActive, [(StatusTransitionSuspend, StatusSuspended), (StatusTransitionArchive, StatusArchived)]),
      (StatusSuspended, [(StatusTransitionActivate, StatusActive), (StatusTransitionArchive, StatusArchived)])]"

fun tstatus_string :: "tstatus \<Rightarrow> string" where
  "tstatus_string StatusZero = []"
| "tstatus_string StatusProvisioning = ''provisioning''"
| "tstatus_string StatusActive = ''active''"
| "tstatus_string StatusSuspended = ''suspended''"
| "tstatus_string StatusArchived = ''archived''"

definition tstatus_isTerminal :: "tstatus \<Rightarrow> bool" where
  "tstatus_isTerminal s \<longleftrightarrow> mget tenant_table s = None"

definition parseTStatus :: "string \<Rightarrow> tenant_error + tstatus" where
  "parseTStatus v =
     (if v = ''provisioning'' then Ok StatusProvisioning
      else if v = ''active'' then Ok StatusActive
      else if v = ''suspended'' then Ok StatusSuspended
      else if v = ''archived'' then Ok StatusArchived
      else Err ErrInvalidStatusTransition)"

definition nextTStatus :: "tstatus \<Rightarrow> ttransition \<Rightarrow> tenant_error + tstatus" where
  "nextTStatus s t =
     (case mget tenant_table s of
        None \<Rightarrow> Err ErrInvalidStatusTransition
      | Some moves \<Rightarrow> (case mget moves t of None \<Rightarrow> Err ErrInvalidStatusTransition | Some d \<Rightarrow> Ok d))"

definition tstep :: "tstatus \<Rightarrow> ttransition \<Rightarrow> tstatus option" where "tstep = table_next tenant_table"

lemma tenant_table_wf: "table_wf tenant_table"
  by (simp add: table_wf_def tenant_table_def mwf_def mvalues_def)

lemma nextTStatus_Ok [go_ok]: "nextTStatus s t = Ok d \<longleftrightarrow> tstep s t = Some d"
  by (auto simp: nextTStatus_def tstep_def table_next_def split: option.splits)

interpretation tl: abandonable tstep tstatus_isTerminal StatusTransitionArchive
proof
  show "tstatus_isTerminal s \<longleftrightarrow> (\<forall>t. tstep s t = None)" for s
    using table_terminal_iff [OF tenant_table_wf] by (simp add: tstatus_isTerminal_def tstep_def)
  show "\<not> tstatus_isTerminal s \<Longrightarrow> \<exists>d. tstep s StatusTransitionArchive = Some d \<and> tstatus_isTerminal d" for s
    by (cases s) (simp_all add: tstatus_isTerminal_def tstep_def table_next_def tenant_table_def mget_def)
qed

lemma parseTStatus_string: "s \<noteq> StatusZero \<Longrightarrow> parseTStatus (tstatus_string s) = Ok s"
  by (cases s) (simp_all add: parseTStatus_def)

subsection \<open>Tenants\<close>

text \<open>The pattern is anchored at both ends, so it matches whole strings.\<close>

definition slugLetter :: "char \<Rightarrow> bool" where "slugLetter c \<longleftrightarrow> 0x61 \<le> byte c \<and> byte c \<le> 0x7A"
definition slugChar :: "char \<Rightarrow> bool" where "slugChar c \<longleftrightarrow> slugLetter c \<or> is_digit c"

definition tenant_isValidSlug :: "string \<Rightarrow> bool" where
  "tenant_isValidSlug s \<longleftrightarrow>
     2 \<le> length s \<and> slugLetter (hd s) \<and> slugChar (last s) \<and> list_all (\<lambda>c. slugChar c \<or> c = CHR ''-'') s"

record tenant =
  tn_ID :: string
  tn_Slug :: string
  tn_Name :: string
  tn_Plan :: string
  tn_Status :: tstatus
  tn_CreatedAt :: gotime
  tn_UpdatedAt :: gotime

record tenant_input =
  ti_ID :: string
  ti_Slug :: string
  ti_Name :: string
  ti_Plan :: string

definition requireID :: "string \<Rightarrow> tenant_error + string" where
  "requireID i = (let trimmed = trim_space i in if trimmed = [] then Err ErrTenantRequired else Ok trimmed)"

record 's tenant_ports =
  tp_create :: "tenant \<Rightarrow> 's \<Rightarrow> 's \<times> (tenant_error + unit)"
  tp_get :: "string \<Rightarrow> 's \<Rightarrow> tenant_error + tenant"
  tp_getBySlug :: "string \<Rightarrow> 's \<Rightarrow> tenant_error + tenant"
  tp_list :: "int \<Rightarrow> int \<Rightarrow> 's \<Rightarrow> tenant_error + (tenant list \<times> int) option"
  tp_saveStatus :: "tenant \<Rightarrow> 's \<Rightarrow> 's \<times> (tenant_error + unit)"
  tp_update :: "tenant \<Rightarrow> 's \<Rightarrow> 's \<times> (tenant_error + unit)"

subsection \<open>The service\<close>

definition normaliseInputID :: "string \<Rightarrow> string \<Rightarrow> tenant_error + string" where
  "normaliseInputID i slug = (if trim_space i = [] then requireID slug else requireID i)"

text \<open>The page that the quota check asks for cannot be out of range.\<close>

definition checkQuota :: "'s tenant_ports \<Rightarrow> int \<Rightarrow> 's \<Rightarrow> tenant_error option" where
  "checkQuota p quota s =
     (if quota \<le> 0 then None
      else case tp_list p 1 1 s of
        Err e \<Rightarrow> Some e
      | Ok None \<Rightarrow> Some ErrTenantQuotaExceeded
      | Ok (Some (_, n)) \<Rightarrow> if quota \<le> n then Some ErrTenantQuotaExceeded else None)"

definition checkSlugUnique :: "'s tenant_ports \<Rightarrow> string \<Rightarrow> 's \<Rightarrow> tenant_error option" where
  "checkSlugUnique p slug s =
     (case tp_getBySlug p slug s of
        Ok _ \<Rightarrow> Some ErrTenantSlugAlreadyExists
      | Err e \<Rightarrow> if e \<noteq> ErrTenantNotFound then Some e else None)"

definition defaultPlan :: "string \<Rightarrow> string" where
  "defaultPlan plan = (if trim_space plan = [] then ''free'' else plan)"

definition tenant_create ::
  "'s tenant_ports \<Rightarrow> int \<Rightarrow> gotime \<Rightarrow> tenant_input \<Rightarrow> 's \<Rightarrow> 's \<times> (tenant_error + tenant)" where
  "tenant_create p quota now inp s =
     (case normaliseInputID (ti_ID inp) (ti_Slug inp) of
        Err e \<Rightarrow> (s, Err e)
      | Ok i \<Rightarrow>
     (if \<not> tenant_isValidSlug (ti_Slug inp) then (s, Err ErrTenantSlugInvalid)
      else if trim_space (ti_Name inp) = [] then (s, Err ErrTenantSlugInvalid)
      else case checkQuota p quota s of
        Some e \<Rightarrow> (s, Err e)
      | None \<Rightarrow>
     (case checkSlugUnique p (ti_Slug inp) s of
        Some e \<Rightarrow> (s, Err e)
      | None \<Rightarrow>
     (let t = \<lparr>tn_ID = i, tn_Slug = ti_Slug inp, tn_Name = ti_Name inp, tn_Plan = defaultPlan (ti_Plan inp),
               tn_Status = StatusProvisioning, tn_CreatedAt = now, tn_UpdatedAt = now\<rparr>
      in case tp_create p t s of
           (s, Err e) \<Rightarrow> (s, Err e)
         | (s, Ok _) \<Rightarrow> (s, Ok t)))))"

definition tenant_get :: "'s tenant_ports \<Rightarrow> string \<Rightarrow> 's \<Rightarrow> tenant_error + tenant" where
  "tenant_get p i s = (case requireID i of Err e \<Rightarrow> Err e | Ok i \<Rightarrow> tp_get p i s)"

definition tenant_getBySlug :: "'s tenant_ports \<Rightarrow> string \<Rightarrow> 's \<Rightarrow> tenant_error + tenant" where
  "tenant_getBySlug p slug s = (if \<not> tenant_isValidSlug slug then Err ErrTenantSlugInvalid else tp_getBySlug p slug s)"

definition tenant_update ::
  "'s tenant_ports \<Rightarrow> gotime \<Rightarrow> string \<Rightarrow> string \<Rightarrow> string \<Rightarrow> 's \<Rightarrow> 's \<times> (tenant_error + tenant)" where
  "tenant_update p now i name plan s =
     (case requireID i of
        Err e \<Rightarrow> (s, Err e)
      | Ok i \<Rightarrow>
     (case tp_get p i s of
        Err e \<Rightarrow> (s, Err e)
      | Ok t \<Rightarrow>
     (let t = (if name \<noteq> [] then t\<lparr>tn_Name := name\<rparr> else t);
          t = (if plan \<noteq> [] then t\<lparr>tn_Plan := plan\<rparr> else t);
          t = t\<lparr>tn_UpdatedAt := now\<rparr>
      in case tp_update p t s of
           (s, Err e) \<Rightarrow> (s, Err e)
         | (s, Ok _) \<Rightarrow> (s, Ok t))))"

definition tenant_transition ::
  "'s tenant_ports \<Rightarrow> gotime \<Rightarrow> string \<Rightarrow> ttransition \<Rightarrow> 's \<Rightarrow> 's \<times> (tenant_error + tenant)" where
  "tenant_transition p now i t s =
     (case requireID i of
        Err e \<Rightarrow> (s, Err e)
      | Ok i \<Rightarrow>
     (case tp_get p i s of
        Err e \<Rightarrow> (s, Err e)
      | Ok tenant \<Rightarrow>
     (case nextTStatus (tn_Status tenant) t of
        Err e \<Rightarrow> (s, Err e)
      | Ok target \<Rightarrow>
     (let tenant = tenant\<lparr>tn_Status := target, tn_UpdatedAt := now\<rparr>
      in case tp_saveStatus p tenant s of
           (s, Err e) \<Rightarrow> (s, Err e)
         | (s, Ok _) \<Rightarrow> (s, Ok tenant)))))"

definition tenant_activate where "tenant_activate p now i = tenant_transition p now i StatusTransitionActivate"
definition tenant_suspend where "tenant_suspend p now i = tenant_transition p now i StatusTransitionSuspend"
definition tenant_archive where "tenant_archive p now i = tenant_transition p now i StatusTransitionArchive"

subsection \<open>The in-memory repository\<close>

record tenant_mem =
  tm_byID :: "(string, tenant) gomap"
  tm_bySlug :: "(string, string) gomap"

definition tmem_create :: "tenant \<Rightarrow> tenant_mem \<Rightarrow> tenant_mem \<times> (tenant_error + unit)" where
  "tmem_create t r =
     (if mget (tm_bySlug r) (tn_Slug t) \<noteq> None then (r, Err ErrTenantSlugAlreadyExists)
      else if mget (tm_byID r) (tn_ID t) \<noteq> None then (r, Err ErrTenantSlugAlreadyExists)
      else (r\<lparr>tm_byID := mput (tn_ID t) t (tm_byID r), tm_bySlug := mput (tn_Slug t) (tn_ID t) (tm_bySlug r)\<rparr>, Ok ()))"

definition tmem_get :: "string \<Rightarrow> tenant_mem \<Rightarrow> tenant_error + tenant" where
  "tmem_get i r = (case mget (tm_byID r) i of None \<Rightarrow> Err ErrTenantNotFound | Some t \<Rightarrow> Ok t)"

definition zero_tenant :: tenant where
  "zero_tenant = \<lparr>tn_ID = [], tn_Slug = [], tn_Name = [], tn_Plan = [], tn_Status = StatusZero,
     tn_CreatedAt = zero_time, tn_UpdatedAt = zero_time\<rparr>"

definition tmem_getBySlug :: "string \<Rightarrow> tenant_mem \<Rightarrow> tenant_error + tenant" where
  "tmem_getBySlug slug r =
     (case mget (tm_bySlug r) slug of
        None \<Rightarrow> Err ErrTenantNotFound
      | Some i \<Rightarrow> Ok (case mget (tm_byID r) i of None \<Rightarrow> zero_tenant | Some t \<Rightarrow> t))"

text \<open>The insertion sort of the listing: a tenant moves to the front past every older one.\<close>

definition sift_in :: "tenant list \<Rightarrow> tenant \<Rightarrow> tenant list" where
  "sift_in xs x =
     (let older = takeWhile (\<lambda>y. tn_CreatedAt y < tn_CreatedAt x) (rev xs)
      in take (length xs - length older) xs @ [x] @ rev older)"

definition newest_first :: "tenant list \<Rightarrow> tenant list" where
  "newest_first xs = foldl sift_in [] xs"

text \<open>\<open>it\<close> is the order in which the run iterates over the tenants.\<close>

definition tmem_list :: "(tenant list \<Rightarrow> tenant list) \<Rightarrow> int \<Rightarrow> int \<Rightarrow> tenant_mem \<Rightarrow> tenant_error + (tenant list \<times> int) option" where
  "tmem_list it page perPage r =
     (let rows = mvalues (tm_byID r)
      in Ok (map_option (\<lambda>xs. (xs, int (length rows)))
           (page_slice (if page < 1 then 1 else page) (if perPage < 1 then 20 else perPage) (newest_first (it rows)))))"

definition tmem_saveStatus :: "tenant \<Rightarrow> tenant_mem \<Rightarrow> tenant_mem \<times> (tenant_error + unit)" where
  "tmem_saveStatus t r =
     (case mget (tm_byID r) (tn_ID t) of
        None \<Rightarrow> (r, Err ErrTenantNotFound)
      | Some old \<Rightarrow>
          (r\<lparr>tm_byID := mput (tn_ID t) (old\<lparr>tn_Status := tn_Status t, tn_UpdatedAt := tn_UpdatedAt t\<rparr>) (tm_byID r)\<rparr>, Ok ()))"

definition tmem_update :: "tenant \<Rightarrow> tenant_mem \<Rightarrow> tenant_mem \<times> (tenant_error + unit)" where
  "tmem_update t r =
     (case mget (tm_byID r) (tn_ID t) of
        None \<Rightarrow> (r, Err ErrTenantNotFound)
      | Some old \<Rightarrow>
          (r\<lparr>tm_byID := mput (tn_ID t) (old\<lparr>tn_Name := tn_Name t, tn_Plan := tn_Plan t, tn_UpdatedAt := tn_UpdatedAt t\<rparr>) (tm_byID r)\<rparr>, Ok ()))"

definition tmem_ports :: "(tenant list \<Rightarrow> tenant list) \<Rightarrow> tenant_mem tenant_ports" where
  "tmem_ports it =
     \<lparr>tp_create = tmem_create, tp_get = tmem_get, tp_getBySlug = tmem_getBySlug, tp_list = tmem_list it,
      tp_saveStatus = tmem_saveStatus, tp_update = tmem_update\<rparr>"

subsection \<open>The contract of the repository\<close>

text \<open>What the service relies on: \<open>tn\<close> and \<open>sl\<close> are the tenants by identifier and the identifiers by slug,
  \<open>sound\<close> an invariant of the store.\<close>

locale tenant_store =
  fixes p :: "'s tenant_ports"
    and tn :: "'s \<Rightarrow> string \<Rightarrow> tenant option"
    and sl :: "'s \<Rightarrow> string \<Rightarrow> string option"
    and sound :: "'s \<Rightarrow> bool"
  assumes get: "tp_get p i s = (case tn s i of None \<Rightarrow> Err ErrTenantNotFound | Some t \<Rightarrow> Ok t)"
    and slug_none: "sl s g = None \<Longrightarrow> tp_getBySlug p g s = Err ErrTenantNotFound"
    and slug_some: "sl s g = Some i \<Longrightarrow> is_ok (tp_getBySlug p g s)"
    and create: "sl s (tn_Slug t) = None \<Longrightarrow> tn s (tn_ID t) = None \<Longrightarrow> sound s \<Longrightarrow>
      \<exists>s'. tp_create p t s = (s', Ok ()) \<and> sound s' \<and> tn s' = (tn s)(tn_ID t \<mapsto> t) \<and> sl s' = (sl s)(tn_Slug t \<mapsto> tn_ID t)"
    and create_taken: "sl s (tn_Slug t) \<noteq> None \<or> tn s (tn_ID t) \<noteq> None \<Longrightarrow> tp_create p t s = (s, Err ErrTenantSlugAlreadyExists)"
    and save: "tn s (tn_ID t) = Some old \<Longrightarrow> sound s \<Longrightarrow>
      \<exists>s'. tp_saveStatus p t s = (s', Ok ()) \<and> sound s' \<and> sl s' = sl s
        \<and> tn s' = (tn s)(tn_ID t \<mapsto> old\<lparr>tn_Status := tn_Status t, tn_UpdatedAt := tn_UpdatedAt t\<rparr>)"
    and update: "tn s (tn_ID t) = Some old \<Longrightarrow> sound s \<Longrightarrow>
      \<exists>s'. tp_update p t s = (s', Ok ()) \<and> sound s' \<and> sl s' = sl s
        \<and> tn s' = (tn s)(tn_ID t \<mapsto> old\<lparr>tn_Name := tn_Name t, tn_Plan := tn_Plan t, tn_UpdatedAt := tn_UpdatedAt t\<rparr>)"
    and number: "sound s \<Longrightarrow> \<exists>ts. tp_list p 1 1 s = Ok (Some (ts, int (card (dom (tn s)))))"
    and finite_store: "sound s \<Longrightarrow> finite (dom (tn s))"

datatype tenant_call =
    CallCreate gotime tenant_input
  | CallUpdate gotime string string string
  | CallMove gotime string ttransition

definition run_tenant_call :: "'s tenant_ports \<Rightarrow> int \<Rightarrow> tenant_call \<Rightarrow> 's \<Rightarrow> 's \<times> (tenant_error + tenant)" where
  "run_tenant_call p quota c s =
     (case c of
        CallCreate now inp \<Rightarrow> tenant_create p quota now inp s
      | CallUpdate now i name plan \<Rightarrow> tenant_update p now i name plan s
      | CallMove now i t \<Rightarrow>
          (case t of
             StatusTransitionActivate \<Rightarrow> tenant_activate p now i s
           | StatusTransitionSuspend \<Rightarrow> tenant_suspend p now i s
           | StatusTransitionArchive \<Rightarrow> tenant_archive p now i s))"

fun run_tenant_calls :: "'s tenant_ports \<Rightarrow> int \<Rightarrow> tenant_call list \<Rightarrow> 's \<Rightarrow> 's" where
  "run_tenant_calls p quota [] s = s"
| "run_tenant_calls p quota (c # cs) s = run_tenant_calls p quota cs (fst (run_tenant_call p quota c s))"

lemma run_move: "run_tenant_call p quota (CallMove now i t) s = tenant_transition p now i t s"
  by (cases t) (simp_all add: run_tenant_call_def tenant_activate_def tenant_suspend_def tenant_archive_def)

text \<open>The abstract tenants: the status of each identifier. A call that is not allowed has no successor.\<close>

type_synonym tenant_spec = "string \<Rightarrow> tstatus option"

fun spec_tenant :: "tenant_call \<Rightarrow> tenant_spec \<Rightarrow> tenant_spec option" where
  "spec_tenant (CallCreate now inp) a =
     (let i = trim_space (if trim_space (ti_ID inp) = [] then ti_Slug inp else ti_ID inp)
      in if a i = None then Some (a(i \<mapsto> StatusProvisioning)) else None)"
| "spec_tenant (CallUpdate now i name plan) a = (if a (trim_space i) = None then None else Some a)"
| "spec_tenant (CallMove now i t) a =
     (case a (trim_space i) of
        None \<Rightarrow> None
      | Some st \<Rightarrow> map_option (\<lambda>d. a(trim_space i \<mapsto> d)) (tstep st t))"

lemma requireID_Ok: "requireID i = Ok j \<longleftrightarrow> j = trim_space i \<and> j \<noteq> []"
  by (auto simp: requireID_def Let_def)

lemma normaliseInputID_Ok:
  "normaliseInputID i slug = Ok j \<Longrightarrow> j = trim_space (if trim_space i = [] then slug else i) \<and> j \<noteq> []"
  by (auto simp: normaliseInputID_def requireID_Ok split: if_splits)

context tenant_store
begin

text \<open>Slugs and identifiers determine each other.\<close>

definition indexed :: "'s \<Rightarrow> bool" where
  "indexed s \<longleftrightarrow> sound s \<and>
     (\<forall>i t. tn s i = Some t \<longrightarrow> tn_ID t = i \<and> sl s (tn_Slug t) = Some i \<and> tenant_isValidSlug (tn_Slug t))
     \<and> (\<forall>g i. sl s g = Some i \<longrightarrow> (\<exists>t. tn s i = Some t \<and> tn_Slug t = g))"

definition within :: "int \<Rightarrow> 's \<Rightarrow> bool" where
  "within quota s \<longleftrightarrow> (0 < quota \<longrightarrow> int (card (dom (tn s))) \<le> quota)"

definition status_of :: "'s \<Rightarrow> tenant_spec" where
  "status_of s i = map_option tn_Status (tn s i)"

lemma quota_checked:
  "sound s \<Longrightarrow> checkQuota p quota s = None \<longleftrightarrow> (0 < quota \<longrightarrow> int (card (dom (tn s))) < quota)"
  using number [of s] by (auto simp: checkQuota_def split: if_splits)

lemma slug_checked: "checkSlugUnique p g s = None \<longleftrightarrow> sl s g = None"
proof (cases "sl s g")
  case None
  then show ?thesis using slug_none by (simp add: checkSlugUnique_def)
next
  case (Some i)
  then show ?thesis using slug_some [OF Some] by (auto simp: checkSlugUnique_def is_ok_iff)
qed

lemma create_effect:
  assumes ok: "indexed s" and run: "tenant_create p quota now inp s = (s', r)"
  shows "case r of
      Err e \<Rightarrow> s' = s
    | Ok t \<Rightarrow> tn_ID t = trim_space (if trim_space (ti_ID inp) = [] then ti_Slug inp else ti_ID inp) \<and> tn_ID t \<noteq> [] \<and> tn_Slug t = ti_Slug inp
        \<and> tn_Status t = StatusProvisioning \<and> tenant_isValidSlug (tn_Slug t) \<and> tn s (tn_ID t) = None \<and> sl s (tn_Slug t) = None
        \<and> sound s' \<and> tn s' = (tn s)(tn_ID t \<mapsto> t) \<and> sl s' = (sl s)(tn_Slug t \<mapsto> tn_ID t) \<and> checkQuota p quota s = None"
proof (cases "normaliseInputID (ti_ID inp) (ti_Slug inp)")
  case (Inl e)
  then show ?thesis using run by (auto simp: tenant_create_def)
next
  case (Inr i)
  show ?thesis
  proof (cases "tenant_isValidSlug (ti_Slug inp) \<and> trim_space (ti_Name inp) \<noteq> [] \<and> checkQuota p quota s = None \<and> checkSlugUnique p (ti_Slug inp) s = None")
    case False
    then show ?thesis using run Inr by (auto simp: tenant_create_def split: if_splits option.splits)
  next
    case True
    define t where "t = \<lparr>tn_ID = i, tn_Slug = ti_Slug inp, tn_Name = ti_Name inp, tn_Plan = defaultPlan (ti_Plan inp),
               tn_Status = StatusProvisioning, tn_CreatedAt = now, tn_UpdatedAt = now\<rparr>"
    have run': "(case tp_create p t s of (s, Err e) \<Rightarrow> (s, Err e) | (s, Ok _) \<Rightarrow> (s, Ok t)) = (s', r)"
      using run Inr True unfolding tenant_create_def Let_def t_def by simp
    have f: "tn_ID t = i" "tn_Slug t = ti_Slug inp" "tn_Status t = StatusProvisioning" by (simp_all add: t_def)
    have sl: "sl s (ti_Slug inp) = None" using True slug_checked by simp
    show ?thesis
    proof (cases "tn s i")
      case None
      then obtain s2 where c: "tp_create p t s = (s2, Ok ())" "sound s2" "tn s2 = (tn s)(i \<mapsto> t)" "sl s2 = (sl s)(ti_Slug inp \<mapsto> i)"
        using create [of s t] sl ok by (auto simp: f indexed_def)
      then show ?thesis using run' True None sl normaliseInputID_Ok [OF Inr] by (auto simp: f)
    next
      case (Some u)
      then show ?thesis using run' create_taken [of s t] by (auto simp: f)
    qed
  qed
qed

lemma indexed_replace:
  assumes ok: "indexed s" and new: "sound s2" "sl s2 = sl s" "tn s2 = (tn s)(i \<mapsto> u)"
    and old: "tn s i = Some t" "tn_ID u = i" "tn_Slug u = tn_Slug t"
  shows "indexed s2"
proof -
  have t: "sl s (tn_Slug t) = Some i" "tenant_isValidSlug (tn_Slug t)" using ok old(1) by (auto simp: indexed_def)
  have "\<exists>v. tn s2 j = Some v \<and> tn_Slug v = g" if "sl s g = Some j" for g j
  proof (cases "j = i")
    case True
    then have "tn_Slug t = g" using ok that old(1) by (force simp: indexed_def)
    then show ?thesis using True new(3) old(3) by simp
  qed (use ok that new(3) in \<open>auto simp: indexed_def\<close>)
  then show ?thesis using ok new old t by (auto simp: indexed_def)
qed

lemma call_ok:
  assumes ok: "indexed s" and run: "run_tenant_call p quota c s = (s', r)"
  shows "indexed s' \<and> sl s \<subseteq>\<^sub>m sl s' \<and> (within quota s \<longrightarrow> within quota s')
    \<and> (if is_ok r then spec_tenant c (status_of s) = Some (status_of s') else s' = s)"
proof (cases c)
  case (CallCreate now inp)
  then have run: "tenant_create p quota now inp s = (s', r)" using run by (simp add: run_tenant_call_def)
  show ?thesis
  proof (cases r)
    case (Inl e)
    then show ?thesis using create_effect [OF ok run] ok by simp
  next
    case (Inr t)
    note e = create_effect [OF ok run, unfolded Inr sum.case]
    have new: "dom (tn s') = insert (tn_ID t) (dom (tn s))" "tn_ID t \<notin> dom (tn s)" "finite (dom (tn s))"
      using e ok finite_store by (auto simp: indexed_def)
    have "within quota s'" using new e ok quota_checked [of s quota] by (auto simp: within_def indexed_def)
    moreover have "sl s g \<noteq> Some (tn_ID t)" "tn s i = Some u \<Longrightarrow> tn_Slug u \<noteq> tn_Slug t" for g i u using ok e by (force simp: indexed_def)+
    then have "indexed s'" using e ok by (auto simp: indexed_def)
    moreover have "spec_tenant c (status_of s) = Some (status_of s')"
      using e CallCreate by (auto simp: status_of_def Let_def fun_eq_iff)
    moreover have "sl s \<subseteq>\<^sub>m sl s'" using e by (auto simp: map_le_def)
    ultimately show ?thesis using Inr by simp
  qed
next
  case (CallUpdate now i name plan)
  let ?i = "trim_space i"
  show ?thesis
  proof (cases "?i \<noteq> [] \<and> tn s ?i \<noteq> None")
    case False
    then have "s' = s \<and> \<not> is_ok r"
      using run CallUpdate by (auto simp: run_tenant_call_def tenant_update_def requireID_def Let_def get split: option.splits if_splits)
    then show ?thesis using ok map_le_refl by simp
  next
    case True
    then obtain t where t: "tn s ?i = Some t" "?i \<noteq> []" by auto
    define t' where "t' = (if plan \<noteq> [] then (if name \<noteq> [] then t\<lparr>tn_Name := name\<rparr> else t)\<lparr>tn_Plan := plan\<rparr>
       else (if name \<noteq> [] then t\<lparr>tn_Name := name\<rparr> else t))\<lparr>tn_UpdatedAt := now\<rparr>"
    have id: "tn_ID t' = ?i" "tn_ID t = ?i" "tn_Slug t' = tn_Slug t" using ok t(1) by (auto simp: t'_def indexed_def)
    then obtain s2 where u: "tp_update p t' s = (s2, Ok ())" "sound s2" "sl s2 = sl s"
      "tn s2 = (tn s)(?i \<mapsto> t\<lparr>tn_Name := tn_Name t', tn_Plan := tn_Plan t', tn_UpdatedAt := tn_UpdatedAt t'\<rparr>)"
      using update [of s t' t] t ok by (auto simp: indexed_def)
    have r: "s' = s2 \<and> r = Ok t'"
      using run CallUpdate t u(1) by (auto simp: run_tenant_call_def tenant_update_def requireID_def Let_def get t'_def)
    have "dom (tn s2) = dom (tn s)" using u(4) t(1) by auto
    moreover have "indexed s2" using indexed_replace [OF ok u(2-4) t(1)] id by simp
    moreover have "status_of s2 = status_of s" using u(4) t(1) by (auto simp: status_of_def fun_eq_iff)
    ultimately show ?thesis using r t u(3) CallUpdate by (auto simp: within_def status_of_def)
  qed
next
  case (CallMove now i tr)
  let ?i = "trim_space i"
  have run: "tenant_transition p now i tr s = (s', r)" using run CallMove by (simp add: run_move)
  show ?thesis
  proof (cases "\<exists>t d. ?i \<noteq> [] \<and> tn s ?i = Some t \<and> tstep (tn_Status t) tr = Some d")
    case False
    then have "s' = s \<and> \<not> is_ok r"
      using run by (auto simp: tenant_transition_def requireID_def Let_def get nextTStatus_Ok split: option.splits if_splits sum.splits)
    then show ?thesis using ok map_le_refl by simp
  next
    case True
    then obtain t d where t: "?i \<noteq> []" "tn s ?i = Some t" "tstep (tn_Status t) tr = Some d" by blast
    define t' where "t' = t\<lparr>tn_Status := d, tn_UpdatedAt := now\<rparr>"
    have id: "tn_ID t' = ?i" "tn_ID t = ?i" "tn_Slug t' = tn_Slug t" using ok t(2) by (auto simp: t'_def indexed_def)
    then obtain s2 where u: "tp_saveStatus p t' s = (s2, Ok ())" "sound s2" "sl s2 = sl s"
      "tn s2 = (tn s)(?i \<mapsto> t\<lparr>tn_Status := tn_Status t', tn_UpdatedAt := tn_UpdatedAt t'\<rparr>)"
      using save [of s t' t] t ok by (auto simp: indexed_def)
    have "nextTStatus (tn_Status t) tr = Ok d" using t(3) by (simp add: nextTStatus_Ok)
    then have r: "s' = s2 \<and> r = Ok t'" using run t u(1) by (auto simp: tenant_transition_def requireID_def Let_def get t'_def)
    have "dom (tn s2) = dom (tn s)" using u(4) t(2) by auto
    moreover have "indexed s2" using indexed_replace [OF ok u(2-4) t(2)] id by simp
    moreover have "spec_tenant c (status_of s) = Some (status_of s2)" using u(4) t CallMove by (auto simp: status_of_def fun_eq_iff t'_def)
    ultimately show ?thesis using r u(3) by (auto simp: within_def)
  qed
qed

lemma calls_ok:
  "indexed s \<Longrightarrow> within quota s \<Longrightarrow> indexed (run_tenant_calls p quota cs s) \<and> within quota (run_tenant_calls p quota cs s)"
proof (induction cs arbitrary: s)
  case (Cons c cs)
  obtain s' r where "run_tenant_call p quota c s = (s', r)" by force
  with call_ok [OF Cons.prems(1) this] Cons show ?case by simp
qed simp

lemma create_succeeds:
  assumes ok: "indexed s" and slug: "tenant_isValidSlug (ti_Slug inp)" "sl s (ti_Slug inp) = None"
    and name: "trim_space (ti_Name inp) \<noteq> []" and quota: "checkQuota p quota s = None"
    and i: "normaliseInputID (ti_ID inp) (ti_Slug inp) = Ok i" "tn s i = None"
  shows "\<exists>s'. tenant_create p quota now inp s = (s', Ok \<lparr>tn_ID = i, tn_Slug = ti_Slug inp, tn_Name = ti_Name inp,
    tn_Plan = defaultPlan (ti_Plan inp), tn_Status = StatusProvisioning, tn_CreatedAt = now, tn_UpdatedAt = now\<rparr>)"
proof -
  define t where "t = \<lparr>tn_ID = i, tn_Slug = ti_Slug inp, tn_Name = ti_Name inp, tn_Plan = defaultPlan (ti_Plan inp),
    tn_Status = StatusProvisioning, tn_CreatedAt = now, tn_UpdatedAt = now\<rparr>"
  obtain s' where "tp_create p t s = (s', Ok ())" using create [of s t] ok slug i by (auto simp: t_def indexed_def)
  moreover have "checkSlugUnique p (ti_Slug inp) s = None" using slug(2) slug_checked by simp
  ultimately show ?thesis using assms unfolding tenant_create_def Let_def t_def by simp
qed

text \<open>A tenant that was just created can be activated at once.\<close>

lemma provision:
  assumes ok: "indexed s" and run: "tenant_create p quota now inp s = (s1, Ok t)"
  shows "\<exists>s2. tenant_activate p later (tn_ID t) s1 = (s2, Ok (t\<lparr>tn_Status := StatusActive, tn_UpdatedAt := later\<rparr>))
    \<and> indexed s2 \<and> sl s (tn_Slug t) = None \<and> sl s2 = (sl s)(tn_Slug t \<mapsto> tn_ID t)
    \<and> tn s2 = (tn s)(tn_ID t \<mapsto> t\<lparr>tn_Status := StatusActive, tn_UpdatedAt := later\<rparr>)"
proof -
  have e: "tn_Status t = StatusProvisioning" "sl s (tn_Slug t) = None" "tn s1 = (tn s)(tn_ID t \<mapsto> t)"
      "sl s1 = (sl s)(tn_Slug t \<mapsto> tn_ID t)" and i: "tn_ID t \<noteq> []"
    using create_effect [OF ok run, unfolded sum.case] by blast+
  have "\<exists>x. tn_ID t = trim_space x" by (rule exI) (rule conjunct1 [OF create_effect [OF ok run, unfolded sum.case]])
  then obtain x where x: "tn_ID t = trim_space x" ..
  have trimmed: "trim_space (tn_ID t) = tn_ID t" unfolding x by (rule trim_space_idem)
  have "run_tenant_call p quota (CallCreate now inp) s = (s1, Ok t)" using run by (simp add: run_tenant_call_def)
  then have ix: "indexed s1" using call_ok ok by blast
  let ?t = "t\<lparr>tn_Status := StatusActive, tn_UpdatedAt := later\<rparr>"
  have old: "tn s1 (tn_ID ?t) = Some t" using e(3) by simp
  have "sound s1" using ix unfolding indexed_def by blast
  obtain s2 where u: "tp_saveStatus p ?t s1 = (s2, Ok ())" "sound s2" "sl s2 = sl s1" "tn s2 = (tn s1)(tn_ID t \<mapsto> ?t)"
    using save [OF old \<open>sound s1\<close>] by auto
  have st: "nextTStatus StatusProvisioning StatusTransitionActivate = Ok StatusActive" by code_simp
  have "tenant_activate p later (tn_ID t) s1 = (s2, Ok ?t)"
    using u(1) e trimmed i st by (simp add: tenant_activate_def tenant_transition_def requireID_def Let_def get)
  moreover have "indexed s2" using indexed_replace [OF ix u(2-4)] e(3) by simp
  ultimately show ?thesis using u e by (auto simp: fun_upd_upd)
qed

end

lemma card_keys: "mwf m \<Longrightarrow> card (dom (mget m)) = length m"
proof -
  assume "mwf m"
  then have "distinct (mkeys m)" by (simp add: mwf_def mkeys_def)
  moreover have "dom (mget m) = set (mkeys m)" by (auto simp: in_mkeys_iff)
  ultimately show ?thesis using distinct_card [of "mkeys m"] by (simp add: mkeys_def)
qed

lemma first_page: "\<exists>ys. page_slice 1 1 xs = Some ys"
  by (cases xs) (simp_all add: page_slice_def go_slice_def Let_def in_int64_iff)

interpretation mts: tenant_store "tmem_ports it" "\<lambda>r. mget (tm_byID r)" "\<lambda>r. mget (tm_bySlug r)" "\<lambda>r. mwf (tm_byID r)"
  for it
proof
  fix s :: tenant_mem
  assume s: "mwf (tm_byID s)"
  obtain ys where "page_slice 1 1 (newest_first (it (mvalues (tm_byID s)))) = Some ys" using first_page by blast
  then show "\<exists>ts. tp_list (tmem_ports it) 1 1 s = Ok (Some (ts, int (card (dom (mget (tm_byID s))))))"
    using card_keys [OF s] by (simp add: tmem_ports_def tmem_list_def mvalues_def)
  have "dom (mget (tm_byID s)) = set (mkeys (tm_byID s))" by (auto simp: in_mkeys_iff)
  then show "finite (dom (mget (tm_byID s)))" by simp
qed (auto simp: tmem_ports_def tmem_get_def tmem_getBySlug_def tmem_create_def tmem_saveStatus_def tmem_update_def
    mwf_mput fun_eq_iff split: option.splits)

subsection \<open>Every history of the tenants\<close>

definition newTenantMem :: tenant_mem where "newTenantMem = \<lparr>tm_byID = [], tm_bySlug = []\<rparr>"

definition tenant_status :: "tenant_mem \<Rightarrow> tenant_spec" where
  "tenant_status r i = map_option tn_Status (mget (tm_byID r) i)"

lemma mts_status: "mts.status_of r = tenant_status r"
  by (simp add: mts.status_of_def tenant_status_def fun_eq_iff)

lemma mts_start: "mts.indexed newTenantMem \<and> mts.within quota newTenantMem"
proof -
  have "dom (mget ([] :: (string, tenant) gomap)) = {}" by auto
  then show ?thesis by (simp add: mts.indexed_def mts.within_def newTenantMem_def)
qed

lemma slugs_distinct:
  assumes "mts.indexed r"
  shows "distinct (map tn_Slug (mvalues (tm_byID r)))"
proof -
  have m: "mwf (tm_byID r)" using assms by (simp add: mts.indexed_def)
  have d: "distinct (mvalues (tm_byID r))"
  proof -
    have "map tn_ID (mvalues (tm_byID r)) = mkeys (tm_byID r)"
      using assms in_mget [OF m] by (auto simp: mts.indexed_def mvalues_def mkeys_def)
    then show ?thesis using m by (metis distinct_map mkeys_def mwf_def)
  qed
  moreover have "inj_on tn_Slug (set (mvalues (tm_byID r)))"
  proof (rule inj_onI)
    fix t u assume "t \<in> set (mvalues (tm_byID r))" "u \<in> set (mvalues (tm_byID r))" and g: "tn_Slug t = tn_Slug u"
    then obtain i j where "mget (tm_byID r) i = Some t" "mget (tm_byID r) j = Some u" using m by (auto simp: in_mvalues_iff)
    then show "t = u" using assms g unfolding mts.indexed_def by (metis option.inject)
  qed
  ultimately show ?thesis by (simp add: distinct_map)
qed

text \<open>C19: Tenants keep their names apart and follow their state machine, for every history. After any calls
  on an empty repository no two tenants have the same slug, and a quota is never exceeded; and a next call
  that succeeds performs exactly its move (a new tenant being provisioned under a free identifier, a
  transition along the table, an update moving nothing), while one that fails changes nothing at all.\<close>

theorem tenant_history_safe:
  "let r = run_tenant_calls (tmem_ports it) quota cs newTenantMem;
       r' = fst (run_tenant_call (tmem_ports it) quota c r); res = snd (run_tenant_call (tmem_ports it) quota c r)
   in distinct (map tn_Slug (mvalues (tm_byID r')))
    \<and> (quota \<le> 0 \<or> int (length (tm_byID r')) \<le> quota)
    \<and> (if is_ok res then spec_tenant c (tenant_status r) = Some (tenant_status r') else r' = r)"
proof -
  let ?r = "run_tenant_calls (tmem_ports it) quota cs newTenantMem"
  obtain r' res where c: "run_tenant_call (tmem_ports it) quota c ?r = (r', res)" by force
  have r: "mts.indexed ?r" "mts.within quota ?r" using mts.calls_ok mts_start by blast+
  note e = mts.call_ok [OF r(1) c, unfolded mts_status]
  then have "mwf (tm_byID r')" by (simp add: mts.indexed_def)
  then have "quota \<le> 0 \<or> int (length (tm_byID r')) \<le> quota" using e r(2) card_keys [of "tm_byID r'"] by (auto simp: mts.within_def)
  then show ?thesis using e slugs_distinct [of r'] unfolding Let_def c fst_conv snd_conv by blast
qed

subsection \<open>Settings\<close>

record branding_settings =
  bs_StoreName :: string
  bs_LogoURL :: string
  bs_PrimaryColor :: string
  bs_AccentColor :: string

record woo_refs =
  wr_StoreURL :: string
  wr_ConsumerKeyRef :: string
  wr_ConsumerSecretRef :: string

record ai_preferences =
  ap_ContentTone :: string
  ap_ModelTier :: string
  ap_AutoGenerateSEO :: bool
  ap_FactCheckRequired :: bool

record compliance_overrides =
  co_DisabledRuleIDs :: "string list"
  co_SeverityOverride :: "(string, string) gomap"
  co_SEOScoreMin :: int

record tenant_settings =
  se_TenantID :: string
  se_Branding :: branding_settings
  se_WooCommerce :: woo_refs
  se_AI :: ai_preferences
  se_Compliance :: compliance_overrides
  se_UpdatedAt :: gotime

type_synonym settings_mem = "(string, tenant_settings) gomap"

definition defaultSettings :: "string \<Rightarrow> tenant_settings" where
  "defaultSettings tenantID =
     \<lparr>se_TenantID = tenantID,
      se_Branding = \<lparr>bs_StoreName = tenantID, bs_LogoURL = [], bs_PrimaryColor = [], bs_AccentColor = []\<rparr>,
      se_WooCommerce = \<lparr>wr_StoreURL = [], wr_ConsumerKeyRef = [], wr_ConsumerSecretRef = []\<rparr>,
      se_AI = \<lparr>ap_ContentTone = ''friendly'', ap_ModelTier = ''fast'', ap_AutoGenerateSEO = True, ap_FactCheckRequired = True\<rparr>,
      se_Compliance = \<lparr>co_DisabledRuleIDs = [], co_SeverityOverride = [], co_SEOScoreMin = 70\<rparr>,
      se_UpdatedAt = zero_time\<rparr>"

definition smem_get :: "string \<Rightarrow> settings_mem \<Rightarrow> tenant_error + tenant_settings" where
  "smem_get tenantID m =
     (case requireID tenantID of
        Err e \<Rightarrow> Err e
      | Ok i \<Rightarrow> (case mget m i of None \<Rightarrow> Err ErrSettingsNotFound | Some s \<Rightarrow> Ok s))"

definition smem_put :: "tenant_settings \<Rightarrow> settings_mem \<Rightarrow> settings_mem \<times> (tenant_error + unit)" where
  "smem_put s m =
     (case requireID (se_TenantID s) of
        Err e \<Rightarrow> (m, Err e)
      | Ok i \<Rightarrow> (mput i (s\<lparr>se_TenantID := i\<rparr>) m, Ok ()))"

definition getSettings :: "string \<Rightarrow> settings_mem \<Rightarrow> tenant_error + tenant_settings" where
  "getSettings tenantID m =
     (case requireID tenantID of
        Err e \<Rightarrow> Err e
      | Ok i \<Rightarrow>
     (case smem_get i m of
        Err e \<Rightarrow> if e = ErrSettingsNotFound then Ok (defaultSettings i) else Err e
      | Ok s \<Rightarrow> Ok s))"

definition putSettings :: "gotime \<Rightarrow> tenant_settings \<Rightarrow> settings_mem \<Rightarrow> settings_mem \<times> (tenant_error + unit)" where
  "putSettings now s m =
     (case requireID (se_TenantID s) of
        Err e \<Rightarrow> (m, Err e)
      | Ok i \<Rightarrow>
          let s = s\<lparr>se_TenantID := i\<rparr>;
              s = (if time_is_zero (se_UpdatedAt s) then s\<lparr>se_UpdatedAt := now\<rparr> else s)
          in smem_put s m)"

text \<open>Settings are read back. Settings that name a tenant are stored, and read back with the tenant's trimmed
  name and a time, while the settings of every other tenant stay what they were; a tenant without settings
  has the defaults.\<close>

theorem settings_read_back:
  assumes "trim_space (se_TenantID s) \<noteq> []" and "putSettings now s m = (m', r)"
  shows "r = Ok () \<and> getSettings i m' =
    (if trim_space i = trim_space (se_TenantID s)
     then Ok (s\<lparr>se_TenantID := trim_space (se_TenantID s), se_UpdatedAt := or_now now (se_UpdatedAt s)\<rparr>)
     else getSettings i m)"
  using assms
  by (auto simp: putSettings_def getSettings_def smem_put_def smem_get_def requireID_def Let_def or_now_def trim_space_idem split: option.splits)

theorem settings_read_back_witness:
  "\<exists>m'. putSettings 5 ((defaultSettings ''acme'')\<lparr>se_TenantID := '' acme ''\<rparr>) [] = (m', Ok ())
     \<and> getSettings ''acme'' m' = Ok ((defaultSettings ''acme'')\<lparr>se_UpdatedAt := 5\<rparr>)
     \<and> getSettings ''b'' m' = Ok (defaultSettings ''b'')"
proof -
  let ?s = "(defaultSettings ''acme'')\<lparr>se_TenantID := '' acme ''\<rparr>"
  have t: "trim_space '' acme '' = ''acme''" "trim_space ''acme'' = ''acme''" "trim_space ''b'' = ''b''" by code_simp+
  then have h: "trim_space (se_TenantID ?s) \<noteq> []" by simp
  obtain m' r where p: "putSettings 5 ?s [] = (m', r)" by force
  have "getSettings ''b'' [] = Ok (defaultSettings ''b'')" by code_simp
  then show ?thesis
    using settings_read_back [OF h p, of "''acme''"] settings_read_back [OF h p, of "''b''"] p t
    by (auto simp: or_now_def time_is_zero_def defaultSettings_def)
qed

end
