(* ===== verification/Registration.thy ===== *)
theory Registration
  imports Tenants
begin

text \<open>
  Self-service registration of tenants (\<open>internal/registration\<close>): the request and its status machine, the
  signed verification tokens, the in-memory repository, the recorder of notifications, and the service that
  submits, verifies and completes a registration by provisioning a tenant. HMAC is a parameter; random
  bytes are arguments. The tenants are reached through the provisioner interface, which the tenant service
  implements.
\<close>

subsection \<open>Requests\<close>

datatype rstatus = StatusPendingEmailVerification | StatusEmailVerified | StatusOnboarding | StatusRegActive

datatype reg_error =
    ErrTokenInvalid | ErrTokenExpired | ErrEmailRequired | ErrSlugRequired | ErrSlugTaken | ErrAlreadyVerified | ErrAlreadyActive
  | ErrInvalidTransition | ErrRequestNotFound | ErrRequestAlreadyExists | TenantError tenant_error

definition reg_table :: "(rstatus, rstatus) table" where
  "reg_table =
     [(StatusPendingEmailVerification, [(StatusEmailVerified, StatusEmailVerified)]),
      (StatusEmailVerified, [(StatusOnboarding, StatusOnboarding)]),
      (StatusOnboarding, [(StatusRegActive, StatusRegActive)])]"

definition rstatus_isTerminal :: "rstatus \<Rightarrow> bool" where "rstatus_isTerminal s \<longleftrightarrow> s = StatusRegActive"

definition reg_canTransition :: "rstatus \<Rightarrow> rstatus \<Rightarrow> reg_error option" where
  "reg_canTransition a b =
     (case mget reg_table a of
        None \<Rightarrow> Some ErrInvalidTransition
      | Some moves \<Rightarrow> (case mget moves b of None \<Rightarrow> Some ErrInvalidTransition | Some _ \<Rightarrow> None))"

fun reg_rank :: "rstatus \<Rightarrow> nat" where
  "reg_rank StatusPendingEmailVerification = 0"
| "reg_rank StatusEmailVerified = 1"
| "reg_rank StatusOnboarding = 2"
| "reg_rank StatusRegActive = 3"

definition rstep :: "rstatus \<Rightarrow> rstatus \<Rightarrow> rstatus option" where "rstep = table_next reg_table"

interpretation rl: acyclic rstep rstatus_isTerminal reg_rank
proof
  show "rstatus_isTerminal s \<longleftrightarrow> (\<forall>t. rstep s t = None)" for s
    by (cases s) (auto simp: rstatus_isTerminal_def rstep_def table_next_def reg_table_def mget_def)
  show "rstep s t = Some s' \<Longrightarrow> reg_rank s < reg_rank s'" for s t s'
    by (cases s) (auto simp: rstep_def table_next_def reg_table_def mget_def split: if_splits)
qed

record reg_request =
  rq_ID :: string
  rq_Email :: string
  rq_SlugRequested :: string
  rq_PlanRequested :: string
  rq_Status :: rstatus
  rq_TenantID :: string
  rq_CompanyName :: string
  rq_CreatedAt :: gotime
  rq_VerifiedAt :: gotime
  rq_OnboardedAt :: gotime
  rq_ActivatedAt :: gotime
  rq_ExpiresAt :: gotime

record submit_input =
  su_Email :: string
  su_SlugRequested :: string
  su_PlanRequested :: string
  su_Now :: gotime

definition looksLikeEmail :: "string \<Rightarrow> bool" where
  "looksLikeEmail s =
     (let at = length (takeWhile (\<lambda>c. c \<noteq> CHR ''@'') s) in
      if s = [] then False
      else if at = length s \<or> at = 0 \<or> at = length s - 1 then False
      else if CHR '' '' \<in> set s then False
      else CHR ''.'' \<in> set (drop (at + 1) s))"

text \<open>The runes of a string, each as the bytes it is read from; an invalid byte is a rune of its own.\<close>

function runes :: "string \<Rightarrow> string list" where
  "runes s = (if s = [] then [] else take (max 1 (utf8_len s)) s # runes (drop (max 1 (utf8_len s)) s))"
  by pat_completeness auto
termination by (relation "measure length") auto

declare runes.simps [simp del]

definition slugStartRune :: "string \<Rightarrow> bool" where
  "slugStartRune r = (case r of [c] \<Rightarrow> 0x61 \<le> byte c \<and> byte c \<le> 0x7A | _ \<Rightarrow> False)"

definition slugEndRune :: "string \<Rightarrow> bool" where
  "slugEndRune r = (case r of [c] \<Rightarrow> 0x61 \<le> byte c \<and> byte c \<le> 0x7A \<or> 0x30 \<le> byte c \<and> byte c \<le> 0x39 | _ \<Rightarrow> False)"

definition slugMiddleRune :: "string \<Rightarrow> bool" where
  "slugMiddleRune r =
     (case r of [c] \<Rightarrow> 0x61 \<le> byte c \<and> byte c \<le> 0x7A \<or> 0x30 \<le> byte c \<and> byte c \<le> 0x39 \<or> c = CHR ''-'' | _ \<Rightarrow> False)"

definition slugRuneAllowed :: "string \<Rightarrow> nat \<Rightarrow> nat \<Rightarrow> bool" where
  "slugRuneAllowed r i n = (if i = 0 then slugStartRune r else if i = n - 1 then slugEndRune r else slugMiddleRune r)"

definition slugPattern :: "string \<Rightarrow> bool" where
  "slugPattern s =
     (if length s < 2 then False
      else list_all (\<lambda>(i, r). slugRuneAllowed r i (length (runes s))) (zip [0..<length (runes s)] (runes s)))"

text \<open>\<open>rnd\<close> are the sixteen random bytes, \<open>wall\<close> the time of the wall clock.\<close>

definition default_ttl :: duration where "default_ttl = 24 * time_hour"

definition newRequest :: "string \<Rightarrow> gotime \<Rightarrow> submit_input \<Rightarrow> duration \<Rightarrow> reg_error + reg_request" where
  "newRequest rnd wall inp ttl =
     (let email = to_lower (trim_space (su_Email inp)) in
      if \<not> looksLikeEmail email then Err ErrEmailRequired
      else let slug = trim_space (su_SlugRequested inp) in
      if slug = [] \<or> \<not> slugPattern slug then Err ErrSlugRequired
      else
        let now = or_now wall (su_Now inp);
            ttl = (if ttl \<le> 0 then default_ttl else ttl);
            plan = (if trim_space (su_PlanRequested inp) = [] then ''free'' else trim_space (su_PlanRequested inp))
        in Ok \<lparr>rq_ID = hex_encode rnd, rq_Email = email, rq_SlugRequested = slug, rq_PlanRequested = plan,
               rq_Status = StatusPendingEmailVerification, rq_TenantID = [], rq_CompanyName = [], rq_CreatedAt = now,
               rq_VerifiedAt = zero_time, rq_OnboardedAt = zero_time, rq_ActivatedAt = zero_time, rq_ExpiresAt = now + ttl\<rparr>)"

definition markVerified :: "gotime \<Rightarrow> gotime \<Rightarrow> reg_request \<Rightarrow> reg_error + reg_request" where
  "markVerified wall now r =
     (if rq_Status r = StatusEmailVerified \<or> rq_Status r = StatusOnboarding \<or> rq_Status r = StatusRegActive then Err ErrAlreadyVerified
      else case reg_canTransition (rq_Status r) StatusEmailVerified of
        Some e \<Rightarrow> Err e
      | None \<Rightarrow> Ok (r\<lparr>rq_Status := StatusEmailVerified, rq_VerifiedAt := or_now wall now\<rparr>))"

definition markOnboarding :: "string \<Rightarrow> gotime \<Rightarrow> gotime \<Rightarrow> reg_request \<Rightarrow> reg_error + reg_request" where
  "markOnboarding companyName wall now r =
     (if rq_Status r = StatusRegActive then Err ErrAlreadyActive
      else case reg_canTransition (rq_Status r) StatusOnboarding of
        Some e \<Rightarrow> Err e
      | None \<Rightarrow> Ok (r\<lparr>rq_Status := StatusOnboarding, rq_CompanyName := trim_space companyName, rq_OnboardedAt := or_now wall now\<rparr>))"

definition markActive :: "string \<Rightarrow> gotime \<Rightarrow> gotime \<Rightarrow> reg_request \<Rightarrow> reg_error + reg_request" where
  "markActive tenantID wall now r =
     (if rq_Status r = StatusRegActive then Err ErrAlreadyActive
      else case reg_canTransition (rq_Status r) StatusRegActive of
        Some e \<Rightarrow> Err e
      | None \<Rightarrow> Ok (r\<lparr>rq_Status := StatusRegActive, rq_TenantID := tenantID, rq_ActivatedAt := or_now wall now\<rparr>))"

subsection \<open>Tokens\<close>

definition reg_message :: "string \<Rightarrow> string \<Rightarrow> string \<Rightarrow> string" where
  "reg_message i exp email = i @ CHR 0x1F # exp @ CHR 0x1F # to_lower (trim_space email)"

text \<open>\<open>mac\<close> is HMAC-SHA256 under the issuer's secret.\<close>

definition reg_sign :: "(string \<Rightarrow> string) \<Rightarrow> string \<Rightarrow> string \<Rightarrow> string \<Rightarrow> string" where
  "reg_sign mac i exp email = base64_encode base64_url False (mac (reg_message i exp email))"

definition issueToken :: "(string \<Rightarrow> string) \<Rightarrow> reg_request \<Rightarrow> reg_error + string" where
  "issueToken mac r =
     (if rq_ID r = [] then Err ErrTokenInvalid
      else if time_is_zero (rq_ExpiresAt r) then Err ErrTokenInvalid
      else let exp = format_int (rq_ExpiresAt r div 10 ^ 9)
           in Ok (rq_ID r @ ''.'' @ exp @ ''.'' @ reg_sign mac (rq_ID r) exp (rq_Email r)))"

definition verifyToken :: "(string \<Rightarrow> string) \<Rightarrow> gotime \<Rightarrow> string \<Rightarrow> gotime \<Rightarrow> string \<Rightarrow> reg_error + string" where
  "verifyToken mac wall token now expectedEmail =
     (case split_on CHR ''.'' (trim_space token) of
        [i, exp, sig] \<Rightarrow>
          if i = [] \<or> exp = [] \<or> sig = [] then Err ErrTokenInvalid
          else if sig \<noteq> reg_sign mac i exp expectedEmail then Err ErrTokenInvalid
          else (case parse_int64 exp of
                  None \<Rightarrow> Err ErrTokenInvalid
                | Some expUnix \<Rightarrow>
                    if \<not> or_now wall now < time_unix expUnix then Err ErrTokenExpired else Ok i)
      | _ \<Rightarrow> Err ErrTokenInvalid)"

text \<open>Cutting the runes of a token at the dots; its invalid bytes become replacement characters.\<close>

definition splitToken :: "string \<Rightarrow> (string \<times> string \<times> string) option" where
  "splitToken token =
     (if token = [] then None
      else case split_on CHR ''.'' (utf8_clean token) of
        [i, exp, sig] \<Rightarrow> if i = [] \<or> exp = [] \<or> sig = [] then None else Some (i, exp, sig)
      | _ \<Rightarrow> None)"

subsection \<open>The repository and the recorder\<close>

record reg_mem =
  rm_byID :: "(string, reg_request) gomap"
  rm_byEmail :: "(string, string) gomap"

definition rmem_create :: "reg_request \<Rightarrow> reg_mem \<Rightarrow> reg_mem \<times> (reg_error + unit)" where
  "rmem_create q m =
     (if mget (rm_byID m) (rq_ID q) \<noteq> None then (m, Err ErrRequestAlreadyExists)
      else if (case mget (rm_byEmail m) (rq_Email q) of
                 None \<Rightarrow> False
               | Some i \<Rightarrow> (case mget (rm_byID m) i of None \<Rightarrow> False | Some old \<Rightarrow> rq_Status old = StatusRegActive))
      then (m, Err ErrRequestAlreadyExists)
      else (m\<lparr>rm_byID := mput (rq_ID q) q (rm_byID m), rm_byEmail := mput (rq_Email q) (rq_ID q) (rm_byEmail m)\<rparr>, Ok ()))"

definition rmem_get :: "string \<Rightarrow> reg_mem \<Rightarrow> reg_error + reg_request" where
  "rmem_get i m = (case mget (rm_byID m) i of None \<Rightarrow> Err ErrRequestNotFound | Some q \<Rightarrow> Ok q)"

definition rmem_save :: "reg_request \<Rightarrow> reg_mem \<Rightarrow> reg_mem \<times> (reg_error + unit)" where
  "rmem_save q m =
     (if mget (rm_byID m) (rq_ID q) = None then (m, Err ErrRequestNotFound)
      else (m\<lparr>rm_byID := mput (rq_ID q) q (rm_byID m)\<rparr>, Ok ()))"

text \<open>\<open>it\<close> is the order in which the run iterates over the requests; equal times keep an order of its choice.\<close>

definition rmem_list :: "(reg_request list \<Rightarrow> reg_request list) \<Rightarrow> int \<Rightarrow> int \<Rightarrow> reg_mem \<Rightarrow> (reg_request list \<times> int) option" where
  "rmem_list it page perPage m =
     (let out = sort_key (\<lambda>q. - rq_CreatedAt q) (it (mvalues (rm_byID m)))
      in map_option (\<lambda>xs. (xs, int (length out)))
           (page_slice (if page < 1 then 1 else page) (if perPage < 1 then 20 else perPage) out))"

datatype notification_kind = NotificationRequested | NotificationVerified

record notification_event =
  ne_Kind :: notification_kind
  ne_RequestID :: string
  ne_Email :: string
  ne_SlugRequest :: string
  ne_Token :: string
  ne_OccurredAt :: gotime

definition notifyRequested :: "gotime \<Rightarrow> reg_request \<Rightarrow> string \<Rightarrow> notification_event list \<Rightarrow> notification_event list" where
  "notifyRequested now q token es = es @ [\<lparr>ne_Kind = NotificationRequested, ne_RequestID = rq_ID q, ne_Email = rq_Email q,
     ne_SlugRequest = rq_SlugRequested q, ne_Token = token, ne_OccurredAt = now\<rparr>]"

definition notifyVerified :: "gotime \<Rightarrow> reg_request \<Rightarrow> notification_event list \<Rightarrow> notification_event list" where
  "notifyVerified now q es = es @ [\<lparr>ne_Kind = NotificationVerified, ne_RequestID = rq_ID q, ne_Email = rq_Email q,
     ne_SlugRequest = rq_SlugRequested q, ne_Token = [], ne_OccurredAt = now\<rparr>]"

subsection \<open>The service\<close>

record 't provisioner =
  pv_create :: "gotime \<Rightarrow> tenant_input \<Rightarrow> 't \<Rightarrow> 't \<times> (tenant_error + tenant)"
  pv_activate :: "gotime \<Rightarrow> string \<Rightarrow> 't \<Rightarrow> 't \<times> (tenant_error + tenant)"

definition service_provisioner :: "'s tenant_ports \<Rightarrow> int \<Rightarrow> 's provisioner" where
  "service_provisioner p quota = \<lparr>pv_create = tenant_create p quota, pv_activate = tenant_activate p\<rparr>"

record 't reg_world =
  rw_repo :: reg_mem
  rw_tenants :: 't
  rw_events :: "notification_event list"

definition submit ::
  "(string \<Rightarrow> string) \<Rightarrow> duration \<Rightarrow> string \<Rightarrow> gotime \<Rightarrow> submit_input \<Rightarrow> 't reg_world \<Rightarrow> 't reg_world \<times> (reg_error + reg_request \<times> string)" where
  "submit mac ttl rnd now inp w =
     (let inp = (if time_is_zero (su_Now inp) then inp\<lparr>su_Now := now\<rparr> else inp) in
      case newRequest rnd now inp ttl of
        Err e \<Rightarrow> (w, Err e)
      | Ok q \<Rightarrow>
     (case rmem_create q (rw_repo w) of
        (m, Err e) \<Rightarrow> (w\<lparr>rw_repo := m\<rparr>, Err (if e = ErrRequestAlreadyExists then ErrSlugTaken else e))
      | (m, Ok _) \<Rightarrow>
     (case issueToken mac q of
        Err e \<Rightarrow> (w\<lparr>rw_repo := m\<rparr>, Err e)
      | Ok token \<Rightarrow> (w\<lparr>rw_repo := m, rw_events := notifyRequested now q token (rw_events w)\<rparr>, Ok (q, token)))))"

definition verify ::
  "(string \<Rightarrow> string) \<Rightarrow> gotime \<Rightarrow> string \<Rightarrow> 't reg_world \<Rightarrow> 't reg_world \<times> (reg_error + reg_request)" where
  "verify mac now token w =
     (case splitToken token of
        None \<Rightarrow> (w, Err ErrTokenInvalid)
      | Some (i, _) \<Rightarrow>
     (case rmem_get i (rw_repo w) of
        Err e \<Rightarrow> (w, Err e)
      | Ok candidate \<Rightarrow>
     (case verifyToken mac now token now (rq_Email candidate) of
        Err e \<Rightarrow> (w, Err e)
      | Ok i' \<Rightarrow>
     (if i' \<noteq> rq_ID candidate then (w, Err ErrTokenInvalid)
      else case markVerified now now candidate of
        Err e \<Rightarrow> (w, Err e)
      | Ok updated \<Rightarrow>
     (case rmem_save updated (rw_repo w) of
        (m, Err e) \<Rightarrow> (w\<lparr>rw_repo := m\<rparr>, Err e)
      | (m, Ok _) \<Rightarrow> (w\<lparr>rw_repo := m, rw_events := notifyVerified now updated (rw_events w)\<rparr>, Ok updated))))))"

definition completeOnboarding ::
  "'t provisioner \<Rightarrow> gotime \<Rightarrow> string \<Rightarrow> string \<Rightarrow> string \<Rightarrow> 't reg_world \<Rightarrow> 't reg_world \<times> (reg_error + reg_request \<times> tenant)" where
  "completeOnboarding pv now i companyName finalPlan w =
     (case rmem_get i (rw_repo w) of
        Err e \<Rightarrow> (w, Err e)
      | Ok req \<Rightarrow>
     (if rq_Status req = StatusPendingEmailVerification then (w, Err ErrInvalidTransition)
      else if rq_Status req = StatusRegActive then (w, Err ErrAlreadyActive)
      else case markOnboarding companyName now now req of
        Err e \<Rightarrow> (w, Err e)
      | Ok updated \<Rightarrow>
     (let plan = (if finalPlan = [] then rq_PlanRequested updated else finalPlan) in
      case pv_create pv now \<lparr>ti_ID = [], ti_Slug = rq_SlugRequested updated, ti_Name = rq_CompanyName updated, ti_Plan = plan\<rparr> (rw_tenants w) of
        (ts, Err e) \<Rightarrow> (w\<lparr>rw_tenants := ts\<rparr>, Err (if e = ErrTenantSlugAlreadyExists then ErrSlugTaken else TenantError e))
      | (ts, Ok t) \<Rightarrow>
     (case pv_activate pv now (tn_ID t) ts of
        (ts, Err e) \<Rightarrow> (w\<lparr>rw_tenants := ts\<rparr>, Err (TenantError e))
      | (ts, Ok activated) \<Rightarrow>
     (case markActive (tn_ID activated) now now updated of
        Err e \<Rightarrow> (w\<lparr>rw_tenants := ts\<rparr>, Err e)
      | Ok final \<Rightarrow>
     (case rmem_save final (rw_repo w) of
        (m, Err e) \<Rightarrow> (w\<lparr>rw_tenants := ts, rw_repo := m\<rparr>, Err e)
      | (m, Ok _) \<Rightarrow> (w\<lparr>rw_tenants := ts, rw_repo := m\<rparr>, Ok (final, activated))))))))"

subsection \<open>Slugs\<close>

lemma runes_Cons_ascii: "byte c < 0x80 \<Longrightarrow> runes (c # s) = [c] # runes s"
  by (subst runes.simps) (simp add: utf8_len_ascii)

lemma runes_ascii: "list_all (\<lambda>c. byte c < 0x80) s \<Longrightarrow> runes s = map (\<lambda>c. [c]) s"
  by (induction s) (simp add: runes.simps, simp add: runes_Cons_ascii)

lemma runes_single: "\<forall>r \<in> set (runes s). \<exists>c. r = [c] \<and> byte c < 0x80 \<Longrightarrow> list_all (\<lambda>c. byte c < 0x80) s"
proof (induction s rule: runes.induct)
  case (1 s)
  show ?case
  proof (cases s)
    case (Cons c s')
    let ?k = "max 1 (utf8_len s)"
    have r: "runes s = take ?k s # runes (drop ?k s)" using Cons by (subst runes.simps) simp
    then obtain d where d: "take ?k s = [d]" "byte d < 0x80" using 1(2) by auto
    have "\<forall>r \<in> set (runes (drop ?k s)). \<exists>c. r = [c] \<and> byte c < 0x80" using 1(2) r by simp
    then have "list_all (\<lambda>c. byte c < 0x80) (drop ?k s)" using 1(1) Cons by simp
    moreover have "s = [d] @ drop ?k s" using d(1) append_take_drop_id [of ?k s] by simp
    moreover have "list_all (\<lambda>c. byte c < 0x80) [d]" using d(2) by simp
    ultimately show ?thesis by (metis list_all_append)
  qed simp
qed

lemma slug_rune_ascii: "slugRuneAllowed r i n \<Longrightarrow> \<exists>c. r = [c] \<and> byte c < 0x80"
  by (auto simp: slugRuneAllowed_def slugStartRune_def slugEndRune_def slugMiddleRune_def split: if_splits list.splits)

lemma slug_runes:
  "slugMiddleRune [c] \<longleftrightarrow> slugChar c \<or> c = CHR ''-''" "slugStartRune [c] \<longleftrightarrow> slugLetter c" "slugEndRune [c] \<longleftrightarrow> slugChar c"
  by (auto simp: slugMiddleRune_def slugStartRune_def slugEndRune_def slugChar_def slugLetter_def is_digit_def)

lemma slug_positions:
  assumes len: "2 \<le> length s"
  shows "(\<forall>i < length s. slugRuneAllowed [s ! i] i (length s))
    \<longleftrightarrow> slugLetter (s ! 0) \<and> slugChar (s ! (length s - 1)) \<and> (\<forall>i < length s. slugChar (s ! i) \<or> s ! i = CHR ''-'')"
    (is "?l \<longleftrightarrow> ?r")
proof
  assume l: ?l
  have "0 < length s" using len by linarith
  then have "slugLetter (s ! 0)" using l [rule_format, of 0] by (simp add: slugRuneAllowed_def slug_runes)
  moreover have "slugChar (s ! (length s - 1))" using spec [OF l, of "length s - 1"] len by (simp add: slugRuneAllowed_def slug_runes)
  moreover have "slugChar (s ! i) \<or> s ! i = CHR ''-''" if i: "i < length s" for i
  proof -
    have "slugRuneAllowed [s ! i] i (length s)" using l i by blast
    then show ?thesis unfolding slugRuneAllowed_def slug_runes slugChar_def by presburger
  qed
  ultimately show ?r by blast
next
  assume ?r
  then show ?l unfolding slugRuneAllowed_def slug_runes by presburger
qed

lemma valid_slug_ascii: "tenant_isValidSlug s \<Longrightarrow> list_all (\<lambda>c. byte c < 0x80) s"
proof -
  have "slugChar c \<or> c = CHR ''-'' \<Longrightarrow> byte c < 0x80" for c by (auto simp: slugChar_def slugLetter_def is_digit_def)
  then show "tenant_isValidSlug s \<Longrightarrow> list_all (\<lambda>c. byte c < 0x80) s"
    unfolding tenant_isValidSlug_def list_all_iff by blast
qed

lemma slugPattern_iff: "slugPattern s \<longleftrightarrow> tenant_isValidSlug s"
proof (cases "list_all (\<lambda>c. byte c < 0x80) s")
  case True
  note r = runes_ascii [OF True]
  show ?thesis
  proof (cases "2 \<le> length s")
    case len: True
    have "s \<noteq> []" using len by auto
    then have e: "hd s = s ! 0" "last s = s ! (length s - 1)" by (simp_all add: hd_conv_nth last_conv_nth)
    have "slugPattern s \<longleftrightarrow> (\<forall>i < length s. slugRuneAllowed [s ! i] i (length s))"
      using len by (simp add: slugPattern_def r list_all_length)
    also have "\<dots> \<longleftrightarrow> slugLetter (s ! 0) \<and> slugChar (s ! (length s - 1)) \<and> (\<forall>i < length s. slugChar (s ! i) \<or> s ! i = CHR ''-'')"
      by (rule slug_positions [OF len])
    also have "\<dots> \<longleftrightarrow> tenant_isValidSlug s" using len by (simp add: tenant_isValidSlug_def e list_all_length)
    finally show ?thesis .
  qed (simp add: slugPattern_def tenant_isValidSlug_def)
next
  case False
  have "\<not> slugPattern s"
  proof
    assume "slugPattern s"
    then have "list_all (\<lambda>(i, r). slugRuneAllowed r i (length (runes s))) (zip [0..<length (runes s)] (runes s))"
      unfolding slugPattern_def by presburger
    then have p: "\<forall>i < length (runes s). slugRuneAllowed (runes s ! i) i (length (runes s))"
      by (simp add: list_all_length)
    have "\<exists>c. r = [c] \<and> byte c < 0x80" if r: "r \<in> set (runes s)" for r
    proof -
      obtain i where i: "i < length (runes s)" "r = runes s ! i" using r unfolding in_set_conv_nth by blast
      have "slugRuneAllowed r i (length (runes s))" using p [rule_format, OF i(1)] i(2) by simp
      then show ?thesis by (rule slug_rune_ascii)
    qed
    then show False using runes_single False by blast
  qed
  moreover have "\<not> tenant_isValidSlug s"
    using False valid_slug_ascii by blast
  ultimately show ?thesis by simp
qed

text \<open>The registration accepts exactly the slugs that the tenants accept. The two checks, one over runes and
  one a pattern, agree on every string.\<close>

theorem slug_checks_agree: "slugPattern s \<longleftrightarrow> tenant_isValidSlug s"
  by (rule slugPattern_iff)

subsection \<open>Every history of registrations\<close>

text \<open>The calls of the service, and the calls of other clients of the tenants in between.\<close>

datatype reg_call =
    RegSubmit string gotime submit_input
  | RegVerify gotime string
  | RegComplete gotime string string string
  | RegTenant tenant_call

type_synonym mem_world = "tenant_mem reg_world"

definition run_reg_call ::
  "(string \<Rightarrow> string) \<Rightarrow> duration \<Rightarrow> (tenant list \<Rightarrow> tenant list) \<Rightarrow> int \<Rightarrow> reg_call \<Rightarrow> mem_world \<Rightarrow> mem_world" where
  "run_reg_call mac ttl it quota c w =
     (case c of
        RegSubmit rnd now inp \<Rightarrow> fst (submit mac ttl rnd now inp w)
      | RegVerify now token \<Rightarrow> fst (verify mac now token w)
      | RegComplete now i company plan \<Rightarrow> fst (completeOnboarding (service_provisioner (tmem_ports it) quota) now i company plan w)
      | RegTenant tc \<Rightarrow> w\<lparr>rw_tenants := fst (run_tenant_call (tmem_ports it) quota tc (rw_tenants w))\<rparr>)"

fun run_reg_calls where
  "run_reg_calls mac ttl it quota [] w = w"
| "run_reg_calls mac ttl it quota (c # cs) w = run_reg_calls mac ttl it quota cs (run_reg_call mac ttl it quota c w)"

definition newRegWorld :: mem_world where
  "newRegWorld = \<lparr>rw_repo = \<lparr>rm_byID = [], rm_byEmail = []\<rparr>, rw_tenants = newTenantMem, rw_events = []\<rparr>"

definition reg_row :: "'t reg_world \<Rightarrow> string \<Rightarrow> reg_request option" where
  "reg_row w i = mget (rm_byID (rw_repo w)) i"

definition active_row :: "'t reg_world \<Rightarrow> string \<Rightarrow> reg_request \<Rightarrow> bool" where
  "active_row w i q \<longleftrightarrow> reg_row w i = Some q \<and> rq_Status q = StatusRegActive"

text \<open>Rows are found under their identifiers, never rest half-way through the onboarding, and an active row owns
  the tenant of its slug.\<close>

definition reg_sound :: "mem_world \<Rightarrow> bool" where
  "reg_sound w \<longleftrightarrow> mts.indexed (rw_tenants w) \<and> mwf (rm_byID (rw_repo w))
     \<and> (\<forall>i q. reg_row w i = Some q \<longrightarrow> rq_ID q = i \<and> tenant_isValidSlug (rq_SlugRequested q) \<and> rq_Status q \<noteq> StatusOnboarding)
     \<and> (\<forall>i q. active_row w i q \<longrightarrow> mget (tm_bySlug (rw_tenants w)) (rq_SlugRequested q) = Some (rq_TenantID q))
     \<and> (\<forall>i j q r. active_row w i q \<longrightarrow> active_row w j r \<longrightarrow> rq_SlugRequested q = rq_SlugRequested r \<longrightarrow> i = j)"

lemma reg_sound_row:
  "reg_sound w \<Longrightarrow> reg_row w i = Some q \<Longrightarrow> rq_ID q = i \<and> tenant_isValidSlug (rq_SlugRequested q) \<and> rq_Status q \<noteq> StatusOnboarding"
  unfolding reg_sound_def by blast

lemma newRequest_Ok:
  "newRequest rnd wall inp ttl = Ok q \<Longrightarrow>
     rq_ID q = hex_encode rnd \<and> rq_Status q = StatusPendingEmailVerification \<and> tenant_isValidSlug (rq_SlugRequested q)"
  by (auto simp: newRequest_def Let_def slugPattern_iff split: if_splits)

lemma submit_effect:
  assumes "submit mac ttl rnd now inp w = (w', r)"
  shows "(w' = w \<and> \<not> is_ok r)
    \<or> (\<exists>q. newRequest rnd now (if time_is_zero (su_Now inp) then inp\<lparr>su_Now := now\<rparr> else inp) ttl = Ok q
         \<and> reg_row w (rq_ID q) = None \<and> rw_tenants w' = rw_tenants w \<and> reg_row w' = (reg_row w)(rq_ID q \<mapsto> q)
         \<and> (mwf (rm_byID (rw_repo w)) \<longrightarrow> mwf (rm_byID (rw_repo w'))))"
proof (cases "newRequest rnd now (if time_is_zero (su_Now inp) then inp\<lparr>su_Now := now\<rparr> else inp) ttl")
  case (Inl e)
  then show ?thesis using assms by (auto simp: submit_def Let_def)
next
  case (Inr q)
  then show ?thesis using assms
    by (auto simp: submit_def Let_def rmem_create_def reg_row_def fun_eq_iff  split: if_splits sum.splits)
qed

lemma verifyToken_Ok:
  assumes "verifyToken mac wall token now email = Ok i"
  shows "\<exists>exp u. trim_space token = i @ ''.'' @ exp @ ''.'' @ reg_sign mac i exp email \<and> parse_int64 exp = Some u \<and> or_now wall now < time_unix u"
proof -
  obtain exp sig where s: "split_on CHR ''.'' (trim_space token) = [i, exp, sig]"
    and ok: "sig = reg_sign mac i exp email" "\<exists>u. parse_int64 exp = Some u \<and> or_now wall now < time_unix u"
    using assms by (auto simp: verifyToken_def split: list.splits if_splits option.splits)
  have "trim_space token = join_with ''.'' [i, exp, sig]" using join_split [of "CHR ''.''" "trim_space token"] s by simp
  then have "trim_space token = i @ ''.'' @ exp @ ''.'' @ sig" by simp
  then show ?thesis using ok by blast
qed

lemma markVerified_Ok:
  "markVerified wall now r = Ok r' \<longleftrightarrow>
     rq_Status r = StatusPendingEmailVerification \<and> r' = r\<lparr>rq_Status := StatusEmailVerified, rq_VerifiedAt := or_now wall now\<rparr>"
  by (cases "rq_Status r") (auto simp: markVerified_def reg_canTransition_def reg_table_def mget_def)

lemma verify_effect:
  assumes ok: "\<And>i q. reg_row w i = Some q \<Longrightarrow> rq_ID q = i" and run: "verify mac now token w = (w', r)"
  shows "(w' = w \<and> \<not> is_ok r)
    \<or> (\<exists>i q exp u. is_ok r \<and> reg_row w i = Some q \<and> rq_Status q = StatusPendingEmailVerification \<and> rw_tenants w' = rw_tenants w
         \<and> trim_space token = i @ ''.'' @ exp @ ''.'' @ reg_sign mac i exp (rq_Email q) \<and> parse_int64 exp = Some u \<and> now < time_unix u
         \<and> reg_row w' = (reg_row w)(i \<mapsto> q\<lparr>rq_Status := StatusEmailVerified, rq_VerifiedAt := now\<rparr>)
         \<and> (mwf (rm_byID (rw_repo w)) \<longrightarrow> mwf (rm_byID (rw_repo w'))))"
proof (cases "\<exists>i x q q'. splitToken token = Some (i, x) \<and> reg_row w i = Some q \<and> verifyToken mac now token now (rq_Email q) = Ok (rq_ID q) \<and> markVerified now now q = Ok q'")
  case False
  then have "w' = w \<and> \<not> is_ok r"
    using run by (auto simp: verify_def rmem_get_def reg_row_def is_ok_iff split: option.splits sum.splits if_splits)
  then show ?thesis ..
next
  case True
  then obtain i x q q' where q: "splitToken token = Some (i, x)" "reg_row w i = Some q"
    "verifyToken mac now token now (rq_Email q) = Ok (rq_ID q)" "markVerified now now q = Ok q'" by blast
  have i: "rq_ID q = i" using ok q(2) by blast
  have m: "rq_Status q = StatusPendingEmailVerification" "q' = q\<lparr>rq_Status := StatusEmailVerified, rq_VerifiedAt := now\<rparr>"
    using q(4) by (auto simp: markVerified_Ok or_now_def)
  have id: "rq_ID q' = rq_ID q" using m(2) by simp
  obtain exp u where t: "trim_space token = i @ ''.'' @ exp @ ''.'' @ reg_sign mac i exp (rq_Email q)" "parse_int64 exp = Some u" "now < time_unix u"
    using verifyToken_Ok [OF q(3)] i by (auto simp: or_now_def)
  have "verify mac now token w = (w\<lparr>rw_repo := (rw_repo w)\<lparr>rm_byID := mput i q' (rm_byID (rw_repo w))\<rparr>,
      rw_events := notifyVerified now q' (rw_events w)\<rparr>, Ok q')"
    using q i id by (simp add: verify_def rmem_get_def reg_row_def rmem_save_def)
  then have "is_ok r" "reg_row w' = (reg_row w)(i \<mapsto> q')" "rw_tenants w' = rw_tenants w"
      "mwf (rm_byID (rw_repo w)) \<longrightarrow> mwf (rm_byID (rw_repo w'))"
    using run by (auto simp: reg_row_def fun_eq_iff)
  then show ?thesis using q(2) m t by blast
qed

lemma markOnboarding_Ok:
  "markOnboarding company wall now r = Ok r' \<longleftrightarrow> rq_Status r = StatusEmailVerified
     \<and> r' = r\<lparr>rq_Status := StatusOnboarding, rq_CompanyName := trim_space company, rq_OnboardedAt := or_now wall now\<rparr>"
  by (cases "rq_Status r") (auto simp: markOnboarding_def reg_canTransition_def reg_table_def mget_def)

lemma markActive_onboarding:
  "rq_Status r = StatusOnboarding \<Longrightarrow>
     markActive tenantID wall now r = Ok (r\<lparr>rq_Status := StatusRegActive, rq_TenantID := tenantID, rq_ActivatedAt := or_now wall now\<rparr>)"
  by (simp add: markActive_def reg_canTransition_def reg_table_def mget_def)

definition onboarded :: "gotime \<Rightarrow> string \<Rightarrow> string \<Rightarrow> reg_request \<Rightarrow> reg_request" where
  "onboarded now company tenantID q = q\<lparr>rq_Status := StatusRegActive, rq_CompanyName := trim_space company,
     rq_OnboardedAt := now, rq_TenantID := tenantID, rq_ActivatedAt := now\<rparr>"

definition onboarding_input :: "string \<Rightarrow> string \<Rightarrow> reg_request \<Rightarrow> tenant_input" where
  "onboarding_input company plan q = \<lparr>ti_ID = [], ti_Slug = rq_SlugRequested q, ti_Name = trim_space company,
     ti_Plan = (if plan = [] then rq_PlanRequested q else plan)\<rparr>"

lemma onboarded_sel [simp]:
  "rq_ID (onboarded now company tenantID q) = rq_ID q" "rq_Status (onboarded now company tenantID q) = StatusRegActive"
  "rq_SlugRequested (onboarded now company tenantID q) = rq_SlugRequested q" "rq_TenantID (onboarded now company tenantID q) = tenantID"
  by (simp_all add: onboarded_def)

text \<open>Completing an onboarding, given what the provisioner does.\<close>

lemma complete_run:
  assumes q: "reg_row w i = Some q" "rq_ID q = i" "rq_Status q = StatusEmailVerified"
    and c: "pv_create pv now (onboarding_input company plan q) (rw_tenants w) = (s1, Ok t)"
    and a: "pv_activate pv now (tn_ID t) s1 = (s2, Ok t')"
  shows "completeOnboarding pv now i company plan w =
    (w\<lparr>rw_tenants := s2, rw_repo := (rw_repo w)\<lparr>rm_byID := mput i (onboarded now company (tn_ID t') q) (rm_byID (rw_repo w))\<rparr>\<rparr>,
     Ok (onboarded now company (tn_ID t') q, t'))"
proof -
  let ?u = "q\<lparr>rq_Status := StatusOnboarding, rq_CompanyName := trim_space company, rq_OnboardedAt := now\<rparr>"
  have m: "markOnboarding company now now q = Ok ?u" using q(3) by (simp add: markOnboarding_Ok or_now_def)
  have f: "markActive (tn_ID t') now now ?u = Ok (onboarded now company (tn_ID t') q)"
    by (simp add: markActive_onboarding onboarded_def or_now_def)
  have c': "\<lparr>ti_ID = [], ti_Slug = rq_SlugRequested ?u, ti_Name = rq_CompanyName ?u,
      ti_Plan = (if plan = [] then rq_PlanRequested ?u else plan)\<rparr> = onboarding_input company plan q"
    by (simp add: onboarding_input_def)
  have g: "rmem_get i (rw_repo w) = Ok q" using q(1) by (simp add: rmem_get_def reg_row_def)
  have s: "rmem_save (onboarded now company (tn_ID t') q) (rw_repo w) =
      ((rw_repo w)\<lparr>rm_byID := mput i (onboarded now company (tn_ID t') q) (rm_byID (rw_repo w))\<rparr>, Ok ())"
    using q by (simp add: rmem_save_def reg_row_def)
  show ?thesis unfolding completeOnboarding_def g sum.case m Let_def c' c prod.case a f s using q(3) by simp
qed

lemma complete_refused:
  assumes "\<And>q. reg_row w i = Some q \<Longrightarrow> rq_Status q = StatusEmailVerified \<Longrightarrow>
      \<exists>e. pv_create pv now (onboarding_input company plan q) (rw_tenants w) = (rw_tenants w, Err e)"
  shows "fst (completeOnboarding pv now i company plan w) = w \<and> \<not> is_ok (snd (completeOnboarding pv now i company plan w))"
proof (cases "reg_row w i")
  case None
  then show ?thesis by (simp add: completeOnboarding_def rmem_get_def reg_row_def)
next
  case (Some q)
  show ?thesis
  proof (cases "rq_Status q = StatusEmailVerified")
    case False
    then have "\<exists>e. markOnboarding company now now q = Err e" by (cases "markOnboarding company now now q") (auto simp: markOnboarding_Ok)
    then show ?thesis using Some by (auto simp: completeOnboarding_def rmem_get_def reg_row_def)
  next
    case True
    let ?u = "q\<lparr>rq_Status := StatusOnboarding, rq_CompanyName := trim_space company, rq_OnboardedAt := now\<rparr>"
    have m: "markOnboarding company now now q = Ok ?u" using True by (simp add: markOnboarding_Ok or_now_def)
    have c: "\<lparr>ti_ID = [], ti_Slug = rq_SlugRequested ?u, ti_Name = rq_CompanyName ?u,
        ti_Plan = (if plan = [] then rq_PlanRequested ?u else plan)\<rparr> = onboarding_input company plan q"
      by (simp add: onboarding_input_def)
    have g: "rmem_get i (rw_repo w) = Ok q" using Some by (simp add: rmem_get_def reg_row_def)
    obtain e where "pv_create pv now (onboarding_input company plan q) (rw_tenants w) = (rw_tenants w, Err e)"
      using assms [OF Some True] by blast
    then show ?thesis using True unfolding completeOnboarding_def g sum.case m Let_def c by simp
  qed
qed

lemma complete_effect:
  assumes ok: "reg_sound w" and run: "completeOnboarding (service_provisioner (tmem_ports it) quota) now i company plan w = (w', r)"
  shows "(w' = w \<and> \<not> is_ok r)
    \<or> (\<exists>q t. reg_row w i = Some q \<and> rq_Status q = StatusEmailVerified \<and> r = Ok (onboarded now company (tn_ID t) q, t)
         \<and> reg_row w' = (reg_row w)(i \<mapsto> onboarded now company (tn_ID t) q) \<and> mwf (rm_byID (rw_repo w'))
         \<and> tn_Status t = StatusActive \<and> tn_Slug t = rq_SlugRequested q
         \<and> mget (tm_bySlug (rw_tenants w)) (rq_SlugRequested q) = None
         \<and> mts.indexed (rw_tenants w') \<and> mget (tm_byID (rw_tenants w')) (tn_ID t) = Some t
         \<and> mget (tm_bySlug (rw_tenants w')) = (mget (tm_bySlug (rw_tenants w)))(rq_SlugRequested q \<mapsto> tn_ID t))"
proof (cases "\<exists>q s1 t. reg_row w i = Some q \<and> rq_Status q = StatusEmailVerified
    \<and> tenant_create (tmem_ports it) quota now (onboarding_input company plan q) (rw_tenants w) = (s1, Ok t)")
  case False
  have "\<exists>e. tenant_create (tmem_ports it) quota now (onboarding_input company plan q) (rw_tenants w) = (rw_tenants w, Err e)"
    if q: "reg_row w i = Some q" "rq_Status q = StatusEmailVerified" for q
  proof -
    obtain s r where t: "tenant_create (tmem_ports it) quota now (onboarding_input company plan q) (rw_tenants w) = (s, r)" by force
    have "mts.indexed (rw_tenants w)" using ok unfolding reg_sound_def by blast
    then show ?thesis using mts.create_effect [OF _ t] t False q by (cases r) auto
  qed
  then have "fst (completeOnboarding (service_provisioner (tmem_ports it) quota) now i company plan w) = w
      \<and> \<not> is_ok (snd (completeOnboarding (service_provisioner (tmem_ports it) quota) now i company plan w))"
    by (intro complete_refused) (simp add: service_provisioner_def)
  then show ?thesis using run by simp
next
  case True
  then obtain q s1 t where q: "reg_row w i = Some q" "rq_Status q = StatusEmailVerified"
    and c: "tenant_create (tmem_ports it) quota now (onboarding_input company plan q) (rw_tenants w) = (s1, Ok t)" by blast
  have ix: "mts.indexed (rw_tenants w)" "mwf (rm_byID (rw_repo w))" "rq_ID q = i"
    using ok reg_sound_row [OF ok q(1)] unfolding reg_sound_def by blast+
  have slug: "tn_Slug t = rq_SlugRequested q"
    using mts.create_effect [OF ix(1) c] by (simp add: onboarding_input_def del: fun_upd_apply)
  let ?t = "t\<lparr>tn_Status := StatusActive, tn_UpdatedAt := now\<rparr>"
  obtain s2 where a: "tenant_activate (tmem_ports it) now (tn_ID t) s1 = (s2, Ok ?t)" "mts.indexed s2"
      "mget (tm_bySlug (rw_tenants w)) (tn_Slug t) = None"
      "mget (tm_bySlug s2) = (mget (tm_bySlug (rw_tenants w)))(tn_Slug t \<mapsto> tn_ID t)"
      "mget (tm_byID s2) = (mget (tm_byID (rw_tenants w)))(tn_ID t \<mapsto> ?t)"
    using mts.provision [OF ix(1) c] by blast
  have "completeOnboarding (service_provisioner (tmem_ports it) quota) now i company plan w =
     (w\<lparr>rw_tenants := s2, rw_repo := (rw_repo w)\<lparr>rm_byID := mput i (onboarded now company (tn_ID ?t) q) (rm_byID (rw_repo w))\<rparr>\<rparr>,
      Ok (onboarded now company (tn_ID ?t) q, ?t))"
  proof (rule complete_run [OF q(1) ix(3) q(2)])
    show "pv_create (service_provisioner (tmem_ports it) quota) now (onboarding_input company plan q) (rw_tenants w) = (s1, Ok t)"
      using c by (simp add: service_provisioner_def)
    show "pv_activate (service_provisioner (tmem_ports it) quota) now (tn_ID t) s1 = (s2, Ok ?t)"
      unfolding service_provisioner_def provisioner.select_convs by (rule a(1))
  qed
  then have w': "rw_tenants w' = s2" "reg_row w' = (reg_row w)(i \<mapsto> onboarded now company (tn_ID ?t) q)"
      "mwf (rm_byID (rw_repo w'))" "r = Ok (onboarded now company (tn_ID ?t) q, ?t)"
    using run ix(2) by (auto simp: reg_row_def fun_eq_iff)
  show ?thesis by (rule disjI2, rule exI [of _ q], rule exI [of _ ?t]) (use q w' a slug in simp)
qed

text \<open>What one call may do to the row of a registration, by the tokens and states it needs.\<close>

definition reg_moves :: "(string \<Rightarrow> string) \<Rightarrow> reg_call \<Rightarrow> string \<Rightarrow> mem_world \<Rightarrow> mem_world \<Rightarrow> bool" where
  "reg_moves mac c i w w' \<longleftrightarrow>
     reg_row w' i = reg_row w i
     \<or> (\<exists>rnd now inp q. c = RegSubmit rnd now inp \<and> i = hex_encode rnd \<and> reg_row w i = None
          \<and> reg_row w' i = Some q \<and> rq_Status q = StatusPendingEmailVerification)
     \<or> (\<exists>now token q exp u. c = RegVerify now token \<and> reg_row w i = Some q \<and> rq_Status q = StatusPendingEmailVerification
          \<and> trim_space token = i @ ''.'' @ exp @ ''.'' @ reg_sign mac i exp (rq_Email q) \<and> parse_int64 exp = Some u \<and> now < time_unix u
          \<and> reg_row w' i = Some (q\<lparr>rq_Status := StatusEmailVerified, rq_VerifiedAt := now\<rparr>))
     \<or> (\<exists>now company plan q t. c = RegComplete now i company plan \<and> reg_row w i = Some q \<and> rq_Status q = StatusEmailVerified
          \<and> reg_row w' i = Some (onboarded now company (tn_ID t) q) \<and> tn_Status t = StatusActive \<and> tn_Slug t = rq_SlugRequested q
          \<and> mget (tm_byID (rw_tenants w')) (tn_ID t) = Some t)"

text \<open>Replacing the row of a request by one that is not active, or adding the owner of a slug that was free.\<close>

lemma reg_sound_upd:
  assumes ok: "reg_sound w" and t: "rw_tenants w' = rw_tenants w" and m: "mwf (rm_byID (rw_repo w'))"
    and row: "reg_row w' = (reg_row w)(i \<mapsto> q)" "rq_ID q = i" "tenant_isValidSlug (rq_SlugRequested q)"
      "rq_Status q \<noteq> StatusOnboarding" "rq_Status q \<noteq> StatusRegActive"
  shows "reg_sound w'"
proof -
  have "active_row w' j r \<Longrightarrow> active_row w j r" for j r using row(1,5) by (auto simp: active_row_def split: if_splits)
  moreover have "rq_ID r = j \<and> tenant_isValidSlug (rq_SlugRequested r) \<and> rq_Status r \<noteq> StatusOnboarding" if "reg_row w' j = Some r" for j r
    using that row reg_sound_row [OF ok, of j r] by (auto split: if_splits)
  ultimately show ?thesis using ok m unfolding reg_sound_def t by blast
qed

lemma reg_sound_active:
  assumes ok: "reg_sound w" and m: "mwf (rm_byID (rw_repo w'))" "mts.indexed (rw_tenants w')"
    and row: "reg_row w' = (reg_row w)(i \<mapsto> q)" "rq_ID q = i" "tenant_isValidSlug (rq_SlugRequested q)" "rq_Status q = StatusRegActive"
    and free: "mget (tm_bySlug (rw_tenants w)) (rq_SlugRequested q) = None"
    and new: "mget (tm_bySlug (rw_tenants w')) = (mget (tm_bySlug (rw_tenants w)))(rq_SlugRequested q \<mapsto> rq_TenantID q)"
  shows "reg_sound w'"
proof -
  have a: "active_row w' j r \<Longrightarrow> j \<noteq> i \<and> active_row w j r \<or> j = i \<and> r = q" for j r using row(1) by (auto simp: active_row_def split: if_splits)
  have other: "rq_SlugRequested r \<noteq> rq_SlugRequested q \<and> mget (tm_bySlug (rw_tenants w)) (rq_SlugRequested r) = Some (rq_TenantID r)"
    if "active_row w j r" for j r using ok that free unfolding reg_sound_def by (metis option.distinct(1))
  have "rq_ID r = j \<and> tenant_isValidSlug (rq_SlugRequested r) \<and> rq_Status r \<noteq> StatusOnboarding" if "reg_row w' j = Some r" for j r
    using that row ok reg_sound_row [OF ok, of j r] by (auto split: if_splits)
  moreover have "mget (tm_bySlug (rw_tenants w')) (rq_SlugRequested r) = Some (rq_TenantID r)" if "active_row w' j r" for j r
    using a [OF that] other [of j r] new by auto
  moreover have "j = k" if "active_row w' j r" "active_row w' k r'" "rq_SlugRequested r = rq_SlugRequested r'" for j k r r'
    using a [OF that(1)] a [OF that(2)] other [of j r] other [of k r'] that(3) ok unfolding reg_sound_def by metis
  ultimately show ?thesis using m unfolding reg_sound_def by blast
qed

lemma reg_sound_tenants:
  assumes ok: "reg_sound w" and t: "mts.indexed s" "mget (tm_bySlug (rw_tenants w)) \<subseteq>\<^sub>m mget (tm_bySlug s)"
  shows "reg_sound (w\<lparr>rw_tenants := s\<rparr>)"
proof -
  have row: "reg_row (w\<lparr>rw_tenants := s\<rparr>) = reg_row w" "active_row (w\<lparr>rw_tenants := s\<rparr>) = active_row w"
    by (simp_all add: reg_row_def active_row_def fun_eq_iff)
  have "mget (tm_bySlug s) g = Some i" if "mget (tm_bySlug (rw_tenants w)) g = Some i" for g i
    using t(2) that by (metis domI map_le_def)
  then show ?thesis using ok t(1) unfolding reg_sound_def row by simp
qed

lemma reg_call_ok:
  assumes ok: "reg_sound w" and w': "w' = run_reg_call mac ttl it quota c w"
  shows "reg_sound w' \<and> reg_moves mac c i w w'"
proof (cases c)
  case (RegSubmit rnd now inp)
  let ?inp = "if time_is_zero (su_Now inp) then inp\<lparr>su_Now := now\<rparr> else inp"
  obtain r where "submit mac ttl rnd now inp w = (w', r)" using w' RegSubmit by (cases "submit mac ttl rnd now inp w") (simp add: run_reg_call_def)
  from submit_effect [OF this] consider "w' = w"
    | q where "newRequest rnd now ?inp ttl = Ok q" "reg_row w (rq_ID q) = None" "rw_tenants w' = rw_tenants w"
        "reg_row w' = (reg_row w)(rq_ID q \<mapsto> q)" "mwf (rm_byID (rw_repo w)) \<longrightarrow> mwf (rm_byID (rw_repo w'))" by blast
  then show ?thesis
  proof cases
    case 2
    note n = newRequest_Ok [OF 2(1)]
    have "mwf (rm_byID (rw_repo w'))" using 2(5) ok unfolding reg_sound_def by blast
    then have "reg_sound w'" using reg_sound_upd [OF ok 2(3) _ 2(4)] n by simp
    moreover have "reg_moves mac c i w w'" using 2 n RegSubmit by (cases "i = rq_ID q") (auto simp: reg_moves_def)
    ultimately show ?thesis ..
  qed (use ok in \<open>simp add: reg_moves_def\<close>)
next
  case (RegVerify now token)
  obtain r where v: "verify mac now token w = (w', r)" using w' RegVerify by (cases "verify mac now token w") (simp add: run_reg_call_def)
  have id: "reg_row w j = Some q \<Longrightarrow> rq_ID q = j" for j q using reg_sound_row [OF ok] by blast
  from verify_effect [OF id v] consider "w' = w"
    | j q exp u where "reg_row w j = Some q" "rq_Status q = StatusPendingEmailVerification" "rw_tenants w' = rw_tenants w"
        "trim_space token = j @ ''.'' @ exp @ ''.'' @ reg_sign mac j exp (rq_Email q)" "parse_int64 exp = Some u" "now < time_unix u"
        "reg_row w' = (reg_row w)(j \<mapsto> q\<lparr>rq_Status := StatusEmailVerified, rq_VerifiedAt := now\<rparr>)"
        "mwf (rm_byID (rw_repo w)) \<longrightarrow> mwf (rm_byID (rw_repo w'))" by blast
  then show ?thesis
  proof cases
    case 2
    have "mwf (rm_byID (rw_repo w'))" using 2(8) ok unfolding reg_sound_def by blast
    then have "reg_sound w'" using reg_sound_upd [OF ok 2(3) _ 2(7)] reg_sound_row [OF ok 2(1)] by simp
    moreover have "reg_moves mac c i w w'" using 2 RegVerify by (cases "i = j") (auto simp: reg_moves_def)
    ultimately show ?thesis ..
  qed (use ok in \<open>simp add: reg_moves_def\<close>)
next
  case (RegComplete now j company plan)
  obtain r where v: "completeOnboarding (service_provisioner (tmem_ports it) quota) now j company plan w = (w', r)"
    using w' RegComplete by (cases "completeOnboarding (service_provisioner (tmem_ports it) quota) now j company plan w") (simp add: run_reg_call_def)
  from complete_effect [OF ok v] show ?thesis
  proof
    assume "w' = w \<and> \<not> is_ok r"
    then show ?thesis using ok by (simp add: reg_moves_def)
  next
    assume "\<exists>q t. reg_row w j = Some q \<and> rq_Status q = StatusEmailVerified \<and> r = Ok (onboarded now company (tn_ID t) q, t)
         \<and> reg_row w' = (reg_row w)(j \<mapsto> onboarded now company (tn_ID t) q) \<and> mwf (rm_byID (rw_repo w'))
         \<and> tn_Status t = StatusActive \<and> tn_Slug t = rq_SlugRequested q
         \<and> mget (tm_bySlug (rw_tenants w)) (rq_SlugRequested q) = None
         \<and> mts.indexed (rw_tenants w') \<and> mget (tm_byID (rw_tenants w')) (tn_ID t) = Some t
         \<and> mget (tm_bySlug (rw_tenants w')) = (mget (tm_bySlug (rw_tenants w)))(rq_SlugRequested q \<mapsto> tn_ID t)"
    then obtain q t where q: "reg_row w j = Some q" "rq_Status q = StatusEmailVerified"
        "reg_row w' = (reg_row w)(j \<mapsto> onboarded now company (tn_ID t) q)" "mwf (rm_byID (rw_repo w'))"
        "tn_Status t = StatusActive" "tn_Slug t = rq_SlugRequested q" "mget (tm_bySlug (rw_tenants w)) (rq_SlugRequested q) = None"
        "mts.indexed (rw_tenants w')" "mget (tm_byID (rw_tenants w')) (tn_ID t) = Some t"
        "mget (tm_bySlug (rw_tenants w')) = (mget (tm_bySlug (rw_tenants w)))(rq_SlugRequested q \<mapsto> tn_ID t)" by blast
    have "reg_sound w'"
      by (rule reg_sound_active [OF ok q(4,8,3)]) (use reg_sound_row [OF ok q(1)] q(7,10) in simp_all)
    moreover have "reg_moves mac c i w w'" using q RegComplete by (cases "i = j") (auto simp: reg_moves_def)
    ultimately show ?thesis ..
  qed
next
  case (RegTenant tc)
  obtain s r where t: "run_tenant_call (tmem_ports it) quota tc (rw_tenants w) = (s, r)" by force
  have "mts.indexed (rw_tenants w)" using ok unfolding reg_sound_def by blast
  from mts.call_ok [OF this t] have "reg_sound (w\<lparr>rw_tenants := s\<rparr>)" using reg_sound_tenants [OF ok] by blast
  then show ?thesis using w' RegTenant t by (simp add: run_reg_call_def reg_moves_def reg_row_def)
qed

lemma reg_start: "reg_sound newRegWorld"
  using mts_start by (simp add: reg_sound_def newRegWorld_def reg_row_def active_row_def)

lemma reg_calls_ok: "reg_sound w \<Longrightarrow> reg_sound (run_reg_calls mac ttl it quota cs w)"
  by (induction cs arbitrary: w) (use reg_call_ok in \<open>auto\<close>)

lemmas reg_history = reg_calls_ok [OF reg_start]

text \<open>C15: A registration moves only with what entitles it to. After any calls of the service, and of anybody else on
  the tenants, one more call either leaves the registration \<open>i\<close> as it is, or creates it unverified, or verifies it
  with a token that carries the signature of its own identifier and address and has not expired, or
  activates it after its verification, with an active tenant of the slug it asked for.\<close>

theorem registration_moves_entitled:
  "let w = run_reg_calls mac ttl it quota cs newRegWorld
   in reg_moves mac c i w (run_reg_call mac ttl it quota c w)"
  using reg_call_ok [OF reg_history refl] by (simp add: Let_def)

text \<open>C20: Every active registration owns its tenant, for every history. The tenant of its slug is the one it
  names and carries that slug, no registration rests half-way through its onboarding, and two active registrations never share a slug.\<close>

theorem registration_owns_tenant:
  "let w = run_reg_calls mac ttl it quota cs newRegWorld
   in \<forall>i. case reg_row w i of
       None \<Rightarrow> True
     | Some q \<Rightarrow> rq_ID q = i \<and> tenant_isValidSlug (rq_SlugRequested q) \<and> rq_Status q \<noteq> StatusOnboarding
         \<and> (if rq_Status q = StatusRegActive
            then map_option tn_Slug (mget (tm_byID (rw_tenants w)) (rq_TenantID q)) = Some (rq_SlugRequested q)
              \<and> {j. map_option (\<lambda>r. (rq_Status r, rq_SlugRequested r)) (reg_row w j) = Some (StatusRegActive, rq_SlugRequested q)} = {i}
            else True)"
proof -
  define w where "w = run_reg_calls mac ttl it quota cs newRegWorld"
  have ok: "reg_sound w" using reg_history by (simp add: w_def)
  have owner: "map_option tn_Slug (mget (tm_byID (rw_tenants w)) (rq_TenantID q)) = Some (rq_SlugRequested q)
      \<and> {j. map_option (\<lambda>r. (rq_Status r, rq_SlugRequested r)) (reg_row w j) = Some (StatusRegActive, rq_SlugRequested q)} = {i}"
    if q: "reg_row w i = Some q" "rq_Status q = StatusRegActive" for i q
  proof
    have a: "active_row w i q" using q by (simp add: active_row_def)
    then have "mget (tm_bySlug (rw_tenants w)) (rq_SlugRequested q) = Some (rq_TenantID q)" "mts.indexed (rw_tenants w)"
      using ok unfolding reg_sound_def by blast+
    then show "map_option tn_Slug (mget (tm_byID (rw_tenants w)) (rq_TenantID q)) = Some (rq_SlugRequested q)"
      unfolding mts.indexed_def by (metis option.simps(9))
    have uniq: "j = i" if "reg_row w j = Some r" "rq_Status r = StatusRegActive" "rq_SlugRequested r = rq_SlugRequested q" for j r
      using ok a that unfolding reg_sound_def active_row_def by blast
    show "{j. map_option (\<lambda>r. (rq_Status r, rq_SlugRequested r)) (reg_row w j) = Some (StatusRegActive, rq_SlugRequested q)} = {i}"
    proof (rule set_eqI)
      fix j
      show "j \<in> {j. map_option (\<lambda>r. (rq_Status r, rq_SlugRequested r)) (reg_row w j) = Some (StatusRegActive, rq_SlugRequested q)} \<longleftrightarrow> j \<in> {i}"
      proof (cases "reg_row w j")
        case (Some r)
        have "rq_Status r = StatusRegActive \<and> rq_SlugRequested r = rq_SlugRequested q \<longleftrightarrow> j = i"
          using uniq [OF Some] q Some by (metis option.inject)
        then show ?thesis by (simp add: Some)
      qed (use q in auto)
    qed
  qed
  show ?thesis unfolding Let_def w_def [symmetric]
  proof (intro allI, goal_cases)
    case (1 i)
    show ?case
    proof (cases "reg_row w i")
      case (Some q)
      show ?thesis unfolding Some option.case using reg_sound_row [OF ok Some] owner [OF Some] by presburger
    qed simp
  qed
qed

subsection \<open>From the submission to the tenant\<close>

text \<open>The characters of the three parts of a token.\<close>

definition token_char :: "char \<Rightarrow> bool" where
  "token_char c \<longleftrightarrow> 33 \<le> byte c \<and> byte c < 127 \<and> c \<noteq> CHR ''.''"

lemma hex_token: "list_all token_char (hex_encode s)"
proof -
  have d: "list_all token_char (map hex_digit [0..<16])" by code_simp
  have "token_char (hex_digit n)" if "n < 16" for n using d that by (simp add: list_all_length)
  moreover have "byte a div 16 < 16" for a using byte_less [of a] by linarith
  ultimately show ?thesis by (induction s) simp_all
qed

lemma decimal_token: "list_all token_char (format_int n)"
proof -
  have d: "list_all is_digit s \<Longrightarrow> list_all token_char s" for s
    by (induction s) (auto simp: is_digit_def token_char_def)
  have "token_char (CHR ''-'')" by code_simp
  then show ?thesis using format_nat_digits d by (simp add: format_int_def)
qed

lemma base64_token: "list_all token_char (base64_encode base64_url False s)"
proof -
  have d: "list_all token_char base64_url" "length base64_url = 64" by code_simp+
  then have t: "token_char (base64_url ! i)" if "i < 64" for i using that by (simp add: list_all_length)
  have b: "byte a div 4 < 64" "byte a mod 4 * 16 < 64" "byte a mod 4 * 16 + byte b div 16 < 64" "byte b mod 16 * 4 < 64"
    "byte b mod 16 * 4 + byte a div 64 < 64" "byte a mod 64 < 64" for a b
    using byte_less [of a] byte_less [of b] by (linarith | simp)+
  show ?thesis by (induction base64_url False s rule: base64_encode.induct) (simp_all add: t b)
qed

lemma base64_not_Nil: "s \<noteq> [] \<Longrightarrow> base64_encode al pad s \<noteq> []"
  by (induction al pad s rule: base64_encode.induct) simp_all

lemma token_printable:
  "list_all token_char a \<Longrightarrow> list_all token_char b \<Longrightarrow> list_all token_char c \<Longrightarrow> printable (a @ ''.'' @ b @ ''.'' @ c)"
  by (auto simp: printable_def list_all_iff token_char_def)

lemma token_split:
  assumes "list_all token_char a" "list_all token_char b" "list_all token_char c"
  shows "split_on CHR ''.'' (a @ ''.'' @ b @ ''.'' @ c) = [a, b, c]"
proof -
  have "CHR ''.'' \<notin> set a" "CHR ''.'' \<notin> set b" "CHR ''.'' \<notin> set c" using assms by (auto simp: list_all_iff token_char_def)
  then show ?thesis by (simp add: split_on_append split_on_no_sep)
qed

lemma issued_token_verifies:
  assumes q: "rq_ID q = hex_encode rnd" and issue: "issueToken mac q = Ok token" and m: "\<And>m. mac m \<noteq> []"
    and unix: "in_int64 (rq_ExpiresAt q div 10 ^ 9)" and time: "later < time_unix (rq_ExpiresAt q div 10 ^ 9)"
  shows "(\<exists>x. splitToken token = Some (rq_ID q, x)) \<and> verifyToken mac later token later (rq_Email q) = Ok (rq_ID q)"
proof -
  let ?e = "format_int (rq_ExpiresAt q div 10 ^ 9)" and ?s = "reg_sign mac (rq_ID q) (format_int (rq_ExpiresAt q div 10 ^ 9)) (rq_Email q)"
  have t: "token = rq_ID q @ ''.'' @ ?e @ ''.'' @ ?s" and i: "rq_ID q \<noteq> []"
    using issue by (auto simp: issueToken_def Let_def split: if_splits)
  have p: "list_all token_char (rq_ID q)" "list_all token_char ?e" "list_all token_char ?s"
    using hex_token decimal_token base64_token by (simp_all add: q reg_sign_def)
  have s: "?s \<noteq> []" using m base64_not_Nil by (simp add: reg_sign_def)
  have e: "?e \<noteq> []" by (simp add: format_int_def)
  have u: "utf8_clean token = token" unfolding t
    by (rule utf8_clean_valid, rule valid_utf8_ascii) (use token_printable [OF p] in \<open>force simp: printable_def list_all_iff\<close>)
  have "trim_space token = token" unfolding t by (rule trim_space_printable [OF token_printable [OF p]])
  moreover have "split_on CHR ''.'' token = [rq_ID q, ?e, ?s]" unfolding t by (rule token_split [OF p])
  moreover have "token \<noteq> []" using i t by simp
  ultimately show ?thesis using i s e u time unix by (simp add: splitToken_def verifyToken_def or_now_def)
qed

lemma slug_trimmed: "tenant_isValidSlug s \<Longrightarrow> trim_space s = s \<and> s \<noteq> []"
proof -
  assume s: "tenant_isValidSlug s"
  have c: "slugChar c \<or> c = CHR ''-'' \<Longrightarrow> 33 \<le> byte c \<and> byte c < 127" for c by (auto simp: slugChar_def slugLetter_def is_digit_def)
  have "printable s" using s c unfolding tenant_isValidSlug_def printable_def list_all_iff by blast
  then show ?thesis using s trim_space_printable by (auto simp: tenant_isValidSlug_def)
qed

text \<open>A verified registration whose slug is free, within the quota and with a company name, gets its tenant.\<close>

lemma complete_succeeds:
  assumes ok: "reg_sound w" and q: "reg_row w i = Some q" "rq_Status q = StatusEmailVerified"
    and name: "trim_space company \<noteq> []"
    and free: "mget (tm_bySlug (rw_tenants w)) (rq_SlugRequested q) = None" "mget (tm_byID (rw_tenants w)) (rq_SlugRequested q) = None"
    and quota: "checkQuota (tmem_ports it) quota (rw_tenants w) = None"
  shows "\<exists>w' t. completeOnboarding (service_provisioner (tmem_ports it) quota) now i company plan w = (w', Ok (onboarded now company (tn_ID t) q, t))
    \<and> tn_Status t = StatusActive \<and> tn_Slug t = rq_SlugRequested q \<and> tn_Name t = trim_space company
    \<and> tn_Plan t = defaultPlan (if plan = [] then rq_PlanRequested q else plan)"
proof -
  have slug: "tenant_isValidSlug (rq_SlugRequested q)" and i: "rq_ID q = i" using reg_sound_row [OF ok q(1)] by simp_all
  have ix: "mts.indexed (rw_tenants w)" using ok unfolding reg_sound_def by blast
  let ?inp = "onboarding_input company plan q"
  have n: "normaliseInputID (ti_ID ?inp) (ti_Slug ?inp) = Ok (rq_SlugRequested q)"
    using slug_trimmed [OF slug] by (simp add: normaliseInputID_def requireID_def onboarding_input_def)
  define t where "t = \<lparr>tn_ID = rq_SlugRequested q, tn_Slug = ti_Slug ?inp, tn_Name = ti_Name ?inp,
    tn_Plan = defaultPlan (ti_Plan ?inp), tn_Status = StatusProvisioning, tn_CreatedAt = now, tn_UpdatedAt = now\<rparr>"
  obtain s1 where c: "tenant_create (tmem_ports it) quota now ?inp (rw_tenants w) = (s1, Ok t)"
    using mts.create_succeeds [OF ix _ _ _ quota n free(2), of now] slug free(1) name
    unfolding t_def by (auto simp: onboarding_input_def trim_space_idem)
  let ?t = "t\<lparr>tn_Status := StatusActive, tn_UpdatedAt := now\<rparr>"
  obtain s2 where a: "tenant_activate (tmem_ports it) now (tn_ID t) s1 = (s2, Ok ?t)" using mts.provision [OF ix c] by blast
  have "completeOnboarding (service_provisioner (tmem_ports it) quota) now i company plan w =
     (w\<lparr>rw_tenants := s2, rw_repo := (rw_repo w)\<lparr>rm_byID := mput i (onboarded now company (tn_ID ?t) q) (rm_byID (rw_repo w))\<rparr>\<rparr>,
      Ok (onboarded now company (tn_ID ?t) q, ?t))"
    using complete_run [OF q(1) i q(2), of "service_provisioner (tmem_ports it) quota" now company plan s1 t s2 ?t] c a
    by (simp add: service_provisioner_def)
  then show ?thesis by (auto simp: t_def onboarding_input_def)
qed

lemma submit_Ok:
  "submit mac ttl rnd now inp w = (w', Ok (q, token)) \<Longrightarrow> issueToken mac q = Ok token \<and> rq_ID q = hex_encode rnd
     \<and> rq_Status q = StatusPendingEmailVerification"
  by (auto simp: submit_def Let_def newRequest_Ok split: sum.splits prod.splits)

lemma verify_run:
  assumes q: "reg_row w (rq_ID q) = Some q" "rq_Status q = StatusPendingEmailVerification"
    and t: "splitToken token = Some (rq_ID q, x)" "verifyToken mac now token now (rq_Email q) = Ok (rq_ID q)"
  defines "v \<equiv> q\<lparr>rq_Status := StatusEmailVerified, rq_VerifiedAt := now\<rparr>"
  shows "\<exists>w'. verify mac now token w = (w', Ok v) \<and> rw_tenants w' = rw_tenants w \<and> reg_row w' (rq_ID q) = Some v"
proof -
  have m: "markVerified now now q = Ok v" using q(2) by (simp add: markVerified_Ok or_now_def v_def)
  have i: "rq_ID v = rq_ID q" by (simp add: v_def)
  show ?thesis using q(1) t m i by (simp add: verify_def rmem_get_def reg_row_def rmem_save_def)
qed


definition demo_mac :: "string \<Rightarrow> string" where "demo_mac m = CHR ''k'' # take 2 m"

definition demo_submit :: submit_input where
  "demo_submit = \<lparr>su_Email = '' Owner@Shop.example '', su_SlugRequested = ''acme'', su_PlanRequested = ''pro'', su_Now = 1000\<rparr>"

definition demo_request :: reg_request where
  "demo_request = \<lparr>rq_ID = ''7231'', rq_Email = ''owner@shop.example'', rq_SlugRequested = ''acme'', rq_PlanRequested = ''pro'',
     rq_Status = StatusPendingEmailVerification, rq_TenantID = [], rq_CompanyName = [], rq_CreatedAt = 1000,
     rq_VerifiedAt = zero_time, rq_OnboardedAt = zero_time, rq_ActivatedAt = zero_time, rq_ExpiresAt = 86400000001000\<rparr>"

lemma demo_submitted:
  "\<exists>w token. submit demo_mac 0 ''r1'' 1000 demo_submit newRegWorld = (w, Ok (demo_request, token))
     \<and> reg_row w ''7231'' = Some demo_request \<and> rw_tenants w = newTenantMem"
proof -
  have n: "newRequest ''r1'' 1000 demo_submit 0 = Ok demo_request" by code_simp
  have z: "time_is_zero (su_Now demo_submit) = False" "time_is_zero (rq_ExpiresAt demo_request) = False" by code_simp+
  have i: "rq_ID demo_request = ''7231''" by (simp add: demo_request_def)
  then obtain token where "issueToken demo_mac demo_request = Ok token" using z by (simp add: issueToken_def Let_def)
  then show ?thesis using n z i by (simp add: submit_def rmem_create_def newRegWorld_def reg_row_def)
qed


end
