(* ===== verification/Submissions.thy ===== *)
theory Submissions
  imports Marketplace
begin

text \<open>
  Submissions of plugins for review (\<open>internal/marketplace/submission.go\<close>, \<open>submission_state.go\<close>) over the
  in-memory repository of \<open>internal/adapter/inmemory\<close>: a vendor submits a manifest, an administrator
  approves it, which publishes it in the catalogue, or rejects it.
\<close>

subsection \<open>The state machine\<close>

datatype sub_state = SubmissionPendingReview | SubmissionApproved | SubmissionRejected
datatype sub_transition = SubmissionTransitionApprove | SubmissionTransitionReject

definition sub_table :: "(sub_state, sub_transition) table" where
  "sub_table = [(SubmissionPendingReview,
     [(SubmissionTransitionApprove, SubmissionApproved), (SubmissionTransitionReject, SubmissionRejected)])]"

fun sub_state_string :: "sub_state \<Rightarrow> string" where
  "sub_state_string SubmissionPendingReview = ''pending_review''"
| "sub_state_string SubmissionApproved = ''approved''"
| "sub_state_string SubmissionRejected = ''rejected''"

definition sub_isTerminal :: "sub_state \<Rightarrow> bool" where "sub_isTerminal s \<longleftrightarrow> mget sub_table s = None"

definition parseSubmissionState :: "string \<Rightarrow> plugin_error + sub_state" where
  "parseSubmissionState v =
     (if v = ''pending_review'' then Ok SubmissionPendingReview
      else if v = ''approved'' then Ok SubmissionApproved
      else if v = ''rejected'' then Ok SubmissionRejected
      else Err ErrPluginTransition)"

definition parseSubmissionTransition :: "string \<Rightarrow> plugin_error + sub_transition" where
  "parseSubmissionTransition v =
     (if v = ''approve'' then Ok SubmissionTransitionApprove
      else if v = ''reject'' then Ok SubmissionTransitionReject
      else Err ErrPluginTransitionName)"

definition nextSubmissionState :: "sub_state \<Rightarrow> sub_transition \<Rightarrow> plugin_error + sub_state" where
  "nextSubmissionState s t =
     (case mget sub_table s of
        None \<Rightarrow> Err ErrPluginTransition
      | Some moves \<Rightarrow> (case mget moves t of None \<Rightarrow> Err ErrPluginTransition | Some d \<Rightarrow> Ok d))"

definition sub_step :: "sub_state \<Rightarrow> sub_transition \<Rightarrow> sub_state option" where "sub_step = table_next sub_table"

definition allSubmissionTransitions :: "(sub_state \<times> sub_transition \<times> sub_state) list" where
  "allSubmissionTransitions = table_triples sub_table"

lemma sub_table_wf: "table_wf sub_table"
  by (simp add: table_wf_def sub_table_def mwf_def mvalues_def)

lemma nextSubmissionState_Ok [go_ok]: "nextSubmissionState s t = Ok d \<longleftrightarrow> sub_step s t = Some d"
  by (auto simp: nextSubmissionState_def sub_step_def table_next_def split: option.splits)

interpretation sbl: abandonable sub_step sub_isTerminal SubmissionTransitionReject
proof
  show "sub_isTerminal s \<longleftrightarrow> (\<forall>t. sub_step s t = None)" for s
    using table_terminal_iff [OF sub_table_wf] by (simp add: sub_isTerminal_def sub_step_def)
  show "\<not> sub_isTerminal s \<Longrightarrow> \<exists>d. sub_step s SubmissionTransitionReject = Some d \<and> sub_isTerminal d" for s
    by (cases s) (simp_all add: sub_isTerminal_def sub_step_def table_next_def sub_table_def mget_def)
qed

subsection \<open>The service\<close>

record submission =
  sm_ID :: string
  sm_TenantID :: string
  sm_SubmitterEmail :: string
  sm_Manifest :: manifest
  sm_State :: sub_state
  sm_ReviewNotes :: string
  sm_SubmittedAt :: string
  sm_ReviewedAt :: string
  sm_Reviewer :: string

text \<open>The pattern of an address: a part without blanks before the only at-sign, and a part without blanks after it
  that has a dot inside.\<close>

definition email_char :: "char \<Rightarrow> bool" where
  "email_char c \<longleftrightarrow> c \<notin> {CHR '' '', CHR 0x09, CHR 0x0A, CHR 0x0C, CHR 0x0D}"

definition emailPattern :: "string \<Rightarrow> bool" where
  "emailPattern s =
     (case split_on CHR ''@'' s of
        [a, b] \<Rightarrow> a \<noteq> [] \<and> list_all email_char a \<and> list_all email_char b \<and> CHR ''.'' \<in> set (butlast (tl b))
      | _ \<Rightarrow> False)"

record ('s, 'c) review_ports =
  rp_create :: "submission \<Rightarrow> 's \<Rightarrow> 's \<times> (plugin_error + unit)"
  rp_get :: "string \<Rightarrow> 's \<Rightarrow> plugin_error + submission"
  rp_saveState :: "submission \<Rightarrow> 's \<Rightarrow> 's \<times> (plugin_error + unit)"
  rp_registerManifest :: "manifest \<Rightarrow> 'c \<Rightarrow> 'c \<times> (plugin_error + unit)"

record ('s, 'c) review_world =
  rv_subs :: 's
  rv_catalog :: 'c

text \<open>\<open>now\<close> is the text of the clock.\<close>

definition submission_submit ::
  "('s, 'c) review_ports \<Rightarrow> string \<Rightarrow> string \<Rightarrow> string \<Rightarrow> string \<Rightarrow> manifest \<Rightarrow> ('s, 'c) review_world
     \<Rightarrow> ('s, 'c) review_world \<times> (plugin_error + submission)" where
  "submission_submit p now tenantID submitterEmail i m w =
     (let i = trim_space i; tenantID = trim_space tenantID; submitterEmail = trim_space submitterEmail in
      if i = [] then (w, Err ErrSubmissionInvalid)
      else if tenantID = [] then (w, Err ErrSubmissionInvalid)
      else if \<not> emailPattern submitterEmail then (w, Err ErrSubmissionInvalid)
      else if manifest_validate m \<noteq> None then (w, Err ErrSubmissionInvalid)
      else
        let row = \<lparr>sm_ID = i, sm_TenantID = tenantID, sm_SubmitterEmail = submitterEmail, sm_Manifest = m,
              sm_State = SubmissionPendingReview, sm_ReviewNotes = [], sm_SubmittedAt = now, sm_ReviewedAt = [], sm_Reviewer = []\<rparr>
        in (case rp_create p row (rv_subs w) of
              (s, Err e) \<Rightarrow> (w\<lparr>rv_subs := s\<rparr>, Err e)
            | (s, Ok _) \<Rightarrow> (w\<lparr>rv_subs := s\<rparr>, Ok row)))"

definition submission_transition ::
  "('s, 'c) review_ports \<Rightarrow> string \<Rightarrow> string \<Rightarrow> sub_transition \<Rightarrow> string \<Rightarrow> string \<Rightarrow> ('s, 'c) review_world
     \<Rightarrow> ('s, 'c) review_world \<times> (plugin_error + submission)" where
  "submission_transition p now i t reviewer notes w =
     (let i = trim_space i; reviewer = trim_space reviewer in
      if i = [] then (w, Err ErrSubmissionInvalid)
      else if reviewer = [] then (w, Err ErrSubmissionInvalid)
      else case rp_get p i (rv_subs w) of
        Err e \<Rightarrow> (w, Err e)
      | Ok row \<Rightarrow>
     (case nextSubmissionState (sm_State row) t of
        Err e \<Rightarrow> (w, Err e)
      | Ok d \<Rightarrow>
     (let row = row\<lparr>sm_State := d, sm_ReviewNotes := notes, sm_Reviewer := reviewer, sm_ReviewedAt := now\<rparr>
      in case rp_saveState p row (rv_subs w) of
           (s, Err e) \<Rightarrow> (w\<lparr>rv_subs := s\<rparr>, Err e)
         | (s, Ok _) \<Rightarrow> (w\<lparr>rv_subs := s\<rparr>, Ok row))))"

definition submission_approve ::
  "('s, 'c) review_ports \<Rightarrow> string \<Rightarrow> string \<Rightarrow> string \<Rightarrow> string \<Rightarrow> ('s, 'c) review_world
     \<Rightarrow> ('s, 'c) review_world \<times> (plugin_error + submission)" where
  "submission_approve p now i reviewer notes w =
     (case submission_transition p now i SubmissionTransitionApprove reviewer notes w of
        (w, Err e) \<Rightarrow> (w, Err e)
      | (w, Ok row) \<Rightarrow>
     (case rp_registerManifest p (sm_Manifest row) (rv_catalog w) of
        (c, Err e) \<Rightarrow> (w\<lparr>rv_catalog := c\<rparr>, Err e)
      | (c, Ok _) \<Rightarrow> (w\<lparr>rv_catalog := c\<rparr>, Ok row)))"

definition submission_reject ::
  "('s, 'c) review_ports \<Rightarrow> string \<Rightarrow> string \<Rightarrow> string \<Rightarrow> string \<Rightarrow> ('s, 'c) review_world
     \<Rightarrow> ('s, 'c) review_world \<times> (plugin_error + submission)" where
  "submission_reject p now i reviewer notes w = submission_transition p now i SubmissionTransitionReject reviewer notes w"

subsection \<open>The in-memory repository\<close>

type_synonym submission_mem = "(string, submission) gomap"

definition subm_create :: "submission \<Rightarrow> submission_mem \<Rightarrow> submission_mem \<times> (plugin_error + unit)" where
  "subm_create row m = (if mget m (sm_ID row) \<noteq> None then (m, Err ErrSubmissionAlreadyExists) else (mput (sm_ID row) row m, Ok ()))"

definition subm_get :: "string \<Rightarrow> submission_mem \<Rightarrow> plugin_error + submission" where
  "subm_get i m = (case mget m i of None \<Rightarrow> Err ErrSubmissionNotFound | Some row \<Rightarrow> Ok row)"

definition subm_saveState :: "submission \<Rightarrow> submission_mem \<Rightarrow> submission_mem \<times> (plugin_error + unit)" where
  "subm_saveState row m = (if mget m (sm_ID row) = None then (m, Err ErrSubmissionNotFound) else (mput (sm_ID row) row m, Ok ()))"

text \<open>\<open>it\<close> is the order in which the run iterates over the rows.\<close>

definition subm_listPending ::
  "(submission list \<Rightarrow> submission list) \<Rightarrow> string \<Rightarrow> int \<Rightarrow> int \<Rightarrow> submission_mem \<Rightarrow> (submission list \<times> int) option" where
  "subm_listPending it tenantID page perPage m =
     (let rows = filter (\<lambda>row. \<not> sm_State row \<noteq> SubmissionPendingReview \<and> \<not> (tenantID \<noteq> [] \<and> sm_TenantID row \<noteq> tenantID)) (it (mvalues m));
          out = sort_key sm_SubmittedAt rows
      in map_option (\<lambda>xs. (xs, int (length out)))
           (page_slice (if page < 1 then 1 else page) (if perPage < 1 then 20 else perPage) out))"

definition mem_review :: "(submission_mem, plugin_mem) review_ports" where
  "mem_review = \<lparr>rp_create = subm_create, rp_get = subm_get, rp_saveState = subm_saveState, rp_registerManifest = mem_registerManifest\<rparr>"

subsection \<open>The contract of the repositories\<close>

text \<open>\<open>row\<close> is the submission of an identifier, \<open>cat\<close> the manifest of a slug.\<close>

locale review_store =
  fixes p :: "('s, 'c) review_ports"
    and row :: "'s \<Rightarrow> string \<Rightarrow> submission option"
    and cat :: "'c \<Rightarrow> string \<Rightarrow> manifest option"
  assumes get: "rp_get p i s = (case row s i of None \<Rightarrow> Err ErrSubmissionNotFound | Some r \<Rightarrow> Ok r)"
    and create: "row s (sm_ID r) = None \<Longrightarrow> \<exists>s'. rp_create p r s = (s', Ok ()) \<and> row s' = (row s)(sm_ID r \<mapsto> r)"
    and create_taken: "row s (sm_ID r) \<noteq> None \<Longrightarrow> rp_create p r s = (s, Err ErrSubmissionAlreadyExists)"
    and save: "row s (sm_ID r) \<noteq> None \<Longrightarrow> \<exists>s'. rp_saveState p r s = (s', Ok ()) \<and> row s' = (row s)(sm_ID r \<mapsto> r)"
    and register: "cat c (mf_Slug m) = None \<Longrightarrow> \<exists>c'. rp_registerManifest p m c = (c', Ok ()) \<and> cat c' = (cat c)(mf_Slug m \<mapsto> m)"
    and register_taken: "cat c (mf_Slug m) \<noteq> None \<Longrightarrow> rp_registerManifest p m c = (c, Err ErrSlugAlreadyExists)"

datatype review_call =
    CallSubmit string string string string manifest
  | CallApprove string string string string
  | CallReject string string string string

definition run_review_call ::
  "('s, 'c) review_ports \<Rightarrow> review_call \<Rightarrow> ('s, 'c) review_world \<Rightarrow> ('s, 'c) review_world \<times> (plugin_error + submission)" where
  "run_review_call p c w =
     (case c of
        CallSubmit now tenantID email i m \<Rightarrow> submission_submit p now tenantID email i m w
      | CallApprove now i reviewer notes \<Rightarrow> submission_approve p now i reviewer notes w
      | CallReject now i reviewer notes \<Rightarrow> submission_reject p now i reviewer notes w)"

fun run_review_calls :: "('s, 'c) review_ports \<Rightarrow> review_call list \<Rightarrow> ('s, 'c) review_world \<Rightarrow> ('s, 'c) review_world" where
  "run_review_calls p [] w = w"
| "run_review_calls p (c # cs) w = run_review_calls p cs (fst (run_review_call p c w))"

text \<open>A submission that was decided: only its state, its notes, its reviewer and its time of review have changed.\<close>

definition decided :: "sub_state \<Rightarrow> submission \<Rightarrow> submission \<Rightarrow> bool" where
  "decided d r r' \<longleftrightarrow> sm_State r = SubmissionPendingReview \<and> sm_Reviewer r' \<noteq> []
     \<and> r' = r\<lparr>sm_State := d, sm_ReviewNotes := sm_ReviewNotes r', sm_Reviewer := sm_Reviewer r', sm_ReviewedAt := sm_ReviewedAt r'\<rparr>"

lemma decided_sel:
  "decided d r r' \<Longrightarrow> sm_ID r' = sm_ID r \<and> sm_Manifest r' = sm_Manifest r \<and> sm_TenantID r' = sm_TenantID r
     \<and> sm_State r' = d \<and> sm_State r = SubmissionPendingReview \<and> sm_Reviewer r' \<noteq> []"
proof -
  assume d: "decided d r r'"
  then obtain a b c where r': "r' = r\<lparr>sm_State := d, sm_ReviewNotes := a, sm_Reviewer := b, sm_ReviewedAt := c\<rparr>" unfolding decided_def by blast
  have "sm_ID r' = sm_ID r \<and> sm_Manifest r' = sm_Manifest r \<and> sm_TenantID r' = sm_TenantID r \<and> sm_State r' = d" unfolding r' by simp
  then show ?thesis using d unfolding decided_def by blast
qed

lemma sub_step_pending: "sub_step s t = Some d \<longleftrightarrow> s = SubmissionPendingReview
    \<and> d = (case t of SubmissionTransitionApprove \<Rightarrow> SubmissionApproved | SubmissionTransitionReject \<Rightarrow> SubmissionRejected)"
  by (cases s; cases t) (auto simp: sub_step_def table_next_def sub_table_def mget_def)

context review_store
begin

definition sound :: "('s, 'c) review_world \<Rightarrow> bool" where
  "sound w \<longleftrightarrow>
     (\<forall>i r. row (rv_subs w) i = Some r \<longrightarrow> sm_ID r = i \<and> manifest_validate (sm_Manifest r) = None
        \<and> (sm_State r \<noteq> SubmissionPendingReview \<longrightarrow> sm_Reviewer r \<noteq> [])
        \<and> (sm_State r = SubmissionApproved \<longrightarrow> cat (rv_catalog w) (mf_Slug (sm_Manifest r)) \<noteq> None))
     \<and> (\<forall>g m. cat (rv_catalog w) g = Some m \<longrightarrow> mf_Slug m = g
          \<and> (\<exists>i r. row (rv_subs w) i = Some r \<and> sm_State r = SubmissionApproved \<and> sm_Manifest r = m))"

lemma sound_row:
  "sound w \<Longrightarrow> row (rv_subs w) i = Some r \<Longrightarrow> sm_ID r = i \<and> manifest_validate (sm_Manifest r) = None"
  unfolding sound_def by blast

text \<open>What each call can do.\<close>

definition effect :: "review_call \<Rightarrow> ('s, 'c) review_world \<Rightarrow> ('s, 'c) review_world \<Rightarrow> plugin_error + submission \<Rightarrow> bool" where
  "effect c w w' res \<longleftrightarrow>
     (w' = w \<and> \<not> is_ok res)
   \<or> (\<exists>i r. row (rv_subs w) i = None \<and> sm_ID r = i \<and> sm_State r = SubmissionPendingReview
        \<and> manifest_validate (sm_Manifest r) = None \<and> res = Ok r
        \<and> row (rv_subs w') = (row (rv_subs w))(i \<mapsto> r) \<and> rv_catalog w' = rv_catalog w)
   \<or> (\<exists>i r r'. row (rv_subs w) i = Some r \<and> row (rv_subs w') = (row (rv_subs w))(i \<mapsto> r')
        \<and> (decided SubmissionRejected r r' \<and> res = Ok r' \<and> rv_catalog w' = rv_catalog w
         \<or> decided SubmissionApproved r r' \<and>
           (if cat (rv_catalog w) (mf_Slug (sm_Manifest r)) = None
            then res = Ok r' \<and> cat (rv_catalog w') = (cat (rv_catalog w))(mf_Slug (sm_Manifest r) \<mapsto> sm_Manifest r)
            else res = Err ErrSlugAlreadyExists \<and> rv_catalog w' = rv_catalog w)))"

lemma submission_effect:
  assumes "submission_submit p now tenantID email i m w = (w', res)"
  shows "effect (CallSubmit now tenantID email i m) w w' res"
proof (cases "trim_space i \<noteq> [] \<and> trim_space tenantID \<noteq> [] \<and> emailPattern (trim_space email) \<and> manifest_validate m = None")
  case False
  then have "w' = w \<and> \<not> is_ok res" using assms by (auto simp: submission_submit_def Let_def split: if_splits)
  then show ?thesis by (simp add: effect_def)
next
  case True
  define r where "r = \<lparr>sm_ID = trim_space i, sm_TenantID = trim_space tenantID, sm_SubmitterEmail = trim_space email, sm_Manifest = m,
     sm_State = SubmissionPendingReview, sm_ReviewNotes = [], sm_SubmittedAt = now, sm_ReviewedAt = [], sm_Reviewer = []\<rparr>"
  have r: "sm_ID r = trim_space i" "sm_State r = SubmissionPendingReview" "sm_Manifest r = m" by (simp_all add: r_def)
  have run: "(case rp_create p r (rv_subs w) of (s, Err e) \<Rightarrow> (w\<lparr>rv_subs := s\<rparr>, Err e) | (s, Ok _) \<Rightarrow> (w\<lparr>rv_subs := s\<rparr>, Ok r)) = (w', res)"
    using assms True unfolding submission_submit_def Let_def r_def by simp
  show ?thesis
  proof (cases "row (rv_subs w) (sm_ID r)")
    case None
    then obtain s where "rp_create p r (rv_subs w) = (s, Ok ())" "row s = (row (rv_subs w))(sm_ID r \<mapsto> r)" using create by blast
    then have "w' = w\<lparr>rv_subs := s\<rparr>" "res = Ok r" "row s = (row (rv_subs w))(sm_ID r \<mapsto> r)" using run by auto
    then show ?thesis using None r True unfolding effect_def by auto
  next
    case (Some old)
    then show ?thesis using run create_taken [of "rv_subs w" r] by (auto simp: effect_def)
  qed
qed

lemma transition_effect:
  assumes ok: "sound w" and run: "submission_transition p now i t reviewer notes w = (w', res)"
  shows "(w' = w \<and> \<not> is_ok res)
    \<or> (\<exists>j r r'. row (rv_subs w) j = Some r \<and> row (rv_subs w') = (row (rv_subs w))(j \<mapsto> r') \<and> res = Ok r' \<and> rv_catalog w' = rv_catalog w
        \<and> decided (case t of SubmissionTransitionApprove \<Rightarrow> SubmissionApproved | SubmissionTransitionReject \<Rightarrow> SubmissionRejected) r r')"
proof (cases "\<exists>r d. trim_space i \<noteq> [] \<and> trim_space reviewer \<noteq> [] \<and> row (rv_subs w) (trim_space i) = Some r \<and> sub_step (sm_State r) t = Some d")
  case False
  then have "w' = w \<and> \<not> is_ok res"
    using run by (auto simp: submission_transition_def Let_def get nextSubmissionState_Ok split: if_splits option.splits sum.splits)
  then show ?thesis ..
next
  case True
  then obtain r d where r: "trim_space i \<noteq> []" "trim_space reviewer \<noteq> []" "row (rv_subs w) (trim_space i) = Some r" "sub_step (sm_State r) t = Some d"
    by blast
  define r' where "r' = r\<lparr>sm_State := d, sm_ReviewNotes := notes, sm_Reviewer := trim_space reviewer, sm_ReviewedAt := now\<rparr>"
  have i: "sm_ID r' = trim_space i" using sound_row [OF ok r(3)] by (simp add: r'_def)
  then have "row (rv_subs w) (sm_ID r') \<noteq> None" using r(3) by simp
  then obtain s where s: "rp_saveState p r' (rv_subs w) = (s, Ok ())" "row s = (row (rv_subs w))(trim_space i \<mapsto> r')"
    using save [of "rv_subs w" r'] i by auto
  have n: "nextSubmissionState (sm_State r) t = Ok d" using r(4) by (simp add: nextSubmissionState_Ok)
  have "submission_transition p now i t reviewer notes w = (w\<lparr>rv_subs := s\<rparr>, Ok r')"
    using r(1-3) n s(1) unfolding submission_transition_def Let_def r'_def by (simp add: get)
  then have w': "w' = w\<lparr>rv_subs := s\<rparr>" "res = Ok r'" using run by simp_all
  have "decided d r r'" using r(2,4) by (simp add: decided_def r'_def sub_step_pending)
  then show ?thesis using w' s(2) r(3,4) by (auto simp: sub_step_pending)
qed

lemma effect_approved:
  assumes "row (rv_subs w) i = Some r" "row (rv_subs w') = (row (rv_subs w))(i \<mapsto> r')" "decided SubmissionApproved r r'"
    and "if cat (rv_catalog w) (mf_Slug (sm_Manifest r)) = None
      then res = Ok r' \<and> cat (rv_catalog w') = (cat (rv_catalog w))(mf_Slug (sm_Manifest r) \<mapsto> sm_Manifest r)
      else res = Err ErrSlugAlreadyExists \<and> rv_catalog w' = rv_catalog w"
  shows "effect c w w' res"
  unfolding effect_def using assms by blast

lemma call_effect:
  assumes ok: "sound w" and run: "run_review_call p c w = (w', res)"
  shows "effect c w w' res"
proof (cases c)
  case (CallSubmit now tenantID email i m)
  then show ?thesis using submission_effect run by (simp add: run_review_call_def)
next
  case (CallReject now i reviewer nt)
  then have "submission_transition p now i SubmissionTransitionReject reviewer nt w = (w', res)"
    using run by (simp add: run_review_call_def submission_reject_def)
  from transition_effect [OF ok this] show ?thesis unfolding effect_def sub_transition.case by blast
next
  case (CallApprove now i reviewer nt)
  obtain w1 r1 where t: "submission_transition p now i SubmissionTransitionApprove reviewer nt w = (w1, r1)" by force
  have run': "submission_approve p now i reviewer nt w = (w', res)" using run CallApprove by (simp add: run_review_call_def)
  from transition_effect [OF ok t, unfolded sub_transition.case] show ?thesis
  proof
    assume "w1 = w \<and> \<not> is_ok r1"
    then have "w' = w \<and> \<not> is_ok res" using run' t by (cases r1) (auto simp: submission_approve_def)
    then show ?thesis by (simp add: effect_def)
  next
    assume "\<exists>j r r'. row (rv_subs w) j = Some r \<and> row (rv_subs w1) = (row (rv_subs w))(j \<mapsto> r') \<and> r1 = Ok r' \<and> rv_catalog w1 = rv_catalog w
        \<and> decided SubmissionApproved r r'"
    then obtain j r r' where r: "row (rv_subs w) j = Some r" "row (rv_subs w1) = (row (rv_subs w))(j \<mapsto> r')" "r1 = Ok r'"
      "rv_catalog w1 = rv_catalog w" and d: "decided SubmissionApproved r r'" by blast
    have m: "sm_Manifest r' = sm_Manifest r" using decided_sel [OF d] by simp
    show ?thesis
    proof (cases "cat (rv_catalog w) (mf_Slug (sm_Manifest r))")
      case None
      then obtain c' where c': "rp_registerManifest p (sm_Manifest r) (rv_catalog w) = (c', Ok ())"
        "cat c' = (cat (rv_catalog w))(mf_Slug (sm_Manifest r) \<mapsto> sm_Manifest r)" using register by blast
      then have "w' = w1\<lparr>rv_catalog := c'\<rparr>" "res = Ok r'" using run' t r(3,4) m by (simp_all add: submission_approve_def)
      then show ?thesis using r(2) None c'(2) by (intro effect_approved [OF r(1) _ d]) simp_all
    next
      case (Some m')
      have "rp_registerManifest p (sm_Manifest r) (rv_catalog w) = (rv_catalog w, Err ErrSlugAlreadyExists)" using register_taken Some by blast
      then have "rv_subs w' = rv_subs w1" "rv_catalog w' = rv_catalog w" "res = Err ErrSlugAlreadyExists"
        using run' t r(3,4) m by (auto simp: submission_approve_def)
      then show ?thesis using r(2) Some by (intro effect_approved [OF r(1) _ d]) simp_all
    qed
  qed
qed

lemma sound_new:
  assumes ok: "sound w" and r: "row (rv_subs w) i = None" "sm_ID r = i" "sm_State r = SubmissionPendingReview" "manifest_validate (sm_Manifest r) = None"
    and w': "row (rv_subs w') = (row (rv_subs w))(i \<mapsto> r)" "rv_catalog w' = rv_catalog w"
  shows "sound w'"
proof -
  have "\<exists>j r'. row (rv_subs w') j = Some r' \<and> sm_State r' = SubmissionApproved \<and> sm_Manifest r' = m" if "cat (rv_catalog w) g = Some m" for g m
  proof -
    obtain j r' where j: "row (rv_subs w) j = Some r'" "sm_State r' = SubmissionApproved" "sm_Manifest r' = m"
      using ok \<open>cat (rv_catalog w) g = Some m\<close> unfolding sound_def by blast
    then have "row (rv_subs w') j = Some r'" using r(1) w'(1) by (cases "j = i") simp_all
    then show ?thesis using j by blast
  qed
  then show ?thesis using ok r w' unfolding sound_def by (auto split: if_splits)
qed

lemma sound_decided:
  assumes ok: "sound w" and r: "row (rv_subs w) i = Some r" and d: "decided d r r'"
    and w': "row (rv_subs w') = (row (rv_subs w))(i \<mapsto> r')"
    and c: "d = SubmissionApproved \<and> cat (rv_catalog w') = (cat (rv_catalog w))(mf_Slug (sm_Manifest r) \<mapsto> sm_Manifest r)
      \<or> rv_catalog w' = rv_catalog w \<and> (d = SubmissionApproved \<longrightarrow> cat (rv_catalog w) (mf_Slug (sm_Manifest r)) \<noteq> None)"
  shows "sound w'"
proof -
  note s = decided_sel [OF d] and v = sound_row [OF ok r]
  have new: "row (rv_subs w') i = Some r'" using w' by simp
  have cat: "cat (rv_catalog w') g \<noteq> None" if "cat (rv_catalog w) g \<noteq> None" for g using c that by auto
  have "\<exists>j q. row (rv_subs w') j = Some q \<and> sm_State q = SubmissionApproved \<and> sm_Manifest q = m"
    and "mf_Slug m = g" if m: "cat (rv_catalog w') g = Some m" for g m
  proof -
    have "(g = mf_Slug (sm_Manifest r) \<and> m = sm_Manifest r \<and> d = SubmissionApproved) \<or> cat (rv_catalog w) g = Some m"
      using c m by (auto split: if_splits)
    then show "mf_Slug m = g" using ok unfolding sound_def by blast
    show "\<exists>j q. row (rv_subs w') j = Some q \<and> sm_State q = SubmissionApproved \<and> sm_Manifest q = m"
    proof (cases "cat (rv_catalog w) g = Some m")
      case True
      then obtain j q where q: "row (rv_subs w) j = Some q" "sm_State q = SubmissionApproved" "sm_Manifest q = m"
        using ok unfolding sound_def by blast
      then have "j \<noteq> i" using r s by auto
      then show ?thesis using q w' by auto
    next
      case False
      then have "m = sm_Manifest r" "d = SubmissionApproved" using c m by (auto split: if_splits)
      then show ?thesis using new s by auto
    qed
  qed
  moreover have "sm_ID q = j \<and> manifest_validate (sm_Manifest q) = None \<and> (sm_State q \<noteq> SubmissionPendingReview \<longrightarrow> sm_Reviewer q \<noteq> [])
      \<and> (sm_State q = SubmissionApproved \<longrightarrow> cat (rv_catalog w') (mf_Slug (sm_Manifest q)) \<noteq> None)" if q: "row (rv_subs w') j = Some q" for j q
  proof (cases "j = i")
    case True
    then have "q = r'" using q w' by simp
    then show ?thesis using True s v c by auto
  next
    case False
    then have "row (rv_subs w) j = Some q" using q w' by simp
    then show ?thesis using ok cat unfolding sound_def by blast
  qed
  ultimately show ?thesis unfolding sound_def by blast
qed

lemma effect_cases:
  assumes "effect c w w' res"
  obtains "w' = w" "\<not> is_ok res"
  | i r where "row (rv_subs w) i = None" "sm_ID r = i" "sm_State r = SubmissionPendingReview" "manifest_validate (sm_Manifest r) = None"
      "row (rv_subs w') = (row (rv_subs w))(i \<mapsto> r)" "rv_catalog w' = rv_catalog w"
  | i r r' d where "row (rv_subs w) i = Some r" "d \<noteq> SubmissionPendingReview" "decided d r r'" "row (rv_subs w') = (row (rv_subs w))(i \<mapsto> r')"
      "d = SubmissionApproved \<and> cat (rv_catalog w') = (cat (rv_catalog w))(mf_Slug (sm_Manifest r) \<mapsto> sm_Manifest r)
      \<or> rv_catalog w' = rv_catalog w \<and> (d = SubmissionApproved \<longrightarrow> cat (rv_catalog w) (mf_Slug (sm_Manifest r)) \<noteq> None)"
  using assms unfolding effect_def
proof (elim disjE exE conjE, goal_cases)
  case (3 i r r')
  then show ?case using 3(3) [of i r SubmissionRejected r'] by simp
next
  case (4 i r r')
  show ?case by (rule 4(3) [OF 4(4) _ 4(6,5)]) (use 4(7) in \<open>simp_all split: if_splits\<close>)
qed blast+

lemma call_sound:
  assumes ok: "sound w" and run: "run_review_call p c w = (w', res)"
  shows "sound w'"
  using call_effect [OF ok run]
  by (cases rule: effect_cases) (use ok sound_new [OF ok] sound_decided [OF ok] in blast)+

lemma calls_sound: "sound w \<Longrightarrow> sound (run_review_calls p cs w)"
proof (induction cs arbitrary: w)
  case (Cons c cs)
  obtain w' res where "run_review_call p c w = (w', res)" by force
  with call_sound [OF Cons.prems this] Cons.IH show ?case by simp
qed simp

text \<open>A row stays, and a decided one stays as it is.\<close>

definition later :: "submission \<Rightarrow> submission \<Rightarrow> bool" where
  "later r r' \<longleftrightarrow> r' = r \<or> (\<exists>d. d \<noteq> SubmissionPendingReview \<and> decided d r r')"

lemma call_row:
  assumes ok: "sound w" and run: "run_review_call p c w = (w', res)" and r: "row (rv_subs w) i = Some r"
  shows "\<exists>r'. row (rv_subs w') i = Some r' \<and> later r r'"
  using call_effect [OF ok run]
proof (cases rule: effect_cases)
  case (3 j q q' d)
  then show ?thesis using r by (cases "j = i") (auto simp: later_def)
qed (use r in \<open>auto simp: later_def\<close>)

lemma calls_row:
  "sound w \<Longrightarrow> row (rv_subs w) i = Some r \<Longrightarrow> \<exists>r'. row (rv_subs (run_review_calls p cs w)) i = Some r' \<and> later r r'"
proof (induction cs arbitrary: w r)
  case Nil
  then show ?case by (simp add: later_def)
next
  case (Cons c cs)
  obtain w' res where run: "run_review_call p c w = (w', res)" by force
  obtain r' where r': "row (rv_subs w') i = Some r'" "later r r'" using call_row [OF Cons.prems(1) run Cons.prems(2)] by blast
  obtain r'' where r'': "row (rv_subs (run_review_calls p cs w')) i = Some r''" "later r' r''"
    using Cons.IH [OF call_sound [OF Cons.prems(1) run] r'(1)] by blast
  have "later r r''" using r'(2) r''(2) unfolding later_def by (metis decided_sel)
  then show ?case using r''(1) run by auto
qed

end

subsection \<open>The repositories in memory\<close>

interpretation mss: review_store mem_review mget "\<lambda>c. mget (pm_bySlug c)"
  by unfold_locales
    (auto simp: mem_review_def subm_get_def subm_create_def subm_saveState_def mem_registerManifest_def fun_eq_iff split: option.splits)

definition newReview :: "(submission_mem, plugin_mem) review_world" where
  "newReview = \<lparr>rv_subs = [], rv_catalog = \<lparr>pm_bySlug = [], pm_ins = [], pm_subs = []\<rparr>\<rparr>"

lemma review_start: "mss.sound newReview"
  by (simp add: mss.sound_def newReview_def)

lemmas review_sound = mss.calls_sound [OF review_start]


text \<open>A decision on a submission is final. In every history a submission that was approved or rejected is never
  changed again, and one under review keeps its plugin and its tenant.\<close>

theorem decision_is_final:
  "let w = run_review_calls mem_review cs newReview; w' = run_review_calls mem_review later_calls w
   in case mget (rv_subs w) i of
        None \<Rightarrow> True
      | Some r \<Rightarrow>
          (case mget (rv_subs w') i of
             None \<Rightarrow> False
           | Some r' \<Rightarrow> (if sm_State r = SubmissionPendingReview
               then sm_Manifest r' = sm_Manifest r \<and> sm_TenantID r' = sm_TenantID r
                 \<and> (if sm_State r' = SubmissionPendingReview then r' = r else sm_Reviewer r' \<noteq> [])
               else r' = r))"
proof -
  define w where "w = run_review_calls mem_review cs newReview"
  have ok: "mss.sound w" using review_sound by (simp add: w_def)
  show ?thesis
  proof (cases "mget (rv_subs w) i")
    case (Some r)
    obtain r' where r': "mget (rv_subs (run_review_calls mem_review later_calls w)) i = Some r'" "mss.later r r'"
      using mss.calls_row [OF ok Some] by blast
    show ?thesis using r'(2) unfolding Let_def w_def [symmetric] Some r'(1) option.case mss.later_def
      by (auto dest: decided_sel)
  qed (simp add: w_def)
qed

text \<open>Approving a plugin whose slug is taken reports an error and approves it. The submission is approved for good
  although nothing was published, and every later call leaves it so.\<close>

theorem taken_slug_approved_unpublished:
  assumes w: "w = run_review_calls mem_review cs newReview"
    and r: "mget (rv_subs w) i = Some r" "sm_State r = SubmissionPendingReview" "trim_space i = i" "i \<noteq> []" "trim_space reviewer \<noteq> []"
    and taken: "mget (pm_bySlug (rv_catalog w)) (mf_Slug (sm_Manifest r)) \<noteq> None"
  shows "\<exists>w' r'. submission_approve mem_review now i reviewer nt w = (w', Err ErrSlugAlreadyExists)
    \<and> rv_catalog w' = rv_catalog w \<and> sm_State r' = SubmissionApproved
    \<and> mget (rv_subs (run_review_calls mem_review later_calls w')) i = Some r'"
proof -
  let ?r = "r\<lparr>sm_State := SubmissionApproved, sm_ReviewNotes := nt, sm_Reviewer := trim_space reviewer, sm_ReviewedAt := now\<rparr>"
  have ok: "mss.sound w" using review_sound w by simp
  have i: "sm_ID r = i" using mss.sound_row [OF ok r(1)] by simp
  have n: "nextSubmissionState SubmissionPendingReview SubmissionTransitionApprove = Ok SubmissionApproved" by code_simp
  obtain m where m: "mget (pm_bySlug (rv_catalog w)) (mf_Slug (sm_Manifest r)) = Some m" using taken by blast
  let ?w = "w\<lparr>rv_subs := mput i ?r (rv_subs w)\<rparr>"
  have t: "submission_transition mem_review now i SubmissionTransitionApprove reviewer nt w = (?w, Ok ?r)"
    using r i n by (simp add: submission_transition_def Let_def mem_review_def subm_get_def subm_saveState_def)
  have run: "submission_approve mem_review now i reviewer nt w = (?w, Err ErrSlugAlreadyExists)"
    using m unfolding submission_approve_def t prod.case sum.case by (simp add: mem_review_def mem_registerManifest_def)
  then have "run_review_call mem_review (CallApprove now i reviewer nt) w = (?w, Err ErrSlugAlreadyExists)"
    by (simp add: run_review_call_def)
  from mss.call_sound [OF ok this] have ok': "mss.sound ?w" .
  have row: "mget (rv_subs ?w) i = Some ?r" by simp
  obtain r' where r': "mget (rv_subs (run_review_calls mem_review later_calls ?w)) i = Some r'" "mss.later ?r r'"
    using mss.calls_row [OF ok' row] by blast
  have "sm_State r' = SubmissionApproved" using r'(2) by (auto simp: mss.later_def dest: decided_sel)
  then show ?thesis using run r'(1) by (intro exI [of _ ?w] exI [of _ r']) simp
qed

definition two_submissions :: "review_call list" where
  "two_submissions =
     [CallSubmit ''t0'' ''acme'' ''dev@acme.example'' ''sub-1'' (sample_plugin ''tax'' []),
      CallSubmit ''t1'' ''other'' ''dev@other.example'' ''sub-2'' (sample_plugin ''tax'' []),
      CallApprove ''t2'' ''sub-1'' ''root'' []]"

theorem taken_slug_approved_unpublished_witness:
  "\<exists>w w' r'. w = run_review_calls mem_review two_submissions newReview
    \<and> submission_approve mem_review ''t3'' ''sub-2'' ''root'' [] w = (w', Err ErrSlugAlreadyExists)
    \<and> sm_State r' = SubmissionApproved
    \<and> mget (rv_subs (run_review_calls mem_review [CallReject ''t4'' ''sub-2'' ''root'' []] w')) ''sub-2'' = Some r'"
proof -
  let ?w = "run_review_calls mem_review two_submissions newReview"
  have c: "map_option sm_State (mget (rv_subs ?w) ''sub-2'') = Some SubmissionPendingReview"
    "map_option (\<lambda>r. mget (pm_bySlug (rv_catalog ?w)) (mf_Slug (sm_Manifest r)) \<noteq> None) (mget (rv_subs ?w) ''sub-2'') = Some True"
    "trim_space ''sub-2'' = ''sub-2''" "trim_space ''root'' \<noteq> []"
    by code_simp+
  then obtain r where r: "mget (rv_subs ?w) ''sub-2'' = Some r" "sm_State r = SubmissionPendingReview"
    "mget (pm_bySlug (rv_catalog ?w)) (mf_Slug (sm_Manifest r)) \<noteq> None" by auto
  from taken_slug_approved_unpublished [OF refl r(1,2) c(3) _ c(4) r(3), of "''t3''" "[]" "[CallReject ''t4'' ''sub-2'' ''root'' []]"]
  show ?thesis by blast
qed

end
