(* ===== verification/Quota.thy ===== *)
theory Quota
  imports Go_Prelude
begin

text \<open>
  Limits and usage of tenants: the quota enforcer of \<open>internal/quota\<close>, which counts in buckets named after the
  tenant, the metric and the minute or day, and the usage meter of \<open>internal/billing/usage.go\<close>, which sums
  recorded values over a period.
\<close>

subsection \<open>Dates\<close>

text \<open>The civil date of a time, in the proleptic Gregorian calendar of \<open>time.Time\<close>: the day is counted from
  the first of January of the year 1, in cycles of 400, 100, 4 and 1 years, the last of a century or of four
  years being longer by one day.\<close>

definition day_number :: "gotime \<Rightarrow> int" where "day_number t = t div (86400 * 10 ^ 9)"
definition minute_number :: "gotime \<Rightarrow> int" where "minute_number t = t div (60 * 10 ^ 9)"

definition is_leap :: "int \<Rightarrow> bool" where "is_leap y \<longleftrightarrow> y mod 4 = 0 \<and> (y mod 100 \<noteq> 0 \<or> y mod 400 = 0)"

definition year_day :: "int \<Rightarrow> int \<times> int" where
  "year_day days =
     (let d = days + 719162; n400 = d div 146097; d = d mod 146097;
          n = d div 36524; n100 = n - n div 4; d = d - 36524 * n100;
          n4 = d div 1461; d = d mod 1461;
          n = d div 365; n1 = n - n div 4
      in (400 * n400 + 100 * n100 + 4 * n4 + n1 + 1, d - 365 * n1))"

definition days_before :: "int list" where "days_before = [0, 31, 59, 90, 120, 151, 181, 212, 243, 273, 304, 334, 365]"

definition month_day :: "bool \<Rightarrow> int \<Rightarrow> int \<times> int" where
  "month_day leap yday =
     (if leap \<and> yday = 59 then (2, 29)
      else let d = (if leap \<and> 59 < yday then yday - 1 else yday); m = d div 31 in
        if days_before ! nat (m + 1) \<le> d then (m + 2, d - days_before ! nat (m + 1) + 1)
        else (m + 1, d - days_before ! nat m + 1))"

definition civil_date :: "int \<Rightarrow> int \<times> int \<times> int" where
  "civil_date days = (case year_day days of (y, yday) \<Rightarrow> (y, month_day (is_leap y) yday))"

definition pad_int :: "nat \<Rightarrow> int \<Rightarrow> string" where
  "pad_int width n =
     (let ds = format_nat (nat \<bar>n\<bar>) in (if n < 0 then ''-'' else []) @ replicate (width - length ds) CHR ''0'' @ ds)"

definition format_day :: "gotime \<Rightarrow> string" where
  "format_day t = (case civil_date (day_number t) of (y, m, d) \<Rightarrow> pad_int 4 y @ ''-'' @ pad_int 2 m @ ''-'' @ pad_int 2 d)"

definition format_minute :: "gotime \<Rightarrow> string" where
  "format_minute t =
     (let n = minute_number t mod 1440 in format_day t @ ''T'' @ pad_int 2 (n div 60) @ '':'' @ pad_int 2 (n mod 60))"

subsection \<open>The quota\<close>

datatype quota_error = ErrQuotaExceeded | ErrQuotaTenantRequired

datatype metric = MetricAPIPerMinute | MetricAgentRunsPerDay | MetricStorageBytes | MetricPluginCount | MetricOther string

fun metric_string :: "metric \<Rightarrow> string" where
  "metric_string MetricAPIPerMinute = ''api.requests.per_minute''"
| "metric_string MetricAgentRunsPerDay = ''agent.runs.per_day''"
| "metric_string MetricStorageBytes = ''storage.bytes''"
| "metric_string MetricPluginCount = ''plugin.count''"
| "metric_string (MetricOther s) = s"

record quota_policy =
  qp_APIRatePerMinute :: int
  qp_AgentRunsPerDay :: int
  qp_StorageBytes :: int
  qp_PluginCount :: int

fun quota_limit :: "quota_policy \<Rightarrow> metric \<Rightarrow> int" where
  "quota_limit p MetricAPIPerMinute = qp_APIRatePerMinute p"
| "quota_limit p MetricAgentRunsPerDay = qp_AgentRunsPerDay p"
| "quota_limit p MetricStorageBytes = qp_StorageBytes p"
| "quota_limit p MetricPluginCount = qp_PluginCount p"
| "quota_limit p (MetricOther _) = 0"

definition policyFromLimits :: "int \<Rightarrow> int \<Rightarrow> int \<Rightarrow> int \<Rightarrow> quota_policy" where
  "policyFromLimits apiPerMinute agentRunsPerDay storageBytes pluginCount =
     \<lparr>qp_APIRatePerMinute = apiPerMinute, qp_AgentRunsPerDay = agentRunsPerDay, qp_StorageBytes = storageBytes, qp_PluginCount = pluginCount\<rparr>"

definition bucketKey :: "string \<Rightarrow> metric \<Rightarrow> gotime \<Rightarrow> string" where
  "bucketKey tenantID m now =
     (case m of
        MetricAPIPerMinute \<Rightarrow> tenantID @ ''|'' @ metric_string m @ ''|'' @ format_minute now
      | MetricAgentRunsPerDay \<Rightarrow> tenantID @ ''|'' @ metric_string m @ ''|'' @ format_day now
      | _ \<Rightarrow> tenantID @ ''|'' @ metric_string m)"

type_synonym quota_buckets = "(string, int) gomap"

definition bucket_value :: "quota_buckets \<Rightarrow> string \<Rightarrow> int" where
  "bucket_value b k = (case mget b k of None \<Rightarrow> 0 | Some v \<Rightarrow> v)"

definition checkAndIncrement :: "string \<Rightarrow> metric \<Rightarrow> int \<Rightarrow> quota_policy \<Rightarrow> gotime \<Rightarrow> quota_buckets \<Rightarrow> quota_buckets \<times> quota_error option" where
  "checkAndIncrement tenantID m delta policy now b =
     (if tenantID = [] then (b, Some ErrQuotaTenantRequired)
      else
        let delta = (if delta \<le> 0 then 1 else delta); limit = quota_limit policy m in
        if limit \<le> 0 then (b, None)
        else
          let k = bucketKey tenantID m now; current = bucket_value b k in
          if limit < add64 current delta then (b, Some ErrQuotaExceeded)
          else (mput k (add64 current delta) b, None))"

definition quota_snapshot :: "string \<Rightarrow> metric \<Rightarrow> gotime \<Rightarrow> quota_buckets \<Rightarrow> int" where
  "quota_snapshot tenantID m now b = bucket_value b (bucketKey tenantID m now)"

subsection \<open>The usage meter\<close>

datatype usage_error = ErrUsageTenantRequired | ErrUsageMetricRequired | ErrUsageMeterRequired

record usage_row =
  ur_Metric :: string
  ur_Value :: int
  ur_At :: gotime

type_synonym usage_meter = "(string, usage_row list) gomap"

definition usage_rows :: "usage_meter \<Rightarrow> string \<Rightarrow> usage_row list" where
  "usage_rows m tenantID = (case mget m tenantID of None \<Rightarrow> [] | Some rows \<Rightarrow> rows)"

definition usage_record :: "string \<Rightarrow> string \<Rightarrow> int \<Rightarrow> gotime \<Rightarrow> gotime \<Rightarrow> usage_meter \<Rightarrow> usage_meter \<times> usage_error option" where
  "usage_record tenantID metric v at now m =
     (if tenantID = [] then (m, Some ErrUsageTenantRequired)
      else if metric = [] then (m, Some ErrUsageMetricRequired)
      else (mput tenantID (usage_rows m tenantID @ [\<lparr>ur_Metric = metric, ur_Value = v, ur_At = or_now now at\<rparr>]) m, None))"

fun usage_total :: "string \<Rightarrow> gotime \<Rightarrow> gotime \<Rightarrow> usage_row list \<Rightarrow> int \<Rightarrow> int" where
  "usage_total metric periodStart periodEnd [] acc = acc"
| "usage_total metric periodStart periodEnd (row # rows) acc =
     (if ur_Metric row \<noteq> metric then usage_total metric periodStart periodEnd rows acc
      else if \<not> time_is_zero periodStart \<and> ur_At row < periodStart then usage_total metric periodStart periodEnd rows acc
      else if \<not> time_is_zero periodEnd \<and> periodEnd < ur_At row then usage_total metric periodStart periodEnd rows acc
      else usage_total metric periodStart periodEnd rows (add64 acc (ur_Value row)))"

definition usage_sum :: "string \<Rightarrow> string \<Rightarrow> gotime \<Rightarrow> gotime \<Rightarrow> usage_meter \<Rightarrow> usage_error + int" where
  "usage_sum tenantID metric periodStart periodEnd m =
     (if tenantID = [] then Err ErrUsageTenantRequired
      else if metric = [] then Err ErrUsageMetricRequired
      else Ok (usage_total metric periodStart periodEnd (usage_rows m tenantID) 0))"

record usage_plan =
  up_APIRatePerMinute :: int
  up_StorageBytes :: int
  up_AgentRunsPerDay :: int

record usage_rollup =
  ro_Metric :: string
  ro_Value :: int
  ro_Limit :: int

fun rollups :: "usage_meter \<Rightarrow> string \<Rightarrow> gotime \<Rightarrow> gotime \<Rightarrow> (string \<times> int) list \<Rightarrow> usage_error + usage_rollup list" where
  "rollups m tenantID periodStart periodEnd [] = Ok []"
| "rollups m tenantID periodStart periodEnd ((name, limit) # metrics) =
     (case usage_sum tenantID name periodStart periodEnd m of
        Err e \<Rightarrow> Err e
      | Ok v \<Rightarrow>
     (case rollups m tenantID periodStart periodEnd metrics of
        Err e \<Rightarrow> Err e
      | Ok rs \<Rightarrow> Ok (\<lparr>ro_Metric = name, ro_Value = v, ro_Limit = limit\<rparr> # rs)))"

definition usage_snapshot :: "usage_meter option \<Rightarrow> usage_plan \<Rightarrow> string \<Rightarrow> gotime \<Rightarrow> gotime \<Rightarrow> usage_error + usage_rollup list" where
  "usage_snapshot meter plan tenantID periodStart periodEnd =
     (case meter of
        None \<Rightarrow> Err ErrUsageMeterRequired
      | Some m \<Rightarrow> rollups m tenantID periodStart periodEnd
          [(''api.requests'', up_APIRatePerMinute plan), (''agent.runs'', up_AgentRunsPerDay plan), (''storage.bytes'', up_StorageBytes plan)])"

subsection \<open>The names of the buckets\<close>

lemma capped:
  fixes d q :: int
  assumes q: "0 < q" and d: "0 \<le> d" "d \<le> 4 * q"
  shows "0 \<le> d div q - d div q div 4 \<and> d div q - d div q div 4 \<le> 3
    \<and> 0 \<le> d - q * (d div q - d div q div 4) \<and> d - q * (d div q - d div q div 4) \<le> q"
proof -
  define n where "n = d div q"
  have n: "0 \<le> n" "d = q * n + d mod q" "0 \<le> d mod q" "d mod q < q" using q d by (simp_all add: n_def pos_imp_zdiv_nonneg_iff)
  have "n \<le> 4" using zdiv_mono1 [OF d(2) q] q by (simp add: n_def)
  then consider "0 \<le> n" "n \<le> 3" | "n = 4" using n(1) by linarith
  then show ?thesis unfolding n_def [symmetric]
  proof cases
    case 1
    then have "n div 4 = 0" by simp
    then show "0 \<le> n - n div 4 \<and> n - n div 4 \<le> 3 \<and> 0 \<le> d - q * (n - n div 4) \<and> d - q * (n - n div 4) \<le> q" using 1 n by simp
  next
    case 2
    then have "n - n div 4 = 3" "q * 4 \<le> d" using n by simp_all
    then show "0 \<le> n - n div 4 \<and> n - n div 4 \<le> 3 \<and> 0 \<le> d - q * (n - n div 4) \<and> d - q * (n - n div 4) \<le> q" using d q by simp
  qed
qed

lemma year_day_range:
  assumes "year_day days = (y, d)"
  shows "0 \<le> d \<and> d \<le> 365"
proof -
  define d1 where "d1 = (days + 719162) mod 146097"
  define n100 where "n100 = d1 div 36524 - d1 div 36524 div 4"
  define d2 where "d2 = d1 - 36524 * n100"
  define d3 where "d3 = d2 mod 1461"
  have "d = d3 - 365 * (d3 div 365 - d3 div 365 div 4)"
    using assms unfolding year_day_def Let_def d1_def [symmetric] n100_def [symmetric] d2_def [symmetric] d3_def [symmetric] prod.inject by simp
  moreover have "0 \<le> d3" "d3 \<le> 4 * 365" using pos_mod_bound [of 1461 d2] by (simp_all add: d3_def)
  ultimately show ?thesis using capped [of 365 d3] by simp
qed

lemma cycle_digits:
  fixes n400 n100 n4 n1 :: int
  assumes r: "0 \<le> n100" "n100 \<le> 3" "0 \<le> n4 \<and> n4 \<le> 24" "0 \<le> n1 \<and> n1 \<le> 3"
  defines "z \<equiv> 400 * n400 + 100 * n100 + 4 * n4 + n1"
  shows "z div 400 = n400" "z mod 400 = 100 * n100 + 4 * n4 + n1" "z mod 100 = 4 * n4 + n1" "z mod 4 = n1"
proof -
  have e: "z = 400 * n400 + (100 * n100 + 4 * n4 + n1)" "z = 100 * (4 * n400 + n100) + (4 * n4 + n1)" "z = 4 * (100 * n400 + 25 * n100 + n4) + n1"
    by (simp_all add: z_def)
  show "z div 400 = n400" "z mod 400 = 100 * n100 + 4 * n4 + n1" unfolding e(1) using r by simp_all
  show "z mod 100 = 4 * n4 + n1" unfolding e(2) mod_mult_self4 using r by simp
  show "z mod 4 = n1" unfolding e(3) mod_mult_self4 using r by simp
qed

lemma year_day_inj:
  assumes "year_day a = year_day b"
  shows "a = b"
proof -
  define dec where "dec = (\<lambda>(y :: int, d :: int). let z = y - 1 in 146097 * (z div 400) + 36524 * (z mod 400 div 100) + 1461 * (z mod 100 div 4) + 365 * (z mod 4) + d - 719162)"
  have "dec (year_day days) = days" for days
  proof -
    define d0 where "d0 = days + 719162"
    define n400 where "n400 = d0 div 146097"
    define d1 where "d1 = d0 mod 146097"
    define n100 where "n100 = d1 div 36524 - d1 div 36524 div 4"
    define d2 where "d2 = d1 - 36524 * n100"
    define n4 where "n4 = d2 div 1461"
    define d3 where "d3 = d2 mod 1461"
    define n1 where "n1 = d3 div 365 - d3 div 365 div 4"
    have y: "year_day days = (400 * n400 + 100 * n100 + 4 * n4 + n1 + 1, d3 - 365 * n1)"
      unfolding year_day_def Let_def d0_def [symmetric] n400_def [symmetric] d1_def [symmetric] n100_def [symmetric]
        d2_def [symmetric] n4_def [symmetric] d3_def [symmetric] n1_def [symmetric] ..
    have r1: "0 \<le> d1 \<and> d1 < 146097" by (simp add: d1_def)
    then have c: "0 \<le> n100 \<and> n100 \<le> 3 \<and> 0 \<le> d2 \<and> d2 \<le> 36524"
      unfolding d2_def n100_def by (intro capped [of 36524 d1, unfolded conj_assoc]) simp_all
    then have r100: "0 \<le> n100" "n100 \<le> 3" by simp_all
    have r4: "0 \<le> n4 \<and> n4 \<le> 24" using c zdiv_mono1 [of d2 36524 1461] by (simp add: n4_def pos_imp_zdiv_nonneg_iff)
    have r3: "0 \<le> d3 \<and> d3 < 1461" by (simp add: d3_def)
    then have n1: "0 \<le> n1 \<and> n1 \<le> 3" using capped [of 365 d3] by (simp add: n1_def)
    let ?z = "400 * n400 + 100 * n100 + 4 * n4 + n1"
    have z: "?z div 400 = n400" "?z mod 400 = 100 * n100 + 4 * n4 + n1" "?z mod 100 = 4 * n4 + n1" "?z mod 4 = n1"
      using r100 r4 n1 cycle_digits by blast+
    have "(100 * n100 + 4 * n4 + n1) div 100 = n100" "(4 * n4 + n1) div 4 = n4" using r4 n1 by linarith+
    note z = this z
    then have "dec (year_day days) = 146097 * n400 + 36524 * n100 + 1461 * n4 + 365 * n1 + (d3 - 365 * n1) - 719162"
      unfolding y dec_def by (simp add: Let_def z)
    also have "\<dots> = days"
    proof -
      have "d2 = 1461 * n4 + d3" by (simp add: n4_def d3_def)
      moreover have "d0 = 146097 * n400 + d1" by (simp add: n400_def d1_def)
      ultimately show ?thesis by (simp add: d2_def d0_def)
    qed
    finally show ?thesis .
  qed
  then show ?thesis using assms by metis
qed

definition month_dec :: "bool \<Rightarrow> int \<times> int \<Rightarrow> int" where
  "month_dec leap x = (case x of (m, d) \<Rightarrow> days_before ! nat (m - 1) + d - 1 + (if leap \<and> 2 < m then 1 else 0))"

lemma month_day_checked:
  "list_all (\<lambda>y. \<forall>leap. month_dec leap (month_day leap y) = y
     \<and> fst (month_day leap y) \<in> {0..99} \<and> snd (month_day leap y) \<in> {0..99}) [0..365]"
  unfolding all_bool_eq by code_simp
lemma month_day_dec:
  assumes "0 \<le> y" "y \<le> 365"
  shows "month_dec leap (month_day leap y) = y \<and> fst (month_day leap y) \<in> {0..99} \<and> snd (month_day leap y) \<in> {0..99}"
  using month_day_checked assms by (auto simp: list_all_iff)

lemma civil_date_inj: "civil_date a = civil_date b \<Longrightarrow> a = b"
proof -
  assume eq: "civil_date a = civil_date b"
  obtain y d y' d' where s: "year_day a = (y, d)" "year_day b = (y', d')" by force
  have r: "0 \<le> d \<and> d \<le> 365" "0 \<le> d' \<and> d' \<le> 365" using year_day_range s by blast+
  have "y = y'" "month_day (is_leap y) d = month_day (is_leap y') d'" using eq s by (auto simp: civil_date_def)
  then have "d = d'" using month_day_dec r by metis
  then show "a = b" using year_day_inj s \<open>y = y'\<close> by simp
qed

lemma civil_date_range: "civil_date a = (y, m, d) \<Longrightarrow> 0 \<le> m \<and> m < 100 \<and> 0 \<le> d \<and> d < 100"
proof -
  obtain y' k where s: "year_day a = (y', k)" by force
  assume "civil_date a = (y, m, d)"
  then have "month_day (is_leap y') k = (m, d)" using s by (auto simp: civil_date_def)
  then show ?thesis using month_day_dec [of k "is_leap y'"] year_day_range [OF s] by simp
qed

lemma digits_val_zeros: "digits_val (replicate n CHR ''0'' @ s) = digits_val s"
proof (induction n)
  case (Suc n)
  have "digit_val CHR ''0'' = 0" by code_simp
  then have "digits_val (CHR ''0'' # t) = digits_val t" for t by (simp add: digits_val_def)
  then show ?case using Suc by simp
qed simp

lemma pad_int_chars: "set (pad_int w n) \<subseteq> insert CHR ''-'' {c. is_digit c}"
proof -
  have "is_digit CHR ''0''" by code_simp
  then show ?thesis using format_nat_digits [of "nat \<bar>n\<bar>"] by (auto simp: pad_int_def Let_def list_all_iff)
qed

lemma pad_int_inj: "pad_int w m = pad_int w n \<longleftrightarrow> m = n"
proof
  assume eq: "pad_int w m = pad_int w n"
  define body where "body = (\<lambda>k :: int. replicate (w - length (format_nat (nat \<bar>k\<bar>))) CHR ''0'' @ format_nat (nat \<bar>k\<bar>))"
  have v: "digits_val (body k) = nat \<bar>k\<bar>" for k by (simp add: body_def digits_val_zeros)
  have h: "body k \<noteq> [] \<and> hd (body k) \<noteq> CHR ''-''" for k
    using format_nat_hd [of "nat \<bar>k\<bar>"] is_digit_distinct(1)
    by (cases "w - length (format_nat (nat \<bar>k\<bar>))") (auto simp: body_def hd_append)
  have b: "body k \<noteq> [] \<and> hd (body k) \<noteq> CHR ''-'' \<and> digits_val (body k) = nat \<bar>k\<bar>" for k using h v by blast
  have p: "pad_int w k = (if k < 0 then CHR ''-'' # body k else body k)" for k by (simp add: pad_int_def Let_def body_def)
  have "hd (pad_int w k) = CHR ''-'' \<longleftrightarrow> k < 0" for k using h [of k] by (simp add: p)
  then have s: "m < 0 \<longleftrightarrow> n < 0" using eq by metis
  then have "body m = body n" using eq unfolding p by (simp split: if_splits)
  then have "nat \<bar>m\<bar> = nat \<bar>n\<bar>" using b by metis
  then show "m = n" using s by linarith
qed simp

lemma pad2_length: "0 \<le> n \<Longrightarrow> n < 100 \<Longrightarrow> length (pad_int 2 n) = 2"
proof -
  assume n: "0 \<le> n" "n < 100"
  have "length (format_nat k) \<le> 2" if "k < 100" for k
  proof (cases "k < 10")
    case False
    then have "k div 10 < 10" using that by simp
    then show ?thesis using False by (simp add: format_nat.simps [of k] format_nat.simps [of "k div 10"])
  qed (simp add: format_nat.simps [of k])
  from this [of "nat n"] show ?thesis using n by (simp add: pad_int_def Let_def)
qed

lemma format_day_inj: "format_day t = format_day u \<longleftrightarrow> day_number t = day_number u"
proof
  assume eq: "format_day t = format_day u"
  obtain y m d where t: "civil_date (day_number t) = (y, m, d)" by (metis prod.exhaust)
  obtain y' m' d' where u: "civil_date (day_number u) = (y', m', d')" by (metis prod.exhaust)
  have l: "length (pad_int 2 m) = 2" "length (pad_int 2 d) = 2" "length (pad_int 2 m') = 2" "length (pad_int 2 d') = 2"
    using civil_date_range [OF t] civil_date_range [OF u] by (simp_all add: pad2_length)
  have "(pad_int 4 y @ ''-'' @ pad_int 2 m @ ''-'') @ pad_int 2 d = (pad_int 4 y' @ ''-'' @ pad_int 2 m' @ ''-'') @ pad_int 2 d'"
    using eq by (simp add: format_day_def t u)
  then have "pad_int 2 d = pad_int 2 d'" "(pad_int 4 y @ ''-'') @ pad_int 2 m @ ''-'' = (pad_int 4 y' @ ''-'') @ pad_int 2 m' @ ''-''"
    using l by simp_all
  moreover from this(2) have "pad_int 2 m = pad_int 2 m'" "pad_int 4 y = pad_int 4 y'" using l by simp_all
  ultimately have "civil_date (day_number t) = civil_date (day_number u)" using t u by (simp add: pad_int_inj)
  then show "day_number t = day_number u" by (rule civil_date_inj)
qed (simp add: format_day_def)

lemma day_of_minute: "day_number t = minute_number t div 1440"
  by (simp add: day_number_def minute_number_def div_mult2_eq [symmetric] zdiv_zmult2_eq [symmetric])

lemma format_minute_inj: "format_minute t = format_minute u \<longleftrightarrow> minute_number t = minute_number u"
proof
  assume eq: "format_minute t = format_minute u"
  define m where "m = (\<lambda>t. minute_number t mod 1440)"
  have r: "0 \<le> m t \<and> m t div 60 < 100 \<and> 0 \<le> m t div 60 \<and> m t mod 60 < 100" for t
  proof -
    have "0 \<le> m t" "m t < 1440" using pos_mod_bound [of 1440 "minute_number t"] by (simp_all add: m_def)
    moreover have "m t div 60 \<le> 1439 div 60" by (rule zdiv_mono1) (use \<open>m t < 1440\<close> in simp_all)
    ultimately show ?thesis using pos_mod_bound [of 60 "m t"] by (auto simp: pos_imp_zdiv_nonneg_iff)
  qed
  have l: "length (pad_int 2 (m t div 60)) = 2" "length (pad_int 2 (m t mod 60)) = 2" for t
    using r [of t] by (simp_all add: pad2_length)
  have f: "format_minute t = format_day t @ ''T'' @ pad_int 2 (m t div 60) @ '':'' @ pad_int 2 (m t mod 60)" for t
    by (simp add: format_minute_def m_def Let_def)
  have "(format_day t @ ''T'' @ pad_int 2 (m t div 60) @ '':'') @ pad_int 2 (m t mod 60)
      = (format_day u @ ''T'' @ pad_int 2 (m u div 60) @ '':'') @ pad_int 2 (m u mod 60)"
    using eq f by simp
  then have e: "pad_int 2 (m t mod 60) = pad_int 2 (m u mod 60)"
    "(format_day t @ ''T'') @ pad_int 2 (m t div 60) @ '':'' = (format_day u @ ''T'') @ pad_int 2 (m u div 60) @ '':''"
    using l by simp_all
  then have "pad_int 2 (m t div 60) = pad_int 2 (m u div 60)" "format_day t = format_day u" using l by simp_all
  then have "m t mod 60 = m u mod 60" "m t div 60 = m u div 60" "day_number t = day_number u"
    using e(1) by (simp_all add: pad_int_inj format_day_inj)
  then have "m t = m u" "minute_number t div 1440 = minute_number u div 1440"
    unfolding day_of_minute [symmetric] by (metis div_mod_decomp_int)+
  then show "minute_number t = minute_number u" unfolding m_def by (metis div_mod_decomp_int)
qed (simp add: format_minute_def format_day_def day_of_minute)

lemma format_day_chars: "set (format_day t) \<subseteq> insert CHR ''-'' {c. is_digit c}"
  using pad_int_chars by (force simp: format_day_def split: prod.split)

lemma format_minute_chars: "CHR '':'' \<in> set (format_minute t) \<and> CHR ''|'' \<notin> set (format_minute t)"
proof -
  have d: "\<not> is_digit CHR ''|''" "CHR ''|'' \<noteq> CHR ''-''" by code_simp+
  then have "CHR ''|'' \<notin> set (pad_int w n)" "CHR ''|'' \<notin> set (format_day t)" for w n using pad_int_chars format_day_chars by blast+
  then show ?thesis by (simp add: format_minute_def Let_def)
qed

lemma window_texts_differ:
  "CHR ''|'' \<notin> set (format_day t)" "format_minute t \<noteq> format_day u"
  "format_minute t \<noteq> ''storage.bytes''" "format_minute t \<noteq> ''plugin.count''"
  "format_day t \<noteq> ''storage.bytes''" "format_day t \<noteq> ''plugin.count''"
proof -
  have d: "\<not> is_digit CHR ''|''" "\<not> is_digit CHR '':''" "\<not> is_digit CHR ''s''" "\<not> is_digit CHR ''p''" by code_simp+
  have day: "c \<in> set (format_day t) \<Longrightarrow> c = CHR ''-'' \<or> is_digit c" for c t using format_day_chars by blast
  show "CHR ''|'' \<notin> set (format_day t)" using day d(1) by fastforce
  show "format_minute t \<noteq> format_day u" using format_minute_chars [of t] day [of "CHR '':''" u] d(2) by auto
  show "format_minute t \<noteq> ''storage.bytes''" "format_minute t \<noteq> ''plugin.count''" using format_minute_chars [of t] by auto
  show "format_day t \<noteq> ''storage.bytes''" using day [of "CHR ''s''" t] d(3) by auto
  show "format_day t \<noteq> ''plugin.count''" using day [of "CHR ''p''" t] d(4) by auto
qed

lemma split_last:
  assumes "CHR ''|'' \<notin> set b" "CHR ''|'' \<notin> set d"
  shows "a @ CHR ''|'' # b = c @ CHR ''|'' # d \<longleftrightarrow> a = c \<and> b = d"
proof
  assume "a @ CHR ''|'' # b = c @ CHR ''|'' # d"
  then have "rev b @ CHR ''|'' # rev a = rev d @ CHR ''|'' # rev c" by (metis append.assoc append_Cons rev.simps(2) rev_append append_Nil)
  then have "takeWhile (\<lambda>x. x \<noteq> CHR ''|'') (rev b @ CHR ''|'' # rev a) = takeWhile (\<lambda>x. x \<noteq> CHR ''|'') (rev d @ CHR ''|'' # rev c)" by simp
  moreover have "takeWhile (\<lambda>x. x \<noteq> CHR ''|'') (rev x @ CHR ''|'' # y) = rev x" if "CHR ''|'' \<notin> set x" for x y
    using that by (subst takeWhile_append2) auto
  ultimately have "b = d" using assms by simp
  then show "a = c \<and> b = d" using \<open>a @ CHR ''|'' # b = c @ CHR ''|'' # d\<close> by simp
qed simp

definition limited :: "metric \<Rightarrow> bool" where
  "limited m \<longleftrightarrow> m \<in> {MetricAPIPerMinute, MetricAgentRunsPerDay, MetricStorageBytes, MetricPluginCount}"

text \<open>The window a metric is counted in.\<close>

definition metric_window :: "metric \<Rightarrow> gotime \<Rightarrow> int" where
  "metric_window m now =
     (case m of MetricAPIPerMinute \<Rightarrow> minute_number now | MetricAgentRunsPerDay \<Rightarrow> day_number now | _ \<Rightarrow> 0)"

lemma bucketKey_parts:
  "bucketKey t MetricAPIPerMinute now = (t @ CHR ''|'' # metric_string MetricAPIPerMinute) @ CHR ''|'' # format_minute now"
  "bucketKey t MetricAgentRunsPerDay now = (t @ CHR ''|'' # metric_string MetricAgentRunsPerDay) @ CHR ''|'' # format_day now"
  "bucketKey t MetricStorageBytes now = t @ CHR ''|'' # ''storage.bytes''"
  "bucketKey t MetricPluginCount now = t @ CHR ''|'' # ''plugin.count''"
  by (simp_all add: bucketKey_def)

lemma metric_no_bar: "CHR ''|'' \<notin> set (metric_string MetricAPIPerMinute)" "CHR ''|'' \<notin> set (metric_string MetricAgentRunsPerDay)"
  "CHR ''|'' \<notin> set ''storage.bytes''" "CHR ''|'' \<notin> set ''plugin.count''"
  "metric_string MetricAPIPerMinute \<noteq> metric_string MetricAgentRunsPerDay" "''storage.bytes'' \<noteq> ''plugin.count''"
  by code_simp+

lemmas window_texts = window_texts_differ window_texts_differ(2-6) [THEN not_sym] format_minute_chars

lemma bucketKey_inj:
  assumes "limited m" "limited m'"
  shows "bucketKey t m now = bucketKey t' m' now' \<longleftrightarrow> (t, m, metric_window m now) = (t', m', metric_window m' now')"
  using assms unfolding limited_def insert_iff empty_iff
  by (elim disjE FalseE; hypsubst; unfold bucketKey_parts)
    (simp_all only: split_last window_texts metric_no_bar metric_no_bar(5,6) [THEN not_sym] metric_window_def metric.case metric.distinct
      format_minute_inj format_day_inj prod.inject simp_thms not_False_eq_True HOL.refl cong: conj_cong)

subsection \<open>Every history of requests\<close>

record quota_request =
  qr_tenant :: string
  qr_metric :: metric
  qr_delta :: int
  qr_policy :: quota_policy
  qr_now :: gotime

fun run_quota :: "quota_request list \<Rightarrow> quota_buckets \<Rightarrow> quota_buckets \<times> quota_error option list" where
  "run_quota [] b = (b, [])"
| "run_quota (r # rs) b =
     (case checkAndIncrement (qr_tenant r) (qr_metric r) (qr_delta r) (qr_policy r) (qr_now r) b of
        (b, e) \<Rightarrow> (case run_quota rs b of (b, es) \<Rightarrow> (b, e # es)))"

text \<open>The abstract quota: one exact counter for each tenant, metric and window.\<close>

type_synonym quota_spec = "string \<times> metric \<times> int \<Rightarrow> int"

definition spec_request :: "quota_request \<Rightarrow> quota_spec \<Rightarrow> quota_spec \<times> quota_error option" where
  "spec_request r u =
     (let k = (qr_tenant r, qr_metric r, metric_window (qr_metric r) (qr_now r)); limit = quota_limit (qr_policy r) (qr_metric r);
          amount = max 1 (qr_delta r)
      in if qr_tenant r = [] then (u, Some ErrQuotaTenantRequired)
         else if limit \<le> 0 then (u, None)
         else if limit < u k + amount then (u, Some ErrQuotaExceeded)
         else (u(k := u k + amount), None))"

fun spec_run :: "quota_request list \<Rightarrow> quota_spec \<Rightarrow> quota_spec \<times> quota_error option list" where
  "spec_run [] u = (u, [])"
| "spec_run (r # rs) u = (case spec_request r u of (u, e) \<Rightarrow> (case spec_run rs u of (u, es) \<Rightarrow> (u, e # es)))"

definition counts :: "int \<Rightarrow> quota_buckets \<Rightarrow> quota_spec \<Rightarrow> bool" where
  "counts L b u \<longleftrightarrow> (\<forall>t m now. limited m \<longrightarrow> bucket_value b (bucketKey t m now) = u (t, m, metric_window m now))
     \<and> (\<forall>k. 0 \<le> bucket_value b k \<and> bucket_value b k \<le> L)"

lemma bucket_value_mput [simp]: "bucket_value (mput k v b) k' = (if k' = k then v else bucket_value b k')"
  by (simp add: bucket_value_def)

lemma limit_limited: "0 < quota_limit p m \<Longrightarrow> limited m"
  by (cases m) (simp_all add: limited_def)

lemma request_counts:
  assumes c: "counts L b u" and L: "0 \<le> L" "L < max_int64"
    and r: "quota_limit (qr_policy r) (qr_metric r) \<le> L" "qr_delta r \<le> max_int64 - L"
    and run: "checkAndIncrement (qr_tenant r) (qr_metric r) (qr_delta r) (qr_policy r) (qr_now r) b = (b', e)"
    and spec: "spec_request r u = (u', e')"
  shows "counts L b' u' \<and> e = e'"
proof (cases "qr_tenant r = [] \<or> quota_limit (qr_policy r) (qr_metric r) \<le> 0")
  case True
  then show ?thesis using c run spec by (auto simp: checkAndIncrement_def spec_request_def Let_def split: if_splits)
next
  case False
  let ?m = "qr_metric r" and ?limit = "quota_limit (qr_policy r) (qr_metric r)" and ?a = "max 1 (qr_delta r)"
  let ?k = "bucketKey (qr_tenant r) ?m (qr_now r)" and ?s = "(qr_tenant r, ?m, metric_window ?m (qr_now r))"
  have lim: "limited ?m" using False limit_limited [of "qr_policy r" ?m] by simp
  then have eq: "bucket_value b ?k = u ?s" using c by (simp add: counts_def)
  have range: "0 \<le> u ?s" "u ?s \<le> L" using c eq unfolding counts_def by metis+
  have a: "(if qr_delta r \<le> 0 then 1 else qr_delta r) = ?a" by simp
  have exact: "add64 (u ?s) ?a = u ?s + ?a"
    by (rule wrap64_of_nonneg) (use range L r(2) in simp_all)
  show ?thesis
  proof (cases "?limit < u ?s + ?a")
    case True
    then show ?thesis using c run spec False eq exact unfolding checkAndIncrement_def spec_request_def Let_def a by simp
  next
    case no: False
    have "b' = mput ?k (u ?s + ?a) b" "e = None" using run False no eq exact unfolding checkAndIncrement_def Let_def a by simp_all
    moreover have "u' = u(?s := u ?s + ?a)" "e' = None" using spec False no unfolding spec_request_def Let_def by simp_all
    moreover have "bucket_value (mput ?k (u ?s + ?a) b) (bucketKey t m now) = (u(?s := u ?s + ?a)) (t, m, metric_window m now)"
      if "limited m" for t m now using c that bucketKey_inj [OF that lim] by (auto simp: counts_def)
    moreover have "0 \<le> bucket_value (mput ?k (u ?s + ?a) b) k \<and> bucket_value (mput ?k (u ?s + ?a) b) k \<le> L" for k
      using c range no r(1) by (simp add: counts_def)
    ultimately show ?thesis by (simp add: counts_def)
  qed
qed

lemma requests_count:
  assumes "counts L b u" "0 \<le> L" "L < max_int64"
    and "list_all (\<lambda>r. quota_limit (qr_policy r) (qr_metric r) \<le> L \<and> qr_delta r \<le> max_int64 - L) rs"
  shows "snd (run_quota rs b) = snd (spec_run rs u) \<and> counts L (fst (run_quota rs b)) (fst (spec_run rs u))"
  using assms
proof (induction rs arbitrary: b u)
  case (Cons r rs)
  obtain b' e where run: "checkAndIncrement (qr_tenant r) (qr_metric r) (qr_delta r) (qr_policy r) (qr_now r) b = (b', e)" by force
  obtain u' e' where spec: "spec_request r u = (u', e')" by force
  have "counts L b' u' \<and> e = e'" using request_counts [OF Cons.prems(1-3) _ _ run spec] Cons.prems(4) by simp
  then show ?case using Cons.IH [of b' u'] Cons.prems run spec by (simp add: case_prod_unfold)
qed simp


definition demo_requests :: "quota_request list" where
  "demo_requests = map (\<lambda>(t, now). \<lparr>qr_tenant = t, qr_metric = MetricAPIPerMinute, qr_delta = 2, qr_policy = policyFromLimits 3 0 0 0, qr_now = now\<rparr>)
     [(''acme'', 0), (''acme'', 59 * 10 ^ 9), (''other'', 59 * 10 ^ 9), (''acme'', 60 * 10 ^ 9)]"


text \<open>A request that is large enough is admitted whatever the limit. The sum overflows, the counter becomes negative,
  and the limit is void for the requests that follow.\<close>

theorem huge_request_admitted:
  assumes "tenantID \<noteq> []" "0 < quota_limit policy m" "0 < bucket_value b (bucketKey tenantID m now)"
    "bucket_value b (bucketKey tenantID m now) \<le> quota_limit policy m" "in_int64 (quota_limit policy m)"
  shows "\<exists>b'. checkAndIncrement tenantID m max_int64 policy now b = (b', None) \<and> quota_snapshot tenantID m now b' < 0"
proof -
  let ?v = "bucket_value b (bucketKey tenantID m now)"
  have "add64 ?v max_int64 = ?v + max_int64 - 2 ^ 64" by (rule wrap64_over) (use assms in \<open>simp_all add: in_int64_iff\<close>)
  then have "add64 ?v max_int64 < 0" using assms by (simp add: in_int64_iff)
  moreover have "\<not> max_int64 \<le> 0" by simp
  ultimately show ?thesis using assms unfolding checkAndIncrement_def Let_def quota_snapshot_def by simp
qed

theorem huge_request_admitted_witness:
  "\<exists>b'. checkAndIncrement ''acme'' MetricStorageBytes max_int64 (policyFromLimits 0 0 100 0) 0 (mput ''acme|storage.bytes'' 60 []) = (b', None)
     \<and> quota_snapshot ''acme'' MetricStorageBytes 0 b' < 0"
  by (rule huge_request_admitted) (simp_all add: policyFromLimits_def bucketKey_def in_int64_iff)

subsection \<open>Every history of the meter\<close>

record usage_event =
  ue_tenant :: string
  ue_metric :: string
  ue_value :: int
  ue_at :: gotime
  ue_now :: gotime

fun run_usage :: "usage_event list \<Rightarrow> usage_meter \<Rightarrow> usage_meter" where
  "run_usage [] m = m"
| "run_usage (e # es) m = run_usage es (fst (usage_record (ue_tenant e) (ue_metric e) (ue_value e) (ue_at e) (ue_now e) m))"

definition in_period :: "gotime \<Rightarrow> gotime \<Rightarrow> gotime \<Rightarrow> bool" where
  "in_period periodStart periodEnd t \<longleftrightarrow> (time_is_zero periodStart \<or> periodStart \<le> t) \<and> (time_is_zero periodEnd \<or> t \<le> periodEnd)"

definition row_counts :: "string \<Rightarrow> gotime \<Rightarrow> gotime \<Rightarrow> usage_row \<Rightarrow> bool" where
  "row_counts metric a b r \<longleftrightarrow> ur_Metric r = metric \<and> in_period a b (ur_At r)"

lemma usage_total_exact:
  "in_int64 acc \<Longrightarrow> usage_total metric a b rows acc = wrap64 (acc + sum_list (map ur_Value (filter (row_counts metric a b) rows)))"
proof (induction rows arbitrary: acc)
  case (Cons r rows)
  show ?case
  proof (cases "row_counts metric a b r")
    case True
    then show ?thesis using Cons.IH [of "add64 acc (ur_Value r)"] wrap64_range
      by (auto simp: row_counts_def in_period_def algebra_simps)
  next
    case False
    then show ?thesis using Cons by (auto simp: row_counts_def in_period_def)
  qed
qed simp

lemma usage_rows_run:
  assumes "t \<noteq> []"
  shows "filter (row_counts metric a b) (usage_rows (run_usage es m) t) = filter (row_counts metric a b) (usage_rows m t)
    @ map (\<lambda>e. \<lparr>ur_Metric = ue_metric e, ur_Value = ue_value e, ur_At = or_now (ue_now e) (ue_at e)\<rparr>)
      (filter (\<lambda>e. ue_tenant e = t \<and> ue_metric e \<noteq> [] \<and> ue_metric e = metric \<and> in_period a b (or_now (ue_now e) (ue_at e))) es)"
proof (induction es arbitrary: m)
  case (Cons e es)
  show ?case using assms by (simp add: Cons.IH) (auto simp: usage_record_def usage_rows_def row_counts_def)
qed simp

text \<open>The meter sums exactly what was recorded. For every history of records, the usage of a tenant in a period is the
  \<open>int64\<close> sum of the values recorded for that tenant and metric at times inside it, both ends included and an
  open end where no time is given.\<close>

theorem usage_sum_exact:
  "usage_sum t metric a b (run_usage es []) =
     (if t = [] then Err ErrUsageTenantRequired
      else if metric = [] then Err ErrUsageMetricRequired
      else Ok (wrap64 (sum_list (map ue_value
        (filter (\<lambda>e. ue_tenant e = t \<and> ue_metric e = metric \<and> in_period a b (or_now (ue_now e) (ue_at e))) es)))))"
proof (cases "t = [] \<or> metric = []")
  case False
  have f: "filter (\<lambda>e. ue_tenant e = t \<and> ue_metric e \<noteq> [] \<and> ue_metric e = metric \<and> in_period a b (or_now (ue_now e) (ue_at e))) es
      = filter (\<lambda>e. ue_tenant e = t \<and> ue_metric e = metric \<and> in_period a b (or_now (ue_now e) (ue_at e))) es"
    using False by (intro filter_cong) auto
  have "in_int64 0" by (simp add: in_int64_iff)
  from usage_total_exact [OF this] show ?thesis
    using False usage_rows_run [of t metric a b es "[]"] unfolding f by (simp add: usage_sum_def usage_rows_def comp_def)
qed (auto simp: usage_sum_def)

end
