(* ===== verification/Commission.thy ===== *)
theory Commission
  imports Go_Prelude
begin

text \<open>
  Vendors of a marketplace and their commissions (\<open>internal/marketplace/vendor.go\<close>, \<open>store.go\<close>,
  \<open>commission.go\<close>): the vendor with its rate, the in-memory store, the commission of an order, payouts
  and their report. The store of payouts is a parameter.
\<close>

subsection \<open>Vendors\<close>

datatype vendor_status = VendorStatusActive | VendorStatusSuspended | VendorStatusDeactivated

datatype vendor_error =
    ErrVendorNameEmpty | ErrVendorContactEmpty | ErrVendorAlreadyInactive | ErrVendorNotFound | ErrInvalidCommissionRate
  | ErrPayoutNotFound | ErrPayoutInvalidArgs

record vendor =
  vd_VendorID :: string
  vd_TenantID :: string
  vd_Name :: string
  vd_ContactEmail :: string
  vd_Status :: vendor_status
  vd_CommissionRateBPS :: int
  vd_JoinedAt :: gotime
  vd_DeactivatedAt :: "gotime option"

definition newVendor :: "string \<Rightarrow> string \<Rightarrow> string \<Rightarrow> string \<Rightarrow> int \<Rightarrow> gotime \<Rightarrow> vendor_error + vendor" where
  "newVendor vendorID tenantID name contact commissionBPS now =
     (if name = [] then Err ErrVendorNameEmpty
      else if contact = [] then Err ErrVendorContactEmpty
      else if commissionBPS < 0 \<or> 10000 < commissionBPS then Err ErrInvalidCommissionRate
      else Ok \<lparr>vd_VendorID = vendorID, vd_TenantID = tenantID, vd_Name = name, vd_ContactEmail = contact,
             vd_Status = VendorStatusActive, vd_CommissionRateBPS = commissionBPS, vd_JoinedAt = now, vd_DeactivatedAt = None\<rparr>)"

definition vendor_deactivate :: "gotime \<Rightarrow> vendor \<Rightarrow> vendor \<times> (vendor_error + unit)" where
  "vendor_deactivate now v =
     (if vd_Status v = VendorStatusDeactivated then (v, Err ErrVendorAlreadyInactive)
      else (v\<lparr>vd_Status := VendorStatusDeactivated, vd_DeactivatedAt := Some now\<rparr>, Ok ()))"

definition updateCommission :: "int \<Rightarrow> vendor \<Rightarrow> vendor \<times> (vendor_error + unit)" where
  "updateCommission bps v =
     (if bps < 0 \<or> 10000 < bps then (v, Err ErrInvalidCommissionRate) else (v\<lparr>vd_CommissionRateBPS := bps\<rparr>, Ok ()))"

subsection \<open>The in-memory store\<close>

type_synonym vendor_store = "(string, string, vendor) gomap2"

definition vstore_create :: "vendor \<Rightarrow> vendor_store \<Rightarrow> vendor_store" where
  "vstore_create v s = nput (vd_TenantID v) (vd_VendorID v) v s"

definition vstore_get :: "string \<Rightarrow> string \<Rightarrow> vendor_store \<Rightarrow> vendor_error + vendor" where
  "vstore_get tenantID vendorID s = (case nget s tenantID vendorID of None \<Rightarrow> Err ErrVendorNotFound | Some v \<Rightarrow> Ok v)"

text \<open>\<open>it\<close> is the order in which the run iterates over the vendors.\<close>

definition vstore_list :: "(vendor list \<Rightarrow> vendor list) \<Rightarrow> string \<Rightarrow> vendor_store \<Rightarrow> vendor list" where
  "vstore_list it tenantID s = it (mvalues (nrows s tenantID))"

definition vstore_update :: "vendor \<Rightarrow> vendor_store \<Rightarrow> vendor_store \<times> (vendor_error + unit)" where
  "vstore_update v s =
     (case nget s (vd_TenantID v) (vd_VendorID v) of
        None \<Rightarrow> (s, Err ErrVendorNotFound)
      | Some _ \<Rightarrow> (nput (vd_TenantID v) (vd_VendorID v) v s, Ok ()))"

definition vstore_deactivate :: "string \<Rightarrow> string \<Rightarrow> vendor_store \<Rightarrow> vendor_store \<times> (vendor_error + unit)" where
  "vstore_deactivate tenantID vendorID s =
     (case nget s tenantID vendorID of
        None \<Rightarrow> (s, Err ErrVendorNotFound)
      | Some v \<Rightarrow> (nput tenantID vendorID (v\<lparr>vd_Status := VendorStatusDeactivated\<rparr>) s, Ok ()))"

subsection \<open>Commissions\<close>

record commission_result =
  cr_VendorID :: string
  cr_OrderTotalCents :: int
  cr_CommissionCents :: int
  cr_VendorPayoutCents :: int
  cr_RateBPS :: int

definition computeCommission :: "int \<Rightarrow> int \<Rightarrow> int" where
  "computeCommission orderTotalCents rateBPS = quot (mul64 orderTotalCents rateBPS) 10000"

definition lookupRate :: "('s \<Rightarrow> string \<Rightarrow> string \<Rightarrow> vendor_error + vendor) \<Rightarrow> string \<Rightarrow> string \<Rightarrow> 's \<Rightarrow> vendor_error + int" where
  "lookupRate get tenantID vendorID s = (case get s tenantID vendorID of Err e \<Rightarrow> Err e | Ok v \<Rightarrow> Ok (vd_CommissionRateBPS v))"

text \<open>\<open>recorded\<close> are the amounts the metrics were told, with their tenants and vendors.\<close>

definition calculate ::
  "('s \<Rightarrow> string \<Rightarrow> string \<Rightarrow> vendor_error + vendor) \<Rightarrow> string \<Rightarrow> string \<Rightarrow> int \<Rightarrow> 's
     \<Rightarrow> (string \<times> string \<times> int) list \<Rightarrow> (string \<times> string \<times> int) list \<times> (vendor_error + commission_result)" where
  "calculate get tenantID vendorID orderTotalCents s recorded =
     (case lookupRate get tenantID vendorID s of
        Err e \<Rightarrow> (recorded, Err e)
      | Ok rate \<Rightarrow>
          let commission = computeCommission orderTotalCents rate
          in (recorded @ [(tenantID, vendorID, commission)],
              Ok \<lparr>cr_VendorID = vendorID, cr_OrderTotalCents = orderTotalCents, cr_CommissionCents = commission,
                  cr_VendorPayoutCents = sub64 orderTotalCents commission, cr_RateBPS = rate\<rparr>))"

datatype payout_status = PayoutStatusPending | PayoutStatusPaid | PayoutStatusFailed

record vendor_payout =
  vp_PayoutID :: string
  vp_VendorID :: string
  vp_TenantID :: string
  vp_AmountCents :: int
  vp_Status :: payout_status
  vp_PeriodStart :: gotime
  vp_PeriodEnd :: gotime
  vp_CreatedAt :: gotime

record commission_report =
  ct_VendorID :: string
  ct_TenantID :: string
  ct_TotalOrdersCents :: int
  ct_TotalCommission :: int
  ct_TotalPayout :: int
  ct_PeriodStart :: gotime
  ct_PeriodEnd :: gotime

text \<open>\<open>i\<close> is the identifier that the run generates.\<close>

definition recordPayout ::
  "(vendor_payout \<Rightarrow> 's \<Rightarrow> 's \<times> (vendor_error + unit)) \<Rightarrow> string \<Rightarrow> gotime \<Rightarrow> string \<Rightarrow> string \<Rightarrow> int \<Rightarrow> gotime \<Rightarrow> gotime
     \<Rightarrow> 's \<Rightarrow> 's \<times> (vendor_error + vendor_payout)" where
  "recordPayout save i now tenantID vendorID amountCents periodStart periodEnd s =
     (if amountCents < 0 then (s, Err ErrPayoutInvalidArgs)
      else
        let payout = \<lparr>vp_PayoutID = i, vp_VendorID = vendorID, vp_TenantID = tenantID, vp_AmountCents = amountCents,
              vp_Status = PayoutStatusPending, vp_PeriodStart = periodStart, vp_PeriodEnd = periodEnd, vp_CreatedAt = now\<rparr>
        in case save payout s of
             (s, Err e) \<Rightarrow> (s, Err e)
           | (s, Ok _) \<Rightarrow> (s, Ok payout))"

definition aggregatePayouts :: "string \<Rightarrow> string \<Rightarrow> gotime \<Rightarrow> gotime \<Rightarrow> vendor_payout list \<Rightarrow> commission_report" where
  "aggregatePayouts tenantID vendorID since to payouts =
     \<lparr>ct_VendorID = vendorID, ct_TenantID = tenantID, ct_TotalOrdersCents = 0, ct_TotalCommission = 0,
      ct_TotalPayout = foldl (\<lambda>n p. add64 n (vp_AmountCents p)) 0 payouts, ct_PeriodStart = since, ct_PeriodEnd = to\<rparr>"

definition commission_report_of ::
  "(string \<Rightarrow> string \<Rightarrow> gotime \<Rightarrow> gotime \<Rightarrow> 's \<Rightarrow> vendor_error + vendor_payout list) \<Rightarrow> string \<Rightarrow> string \<Rightarrow> gotime \<Rightarrow> gotime \<Rightarrow> 's
     \<Rightarrow> vendor_error + commission_report" where
  "commission_report_of list_payouts tenantID vendorID since to s =
     (case list_payouts tenantID vendorID since to s of
        Err e \<Rightarrow> Err e
      | Ok payouts \<Rightarrow> Ok (aggregatePayouts tenantID vendorID since to payouts))"

subsection \<open>The split of an order\<close>

text \<open>The rates that a vendor was given since it joined; a refused rate changes nothing.\<close>

fun rates_given :: "int list \<Rightarrow> vendor \<Rightarrow> vendor" where
  "rates_given [] v = v"
| "rates_given (bps # rs) v = rates_given rs (fst (updateCommission bps v))"

lemma rates_keep:
  "0 \<le> vd_CommissionRateBPS v \<and> vd_CommissionRateBPS v \<le> 10000 \<Longrightarrow>
     0 \<le> vd_CommissionRateBPS (rates_given rs v) \<and> vd_CommissionRateBPS (rates_given rs v) \<le> 10000
     \<and> vd_TenantID (rates_given rs v) = vd_TenantID v \<and> vd_VendorID (rates_given rs v) = vd_VendorID v"
proof (induction rs arbitrary: v)
  case (Cons bps rs)
  from Cons.IH [of "fst (updateCommission bps v)"] Cons.prems show ?case by (simp add: updateCommission_def split: if_splits)
qed simp

lemma commission_exact:
  assumes r: "0 \<le> rate" "rate \<le> 10000" and t: "0 \<le> n" "n \<le> max_int64 div 10000"
  shows "computeCommission n rate = n * rate div 10000 \<and> 0 \<le> computeCommission n rate \<and> computeCommission n rate \<le> n"
proof -
  have "n * rate \<le> n * 10000" using r t by (simp add: mult_left_mono)
  also have "n * 10000 \<le> max_int64" using t(2) by simp
  finally have "n * rate \<le> max_int64" .
  moreover have "0 \<le> n * rate" using r t by simp
  ultimately have "mul64 n rate = n * rate" by (simp add: wrap64_of_nonneg del: max_int64_val)
  then have e: "computeCommission n rate = n * rate div 10000" using \<open>0 \<le> n * rate\<close> by (simp add: computeCommission_def)
  have "n * rate div 10000 \<le> n * 10000 div 10000" by (rule zdiv_mono1) (use \<open>n * rate \<le> n * 10000\<close> in simp_all)
  then show ?thesis using e \<open>0 \<le> n * rate\<close> by (simp add: pos_imp_zdiv_nonneg_iff)
qed

text \<open>An order is split between the marketplace and the vendor without losing a cent. For a vendor that joined with a
  valid rate and was given any rates since, the commission of an order is the rounded-down share of its total,
  between nothing and the total, and the payout is the rest.\<close>

theorem commission_splits_order:
  assumes "newVendor vendorID tenantID name contact bps now = Ok v" "0 \<le> n" "n \<le> max_int64 div 10000"
  shows "let v' = rates_given rs v; c = n * vd_CommissionRateBPS v' div 10000
    in calculate (\<lambda>s t i. vstore_get t i s) tenantID vendorID n (vstore_create v' s) recorded =
      (recorded @ [(tenantID, vendorID, c)],
       Ok \<lparr>cr_VendorID = vendorID, cr_OrderTotalCents = n, cr_CommissionCents = c, cr_VendorPayoutCents = n - c,
           cr_RateBPS = vd_CommissionRateBPS v'\<rparr>)
      \<and> 0 \<le> c \<and> c \<le> n"
proof -
  let ?v = "rates_given rs v"
  have "0 \<le> vd_CommissionRateBPS v \<and> vd_CommissionRateBPS v \<le> 10000" "vd_TenantID v = tenantID" "vd_VendorID v = vendorID"
    using assms(1) by (auto simp: newVendor_def split: if_splits)
  then have v: "0 \<le> vd_CommissionRateBPS ?v" "vd_CommissionRateBPS ?v \<le> 10000" "vd_TenantID ?v = tenantID" "vd_VendorID ?v = vendorID"
    using rates_keep [of v rs] by simp_all
  note c = commission_exact [OF v(1,2) assms(2,3)]
  have "in_int64 (n - n * vd_CommissionRateBPS ?v div 10000)" using c assms(2,3) by (simp add: in_int64_iff)
  then show ?thesis using v c by (simp add: Let_def calculate_def lookupRate_def vstore_get_def vstore_create_def)
qed

theorem commission_splits_order_witness:
  "calculate (\<lambda>s t i. vstore_get t i s) ''acme'' ''v1'' 1999
     (vstore_create (rates_given [1250, 20000] (projr (newVendor ''v1'' ''acme'' ''Shop'' ''a@b.c'' 1000 0))) []) [] =
   ([(''acme'', ''v1'', 249)], Ok \<lparr>cr_VendorID = ''v1'', cr_OrderTotalCents = 1999, cr_CommissionCents = 249, cr_VendorPayoutCents = 1750, cr_RateBPS = 1250\<rparr>)"
proof -
  obtain v where v: "newVendor ''v1'' ''acme'' ''Shop'' ''a@b.c'' 1000 0 = Ok v" by (simp add: newVendor_def)
  have "vd_CommissionRateBPS (rates_given [1250, 20000] v) = 1250" by (simp add: updateCommission_def)
  then show ?thesis using commission_splits_order [OF v, of 1999 "[1250, 20000]" "[]" "[]"] v by simp
qed

text \<open>The commission of a large order overflows. From 922337203685478 cents on, the full rate takes a negative
  commission, so that the vendor is paid more than the order.\<close>

theorem large_order_overpays:
  assumes "922337203685478 \<le> n" "n \<le> 1383505805528216"
  shows "computeCommission n 10000 < 0 \<and> sub64 n (computeCommission n 10000) > n"
proof -
  have m: "mul64 n 10000 = n * 10000 - 2 ^ 64" by (rule wrap64_over) (use assms in simp_all)
  then have q: "computeCommission n 10000 = - ((2 ^ 64 - n * 10000) div 10000)"
    using assms by (simp add: computeCommission_def quot_def)
  have r: "461168601842738 \<le> (2 ^ 64 - n * 10000) div 10000" "(2 ^ 64 - n * 10000) div 10000 \<le> 922337203685477"
    using assms by simp_all
  then have "in_int64 (n - computeCommission n 10000)" using q assms by (simp add: in_int64_iff)
  then show ?thesis using q r by simp
qed

theorem large_order_overpays_witness:
  "computeCommission 1000000000000000 10000 < 0 \<and> sub64 1000000000000000 (computeCommission 1000000000000000 10000) > 1000000000000000"
  by (rule large_order_overpays) simp_all

end
