(* ===== verification/Spec2Isabelle.thy ===== *)
theory Spec2Isabelle
  imports Orders Membership DigitalService StripeWebhook Costcalc Resilience PublishWorkers PublishWorkflow PaymentSaga
    ReturnsSaga MembershipWorkflow OrderAggregator AusForms AusWords
    Marketplace Outbound Registration Submissions Quota Commission
begin

text \<open>
  A model of the core of the agentic commerce server (a Go program under \<open>src/\<close>) and the theorems
  that make it correct. This theory collects the others.

  \<^bold>\<open>The parts and their theories.\<close>

  \<^item> \<open>Go_Prelude\<close>: what all parts use of Go: errors as a sum (\<open>Err\<close>, \<open>Ok\<close>), \<open>int64\<close> arithmetic as
    \<open>int\<close> with the wrap-around written out, times and durations in nanoseconds, \<open>strings.TrimSpace\<close>,
    case mapping, splitting, \<open>strconv\<close>, hex, slices of a page, and maps as association lists
    \<open>gomap\<close> (\<open>mget\<close>, \<open>mput\<close>, \<open>mdel\<close>), whose order is the iteration order of a run.
  \<^item> \<open>Go_Encoding\<close>: UTF-8 as \<open>unicode/utf8\<close> reads it, the JSON encoding of strings and of string maps by
    \<open>encoding/json\<close>, base64 and hex, with their injectivity.
  \<^item> \<open>Lifecycle\<close>: the interfaces (locales) of the state machines: \<open>lifecycle\<close> (a table of moves and the
    histories along it), \<open>abandonable\<close> (a final cancelled state that can be reached) and \<open>acyclic\<close> (a rank
    that every move raises).
  \<^item> \<open>Catalog\<close>, \<open>Orders\<close>: \<open>internal/domain/catalog\<close> and \<open>internal/domain/order\<close>: money, products, slugs,
    carts, order items and their totals, the status machine of an order.
  \<^item> \<open>Membership\<close>: \<open>internal/domain/membership\<close>: plans, subscriptions, the transition table with its
    effects on the dates, entitlements.
  \<^item> \<open>Digital\<close>, \<open>DigitalService\<close>: \<open>internal/domain/digital\<close>, \<open>internal/digital\<close> and the in-memory
    repositories of \<open>internal/adapter/inmemory\<close>: licence keys with their checksum, licences, access grants,
    download tokens, and the service that issues, revokes and serves them.
  \<^item> \<open>Billing\<close>, \<open>BillingService\<close>, \<open>StripeWebhook\<close>: \<open>internal/billing\<close> and the webhook handler of
    \<open>cmd/mc-api\<close>: the subscription state machine, the repository with its event ledger, the service, the
    dispatcher of Stripe events, the signature check, the HTTP endpoint.
  \<^item> \<open>Costcalc\<close>, \<open>Resilience\<close>: \<open>internal/costcalc\<close> and the circuit breaker of \<open>internal/resilience\<close>.
  \<^item> \<open>PublishGate\<close>, \<open>PublishWorkers\<close>: \<open>internal/publishgate\<close>: the gate that publishes an approved
    draft once, over the SQL statements of its Postgres store; first one publish after the other, then
    cut at every statement and remote call and interleaved.
  \<^item> \<open>StoreProxy\<close>, \<open>AuditJoin\<close>: \<open>internal/storeproxy\<close> and \<open>internal/auditjoin\<close>: the proxy in front of the
    store with its write-ahead audit log, and the join of that log with the approvals.
  \<^item> \<open>PublishPipeline\<close>: \<open>internal/adapter/woocommerce\<close> and the publisher of \<open>cmd/temporal-worker\<close>, and the
    composition of gate, client, proxy and join.
  \<^item> \<open>Temporal\<close>: activities with a retry policy, as the Temporal SDK documents them; used by the workflows
    of \<open>internal/workflow\<close>.
  \<^item> \<open>Compliance\<close>: \<open>internal/compliance\<close>, \<open>internal/media\<close> and the score of \<open>internal/seo\<close>: the rules a
    product passes before it is published.
  \<^item> \<open>PublishWorkflow\<close>: the product publish workflow: compliance, media, human review, publish, with its
    life-cycle view, and its composition with the publish gate under interference.
  \<^item> \<open>PaymentSaga\<close>: the payment saga and the charge of the Stripe adapter (\<open>internal/adapter/payment\<close>).
  \<^item> \<open>ReturnsSaga\<close>: the returns saga: label, notification, refund, inventory, channel, and their compensations.
  \<^item> \<open>MembershipWorkflow\<close>: the membership lifecycle workflow with its signals and timers, and the payment
    gateway it charges (\<open>internal/adapter/stripe\<close>).
  \<^item> \<open>InventorySync\<close>, \<open>OrderAggregator\<close>: the idempotency stores of \<open>internal/sync\<close>, \<open>internal/webhook\<close> and
    \<open>internal/adapter/postgres\<close>, the stock synchronisation between two shops, and the workflow that announces
    every channel order once.
  \<^item> \<open>AusForms\<close>, \<open>AusWords\<close>: \<open>internal/au\<close>: tax, business and branch numbers, phone numbers, article numbers and
    slugs, amounts in words.
  \<^item> \<open>Plugins\<close>, \<open>Marketplace\<close>: \<open>internal/marketplace\<close>: plugin manifests, versions and the install order; the
    registry of installed plugins with its state machine and its sandbox, over the in-memory repositories.
  \<^item> \<open>Ssrf\<close>, \<open>Outbound\<close>: \<open>internal/webhook/outbound\<close>: the classification of addresses, the guard, the signed
    delivery with its retries, the registrations and the service that delivers an event to its subscribers.
  \<^item> \<open>Tenants\<close>, \<open>Registration\<close>: \<open>internal/tenant\<close> and \<open>internal/registration\<close>: the tenants with their state
    machine, quota, slugs and settings; the self-service registration with its signed verification tokens,
    which provisions a tenant.
  \<^item> \<open>Submissions\<close>, \<open>Commission\<close>: the rest of \<open>internal/marketplace\<close>: plugins submitted for review and
    published on approval; vendors and the commissions on their orders.
  \<^item> \<open>Quota\<close>: \<open>internal/quota\<close> and the usage meter of \<open>internal/billing\<close>: limits counted in buckets of
    minutes and days, and usage summed over a period.

  \<^bold>\<open>How they interact.\<close> An order is built from cart items priced in catalogue money. The webhook
  endpoint verifies a request, asks the event ledger of the repository, and runs the dispatcher, which
  calls the billing service, which runs the state machine and stores the result through the repository
  interface. The digital service reaches its three repositories through their ports. The publisher
  loads a product, the gate asks the store of approvals and its ledger, and drives the remote port;
  the client behind it talks to the proxy, whose log the join compares with the approvals. The publish workflow runs the compliance engine, waits
  for a review, records the decision in the store of approvals, and calls the publisher. The payment
  saga charges through a gateway, of which the Stripe adapter is one. The membership workflow drives the
  state machine of the membership domain and charges its gateway. The stock synchronisation and the order
  aggregator both reserve their keys in an idempotency store. The plugin registry validates a manifest, asks
  its sandbox for a hook, and moves the installation in its repositories. The registration reaches the tenants
  through its provisioner, which the tenant service implements. An approved submission is published in the
  catalogue that the plugin registry installs from.

  \<^bold>\<open>Interfaces.\<close> Each repository or store interface of the source is a record of operations that the
  clients take as an argument, and a locale states the laws its clients need: \<open>billing_repo\<close> (interpreted
  on the repository of the model as \<open>bmr\<close>), \<open>digital_repos\<close> (as \<open>mdr\<close>), \<open>durable_store\<close> (as \<open>pgs\<close>),
  \<open>idempotency\<close> (as \<open>mis\<close>), \<open>plugin_store\<close> and its extension \<open>reliable_store\<close> (as \<open>mps\<close>),
  \<open>tenant_store\<close> (as \<open>mts\<close>), \<open>review_store\<close> (as \<open>mss\<close>). The
  state machines are interpretations of the lifecycle locales: \<open>ol\<close> for orders, \<open>ml\<close> for
  memberships, \<open>dl\<close>, \<open>dla\<close> for licences, \<open>bl\<close> for billing, \<open>pl\<close> for plugins, \<open>tl\<close> for tenants, \<open>rl\<close> for
  registrations, \<open>sbl\<close> for submissions.

  \<^bold>\<open>What the lemmas show.\<close> Arithmetic is exact or its wrap-around is stated (order totals, costs, trial
  lengths, page offsets). State machines keep their well-formedness invariant and their tables on every
  history of operations. Services tell the truth: a success has the stated effect and touches nothing
  else, an error changes nothing but what is stated. Round trips hold (licence keys, signatures, the
  idempotency key). The concurrent parts (breaker, publish workers) are step functions, and their
  invariants are proved for every interleaving. Where the code misses a promise of its own, a theorem
  states what it does instead.

  \<^bold>\<open>Bounds.\<close> No definition needs fuel: every recursion terminates, except an activity without a retry
  limit (\<open>executeForever\<close>), which is a \<open>partial_function\<close> with \<open>None\<close> when no attempt ever succeeds. The
  install order takes as many rounds as there are manifests whose counter reaches zero. A publish ends after six
  steps (\<open>gate_steps_are_publish\<close>). Signed 64-bit values wrap at \<open>max_int64\<close>.

  \<^bold>\<open>Parameters.\<close> HMAC-SHA256 and SHA-256, the decoding of JSON documents, \<open>uuid.Parse\<close> and
  \<open>uuid.String\<close>, random bytes, clocks, \<open>mime.ParseMediaType\<close>, \<open>url.Parse\<close> of a configured address, the
  remote store behind the proxy, the resolver and the receivers of outbound webhooks, the outcome of each append to the audit file, the text of a UUID, and the
  ports of the sagas (label, messaging, refund, stock, channel, notifier, ledger, bus) are arguments of the
  definitions that use them. The database is modelled by its tables and the statements the source runs;
  each statement is atomic.

  \<^bold>\<open>Not modelled.\<close> Logging and metrics, the wiring of the processes in \<open>cmd\<close>, HTTP routing and the JSON shapes
  of the other handlers, the adapters of external services (payment, social, carrier and language-model
  clients), the agents, whose substance is prompts and calls of such clients, and the user interface.
\<close>

end
